(* ===== verification/Prelude.thy ===== *)
theory Prelude
  imports Complex_Main "HOL-Library.Word" "HOL-Library.Monad_Syntax"
begin

text \<open>
  Shared vocabulary of the development: the C integer types, the result type of operations
  whose C behaviour can be undefined, C integer division and shifts, checked array reads, and
  the lemma collections the component theories fill and use.

  Conventions.  A value of a C integer type that the code only moves, masks or compares is a
  word of the C width.  A signed quantity the code computes with is an \<open>int\<close>; where a signed
  operation could overflow, divide by zero or read out of bounds (undefined behaviour in C) the
  model is an option and \<open>None\<close> means that the C standard gives the execution no meaning.
\<close>

unbundle bit_operations_syntax

named_theorems config_simps "the constants of main/config.h"
named_theorems handler_defs "defining equations of the handlers"
named_theorems inv_intros "operations preserve the component invariants"

type_synonym u8 = "8 word"
type_synonym u16 = "16 word"
type_synonym u32 = "32 word"
type_synonym u64 = "64 word"

section \<open>Signed C arithmetic\<close>

definition int32_ok :: "int \<Rightarrow> bool" where
  "int32_ok i \<longleftrightarrow> - (2 ^ 31) \<le> i \<and> i < 2 ^ 31"

definition i32 :: "int \<Rightarrow> int option" where
  "i32 i = (if int32_ok i then Some i else None)"

text \<open>Integer division of C: it truncates towards zero.\<close>

definition c_quot :: "int \<Rightarrow> int \<Rightarrow> int" where
  "c_quot a b = sgn a * sgn b * (\<bar>a\<bar> div \<bar>b\<bar>)"

definition c_rem :: "int \<Rightarrow> int \<Rightarrow> int" where
  "c_rem a b = a - b * c_quot a b"

definition c_div :: "int \<Rightarrow> int \<Rightarrow> int option" where
  "c_div a b = (if b = 0 then None else i32 (c_quot a b))"

lemma i32_Some [simp]: "i32 i = Some j \<longleftrightarrow> int32_ok i \<and> j = i"
  by (auto simp: i32_def)

lemma c_quot_nonneg: "0 \<le> a \<Longrightarrow> 0 < b \<Longrightarrow> c_quot a b = a div b"
  by (simp add: c_quot_def sgn_if)

lemma c_quot_neg: "a < 0 \<Longrightarrow> 0 < b \<Longrightarrow> c_quot a b = - ((- a) div b)"
  by (simp add: c_quot_def)

lemma c_quot_bounds:
  assumes "0 < b" "b * lo \<le> a" "a \<le> b * hi" "lo \<le> 0" "0 \<le> hi"
  shows "lo \<le> c_quot a b \<and> c_quot a b \<le> hi"
proof (cases "0 \<le> a")
  case True
  have "a div b \<le> (b * hi) div b" using assms by (intro zdiv_mono1) auto
  then show ?thesis using True assms
    by (auto simp: c_quot_nonneg pos_imp_zdiv_nonneg_iff intro: order_trans [of lo 0])
next
  case False
  have "(- a) div b \<le> (b * (- lo)) div b" using assms by (intro zdiv_mono1) auto
  also have "(b * (- lo)) div b = - lo"
    using assms(1) by (intro nonzero_mult_div_cancel_left) simp
  finally have "(- a) div b \<le> - lo" .
  moreover have "0 \<le> (- a) div b" using False assms by (simp add: pos_imp_zdiv_nonneg_iff)
  ultimately show ?thesis using False assms by (auto simp: c_quot_neg)
qed

lemma div_less_bound: "0 < r \<Longrightarrow> x < k * r \<Longrightarrow> x div r < (k :: int)"
proof (rule ccontr)
  assume r: "0 < r" "x < k * r" and "\<not> x div r < k"
  then have "k * r \<le> (x div r) * r" by (intro mult_right_mono) auto
  also have "\<dots> \<le> x" using r(1) by (simp add: minus_mod_eq_div_mult [symmetric])
  finally show False using r(2) by simp
qed

section \<open>Checked reads\<close>

definition read_at :: "'a list \<Rightarrow> nat \<Rightarrow> 'a option" where
  "read_at xs i = (if i < length xs then Some (xs ! i) else None)"

lemma read_at_Some [simp]: "read_at xs i = Some x \<longleftrightarrow> i < length xs \<and> x = xs ! i"
  by (auto simp: read_at_def)

lemma read_at_None [simp]: "read_at xs i = None \<longleftrightarrow> length xs \<le> i"
  by (auto simp: read_at_def)

section \<open>Calls into the SDK\<close>

text \<open>
  A driver call is a value of an operation datatype.  What the SDK answers is a parameter of the
  model, a function \<open>resp\<close> of the whole history of calls (the last call is the one answered), so
  nothing is assumed about the hardware.  \<open>ESP_ERROR_CHECK\<close> aborts the program on an error.
\<close>

definition ESP_OK :: int where [simp]: "ESP_OK = 0"
definition ESP_FAIL :: int where [simp]: "ESP_FAIL = - 1"
definition ESP_ERR_NVS_NO_FREE_PAGES :: int where "ESP_ERR_NVS_NO_FREE_PAGES = 0x110d"
definition ESP_ERR_NVS_NEW_VERSION_FOUND :: int where "ESP_ERR_NVS_NEW_VERSION_FOUND = 0x1110"

datatype outcome = Returns int | Aborts

text \<open>A sequence of calls each under \<open>ESP_ERROR_CHECK\<close>: the history, and whether all passed.\<close>

fun esp_checked :: "('op list \<Rightarrow> int) \<Rightarrow> 'op list \<Rightarrow> 'op list \<Rightarrow> 'op list \<times> bool" where
  "esp_checked resp h [] = (h, True)"
| "esp_checked resp h (x # ops) =
     (let h' = h @ [x] in if resp h' = ESP_OK then esp_checked resp h' ops else (h', False))"

lemma esp_checked_True: "esp_checked resp h ops = (h', True) \<Longrightarrow> h' = h @ ops"
  by (induction resp h ops rule: esp_checked.induct) (auto simp: Let_def split: if_splits)

lemma esp_checked_prefix: "esp_checked resp h ops = (h', b) \<Longrightarrow> \<exists>n. h' = h @ take n ops"
proof (induction resp h ops arbitrary: h' b rule: esp_checked.induct)
  case (2 resp h x ops)
  show ?case
  proof (cases "resp (h @ [x]) = ESP_OK")
    case True
    with 2 obtain n where "h' = (h @ [x]) @ take n ops" by auto
    then show ?thesis by (intro exI [of _ "Suc n"]) simp
  next
    case False
    with "2.prems" show ?thesis by (intro exI [of _ 1]) (auto simp: Let_def)
  qed
qed simp

lemma esp_checked_all_ok: "(\<And>h. resp h = ESP_OK) \<Longrightarrow> esp_checked resp h ops = (h @ ops, True)"
  by (induction resp h ops rule: esp_checked.induct) (auto simp: Let_def)

section \<open>Words\<close>

lemma unat_less_u8: "unat (x :: u8) < 256"
  using unsigned_less [of x] by simp

lemma uint_bounds_u8: "0 \<le> uint (x :: u8) \<and> uint x \<le> 255"
  using uint_lt2p [of x] by simp

lemma sint_bounds_16: "- 32768 \<le> sint (x :: u16) \<and> sint x \<le> 32767"
  using sint_ge [of x] sint_lt [of x] by simp

lemma sint_word_of_int_id: "- (2 ^ 31) \<le> x \<Longrightarrow> x < 2 ^ 31 \<Longrightarrow> sint (word_of_int x :: u32) = x"
  by (simp add: sint_sbintrunc' signed_take_bit_int_eq_self)

lemma word_of_int_sint: "word_of_int (sint w) = w"
  by (metis scast_eq scast_id)

section \<open>Lists\<close>

lemma nth_list_update_if: "i < length xs \<Longrightarrow> (xs[j := v]) ! i = (if i = j then v else xs ! i)"
  by (auto simp: nth_list_update)

lemma all_nth_4: "(\<forall>i < 4. P i) \<longleftrightarrow> P 0 \<and> P 1 \<and> P 2 \<and> P (3 :: nat)"
proof -
  have "\<And>i. i < 4 \<longleftrightarrow> i = 0 \<or> i = 1 \<or> i = 2 \<or> i = (3 :: nat)" by auto
  then show ?thesis by auto
qed

end
