(* ===== verification/Machine_Float.thy ===== *)
theory Machine_Float
  imports Prelude "HOL-Library.Log_Nat"
begin

text \<open>
  The floating point arithmetic of the C code.  The flight code computes with \<open>float\<close> (IEEE 754
  binary32; the double constant \<open>M_PI\<close> brings in binary64 once).  A value is a NaN (payloads are not
  kept: no code reads them), an infinity with its sign, or a finite number with its sign and its
  magnitude as an exact rational, so that signed zeros are kept.  Every operation computes the exact
  rational result and rounds it once, to nearest with ties to even; overflow gives an infinity and
  gradual underflow is the smallest exponent of the format.  No multiplication is contracted with an
  addition and no excess precision is used (each C operator is one rounding).

  The operators \<open>+ - * /\<close>, \<open><\<close> and \<open>\<le>\<close> on type \<open>fp\<close> are the binary32 ones, so that the
  component theories read like the C text.  The lemmas say what the clients need: rounding is
  monotone, exact on representable numbers, keeps representable bounds, and operations on finite
  operands of moderate size are finite.  All definitions are executable.
\<close>

section \<open>Formats and rounding\<close>

record float_format =
  fprec :: int
  femin :: int
  femax :: int

definition binary32 :: float_format where
  "binary32 = \<lparr>fprec = 24, femin = -149, femax = 128\<rparr>"

definition binary64 :: float_format where
  "binary64 = \<lparr>fprec = 53, femin = -1074, femax = 1024\<rparr>"

definition round_half_even :: "rat \<Rightarrow> int" where
  "round_half_even y =
     (let f = \<lfloor>y\<rfloor>; d = y - of_int f in
      if d < 1 / 2 then f else if 1 / 2 < d then f + 1 else if even f then f else f + 1)"

definition exponent_of :: "rat \<Rightarrow> int" where
  "exponent_of x =
     (let (p, q) = quotient_of x; k = bitlen p - bitlen q in
      if 2 powi k \<le> x then k else k - 1)"

definition ulp_exp :: "float_format \<Rightarrow> rat \<Rightarrow> int" where
  "ulp_exp F x = max (exponent_of x - (fprec F - 1)) (femin F)"

definition round_mag :: "float_format \<Rightarrow> rat \<Rightarrow> rat" where
  "round_mag F x =
     (if x = 0 then 0
      else let u = 2 powi ulp_exp F x in of_int (round_half_even (x / u)) * u)"

lemma round_half_even_floor: "\<lfloor>y\<rfloor> \<le> round_half_even y \<and> round_half_even y \<le> \<lfloor>y\<rfloor> + 1"
  by (simp add: round_half_even_def Let_def)

lemma round_half_even_of_int [simp]: "round_half_even (of_int n) = n"
  by (simp add: round_half_even_def Let_def)

lemma round_half_even_le_int: "y \<le> of_int n \<Longrightarrow> round_half_even y \<le> n"
proof -
  assume h: "y \<le> of_int n"
  show ?thesis
  proof (cases "y = of_int n")
    case False
    with h have "y < of_int n" by simp
    then have "\<lfloor>y\<rfloor> < n" by (simp add: floor_less_iff)
    then show ?thesis using round_half_even_floor [of y] by linarith
  qed simp
qed

lemma round_half_even_ge_int: "of_int n \<le> y \<Longrightarrow> n \<le> round_half_even y"
  using round_half_even_floor [of y] by (simp add: le_floor_iff [symmetric])

lemma round_half_even_mono: "x \<le> y \<Longrightarrow> round_half_even x \<le> round_half_even y"
proof -
  assume h: "x \<le> y"
  then have fl: "\<lfloor>x\<rfloor> \<le> \<lfloor>y\<rfloor>" by (rule floor_mono)
  show ?thesis
  proof (cases "\<lfloor>x\<rfloor> = \<lfloor>y\<rfloor>")
    case True
    with h show ?thesis by (simp add: round_half_even_def Let_def)
  next
    case False
    with fl have "\<lfloor>x\<rfloor> + 1 \<le> \<lfloor>y\<rfloor>" by simp
    then show ?thesis
      using round_half_even_floor [of x] round_half_even_floor [of y] by linarith
  qed
qed

lemma powi_nat_le: "0 \<le> k \<Longrightarrow> (2::rat) powi k \<le> of_int n \<longleftrightarrow> 2 ^ nat k \<le> n"
  by (simp add: power_int_def)

lemma powi_nat_less: "0 \<le> k \<Longrightarrow> of_int n < (2::rat) powi k \<longleftrightarrow> n < 2 ^ nat k"
  by (simp add: power_int_def)

lemma powi_pos [simp]: "0 < (2::rat) powi k" by simp

lemma exponent_of_bounds:
  assumes "0 < x"
  shows "2 powi exponent_of x \<le> x" and "x < 2 powi (exponent_of x + 1)"
proof -
  obtain p q where pq: "quotient_of x = (p, q)" by (cases "quotient_of x")
  then have q: "0 < q" and x: "x = of_int p / of_int q"
    by (auto simp: quotient_of_denom_pos quotient_of_div)
  from assms x q have p: "0 < p" by (simp add: zero_less_divide_iff)
  define k where "k = bitlen p - bitlen q"
  have bp: "2 ^ nat (bitlen p - 1) \<le> p" "p < 2 ^ nat (bitlen p)"
    using bitlen_bounds [OF p] by auto
  have bq: "2 ^ nat (bitlen q - 1) \<le> q" "q < 2 ^ nat (bitlen q)"
    using bitlen_bounds [OF q] by auto
  have pos: "1 \<le> bitlen p" "1 \<le> bitlen q"
    using p q bitlen_eq_zero_iff [of p] bitlen_eq_zero_iff [of q]
      bitlen_nonneg [of p] bitlen_nonneg [of q] by linarith+
  have P1: "(2::rat) powi (bitlen p - 1) \<le> of_int p"
    using bp(1) pos by (simp add: powi_nat_le)
  have P2: "of_int p < (2::rat) powi bitlen p"
    using bp(2) pos by (simp add: powi_nat_less)
  have Q1: "(2::rat) powi (bitlen q - 1) \<le> of_int q"
    using bq(1) pos by (simp add: powi_nat_le)
  have Q2: "of_int q < (2::rat) powi bitlen q"
    using bq(2) pos by (simp add: powi_nat_less)
  have q': "(0::rat) < of_int q" using q by simp
  have "x < 2 powi (k + 1)"
  proof -
    have "of_int p < 2 powi (k + 1) * (2::rat) powi (bitlen q - 1)"
      using P2 by (simp add: k_def flip: power_int_add)
    also have "\<dots> \<le> 2 powi (k + 1) * of_int q"
      using Q1 by (intro mult_left_mono) auto
    finally show ?thesis using q' by (simp add: x divide_less_eq)
  qed
  moreover have "2 powi (k - 1) \<le> x"
  proof -
    have "2 powi (k - 1) * of_int q \<le> 2 powi (k - 1) * (2::rat) powi bitlen q"
      using Q2 by (intro mult_left_mono) auto
    also have "\<dots> = 2 powi (bitlen p - 1)"
      by (simp add: k_def flip: power_int_add)
    finally have "2 powi (k - 1) * of_int q \<le> (of_int p :: rat)" using P1 by simp
    then show ?thesis using q' by (simp add: x le_divide_eq)
  qed
  ultimately show "2 powi exponent_of x \<le> x" and "x < 2 powi (exponent_of x + 1)"
    by (auto simp: exponent_of_def pq Let_def k_def [symmetric] split: if_splits)
qed

lemma powi_less_iff [simp]: "(2::rat) powi a < 2 powi b \<longleftrightarrow> a < b"
  by (metis linorder_not_less one_less_numeral_iff order_less_imp_le power_int_increasing
      power_int_strict_increasing semiring_norm(76))

lemma exponent_of_mono:
  assumes "0 < x" "x \<le> y"
  shows "exponent_of x \<le> exponent_of y"
proof -
  have "2 powi exponent_of x \<le> x" using exponent_of_bounds(1) [OF assms(1)] .
  also have "\<dots> \<le> y" by fact
  also have "y < 2 powi (exponent_of y + 1)"
    using exponent_of_bounds(2) [of y] assms by linarith
  finally have "exponent_of x < exponent_of y + 1" by simp
  then show ?thesis by simp
qed

lemma ulp_exp_mono: "0 < x \<Longrightarrow> x \<le> y \<Longrightarrow> ulp_exp F x \<le> ulp_exp F y"
  using exponent_of_mono [of x y] by (simp add: ulp_exp_def)

lemma powi_int_multiple:
  "e \<le> k \<Longrightarrow> (2::rat) powi k / 2 powi e = of_int (2 ^ nat (k - e))"
  by (simp add: power_int_diff [symmetric]) (simp add: power_int_def)

lemma round_mag_nonneg: "0 \<le> x \<Longrightarrow> 0 \<le> round_mag F x"
  using round_half_even_ge_int [of 0 "x / 2 powi ulp_exp F x"]
  by (simp add: round_mag_def Let_def)

lemma round_mag_le_powi:
  assumes "0 < x" "x \<le> 2 powi k" "ulp_exp F x \<le> k"
  shows "round_mag F x \<le> 2 powi k"
proof -
  let ?u = "(2::rat) powi ulp_exp F x"
  have "x / ?u \<le> 2 powi k / ?u" using assms(2) by (intro divide_right_mono) auto
  then have "round_half_even (x / ?u) \<le> 2 ^ nat (k - ulp_exp F x)"
    using powi_int_multiple [OF assms(3)] by (intro round_half_even_le_int) simp
  then have "(of_int (round_half_even (x / ?u)) :: rat) \<le> 2 powi k / ?u"
    using powi_int_multiple [OF assms(3)] by (metis of_int_le_iff)
  then show ?thesis using assms(1) by (simp add: round_mag_def Let_def le_divide_eq)
qed

lemma round_mag_ge_powi:
  assumes "2 powi k \<le> x" "ulp_exp F x \<le> k"
  shows "2 powi k \<le> round_mag F x"
proof -
  let ?u = "(2::rat) powi ulp_exp F x"
  have pos: "0 < x" using assms(1) powi_pos [of k] by linarith
  have "2 powi k / ?u \<le> x / ?u" using assms(1) by (intro divide_right_mono) auto
  then have "2 ^ nat (k - ulp_exp F x) \<le> round_half_even (x / ?u)"
    using powi_int_multiple [OF assms(2)] by (intro round_half_even_ge_int) simp
  then have "2 powi k / ?u \<le> (of_int (round_half_even (x / ?u)) :: rat)"
    using powi_int_multiple [OF assms(2)] by (metis of_int_le_iff)
  then show ?thesis using pos by (simp add: round_mag_def Let_def divide_le_eq)
qed

lemma round_mag_mono:
  assumes "1 \<le> fprec F" "0 \<le> x" "x \<le> y"
  shows "round_mag F x \<le> round_mag F y"
proof (cases "x = 0")
  case True
  then show ?thesis using round_mag_nonneg [of y F] assms by (simp add: round_mag_def)
next
  case False
  with assms have x: "0 < x" and y: "0 < y" by auto
  show ?thesis
  proof (cases "ulp_exp F x = ulp_exp F y")
    case True
    have "x / 2 powi ulp_exp F y \<le> y / 2 powi ulp_exp F y"
      using assms(3) by (intro divide_right_mono) auto
    then have "round_half_even (x / 2 powi ulp_exp F y) \<le> round_half_even (y / 2 powi ulp_exp F y)"
      by (rule round_half_even_mono)
    then show ?thesis using x y True by (simp add: round_mag_def Let_def)
  next
    case False
    with ulp_exp_mono [OF x assms(3), of F] have lt: "ulp_exp F x < ulp_exp F y" by simp
    then have e: "exponent_of x < exponent_of y" "ulp_exp F y \<le> exponent_of y"
      using assms(1) by (auto simp: ulp_exp_def max_def split: if_splits)
    have "x < 2 powi (exponent_of x + 1)" by (rule exponent_of_bounds(2) [OF x])
    also have "\<dots> \<le> (2::rat) powi exponent_of y" using e by (intro power_int_increasing) auto
    finally have "round_mag F x \<le> 2 powi exponent_of y"
      using x lt e by (intro round_mag_le_powi) auto
    also have "\<dots> \<le> round_mag F y"
      using e exponent_of_bounds(1) [OF y] by (intro round_mag_ge_powi) auto
    finally show ?thesis .
  qed
qed

definition representable :: "float_format \<Rightarrow> rat \<Rightarrow> bool" where
  "representable F x \<longleftrightarrow> (\<exists>m e. x = of_int m * 2 powi e \<and> 0 \<le> m \<and> m < 2 ^ nat (fprec F) \<and> femin F \<le> e)"

lemma round_mag_representable:
  assumes "representable F x" "1 \<le> fprec F"
  shows "round_mag F x = x"
proof (cases "x = 0")
  case False
  obtain m e where me: "x = of_int m * 2 powi e" "0 \<le> m" "m < 2 ^ nat (fprec F)" "femin F \<le> e"
    using assms(1) by (auto simp: representable_def)
  from me False have x: "0 < x" by (cases "m = 0") (auto intro!: mult_pos_pos)
  have "(of_int m :: rat) < 2 powi fprec F"
    using me(3) assms(2) by (simp add: powi_nat_less)
  then have "x < 2 powi fprec F * 2 powi e" using me(1) by (simp add: mult_strict_right_mono)
  also have "\<dots> = 2 powi (fprec F + e)" by (simp add: power_int_add)
  finally have "2 powi exponent_of x < (2::rat) powi (fprec F + e)"
    using exponent_of_bounds(1) [OF x] by linarith
  then have "ulp_exp F x \<le> e" using me(4) by (simp add: ulp_exp_def)
  then have "x / 2 powi ulp_exp F x = of_int m * of_int (2 ^ nat (e - ulp_exp F x))"
    using powi_int_multiple [of "ulp_exp F x" e] me(1)
    by (metis times_divide_eq_right)
  then have q: "x / 2 powi ulp_exp F x = of_int (m * 2 ^ nat (e - ulp_exp F x))" by simp
  have "of_int (round_half_even (x / 2 powi ulp_exp F x)) * 2 powi ulp_exp F x = x"
    unfolding q round_half_even_of_int using q
    by (metis nonzero_divide_eq_eq powi_pos less_irrefl)
  with False show ?thesis by (simp add: round_mag_def Let_def)
qed (simp add: round_mag_def)

lemma representable_round_mag:
  assumes "0 \<le> x" "1 \<le> fprec F"
  shows "representable F (round_mag F x)"
proof (cases "x = 0")
  case True
  have "representable F 0" unfolding representable_def
    by (intro exI [of _ 0] exI [of _ "femin F"]) simp
  with True show ?thesis by (simp add: round_mag_def)
next
  case False
  with assms have x: "0 < x" by simp
  let ?u = "ulp_exp F x" and ?p = "nat (fprec F)"
  let ?n = "round_half_even (x / 2 powi ?u)"
  have "x < 2 powi (exponent_of x + 1)" by (rule exponent_of_bounds(2) [OF x])
  also have "\<dots> \<le> (2::rat) powi (fprec F + ?u)"
    by (intro power_int_increasing) (auto simp: ulp_exp_def)
  finally have "x / 2 powi ?u \<le> 2 powi fprec F"
    by (simp add: power_int_add divide_le_eq)
  also have "(2::rat) powi fprec F = of_int (2 ^ ?p)"
    using assms(2) by (simp add: power_int_def)
  finally have le: "?n \<le> 2 ^ ?p" by (rule round_half_even_le_int)
  have ge: "0 \<le> ?n" using x by (intro round_half_even_ge_int) simp
  have eq: "round_mag F x = of_int ?n * 2 powi ?u" using False by (simp add: round_mag_def Let_def)
  show ?thesis
  proof (cases "?n = 2 ^ ?p")
    case True
    have "round_mag F x = of_int 1 * 2 powi (fprec F + ?u)"
      using assms(2) unfolding eq True by (simp add: power_int_add) (simp add: power_int_def)
    moreover have "(1::int) < 2 ^ ?p" using assms(2) by simp
    moreover have "femin F \<le> fprec F + ?u" using assms(2) by (simp add: ulp_exp_def)
    ultimately show ?thesis unfolding representable_def by (metis zero_le_one)
  next
    case False
    with le ge eq show ?thesis unfolding representable_def
      by (intro exI [of _ ?n] exI [of _ ?u]) (auto simp: ulp_exp_def)
  qed
qed

section \<open>Values and operations\<close>

datatype fp = FNaN | FInf bool | FFin bool rat

fun fvalue :: "fp \<Rightarrow> rat" where
  "fvalue (FFin s m) = (if s then - m else m)"
| "fvalue _ = 0"

fun is_finite :: "fp \<Rightarrow> bool" where
  "is_finite (FFin s m) = True"
| "is_finite _ = False"

text \<open>\<open>is_nan\<close> is \<open>isnan\<close> of the C library.\<close>

definition is_nan :: "fp \<Rightarrow> bool" where
  "is_nan a \<longleftrightarrow> a = FNaN"

definition fround :: "float_format \<Rightarrow> bool \<Rightarrow> rat \<Rightarrow> fp" where
  "fround F s x =
     (if x = 0 then FFin s 0
      else let m = round_mag F \<bar>x\<bar> in
        if 2 powi femax F \<le> m then FInf (x < 0) else FFin (x < 0) m)"

fun fneg :: "fp \<Rightarrow> fp" where
  "fneg FNaN = FNaN"
| "fneg (FInf s) = FInf (\<not> s)"
| "fneg (FFin s m) = FFin (\<not> s) m"

fun fadd :: "float_format \<Rightarrow> fp \<Rightarrow> fp \<Rightarrow> fp" where
  "fadd F FNaN b = FNaN"
| "fadd F a FNaN = FNaN"
| "fadd F (FInf s) (FInf t) = (if s = t then FInf s else FNaN)"
| "fadd F (FInf s) b = FInf s"
| "fadd F a (FInf t) = FInf t"
| "fadd F (FFin s m) (FFin t n) =
     fround F (s \<and> t) (fvalue (FFin s m) + fvalue (FFin t n))"

fun fmul :: "float_format \<Rightarrow> fp \<Rightarrow> fp \<Rightarrow> fp" where
  "fmul F FNaN b = FNaN"
| "fmul F a FNaN = FNaN"
| "fmul F (FInf s) (FInf t) = FInf (s \<noteq> t)"
| "fmul F (FInf s) (FFin t n) = (if n = 0 then FNaN else FInf (s \<noteq> t))"
| "fmul F (FFin s m) (FInf t) = (if m = 0 then FNaN else FInf (s \<noteq> t))"
| "fmul F (FFin s m) (FFin t n) =
     fround F (s \<noteq> t) (fvalue (FFin s m) * fvalue (FFin t n))"

fun fdiv :: "float_format \<Rightarrow> fp \<Rightarrow> fp \<Rightarrow> fp" where
  "fdiv F FNaN b = FNaN"
| "fdiv F a FNaN = FNaN"
| "fdiv F (FInf s) (FInf t) = FNaN"
| "fdiv F (FInf s) (FFin t n) = FInf (s \<noteq> t)"
| "fdiv F (FFin s m) (FInf t) = FFin (s \<noteq> t) 0"
| "fdiv F (FFin s m) (FFin t n) =
     (if n = 0 then (if m = 0 then FNaN else FInf (s \<noteq> t))
      else fround F (s \<noteq> t) (fvalue (FFin s m) / fvalue (FFin t n)))"

fun fless :: "fp \<Rightarrow> fp \<Rightarrow> bool" where
  "fless FNaN b = False"
| "fless a FNaN = False"
| "fless (FInf s) (FInf t) = (s \<and> \<not> t)"
| "fless (FInf s) (FFin t n) = s"
| "fless (FFin s m) (FInf t) = (\<not> t)"
| "fless (FFin s m) (FFin t n) = (fvalue (FFin s m) < fvalue (FFin t n))"

fun feq :: "fp \<Rightarrow> fp \<Rightarrow> bool" where
  "feq FNaN b = False"
| "feq a FNaN = False"
| "feq (FInf s) (FInf t) = (s = t)"
| "feq (FInf s) (FFin t n) = False"
| "feq (FFin s m) (FInf t) = False"
| "feq (FFin s m) (FFin t n) = (fvalue (FFin s m) = fvalue (FFin t n))"

fun fabs :: "fp \<Rightarrow> fp" where
  "fabs FNaN = FNaN"
| "fabs (FInf s) = FInf False"
| "fabs (FFin s m) = FFin False m"

fun trunc_int :: "fp \<Rightarrow> int option" where
  "trunc_int (FFin s m) =
     (let v = fvalue (FFin s m) in Some (if v < 0 then - \<lfloor>- v\<rfloor> else \<lfloor>v\<rfloor>))"
| "trunc_int _ = None"

fun fconvert :: "float_format \<Rightarrow> fp \<Rightarrow> fp" where
  "fconvert F (FFin s m) = fround F s (fvalue (FFin s m))"
| "fconvert F a = a"

definition flit :: "rat \<Rightarrow> fp" where
  "flit x = fround binary32 (x < 0) x"

definition f32_of_int :: "int \<Rightarrow> fp" where
  "f32_of_int i = fround binary32 False (of_int i)"

instantiation fp :: "{zero, plus, minus, uminus, times, inverse, ord}"
begin

definition zero_fp :: "fp" where "zero_fp = FFin False 0"

definition plus_fp :: "fp \<Rightarrow> fp \<Rightarrow> fp" where "plus_fp = fadd binary32"

definition uminus_fp :: "fp \<Rightarrow> fp" where "uminus_fp = fneg"

definition minus_fp :: "fp \<Rightarrow> fp \<Rightarrow> fp" where "minus_fp a b = fadd binary32 a (fneg b)"

definition times_fp :: "fp \<Rightarrow> fp \<Rightarrow> fp" where "times_fp = fmul binary32"

definition inverse_fp :: "fp \<Rightarrow> fp" where "inverse_fp a = fdiv binary32 (FFin False 1) a"

definition divide_fp :: "fp \<Rightarrow> fp \<Rightarrow> fp" where "divide_fp = fdiv binary32"

definition less_fp :: "fp \<Rightarrow> fp \<Rightarrow> bool" where "less_fp = fless"

definition less_eq_fp :: "fp \<Rightarrow> fp \<Rightarrow> bool" where "less_eq_fp a b = (fless a b \<or> feq a b)"

instance ..

end


section \<open>Rounded values\<close>

definition fits :: "float_format \<Rightarrow> rat \<Rightarrow> bool" where
  "fits F x \<longleftrightarrow> representable F \<bar>x\<bar> \<and> \<bar>x\<bar> < 2 powi femax F"

definition round_val :: "float_format \<Rightarrow> rat \<Rightarrow> rat" where
  "round_val F x = (if x < 0 then - round_mag F (- x) else round_mag F x)"

lemma fvalue_fround:
  "is_finite (fround F s x) \<Longrightarrow> fvalue (fround F s x) = round_val F x"
  by (auto simp: fround_def round_val_def Let_def round_mag_def [of F 0] split: if_splits)

lemma is_finite_fround:
  "is_finite (fround F s x) \<longleftrightarrow> \<bar>round_val F x\<bar> < 2 powi femax F"
  using round_mag_nonneg [of "\<bar>x\<bar>" F]
  by (auto simp: fround_def round_val_def Let_def round_mag_def [of F 0] not_le)

lemma not_nan_fround [simp]: "fround F s x \<noteq> FNaN"
  by (simp add: fround_def Let_def)

lemma round_val_mono: "1 \<le> fprec F \<Longrightarrow> x \<le> y \<Longrightarrow> round_val F x \<le> round_val F y"
  using round_mag_mono [of F x y] round_mag_mono [of F "- y" "- x"]
    round_mag_nonneg [of "- x" F] round_mag_nonneg [of y F]
  by (auto simp: round_val_def)

lemma round_val_exact: "1 \<le> fprec F \<Longrightarrow> fits F x \<Longrightarrow> round_val F x = x"
  using round_mag_representable [of F "\<bar>x\<bar>"] by (auto simp: round_val_def fits_def)

lemma round_val_minus [simp]: "round_val F (- x) = - round_val F x"
  by (simp add: round_val_def round_mag_def)

lemma fits_minus [simp]: "fits F (- x) = fits F x"
  by (simp add: fits_def)

lemma round_val_upper: "1 \<le> fprec F \<Longrightarrow> fits F B \<Longrightarrow> x \<le> B \<Longrightarrow> round_val F x \<le> B"
  using round_val_mono [of F x B] round_val_exact [of F B] by simp

lemma round_val_lower: "1 \<le> fprec F \<Longrightarrow> fits F B \<Longrightarrow> B \<le> x \<Longrightarrow> B \<le> round_val F x"
  using round_val_mono [of F B x] round_val_exact [of F B] by simp

lemma fits32_dyadic:
  assumes "x = of_int m / 2 ^ k" "\<bar>m\<bar> < 2 ^ 24" "k \<le> 149"
  shows "fits binary32 x"
proof -
  have "\<bar>x\<bar> = of_int \<bar>m\<bar> * 2 powi (- int k)"
    using assms(1) by (simp add: power_int_minus divide_inverse abs_mult)
  moreover have "\<bar>x\<bar> < 2 ^ 128"
  proof -
    have "\<bar>x\<bar> \<le> of_int \<bar>m\<bar>" using assms(1) by (simp add: divide_le_eq mult_left_le_one_le)
       (metis abs_ge_zero mult.right_neutral mult_left_mono one_le_numeral one_le_power of_int_0_le_iff)
    also have "\<dots> < of_int (2 ^ 24)" using assms(2) by (metis of_int_less_iff)
    finally show ?thesis by simp
  qed
  moreover have "representable binary32 (of_int \<bar>m\<bar> * 2 powi (- int k))"
    unfolding representable_def using assms(2,3)
    by (intro exI [of _ "\<bar>m\<bar>"] exI [of _ "- int k"]) (simp add: binary32_def)
  ultimately show ?thesis by (simp add: fits_def binary32_def)
qed

lemma fits32_int: "\<bar>m\<bar> < 2 ^ 24 \<Longrightarrow> fits binary32 (of_int m)"
  by (rule fits32_dyadic [of _ m 0]) auto

lemma fits32_pow2: "k < 128 \<Longrightarrow> fits binary32 (2 ^ k)"
proof -
  assume k: "k < 128"
  have "representable binary32 (2 ^ k)" unfolding representable_def
    by (intro exI [of _ 1] exI [of _ "int k"]) (simp add: binary32_def)
  moreover have "(2::rat) ^ k < 2 ^ 128" using k by (intro power_strict_increasing) auto
  ultimately show ?thesis by (simp add: fits_def binary32_def)
qed

lemma fprec32 [simp]: "fprec binary32 = 24" "femax binary32 = 128"
  by (simp_all add: binary32_def)

definition moderate :: "rat \<Rightarrow> bool" where
  "moderate x \<longleftrightarrow> \<bar>x\<bar> \<le> 2 ^ 120"

lemma fround32_moderate:
  assumes "moderate x"
  shows "is_finite (fround binary32 s x)" and "fvalue (fround binary32 s x) = round_val binary32 x"
    and "moderate (round_val binary32 x)"
proof -
  have f: "fits binary32 (2 ^ 120)" by (rule fits32_pow2) simp
  have "round_val binary32 x \<le> 2 ^ 120" "- (2 ^ 120) \<le> round_val binary32 x"
    using assms f by (auto simp: moderate_def intro!: round_val_upper round_val_lower)
  then show m: "moderate (round_val binary32 x)" by (auto simp: moderate_def)
  have "(2::rat) ^ 120 < 2 ^ 128" by (rule power_strict_increasing) auto
  with m show fin: "is_finite (fround binary32 s x)"
    unfolding is_finite_fround moderate_def by simp
  show "fvalue (fround binary32 s x) = round_val binary32 x" by (rule fvalue_fround [OF fin])
qed

lemma fin_ops:
  assumes "is_finite a" "is_finite b"
  shows "\<exists>s. a + b = fround binary32 s (fvalue a + fvalue b)"
    and "\<exists>s. a - b = fround binary32 s (fvalue a - fvalue b)"
    and "\<exists>s. a * b = fround binary32 s (fvalue a * fvalue b)"
    and "fvalue b \<noteq> 0 \<Longrightarrow> \<exists>s. a / b = fround binary32 s (fvalue a / fvalue b)"
  using assms
  by (cases a; cases b; force simp: plus_fp_def minus_fp_def times_fp_def divide_fp_def)+

lemma fin_arith:
  assumes "is_finite a" "is_finite b" 
  shows "moderate (fvalue a + fvalue b) \<Longrightarrow>
      is_finite (a + b) \<and> fvalue (a + b) = round_val binary32 (fvalue a + fvalue b)"
    and "moderate (fvalue a - fvalue b) \<Longrightarrow>
      is_finite (a - b) \<and> fvalue (a - b) = round_val binary32 (fvalue a - fvalue b)"
    and "moderate (fvalue a * fvalue b) \<Longrightarrow>
      is_finite (a * b) \<and> fvalue (a * b) = round_val binary32 (fvalue a * fvalue b)"
    and "fvalue b \<noteq> 0 \<Longrightarrow> moderate (fvalue a / fvalue b) \<Longrightarrow>
      is_finite (a / b) \<and> fvalue (a / b) = round_val binary32 (fvalue a / fvalue b)"
  using fin_ops [OF assms] fround32_moderate by metis+

lemmas fin_add = fin_arith(1)
lemmas fin_sub = fin_arith(2)
lemmas fin_mult = fin_arith(3)
lemmas fin_div = fin_arith(4)

lemma fits_round_val:
  "1 \<le> fprec F \<Longrightarrow> \<bar>round_val F x\<bar> < 2 powi femax F \<Longrightarrow> fits F (round_val F x)"
  using representable_round_mag [of "\<bar>x\<bar>" F] round_mag_nonneg [of "\<bar>x\<bar>" F]
  by (auto simp: fits_def round_val_def split: if_splits)

lemma round_val_idem:
  assumes "moderate x"
  shows "round_val binary32 (round_val binary32 x) = round_val binary32 x"
proof -
  have "\<bar>round_val binary32 x\<bar> < 2 powi femax binary32"
    using fround32_moderate(1) [OF assms] by (simp add: is_finite_fround)
  then have "fits binary32 (round_val binary32 x)" by (intro fits_round_val) auto
  then show ?thesis by (intro round_val_exact) auto
qed

lemma round_val_0 [simp]: "round_val F 0 = 0"
  by (simp add: round_val_def round_mag_def)

lemma round_val_sign:
  "1 \<le> fprec F \<Longrightarrow> 0 \<le> x \<Longrightarrow> 0 \<le> round_val F x"
  "1 \<le> fprec F \<Longrightarrow> x \<le> 0 \<Longrightarrow> round_val F x \<le> 0"
  using round_val_mono [of F 0 x] round_val_mono [of F x 0] by simp_all

lemma zero_fp_simps [simp]: "is_finite 0" "fvalue 0 = 0"
  by (simp_all add: zero_fp_def)

lemma is_finite_not_nan: "is_finite a \<Longrightarrow> \<not> is_nan a"
  by (cases a) (simp_all add: is_nan_def)

lemma fp_between:
  assumes "\<not> is_nan a" "is_finite l" "is_finite u" "\<not> a < l" "\<not> u < a"
  shows "is_finite a \<and> fvalue l \<le> fvalue a \<and> fvalue a \<le> fvalue u"
  using assms by (cases a; cases l; cases u) (auto simp: is_nan_def less_fp_def split: if_splits)

lemma nan_ops [simp]:
  "FNaN + b = FNaN" "a + FNaN = FNaN" "FNaN - b = FNaN" "a - FNaN = FNaN"
  "FNaN * b = FNaN" "a * FNaN = FNaN" "FNaN / b = FNaN" "a / FNaN = FNaN" "- FNaN = FNaN"
  "\<not> FNaN < b" "\<not> a < FNaN" "\<not> FNaN \<le> b" "\<not> a \<le> FNaN"
  by (cases a; cases b; simp add: plus_fp_def minus_fp_def times_fp_def divide_fp_def
      uminus_fp_def less_fp_def less_eq_fp_def)+

lemma fin_less: "is_finite a \<Longrightarrow> is_finite b \<Longrightarrow> (a < b) = (fvalue a < fvalue b)"
  by (cases a; cases b) (auto simp: less_fp_def)

lemma fin_le: "is_finite a \<Longrightarrow> is_finite b \<Longrightarrow> (a \<le> b) = (fvalue a \<le> fvalue b)"
  by (cases a; cases b) (auto simp: less_eq_fp_def)

lemma fin_uminus [simp]: "is_finite (- a) = is_finite a" "fvalue (- a) = - fvalue a"
  by (cases a; auto simp: uminus_fp_def)+

lemma f32_of_int_exact:
  "\<bar>i\<bar> < 2 ^ 24 \<Longrightarrow> is_finite (f32_of_int i) \<and> fvalue (f32_of_int i) = of_int i"
proof -
  assume h: "\<bar>i\<bar> < 2 ^ 24"
  then have "fits binary32 (of_int i)" by (rule fits32_int)
  then have e: "round_val binary32 (of_int i) = of_int i" by (simp add: round_val_exact)
  have "\<bar>of_int i :: rat\<bar> < of_int (2 ^ 24)" using h by (metis of_int_abs of_int_less_iff)
  then have "\<bar>of_int i :: rat\<bar> < 2 powi femax binary32" by simp
  with e have "is_finite (f32_of_int i)" by (simp add: f32_of_int_def is_finite_fround)
  then show ?thesis using e fvalue_fround by (auto simp: f32_of_int_def)
qed

section \<open>Bounded finite values\<close>

text \<open>Operations on bounded operands are finite and bounded by a power of two.\<close>

definition fbounded :: "fp \<Rightarrow> rat \<Rightarrow> bool" where
  "fbounded a B \<longleftrightarrow> is_finite a \<and> \<bar>fvalue a\<bar> \<le> B"

lemma within_weaken: "fbounded a A \<Longrightarrow> A \<le> B \<Longrightarrow> fbounded a B"
  by (auto simp: fbounded_def)

lemma within_finite: "fbounded a B \<Longrightarrow> is_finite a"
  by (simp add: fbounded_def)

lemma round_val_within:
  assumes "\<bar>x\<bar> \<le> 2 ^ k" "k \<le> 120"
  shows "moderate x" "\<bar>round_val binary32 x\<bar> \<le> 2 ^ k"
proof -
  have "(2 :: rat) ^ k \<le> 2 ^ 120" using assms(2) by (rule power_increasing) simp
  with assms(1) show "moderate x" unfolding moderate_def by (rule order_trans)
  have f: "fits binary32 (2 ^ k)" using assms(2) by (intro fits32_pow2) simp
  then have "round_val binary32 x \<le> 2 ^ k" "- (2 ^ k) \<le> round_val binary32 x"
    using assms(1) by (auto intro!: round_val_upper round_val_lower)
  then show "\<bar>round_val binary32 x\<bar> \<le> 2 ^ k" by (simp add: abs_le_iff)
qed

lemma within_add:
  assumes "fbounded a A" "fbounded b B" "A + B \<le> 2 ^ k" "k \<le> 120"
  shows "fbounded (a + b) (2 ^ k)"
proof -
  have "\<bar>fvalue a + fvalue b\<bar> \<le> A + B"
    using assms(1,2) abs_triangle_ineq [of "fvalue a" "fvalue b"] by (simp add: fbounded_def)
  then have "\<bar>fvalue a + fvalue b\<bar> \<le> 2 ^ k" using assms(3) by (rule order_trans)
  from round_val_within [OF this assms(4)] show ?thesis
    using fin_add [of a b] assms(1,2) by (simp add: fbounded_def)
qed

lemma within_sub:
  assumes "fbounded a A" "fbounded b B" "A + B \<le> 2 ^ k" "k \<le> 120"
  shows "fbounded (a - b) (2 ^ k)"
proof -
  have "\<bar>fvalue a - fvalue b\<bar> \<le> A + B"
    using assms(1,2) abs_triangle_ineq4 [of "fvalue a" "fvalue b"] by (simp add: fbounded_def)
  then have "\<bar>fvalue a - fvalue b\<bar> \<le> 2 ^ k" using assms(3) by (rule order_trans)
  from round_val_within [OF this assms(4)] show ?thesis
    using fin_sub [of a b] assms(1,2) by (simp add: fbounded_def)
qed

lemma within_mult:
  assumes "fbounded a A" "fbounded b B" "A * B \<le> 2 ^ k" "k \<le> 120"
  shows "fbounded (a * b) (2 ^ k)"
proof -
  have "\<bar>fvalue a * fvalue b\<bar> \<le> A * B" unfolding abs_mult
    using assms(1,2) by (intro mult_mono) (auto simp: fbounded_def)
  then have "\<bar>fvalue a * fvalue b\<bar> \<le> 2 ^ k" using assms(3) by (rule order_trans)
  from round_val_within [OF this assms(4)] show ?thesis
    using fin_mult [of a b] assms(1,2) by (simp add: fbounded_def)
qed

lemma within_div:
  assumes "fbounded a A" "is_finite b" "L \<le> \<bar>fvalue b\<bar>" "0 < L" "A \<le> L * 2 ^ k" "k \<le> 120"
  shows "fbounded (a / b) (2 ^ k)"
proof -
  have "\<bar>fvalue a\<bar> \<le> L * 2 ^ k" using assms(1,5) by (simp add: fbounded_def)
  also have "\<dots> \<le> \<bar>fvalue b\<bar> * 2 ^ k" using assms(3) by (intro mult_right_mono) auto
  finally have "\<bar>fvalue a / fvalue b\<bar> \<le> 2 ^ k"
    using assms(3,4) by (simp add: abs_divide divide_le_eq mult.commute)
  from round_val_within [OF this assms(6)] show ?thesis
    using fin_div [of a b] assms(1-4) by (auto simp: fbounded_def)
qed

section \<open>Well-formed values\<close>

text \<open>
  The values a binary32 variable can hold: every operation yields such a value, so a client may
  assume it of every variable of the program.
\<close>

fun fp_wf :: "fp \<Rightarrow> bool" where
  "fp_wf (FFin s m) = (0 \<le> m \<and> fits binary32 m)"
| "fp_wf _ = True"

lemma fp_wf_fround [simp]: "fp_wf (fround binary32 s x)"
proof -
  have z: "fits binary32 0"
    unfolding fits_def representable_def by (auto intro!: exI [of _ 0] exI [of _ "- 149"] simp: binary32_def)
  have "\<bar>round_mag binary32 \<bar>x\<bar>\<bar> = round_mag binary32 \<bar>x\<bar>"
    using round_mag_nonneg [of "\<bar>x\<bar>" binary32] by simp
  then show ?thesis
    using z round_mag_nonneg [of "\<bar>x\<bar>" binary32] representable_round_mag [of "\<bar>x\<bar>" binary32]
    by (auto simp: fround_def Let_def fits_def not_le)
qed

lemma fp_wf_fneg [simp]: "fp_wf (- a) = fp_wf a"
  by (cases a) (auto simp: uminus_fp_def)

lemma fits_0 [simp]: "fits binary32 0"
  using fits32_int [of 0] by simp

lemma fp_wf_ops [simp]:
  "fp_wf a \<Longrightarrow> fp_wf b \<Longrightarrow> fp_wf (a + b)" "fp_wf a \<Longrightarrow> fp_wf b \<Longrightarrow> fp_wf (a - b)"
  "fp_wf a \<Longrightarrow> fp_wf b \<Longrightarrow> fp_wf (a * b)" "fp_wf a \<Longrightarrow> fp_wf b \<Longrightarrow> fp_wf (a / b)"
  by (cases a; cases b; force simp: plus_fp_def minus_fp_def times_fp_def divide_fp_def)+

lemma fp_wf_flit [simp]: "fp_wf (flit x)" "fp_wf (f32_of_int i)" "fp_wf 0"
  by (simp_all add: flit_def f32_of_int_def zero_fp_def)

lemma fp_wf_value: "fp_wf a \<Longrightarrow> is_finite a \<Longrightarrow> fits binary32 (fvalue a)"
  by (cases a) auto

lemma fp_wf_round [simp]: "fp_wf a \<Longrightarrow> is_finite a \<Longrightarrow> round_val binary32 (fvalue a) = fvalue a"
  by (simp add: fp_wf_value round_val_exact)

section \<open>Square root\<close>

text \<open>The integer square root by base-4 digits, and the correctly rounded \<open>sqrtf\<close>.\<close>

fun isqrt :: "nat \<Rightarrow> nat" where
  "isqrt n = (if n = 0 then 0
     else let r = 2 * isqrt (n div 4) in if (r + 1) * (r + 1) \<le> n then r + 1 else r)"

declare isqrt.simps [simp del]

lemma isqrt_bounds: "isqrt n * isqrt n \<le> n \<and> n < (isqrt n + 1) * (isqrt n + 1)"
proof (induction n rule: isqrt.induct)
  case (1 n)
  show ?case
  proof (cases "n = 0")
    case True
    then show ?thesis by (simp add: isqrt.simps)
  next
    case False
    define r where "r = isqrt (n div 4)"
    have "r * r \<le> n div 4" "n div 4 < (r + 1) * (r + 1)" using "1.IH" [OF False] by (auto simp: r_def)
    then have b: "4 * (r * r) \<le> n" "n < 4 * ((r + 1) * (r + 1))" by linarith+
    have e: "isqrt n = (if (2 * r + 1) * (2 * r + 1) \<le> n then 2 * r + 1 else 2 * r)"
      using False by (simp add: isqrt.simps [of n] Let_def r_def)
    have "(2 * r) * (2 * r) = 4 * (r * r)" "(2 * r + 1 + 1) * (2 * r + 1 + 1) = 4 * ((r + 1) * (r + 1))"
      by (simp_all add: algebra_simps)
    with b e show ?thesis by (auto simp: not_le)
  qed
qed

definition sqrt_mag :: "float_format \<Rightarrow> rat \<Rightarrow> rat" where
  "sqrt_mag F x =
     (let u = 2 powi (max (exponent_of x div 2 - (fprec F - 1)) (femin F));
          y = x / (u * u); n = int (isqrt (nat \<lfloor>y\<rfloor>));
          mid = (of_int n + 1 / 2) * (of_int n + 1 / 2);
          r = (if y < mid then n else if mid < y then n + 1 else if even n then n else n + 1)
      in of_int r * u)"

fun fsqrt :: "fp \<Rightarrow> fp" where
  "fsqrt FNaN = FNaN"
| "fsqrt (FInf s) = (if s then FNaN else FInf False)"
| "fsqrt (FFin s m) =
     (if m = 0 then FFin s 0 else if s then FNaN else FFin False (sqrt_mag binary32 m))"

text \<open>The rounded root is within half a unit in the last place of the exact one.\<close>

lemma sqrt_mag_nearest:
  fixes F :: float_format and x :: rat
  assumes "0 < x"
  defines "u \<equiv> (2 :: rat) powi (max (exponent_of x div 2 - (fprec F - 1)) (femin F))"
  obtains r :: int where "sqrt_mag F x = of_int r * u" "0 \<le> r"
    "0 < r \<longrightarrow> (of_int r - 1 / 2) * (of_int r - 1 / 2) * (u * u) \<le> x"
    "x \<le> (of_int r + 1 / 2) * (of_int r + 1 / 2) * (u * u)"
proof -
  have u: "0 < u" by (simp add: u_def)
  define y where "y = x / (u * u)"
  define n where "n = int (isqrt (nat \<lfloor>y\<rfloor>))"
  define mid where "mid = ((of_int n :: rat) + 1 / 2) * (of_int n + 1 / 2)"
  define r where "r = (if y < mid then n else if mid < y then n + 1 else if even n then n else n + 1)"
  have y: "0 < y" using assms(1) u by (simp add: y_def)
  then have fl: "int (nat \<lfloor>y\<rfloor>) = \<lfloor>y\<rfloor>" by simp
  have "int (isqrt (nat \<lfloor>y\<rfloor>) * isqrt (nat \<lfloor>y\<rfloor>)) \<le> \<lfloor>y\<rfloor>"
    using isqrt_bounds [of "nat \<lfloor>y\<rfloor>"] fl by linarith
  then have "n * n \<le> \<lfloor>y\<rfloor>" by (simp add: n_def)
  then have lo: "of_int n * of_int n \<le> y" using le_floor_iff [of "n * n" y] by simp
  have "\<lfloor>y\<rfloor> < int ((isqrt (nat \<lfloor>y\<rfloor>) + 1) * (isqrt (nat \<lfloor>y\<rfloor>) + 1))"
    using isqrt_bounds [of "nat \<lfloor>y\<rfloor>"] fl by linarith
  then have "\<lfloor>y\<rfloor> < (n + 1) * (n + 1)" by (simp add: n_def algebra_simps)
  then have hi: "y < (of_int n + 1) * (of_int n + 1)"
    using floor_less_iff [of y "(n + 1) * (n + 1)"] by simp
  have n0: "0 \<le> n" by (simp add: n_def)
  have x: "x = y * (u * u)" using u by (simp add: y_def)
  have eq: "sqrt_mag F x = of_int r * u"
    unfolding sqrt_mag_def Let_def u_def [symmetric] y_def [symmetric] n_def [symmetric]
      mid_def [symmetric] r_def [symmetric] by (rule refl)
  have r0: "0 \<le> r" using n0 by (auto simp: r_def)
  have up: "y \<le> (of_int r + 1 / 2) * (of_int r + 1 / 2)"
  proof (cases "r = n")
    case True
    then have "y \<le> mid" by (auto simp: r_def split: if_splits)
    with True show ?thesis by (simp add: mid_def)
  next
    case False
    then have "r = n + 1" by (auto simp: r_def split: if_splits)
    moreover have "((of_int n :: rat) + 1) * (of_int n + 1) \<le> (of_int n + 1 + 1 / 2) * (of_int n + 1 + 1 / 2)"
      using n0 by (intro mult_mono) auto
    ultimately show ?thesis using hi by simp
  qed
  have down: "(of_int r - 1 / 2) * (of_int r - 1 / 2) \<le> y" if "0 < r"
  proof (cases "r = n")
    case True
    have "((of_int r :: rat) - 1 / 2) * (of_int r - 1 / 2) \<le> of_int r * of_int r"
      using that by (intro mult_mono) auto
    with True lo show ?thesis by simp
  next
    case False
    then have "mid \<le> y" "r = n + 1" by (auto simp: r_def split: if_splits)
    then show ?thesis by (simp add: mid_def add.commute)
  qed
  show ?thesis
  proof (rule that [OF eq r0])
    show "0 < r \<longrightarrow> (of_int r - 1 / 2) * (of_int r - 1 / 2) * (u * u) \<le> x"
      using down u unfolding x by (auto intro: mult_right_mono)
    show "x \<le> (of_int r + 1 / 2) * (of_int r + 1 / 2) * (u * u)"
      using up u unfolding x by (intro mult_right_mono) auto
  qed
qed

end
