(* ===== verification/Config.thy ===== *)
theory Config
  imports Machine_Float
begin

text \<open>
  The constants of main/config.h and of components/esc/esc.h the flight code uses.  Integer macros
  are \<open>int\<close> constants and simplify away; macros with an \<open>f\<close> suffix are binary32 literals, whose
  values are collected in \<open>config_simps\<close>.  \<open>ACCEL_MAX_RATE\<close> and \<open>ACCEL_MIN_RATE\<close> are
  \<open>THROTTLE_ACCEL_MAX_US_PER_CALL\<close> and \<open>THROTTLE_ACCEL_MIN_US_PER_CALL\<close>.
\<close>

section \<open>ESC and throttle\<close>

definition ESC_PWM_MIN_US :: int where [simp]: "ESC_PWM_MIN_US = 1000"
definition ESC_PWM_MAX_US :: int where [simp]: "ESC_PWM_MAX_US = 1600"
definition ESC_PWM_FLIGHT_MAX_US :: int where [simp]: "ESC_PWM_FLIGHT_MAX_US = 1300"
definition ESC_PWM_ARM_US :: int where [simp]: "ESC_PWM_ARM_US = 1000"
definition ESC_PWM_FREQ_HZ :: int where [simp]: "ESC_PWM_FREQ_HZ = 50"
definition ESC_PWM_SPIN_US :: int where [simp]: "ESC_PWM_SPIN_US = 1200"
definition ACCEL_MAX_RATE :: int where [simp]: "ACCEL_MAX_RATE = 2"
definition ACCEL_MIN_RATE :: int where [simp]: "ACCEL_MIN_RATE = 1"

text \<open>The motor indices of esc.h: front left, front right, rear left, rear right.\<close>

definition MOTOR_FL :: int where [simp]: "MOTOR_FL = 0"
definition MOTOR_FR :: int where [simp]: "MOTOR_FR = 1"
definition MOTOR_RL :: int where [simp]: "MOTOR_RL = 2"
definition MOTOR_RR :: int where [simp]: "MOTOR_RR = 3"
definition MOTOR_COUNT :: int where [simp]: "MOTOR_COUNT = 4"

section \<open>IMU, PID and limits\<close>

definition IMU_PITCH_OFFSET_DEG :: fp where "IMU_PITCH_OFFSET_DEG = - flit (3 / 10)"
definition IMU_ROLL_OFFSET_DEG :: fp where "IMU_ROLL_OFFSET_DEG = flit (1207 / 100)"
definition IMU_I2C_ADDR :: u8 where [simp]: "IMU_I2C_ADDR = 0x68"

definition PID_PITCH_KP :: fp where "PID_PITCH_KP = flit 2"
definition PID_PITCH_KI :: fp where "PID_PITCH_KI = flit (1 / 10)"
definition PID_PITCH_KD :: fp where "PID_PITCH_KD = flit 0"
definition PID_ROLL_KP :: fp where "PID_ROLL_KP = flit 2"
definition PID_ROLL_KI :: fp where "PID_ROLL_KI = flit (1 / 10)"
definition PID_ROLL_KD :: fp where "PID_ROLL_KD = flit 0"
definition PID_YAW_KP :: fp where "PID_YAW_KP = flit 0"
definition PID_YAW_KI :: fp where "PID_YAW_KI = flit 0"
definition PID_YAW_KD :: fp where "PID_YAW_KD = flit 0"
definition PID_OUTPUT_LIMIT :: fp where "PID_OUTPUT_LIMIT = flit 100"
definition PID_INTEGRAL_LIMIT :: fp where "PID_INTEGRAL_LIMIT = flit 0"
definition ANGLE_LIMIT_DEG :: fp where "ANGLE_LIMIT_DEG = flit 45"

section \<open>Gamepad\<close>

definition STICK_MAX :: int where [simp]: "STICK_MAX = 512"
definition STICK_DEADBAND :: int where [simp]: "STICK_DEADBAND = 20"
definition ANGLE_SETPOINT_MAX :: fp where "ANGLE_SETPOINT_MAX = flit 20"
definition YAW_RATE_MAX :: fp where "YAW_RATE_MAX = flit 90"

section \<open>Network\<close>

definition TELEMETRY_PORT :: int where [simp]: "TELEMETRY_PORT = 4444"

section \<open>The values of the literals\<close>

lemma flit_0 [config_simps]: "flit 0 = FFin False 0"
  by (simp add: flit_def fround_def)

lemma flit_100 [config_simps]: "flit 100 = FFin False 100" by code_simp
lemma flit_45 [config_simps]: "flit 45 = FFin False 45" by code_simp
lemma flit_20 [config_simps]: "flit 20 = FFin False 20" by code_simp
lemma flit_90 [config_simps]: "flit 90 = FFin False 90" by code_simp
lemma flit_2 [config_simps]: "flit 2 = FFin False 2" by code_simp
lemma flit_million [config_simps]: "flit 1000000 = FFin False 1000000" by code_simp
lemma flit_tenth [config_simps]: "flit (1 / 10) = FFin False (13421773 / 134217728)" by code_simp
lemma flit_hundredth [config_simps]: "flit (1 / 100) = FFin False (5368709 / 536870912)"
  by code_simp

lemmas config_floats [config_simps] =
  PID_PITCH_KP_def PID_PITCH_KI_def PID_PITCH_KD_def PID_ROLL_KP_def PID_ROLL_KI_def
  PID_ROLL_KD_def PID_YAW_KP_def PID_YAW_KI_def PID_YAW_KD_def PID_OUTPUT_LIMIT_def
  PID_INTEGRAL_LIMIT_def ANGLE_LIMIT_DEG_def ANGLE_SETPOINT_MAX_def YAW_RATE_MAX_def

end
