(* ===== verification/Kalman.thy ===== *)
theory Kalman
  imports Config
begin

text \<open>
  components/imu/kalman.c: the two-state (angle, gyro bias) Kalman filter of one axis.  The record
  has the fields of \<open>kalman_state_t\<close> with the matrix \<open>P\<close> written out.  \<open>kalman_update\<close> is the
  composition of its prediction (lines 28 to 36) and correction (lines 38 to 63); like the PID code
  it is written once for every type with the C operators.  At the rationals the lemmas show that it
  is the textbook filter, that the covariance stays symmetric and positive semidefinite and that
  the estimate stays between prediction and measurement; at binary32 that the gain stays in
  \<open>[0, 1]\<close> whatever the rounding.
\<close>

record 'a kalman_state =
  angle :: 'a
  bias :: 'a
  P00 :: 'a
  P01 :: 'a
  P10 :: 'a
  P11 :: 'a
  Q_angle :: 'a
  Q_bias :: 'a
  R_measure :: 'a

definition kalman_init :: "fp kalman_state" where
  "kalman_init =
     \<lparr>angle = 0, bias = 0, P00 = 0, P01 = 0, P10 = 0, P11 = 0,
      Q_angle = flit (1 / 1000), Q_bias = flit (3 / 1000), R_measure = flit (3 / 100)\<rparr>"

definition kalman_set_params :: "'a kalman_state \<Rightarrow> 'a \<Rightarrow> 'a \<Rightarrow> 'a \<Rightarrow> 'a kalman_state" where
  "kalman_set_params k qa qb r = k\<lparr>Q_angle := qa, Q_bias := qb, R_measure := r\<rparr>"

definition kalman_predict ::
  "('a :: {plus, minus, times}) kalman_state \<Rightarrow> 'a \<Rightarrow> 'a \<Rightarrow> 'a kalman_state" where
  "kalman_predict k gyro_rate dt = k\<lparr>
     angle := angle k + dt * (gyro_rate - bias k),
     P00 := P00 k + dt * (dt * P11 k - P01 k - P10 k + Q_angle k),
     P01 := P01 k - dt * P11 k,
     P10 := P10 k - dt * P11 k,
     P11 := P11 k + Q_bias k * dt\<rparr>"

definition kalman_gain :: "('a :: {plus, inverse}) kalman_state \<Rightarrow> 'a \<times> 'a" where
  "kalman_gain k = (let S = P00 k + R_measure k in (P00 k / S, P10 k / S))"

definition kalman_correct ::
  "('a :: {plus, minus, times, inverse}) kalman_state \<Rightarrow> 'a \<Rightarrow> 'a kalman_state" where
  "kalman_correct k accel_angle =
     (let innovation = accel_angle - angle k;
          (K0, K1) = kalman_gain k
      in k\<lparr>
        angle := angle k + K0 * innovation,
        bias := bias k + K1 * innovation,
        P00 := P00 k - K0 * P00 k,
        P01 := P01 k - K0 * P01 k,
        P10 := P10 k - K1 * P00 k,
        P11 := P11 k - K1 * P01 k\<rparr>)"

definition kalman_update ::
  "('a :: {plus, minus, times, inverse}) kalman_state \<Rightarrow> 'a \<Rightarrow> 'a \<Rightarrow> 'a \<Rightarrow> 'a kalman_state \<times> 'a"
  where
  "kalman_update k accel_angle gyro_rate dt =
     (let k' = kalman_correct (kalman_predict k gyro_rate dt) accel_angle in (k', angle k'))"

section \<open>Exact arithmetic: the covariance\<close>

definition cov_psd :: "rat kalman_state \<Rightarrow> bool" where
  "cov_psd k \<longleftrightarrow> P01 k = P10 k \<and> 0 \<le> P00 k \<and> 0 \<le> P11 k \<and> P01 k * P01 k \<le> P00 k * P11 k"

lemma quadratic_form_nonneg:
  assumes "0 \<le> a" "0 \<le> c" "b * b \<le> a * (c :: rat)"
  shows "0 \<le> a - 2 * t * b + t * t * c"
proof (cases "c = 0")
  case True
  with assms have "b * b \<le> 0" by simp
  then have "b = 0" by (metis mult_eq_0_iff not_square_less_zero order_le_less)
  with True assms show ?thesis by simp
next
  case False
  with assms have c: "0 < c" by simp
  have "c * (a - 2 * t * b + t * t * c) = (a * c - b * b) + (b - t * c) * (b - t * c)"
    by (simp add: algebra_simps)
  moreover have "0 \<le> (b - t * c) * (b - t * c)" by simp
  ultimately have "0 \<le> c * (a - 2 * t * b + t * t * c)" using assms by linarith
  with c show ?thesis by (simp add: zero_le_mult_iff)
qed

lemma predict_psd:
  assumes "cov_psd k" "0 \<le> dt" "0 \<le> Q_angle k" "0 \<le> Q_bias k"
  shows "cov_psd (kalman_predict k g dt)"
proof -
  let ?a = "P00 k" and ?b = "P01 k" and ?c = "P11 k"
  let ?q = "?a - 2 * dt * ?b + dt * dt * ?c"
  have h: "P10 k = ?b" "0 \<le> ?a" "0 \<le> ?c" "?b * ?b \<le> ?a * ?c" using assms by (auto simp: cov_psd_def)
  have q: "0 \<le> ?q" by (rule quadratic_form_nonneg [OF h(2,3,4)])
  have n: "0 \<le> dt * Q_angle k" "0 \<le> Q_bias k * dt" using assms by simp_all
  have a': "P00 (kalman_predict k g dt) = ?q + dt * Q_angle k"
    using h by (simp add: kalman_predict_def algebra_simps)
  have c': "P11 (kalman_predict k g dt) = ?c + Q_bias k * dt"
    and b': "P01 (kalman_predict k g dt) = ?b - dt * ?c"
    and s': "P10 (kalman_predict k g dt) = ?b - dt * ?c"
    using h by (simp_all add: kalman_predict_def)
  have "(?b - dt * ?c) * (?b - dt * ?c) \<le> ?q * ?c"
    using h(4) by (simp add: algebra_simps)
  also have "\<dots> \<le> (?q + dt * Q_angle k) * (?c + Q_bias k * dt)"
    using q h n by (intro mult_mono) auto
  finally show ?thesis using q h n by (simp add: cov_psd_def a' b' c' s')
qed

lemma correct_values:
  assumes "0 \<le> P00 k" "0 < R_measure k" "P01 k = P10 k"
  defines "S \<equiv> P00 k + R_measure k"
  shows "P00 (kalman_correct k z) = P00 k * R_measure k / S"
    and "P01 (kalman_correct k z) = P01 k * R_measure k / S"
    and "P10 (kalman_correct k z) = P01 k * R_measure k / S"
    and "P11 (kalman_correct k z) = (P00 k * P11 k - P01 k * P01 k + P11 k * R_measure k) / (S :: rat)"
proof -
  have "S \<noteq> 0" using assms by auto
  then show "P00 (kalman_correct k z) = P00 k * R_measure k / S"
    and "P01 (kalman_correct k z) = P01 k * R_measure k / S"
    and "P10 (kalman_correct k z) = P01 k * R_measure k / S"
    and "P11 (kalman_correct k z) = (P00 k * P11 k - P01 k * P01 k + P11 k * R_measure k) / S"
    using assms(3)
    by (simp_all add: kalman_correct_def kalman_gain_def Let_def S_def [symmetric] field_simps)
      (simp_all add: S_def algebra_simps)
qed

lemma correct_psd:
  assumes "cov_psd k" "0 < R_measure k"
  shows "cov_psd (kalman_correct k z)"
proof -
  let ?a = "P00 k" and ?b = "P01 k" and ?c = "P11 k" and ?R = "R_measure k"
  let ?S = "?a + ?R" and ?D = "?a * ?c - ?b * ?b"
  have h: "?b = P10 k" "0 \<le> ?a" "0 \<le> ?c" "0 \<le> ?D" using assms by (auto simp: cov_psd_def)
  have S: "0 < ?S" using h assms by linarith
  note v = correct_values [OF h(2) assms(2) h(1), of z]
  have num: "?a * (?D + ?c * ?R) - ?b * ?b * ?R = ?D * ?S" by (simp add: algebra_simps)
  have "(?a * ?R / ?S) * ((?D + ?c * ?R) / ?S) - (?b * ?R / ?S) * (?b * ?R / ?S) =
      ?R * (?a * (?D + ?c * ?R) - ?b * ?b * ?R) / (?S * ?S)"
    by (simp add: diff_divide_distrib [symmetric] algebra_simps)
  also have "\<dots> = ?R * ?D / ?S" unfolding num using S by simp
  finally have "(?a * ?R / ?S) * ((?D + ?c * ?R) / ?S) - (?b * ?R / ?S) * (?b * ?R / ?S) =
      ?R * ?D / ?S" .
  moreover have "0 \<le> ?R * ?D / ?S" using h assms S by simp
  ultimately have "(?b * ?R / ?S) * (?b * ?R / ?S) \<le> (?a * ?R / ?S) * ((?D + ?c * ?R) / ?S)"
    by linarith
  moreover have "0 \<le> ?a * ?R / ?S" "0 \<le> (?D + ?c * ?R) / ?S" using h assms S by simp_all
  ultimately show ?thesis unfolding cov_psd_def v by simp
qed

lemma update_psd:
  assumes "cov_psd k" "0 \<le> dt" "0 \<le> Q_angle k" "0 \<le> Q_bias k" "0 < R_measure k"
  shows "cov_psd (fst (kalman_update k z g dt))"
  using correct_psd [OF predict_psd [OF assms(1-4)]] assms(5)
  by (simp add: kalman_update_def Let_def kalman_predict_def)

lemma convex_step:
  assumes "0 \<le> K" "K \<le> (1 :: rat)"
  shows "min x z \<le> x + K * (z - x) \<and> x + K * (z - x) \<le> max x z"
proof (cases "x \<le> z")
  case True
  then have "0 \<le> K * (z - x)" "K * (z - x) \<le> z - x"
    using assms mult_left_le_one_le [of "z - x" K] by simp_all
  with True show ?thesis by simp
next
  case False
  then have "0 \<le> K * (x - z)" "K * (x - z) \<le> x - z"
    using assms mult_left_le_one_le [of "x - z" K] by simp_all
  moreover have "K * (z - x) = - (K * (x - z))" by (simp add: algebra_simps)
  ultimately show ?thesis using False by linarith
qed

lemma correct_between:
  assumes "0 \<le> P00 k" "0 < R_measure k"
  shows "min (angle k) z \<le> angle (kalman_correct k z) \<and> angle (kalman_correct k z) \<le> max (angle k) (z :: rat)"
proof -
  let ?K = "P00 k / (P00 k + R_measure k)"
  have "0 \<le> ?K" "?K \<le> 1" using assms by (auto simp: divide_le_eq)
  then have "min (angle k) z \<le> angle k + ?K * (z - angle k) \<and> angle k + ?K * (z - angle k) \<le> max (angle k) z"
    by (rule convex_step)
  then show ?thesis by (simp add: kalman_correct_def kalman_gain_def Let_def)
qed

section \<open>Binary32: the gain\<close>

lemma gain_fp:
  assumes P: "is_finite (P00 k)" "fp_wf (P00 k)" "0 \<le> fvalue (P00 k)" "fvalue (P00 k) \<le> 2 ^ 100"
    and R: "is_finite (R_measure k)" "0 < fvalue (R_measure k)" "fvalue (R_measure k) \<le> 2 ^ 100"
      "fp_wf (R_measure k)"
  shows "is_finite (fst (kalman_gain k)) \<and> 0 \<le> fvalue (fst (kalman_gain k)) \<and>
    fvalue (fst (kalman_gain k)) \<le> 1"
proof -
  let ?S = "P00 k + R_measure k"
  have m: "moderate (fvalue (P00 k) + fvalue (R_measure k))" using P R by (simp add: moderate_def)
  have S: "is_finite ?S" "fvalue ?S = round_val binary32 (fvalue (P00 k) + fvalue (R_measure k))"
    using fin_add [OF P(1) R(1) m] by auto
  have ge: "fvalue (P00 k) \<le> fvalue ?S"
    unfolding S(2) using P R fp_wf_value by (intro round_val_lower) auto
  have "fvalue (R_measure k) \<le> fvalue ?S"
    unfolding S(2) using P R fp_wf_value by (intro round_val_lower) auto
  with R have pos: "0 < fvalue ?S" by linarith
  have q: "0 \<le> fvalue (P00 k) / fvalue ?S" "fvalue (P00 k) / fvalue ?S \<le> 1"
    using P(3) ge pos by (auto simp: divide_le_eq)
  then have "moderate (fvalue (P00 k) / fvalue ?S)" by (simp add: moderate_def)
  then have K: "is_finite (P00 k / ?S)" "fvalue (P00 k / ?S) = round_val binary32 (fvalue (P00 k) / fvalue ?S)"
    using fin_div [OF P(1) S(1)] pos by auto
  have "fits binary32 (of_int 1)" by (rule fits32_int) simp
  then have "round_val binary32 (fvalue (P00 k) / fvalue ?S) \<le> 1"
    using q by (intro round_val_upper) auto
  moreover have "0 \<le> round_val binary32 (fvalue (P00 k) / fvalue ?S)"
    using q by (intro round_val_sign) auto
  ultimately show ?thesis using K by (simp add: kalman_gain_def Let_def)
qed

section \<open>Sequences of samples\<close>

fun kalman_run ::
  "(('a :: {plus, minus, times, inverse}) \<times> 'a \<times> 'a) list \<Rightarrow> 'a kalman_state \<Rightarrow> 'a kalman_state" where
  "kalman_run [] k = k"
| "kalman_run ((z, g, dt) # xs) k = kalman_run xs (fst (kalman_update k z g dt))"

lemma kalman_update_params [simp]:
  "Q_angle (fst (kalman_update k z g dt)) = Q_angle k"
  "Q_bias (fst (kalman_update k z g dt)) = Q_bias k"
  "R_measure (fst (kalman_update k z g dt)) = R_measure k"
  by (simp_all add: kalman_update_def kalman_correct_def kalman_gain_def kalman_predict_def Let_def)

lemma kalman_run_psd:
  fixes k :: "rat kalman_state"
  assumes "cov_psd k" "0 \<le> Q_angle k" "0 \<le> Q_bias k" "0 < R_measure k" "list_all (\<lambda>(z, g, dt). 0 \<le> dt) xs"
  shows "cov_psd (kalman_run xs k) \<and> R_measure (kalman_run xs k) = R_measure k"
  using assms
proof (induction xs k rule: kalman_run.induct)
  case (2 z g dt xs k)
  then show ?case using update_psd [of k dt z g] by simp
qed simp

section \<open>Properties\<close>

text \<open>
  C16: In exact arithmetic the covariance matrix the filter carries stays
  symmetric and positive semidefinite through every sequence of samples with non-negative periods,
  for any measurements and rates, so its determinant never turns negative.
\<close>

theorem kalman_covariance_psd:
  fixes k :: "rat kalman_state"
  assumes "cov_psd k" "0 \<le> Q_angle k" "0 \<le> Q_bias k" "0 < R_measure k" "list_all (\<lambda>(z, g, dt). 0 \<le> dt) xs"
  shows "cov_psd (kalman_run xs k)"
  by (rule kalman_run_psd [OF assms, THEN conjunct1])

theorem kalman_covariance_psd_witness:
  "cov_psd (kalman_run [(5, 1, 1 / 100), (6, 2, 1 / 100)] \<lparr>angle = 0, bias = 0, P00 = 0, P01 = 0,
     P10 = 0, P11 = 0, Q_angle = 1 / 1000, Q_bias = 3 / 1000, R_measure = (3 / 100 :: rat)\<rparr>)"
  by (rule kalman_covariance_psd) (simp_all add: cov_psd_def)

text \<open>
  In exact arithmetic the new angle lies between the gyroscope prediction and the
  accelerometer measurement, so the filter never overshoots either of them.
\<close>

theorem kalman_between:
  fixes k :: "rat kalman_state"
  assumes "cov_psd k" "0 \<le> dt" "0 \<le> Q_angle k" "0 \<le> Q_bias k" "0 < R_measure k"
  shows "min (angle k + dt * (g - bias k)) z \<le> snd (kalman_update k z g dt) \<and>
    snd (kalman_update k z g dt) \<le> max (angle k + dt * (g - bias k)) z"
proof -
  have "0 \<le> P00 (kalman_predict k g dt)" using predict_psd [OF assms(1-4)] by (simp add: cov_psd_def)
  then show ?thesis using correct_between [of "kalman_predict k g dt" z] assms(5)
    by (simp add: kalman_update_def Let_def kalman_predict_def)
qed

theorem kalman_between_witness:
  "snd (kalman_update \<lparr>angle = 1, bias = 0, P00 = 1, P01 = 0, P10 = 0, P11 = 1, Q_angle = 1 / 1000,
     Q_bias = 3 / 1000, R_measure = (3 / 100 :: rat)\<rparr> 5 0 (1 / 100)) \<le> 5"
  using kalman_between [of "\<lparr>angle = 1, bias = 0, P00 = 1, P01 = 0, P10 = 0, P11 = 1,
      Q_angle = 1 / 1000, Q_bias = 3 / 1000, R_measure = (3 / 100 :: rat)\<rparr>" "1 / 100" 0 5]
  by (simp add: cov_psd_def)

text \<open>
  In binary32, rounding included, the gain on the angle is a finite number in
  \<open>[0, 1]\<close> whenever the angle variance is a non-negative float and the measurement noise a positive
  one, both at most \<open>2 ^ 100\<close>.
\<close>

theorem kalman_gain_unit:
  assumes "is_finite (P00 k)" "fp_wf (P00 k)" "0 \<le> fvalue (P00 k)" "fvalue (P00 k) \<le> 2 ^ 100"
    "is_finite (R_measure k)" "0 < fvalue (R_measure k)" "fvalue (R_measure k) \<le> 2 ^ 100"
    "fp_wf (R_measure k)"
  shows "is_finite (fst (kalman_gain k)) \<and> 0 \<le> fvalue (fst (kalman_gain k)) \<and>
    fvalue (fst (kalman_gain k)) \<le> 1"
  by (rule gain_fp [OF assms])

theorem kalman_gain_unit_witness:
  "fvalue (fst (kalman_gain (kalman_init\<lparr>P00 := flit 1\<rparr>))) \<le> 1"
proof -
  have r: "R_measure kalman_init = flit (3 / 100)" by (simp add: kalman_init_def)
  have "is_finite (flit 1)" "0 \<le> fvalue (flit 1)" "fvalue (flit 1) \<le> 2 ^ 100" by code_simp+
  moreover have "is_finite (flit (3 / 100))" "0 < fvalue (flit (3 / 100))" "fvalue (flit (3 / 100)) \<le> 2 ^ 100"
    by code_simp+
  moreover have "fp_wf (flit 1)" "fp_wf (flit (3 / 100))" by simp_all
  ultimately show ?thesis using kalman_gain_unit [of "kalman_init\<lparr>P00 := flit 1\<rparr>"] r by simp
qed

end
