(* ===== verification/Mpu6050.thy ===== *)
theory Mpu6050
  imports Config
begin

text \<open>
  components/imu/mpu6050.c: the MPU-6050 driver.  The I2C driver of the SDK is not part of the
  repository: its answers are a parameter \<open>resp\<close>, a function of the whole history of bus
  operations, so that nothing is assumed about the device.  The operations issued are recorded in
  the history.  \<open>ESP_ERROR_CHECK\<close> aborts the program on an error; \<open>mpu6050_init\<close> therefore either
  returns a code or aborts.  \<open>atan2f\<close> is a parameter too: the C library fixes its range and its
  special cases but not its last bits.

  The lemmas show which register writes a successful initialisation has performed, that a failed
  read leaves the output untouched, and the conversions and axis remapping of \<open>mpu6050_read\<close>.
\<close>

section \<open>Initialisation\<close>

datatype i2c_op =
    Param_Config
  | Driver_Install
  | Write_Reg u8 u8
  | Read_Regs u8 nat
  | Delay_Ms nat

type_synonym i2c_resp = "i2c_op list \<Rightarrow> int \<times> u8 list"

definition i2c_write_reg :: "i2c_resp \<Rightarrow> i2c_op list \<Rightarrow> u8 \<Rightarrow> u8 \<Rightarrow> i2c_op list \<times> int" where
  "i2c_write_reg resp h reg val = (let h' = h @ [Write_Reg reg val] in (h', fst (resp h')))"

definition i2c_read_regs :: "i2c_resp \<Rightarrow> i2c_op list \<Rightarrow> u8 \<Rightarrow> nat \<Rightarrow> i2c_op list \<times> int \<times> u8 list" where
  "i2c_read_regs resp h reg len = (let h' = h @ [Read_Regs reg len] in (h', resp h'))"

text \<open>The error code of the last operation; a delay has none.\<close>

definition i2c_err :: "i2c_resp \<Rightarrow> i2c_op list \<Rightarrow> int" where
  "i2c_err resp h = (case last h of Delay_Ms n \<Rightarrow> ESP_OK | _ \<Rightarrow> fst (resp h))"

definition mpu6050_config_ops :: "i2c_op list" where
  "mpu6050_config_ops =
     [Write_Reg 0x6B 0x00, Delay_Ms 100, Write_Reg 0x19 0x07, Write_Reg 0x1A 0x03,
      Write_Reg 0x1B 0x00, Write_Reg 0x1C 0x00]"

definition mpu6050_init :: "i2c_resp \<Rightarrow> i2c_op list \<Rightarrow> i2c_op list \<times> outcome" where
  "mpu6050_init resp h0 =
     (case esp_checked (i2c_err resp) h0 [Param_Config, Driver_Install] of
        (h1, False) \<Rightarrow> (h1, Aborts)
      | (h1, True) \<Rightarrow>
          (case i2c_read_regs resp h1 0x75 1 of (h2, err, dat) \<Rightarrow>
             if err \<noteq> ESP_OK \<or> dat ! 0 \<noteq> 0x68 then (h2, Returns ESP_FAIL)
             else (case esp_checked (i2c_err resp) h2 mpu6050_config_ops of
                 (h3, False) \<Rightarrow> (h3, Aborts)
               | (h3, True) \<Rightarrow> (h3, Returns ESP_OK))))"

section \<open>Reading a sample\<close>

record mpu6050_data =
  accel_x_g :: fp
  accel_y_g :: fp
  accel_z_g :: fp
  gyro_x_dps :: fp
  gyro_y_dps :: fp
  gyro_z_dps :: fp
  accel_angle_pitch :: fp
  accel_angle_roll :: fp

text \<open>\<open>(int16_t)((hi << 8) | lo)\<close>, read as a signed value.\<close>

definition be16 :: "u8 \<Rightarrow> u8 \<Rightarrow> int" where
  "be16 hi lo = sint (push_bit 8 (ucast hi) OR ucast lo :: u16)"

text \<open>\<open>180.0f / M_PI\<close> is a double division, and so is the product with it.\<close>

definition M_PI :: fp where
  "M_PI = FFin False (884279719003555 / 281474976710656)"

definition rad_to_deg :: "fp \<Rightarrow> fp" where
  "rad_to_deg a = fconvert binary32 (fmul binary64 a (fdiv binary64 (flit 180) M_PI))"

definition mpu6050_convert :: "(fp \<Rightarrow> fp \<Rightarrow> fp) \<Rightarrow> u8 list \<Rightarrow> mpu6050_data" where
  "mpu6050_convert atan2f raw =
     (let ax_raw = be16 (raw ! 0) (raw ! 1);
          ay_raw = be16 (raw ! 2) (raw ! 3);
          az_raw = be16 (raw ! 4) (raw ! 5);
          gx_raw = be16 (raw ! 8) (raw ! 9);
          gy_raw = be16 (raw ! 10) (raw ! 11);
          gz_raw = be16 (raw ! 12) (raw ! 13);
          ax_sf = f32_of_int ax_raw / flit 16384;
          ay_sf = f32_of_int ay_raw / flit 16384;
          az_sf = f32_of_int az_raw / flit 16384;
          gx_sf = f32_of_int gx_raw / flit 131;
          gy_sf = f32_of_int gy_raw / flit 131;
          gz_sf = f32_of_int gz_raw / flit 131;
          x = - az_sf; y = - ay_sf; z = - ax_sf
      in \<lparr>accel_x_g = x, accel_y_g = y, accel_z_g = z,
          gyro_x_dps = - gz_sf, gyro_y_dps = - gy_sf, gyro_z_dps = - gx_sf,
          accel_angle_pitch = rad_to_deg (atan2f y z),
          accel_angle_roll = rad_to_deg (atan2f (- x) (fsqrt (y * y + z * z)))\<rparr>)"

definition mpu6050_read ::
  "(fp \<Rightarrow> fp \<Rightarrow> fp) \<Rightarrow> i2c_resp \<Rightarrow> i2c_op list \<Rightarrow> mpu6050_data \<Rightarrow> i2c_op list \<times> int \<times> mpu6050_data"
  where
  "mpu6050_read atan2f resp h out =
     (case i2c_read_regs resp h 0x3B 14 of (h', err, raw) \<Rightarrow>
        if err \<noteq> ESP_OK then (h', err, out) else (h', ESP_OK, mpu6050_convert atan2f raw))"

definition mpu6050_read_temp :: "i2c_resp \<Rightarrow> i2c_op list \<Rightarrow> fp \<Rightarrow> i2c_op list \<times> int \<times> fp" where
  "mpu6050_read_temp resp h temp_c =
     (case i2c_read_regs resp h 0x41 2 of (h', err, raw) \<Rightarrow>
        if err \<noteq> ESP_OK then (h', err, temp_c)
        else (h', ESP_OK, f32_of_int (be16 (raw ! 0) (raw ! 1)) / flit 340 + flit (3653 / 100)))"

section \<open>Conversions\<close>

lemma be16_bounds: "- 32768 \<le> be16 a b \<and> be16 a b \<le> 32767"
  by (simp add: be16_def sint_bounds_16)

lemma div_exact_pow2:
  assumes "\<bar>i\<bar> \<le> 32768"
  shows "is_finite (f32_of_int i / flit 16384) \<and>
    fvalue (f32_of_int i / flit 16384) = of_int i / 16384"
proof -
  have l: "flit 16384 = FFin False 16384" by code_simp
  have i: "is_finite (f32_of_int i)" "fvalue (f32_of_int i) = of_int i"
    using f32_of_int_exact [of i] assms by auto
  have "fits binary32 (of_int i / 2 ^ 14)" 
    using assms by (intro fits32_dyadic [of _ i 14]) auto
  then have e: "round_val binary32 (of_int i / 16384) = of_int i / 16384"
    by (simp add: round_val_exact)
  have "\<bar>of_int i :: rat\<bar> \<le> of_int 32768" using assms by (metis of_int_abs of_int_le_iff)
  then have "moderate (of_int i / 16384)" by (simp add: moderate_def)
  then show ?thesis using fin_div [OF i(1), of "flit 16384"] i(2) e by (simp add: l)
qed

lemma div_131_bounds:
  assumes "\<bar>i\<bar> \<le> 32768"
  shows "is_finite (f32_of_int i / flit 131) \<and> \<bar>fvalue (f32_of_int i / flit 131)\<bar> \<le> 251"
proof -
  have l: "flit 131 = FFin False 131" by code_simp
  have i: "is_finite (f32_of_int i)" "fvalue (f32_of_int i) = of_int i"
    using f32_of_int_exact [of i] assms by auto
  have b: "\<bar>of_int i :: rat\<bar> \<le> of_int 32768" using assms by (metis of_int_abs of_int_le_iff)
  then have "moderate (of_int i / 131)" by (simp add: moderate_def)
  then have q: "is_finite (f32_of_int i / flit 131)"
    "fvalue (f32_of_int i / flit 131) = round_val binary32 (of_int i / 131)"
    using fin_div [OF i(1), of "flit 131"] i(2) by (simp_all add: l)
  have f: "fits binary32 251" "fits binary32 (- 251)" using fits32_int [of 251] by simp_all
  have "round_val binary32 (of_int i / 131) \<le> 251" using b f(1) by (intro round_val_upper) auto
  moreover have "- 251 \<le> round_val binary32 (of_int i / 131)"
    using b f(2) by (intro round_val_lower) auto
  ultimately show ?thesis using q by auto
qed

lemma convert_fields:
  "accel_x_g (mpu6050_convert f raw) = - (f32_of_int (be16 (raw ! 4) (raw ! 5)) / flit 16384)"
  "accel_y_g (mpu6050_convert f raw) = - (f32_of_int (be16 (raw ! 2) (raw ! 3)) / flit 16384)"
  "accel_z_g (mpu6050_convert f raw) = - (f32_of_int (be16 (raw ! 0) (raw ! 1)) / flit 16384)"
  "gyro_x_dps (mpu6050_convert f raw) = - (f32_of_int (be16 (raw ! 12) (raw ! 13)) / flit 131)"
  "gyro_y_dps (mpu6050_convert f raw) = - (f32_of_int (be16 (raw ! 10) (raw ! 11)) / flit 131)"
  "gyro_z_dps (mpu6050_convert f raw) = - (f32_of_int (be16 (raw ! 8) (raw ! 9)) / flit 131)"
  by (simp_all add: mpu6050_convert_def Let_def)

lemma abs_be16: "\<bar>be16 a b\<bar> \<le> 32768"
  using be16_bounds [of a b] by auto

lemmas accel_exact = div_exact_pow2 [OF abs_be16]
lemmas gyro_bounded = div_131_bounds [OF abs_be16]

section \<open>The initialisation in full\<close>

text \<open>The initialisation returns \<open>ESP_OK\<close> exactly after the whole sequence of operations.\<close>

lemma mpu_init_history:
  assumes "mpu6050_init resp h0 = (h, Returns 0)"
  shows "h = h0 @ [Param_Config, Driver_Install, Read_Regs 0x75 1] @ mpu6050_config_ops"
  using assms
  by (auto simp: mpu6050_init_def i2c_read_regs_def Let_def split: prod.splits bool.splits if_splits
      dest!: esp_checked_True)

lemma mpu_init_identity:
  assumes "fst (resp (h0 @ [Param_Config, Driver_Install, Read_Regs 0x75 1])) \<noteq> ESP_OK \<or>
      snd (resp (h0 @ [Param_Config, Driver_Install, Read_Regs 0x75 1])) ! 0 \<noteq> 0x68"
    "mpu6050_init resp h0 = (h, r)"
  shows "r \<noteq> Returns ESP_OK \<and> (\<forall>reg val. Write_Reg reg val \<notin> set (drop (length h0) h))"
  using assms
  by (auto simp: mpu6050_init_def i2c_read_regs_def Let_def split: prod.splits bool.splits if_splits
      dest: esp_checked_True dest!: esp_checked_prefix)

section \<open>Properties\<close>

text \<open>
  If the initialisation returns \<open>ESP_OK\<close>, the bus has seen exactly the
  configuration, the identity check and, in this order, the wake-up, the 100 ms delay, the sample
  rate, the filter and the two full-scale registers.
\<close>

theorem mpu_init_sequence:
  assumes "mpu6050_init resp h0 = (h, Returns ESP_OK)"
  shows "h = h0 @ [Param_Config, Driver_Install, Read_Regs 0x75 1, Write_Reg 0x6B 0, Delay_Ms 100,
    Write_Reg 0x19 7, Write_Reg 0x1A 3, Write_Reg 0x1B 0, Write_Reg 0x1C 0]"
  using mpu_init_history [of resp h0 h] assms by (simp add: mpu6050_config_ops_def)

theorem mpu_init_sequence_witness:
  "length (fst (mpu6050_init (\<lambda>h. (0, [0x68])) [])) = 9"
proof -
  have "mpu6050_init (\<lambda>h. (0, [0x68])) [] = (fst (mpu6050_init (\<lambda>h. (0, [0x68])) []), Returns ESP_OK)"
    by code_simp
  from mpu_init_sequence [OF this] show ?thesis by simp
qed

text \<open>
  If the identity register cannot be read or is not 0x68, the initialisation does
  not return \<open>ESP_OK\<close> and no register of the device has been written.
\<close>

theorem mpu_wrong_chip:
  assumes "fst (resp (h0 @ [Param_Config, Driver_Install, Read_Regs 0x75 1])) \<noteq> ESP_OK \<or>
      snd (resp (h0 @ [Param_Config, Driver_Install, Read_Regs 0x75 1])) ! 0 \<noteq> 0x68"
    "mpu6050_init resp h0 = (h, r)"
  shows "r \<noteq> Returns ESP_OK \<and> (\<forall>reg val. Write_Reg reg val \<notin> set (drop (length h0) h))"
  by (rule mpu_init_identity [OF assms])

theorem mpu_wrong_chip_witness:
  "snd (mpu6050_init (\<lambda>h. (0, [0x70])) []) \<noteq> Returns ESP_OK"
  using mpu_wrong_chip [of "\<lambda>h. (0, [0x70])" "[]" "fst (mpu6050_init (\<lambda>h. (0, [0x70])) [])"
      "snd (mpu6050_init (\<lambda>h. (0, [0x70])) [])"] by simp

text \<open>
  A failed read returns the driver's error and leaves the sample untouched.  A
  successful one converts exactly: each acceleration is the negated signed 16-bit reading over
  16384, with the axes swapped for the mounting, and each rate is at most 251 degrees per second.
\<close>

theorem mpu_sample:
  fixes resp :: i2c_resp and h out atan2f
  defines "h1 \<equiv> h @ [Read_Regs 0x3B 14]"
  defines "r \<equiv> mpu6050_read atan2f resp h out"
  shows "if fst (resp h1) \<noteq> ESP_OK then r = (h1, fst (resp h1), out)
    else fst (snd r) = ESP_OK \<and>
      fvalue (accel_x_g (snd (snd r))) = - of_int (be16 (snd (resp h1) ! 4) (snd (resp h1) ! 5)) / 16384 \<and>
      fvalue (accel_y_g (snd (snd r))) = - of_int (be16 (snd (resp h1) ! 2) (snd (resp h1) ! 3)) / 16384 \<and>
      fvalue (accel_z_g (snd (snd r))) = - of_int (be16 (snd (resp h1) ! 0) (snd (resp h1) ! 1)) / 16384 \<and>
      fbounded (gyro_x_dps (snd (snd r))) 251 \<and> fbounded (gyro_y_dps (snd (snd r))) 251 \<and>
      fbounded (gyro_z_dps (snd (snd r))) 251"
  using accel_exact gyro_bounded
  by (auto simp: r_def h1_def mpu6050_read_def i2c_read_regs_def Let_def convert_fields fbounded_def
      split: prod.splits)

end
