(* ===== verification/Pid.thy ===== *)
theory Pid
  imports Config
begin

text \<open>
  components/flight_controller/pid.c: the PID controller of one axis.  The state record has the
  fields of \<open>pid_state_t\<close>.  \<open>pid_update\<close> is written once for any type with the C operators: at
  type \<open>fp\<close> it is the binary32 code, at an ordered field it is the algorithm without rounding.
  The lemmas show the output clamp, the anti-windup clamp, what the configured limits make of the
  controller, and how a NaN spreads.
\<close>

record 'a pid_state =
  kp :: 'a
  ki :: 'a
  kd :: 'a
  integral :: 'a
  prev_error :: 'a
  output_limit :: 'a
  integral_limit :: 'a

definition pid_init :: "fp \<Rightarrow> fp \<Rightarrow> fp \<Rightarrow> fp pid_state" where
  "pid_init p i d =
     \<lparr>kp = p, ki = i, kd = d, integral = 0, prev_error = 0,
      output_limit = PID_OUTPUT_LIMIT, integral_limit = PID_INTEGRAL_LIMIT\<rparr>"

text \<open>The clamp \<open>if (x > l) x = l; else if (x < -l) x = -l;\<close> the code applies twice.\<close>

definition sym_clamp :: "('a :: {uminus, ord}) \<Rightarrow> 'a \<Rightarrow> 'a" where
  "sym_clamp l x = (if l < x then l else if x < - l then - l else x)"

definition pid_update ::
  "('a :: {zero, plus, minus, uminus, times, inverse, ord}) pid_state \<Rightarrow> 'a \<Rightarrow> 'a \<Rightarrow> 'a \<Rightarrow>
   'a pid_state \<times> 'a" where
  "pid_update p setpoint measurement dt =
     (let err = setpoint - measurement;
          p_term = kp p * err;
          integ = sym_clamp (integral_limit p) (integral p + err * dt);
          i_term = ki p * integ;
          d_term = (if 0 < dt then kd p * ((err - prev_error p) / dt) else 0);
          out = sym_clamp (output_limit p) (p_term + i_term + d_term)
      in (p\<lparr>integral := integ, prev_error := err\<rparr>, out))"

definition pid_reset :: "('a :: zero) pid_state \<Rightarrow> 'a pid_state" where
  "pid_reset p = p\<lparr>integral := 0, prev_error := 0\<rparr>"

definition pid_set_gains :: "'a pid_state \<Rightarrow> 'a \<Rightarrow> 'a \<Rightarrow> 'a \<Rightarrow> 'a pid_state" where
  "pid_set_gains p new_kp new_ki new_kd = p\<lparr>kp := new_kp, ki := new_ki, kd := new_kd\<rparr>"

section \<open>Frame facts\<close>

lemma pid_update_frame [simp]:
  "kp (fst (pid_update p s m dt)) = kp p"
  "ki (fst (pid_update p s m dt)) = ki p"
  "kd (fst (pid_update p s m dt)) = kd p"
  "output_limit (fst (pid_update p s m dt)) = output_limit p"
  "integral_limit (fst (pid_update p s m dt)) = integral_limit p"
  "prev_error (fst (pid_update p s m dt)) = s - m"
  by (simp_all add: pid_update_def Let_def)

lemma pid_set_gains_frame [simp]:
  "integral (pid_set_gains p a b c) = integral p"
  "prev_error (pid_set_gains p a b c) = prev_error p"
  "output_limit (pid_set_gains p a b c) = output_limit p"
  "integral_limit (pid_set_gains p a b c) = integral_limit p"
  by (simp_all add: pid_set_gains_def)

lemma pid_reset_idem [simp]: "pid_reset (pid_reset p) = pid_reset p"
  by (simp add: pid_reset_def)

section \<open>Clamps\<close>

text \<open>NaN passes through the clamp, anything else is clamped.\<close>

lemma sym_clamp_fp:
  assumes "is_finite l" "0 \<le> fvalue l"
  shows "is_nan (sym_clamp l a) \<or> is_finite (sym_clamp l a) \<and> \<bar>fvalue (sym_clamp l a)\<bar> \<le> fvalue l"
proof (cases "is_nan a")
  case True
  then show ?thesis by (simp add: is_nan_def sym_clamp_def)
next
  case False
  then show ?thesis using fp_between [of a "- l" l] assms by (auto simp: sym_clamp_def)
qed

lemma sym_clamp_fin:
  assumes "is_finite l" "is_finite a" "0 \<le> fvalue l"
  shows "is_finite (sym_clamp l a) \<and>
    fvalue (sym_clamp l a) = max (- fvalue l) (min (fvalue l) (fvalue a))"
  using assms by (auto simp: sym_clamp_def fin_less)

text \<open>The state invariant: the limits are those of the configuration and the integral obeys its.\<close>

definition pid_ok :: "fp pid_state \<Rightarrow> bool" where
  "pid_ok p \<longleftrightarrow> output_limit p = PID_OUTPUT_LIMIT \<and> integral_limit p = PID_INTEGRAL_LIMIT \<and>
     (is_nan (integral p) \<or> is_finite (integral p) \<and> fvalue (integral p) = 0)"

lemma pid_ok_init [inv_intros]: "pid_ok (pid_init p i d)"
  by (simp add: pid_ok_def pid_init_def)

lemma pid_ok_reset [inv_intros]: "pid_ok p \<Longrightarrow> pid_ok (pid_reset p)"
  by (simp add: pid_ok_def pid_reset_def)

lemma pid_ok_set_gains [inv_intros]: "pid_ok p \<Longrightarrow> pid_ok (pid_set_gains p a b c)"
  by (simp add: pid_ok_def)

lemma pid_update_integral [simp]:
  "integral (fst (pid_update p s m dt)) =
     sym_clamp (integral_limit p) (integral p + (s - m) * dt)"
  by (simp add: pid_update_def Let_def)

lemma pid_update_output:
  "snd (pid_update p s m dt) = sym_clamp (output_limit p)
     (kp p * (s - m) + ki p * sym_clamp (integral_limit p) (integral p + (s - m) * dt)
      + (if 0 < dt then kd p * ((s - m - prev_error p) / dt) else 0))"
  by (simp add: pid_update_def Let_def)

lemma integral_limit_zero: "is_finite PID_INTEGRAL_LIMIT" "fvalue PID_INTEGRAL_LIMIT = 0"
  by (simp_all add: PID_INTEGRAL_LIMIT_def flit_0)

lemma output_limit_100: "is_finite PID_OUTPUT_LIMIT" "fvalue PID_OUTPUT_LIMIT = 100"
  by (simp_all add: PID_OUTPUT_LIMIT_def flit_100)

lemma pid_ok_update [inv_intros]: "pid_ok p \<Longrightarrow> pid_ok (fst (pid_update p s m dt))"
  using sym_clamp_fp [of PID_INTEGRAL_LIMIT "integral p + (s - m) * dt"]
  by (simp add: pid_ok_def integral_limit_zero)

lemma pid_output_clamped:
  assumes "is_finite (output_limit p)" "0 \<le> fvalue (output_limit p)"
  shows "is_nan (snd (pid_update p s m dt)) \<or>
    is_finite (snd (pid_update p s m dt)) \<and>
    \<bar>fvalue (snd (pid_update p s m dt))\<bar> \<le> fvalue (output_limit p)"
  unfolding pid_update_output by (rule sym_clamp_fp [OF assms])

lemma pid_nan_gain: "kp p = FNaN \<Longrightarrow> snd (pid_update p s m dt) = FNaN"
  by (simp add: pid_update_output sym_clamp_def)

section \<open>The configured controller\<close>

text \<open>
  With the limits of config.h the integral is pinned to zero, so a controller without derivative
  gain is proportional: the output is the clamped, rounded product of gain and error.
\<close>

lemma fin_zero_mult:
  assumes "is_finite a" "is_finite b" "fvalue a = 0 \<or> fvalue b = 0"
  shows "is_finite (a * b) \<and> fvalue (a * b) = 0"
  using fin_mult [OF assms(1,2)] assms(3) by (auto simp: moderate_def)

lemma fin_add_zero:
  assumes "is_finite a" "is_finite b" "moderate x" "fvalue a = round_val binary32 x" "fvalue b = 0"
  shows "is_finite (a + b) \<and> fvalue (a + b) = fvalue a"
  using fin_add [OF assms(1,2)] assms(3-) round_val_idem [OF assms(3)] fround32_moderate(3)
  by simp

lemma pid_proportional:
  assumes ok: "pid_ok p" "\<not> is_nan (integral p)"
    and gains: "is_finite (kp p)" "is_finite (ki p)" "is_finite (kd p)" "fvalue (kd p) = 0"
    and fin: "is_finite s" "is_finite m" "is_finite dt" "is_finite (prev_error p)"
    and sz: "moderate (fvalue s - fvalue m)"
      "moderate (fvalue (kp p) * round_val binary32 (fvalue s - fvalue m))"
      "moderate (round_val binary32 (fvalue s - fvalue m) * fvalue dt)"
      "moderate (fvalue (s - m) - fvalue (prev_error p))"
      "moderate (fvalue (s - m - prev_error p) / fvalue dt)"
    and dt: "0 < fvalue dt"
  shows "is_finite (snd (pid_update p s m dt)) \<and>
    fvalue (snd (pid_update p s m dt)) =
      max (- 100) (min 100 (round_val binary32
        (fvalue (kp p) * round_val binary32 (fvalue s - fvalue m))))"
proof -
  let ?e = "s - m"
  have e: "is_finite ?e" "fvalue ?e = round_val binary32 (fvalue s - fvalue m)"
    using fin_sub [OF fin(1,2) sz(1)] by auto
  have p: "is_finite (kp p * ?e)"
    "fvalue (kp p * ?e) = round_val binary32 (fvalue (kp p) * fvalue ?e)"
    using fin_mult [OF gains(1) e(1)] sz(2) e(2) by auto
  have edt: "is_finite (?e * dt)" using fin_mult [OF e(1) fin(3)] sz(3) e(2) by simp
  let ?i = "sym_clamp (integral_limit p) (integral p + ?e * dt)"
  have "is_finite (integral p)" "fvalue (integral p) = 0" using ok by (auto simp: pid_ok_def)
  then have "is_finite (integral p + ?e * dt)"
    using fin_add [of "integral p" "?e * dt"] edt fin_mult [OF e(1) fin(3)] sz(3) e(2)
      fround32_moderate(3) by simp
  then have i: "is_finite ?i" "fvalue ?i = 0"
    using ok(1) sym_clamp_fin [of PID_INTEGRAL_LIMIT "integral p + ?e * dt"]
    by (simp_all add: pid_ok_def integral_limit_zero)
  have it: "is_finite (ki p * ?i)" "fvalue (ki p * ?i) = 0"
    using fin_zero_mult [OF gains(2) i(1)] i(2) by auto
  have "is_finite (?e - prev_error p)" using fin_sub [OF e(1) fin(4)] sz(4) by simp
  then have "is_finite ((?e - prev_error p) / dt)"
    using fin_div [OF _ fin(3)] sz(5) dt by simp
  then have d: "is_finite (kd p * ((?e - prev_error p) / dt))"
    "fvalue (kd p * ((?e - prev_error p) / dt)) = 0"
    using fin_zero_mult [OF gains(3)] gains(4) by auto
  have m: "moderate (fvalue (kp p) * fvalue ?e)" using sz(2) e(2) by simp
  have s1: "is_finite (kp p * ?e + ki p * ?i)" "fvalue (kp p * ?e + ki p * ?i) = fvalue (kp p * ?e)"
    using fin_add_zero [OF p(1) it(1) m p(2) it(2)] by auto
  have "is_finite (kp p * ?e + ki p * ?i + kd p * ((?e - prev_error p) / dt))"
    "fvalue (kp p * ?e + ki p * ?i + kd p * ((?e - prev_error p) / dt)) = fvalue (kp p * ?e)"
    using fin_add_zero [OF s1(1) d(1) m _ d(2)] s1(2) p(2) by auto
  moreover have "0 < dt" using fin(3) dt by (simp add: fin_less)
  ultimately show ?thesis
    using sym_clamp_fin [of PID_OUTPUT_LIMIT] ok(1) p(2) e(2)
    by (simp add: pid_update_output pid_ok_def output_limit_100)
qed

section \<open>Bounded operation\<close>

text \<open>
  A controller whose gains and previous error are bounded, fed with bounded inputs, neither
  overflows nor produces a NaN: the output is a finite correction and the state stays bounded.
\<close>

definition gains_bounded :: "fp pid_state \<Rightarrow> bool" where
  "gains_bounded p \<longleftrightarrow> fbounded (kp p) (2 ^ 60) \<and> fbounded (ki p) (2 ^ 60) \<and> fbounded (kd p) (2 ^ 60)"

definition pid_sane :: "fp pid_state \<Rightarrow> bool" where
  "pid_sane p \<longleftrightarrow> pid_ok p \<and> \<not> is_nan (integral p) \<and> gains_bounded p \<and> fbounded (prev_error p) (2 ^ 11)"

lemma within_zero: "0 \<le> B \<Longrightarrow> fbounded 0 B"
  by (simp add: fbounded_def)

lemma pid_sane_reset [inv_intros]: "pid_sane p \<Longrightarrow> pid_sane (pid_reset p)"
  using within_zero [of "2 ^ 11"]
  by (auto simp: pid_sane_def pid_reset_def pid_ok_def gains_bounded_def is_nan_def zero_fp_def)

lemma pid_sane_init: "gains_bounded (pid_init p i d) \<Longrightarrow> pid_sane (pid_init p i d)"
  using within_zero [of "2 ^ 11"]
  by (auto simp: pid_sane_def pid_ok_init) (auto simp: pid_init_def is_nan_def zero_fp_def)

lemma pid_sane_set_gains:
  "pid_sane p \<Longrightarrow> fbounded a (2 ^ 60) \<Longrightarrow> fbounded b (2 ^ 60) \<Longrightarrow> fbounded c (2 ^ 60) \<Longrightarrow>
   pid_sane (pid_set_gains p a b c)"
  by (auto simp: pid_sane_def pid_ok_def gains_bounded_def pid_set_gains_def)

lemma pid_sane_update:
  assumes sane: "pid_sane p" and s: "fbounded s (2 ^ 10)" and m: "fbounded m (2 ^ 10)"
    and dt: "fbounded dt 1" "1 / 2 ^ 20 \<le> fvalue dt"
  shows "pid_sane (fst (pid_update p s m dt)) \<and> fbounded (snd (pid_update p s m dt)) 100"
proof -
  let ?e = "s - m" and ?x = "integral p + (s - m) * dt"
  let ?i = "sym_clamp (integral_limit p) ?x" and ?d = "(s - m - prev_error p) / dt"
  let ?sum = "kp p * ?e + ki p * ?i + (if 0 < dt then kd p * ?d else 0)"
  have g: "fbounded (kp p) (2 ^ 60)" "fbounded (ki p) (2 ^ 60)" "fbounded (kd p) (2 ^ 60)"
    and pe: "fbounded (prev_error p) (2 ^ 11)" and ok: "pid_ok p"
    and int: "fbounded (integral p) 0"
    using sane by (auto simp: pid_sane_def gains_bounded_def pid_ok_def fbounded_def)
  have e: "fbounded ?e (2 ^ 11)" by (rule within_sub [OF s m]) auto
  have "fbounded (?e * dt) (2 ^ 11)" by (rule within_mult [OF e dt(1)]) auto
  then have x: "fbounded ?x (2 ^ 11)" by (rule within_add [OF int]) auto
  have lim: "integral_limit p = PID_INTEGRAL_LIMIT" "output_limit p = PID_OUTPUT_LIMIT"
    using ok by (auto simp: pid_ok_def)
  have i: "fbounded ?i 0"
    using sym_clamp_fin [of PID_INTEGRAL_LIMIT ?x] x by (simp add: lim fbounded_def integral_limit_zero)
  have "fbounded (?e - prev_error p) (2 ^ 12)" by (rule within_sub [OF e pe]) auto
  then have d: "fbounded ?d (2 ^ 32)"
    by (rule within_div [where L = "1 / 2 ^ 20"]) (use dt in \<open>auto simp: fbounded_def\<close>)
  have pt: "fbounded (kp p * ?e) (2 ^ 71)" by (rule within_mult [OF g(1) e]) auto
  have it: "fbounded (ki p * ?i) (2 ^ 60)" by (rule within_mult [OF g(2) i]) auto
  have "fbounded (kd p * ?d) (2 ^ 92)" by (rule within_mult [OF g(3) d]) auto
  then have dterm: "fbounded (if 0 < dt then kd p * ?d else 0) (2 ^ 92)" by (simp add: within_zero)
  have "fbounded (kp p * ?e + ki p * ?i) (2 ^ 72)" by (rule within_add [OF pt it]) auto
  then have sum: "fbounded ?sum (2 ^ 93)" by (rule within_add [OF _ dterm]) auto
  have out: "fbounded (snd (pid_update p s m dt)) 100"
    using sym_clamp_fin [of PID_OUTPUT_LIMIT ?sum] sum
    by (auto simp: pid_update_output lim fbounded_def output_limit_100)
  have "\<not> is_nan ?i" using i is_finite_not_nan by (auto simp: fbounded_def)
  then have "pid_sane (fst (pid_update p s m dt))"
    using pid_ok_update [OF ok] g e by (simp add: pid_sane_def gains_bounded_def)
  with out show ?thesis by simp
qed

lemma pid_law_bounded:
  assumes sane: "pid_sane p" and kd: "fvalue (kd p) = 0"
    and s: "fbounded s (2 ^ 10)" and m: "fbounded m (2 ^ 10)"
    and dt: "fbounded dt 1" "1 / 2 ^ 20 \<le> fvalue dt"
  shows "fvalue (snd (pid_update p s m dt)) =
    max (- 100) (min 100 (round_val binary32 (fvalue (kp p) * round_val binary32 (fvalue s - fvalue m))))"
proof -
  have g: "fbounded (kp p) (2 ^ 60)" "is_finite (ki p)" "is_finite (kd p)"
    and pe: "fbounded (prev_error p) (2 ^ 11)" and ok: "pid_ok p" "\<not> is_nan (integral p)"
    using sane by (auto simp: pid_sane_def gains_bounded_def fbounded_def)
  have fin: "is_finite s" "is_finite m" "is_finite dt" "is_finite (prev_error p)" "is_finite (kp p)"
    using s m dt pe g by (auto simp: fbounded_def)
  have b1: "\<bar>fvalue s - fvalue m\<bar> \<le> 2 ^ 11"
    using s m abs_triangle_ineq4 [of "fvalue s" "fvalue m"] by (simp add: fbounded_def)
  have m1: "moderate (fvalue s - fvalue m)" using b1 by (simp add: moderate_def)
  have e: "fbounded (s - m) (2 ^ 11)" by (rule within_sub [OF s m]) auto
  have ev: "fvalue (s - m) = round_val binary32 (fvalue s - fvalue m)" using fin_sub [OF fin(1,2) m1] by simp
  have eb: "\<bar>fvalue (s - m)\<bar> \<le> 2 ^ 11" using e by (simp add: fbounded_def)
  have "\<bar>fvalue (kp p) * fvalue (s - m)\<bar> \<le> 2 ^ 60 * 2 ^ 11"
    unfolding abs_mult using g(1) eb by (intro mult_mono) (auto simp: fbounded_def)
  then have m2: "moderate (fvalue (kp p) * fvalue (s - m))" by (simp add: moderate_def)
  have "\<bar>fvalue (s - m) * fvalue dt\<bar> \<le> 2 ^ 11 * 1"
    unfolding abs_mult using eb dt by (intro mult_mono) (auto simp: fbounded_def)
  then have m3: "moderate (fvalue (s - m) * fvalue dt)" by (simp add: moderate_def)
  have "\<bar>fvalue (s - m) - fvalue (prev_error p)\<bar> \<le> 2 ^ 12"
    using eb pe abs_triangle_ineq4 [of "fvalue (s - m)" "fvalue (prev_error p)"] by (simp add: fbounded_def)
  then have m4: "moderate (fvalue (s - m) - fvalue (prev_error p))" by (simp add: moderate_def)
  have d: "fbounded (s - m - prev_error p) (2 ^ 12)" by (rule within_sub [OF e pe]) auto
  have pos: "0 < fvalue dt" using dt(2) by (rule less_le_trans [rotated]) simp
  have "\<bar>fvalue (s - m - prev_error p)\<bar> / fvalue dt \<le> 2 ^ 12 / (1 / 2 ^ 20)"
    using d dt(2) pos by (intro frac_le) (auto simp: fbounded_def)
  then have m5: "moderate (fvalue (s - m - prev_error p) / fvalue dt)"
    using pos by (simp add: moderate_def abs_divide)
  show ?thesis
    using pid_proportional [OF ok fin(5) g(2,3) kd fin(1-4) m1] m2 m3 m4 m5 pos by (simp add: ev)
qed

section \<open>Properties\<close>

text \<open>
  C15: One step of a controller that carries the configured limits returns either a
  NaN or a finite correction between -100 and 100 microseconds, for every input and every gain, and
  leaves a controller with the same limits whose integral is a NaN or pinned to zero.
\<close>

theorem pid_output_limited:
  assumes "pid_ok p"
  shows "(is_nan (snd (pid_update p s m dt)) \<or>
      is_finite (snd (pid_update p s m dt)) \<and> \<bar>fvalue (snd (pid_update p s m dt))\<bar> \<le> 100) \<and>
    pid_ok (fst (pid_update p s m dt))"
  using pid_output_clamped [of p s m dt] assms pid_ok_update [OF assms, of s m dt]
  by (simp add: pid_ok_def [of p] output_limit_100)

theorem pid_output_limited_witness:
  "\<bar>fvalue (snd (pid_update (pid_init PID_PITCH_KP PID_PITCH_KI PID_PITCH_KD) (flit 90) 0 (flit (1 / 100))))\<bar> \<le> 100"
proof -
  have "\<not> is_nan (snd (pid_update (pid_init PID_PITCH_KP PID_PITCH_KI PID_PITCH_KD) (flit 90) 0 (flit (1 / 100))))"
    by code_simp
  then show ?thesis using pid_output_limited [OF pid_ok_init] by blast
qed

text \<open>
  With the limits of config.h and no derivative gain the controller is purely
  proportional: for bounded inputs and any loop period the flight code uses, the output is the
  rounded product of gain and rounded error, clamped to 100, whatever the integral gain is.
\<close>

theorem pid_configured_law:
  assumes "pid_sane p" "fvalue (kd p) = 0" "fbounded s (2 ^ 10)" "fbounded m (2 ^ 10)"
    "fbounded dt 1" "1 / 2 ^ 20 \<le> fvalue dt"
  shows "fvalue (snd (pid_update p s m dt)) =
    max (- 100) (min 100 (round_val binary32 (fvalue (kp p) * round_val binary32 (fvalue s - fvalue m))))"
  by (rule pid_law_bounded [OF assms])

theorem pid_configured_law_witness:
  "fvalue (snd (pid_update (pid_init (flit 2) (flit 1) 0) (flit 10) (flit (- (1 / 2))) (flit (1 / 100)))) = 21"
proof -
  have f: "flit 2 = FFin False 2" "flit 1 = FFin False 1" "flit 10 = FFin False 10"
    "flit (- (1 / 2)) = FFin True (1 / 2)" by code_simp+
  have s: "pid_sane (pid_init (flit 2) (flit 1) 0)"
    by (rule pid_sane_init) (simp add: gains_bounded_def pid_init_def fbounded_def f)
  have b: "fbounded (flit 10) (2 ^ 10)" "fbounded (flit (- (1 / 2))) (2 ^ 10)"
    by (simp_all add: fbounded_def f)
  have d: "fbounded (flit (1 / 100)) 1" "1 / 2 ^ 20 \<le> fvalue (flit (1 / 100))"
    by (simp_all add: fbounded_def flit_hundredth)
  have "fvalue (kd (pid_init (flit 2) (flit 1) 0)) = 0" by (simp add: pid_init_def)
  note law = pid_configured_law [OF s this b d]
  have "round_val binary32 (2 * round_val binary32 (21 / 2)) = 21" by code_simp
  then show ?thesis unfolding law by (simp add: pid_init_def f)
qed

text \<open>
  The derivative term acts on the error, not on the measurement as the comment
  in pid.c says: with the measurement unchanged, a step of the setpoint from s0 to s1 enters the
  output divided by the loop period.
\<close>

theorem pid_derivative_kick:
  fixes p :: "rat pid_state"
  assumes "0 < dt" "prev_error p = s0 - m"
  shows "snd (pid_update p s1 m dt) = sym_clamp (output_limit p)
     (kp p * (s1 - m) + ki p * integral (fst (pid_update p s1 m dt)) + kd p * ((s1 - s0) / dt))"
  using assms by (simp add: pid_update_output)

theorem pid_derivative_kick_witness:
  "snd (pid_update \<lparr>kp = 0, ki = 0, kd = 1, integral = 0, prev_error = 0, output_limit = 100,
     integral_limit = (0 :: rat)\<rparr> (1 / 2) 0 (1 / 100)) = 50"
  using pid_derivative_kick [of "1 / 100" "\<lparr>kp = 0, ki = 0, kd = 1, integral = 0, prev_error = 0,
      output_limit = 100, integral_limit = (0 :: rat)\<rparr>" 0 0 "1 / 2"]
  by (simp add: sym_clamp_def)

end
