(* ===== verification/Motor_Mix.thy ===== *)
theory Motor_Mix
  imports Config
begin

text \<open>
  components/flight_controller/motor_mix.c: the X-frame mixer.  \<open>clamp_us\<close> converts a float to
  \<open>uint32_t\<close>; the conversion of a NaN is undefined in C, so the result is an option.  The lemmas
  show when the mixer is defined, that its outputs are pulse widths the ESC accepts, and that each
  motor moves in the direction of the mixing table.
\<close>

record motor_outputs =
  fl :: u32
  fr :: u32
  rl :: u32
  rr :: u32

text \<open>\<open>(uint32_t) val\<close>: truncation, defined when the truncated value fits.\<close>

definition to_u32 :: "fp \<Rightarrow> u32 option" where
  "to_u32 a = (case trunc_int a of
     None \<Rightarrow> None
   | Some i \<Rightarrow> if 0 \<le> i \<and> i < 2 ^ 32 then Some (word_of_int i) else None)"

definition clamp_us :: "fp \<Rightarrow> u32 option" where
  "clamp_us val =
     (if val < f32_of_int ESC_PWM_MIN_US then Some (word_of_int ESC_PWM_MIN_US)
      else if f32_of_int ESC_PWM_MAX_US < val then Some (word_of_int ESC_PWM_MAX_US)
      else to_u32 val)"

definition motor_mix :: "int \<Rightarrow> fp \<Rightarrow> fp \<Rightarrow> fp \<Rightarrow> motor_outputs option" where
  "motor_mix throttle_us pid_pitch pid_roll pid_yaw =
     (let t = f32_of_int throttle_us in do {
        m1 \<leftarrow> clamp_us (t + pid_pitch + pid_roll - pid_yaw);
        m2 \<leftarrow> clamp_us (t + pid_pitch - pid_roll + pid_yaw);
        m3 \<leftarrow> clamp_us (t - pid_pitch + pid_roll + pid_yaw);
        m4 \<leftarrow> clamp_us (t - pid_pitch - pid_roll - pid_yaw);
        Some \<lparr>fl = m1, fr = m2, rl = m3, rr = m4\<rparr>
      })"

section \<open>The clamp\<close>

text \<open>What \<open>clamp_us\<close> computes, as a function of the exact value.\<close>

definition clamp_val :: "rat \<Rightarrow> int" where
  "clamp_val x = (if x < 1000 then 1000 else if 1600 < x then 1600 else \<lfloor>x\<rfloor>)"

definition pulse_ok :: "u32 \<Rightarrow> bool" where
  "pulse_ok w \<longleftrightarrow> 1000 \<le> uint w \<and> uint w \<le> 1600"

lemma clamp_val_bounds: "1000 \<le> clamp_val x \<and> clamp_val x \<le> 1600"
  unfolding clamp_val_def by (auto simp: le_floor_iff floor_le_iff)

lemma clamp_val_mono: "x \<le> y \<Longrightarrow> clamp_val x \<le> clamp_val y"
  using clamp_val_bounds [of x] clamp_val_bounds [of y] floor_mono [of x y]
  by (auto simp: clamp_val_def)

lemma min_max_values [simp]:
  "is_finite (f32_of_int 1000)" "fvalue (f32_of_int 1000) = 1000"
  "is_finite (f32_of_int 1600)" "fvalue (f32_of_int 1600) = 1600"
  using f32_of_int_exact [of 1000] f32_of_int_exact [of 1600] by simp_all

lemma clamp_us_fin:
  assumes "is_finite a"
  shows "clamp_us a = Some (word_of_int (clamp_val (fvalue a)))"
proof (cases "fvalue a < 1000 \<or> 1600 < fvalue a")
  case True
  then show ?thesis using assms by (auto simp: clamp_us_def clamp_val_def fin_less)
next
  case False
  then have b: "1000 \<le> \<lfloor>fvalue a\<rfloor>" "\<lfloor>fvalue a\<rfloor> \<le> 1600" by (simp_all add: le_floor_iff floor_le_iff)
  have "trunc_int a = Some \<lfloor>fvalue a\<rfloor>"
    using assms False by (cases a) (auto simp: Let_def)
  with b have "to_u32 a = Some (word_of_int \<lfloor>fvalue a\<rfloor>)" by (simp add: to_u32_def)
  with False assms show ?thesis by (simp add: clamp_us_def clamp_val_def fin_less)
qed

lemma clamp_us_nan: "clamp_us FNaN = None"
  by (simp add: clamp_us_def to_u32_def)

lemma clamp_us_inf: "clamp_us (FInf s) = Some (if s then 1000 else 1600)"
proof -
  have "\<not> FInf False < f32_of_int 1000" "f32_of_int 1600 < FInf False" "FInf True < f32_of_int 1000"
    using min_max_values by (cases "f32_of_int 1000"; cases "f32_of_int 1600"; simp add: less_fp_def)+
  then show ?thesis by (cases s) (simp_all add: clamp_us_def)
qed

lemma uint_clamp: "uint (word_of_int (clamp_val x) :: u32) = clamp_val x"
  using clamp_val_bounds [of x] by (simp add: uint_word_of_int)

lemma clamp_us_Some: "clamp_us a = Some w \<Longrightarrow> pulse_ok w"
  by (cases a) (auto simp: clamp_us_nan clamp_us_inf clamp_us_fin pulse_ok_def uint_clamp
      clamp_val_bounds)

lemma clamp_us_None: "clamp_us a = None \<longleftrightarrow> is_nan a"
  by (cases a) (auto simp: clamp_us_nan clamp_us_inf clamp_us_fin is_nan_def)

section \<open>The mixer\<close>

lemma motor_mix_pulses:
  "motor_mix t p r y = Some m \<Longrightarrow> pulse_ok (fl m) \<and> pulse_ok (fr m) \<and> pulse_ok (rl m) \<and> pulse_ok (rr m)"
  by (auto simp: motor_mix_def Let_def bind_eq_Some_conv dest: clamp_us_Some)

text \<open>A sum of three rounded additions of bounded values is finite and monotone in each.\<close>

definition sum4 :: "rat \<Rightarrow> rat \<Rightarrow> rat \<Rightarrow> rat \<Rightarrow> rat" where
  "sum4 t a b c = round_val binary32 (round_val binary32 (round_val binary32 (t + a) + b) + c)"

lemma sum4_mono: "t \<le> t' \<Longrightarrow> a \<le> a' \<Longrightarrow> b \<le> b' \<Longrightarrow> c \<le> c' \<Longrightarrow> sum4 t a b c \<le> sum4 t' a' b' c'"
  unfolding sum4_def by (intro round_val_mono add_mono) auto

definition pid_range :: "fp \<Rightarrow> bool" where
  "pid_range a \<longleftrightarrow> is_finite a \<and> \<bar>fvalue a\<bar> \<le> 100"

lemma pid_range_uminus [simp]: "pid_range (- a) = pid_range a"
  by (simp add: pid_range_def)

lemma minus_as_plus: "a - b = a + - (b :: fp)"
  by (simp add: minus_fp_def plus_fp_def uminus_fp_def)

lemma round_small:
  assumes "\<bar>x\<bar> \<le> of_int B" "B < 2 ^ 24"
  shows "\<bar>round_val binary32 x\<bar> \<le> of_int B" "moderate x"
proof -
  have B: "0 \<le> B" using assms(1) by (metis abs_ge_zero of_int_0_le_iff order_trans)
  have f: "fits binary32 (of_int B)" using assms(2) B by (intro fits32_int) simp
  then have "round_val binary32 x \<le> of_int B" "- of_int B \<le> round_val binary32 x"
    using assms(1) by (auto intro!: round_val_upper round_val_lower)
  then show "\<bar>round_val binary32 x\<bar> \<le> of_int B" by simp
  have "(of_int B :: rat) \<le> of_int (2 ^ 24)" using assms(2) by (metis less_imp_le of_int_le_iff)
  then show "moderate x" using assms(1) by (simp add: moderate_def)
qed

lemma sum4_fp:
  assumes t: "\<bar>t\<bar> \<le> 65536" and r: "pid_range a" "pid_range b" "pid_range c"
  shows "is_finite (f32_of_int t + a + b + c) \<and>
    fvalue (f32_of_int t + a + b + c) = sum4 (of_int t) (fvalue a) (fvalue b) (fvalue c)"
proof -
  note R = r [unfolded pid_range_def]
  have T: "is_finite (f32_of_int t)" "fvalue (f32_of_int t) = of_int t"
    using f32_of_int_exact [of t] t by auto
  have tb: "\<bar>of_int t :: rat\<bar> \<le> of_int 65536" using t by (metis of_int_abs of_int_le_iff)
  have b1: "\<bar>of_int t + fvalue a\<bar> \<le> of_int 65636" 
    using tb R abs_triangle_ineq [of "of_int t" "fvalue a"] by simp
  note s1 = round_small [OF b1]
  have 1: "is_finite (f32_of_int t + a)"
    "fvalue (f32_of_int t + a) = round_val binary32 (of_int t + fvalue a)"
    using fin_add [OF T(1)] R s1(2) T(2) by auto
  have b2: "\<bar>round_val binary32 (of_int t + fvalue a) + fvalue b\<bar> \<le> of_int 65736"
    using s1(1) R abs_triangle_ineq [of "round_val binary32 (of_int t + fvalue a)" "fvalue b"] by simp
  note s2 = round_small [OF b2]
  have 2: "is_finite (f32_of_int t + a + b)"
    "fvalue (f32_of_int t + a + b) = round_val binary32 (round_val binary32 (of_int t + fvalue a) + fvalue b)"
    using fin_add [OF 1(1)] R s2(2) 1(2) by auto
  have b3: "\<bar>fvalue (f32_of_int t + a + b) + fvalue c\<bar> \<le> of_int 65836"
    using s2(1) 2(2) R abs_triangle_ineq [of "fvalue (f32_of_int t + a + b)" "fvalue c"] by simp
  show ?thesis using fin_add [OF 2(1)] R round_small(2) [OF b3] 2(2) by (simp add: sum4_def)
qed

lemma motor_mix_fin:
  assumes "\<bar>t\<bar> \<le> 65536" "pid_range p" "pid_range r" "pid_range y"
  shows "motor_mix t p r y = Some
    \<lparr>fl = word_of_int (clamp_val (sum4 (of_int t) (fvalue p) (fvalue r) (- fvalue y))),
     fr = word_of_int (clamp_val (sum4 (of_int t) (fvalue p) (- fvalue r) (fvalue y))),
     rl = word_of_int (clamp_val (sum4 (of_int t) (- fvalue p) (fvalue r) (fvalue y))),
     rr = word_of_int (clamp_val (sum4 (of_int t) (- fvalue p) (- fvalue r) (- fvalue y)))\<rparr>"
  using sum4_fp [OF assms(1)] assms(2-) by (simp add: motor_mix_def Let_def minus_as_plus clamp_us_fin)

section \<open>Direction of the corrections\<close>

lemma uint_mix:
  assumes "\<bar>t\<bar> \<le> 65536" "pid_range p" "pid_range r" "pid_range y" "motor_mix t p r y = Some m"
  shows "uint (fl m) = clamp_val (sum4 (of_int t) (fvalue p) (fvalue r) (- fvalue y))"
    "uint (fr m) = clamp_val (sum4 (of_int t) (fvalue p) (- fvalue r) (fvalue y))"
    "uint (rl m) = clamp_val (sum4 (of_int t) (- fvalue p) (fvalue r) (fvalue y))"
    "uint (rr m) = clamp_val (sum4 (of_int t) (- fvalue p) (- fvalue r) (- fvalue y))"
proof -
  note m = assms(5) [unfolded motor_mix_fin [OF assms(1-4)] option.inject]
  show "uint (fl m) = clamp_val (sum4 (of_int t) (fvalue p) (fvalue r) (- fvalue y))"
    "uint (fr m) = clamp_val (sum4 (of_int t) (fvalue p) (- fvalue r) (fvalue y))"
    "uint (rl m) = clamp_val (sum4 (of_int t) (- fvalue p) (fvalue r) (fvalue y))"
    "uint (rr m) = clamp_val (sum4 (of_int t) (- fvalue p) (- fvalue r) (- fvalue y))"
    unfolding m [symmetric] by (simp_all add: uint_clamp)
qed

lemma sum4_exact:
  assumes "fits binary32 (t + a)" "fits binary32 (t + a + b)" "fits binary32 (t + a + b + c)"
  shows "sum4 t a b c = t + a + b + c"
  using assms by (simp add: sum4_def round_val_exact)

section \<open>Properties\<close>

text \<open>
  The mixer is undefined only when one of the four sums is a NaN; with corrections in
  the range the controllers produce it is defined, and whenever it is defined every motor gets a
  pulse between 1000 and 1600 microseconds.
\<close>

theorem mix_defined:
  "(\<bar>t\<bar> \<le> 65536 \<and> pid_range p \<and> pid_range r \<and> pid_range y \<longrightarrow> motor_mix t p r y \<noteq> None) \<and>
   (motor_mix t p r y = Some m \<longrightarrow> (\<forall>w \<in> {fl m, fr m, rl m, rr m}. 1000 \<le> uint w \<and> uint w \<le> 1600))"
  using motor_mix_pulses [of t p r y m] motor_mix_fin [of t p r y] by (auto simp: pulse_ok_def)

theorem mix_defined_witness:
  "motor_mix 1250 (flit 20) (flit (- 10)) 0 \<noteq> None \<and>
   (\<exists>m. motor_mix 1250 (flit 20) (flit (- 10)) 0 = Some m \<and> 1000 \<le> uint (fl m))"
proof -
  have "pid_range (flit 20)" "pid_range (flit (- 10))" "pid_range 0" by code_simp+
  then have d: "motor_mix 1250 (flit 20) (flit (- 10)) 0 \<noteq> None"
    using mix_defined [of 1250 "flit 20" "flit (- 10)" 0] by simp
  then obtain m where "motor_mix 1250 (flit 20) (flit (- 10)) 0 = Some m" by blast
  then show ?thesis using mix_defined [of 1250 "flit 20" "flit (- 10)" 0 m] by auto
qed

text \<open>
  C14: The corrections act in the documented directions: raising the pitch correction
  never lowers a front motor nor raises a rear one, raising the roll correction never lowers a left
  motor nor raises a right one, and raising the yaw correction never lowers FR or RL nor raises FL
  or RR; rounding and clamping included.
\<close>

theorem mix_direction:
  assumes "\<bar>t\<bar> \<le> 65536" "list_all pid_range [p, p', r, r', y, y']"
    "fvalue p \<le> fvalue p'" "fvalue r \<le> fvalue r'" "fvalue y \<le> fvalue y'"
    "motor_mix t p r y = Some m" "motor_mix t p' r y = Some mp" "motor_mix t p r' y = Some mr"
    "motor_mix t p r y' = Some my"
  shows "fl m \<le> fl mp \<and> fr m \<le> fr mp \<and> rl mp \<le> rl m \<and> rr mp \<le> rr m \<and>
    fl m \<le> fl mr \<and> rl m \<le> rl mr \<and> fr mr \<le> fr m \<and> rr mr \<le> rr m \<and>
    fr m \<le> fr my \<and> rl m \<le> rl my \<and> fl my \<le> fl m \<and> rr my \<le> rr m"
proof -
  have R: "pid_range p" "pid_range p'" "pid_range r" "pid_range r'" "pid_range y" "pid_range y'"
    using assms(2) by simp_all
  note U = uint_mix [OF assms(1) R(1,3,5) assms(6)] uint_mix [OF assms(1) R(2,3,5) assms(7)]
    uint_mix [OF assms(1) R(1,4,5) assms(8)] uint_mix [OF assms(1) R(1,3,6) assms(9)]
  show ?thesis unfolding word_le_def U
    by (intro conjI clamp_val_mono sum4_mono) (use assms(3-5) in auto)
qed

theorem mix_direction_witness:
  "\<exists>m mp. motor_mix 1250 0 0 0 = Some m \<and> motor_mix 1250 (flit 20) 0 0 = Some mp \<and> fl m \<le> fl mp \<and> rr mp \<le> rr m"
proof -
  have r: "pid_range (flit 20)" "pid_range 0" "fvalue 0 \<le> fvalue (flit 20)" by code_simp+
  obtain m mp where m: "motor_mix 1250 0 0 0 = Some m" "motor_mix 1250 (flit 20) 0 0 = Some mp"
    using motor_mix_fin [of 1250] r by simp
  show ?thesis using mix_direction [of 1250 0 "flit 20" 0 0 0 0 m mp m m] r m by simp
qed

end
