(* ===== verification/Esc.thy ===== *)
theory Esc
  imports Config
begin

text \<open>
  components/esc/esc.c and esc_calibration.c: the PWM driver of the four motors.  The LEDC
  peripheral belongs to the SDK; the driver calls it through \<open>ledc_op\<close> values, which the state
  records in order.  \<open>last_us\<close> is the function-static cache of \<open>esc_set_us\<close>, which skips the
  peripheral when a motor already has the requested pulse.

  What the calls latch on a channel is read off the history (\<open>latched\<close>): a duty takes effect with
  the \<open>ledc_update_duty\<close> that follows \<open>ledc_set_duty\<close>, or with the channel configuration.  The
  invariant \<open>esc_inv\<close> ties the cache to the latched duties, and the lemmas show that the cache is
  transparent: the driver behaves as one that writes every request.
\<close>

section \<open>The driver\<close>

datatype ledc_op =
    Timer_Config
  | Channel_Config int int u32
  | Set_Duty int u32
  | Update_Duty int

record esc =
  last_us :: "u32 list"
  calls :: "ledc_op list"

definition esc_boot :: esc where
  "esc_boot = \<lparr>last_us = replicate 4 0, calls = []\<rparr>"

definition motor_gpios :: "int list" where "motor_gpios = [5, 19, 18, 33]"

definition motor_channels :: "int list" where "motor_channels = [0, 1, 2, 3]"

definition PERIOD_US :: u64 where "PERIOD_US = 20000"
definition MAX_DUTY :: u64 where "MAX_DUTY = 65535"

definition clamp_pulse :: "u32 \<Rightarrow> u32" where
  "clamp_pulse pulse_us =
     (let p = (if pulse_us < word_of_int ESC_PWM_MIN_US then word_of_int ESC_PWM_MIN_US else pulse_us)
      in if word_of_int ESC_PWM_MAX_US < p then word_of_int ESC_PWM_MAX_US else p)"

definition us_to_duty :: "u32 \<Rightarrow> u32" where
  "us_to_duty pulse_us = ucast ((ucast (clamp_pulse pulse_us) * MAX_DUTY) div PERIOD_US)"

definition esc_init_ops :: "ledc_op list" where
  "esc_init_ops = Timer_Config #
     map (\<lambda>i. Channel_Config (motor_channels ! i) (motor_gpios ! i)
            (us_to_duty (word_of_int ESC_PWM_ARM_US))) [0..<nat MOTOR_COUNT]"

definition esc_init :: "(ledc_op list \<Rightarrow> int) \<Rightarrow> esc \<Rightarrow> esc \<times> outcome" where
  "esc_init resp e =
     (case esp_checked resp (calls e) esc_init_ops of
        (h, ok) \<Rightarrow> (e\<lparr>calls := h\<rparr>, if ok then Returns ESP_OK else Aborts))"

definition esc_set_us :: "int \<Rightarrow> u32 \<Rightarrow> esc \<Rightarrow> esc" where
  "esc_set_us motor pulse_us e =
     (if motor < 0 \<or> MOTOR_COUNT \<le> motor then e
      else let p = clamp_pulse pulse_us; m = nat motor in
        if last_us e ! m = p then e
        else e\<lparr>last_us := (last_us e)[m := p],
               calls := calls e @ [Set_Duty (motor_channels ! m) (us_to_duty p),
                                   Update_Duty (motor_channels ! m)]\<rparr>)"

definition esc_set_motors_us :: "u32 \<Rightarrow> u32 \<Rightarrow> u32 \<Rightarrow> u32 \<Rightarrow> esc \<Rightarrow> esc" where
  "esc_set_motors_us m1 m2 m3 m4 e =
     esc_set_us MOTOR_RR m4 (esc_set_us MOTOR_RL m3 (esc_set_us MOTOR_FR m2 (esc_set_us MOTOR_FL m1 e)))"

definition esc_set_all_us :: "u32 \<Rightarrow> esc \<Rightarrow> esc" where
  "esc_set_all_us pulse_us e = fold (\<lambda>i. esc_set_us (int i) pulse_us) [0..<nat MOTOR_COUNT] e"

definition esc_arm :: "esc \<Rightarrow> esc" where
  "esc_arm e = esc_set_all_us (word_of_int ESC_PWM_ARM_US) e"

definition esc_calibrate :: "esc \<Rightarrow> esc" where
  "esc_calibrate e = esc_set_all_us (word_of_int ESC_PWM_ARM_US)
     (esc_set_all_us (word_of_int ESC_PWM_MIN_US) (esc_set_all_us (word_of_int ESC_PWM_MAX_US) e))"

section \<open>The duty\<close>

definition pulse_in_range :: "u32 \<Rightarrow> bool" where
  "pulse_in_range p \<longleftrightarrow> 1000 \<le> p \<and> p \<le> 1600"

lemma clamp_pulse_range [simp]: "pulse_in_range (clamp_pulse p)"
  by (auto simp: pulse_in_range_def clamp_pulse_def Let_def)

lemma clamp_pulse_id: "pulse_in_range p \<Longrightarrow> clamp_pulse p = p"
  by (auto simp: pulse_in_range_def clamp_pulse_def Let_def)

lemma clamp_pulse_idem [simp]: "clamp_pulse (clamp_pulse p) = clamp_pulse p"
  by (simp add: clamp_pulse_id)

lemma clamp_pulse_nonzero [simp]: "clamp_pulse p \<noteq> 0"
  using clamp_pulse_range [of p] by (auto simp: pulse_in_range_def)

lemma clamp_pulse_mono: "p \<le> q \<Longrightarrow> clamp_pulse p \<le> clamp_pulse q"
  by (auto simp: clamp_pulse_def Let_def)

lemma clamp_pulse_unat: "1000 \<le> unat (clamp_pulse p) \<and> unat (clamp_pulse p) \<le> 1600"
  using clamp_pulse_range [of p] by (simp add: pulse_in_range_def word_le_nat_alt)

text \<open>The 64-bit product does not wrap: the duty is the exact quotient.\<close>

lemma us_to_duty_unat: "unat (us_to_duty p) = unat (clamp_pulse p) * 65535 div 20000"
proof -
  define c where "c = unat (clamp_pulse p)"
  have c: "c \<le> 1600" using clamp_pulse_unat [of p] by (simp add: c_def)
  have u: "unat (ucast (clamp_pulse p) :: u64) = c" using c by (simp add: c_def unsigned_ucast_eq take_bit_nat_def)
  have "unat ((ucast (clamp_pulse p) :: u64) * MAX_DUTY) = c * 65535"
    using c u by (simp add: MAX_DUTY_def unat_word_ariths)
  then have "unat ((ucast (clamp_pulse p) * MAX_DUTY) div PERIOD_US) = c * 65535 div 20000"
    by (simp add: PERIOD_US_def unat_div)
  then show ?thesis using c by (simp add: us_to_duty_def unsigned_ucast_eq c_def [symmetric] take_bit_nat_def)
qed

lemma us_to_duty_bounds: "3276 \<le> unat (us_to_duty p) \<and> unat (us_to_duty p) \<le> 5242"
proof -
  have "1000 * 65535 div 20000 \<le> unat (us_to_duty p)" "unat (us_to_duty p) \<le> 1600 * 65535 div 20000"
    unfolding us_to_duty_unat using clamp_pulse_unat [of p] by (intro div_le_mono mult_le_mono1; simp)+
  then show ?thesis by simp
qed

lemma us_to_duty_clamp [simp]: "us_to_duty (clamp_pulse p) = us_to_duty p"
  by (simp add: us_to_duty_def)

text \<open>Distinct pulse widths in range get distinct duties.\<close>

lemma us_to_duty_strict:
  assumes "pulse_in_range p" "pulse_in_range q" "p < q"
  shows "us_to_duty p < us_to_duty q"
proof -
  have "unat p + 1 \<le> unat q" using assms(3) by (simp add: word_less_nat_alt)
  then have "(unat p + 1) * 65535 div 20000 \<le> unat q * 65535 div 20000"
    by (intro div_le_mono mult_le_mono1)
  moreover have "unat p * 65535 div 20000 < (unat p + 1) * 65535 div 20000"
    using div_le_mono [of "unat p * 65535 + 20000" "(unat p + 1) * 65535" 20000] by simp
  ultimately show ?thesis
    using assms(1,2) by (simp add: word_less_nat_alt us_to_duty_unat clamp_pulse_id)
qed

section \<open>What the calls latch\<close>

text \<open>The functions read a history with the newest call first.\<close>

fun pending_rev :: "ledc_op list \<Rightarrow> int \<Rightarrow> u32 option" where
  "pending_rev [] ch = None"
| "pending_rev (Set_Duty c d # h) ch = (if c = ch then Some d else pending_rev h ch)"
| "pending_rev (Channel_Config c g d # h) ch = (if c = ch then Some d else pending_rev h ch)"
| "pending_rev (_ # h) ch = pending_rev h ch"

fun latched_rev :: "ledc_op list \<Rightarrow> int \<Rightarrow> u32 option" where
  "latched_rev [] ch = None"
| "latched_rev (Update_Duty c # h) ch = (if c = ch then pending_rev h ch else latched_rev h ch)"
| "latched_rev (Channel_Config c g d # h) ch = (if c = ch then Some d else latched_rev h ch)"
| "latched_rev (_ # h) ch = latched_rev h ch"

definition latched :: "ledc_op list \<Rightarrow> int \<Rightarrow> u32 option" where
  "latched h = latched_rev (rev h)"

lemma latched_write [simp]:
  "latched (h @ [Set_Duty c d, Update_Duty c]) = (latched h)(c := Some d)"
  by (auto simp: latched_def fun_eq_iff)

text \<open>The duty of a motor, and the state invariant.\<close>

definition motor_duty :: "esc \<Rightarrow> nat \<Rightarrow> u32 option" where
  "motor_duty e i = latched (calls e) (motor_channels ! i)"

definition duty_ok :: "ledc_op \<Rightarrow> bool" where
  "duty_ok x = (case x of Set_Duty c d \<Rightarrow> 3276 \<le> unat d \<and> unat d \<le> 5242
     | Channel_Config c g d \<Rightarrow> 3276 \<le> unat d \<and> unat d \<le> 5242 | _ \<Rightarrow> True)"

definition esc_inv :: "esc \<Rightarrow> bool" where
  "esc_inv e \<longleftrightarrow> length (last_us e) = 4 \<and> list_all duty_ok (calls e) \<and>
     (\<forall>i < 4. last_us e ! i \<noteq> 0 \<longrightarrow>
        pulse_in_range (last_us e ! i) \<and> motor_duty e i = Some (us_to_duty (last_us e ! i)))"

text \<open>The requested pulse of a motor, as the invariant lets the cache stand for it.\<close>

definition motor_pulse :: "esc \<Rightarrow> nat \<Rightarrow> u32" where
  "motor_pulse e i = last_us e ! i"

lemma channels_distinct: "i < 4 \<Longrightarrow> j < 4 \<Longrightarrow> motor_channels ! i = motor_channels ! j \<longleftrightarrow> i = j"
  by (auto simp: motor_channels_def less_Suc_eq numeral_eq_Suc)

lemma esc_set_us_bad [simp]: "motor < 0 \<or> 4 \<le> motor \<Longrightarrow> esc_set_us motor p e = e"
  by (auto simp: esc_set_us_def)

lemma esc_set_us_motor:
  assumes "i < 4"
  shows "esc_set_us (int i) p e =
    (if last_us e ! i = clamp_pulse p then e
     else e\<lparr>last_us := (last_us e)[i := clamp_pulse p],
            calls := calls e @ [Set_Duty (motor_channels ! i) (us_to_duty p),
                                Update_Duty (motor_channels ! i)]\<rparr>)"
  using assms by (simp add: esc_set_us_def Let_def)

lemma esc_inv_boot [inv_intros]: "esc_inv esc_boot"
  by (simp add: esc_inv_def esc_boot_def nth_Cons' numeral_eq_Suc)

lemma esc_inv_set_us [inv_intros]:
  assumes "esc_inv e"
  shows "esc_inv (esc_set_us motor p e)"
proof (cases "motor < 0 \<or> 4 \<le> motor")
  case False
  then obtain i where i: "motor = int i" "i < 4" by (metis not_less zero_le_imp_eq_int of_nat_less_numeral_iff)
  show ?thesis
  proof (cases "last_us e ! i = clamp_pulse p")
    case True
    with assms i show ?thesis by (simp add: esc_set_us_motor)
  next
    case False
    then have eq: "esc_set_us motor p e = e\<lparr>last_us := (last_us e)[i := clamp_pulse p],
        calls := calls e @ [Set_Duty (motor_channels ! i) (us_to_duty p), Update_Duty (motor_channels ! i)]\<rparr>"
      using i by (simp add: esc_set_us_motor)
    show ?thesis unfolding eq esc_inv_def using assms i us_to_duty_bounds [of p]
      by (auto simp: esc_inv_def motor_duty_def duty_ok_def nth_list_update_if channels_distinct)
  qed
qed (use assms in auto)

lemma esc_inv_all [inv_intros]: "esc_inv e \<Longrightarrow> esc_inv (esc_set_all_us p e)"
  unfolding esc_set_all_us_def by (rule fold_invariant [where Q = "\<lambda>_. True"]) (auto intro: inv_intros)

lemma esc_inv_motors [inv_intros]: "esc_inv e \<Longrightarrow> esc_inv (esc_set_motors_us a b c d e)"
  unfolding esc_set_motors_us_def by (intro inv_intros)

lemma esc_inv_arm [inv_intros]: "esc_inv e \<Longrightarrow> esc_inv (esc_arm e)"
  unfolding esc_arm_def by (intro inv_intros)

lemma esc_inv_calibrate [inv_intros]: "esc_inv e \<Longrightarrow> esc_inv (esc_calibrate e)"
  unfolding esc_calibrate_def by (intro inv_intros)

lemma duty_ok_init_ops: "list_all duty_ok esc_init_ops"
  using us_to_duty_bounds by (simp add: esc_init_ops_def duty_ok_def list_all_iff)

lemma motor_pulse_set_us:
  assumes "length (last_us e) = 4" "i < 4"
  shows "motor_pulse (esc_set_us m p e) i = (if m = int i then clamp_pulse p else motor_pulse e i)"
  using assms by (cases "m < 0 \<or> 4 \<le> m")
    (auto simp: esc_set_us_def Let_def motor_pulse_def nth_list_update_if)

lemma esc_length [simp]: "length (last_us (esc_set_us m p e)) = length (last_us e)"
  by (simp add: esc_set_us_def Let_def)

section \<open>The driver's contract\<close>

text \<open>
  What the flight code relies on: a write sets the clamped pulse of its motor, leaves the others
  alone and keeps the driver's invariant.  The consequences for writes to all motors follow from
  that alone.
\<close>

locale motor_driver =
  fixes set_us :: "int \<Rightarrow> u32 \<Rightarrow> 's \<Rightarrow> 's"
    and pulse :: "'s \<Rightarrow> nat \<Rightarrow> u32"
    and ok :: "'s \<Rightarrow> bool"
  assumes ok_set: "ok s \<Longrightarrow> ok (set_us m p s)"
    and pulse_set: "ok s \<Longrightarrow> i < 4 \<Longrightarrow>
      pulse (set_us m p s) i = (if m = int i then clamp_pulse p else pulse s i)"
begin

lemma ok_seq: "ok s \<Longrightarrow> ok (fold (\<lambda>(m, p). set_us m p) ws s)"
  by (induction ws arbitrary: s) (auto intro: ok_set)

lemma pulse_unwritten:
  "ok s \<Longrightarrow> i < 4 \<Longrightarrow> int i \<notin> fst ` set ws \<Longrightarrow> pulse (fold (\<lambda>(m, p). set_us m p) ws s) i = pulse s i"
  by (induction ws arbitrary: s) (auto simp: ok_set pulse_set)

lemma pulse_seq:
  assumes "ok s" "i < 4" "distinct (map fst ws)" "(int i, p) \<in> set ws"
  shows "pulse (fold (\<lambda>(m, p). set_us m p) ws s) i = clamp_pulse p"
  using assms
proof (induction ws arbitrary: s)
  case (Cons w ws)
  obtain m q where w: "w = (m, q)" by (cases w)
  show ?case
  proof (cases "m = int i")
    case True
    with Cons.prems w have "int i \<notin> fst ` set ws" "q = p" by (auto simp: image_iff)
    then show ?thesis using w True Cons.prems pulse_unwritten [OF ok_set [OF Cons.prems(1)]]
      by (simp add: pulse_set)
  next
    case False
    with Cons w show ?thesis by (auto intro: ok_set)
  qed
qed simp

end

interpretation esc: motor_driver esc_set_us motor_pulse esc_inv
proof
  show "esc_inv (esc_set_us m p e)" if "esc_inv e" for e m p using that by (rule esc_inv_set_us)
  show "motor_pulse (esc_set_us m p e) i = (if m = int i then clamp_pulse p else motor_pulse e i)"
    if "esc_inv e" "i < 4" for e m p i
    using that by (intro motor_pulse_set_us) (auto simp: esc_inv_def)
qed

lemma esc_set_all_seq:
  "esc_set_all_us p e = fold (\<lambda>(m, p). esc_set_us m p) [(0, p), (1, p), (2, p), (3, p)] e"
  by (simp add: esc_set_all_us_def upt_rec)

lemma esc_set_motors_seq:
  "esc_set_motors_us a b c d e =
     fold (\<lambda>(m, p). esc_set_us m p) [(0, a), (1, b), (2, c), (3, d)] e"
  by (simp add: esc_set_motors_us_def)

lemma motor_pulse_all: "esc_inv e \<Longrightarrow> i < 4 \<Longrightarrow> motor_pulse (esc_set_all_us p e) i = clamp_pulse p"
  unfolding esc_set_all_seq by (rule esc.pulse_seq) auto

lemma motor_pulse_motors:
  "esc_inv e \<Longrightarrow> i < 4 \<Longrightarrow> motor_pulse (esc_set_motors_us a b c d e) i = clamp_pulse ([a, b, c, d] ! i)"
  unfolding esc_set_motors_seq
  by (rule esc.pulse_seq) (auto simp: less_Suc_eq numeral_eq_Suc)

text \<open>All motors at one pulse, on the wire as well as in the cache.\<close>

definition all_motors_at :: "u32 \<Rightarrow> esc \<Rightarrow> bool" where
  "all_motors_at p e \<longleftrightarrow> (\<forall>i < 4. motor_duty e i = Some (us_to_duty p))"

lemma motor_duty_pulse:
  "esc_inv e \<Longrightarrow> i < 4 \<Longrightarrow> motor_pulse e i \<noteq> 0 \<Longrightarrow> motor_duty e i = Some (us_to_duty (motor_pulse e i))"
  by (auto simp: esc_inv_def motor_pulse_def)

lemma all_motors_at_set_all: "esc_inv e \<Longrightarrow> all_motors_at p (esc_set_all_us p e)"
  unfolding all_motors_at_def using motor_duty_pulse [OF esc_inv_all, of e _ p]
  by (simp add: motor_pulse_all)

section \<open>Start-up\<close>

lemma esc_init_ok: "esc_init resp e = (e', Returns r) \<Longrightarrow> calls e' = calls e @ esc_init_ops \<and> last_us e' = last_us e"
  by (auto simp: esc_init_def split: prod.splits if_splits dest: esp_checked_True)

lemma esc_inv_init:
  assumes "esc_init resp esc_boot = (e', r)"
  shows "esc_inv e'"
proof -
  obtain h ok where h: "esp_checked resp [] esc_init_ops = (h, ok)" by fastforce
  then have e': "e' = esc_boot\<lparr>calls := h\<rparr>" using assms by (simp add: esc_init_def esc_boot_def)
  obtain n where "h = take n esc_init_ops" using esp_checked_prefix [OF h] by auto
  then have "list_all duty_ok h" using duty_ok_init_ops set_take_subset by (fastforce simp: list_all_iff)
  with e' show ?thesis by (simp add: esc_inv_def esc_boot_def nth_Cons' numeral_eq_Suc)
qed

section \<open>The cache is transparent\<close>

text \<open>The driver without the cache, which writes every request to the peripheral.\<close>

definition set_us_uncached :: "int \<Rightarrow> u32 \<Rightarrow> ledc_op list \<Rightarrow> ledc_op list" where
  "set_us_uncached motor p h =
     (if motor < 0 \<or> MOTOR_COUNT \<le> motor then h
      else h @ [Set_Duty (motor_channels ! nat motor) (us_to_duty p),
                Update_Duty (motor_channels ! nat motor)])"

lemma cached_step:
  assumes "esc_inv e" "latched (calls e) = latched h"
  shows "latched (calls (esc_set_us m p e)) = latched (set_us_uncached m p h)"
proof (cases "m < 0 \<or> 4 \<le> m")
  case True
  then show ?thesis using assms(2) by (auto simp: set_us_uncached_def)
next
  case False
  then obtain i where i: "m = int i" "i < 4" by (metis not_less zero_le_imp_eq_int of_nat_less_numeral_iff)
  have "last_us e ! i = clamp_pulse p \<Longrightarrow> latched h (motor_channels ! i) = Some (us_to_duty p)"
    using assms i by (auto simp: esc_inv_def motor_duty_def)
  then show ?thesis using i assms(2) by (auto simp: esc_set_us_motor set_us_uncached_def fun_upd_idem)
qed

lemma cached_run:
  assumes "esc_inv e" "latched (calls e) = latched h"
  shows "latched (calls (fold (\<lambda>(m, p). esc_set_us m p) rs e)) =
    latched (fold (\<lambda>(m, p). set_us_uncached m p) rs h)"
  using assms
proof (induction rs arbitrary: e h)
  case (Cons r rs)
  obtain m p where r: "r = (m, p)" by (cases r)
  show ?case using Cons.IH [OF esc_inv_set_us cached_step, OF Cons.prems(1) Cons.prems] r by simp
qed simp

section \<open>The peripheral\<close>

text \<open>Every duty in a history of accepted duties is an accepted duty.\<close>

definition duty_in_range :: "u32 \<Rightarrow> bool" where
  "duty_in_range d \<longleftrightarrow> 3276 \<le> unat d \<and> unat d \<le> 5242"

lemma pending_range: "list_all duty_ok h \<Longrightarrow> pending_rev h ch = Some d \<Longrightarrow> duty_in_range d"
  by (induction h ch rule: pending_rev.induct) (auto simp: duty_ok_def duty_in_range_def split: if_splits)

lemma latched_range: "list_all duty_ok h \<Longrightarrow> latched_rev h ch = Some d \<Longrightarrow> duty_in_range d"
  by (induction h ch rule: latched_rev.induct)
    (auto simp: duty_ok_def duty_in_range_def dest: pending_range split: if_splits)

lemma motor_duty_range: "esc_inv e \<Longrightarrow> motor_duty e i = Some d \<Longrightarrow> duty_in_range d"
  using latched_range [of "rev (calls e)"] by (simp add: esc_inv_def motor_duty_def latched_def)

section \<open>Properties\<close>

text \<open>
  The duty of a pulse is the exact quotient of its clamped width times 65535 by 20000,
  without wrap-around, lies between 3276 and 5242, and distinguishes any two widths between 1000 and
  1600.
\<close>

theorem duty_exact:
  "unat (us_to_duty p) = unat (clamp_pulse p) * 65535 div 20000 \<and>
   3276 \<le> unat (us_to_duty p) \<and> unat (us_to_duty p) \<le> 5242 \<and>
   (pulse_in_range p \<and> pulse_in_range q \<and> p < q \<longrightarrow> us_to_duty p < us_to_duty q)"
  using us_to_duty_unat us_to_duty_bounds us_to_duty_strict by blast

theorem duty_exact_witness: "us_to_duty 1000 < us_to_duty 1001"
proof -
  have "pulse_in_range 1000" "pulse_in_range 1001" "(1000 :: u32) < 1001" by code_simp+
  then show ?thesis using duty_exact [of 1000 1001] by blast
qed

text \<open>
  The cache of \<open>esc_set_us\<close> is invisible: from a consistent state any sequence
  of writes leaves every channel of the peripheral with the duty it would have if each write went to
  the peripheral.
\<close>

theorem cache_transparent:
  assumes "esc_inv e"
  shows "latched (calls (fold (\<lambda>(m, p). esc_set_us m p) rs e)) =
    latched (fold (\<lambda>(m, p). set_us_uncached m p) rs (calls e))"
  by (rule cached_run [OF assms refl])

theorem cache_transparent_witness:
  "latched (calls (fold (\<lambda>(m, p). esc_set_us m p) [(0, 1200), (0, 1200), (7, 1), (1, 9999)] esc_boot)) 1
    = Some 5242"
proof -
  have "latched (fold (\<lambda>(m, p). set_us_uncached m p) [(0, 1200), (0, 1200), (7, 1), (1, 9999)] (calls esc_boot)) 1
      = Some 5242" by code_simp
  then show ?thesis using cache_transparent [OF esc_inv_boot] by metis
qed

text \<open>
  A write of four pulses puts every motor at its own clamped pulse, in the cache
  and on its channel, and keeps the driver consistent; every duty any channel carries afterwards is
  in the range the ESCs accept.
\<close>

theorem motors_written:
  assumes "esc_inv e" "i < 4"
  shows "motor_pulse (esc_set_motors_us a b c d e) i = clamp_pulse ([a, b, c, d] ! i) \<and>
    motor_duty (esc_set_motors_us a b c d e) i = Some (us_to_duty ([a, b, c, d] ! i)) \<and>
    (\<forall>j d'. motor_duty (esc_set_motors_us a b c d e) j = Some d' \<longrightarrow> duty_in_range d')"
  using motor_pulse_motors [OF assms, of a b c d] motor_duty_range [OF esc_inv_motors [OF assms(1)]]
    motor_duty_pulse [OF esc_inv_motors [OF assms(1)] assms(2), of a b c d]
  by auto

theorem motors_written_witness:
  "motor_pulse (esc_set_motors_us 1100 1200 500 4000 esc_boot) 3 = 1600"
proof -
  have "clamp_pulse 4000 = 1600" "[1100, 1200, 500, 4000] ! 3 = (4000 :: u32)" by code_simp+
  then show ?thesis using motors_written [OF esc_inv_boot, of 3 1100 1200 500 4000] by simp
qed

text \<open>
  The calibration ends with all motors at the arming pulse.  Its first step,
  announced as 2000 microseconds, commands 1600.
\<close>

theorem calibration_pulses:
  assumes "esc_inv e"
  shows "all_motors_at 1000 (esc_calibrate e) \<and> esc_inv (esc_calibrate e) \<and>
    all_motors_at 1600 (esc_set_all_us (word_of_int ESC_PWM_MAX_US) e)"
  using assms by (simp add: esc_calibrate_def all_motors_at_set_all inv_intros)

theorem calibration_pulses_witness: "motor_duty (esc_calibrate esc_boot) 0 = Some (us_to_duty 1000)"
  using calibration_pulses [OF esc_inv_boot] by (simp add: all_motors_at_def)

end
