(* ===== verification/Flight_Controller.thy ===== *)
theory Flight_Controller
  imports Pid Motor_Mix Esc
begin

text \<open>
  components/flight_controller/flight_controller.c: the three PID loops, the mixer and the motor
  writes, with the statics of the module (\<open>fc\<close>), of the ESC driver and of the telemetry cache it
  feeds (telemetry.c lines 44 to 55).  The time \<open>esp_timer_get_time\<close> returns is an argument.  The
  update is an option: it is undefined when the mixer converts a NaN.

  The lemmas bound the time step for every pair of clock readings, wrap-around included, show that
  a controller with bounded gains and inputs never reaches the undefined case, and what the motors
  are commanded in each case.
\<close>

section \<open>State and operations\<close>

record fc =
  pid_pitch :: "fp pid_state"
  pid_roll :: "fp pid_state"
  pid_yaw :: "fp pid_state"
  last_update_us :: u32

record telem_cache =
  s_m_fl :: u32
  s_m_fr :: u32
  s_m_rl :: u32
  s_m_rr :: u32
  s_pitch_out :: fp
  s_roll_out :: fp
  s_yaw_out :: fp

record flight =
  fcs :: fc
  escs :: esc
  cache :: telem_cache

definition telem_cache_boot :: telem_cache where
  "telem_cache_boot = \<lparr>s_m_fl = 1000, s_m_fr = 1000, s_m_rl = 1000, s_m_rr = 1000,
     s_pitch_out = 0, s_roll_out = 0, s_yaw_out = 0\<rparr>"

definition telemetry_set_motor_values :: "u32 \<Rightarrow> u32 \<Rightarrow> u32 \<Rightarrow> u32 \<Rightarrow> telem_cache \<Rightarrow> telem_cache" where
  "telemetry_set_motor_values m_fl m_fr m_rl m_rr c =
     c\<lparr>s_m_fl := m_fl, s_m_fr := m_fr, s_m_rl := m_rl, s_m_rr := m_rr\<rparr>"

definition telemetry_set_pid_outputs :: "fp \<Rightarrow> fp \<Rightarrow> fp \<Rightarrow> telem_cache \<Rightarrow> telem_cache" where
  "telemetry_set_pid_outputs pitch roll yaw c =
     c\<lparr>s_pitch_out := pitch, s_roll_out := roll, s_yaw_out := yaw\<rparr>"

definition flight_controller_init :: "u32 \<Rightarrow> fc" where
  "flight_controller_init now =
     \<lparr>pid_pitch = pid_init PID_PITCH_KP PID_PITCH_KI PID_PITCH_KD,
      pid_roll = pid_init PID_ROLL_KP PID_ROLL_KI PID_ROLL_KD,
      pid_yaw = pid_init PID_YAW_KP PID_YAW_KI PID_YAW_KD,
      last_update_us = now\<rparr>"

definition flight_controller_reset_integrals :: "fc \<Rightarrow> fc" where
  "flight_controller_reset_integrals f =
     f\<lparr>pid_pitch := pid_reset (pid_pitch f), pid_roll := pid_reset (pid_roll f),
       pid_yaw := pid_reset (pid_yaw f)\<rparr>"

text \<open>The elapsed time in seconds, with the guard of lines 47 to 50.\<close>

definition loop_dt :: "u32 \<Rightarrow> u32 \<Rightarrow> fp" where
  "loop_dt now_us prev_us =
     (let dt = f32_of_int (uint (now_us - prev_us)) / flit 1000000
      in if dt \<le> flit 0 \<or> flit (1 / 10) < dt then flit (1 / 100) else dt)"

definition flight_controller_update ::
  "int \<Rightarrow> fp \<Rightarrow> fp \<Rightarrow> fp \<Rightarrow> fp \<Rightarrow> fp \<Rightarrow> fp \<Rightarrow> u32 \<Rightarrow> flight \<Rightarrow> flight option" where
  "flight_controller_update throttle_us pitch_sp roll_sp yaw_sp pitch roll yaw_rate now_us w =
     (let f = fcs w; dt = loop_dt now_us (last_update_us f); f0 = f\<lparr>last_update_us := now_us\<rparr> in
      if throttle_us \<le> ESC_PWM_SPIN_US then
        Some (w\<lparr>fcs := flight_controller_reset_integrals f0,
                escs := esc_set_all_us (word_of_int ESC_PWM_ARM_US) (escs w)\<rparr>)
      else
        let (pp, out_pitch) = pid_update (pid_pitch f0) pitch_sp pitch dt;
            (pr, out_roll) = pid_update (pid_roll f0) roll_sp roll dt;
            (py, out_yaw) = pid_update (pid_yaw f0) yaw_sp yaw_rate dt
        in do {
          m \<leftarrow> motor_mix throttle_us out_pitch out_roll out_yaw;
          Some (w\<lparr>fcs := f0\<lparr>pid_pitch := pp, pid_roll := pr, pid_yaw := py\<rparr>,
                  escs := esc_set_motors_us (fl m) (fr m) (rl m) (rr m) (escs w),
                  cache := telemetry_set_pid_outputs out_pitch out_roll out_yaw
                    (telemetry_set_motor_values (fl m) (fr m) (rl m) (rr m) (cache w))\<rparr>)
        })"

section \<open>The time step\<close>

lemma f32_of_int_bounded: "\<bar>i\<bar> \<le> 2 ^ k \<Longrightarrow> k \<le> 120 \<Longrightarrow> fbounded (f32_of_int i) (2 ^ k)"
proof -
  assume h: "\<bar>i\<bar> \<le> 2 ^ k" "k \<le> 120"
  then have "\<bar>of_int i :: rat\<bar> \<le> of_int (2 ^ k)" by (metis of_int_abs of_int_le_iff)
  then have "\<bar>of_int i :: rat\<bar> \<le> 2 ^ k" by simp
  note r = round_val_within [OF this h(2)]
  show ?thesis using fround32_moderate [OF r(1)] r(2) by (simp add: fbounded_def f32_of_int_def)
qed

lemma flit_value: "is_finite (flit x) \<Longrightarrow> fvalue (flit x) = round_val binary32 x"
  by (simp add: flit_def fvalue_fround)

lemma elapsed_value:
  "is_finite (f32_of_int (uint (d :: u32)) / flit 1000000) \<and>
   fvalue (f32_of_int (uint d) / flit 1000000) =
     round_val binary32 (round_val binary32 (of_int (uint d)) / 1000000)"
proof -
  have "\<bar>uint d\<bar> \<le> 2 ^ 32" using uint_lt2p [of d] by simp
  from f32_of_int_bounded [OF this] have b: "fbounded (f32_of_int (uint d)) (2 ^ 32)" by simp
  have v: "fvalue (f32_of_int (uint d)) = round_val binary32 (of_int (uint d))"
    using b fvalue_fround by (simp add: fbounded_def f32_of_int_def)
  have "\<bar>fvalue (f32_of_int (uint d)) / fvalue (flit 1000000)\<bar> \<le> 2 ^ 32"
    using b by (simp add: flit_million fbounded_def)
  then have "moderate (fvalue (f32_of_int (uint d)) / fvalue (flit 1000000))"
    by (simp add: moderate_def)
  then show ?thesis using fin_div [of "f32_of_int (uint d)" "flit 1000000"] b v
    by (simp add: fbounded_def flit_million)
qed

lemma loop_dt_bounds: "fbounded (loop_dt now prev) 1 \<and> 1 / 2 ^ 20 \<le> fvalue (loop_dt now prev)"
proof -
  let ?d = "now - prev"
  let ?q = "f32_of_int (uint ?d) / flit 1000000"
  have q: "is_finite ?q" "fvalue ?q = round_val binary32 (round_val binary32 (of_int (uint ?d)) / 1000000)"
    using elapsed_value [of ?d] by auto
  show ?thesis
  proof (cases "?q \<le> flit 0 \<or> flit (1 / 10) < ?q")
    case True
    then have "loop_dt now prev = flit (1 / 100)" by (simp add: loop_dt_def Let_def)
    then show ?thesis by (simp add: flit_hundredth fbounded_def)
  next
    case False
    then have e: "loop_dt now prev = ?q" by (simp add: loop_dt_def Let_def)
    have pos: "0 < fvalue ?q" and up: "fvalue ?q \<le> 1"
      using False q(1) by (auto simp: fin_le fin_less flit_0 flit_tenth)
    have "?d \<noteq> 0" using pos q(2) by auto
    then have "uint ?d \<noteq> 0" by (simp add: uint_0_iff)
    then have "1 \<le> uint ?d" using uint_ge_0 [of ?d] by linarith
    then have "(of_int 1 :: rat) \<le> of_int (uint ?d)" using of_int_le_iff by blast
    moreover have "fits binary32 (of_int 1)" by (rule fits32_int) simp
    ultimately have "of_int 1 \<le> round_val binary32 (of_int (uint ?d))"
      by (intro round_val_lower) simp_all
    then have "1 / 2 ^ 20 \<le> round_val binary32 (of_int (uint ?d)) / 1000000" by simp
    moreover have "fits binary32 (1 / 2 ^ 20)" by (rule fits32_dyadic [of _ 1 20]) auto
    ultimately have "1 / 2 ^ 20 \<le> fvalue ?q" unfolding q(2) by (intro round_val_lower) simp_all
    with e q(1) pos up show ?thesis by (simp add: fbounded_def)
  qed
qed

text \<open>Between readings at most a tenth of a second apart the step is the rounded elapsed time.\<close>

lemma loop_dt_exact:
  assumes "0 < uint (now - prev)" "uint (now - prev) \<le> 100000"
  shows "fvalue (loop_dt now prev) = round_val binary32 (of_int (uint (now - prev)) / 1000000)"
proof -
  let ?n = "uint (now - prev)"
  let ?q = "f32_of_int ?n / flit 1000000"
  have "fits binary32 (of_int ?n)" using assms by (intro fits32_int) simp
  then have q: "is_finite ?q" "fvalue ?q = round_val binary32 (of_int ?n / 1000000)"
    using elapsed_value [of "now - prev"] by (simp_all add: round_val_exact)
  have n: "(0 :: rat) < of_int ?n" "(of_int ?n :: rat) \<le> of_int 100000"
    using assms by (metis of_int_0_less_iff, metis of_int_le_iff)
  have r: "round_val binary32 (of_int ?n / 1000000) \<le> round_val binary32 (1 / 10)"
    using n by (intro round_val_mono) auto
  have t: "fvalue (flit (1 / 10)) = round_val binary32 (1 / 10)" "is_finite (flit (1 / 10))"
    using flit_value [of "1 / 10"] by (simp_all add: flit_tenth)
  have lo: "1 / 2 ^ 20 \<le> round_val binary32 (of_int ?n / 1000000)"
  proof (rule round_val_lower)
    have "(of_int 1 :: rat) \<le> of_int ?n" using assms(1) by (intro of_int_le_iff [THEN iffD2]) simp
    then show "1 / 2 ^ 20 \<le> of_int ?n / (1000000 :: rat)" by simp
    show "fits binary32 (1 / 2 ^ 20)" by (rule fits32_dyadic [of _ 1 20]) auto
  qed simp
  have "0 < fvalue ?q" unfolding q(2) by (rule less_le_trans [OF _ lo]) simp
  then have "\<not> ?q \<le> flit 0" using q(1) by (simp add: fin_le flit_0)
  moreover have "\<not> flit (1 / 10) < ?q" using q r t by (simp add: fin_less)
  ultimately show ?thesis using q(2) by (simp add: loop_dt_def Let_def)
qed

section \<open>The invariant of the controller\<close>

definition fc_sane :: "fc \<Rightarrow> bool" where
  "fc_sane f \<longleftrightarrow> pid_sane (pid_pitch f) \<and> pid_sane (pid_roll f) \<and> pid_sane (pid_yaw f)"

definition flight_inv :: "flight \<Rightarrow> bool" where
  "flight_inv w \<longleftrightarrow> fc_sane (fcs w) \<and> esc_inv (escs w)"

lemma configured_gains:
  "gains_bounded (pid_init PID_PITCH_KP PID_PITCH_KI PID_PITCH_KD)"
  "gains_bounded (pid_init PID_ROLL_KP PID_ROLL_KI PID_ROLL_KD)"
  "gains_bounded (pid_init PID_YAW_KP PID_YAW_KI PID_YAW_KD)"
  by (simp_all add: gains_bounded_def pid_init_def config_simps fbounded_def)

lemma fc_sane_init [inv_intros]: "fc_sane (flight_controller_init now)"
  using configured_gains [THEN pid_sane_init]
  by (simp add: fc_sane_def flight_controller_init_def)

lemma fc_sane_reset [inv_intros]: "fc_sane f \<Longrightarrow> fc_sane (flight_controller_reset_integrals f)"
  by (simp add: fc_sane_def flight_controller_reset_integrals_def pid_sane_reset)

lemma fc_sane_time [simp]: "fc_sane (f\<lparr>last_update_us := t\<rparr>) = fc_sane f"
  by (simp add: fc_sane_def)

lemma pid_range_bounded: "pid_range a = fbounded a 100"
  by (simp add: pid_range_def fbounded_def)

section \<open>The update\<close>

lemma update_low:
  "throttle \<le> 1200 \<Longrightarrow>
   flight_controller_update throttle psp rsp ysp p r y now w =
     Some (w\<lparr>fcs := flight_controller_reset_integrals ((fcs w)\<lparr>last_update_us := now\<rparr>),
             escs := esc_set_all_us 1000 (escs w)\<rparr>)"
  by (simp add: flight_controller_update_def Let_def)

text \<open>The flying branch with its three controllers, its mixer result and its motor writes.\<close>

lemma update_flying:
  assumes "1200 < throttle"
  defines "dt w now \<equiv> loop_dt now (last_update_us (fcs w))"
  shows "flight_controller_update throttle psp rsp ysp p r y now w = Some w' \<longleftrightarrow>
    (\<exists>m. motor_mix throttle (snd (pid_update (pid_pitch (fcs w)) psp p (dt w now)))
             (snd (pid_update (pid_roll (fcs w)) rsp r (dt w now)))
             (snd (pid_update (pid_yaw (fcs w)) ysp y (dt w now))) = Some m \<and>
       w' = w\<lparr>fcs := \<lparr>pid_pitch = fst (pid_update (pid_pitch (fcs w)) psp p (dt w now)),
                       pid_roll = fst (pid_update (pid_roll (fcs w)) rsp r (dt w now)),
                       pid_yaw = fst (pid_update (pid_yaw (fcs w)) ysp y (dt w now)),
                       last_update_us = now\<rparr>,
               escs := esc_set_motors_us (fl m) (fr m) (rl m) (rr m) (escs w),
               cache := telemetry_set_pid_outputs (snd (pid_update (pid_pitch (fcs w)) psp p (dt w now)))
                 (snd (pid_update (pid_roll (fcs w)) rsp r (dt w now)))
                 (snd (pid_update (pid_yaw (fcs w)) ysp y (dt w now)))
                 (telemetry_set_motor_values (fl m) (fr m) (rl m) (rr m) (cache w))\<rparr>)"
  using assms(1)
  by (auto simp: flight_controller_update_def Let_def dt_def case_prod_beta bind_eq_Some_conv)

lemma update_inv:
  assumes inv: "flight_inv w" and t: "\<bar>throttle\<bar> \<le> 65536"
    and sp: "fbounded psp (2 ^ 10)" "fbounded rsp (2 ^ 10)" "fbounded ysp (2 ^ 10)"
    and ms: "fbounded p (2 ^ 10)" "fbounded r (2 ^ 10)" "fbounded y (2 ^ 10)"
  shows "\<exists>w'. flight_controller_update throttle psp rsp ysp p r y now w = Some w' \<and> flight_inv w'"
proof (cases "throttle \<le> 1200")
  case True
  then show ?thesis using inv by (simp add: update_low flight_inv_def inv_intros)
next
  case False
  define dt where "dt = loop_dt now (last_update_us (fcs w))"
  have d: "fbounded dt 1" "1 / 2 ^ 20 \<le> fvalue dt" using loop_dt_bounds by (auto simp: dt_def)
  have sane: "pid_sane (pid_pitch (fcs w))" "pid_sane (pid_roll (fcs w))" "pid_sane (pid_yaw (fcs w))"
    using inv by (auto simp: flight_inv_def fc_sane_def)
  note P = pid_sane_update [OF sane(1) sp(1) ms(1) d] and R = pid_sane_update [OF sane(2) sp(2) ms(2) d]
    and Y = pid_sane_update [OF sane(3) sp(3) ms(3) d]
  obtain m where m: "motor_mix throttle (snd (pid_update (pid_pitch (fcs w)) psp p dt))
             (snd (pid_update (pid_roll (fcs w)) rsp r dt))
             (snd (pid_update (pid_yaw (fcs w)) ysp y dt)) = Some m"
    using motor_mix_fin [OF t] P R Y by (auto simp: pid_range_bounded)
  have "1200 < throttle" using False by simp
  note u = update_flying [OF this, of psp rsp ysp p r y now w, folded dt_def]
  show ?thesis unfolding u using m P R Y inv
    by (auto simp: flight_inv_def fc_sane_def intro: inv_intros)
qed

text \<open>Every successful update leaves pulses the ESCs accept, and low throttle leaves them idle.\<close>

lemma update_esc_inv:
  "flight_controller_update throttle psp rsp ysp p r y now w = Some w' \<Longrightarrow> esc_inv (escs w) \<Longrightarrow> esc_inv (escs w')"
  by (cases "throttle \<le> 1200") (auto simp: update_low update_flying not_le intro: inv_intros)

lemma update_pulses:
  assumes "1200 < throttle" "esc_inv (escs w)"
    "flight_controller_update throttle psp rsp ysp p r y now w = Some w'"
  shows "\<exists>m. motor_mix throttle (s_pitch_out (cache w')) (s_roll_out (cache w')) (s_yaw_out (cache w')) = Some m \<and>
    motor_pulse (escs w') 0 = fl m \<and> motor_pulse (escs w') 1 = fr m \<and>
    motor_pulse (escs w') 2 = rl m \<and> motor_pulse (escs w') 3 = rr m"
proof -
  note u = assms(3) [unfolded update_flying [OF assms(1)]]
  then obtain m where m: "motor_mix throttle (s_pitch_out (cache w')) (s_roll_out (cache w')) (s_yaw_out (cache w')) = Some m"
    "escs w' = esc_set_motors_us (fl m) (fr m) (rl m) (rr m) (escs w)"
    by (auto simp: telemetry_set_pid_outputs_def)
  have c: "clamp_pulse q = q" if "pulse_ok q" for q
    using that by (intro clamp_pulse_id) (simp add: pulse_ok_def pulse_in_range_def word_le_def)
  show ?thesis using m motor_pulse_motors [OF assms(2), of 0] motor_pulse_motors [OF assms(2), of 1]
      motor_pulse_motors [OF assms(2), of 2] motor_pulse_motors [OF assms(2), of 3]
      motor_mix_pulses [OF m(1)] by (simp add: c)
qed

section \<open>Properties\<close>

text \<open>
  For every pair of 32-bit clock readings, wrap-around included, the loop period is a
  finite number between \<open>2 ^ -20\<close> and 1 second; for readings between 1 microsecond and a tenth of
  a second apart it is the correctly rounded elapsed time.
\<close>

theorem loop_period:
  "is_finite (loop_dt now prev) \<and> 1 / 2 ^ 20 \<le> fvalue (loop_dt now prev) \<and> fvalue (loop_dt now prev) \<le> 1 \<and>
   (0 < uint (now - prev) \<and> uint (now - prev) \<le> 100000 \<longrightarrow>
      fvalue (loop_dt now prev) = round_val binary32 (of_int (uint (now - prev)) / 1000000))"
  using loop_dt_bounds [of now prev] loop_dt_exact [of now prev] by (auto simp: fbounded_def)

theorem loop_period_witness:
  "fvalue (loop_dt 4464 4294961760) = round_val binary32 (1 / 100)"
proof -
  have "uint (4464 - 4294961760 :: u32) = 10000" by code_simp
  then show ?thesis using loop_period [of 4464 4294961760] by simp
qed

text \<open>
  C11: From a consistent state with bounded gains, an update with bounded throttle,
  setpoints and measurements is defined (no NaN reaches the mixer, nothing overflows) and leaves a
  consistent state, at any clock reading.
\<close>

theorem update_total:
  assumes "flight_inv w" "\<bar>throttle\<bar> \<le> 65536"
    "fbounded psp (2 ^ 10)" "fbounded rsp (2 ^ 10)" "fbounded ysp (2 ^ 10)"
    "fbounded p (2 ^ 10)" "fbounded r (2 ^ 10)" "fbounded y (2 ^ 10)"
  shows "\<exists>w'. flight_controller_update throttle psp rsp ysp p r y now w = Some w' \<and> flight_inv w'"
  by (rule update_inv [OF assms])

theorem update_total_witness:
  "flight_controller_update 1250 0 0 0 0 0 0 20000
     \<lparr>fcs = flight_controller_init 0, escs = esc_boot, cache = telem_cache_boot\<rparr> \<noteq> None"
proof -
  have "flight_inv \<lparr>fcs = flight_controller_init 0, escs = esc_boot, cache = telem_cache_boot\<rparr>"
    by (simp add: flight_inv_def inv_intros)
  moreover have "fbounded 0 (2 ^ 10)" by (simp add: fbounded_def)
  ultimately show ?thesis
    using update_total [of "\<lparr>fcs = flight_controller_init 0, escs = esc_boot, cache = telem_cache_boot\<rparr>"
        1250 0 0 0 0 0 0 20000] by auto
qed

text \<open>
  An update with the throttle at or below the spin threshold puts all four motors
  at the arming pulse and clears the three controllers; above it, each motor is at the pulse the
  mixer computes from the reported controller outputs, on its own channel.
\<close>

theorem update_motors:
  assumes "esc_inv (escs w)" "flight_controller_update throttle psp rsp ysp p r y now w = Some w'"
  shows "(throttle \<le> 1200 \<longrightarrow> all_motors_at 1000 (escs w') \<and>
       (\<forall>q \<in> {pid_pitch (fcs w'), pid_roll (fcs w'), pid_yaw (fcs w')}. integral q = 0 \<and> prev_error q = 0)) \<and>
    (1200 < throttle \<longrightarrow> (\<exists>m. motor_mix throttle (s_pitch_out (cache w')) (s_roll_out (cache w'))
         (s_yaw_out (cache w')) = Some m \<and>
       motor_pulse (escs w') 0 = fl m \<and> motor_pulse (escs w') 1 = fr m \<and>
       motor_pulse (escs w') 2 = rl m \<and> motor_pulse (escs w') 3 = rr m))"
  using update_pulses [OF _ assms] assms all_motors_at_set_all [of "escs w" 1000]
  by (auto simp: update_low flight_controller_reset_integrals_def pid_reset_def)

theorem update_motors_witness:
  "map_option (\<lambda>w. motor_duty (escs w) 0) (flight_controller_update 1100 0 0 0 0 0 0 20000
     \<lparr>fcs = flight_controller_init 0, escs = esc_boot, cache = telem_cache_boot\<rparr>) = Some (Some (us_to_duty 1000))"
proof -
  let ?w = "\<lparr>fcs = flight_controller_init 0, escs = esc_boot, cache = telem_cache_boot\<rparr>"
  have "esc_inv (escs ?w)" by (simp add: esc_inv_boot)
  moreover obtain w' where "flight_controller_update 1100 0 0 0 0 0 0 20000 ?w = Some w'"
    by (simp add: update_low)
  ultimately show ?thesis using update_motors [of ?w 1100 0 0 0 0 0 0 20000 w']
    by (simp add: all_motors_at_def)
qed

end
