(* ===== verification/Gamepad.thy ===== *)
theory Gamepad
  imports Prelude
begin

text \<open>
  bluepad32_component/controller/uni_gamepad.c: the virtual gamepad every parser fills and the
  platform reads, and the button and axis remapping applied in between.  The masks are those of
  uni_gamepad.h.  A custom mapping shifts by values the user supplies: a shift of 32 or more, and
  the negation of the least integer, are undefined, so the remapping is an option.
\<close>

section \<open>Constants\<close>

definition DPAD_UP :: u8 where [simp]: "DPAD_UP = 1"
definition DPAD_DOWN :: u8 where [simp]: "DPAD_DOWN = 2"
definition DPAD_RIGHT :: u8 where [simp]: "DPAD_RIGHT = 4"
definition DPAD_LEFT :: u8 where [simp]: "DPAD_LEFT = 8"

definition BUTTON_A :: u16 where [simp]: "BUTTON_A = 1"
definition BUTTON_B :: u16 where [simp]: "BUTTON_B = 2"
definition BUTTON_X :: u16 where [simp]: "BUTTON_X = 4"
definition BUTTON_Y :: u16 where [simp]: "BUTTON_Y = 8"
definition BUTTON_SHOULDER_L :: u16 where [simp]: "BUTTON_SHOULDER_L = 16"
definition BUTTON_SHOULDER_R :: u16 where [simp]: "BUTTON_SHOULDER_R = 32"
definition BUTTON_TRIGGER_L :: u16 where [simp]: "BUTTON_TRIGGER_L = 64"
definition BUTTON_TRIGGER_R :: u16 where [simp]: "BUTTON_TRIGGER_R = 128"
definition BUTTON_THUMB_L :: u16 where [simp]: "BUTTON_THUMB_L = 256"
definition BUTTON_THUMB_R :: u16 where [simp]: "BUTTON_THUMB_R = 512"

definition MISC_BUTTON_SYSTEM :: u8 where [simp]: "MISC_BUTTON_SYSTEM = 1"
definition MISC_BUTTON_SELECT :: u8 where [simp]: "MISC_BUTTON_SELECT = 2"
definition MISC_BUTTON_START :: u8 where [simp]: "MISC_BUTTON_START = 4"
definition MISC_BUTTON_CAPTURE :: u8 where [simp]: "MISC_BUTTON_CAPTURE = 8"

definition AXIS_NORMALIZE_RANGE :: int where [simp]: "AXIS_NORMALIZE_RANGE = 1024"
definition AXIS_THRESHOLD :: int where [simp]: "AXIS_THRESHOLD = 128"

definition has_flag :: "('a :: len) word \<Rightarrow> 'a word \<Rightarrow> bool" where
  "has_flag w m \<longleftrightarrow> w AND m \<noteq> 0"

section \<open>The gamepad\<close>

record uni_gamepad =
  dpad :: u8
  axis_x :: int
  axis_y :: int
  axis_rx :: int
  axis_ry :: int
  brake :: int
  gp_throttle :: int
  buttons :: u16
  misc_buttons :: u8
  gyro :: "int list"
  accel :: "int list"

definition gamepad_zero :: uni_gamepad where
  "gamepad_zero = \<lparr>dpad = 0, axis_x = 0, axis_y = 0, axis_rx = 0, axis_ry = 0, brake = 0,
     gp_throttle = 0, buttons = 0, misc_buttons = 0, gyro = [0, 0, 0], accel = [0, 0, 0]\<rparr>"

record uni_mappings =
  map_dpad_up :: u8
  map_dpad_down :: u8
  map_dpad_left :: u8
  map_dpad_right :: u8
  map_button_a :: u8
  map_button_b :: u8
  map_button_x :: u8
  map_button_y :: u8
  map_shoulder_l :: u8
  map_shoulder_r :: u8
  map_trigger_l :: u8
  map_trigger_r :: u8
  map_thumb_l :: u8
  map_thumb_r :: u8
  map_select :: u8
  map_start :: u8
  map_system :: u8
  map_capture :: u8
  map_axis_x :: u8
  map_axis_y :: u8
  map_axis_rx :: u8
  map_axis_ry :: u8
  axis_x_inverted :: u8
  axis_y_inverted :: u8
  axis_rx_inverted :: u8
  axis_ry_inverted :: u8
  map_brake :: u8
  map_throttle :: u8

datatype mappings_type = Map_Xbox | Map_Switch | Map_Custom

definition GAMEPAD_DEFAULT_MAPPINGS :: uni_mappings where
  "GAMEPAD_DEFAULT_MAPPINGS = \<lparr>map_dpad_up = 0, map_dpad_down = 1, map_dpad_left = 3,
     map_dpad_right = 2, map_button_a = 0, map_button_b = 1, map_button_x = 2, map_button_y = 3,
     map_shoulder_l = 4, map_shoulder_r = 5, map_trigger_l = 6, map_trigger_r = 7,
     map_thumb_l = 8, map_thumb_r = 9, map_select = 1, map_start = 2, map_system = 0,
     map_capture = 3, map_axis_x = 0, map_axis_y = 1, map_axis_rx = 2, map_axis_ry = 3,
     axis_x_inverted = 0, axis_y_inverted = 0, axis_rx_inverted = 0, axis_ry_inverted = 0,
     map_brake = 0, map_throttle = 1\<rparr>"

section \<open>Remapping\<close>

text \<open>\<open>if (old & mask) new |= BIT(target);\<close> over a table of masks and targets.\<close>

fun remap_bits :: "(('a :: len) word \<times> u8) list \<Rightarrow> 'a word \<Rightarrow> 'a word \<Rightarrow> 'a word option" where
  "remap_bits [] old new = Some new"
| "remap_bits ((msk, target) # ts) old new =
     (if has_flag old msk then
        if unat target < 32 then remap_bits ts old (new OR ucast (push_bit (unat target) 1 :: u32))
        else None
      else remap_bits ts old new)"

definition get_mappings_value_for_axis :: "u8 \<Rightarrow> uni_gamepad \<Rightarrow> int" where
  "get_mappings_value_for_axis axis_type gp =
     (if axis_type = 0 then axis_x gp else if axis_type = 1 then axis_y gp
      else if axis_type = 2 then axis_rx gp else if axis_type = 3 then axis_ry gp else - 1)"

definition get_mappings_value_for_pedal :: "u8 \<Rightarrow> uni_gamepad \<Rightarrow> int" where
  "get_mappings_value_for_pedal pedal_type gp =
     (if pedal_type = 1 then gp_throttle gp else if pedal_type = 0 then brake gp else - 1)"

definition remap_axis :: "u8 \<Rightarrow> u8 \<Rightarrow> uni_gamepad \<Rightarrow> int option" where
  "remap_axis axis_type inverted gp =
     (let v = get_mappings_value_for_axis axis_type gp in if inverted \<noteq> 0 then i32 (- v) else Some v)"

definition button_table :: "uni_mappings \<Rightarrow> (u16 \<times> u8) list" where
  "button_table m =
     [(BUTTON_A, map_button_a m), (BUTTON_B, map_button_b m), (BUTTON_X, map_button_x m),
      (BUTTON_Y, map_button_y m), (BUTTON_SHOULDER_L, map_shoulder_l m),
      (BUTTON_SHOULDER_R, map_shoulder_r m), (BUTTON_TRIGGER_L, map_trigger_l m),
      (BUTTON_TRIGGER_R, map_trigger_r m), (BUTTON_THUMB_L, map_thumb_l m),
      (BUTTON_THUMB_R, map_thumb_r m)]"

definition dpad_table :: "uni_mappings \<Rightarrow> (u8 \<times> u8) list" where
  "dpad_table m = [(DPAD_UP, map_dpad_up m), (DPAD_DOWN, map_dpad_down m),
     (DPAD_LEFT, map_dpad_left m), (DPAD_RIGHT, map_dpad_right m)]"

definition misc_table :: "uni_mappings \<Rightarrow> (u8 \<times> u8) list" where
  "misc_table m = [(MISC_BUTTON_SYSTEM, map_system m), (MISC_BUTTON_SELECT, map_select m),
     (MISC_BUTTON_START, map_start m), (MISC_BUTTON_CAPTURE, map_capture m)]"

definition remap_custom :: "uni_mappings \<Rightarrow> uni_gamepad \<Rightarrow> uni_gamepad option" where
  "remap_custom m gp = do {
     b \<leftarrow> remap_bits (button_table m) (buttons gp) 0;
     d \<leftarrow> remap_bits (dpad_table m) (dpad gp) 0;
     c \<leftarrow> remap_bits (misc_table m) (misc_buttons gp) 0;
     x \<leftarrow> remap_axis (map_axis_x m) (axis_x_inverted m) gp;
     y \<leftarrow> remap_axis (map_axis_y m) (axis_y_inverted m) gp;
     rx \<leftarrow> remap_axis (map_axis_rx m) (axis_rx_inverted m) gp;
     ry \<leftarrow> remap_axis (map_axis_ry m) (axis_ry_inverted m) gp;
     Some (gamepad_zero\<lparr>buttons := b, dpad := d, misc_buttons := c,
       axis_x := x, axis_y := y, axis_rx := rx, axis_ry := ry,
       brake := get_mappings_value_for_pedal (map_brake m) gp,
       gp_throttle := get_mappings_value_for_pedal (map_throttle m) gp\<rparr>)
   }"

definition set_if :: "bool \<Rightarrow> ('a :: len) word \<Rightarrow> 'a word \<Rightarrow> 'a word" where
  "set_if c m w = (if c then w OR m else w)"

definition remap_switch :: "uni_gamepad \<Rightarrow> uni_gamepad" where
  "remap_switch gp =
     (let old = buttons gp; b0 = old AND NOT (BUTTON_A OR BUTTON_B OR BUTTON_X OR BUTTON_Y)
      in gp\<lparr>buttons := set_if (has_flag old BUTTON_Y) BUTTON_X
              (set_if (has_flag old BUTTON_X) BUTTON_Y
              (set_if (has_flag old BUTTON_B) BUTTON_A
              (set_if (has_flag old BUTTON_A) BUTTON_B b0)))\<rparr>)"

definition uni_gamepad_remap :: "mappings_type \<Rightarrow> uni_mappings \<Rightarrow> uni_gamepad \<Rightarrow> uni_gamepad option" where
  "uni_gamepad_remap mt m gp =
     (case mt of Map_Xbox \<Rightarrow> Some gp | Map_Switch \<Rightarrow> Some (remap_switch gp)
      | Map_Custom \<Rightarrow> remap_custom m gp)"

section \<open>Module state and model names\<close>

record gamepad_cfg =
  cfg_map :: uni_mappings
  cfg_type :: mappings_type

definition uni_gamepad_set_mappings :: "uni_mappings \<Rightarrow> gamepad_cfg \<Rightarrow> gamepad_cfg" where
  "uni_gamepad_set_mappings m c = c\<lparr>cfg_type := Map_Custom, cfg_map := m\<rparr>"

definition uni_gamepad_set_mappings_type :: "mappings_type \<Rightarrow> gamepad_cfg \<Rightarrow> gamepad_cfg" where
  "uni_gamepad_set_mappings_type t c = c\<lparr>cfg_type := t\<rparr>"

definition remap_with :: "gamepad_cfg \<Rightarrow> uni_gamepad \<Rightarrow> uni_gamepad option" where
  "remap_with c = uni_gamepad_remap (cfg_type c) (cfg_map c)"

definition controller_names :: "(int \<times> string) list" where
  "controller_names =
     [
      (1, ''Unknown Steam''),
      (2, ''Steam''),
      (3, ''Steam V2''),
      (31, ''XBox 360''),
      (32, ''XBox One''),
      (33, ''DualShock 3''),
      (34, ''DualShock 4''),
      (35, ''Wii''),
      (36, ''Apple''),
      (37, ''Android''),
      (38, ''Switch Pro''),
      (39, ''Switch JoyCon Left''),
      (40, ''Switch JoyCon Right''),
      (41, ''Switch JoyCon Pair''),
      (42, ''Switch Input Only''),
      (43, ''Mobile Touch''),
      (44, ''XInput Switch''),
      (45, ''DualSense''),
      (50, ''iCade''),
      (51, ''Smart TV Remote''),
      (52, ''8BitDo''),
      (53, ''Generic''),
      (54, ''Nimbus''),
      (55, ''OUYA''),
      (56, ''PS Move''),
      (57, ''Atari Joystick''),
      (400, ''Keyboard''),
      (800, ''Mouse'')]"

definition uni_gamepad_get_model_name :: "int \<Rightarrow> string" where
  "uni_gamepad_get_model_name t =
     (case map_of controller_names t of Some n \<Rightarrow> n | None \<Rightarrow> ''Unknown'')"

section \<open>Facts\<close>

lemma has_flag_bit: "has_flag w (push_bit n 1) \<longleftrightarrow> bit w n"
  by (simp add: has_flag_def and_exp_eq_0_iff_not_bit push_bit_eq_mult)

lemma has_flag_masks [simp]:
  "has_flag w (1 :: u16) = bit w 0" "has_flag w (2 :: u16) = bit w 1"
  "has_flag w (4 :: u16) = bit w 2" "has_flag w (8 :: u16) = bit w 3"
  using has_flag_bit [of w 0] has_flag_bit [of w 1] has_flag_bit [of w 2] has_flag_bit [of w 3]
  by simp_all

lemma bit_set_if [simp]: "bit (set_if c m w) n = (bit w n \<or> c \<and> bit m n)"
  by (auto simp: set_if_def bit_or_iff)

lemma exp_bit: "bit (2 ^ k :: u16) n = (n = k \<and> k < 16)"
  by (auto simp: bit_exp_iff possible_bit_def)

lemma mask_bits:
  "bit (1 :: u16) n = (n = 0)" "bit (2 :: u16) n = (n = 1)" "bit (4 :: u16) n = (n = 2)"
  "bit (8 :: u16) n = (n = 3)"
  using exp_bit [of 0 n] exp_bit [of 1 n] exp_bit [of 2 n] exp_bit [of 3 n] by simp_all

lemma mask_bits_15: "bit (15 :: u16) n = (n < 4)"
proof -
  have "(15 :: u16) = mask 4" by (simp add: mask_eq_exp_minus_1)
  then show ?thesis by (simp only: bit_mask_iff) (auto simp: possible_bit_def)
qed

lemma switch_buttons:
  "buttons (remap_switch gp) =
    (let old = buttons gp in
     set_if (bit old 3) 4 (set_if (bit old 2) 8 (set_if (bit old 1) 1 (set_if (bit old 0) 2 (old AND NOT 15)))))"
  by (simp add: remap_switch_def Let_def)

lemma switch_bits:
  "bit (buttons (remap_switch gp)) n = bit (buttons gp)
     (if n = 0 then 1 else if n = 1 then 0 else if n = 2 then 3 else if n = 3 then 2 else n)"
proof -
  have "bit (NOT (15 :: u16)) n = (n < 16 \<and> \<not> n < 4)" by (simp only: bit_not_iff mask_bits_15) (auto simp: possible_bit_def)
  moreover have "\<not> bit (buttons gp) n" if "\<not> n < 16" using that bit_imp_le_length [of "buttons gp" n] by auto
  ultimately show ?thesis
    unfolding switch_buttons Let_def bit_set_if bit_and_iff mask_bits by (auto split: if_splits)
qed

lemma switch_involution: "remap_switch (remap_switch gp) = gp"
proof -
  have "bit (buttons (remap_switch (remap_switch gp))) n = bit (buttons gp) n" for n
    unfolding switch_bits by (simp split: if_splits)
  then have "buttons (remap_switch (remap_switch gp)) = buttons gp" by (intro bit_eqI)
  then show ?thesis by (simp add: remap_switch_def Let_def)
qed

text \<open>
  A custom mapping sets a bit exactly when a button mapped to it is pressed, and is undefined
  exactly when a pressed button is mapped to a shift of 32 or more.
\<close>

lemma remap_bits_spec:
  "remap_bits ts old new = Some r \<Longrightarrow>
   bit r n \<longleftrightarrow> bit new n \<or> (\<exists>(m, t) \<in> set ts. has_flag old m \<and> unat t = n \<and> n < LENGTH('a))"
  for old new r :: "('a :: len) word"
proof (induction ts arbitrary: new)
  case (Cons mt ts)
  obtain m t where mt: "mt = (m, t)" by (cases mt)
  show ?case
  proof (cases "has_flag old m")
    case True
    let ?b = "ucast (push_bit (unat t) 1 :: u32) :: 'a word"
    have t: "unat t < 32" "remap_bits ts old (new OR ?b) = Some r"
      using Cons.prems mt True by (auto split: if_splits)
    have "bit ?b n \<longleftrightarrow> unat t = n \<and> n < LENGTH('a)"
      using t(1) by (auto simp: bit_ucast_iff bit_exp_iff push_bit_eq_mult possible_bit_def)
    then show ?thesis using Cons.IH [OF t(2)] True mt by (auto simp: bit_or_iff)
  next
    case False
    then show ?thesis using Cons.IH [of new] Cons.prems mt by simp
  qed
qed simp

lemma remap_bits_defined:
  "(\<exists>r. remap_bits ts old new = Some r) \<longleftrightarrow> (\<forall>(m, t) \<in> set ts. has_flag old m \<longrightarrow> unat t < 32)"
  by (induction ts old new rule: remap_bits.induct) auto

text \<open>The default table as a custom mapping keeps the ten buttons and the four directions.\<close>

lemma default_buttons: "remap_bits (button_table GAMEPAD_DEFAULT_MAPPINGS) b 0 = Some (b AND 0x3FF)"
proof -
  let ?ts = "button_table GAMEPAD_DEFAULT_MAPPINGS"
  have "?ts = map (\<lambda>k. (2 ^ k, of_nat k)) [0..<10]"
    by (simp add: button_table_def GAMEPAD_DEFAULT_MAPPINGS_def upt_rec)
  then have ts: "set ?ts = (\<lambda>k. (2 ^ k, of_nat k)) ` {0..<10}" by simp
  have u: "unat (of_nat k :: u8) = k" if "k < 10" for k using that by (simp add: unat_of_nat)
  obtain r where r: "remap_bits ?ts b 0 = Some r"
    using remap_bits_defined [of ?ts b 0] unfolding ts by (auto simp: u)
  have m: "(0x3FF :: u16) = mask 10" by (simp add: mask_eq_exp_minus_1)
  have f: "has_flag b (2 ^ k) = bit b k" if "k < 10" for k
    using has_flag_bit [of b k] that by (simp add: push_bit_eq_mult)
  have "bit r n = bit (b AND 0x3FF) n" for n
    unfolding remap_bits_spec [OF r] ts m
    by (auto simp: bit_and_iff bit_mask_iff possible_bit_def f u)
  then have "r = b AND 0x3FF" by (intro bit_eqI)
  with r show ?thesis by simp
qed

section \<open>Properties\<close>

text \<open>
  The Switch layout exchanges A with B and X with Y, leaves every other bit of the
  buttons alone, and is its own inverse on the whole gamepad.
\<close>

theorem switch_layout:
  "uni_gamepad_remap Map_Switch m gp = Some (remap_switch gp) \<and>
   remap_switch (remap_switch gp) = gp \<and>
   (\<forall>n. bit (buttons (remap_switch gp)) n = bit (buttons gp)
      (if n = 0 then 1 else if n = 1 then 0 else if n = 2 then 3 else if n = 3 then 2 else n))"
  using switch_involution switch_bits by (simp add: uni_gamepad_remap_def)

text \<open>
  A custom mapping is defined on the buttons exactly when every pressed button is
  mapped below 32; a bit is then set exactly when some pressed button is mapped to it.  The default
  table, used as a custom mapping, keeps the ten buttons and drops any other bit.
\<close>

theorem custom_layout:
  fixes b r :: u16
  shows "(remap_bits (button_table m) b 0 \<noteq> None \<longleftrightarrow>
      (\<forall>(msk, t) \<in> set (button_table m). has_flag b msk \<longrightarrow> unat t < 32)) \<and>
    (remap_bits (button_table m) b 0 = Some r \<longrightarrow>
      (\<forall>n. bit r n \<longleftrightarrow> (\<exists>(msk, t) \<in> set (button_table m). has_flag b msk \<and> unat t = n \<and> n < 16))) \<and>
    remap_bits (button_table GAMEPAD_DEFAULT_MAPPINGS) b 0 = Some (b AND 0x3FF)"
proof (intro conjI impI allI)
  show "remap_bits (button_table m) b 0 \<noteq> None \<longleftrightarrow>
      (\<forall>(msk, t) \<in> set (button_table m). has_flag b msk \<longrightarrow> unat t < 32)"
    using remap_bits_defined [of "button_table m" b 0] by auto
next
  fix n
  assume "remap_bits (button_table m) b 0 = Some r"
  from remap_bits_spec [OF this, of n]
  show "bit r n \<longleftrightarrow> (\<exists>(msk, t) \<in> set (button_table m). has_flag b msk \<and> unat t = n \<and> n < 16)" by simp
qed (rule default_buttons)

theorem custom_layout_witness:
  "\<exists>r :: u16. remap_bits (button_table (GAMEPAD_DEFAULT_MAPPINGS\<lparr>map_button_a := 4\<rparr>)) 1 0 = Some r \<and> bit r 4"
proof -
  let ?m = "GAMEPAD_DEFAULT_MAPPINGS\<lparr>map_button_a := 4\<rparr>"
  have r: "remap_bits (button_table ?m) 1 0 = Some (16 :: u16)" by code_simp
  have t: "(1, 4) \<in> set (button_table ?m)" by (simp add: button_table_def)
  have f: "has_flag (1 :: u16) 1" "unat (4 :: u8) = 4" by code_simp+
  have "\<forall>n. bit (16 :: u16) n \<longleftrightarrow> (\<exists>(msk, t) \<in> set (button_table ?m). has_flag 1 msk \<and> unat t = n \<and> n < 16)"
    using custom_layout [of ?m 1 16] r by blast
  then have "bit (16 :: u16) 4" using t f by fastforce
  with r show ?thesis by blast
qed

end
