(* ===== verification/Controller.thy ===== *)
theory Controller
  imports Config Gamepad
begin

text \<open>
  components/controller/controller.c: the gamepad callbacks, which turn a frame of the virtual
  gamepad into throttle and setpoints and write the globals of main.c under \<open>setpoint_mutex\<close>.
  Whether \<open>xSemaphoreTake\<close> succeeds is an argument of each callback.  \<open>ctrl\<close> holds the statics of
  the module, \<open>setpoints\<close> the globals.  \<open>None\<close> is the undefined negation of the least integer, or
  an undefined conversion.
\<close>

section \<open>State\<close>

record ctrl =
  s_connected :: int
  s_throttle_us :: int

record setpoints =
  g_throttle :: int
  g_motors_killed :: int
  g_pitch_sp :: fp
  g_roll_sp :: fp
  g_yaw_sp :: fp

definition ctrl_boot :: ctrl where
  "ctrl_boot = \<lparr>s_connected = 0, s_throttle_us = ESC_PWM_SPIN_US\<rparr>"

definition setpoints_boot :: setpoints where
  "setpoints_boot = \<lparr>g_throttle = ESC_PWM_ARM_US, g_motors_killed = 0,
     g_pitch_sp = 0, g_roll_sp = 0, g_yaw_sp = 0\<rparr>"

section \<open>Axis normalisation\<close>

definition apply_deadband :: "int \<Rightarrow> fp" where
  "apply_deadband raw = (if - STICK_DEADBAND < raw \<and> raw < STICK_DEADBAND then 0 else f32_of_int raw)"

text \<open>The rate of \<open>accumulate_throttle\<close>, truncated to an int.\<close>

definition throttle_rate :: "fp \<Rightarrow> int option" where
  "throttle_rate val =
     (let fraction = fabs val / f32_of_int STICK_MAX;
          rate = f32_of_int ACCEL_MIN_RATE + fraction * f32_of_int (ACCEL_MAX_RATE - ACCEL_MIN_RATE)
      in Option.bind (trunc_int rate) i32)"

definition clamp_throttle :: "int \<Rightarrow> int" where
  "clamp_throttle t =
     (let t1 = (if t < ESC_PWM_MIN_US then ESC_PWM_MIN_US else t)
      in if ESC_PWM_FLIGHT_MAX_US < t1 then ESC_PWM_FLIGHT_MAX_US else t1)"

text \<open>Returns the new value of \<open>s_throttle_us\<close>, which is also the result of the C function.\<close>

definition accumulate_throttle :: "int \<Rightarrow> int \<Rightarrow> int option" where
  "accumulate_throttle raw s = do {
     neg \<leftarrow> i32 (- raw);
     let val = apply_deadband neg;
     if feq val 0 then Some s
     else do {
       rate \<leftarrow> throttle_rate val;
       s' \<leftarrow> i32 (if 0 < val then s + rate else s - rate);
       Some (clamp_throttle s')
     }
   }"

definition normalize_angle :: "int \<Rightarrow> fp" where
  "normalize_angle raw = (apply_deadband raw / f32_of_int STICK_MAX) * ANGLE_SETPOINT_MAX"

definition normalize_yaw :: "int \<Rightarrow> fp" where
  "normalize_yaw raw = (apply_deadband raw / f32_of_int STICK_MAX) * YAW_RATE_MAX"

section \<open>Callbacks\<close>

definition on_connected :: "ctrl \<Rightarrow> ctrl" where
  "on_connected c = c\<lparr>s_connected := 1\<rparr>"

definition safe_setpoints :: "setpoints \<Rightarrow> setpoints" where
  "safe_setpoints g = g\<lparr>g_throttle := ESC_PWM_ARM_US, g_pitch_sp := 0, g_roll_sp := 0,
     g_yaw_sp := 0, g_motors_killed := 1\<rparr>"

definition on_disconnected :: "bool \<Rightarrow> ctrl \<times> setpoints \<Rightarrow> ctrl \<times> setpoints" where
  "on_disconnected took s = (case s of (c, g) \<Rightarrow>
     (c\<lparr>s_connected := 0, s_throttle_us := ESC_PWM_ARM_US\<rparr>, if took then safe_setpoints g else g))"

definition on_gamepad_data :: "bool \<Rightarrow> uni_gamepad \<Rightarrow> ctrl \<times> setpoints \<Rightarrow> (ctrl \<times> setpoints) option" where
  "on_gamepad_data took gp s = (case s of (c, g) \<Rightarrow>
     if has_flag (buttons gp) BUTTON_X then
       Some (c\<lparr>s_throttle_us := ESC_PWM_ARM_US\<rparr>, if took then safe_setpoints g else g)
     else do {
       thr \<leftarrow> accumulate_throttle (axis_y gp) (s_throttle_us c);
       neg_ry \<leftarrow> i32 (- axis_ry gp);
       let pit = normalize_angle neg_ry;
       let rol = normalize_angle (axis_rx gp);
       let yaw = normalize_yaw (axis_x gp);
       Some (c\<lparr>s_throttle_us := thr\<rparr>,
             if took then g\<lparr>g_throttle := thr, g_pitch_sp := pit, g_roll_sp := rol,
                            g_yaw_sp := yaw, g_motors_killed := 0\<rparr> else g)
     })"

definition controller_is_connected :: "ctrl \<Rightarrow> int" where
  "controller_is_connected c = s_connected c"

text \<open>
  The platform vtable: which callback serves which event.  The slots left \<open>NULL\<close> do nothing.
\<close>

datatype uni_event =
    Ev_Connected
  | Ev_Disconnected
  | Ev_Ready
  | Ev_Oob
  | Ev_Data uni_gamepad

definition s_platform :: "bool \<Rightarrow> uni_event \<Rightarrow> ctrl \<times> setpoints \<Rightarrow> (ctrl \<times> setpoints) option" where
  "s_platform took ev s = (case ev of
     Ev_Connected \<Rightarrow> Some (on_connected (fst s), snd s)
   | Ev_Disconnected \<Rightarrow> Some (on_disconnected took s)
   | Ev_Ready \<Rightarrow> Some s
   | Ev_Oob \<Rightarrow> Some s
   | Ev_Data gp \<Rightarrow> on_gamepad_data took gp s)"

section \<open>Exact values\<close>

text \<open>For axis values of the documented size every operation is exact.\<close>

lemma exact_div_512:
  assumes "\<bar>m\<bar> \<le> 2 ^ 12"
  shows "is_finite (f32_of_int m / f32_of_int 512) \<and> fvalue (f32_of_int m / f32_of_int 512) = of_int m / 512"
proof -
  have m: "is_finite (f32_of_int m)" "fvalue (f32_of_int m) = of_int m"
    using f32_of_int_exact [of m] assms by auto
  have s: "is_finite (f32_of_int 512)" "fvalue (f32_of_int 512) = 512"
    using f32_of_int_exact [of 512] by auto
  have "fits binary32 (of_int m / 2 ^ 9)" using assms by (intro fits32_dyadic [of _ m 9]) auto
  then have e: "round_val binary32 (of_int m / 512) = of_int m / 512" by (simp add: round_val_exact)
  have "\<bar>of_int m :: rat\<bar> \<le> of_int (2 ^ 12)" using assms by (metis of_int_abs of_int_le_iff)
  then have "moderate (of_int m / 512)" by (simp add: moderate_def)
  then show ?thesis using fin_div [OF m(1) s(1)] m(2) s(2) e by simp
qed

lemma exact_scale:
  assumes "\<bar>m\<bar> \<le> 2 ^ 12" "is_finite c" "fvalue c = of_int k" "\<bar>k\<bar> \<le> 2 ^ 8"
  shows "is_finite (f32_of_int m / f32_of_int 512 * c) \<and>
    fvalue (f32_of_int m / f32_of_int 512 * c) = of_int (m * k) / 512"
proof -
  note d = exact_div_512 [OF assms(1)]
  have b: "\<bar>m * k\<bar> \<le> 2 ^ 12 * 2 ^ 8" unfolding abs_mult using assms by (intro mult_mono) auto
  then have "fits binary32 (of_int (m * k) / 2 ^ 9)" by (intro fits32_dyadic [of _ "m * k" 9]) auto
  then have e: "round_val binary32 (of_int (m * k) / 512) = of_int (m * k) / 512"
    by (simp add: round_val_exact)
  have "\<bar>of_int (m * k) :: rat\<bar> \<le> of_int (2 ^ 12 * 2 ^ 8)" using b by (metis of_int_abs of_int_le_iff)
  then have "moderate (of_int (m * k) / 512)" by (simp add: moderate_def)
  then show ?thesis using fin_mult [of "f32_of_int m / f32_of_int 512" c] d assms(2,3) e by simp
qed

lemma fabs_fin: "fp_wf a \<Longrightarrow> is_finite a \<Longrightarrow> is_finite (fabs a) \<and> fvalue (fabs a) = \<bar>fvalue a\<bar>"
  by (cases a) auto

lemma throttle_rate_value:
  assumes "\<bar>m\<bar> \<le> 2 ^ 12"
  shows "throttle_rate (f32_of_int m) = Some (1 + \<bar>m\<bar> div 512)"
proof -
  let ?v = "fabs (f32_of_int m)" and ?n = "\<bar>m\<bar>"
  have n: "0 \<le> ?n" "?n \<le> 2 ^ 12" using assms by auto
  have q: "(of_int ?n :: rat) \<le> of_int (2 ^ 12)" "(0 :: rat) \<le> of_int ?n"
    using n by (simp_all only: of_int_le_iff of_int_0_le_iff)
  have v: "is_finite ?v" "fvalue ?v = of_int ?n"
    using fabs_fin [of "f32_of_int m"] f32_of_int_exact [of m] assms by auto
  have s: "is_finite (f32_of_int 512)" "fvalue (f32_of_int 512) = 512"
    "is_finite (f32_of_int 1)" "fvalue (f32_of_int 1) = 1"
    using f32_of_int_exact [of 512] f32_of_int_exact [of 1] by auto
  have f9: "fits binary32 (of_int ?n / 512)" using n fits32_dyadic [of "of_int ?n / 512" ?n 9] by simp
  have f10: "fits binary32 (of_int (512 + ?n) / 512)"
    using n fits32_dyadic [of "of_int (512 + ?n) / 512" "512 + ?n" 9] by simp
  have mo: "moderate (of_int ?n / 512)" "moderate (1 + of_int ?n / 512)"
    using q by (simp_all add: moderate_def)
  let ?f = "?v / f32_of_int 512"
  have f: "is_finite ?f" "fvalue ?f = of_int ?n / 512"
    using fin_div [OF v(1) s(1)] v(2) s(2) mo(1) round_val_exact [OF _ f9] by simp_all
  have g: "is_finite (?f * f32_of_int 1)" "fvalue (?f * f32_of_int 1) = of_int ?n / 512"
    using fin_mult [OF f(1) s(3)] f(2) s(4) mo(1) round_val_exact [OF _ f9] by simp_all
  let ?r = "f32_of_int 1 + ?f * f32_of_int 1"
  have eq: "1 + of_int ?n / 512 = (of_int (512 + ?n) / 512 :: rat)" by (simp add: field_simps)
  have r: "is_finite ?r" "fvalue ?r = of_int (512 + ?n) / 512"
    using fin_add [OF s(3) g(1)] g(2) s(4) mo(2) round_val_exact [OF _ f10] by (simp_all only: eq fprec32)
  have fl: "\<lfloor>fvalue ?r\<rfloor> = 1 + ?n div 512"
    using floor_divide_of_int_eq [of "512 + ?n" 512, where ?'a = rat] by (simp add: r(2))
  have "0 \<le> fvalue ?r" using q by (simp add: r(2))
  then have "trunc_int ?r = Some (1 + ?n div 512)" using r(1) fl by (cases ?r) (auto simp: Let_def)
  moreover have "int32_ok (1 + ?n div 512)"
    using n zdiv_mono1 [of ?n "2 ^ 12" 512] pos_imp_zdiv_nonneg_iff [of 512 ?n] by (simp add: int32_ok_def)
  ultimately show ?thesis by (simp add: throttle_rate_def Let_def i32_def)
qed

section \<open>What a frame does\<close>

text \<open>
  A stick deflected past the deadband moves the throttle one microsecond per frame, and two only
  at a raw value of at least 512 in magnitude.
\<close>

definition stick_step :: "int \<Rightarrow> int" where
  "stick_step raw =
     (if \<bar>raw\<bar> < 20 then 0 else if raw < 0 then 1 + \<bar>raw\<bar> div 512 else - (1 + \<bar>raw\<bar> div 512))"

definition stick_ok :: "int \<Rightarrow> bool" where
  "stick_ok raw \<longleftrightarrow> \<bar>raw\<bar> \<le> 512"

definition gamepad_ok :: "uni_gamepad \<Rightarrow> bool" where
  "gamepad_ok gp \<longleftrightarrow> stick_ok (axis_x gp) \<and> stick_ok (axis_y gp) \<and> stick_ok (axis_rx gp) \<and> stick_ok (axis_ry gp)"

lemma fp_zero_int: "feq (f32_of_int m) 0 \<longleftrightarrow> m = 0" "0 < f32_of_int m \<longleftrightarrow> 0 < m" if "\<bar>m\<bar> < 2 ^ 24"
proof -
  have f: "is_finite (f32_of_int m)" "fvalue (f32_of_int m) = of_int m"
    using f32_of_int_exact [OF that] by auto
  show "feq (f32_of_int m) 0 \<longleftrightarrow> m = 0"
    using f by (cases "f32_of_int m") (auto simp: zero_fp_def)
  show "0 < f32_of_int m \<longleftrightarrow> 0 < m" using f by (simp add: fin_less)
qed

lemma feq_zero_zero: "feq 0 0"
  by (simp add: zero_fp_def)

lemma accumulate_value:
  assumes "stick_ok raw" "1000 \<le> s" "s \<le> 1300"
  shows "accumulate_throttle raw s = Some (clamp_throttle (s + stick_step raw))"
proof (cases "\<bar>raw\<bar> < 20")
  case True
  then have "apply_deadband (- raw) = 0" by (auto simp: apply_deadband_def)
  then show ?thesis
    using True assms feq_zero_zero
    by (auto simp: accumulate_throttle_def i32_def int32_ok_def stick_step_def clamp_throttle_def)
next
  case False
  then have d: "apply_deadband (- raw) = f32_of_int (- raw)" by (auto simp: apply_deadband_def)
  have r: "throttle_rate (f32_of_int (- raw)) = Some (1 + \<bar>raw\<bar> div 512)"
    using throttle_rate_value [of "- raw"] assms(1) by (simp add: stick_ok_def)
  have b: "\<bar>raw\<bar> div 512 \<le> 1" "0 \<le> \<bar>raw\<bar> div 512"
    using zdiv_mono1 [of "\<bar>raw\<bar>" 512 512] assms(1) pos_imp_zdiv_nonneg_iff [of 512 "\<bar>raw\<bar>"]
    by (simp_all add: stick_ok_def)
  have m: "\<bar>- raw\<bar> < 2 ^ 24" "- raw \<noteq> 0" using assms(1) False by (auto simp: stick_ok_def)
  have n: "i32 (- raw) = Some (- raw)" using assms(1) by (auto simp: stick_ok_def i32_def int32_ok_def)
  show ?thesis
  proof (cases "raw < 0")
    case True
    then show ?thesis using False assms b n
      by (simp add: accumulate_throttle_def d fp_zero_int [OF m(1)] r i32_def int32_ok_def stick_step_def)
  next
    case nonneg: False
    then show ?thesis using False assms b n
      by (simp add: accumulate_throttle_def d fp_zero_int [OF m(1)] r i32_def int32_ok_def stick_step_def)
        (simp add: algebra_simps)
  qed
qed

lemma clamp_throttle_bounds: "1000 \<le> clamp_throttle t \<and> clamp_throttle t \<le> 1300"
  by (simp add: clamp_throttle_def Let_def)

lemma normalize_wide:
  assumes "\<bar>raw\<bar> \<le> 2 ^ 12"
  shows "is_finite (normalize_angle raw) \<and>
      fvalue (normalize_angle raw) = (if \<bar>raw\<bar> < 20 then 0 else of_int (raw * 20) / 512)"
    and "is_finite (normalize_yaw raw) \<and>
      fvalue (normalize_yaw raw) = (if \<bar>raw\<bar> < 20 then 0 else of_int (raw * 90) / 512)"
proof -
  have m: "\<bar>if \<bar>raw\<bar> < 20 then 0 else raw\<bar> \<le> 2 ^ 12" using assms by auto
  have d: "apply_deadband raw = f32_of_int (if \<bar>raw\<bar> < 20 then 0 else raw)"
    by (auto simp: apply_deadband_def f32_of_int_def fround_def zero_fp_def)
  show "is_finite (normalize_angle raw) \<and>
      fvalue (normalize_angle raw) = (if \<bar>raw\<bar> < 20 then 0 else of_int (raw * 20) / 512)"
    using exact_scale [OF m, of ANGLE_SETPOINT_MAX 20]
    by (cases "\<bar>raw\<bar> < 20") (simp_all add: normalize_angle_def d config_simps)
  show "is_finite (normalize_yaw raw) \<and>
      fvalue (normalize_yaw raw) = (if \<bar>raw\<bar> < 20 then 0 else of_int (raw * 90) / 512)"
    using exact_scale [OF m, of YAW_RATE_MAX 90]
    by (cases "\<bar>raw\<bar> < 20") (simp_all add: normalize_yaw_def d config_simps)
qed

lemma stick_small: "stick_ok raw \<Longrightarrow> \<bar>raw\<bar> \<le> 2 ^ 12"
  by (auto simp: stick_ok_def)

lemmas normalize_value = normalize_wide [OF stick_small]

text \<open>The throttle moves within its limits also when a stick leaves its range.\<close>

lemma accumulate_wide:
  assumes "\<bar>raw\<bar> \<le> 2 ^ 12" "1000 \<le> s" "s \<le> 1300"
  shows "\<exists>t. accumulate_throttle raw s = Some t \<and> 1000 \<le> t \<and> t \<le> 1300"
proof -
  have n: "i32 (- raw) = Some (- raw)" using assms(1) by (auto simp: i32_def int32_ok_def)
  show ?thesis
  proof (cases "\<bar>raw\<bar> < 20")
    case True
    then have "apply_deadband (- raw) = 0" by (auto simp: apply_deadband_def)
    then show ?thesis using assms feq_zero_zero by (auto simp: accumulate_throttle_def i32_def int32_ok_def)
  next
    case False
    then have d: "apply_deadband (- raw) = f32_of_int (- raw)" by (auto simp: apply_deadband_def)
    have r: "throttle_rate (f32_of_int (- raw)) = Some (1 + \<bar>raw\<bar> div 512)"
      using throttle_rate_value [of "- raw"] assms(1) by simp
    have b: "\<bar>raw\<bar> div 512 \<le> 8" "0 \<le> \<bar>raw\<bar> div 512"
      using zdiv_mono1 [of "\<bar>raw\<bar>" "2 ^ 12" 512] assms(1) pos_imp_zdiv_nonneg_iff [of 512 "\<bar>raw\<bar>"] by simp_all
    have i: "int32_ok (s + (1 + \<bar>raw\<bar> div 512))" "int32_ok (s - (1 + \<bar>raw\<bar> div 512))"
      using b assms(2,3) by (simp_all add: int32_ok_def)
    show ?thesis using assms(2,3) n i clamp_throttle_bounds by (simp add: accumulate_throttle_def d r i32_def Let_def)
  qed
qed

lemma abs_scaled: "\<bar>raw\<bar> \<le> 512 \<Longrightarrow> 0 \<le> k \<Longrightarrow> \<bar>of_int (raw * k) / 512 :: rat\<bar> \<le> of_int k"
proof -
  assume h: "\<bar>raw\<bar> \<le> 512" "0 \<le> k"
  have "\<bar>raw * k\<bar> \<le> 512 * k" unfolding abs_mult using h by (intro mult_mono) auto
  then have "\<bar>of_int (raw * k) :: rat\<bar> \<le> of_int (512 * k)" by (metis of_int_abs of_int_le_iff)
  then show ?thesis by (simp add: abs_divide)
qed

lemma normalize_bounded:
  assumes "stick_ok raw"
  shows "fbounded (normalize_angle raw) 20" "fbounded (normalize_yaw raw) 90"
  using normalize_value [OF assms] abs_scaled [of raw 20] abs_scaled [of raw 90] assms
  by (simp_all add: fbounded_def stick_ok_def)

section \<open>The invariant of the setpoints\<close>

definition setpoints_ok :: "setpoints \<Rightarrow> bool" where
  "setpoints_ok g \<longleftrightarrow> 1000 \<le> g_throttle g \<and> g_throttle g \<le> 1300 \<and>
     fbounded (g_pitch_sp g) 20 \<and> fbounded (g_roll_sp g) 20 \<and> fbounded (g_yaw_sp g) 90"

definition ctrl_ok :: "ctrl \<times> setpoints \<Rightarrow> bool" where
  "ctrl_ok s \<longleftrightarrow> 1000 \<le> s_throttle_us (fst s) \<and> s_throttle_us (fst s) \<le> 1300 \<and> setpoints_ok (snd s)"

definition event_ok :: "uni_event \<Rightarrow> bool" where
  "event_ok ev = (case ev of Ev_Data gp \<Rightarrow> gamepad_ok gp | _ \<Rightarrow> True)"

lemma fbounded_zero: "0 \<le> B \<Longrightarrow> fbounded 0 B"
  by (simp add: fbounded_def)

lemma setpoints_ok_safe [inv_intros]: "setpoints_ok (safe_setpoints g)"
  by (simp add: setpoints_ok_def safe_setpoints_def fbounded_zero)

lemma ctrl_ok_boot [inv_intros]: "ctrl_ok (ctrl_boot, setpoints_boot)"
  by (simp add: ctrl_ok_def ctrl_boot_def setpoints_ok_def setpoints_boot_def fbounded_zero)

lemma i32_axis: "stick_ok raw \<Longrightarrow> i32 (- raw) = Some (- raw) \<and> stick_ok (- raw)"
  by (auto simp: stick_ok_def i32_def int32_ok_def)

lemma on_gamepad_frame:
  assumes "gamepad_ok gp" "1000 \<le> s_throttle_us c" "s_throttle_us c \<le> 1300" "\<not> has_flag (buttons gp) BUTTON_X"
  shows "on_gamepad_data took gp (c, g) =
    (let thr = clamp_throttle (s_throttle_us c + stick_step (axis_y gp)) in
     Some (c\<lparr>s_throttle_us := thr\<rparr>,
       if took then g\<lparr>g_throttle := thr, g_pitch_sp := normalize_angle (- axis_ry gp),
         g_roll_sp := normalize_angle (axis_rx gp), g_yaw_sp := normalize_yaw (axis_x gp),
         g_motors_killed := 0\<rparr> else g))"
  using assms accumulate_value [of "axis_y gp" "s_throttle_us c"] i32_axis [of "axis_ry gp"]
  by (simp add: on_gamepad_data_def gamepad_ok_def Let_def i32_def)

lemma ctrl_ok_frame:
  assumes "ctrl_ok s" "gamepad_ok gp"
  shows "\<exists>s'. on_gamepad_data took gp s = Some s' \<and> ctrl_ok s'"
proof (cases s)
  case (Pair c g)
  show ?thesis
  proof (cases "has_flag (buttons gp) BUTTON_X")
    case True
    then have "on_gamepad_data took gp s =
        Some (c\<lparr>s_throttle_us := 1000\<rparr>, if took then safe_setpoints g else g)"
      by (simp add: on_gamepad_data_def Pair)
    then show ?thesis using assms(1) Pair setpoints_ok_safe by (auto simp: ctrl_ok_def)
  next
    case False
    have "stick_ok (- axis_ry gp)" "stick_ok (axis_rx gp)" "stick_ok (axis_x gp)"
      using assms(2) by (auto simp: gamepad_ok_def stick_ok_def)
    note B = normalize_bounded [OF this(1)] normalize_bounded [OF this(2)] normalize_bounded [OF this(3)]
    have "1000 \<le> s_throttle_us c" "s_throttle_us c \<le> 1300" using assms(1) Pair by (auto simp: ctrl_ok_def)
    note F = on_gamepad_frame [OF assms(2) this False, of took g]
    have "setpoints_ok g" using assms(1) Pair by (simp add: ctrl_ok_def)
    then show ?thesis unfolding Pair F
      using B clamp_throttle_bounds [of "s_throttle_us c + stick_step (axis_y gp)"]
      by (simp add: Let_def ctrl_ok_def setpoints_ok_def)
  qed
qed

lemma ctrl_ok_event:
  assumes "ctrl_ok s" "event_ok ev"
  shows "\<exists>s'. s_platform took ev s = Some s' \<and> ctrl_ok s'"
proof (cases ev)
  case (Ev_Data gp)
  then show ?thesis using assms ctrl_ok_frame [of s gp took] by (simp add: s_platform_def event_ok_def)
qed (use assms setpoints_ok_safe in \<open>auto simp: s_platform_def ctrl_ok_def on_connected_def
       on_disconnected_def split: prod.splits\<close>)

section \<open>Properties\<close>

text \<open>
  C12: An ordinary frame with sticks in the documented range moves the throttle by one
  microsecond (two only at a full raw deflection of 512) against the stick's sign, keeps it between
  1000 and 1300, and publishes exactly scaled setpoints: 20/512 degrees per count for pitch
  (inverted) and roll, 90/512 degrees per second for yaw, and zero inside the deadband.
\<close>

theorem frame_setpoints:
  assumes "gamepad_ok gp" "1000 \<le> s_throttle_us c" "s_throttle_us c \<le> 1300" "\<not> has_flag (buttons gp) BUTTON_X"
  shows "\<exists>c' g'. on_gamepad_data True gp (c, g) = Some (c', g') \<and>
    s_throttle_us c' = max 1000 (min 1300 (s_throttle_us c + stick_step (axis_y gp))) \<and>
    g_throttle g' = s_throttle_us c' \<and> g_motors_killed g' = 0 \<and>
    fvalue (g_pitch_sp g') = (if \<bar>axis_ry gp\<bar> < 20 then 0 else of_int (- axis_ry gp * 20) / 512) \<and>
    fvalue (g_roll_sp g') = (if \<bar>axis_rx gp\<bar> < 20 then 0 else of_int (axis_rx gp * 20) / 512) \<and>
    fvalue (g_yaw_sp g') = (if \<bar>axis_x gp\<bar> < 20 then 0 else of_int (axis_x gp * 90) / 512)"
proof -
  have ok: "stick_ok (- axis_ry gp)" "stick_ok (axis_rx gp)" "stick_ok (axis_x gp)"
    using assms(1) by (auto simp: gamepad_ok_def stick_ok_def)
  have "clamp_throttle t = max 1000 (min 1300 t)" for t by (auto simp: clamp_throttle_def Let_def)
  then show ?thesis
    using on_gamepad_frame [OF assms, of True g] normalize_value [OF ok(1)] normalize_value [OF ok(2)]
      normalize_value [OF ok(3)] by (simp add: Let_def)
qed

theorem frame_setpoints_witness:
  "\<exists>c' g'. on_gamepad_data True (gamepad_zero\<lparr>axis_y := - 512, axis_rx := 256\<rparr>) (ctrl_boot, setpoints_boot)
     = Some (c', g') \<and> g_throttle g' = 1202 \<and> fvalue (g_roll_sp g') = 10"
  using frame_setpoints [of "gamepad_zero\<lparr>axis_y := - 512, axis_rx := 256\<rparr>" ctrl_boot setpoints_boot]
  by (simp add: gamepad_ok_def stick_ok_def gamepad_zero_def ctrl_boot_def has_flag_def stick_step_def) fastforce

text \<open>
  C13: The X button and a disconnection reset the throttle accumulator to the arming pulse
  and, when the mutex is taken, set the kill flag, the arming throttle and zero setpoints.  When the
  mutex is busy the globals, the kill flag among them, stay as they were: the kill is lost.
\<close>

theorem kill_button:
  assumes "has_flag (buttons gp) BUTTON_X"
  shows "on_gamepad_data took gp (c, g) = Some (c\<lparr>s_throttle_us := 1000\<rparr>,
      if took then \<lparr>g_throttle = 1000, g_motors_killed = 1, g_pitch_sp = 0, g_roll_sp = 0, g_yaw_sp = 0\<rparr> else g) \<and>
    on_disconnected took (c, g) = (c\<lparr>s_connected := 0, s_throttle_us := 1000\<rparr>,
      if took then \<lparr>g_throttle = 1000, g_motors_killed = 1, g_pitch_sp = 0, g_roll_sp = 0, g_yaw_sp = 0\<rparr> else g)"
  using assms by (simp add: on_gamepad_data_def on_disconnected_def safe_setpoints_def)

theorem kill_button_witness:
  "map_option (\<lambda>s. g_motors_killed (snd s)) (on_gamepad_data False (gamepad_zero\<lparr>buttons := 4\<rparr>)
     (ctrl_boot, setpoints_boot)) = Some 0"
proof -
  have "has_flag (buttons (gamepad_zero\<lparr>buttons := 4\<rparr>)) BUTTON_X" by code_simp
  from kill_button [OF this, of False ctrl_boot setpoints_boot] show ?thesis
    by (simp add: setpoints_boot_def)
qed

end
