(* ===== verification/C_Text.thy ===== *)
theory C_Text
  imports Machine_Float
begin

text \<open>
  The functions of the C library the telemetry code uses on text: \<open>strstr\<close>, \<open>strtof\<close>, and the
  \<open>%.nf\<close>, \<open>%lu\<close> and \<open>%d\<close> conversions of \<open>snprintf\<close>, as the C standard defines them.  A C string
  is a list of characters up to its terminator.  \<open>strtof\<close> accepts decimal and hexadecimal numbers,
  \<open>inf\<close>, \<open>infinity\<close> and \<open>nan\<close>; the model returns the converted value, or \<open>None\<close> when nothing was
  converted (the code only compares the end pointer with the start).
\<close>

section \<open>Strings\<close>

definition c_string :: "string \<Rightarrow> string" where
  "c_string s = takeWhile (\<lambda>c. c \<noteq> CHR 0x00) s"

text \<open>The text after the first occurrence of the needle.\<close>

fun after_strstr :: "string \<Rightarrow> string \<Rightarrow> string option" where
  "after_strstr needle s =
     (if take (length needle) s = needle then Some (drop (length needle) s)
      else case s of [] \<Rightarrow> None | _ # t \<Rightarrow> after_strstr needle t)"

declare after_strstr.simps [simp del]

definition code :: "char \<Rightarrow> nat" where
  "code c = of_char c"

definition digit_value :: "char \<Rightarrow> nat" where
  "digit_value c = (let n = code c in
     if 48 \<le> n \<and> n \<le> 57 then n - 48 else if 97 \<le> n \<and> n \<le> 102 then n - 87
     else if 65 \<le> n \<and> n \<le> 70 then n - 55 else 99)"

definition is_digit :: "nat \<Rightarrow> char \<Rightarrow> bool" where
  "is_digit b c \<longleftrightarrow> digit_value c < b"

definition is_space :: "char \<Rightarrow> bool" where
  "is_space c \<longleftrightarrow> code c = 32 \<or> 9 \<le> code c \<and> code c \<le> 13"

definition to_lower :: "char \<Rightarrow> char" where
  "to_lower c = (if 65 \<le> code c \<and> code c \<le> 90 then char_of (code c + 32) else c)"

definition digits_value :: "nat \<Rightarrow> string \<Rightarrow> int" where
  "digits_value b ds = fold (\<lambda>c a. a * int b + int (digit_value c)) ds 0"

section \<open>strtof\<close>

definition take_sign :: "string \<Rightarrow> bool \<times> string" where
  "take_sign s = (case s of [] \<Rightarrow> (False, s)
     | c # t \<Rightarrow> if c = CHR ''-'' then (True, t) else if c = CHR ''+'' then (False, t) else (False, s))"

text \<open>Integer digits, fraction digits and the rest; at least one digit is needed.\<close>

definition scan_mantissa :: "nat \<Rightarrow> string \<Rightarrow> (string \<times> string \<times> string) option" where
  "scan_mantissa b s =
     (let ip = takeWhile (is_digit b) s; r = dropWhile (is_digit b) s;
          f = (case r of [] \<Rightarrow> [] | c # t \<Rightarrow> if c = CHR ''.'' then takeWhile (is_digit b) t else []);
          r' = (case r of [] \<Rightarrow> [] | c # t \<Rightarrow> if c = CHR ''.'' then dropWhile (is_digit b) t else r)
      in if ip = [] \<and> f = [] then None else Some (ip, f, r'))"

definition scan_exponent :: "char \<Rightarrow> string \<Rightarrow> int" where
  "scan_exponent e s = (case s of [] \<Rightarrow> 0
     | c # t \<Rightarrow> if to_lower c = e then
         (let (neg, u) = take_sign t; v = digits_value 10 (takeWhile (is_digit 10) u)
          in if neg then - v else v) else 0)"

definition scan_number :: "bool \<Rightarrow> string \<Rightarrow> fp option" where
  "scan_number neg s =
     (case (if map to_lower (take 2 s) = ''0x'' then scan_mantissa 16 (drop 2 s) else None) of
        Some (ip, f, r) \<Rightarrow>
          (let m = of_int (digits_value 16 (ip @ f)) * 2 powi (scan_exponent CHR ''p'' r - 4 * int (length f))
           in Some (fround binary32 neg (if neg then - m else m)))
      | None \<Rightarrow>
        (case scan_mantissa 10 s of None \<Rightarrow> None
         | Some (ip, f, r) \<Rightarrow>
             (let m = of_int (digits_value 10 (ip @ f)) * 10 powi (scan_exponent CHR ''e'' r - int (length f))
              in Some (fround binary32 neg (if neg then - m else m)))))"

definition strtof :: "string \<Rightarrow> fp option" where
  "strtof s =
     (let (neg, t) = take_sign (dropWhile is_space s); l = map to_lower (take 3 t) in
      if l = ''inf'' then Some (FInf neg) else if l = ''nan'' then Some FNaN
      else scan_number neg t)"

section \<open>Formatting\<close>

definition digit_char :: "nat \<Rightarrow> char" where
  "digit_char d = char_of (48 + d)"

fun dec_digits :: "nat \<Rightarrow> string" where
  "dec_digits n = (if n < 10 then [digit_char n] else dec_digits (n div 10) @ [digit_char (n mod 10)])"

declare dec_digits.simps [simp del]

definition fmt_int :: "int \<Rightarrow> string" where
  "fmt_int i = (if i < 0 then CHR ''-'' # dec_digits (nat (- i)) else dec_digits (nat i))"

definition pad_zeros :: "nat \<Rightarrow> string \<Rightarrow> string" where
  "pad_zeros n s = replicate (n - length s) (CHR ''0'') @ s"

text \<open>\<open>%.nf\<close>: the exact value rounded to n decimals, ties to even; the sign bit is printed.\<close>

fun fmt_fixed :: "nat \<Rightarrow> fp \<Rightarrow> string" where
  "fmt_fixed n FNaN = ''nan''"
| "fmt_fixed n (FInf s) = (if s then ''-inf'' else ''inf'')"
| "fmt_fixed n (FFin s m) =
     (let k = nat (round_half_even (m * 10 ^ n)) in
      (if s then ''-'' else '''') @ dec_digits (k div 10 ^ n) @ ''.'' @ pad_zeros n (dec_digits (k mod 10 ^ n)))"

section \<open>Lengths\<close>

lemma length_dec_digits: "0 < d \<Longrightarrow> n < 10 ^ d \<Longrightarrow> length (dec_digits n) \<le> d"
proof (induction d arbitrary: n)
  case (Suc d)
  show ?case
  proof (cases "n < 10")
    case False
    then have "0 < d" using Suc.prems by (cases d) auto
    moreover have "n div 10 < 10 ^ d" using Suc.prems by (simp add: less_mult_imp_div_less mult.commute)
    ultimately show ?thesis using Suc.IH False by (simp add: dec_digits.simps [of n])
  qed (simp add: dec_digits.simps [of n])
qed simp

lemma length_fmt_fixed:
  assumes "fbounded a (of_nat B)" "fp_wf a" "B + 1 \<le> 10 ^ d" "0 < d" "0 < n"
  shows "length (fmt_fixed n a) \<le> d + n + 2"
proof -
  obtain s m where a: "a = FFin s m" using assms(1) by (cases a) (auto simp: fbounded_def)
  have m: "0 \<le> m" "m \<le> of_nat B" using assms(1,2) a by (auto simp: fbounded_def split: if_splits)
  let ?k = "nat (round_half_even (m * 10 ^ n))"
  have "m * 10 ^ n \<le> of_int (int B * 10 ^ n)" using m by simp
  then have "round_half_even (m * 10 ^ n) \<le> int B * 10 ^ n" by (rule round_half_even_le_int)
  then have "?k \<le> B * 10 ^ n" by (simp add: nat_le_iff)
  then have "?k div 10 ^ n \<le> B" using div_le_mono [of ?k "B * 10 ^ n" "10 ^ n"] by simp
  then have i: "length (dec_digits (?k div 10 ^ n)) \<le> d" using assms(3,4) by (intro length_dec_digits) auto
  have "?k mod 10 ^ n < 10 ^ n" by simp
  then have "length (dec_digits (?k mod 10 ^ n)) \<le> n" using assms(5) by (intro length_dec_digits)
  then have "length (pad_zeros n (dec_digits (?k mod 10 ^ n))) = n" by (simp add: pad_zeros_def)
  with i show ?thesis by (simp add: a Let_def)
qed

lemma length_dec_digits_lower: "10 ^ d \<le> n \<Longrightarrow> d < length (dec_digits n)"
proof (induction d arbitrary: n)
  case 0
  show ?case by (subst dec_digits.simps) simp
next
  case (Suc d)
  then have "10 ^ d \<le> n div 10" using div_le_mono [of "10 ^ Suc d" n 10] by simp
  then have "d < length (dec_digits (n div 10))" by (rule Suc.IH)
  moreover have "\<not> n < 10"
  proof -
    have "10 * 1 \<le> 10 * (10 :: nat) ^ d" by (intro mult_le_mono) auto
    also have "\<dots> \<le> n" using Suc.prems by simp
    finally show ?thesis by simp
  qed
  ultimately show ?case by (simp add: dec_digits.simps [of n])
qed

lemma length_fmt_fixed_lower:
  assumes "10 ^ d \<le> m"
  shows "d + n + 2 \<le> length (fmt_fixed n (FFin s m))"
proof -
  let ?k = "nat (round_half_even (m * 10 ^ n))"
  have "of_int (10 ^ d * 10 ^ n) \<le> m * 10 ^ n" using assms by simp
  then have "10 ^ d * 10 ^ n \<le> round_half_even (m * 10 ^ n)" by (rule round_half_even_ge_int)
  then have "int (10 ^ d * 10 ^ n) \<le> round_half_even (m * 10 ^ n)" by simp
  then have "10 ^ d * 10 ^ n \<le> ?k" by (metis nat_int nat_mono)
  then have "10 ^ d \<le> ?k div 10 ^ n" using div_le_mono [of "10 ^ d * 10 ^ n" ?k "10 ^ n"] by simp
  then have "d < length (dec_digits (?k div 10 ^ n))" by (rule length_dec_digits_lower)
  then show ?thesis by (simp add: Let_def pad_zeros_def)
qed

section \<open>Parsing what was printed\<close>

lemma code_digit_char: "d < 10 \<Longrightarrow> digit_value (digit_char d) = d"
  by (simp add: digit_value_def digit_char_def code_def)

lemma digit_of_dec_digits: "\<forall>c \<in> set (dec_digits n). is_digit 10 c"
proof (induction n rule: dec_digits.induct)
  case (1 n)
  then show ?case
    by (cases "n < 10") (auto simp: dec_digits.simps [of n] is_digit_def code_digit_char)
qed

lemma digits_value_append: "digits_value b (xs @ [c]) = digits_value b xs * int b + int (digit_value c)"
  by (simp add: digits_value_def)

lemma digits_value_dec_digits: "digits_value 10 (dec_digits n) = int n"
proof (induction n rule: dec_digits.induct)
  case (1 n)
  show ?case
  proof (cases "n < 10")
    case True
    then show ?thesis by (simp add: dec_digits.simps [of n] digits_value_def code_digit_char)
  next
    case False
    then have "digits_value 10 (dec_digits (n div 10)) = int (n div 10)" by (rule 1)
    moreover have "int (n div 10) * 10 + int (n mod 10) = int n"
      by (metis div_mult_mod_eq of_nat_add of_nat_mult of_nat_numeral)
    ultimately show ?thesis using False
      by (simp add: dec_digits.simps [of n] digits_value_append code_digit_char)
  qed
qed

lemma fold_digits: "fold (\<lambda>c a. a * int b + int (digit_value c)) ds a = a * int b ^ length ds + digits_value b ds"
proof (induction ds arbitrary: a)
  case (Cons c ds)
  show ?case using Cons [of "a * int b + int (digit_value c)"] Cons [of "int (digit_value c)"]
    by (simp add: digits_value_def algebra_simps)
qed (simp add: digits_value_def)

lemma digits_value_app: "digits_value b (xs @ ys) = digits_value b xs * int b ^ length ys + digits_value b ys"
  using fold_digits [of b ys "digits_value b xs"] by (simp add: digits_value_def)

lemma digits_value_zeros: "digits_value b (replicate n CHR ''0'' @ ds) = digits_value b ds"
proof -
  have "digit_value CHR ''0'' = 0" by code_simp
  then have "digits_value b (replicate n CHR ''0'') = 0" by (induction n) (simp_all add: digits_value_def)
  then show ?thesis by (simp add: digits_value_app)
qed

text \<open>A decimal literal with four decimals, as a console prints it.\<close>

definition dec4 :: "nat \<Rightarrow> string" where
  "dec4 n = dec_digits (n div 10000) @ ''.'' @ pad_zeros 4 (dec_digits (n mod 10000))"

lemma takeWhile_digits:
  assumes "\<forall>c \<in> set ds. P c" "\<not> P c"
  shows "takeWhile P (ds @ c # t) = ds" "dropWhile P (ds @ c # t) = c # t"
  using assms by (simp_all add: takeWhile_append dropWhile_append)

lemma zero_digit: "is_digit 10 CHR ''0''" "\<not> is_digit 10 CHR ''.''" "\<not> is_digit 10 CHR '',''" "\<not> is_digit 10 CHR ''}''"
  by code_simp+

lemma digit_code: "is_digit 10 c \<Longrightarrow> 48 \<le> code c \<and> code c \<le> 57"
  by (auto simp: is_digit_def digit_value_def Let_def split: if_splits)

lemma code_values: "code CHR ''-'' = 45" "code CHR ''+'' = 43" "code CHR ''i'' = 105" "code CHR ''n'' = 110"
  "code CHR ''x'' = 120" "code CHR ''.'' = 46"
  by code_simp+

lemma digit_plain:
  assumes "is_digit 10 c"
  shows "\<not> is_space c" "to_lower c = c" "c \<noteq> CHR ''-''" "c \<noteq> CHR ''+''" "c \<noteq> CHR ''i''"
    "c \<noteq> CHR ''n''" "c \<noteq> CHR ''x''" "c \<noteq> CHR ''.''"
  using digit_code [OF assms] code_values by (auto simp: is_space_def to_lower_def)

lemma dec_digits_Cons: obtains c cs where "dec_digits n = c # cs" "is_digit 10 c" "\<forall>x \<in> set cs. is_digit 10 x"
proof -
  have "dec_digits n \<noteq> []" by (simp add: dec_digits.simps [of n])
  then obtain c cs where "dec_digits n = c # cs" by (cases "dec_digits n") auto
  with digit_of_dec_digits [of n] that show ?thesis by auto
qed

lemma pad_zeros_digits: "\<forall>c \<in> set (pad_zeros k (dec_digits n)). is_digit 10 c"
  using digit_of_dec_digits [of n] zero_digit(1) by (auto simp: pad_zeros_def)

lemma strtof_dec4:
  assumes c: "c = CHR '','' \<or> c = CHR ''}''"
  shows "strtof (dec4 n @ c # t) = Some (fround binary32 False (of_nat n / 10000))"
proof -
  let ?ip = "dec_digits (n div 10000)" and ?f = "pad_zeros 4 (dec_digits (n mod 10000))"
  let ?s = "dec4 n @ c # t"
  have s: "?s = ?ip @ CHR ''.'' # (?f @ c # t)" by (simp add: dec4_def)
  obtain d ds where d: "?ip = d # ds" "is_digit 10 d" "\<forall>x \<in> set ds. is_digit 10 x"
    by (rule dec_digits_Cons)
  note p = digit_plain [OF d(2)]
  have nd: "\<not> is_digit 10 c" "to_lower c \<noteq> CHR ''e''"
    using c zero_digit by (auto, code_simp+)
  have sp: "dropWhile is_space ?s = ?s" "take_sign ?s = (False, ?s)"
    using p by (simp_all add: s d(1) take_sign_def)
  have kw: "map to_lower (take 3 ?s) \<noteq> ''inf''" "map to_lower (take 3 ?s) \<noteq> ''nan''"
    using p by (simp_all add: s d(1))
  have hex: "map to_lower (take 2 ?s) \<noteq> ''0x''"
  proof (cases ds)
    case Nil
    have "to_lower CHR ''.'' \<noteq> CHR ''x''" by code_simp
    then show ?thesis by (simp add: s d(1) Nil numeral_2_eq_2)
  next
    case (Cons e es)
    then have "to_lower e \<noteq> CHR ''x''" using d(3) digit_plain [of e] by auto
    then show ?thesis by (simp add: s d(1) Cons numeral_2_eq_2)
  qed
  have m: "scan_mantissa 10 ?s = Some (?ip, ?f, c # t)"
    using takeWhile_digits [OF digit_of_dec_digits zero_digit(2), of "n div 10000" "?f @ c # t"]
      takeWhile_digits [OF pad_zeros_digits nd(1), of 4 "n mod 10000" t] d(1)
    by (simp add: scan_mantissa_def s Let_def)
  have e: "scan_exponent CHR ''e'' (c # t) = 0" using nd(2) by (simp add: scan_exponent_def)
  have len: "length ?f = 4" using length_dec_digits [of 4 "n mod 10000"] by (simp add: pad_zeros_def)
  have "digits_value 10 ?f = int (n mod 10000)"
    by (simp add: pad_zeros_def digits_value_zeros digits_value_dec_digits)
  then have "digits_value 10 (?ip @ ?f) = int (n div 10000) * 10 ^ 4 + int (n mod 10000)"
    by (simp add: digits_value_app digits_value_dec_digits len)
  also have "\<dots> = int (n div 10000) * 10000 + int (n mod 10000)"
    by (rule arg_cong [where f = "\<lambda>k. int (n div 10000) * k + int (n mod 10000)"]) simp
  also have "\<dots> = int n" by (metis div_mult_mod_eq of_nat_add of_nat_mult of_nat_numeral)
  finally have v: "digits_value 10 (?ip @ ?f) = int n" .
  have q: "of_int (int n) * (10 :: rat) powi (0 - int 4) = of_nat n / 10000"
  proof -
    have "(10 :: rat) powi (0 - int 4) = 1 / 10000" by code_simp
    then show ?thesis by (simp only: of_int_of_nat_eq)
  qed
  have num: "scan_number False ?s = Some (fround binary32 False (of_nat n / 10000))"
    unfolding scan_number_def by (simp only: hex m e len v q Let_def split if_False if_True option.case)
  show ?thesis unfolding strtof_def by (simp only: sp kw num Let_def prod.case if_False)
qed

end
