(* ===== verification/Telemetry.thy ===== *)
theory Telemetry
  imports Flight_Controller Controller C_Text
begin

text \<open>
  components/telemetry/telemetry.c: the JSON telemetry packet and the parser of incoming PID
  gains.  The socket and the results of \<open>recvfrom\<close> and of the two mutex takes are arguments.  The
  client address is a pair of IP address and port.

  A received packet is a buffer of at most 255 bytes; the code stores a terminator behind it.  The
  payload of an outgoing packet is an option: \<open>snprintf\<close> returns the untruncated length, and when
  it exceeds the 512 bytes of the buffer \<open>sendto\<close> reads past its end.
\<close>

section \<open>State\<close>

type_synonym sockaddr = "u32 \<times> u16"

record telem =
  s_client :: sockaddr
  s_client_set :: bool

definition telem_boot :: telem where
  "telem_boot = \<lparr>s_client = (0, 0), s_client_set = False\<rparr>"

text \<open>The IMU globals of main.c.\<close>

record imu_state =
  g_pitch_deg :: fp
  g_roll_deg :: fp
  g_yaw_rate :: fp

definition imu_boot :: imu_state where
  "imu_boot = \<lparr>g_pitch_deg = 0, g_roll_deg = 0, g_yaw_rate = 0\<rparr>"

section \<open>Incoming gains\<close>

definition json_get_float :: "string \<Rightarrow> string \<Rightarrow> fp \<Rightarrow> fp" where
  "json_get_float json key default_val =
     (let search = take 31 (''\"'' @ key @ ''\":'') in
      case after_strstr search json of None \<Rightarrow> default_val
      | Some p \<Rightarrow>
          (case strtof (dropWhile (\<lambda>c. c = CHR '' '' \<or> c = CHR 0x09) p) of
             None \<Rightarrow> default_val | Some v \<Rightarrow> v))"

definition json_get_str :: "string \<Rightarrow> string \<Rightarrow> nat \<Rightarrow> string" where
  "json_get_str json key outlen =
     (let search = take 31 (''\"'' @ key @ ''\":\"'') in
      case after_strstr search json of None \<Rightarrow> ''''
      | Some p \<Rightarrow> take (outlen - 1) (takeWhile (\<lambda>c. c \<noteq> CHR 0x22) p))"

datatype axis = Axis_Pitch | Axis_Roll | Axis_Yaw

definition axis_of :: "string \<Rightarrow> axis option" where
  "axis_of s = (if s = ''pitch'' then Some Axis_Pitch else if s = ''roll'' then Some Axis_Roll
     else if s = ''yaw'' then Some Axis_Yaw else None)"

definition set_axis_gains :: "axis \<Rightarrow> fp \<Rightarrow> fp \<Rightarrow> fp \<Rightarrow> fc \<Rightarrow> fc" where
  "set_axis_gains ax p i d f = (case ax of
     Axis_Pitch \<Rightarrow> f\<lparr>pid_pitch := pid_set_gains (pid_pitch f) p i d\<rparr>
   | Axis_Roll \<Rightarrow> f\<lparr>pid_roll := pid_set_gains (pid_roll f) p i d\<rparr>
   | Axis_Yaw \<Rightarrow> f\<lparr>pid_yaw := pid_set_gains (pid_yaw f) p i d\<rparr>)"

text \<open>The parsing part (lines 163 to 185) and the whole handler.\<close>

definition apply_gains :: "string \<Rightarrow> fc \<Rightarrow> fc" where
  "apply_gains buf f =
     (let ax = json_get_str buf ''axis'' 16;
          p = json_get_float buf ''kp'' (flit (- 1));
          i = json_get_float buf ''ki'' (flit (- 1));
          d = json_get_float buf ''kd'' (flit (- 1))
      in if p < 0 \<or> i < 0 \<or> d < 0 then f
         else case axis_of ax of None \<Rightarrow> f | Some a \<Rightarrow> set_axis_gains a p i d f)"

definition telemetry_receive_pid_updates ::
  "int \<Rightarrow> int \<times> string \<times> sockaddr \<Rightarrow> telem \<times> fc \<Rightarrow> telem \<times> fc" where
  "telemetry_receive_pid_updates sock rx s = (case s of (t, f) \<Rightarrow> case rx of (n, bytes, src) \<Rightarrow>
     if sock < 0 then (t, f)
     else if n \<le> 0 then (t, f)
     else (if s_client_set t then t else t\<lparr>s_client := src, s_client_set := True\<rparr>,
           apply_gains (c_string (take (nat n) bytes)) f))"

section \<open>Outgoing packets\<close>

definition telemetry_json :: "imu_state \<Rightarrow> setpoints \<Rightarrow> telem_cache \<Rightarrow> fc \<Rightarrow> string" where
  "telemetry_json im g c f = concat
     [''{\"pitch\":'', fmt_fixed 2 (g_pitch_deg im), '',\"roll\":'', fmt_fixed 2 (g_roll_deg im),
      '',\"yaw_rate\":'', fmt_fixed 2 (g_yaw_rate im),
      '',\"pitch_sp\":'', fmt_fixed 2 (g_pitch_sp g), '',\"roll_sp\":'', fmt_fixed 2 (g_roll_sp g),
      '',\"yaw_sp\":'', fmt_fixed 2 (g_yaw_sp g),
      '',\"pitch_out\":'', fmt_fixed 2 (s_pitch_out c), '',\"roll_out\":'', fmt_fixed 2 (s_roll_out c),
      '',\"yaw_out\":'', fmt_fixed 2 (s_yaw_out c),
      '',\"m_fl\":'', dec_digits (unat (s_m_fl c)), '',\"m_fr\":'', dec_digits (unat (s_m_fr c)),
      '',\"m_rl\":'', dec_digits (unat (s_m_rl c)), '',\"m_rr\":'', dec_digits (unat (s_m_rr c)),
      '',\"throttle\":'', fmt_int (g_throttle g),
      '',\"kp_pitch\":'', fmt_fixed 4 (kp (pid_pitch f)), '',\"ki_pitch\":'', fmt_fixed 4 (ki (pid_pitch f)),
      '',\"kd_pitch\":'', fmt_fixed 4 (kd (pid_pitch f)),
      '',\"kp_roll\":'', fmt_fixed 4 (kp (pid_roll f)), '',\"ki_roll\":'', fmt_fixed 4 (ki (pid_roll f)),
      '',\"kd_roll\":'', fmt_fixed 4 (kd (pid_roll f)),
      '',\"kp_yaw\":'', fmt_fixed 4 (kp (pid_yaw f)), '',\"ki_yaw\":'', fmt_fixed 4 (ki (pid_yaw f)),
      '',\"kd_yaw\":'', fmt_fixed 4 (kd (pid_yaw f)), ''}'', [CHR 0x0A]]"

text \<open>The bytes \<open>sendto\<close> reads from the buffer of 512 bytes after \<open>snprintf\<close>.\<close>

definition udp_payload :: "string \<Rightarrow> string option" where
  "udp_payload s =
     (if length s < 512 then Some s
      else if length s = 512 then Some (take 511 s @ [CHR 0x00]) else None)"

datatype send_result = Not_Sent | Sent sockaddr string | Overread

definition telemetry_send ::
  "int \<Rightarrow> bool \<Rightarrow> bool \<Rightarrow> telem \<Rightarrow> imu_state \<Rightarrow> setpoints \<Rightarrow> telem_cache \<Rightarrow> fc \<Rightarrow> send_result" where
  "telemetry_send sock took_imu took_sp t im g c f =
     (if sock < 0 \<or> \<not> s_client_set t then Not_Sent
      else if \<not> took_imu then Not_Sent
      else if \<not> took_sp then Not_Sent
      else case udp_payload (telemetry_json im g c f) of
        None \<Rightarrow> Overread | Some p \<Rightarrow> Sent (s_client t) p)"

section \<open>Searching\<close>

lemma after_strstr_skip:
  "needle \<noteq> [] \<Longrightarrow> take (length needle) (x # s) \<noteq> needle \<Longrightarrow> after_strstr needle (x # s) = after_strstr needle s"
  by (simp add: after_strstr.simps [of needle "x # s"])

lemma after_strstr_here: "after_strstr needle (needle @ s) = Some s"
  by (simp add: after_strstr.simps [of needle "needle @ s"])

text \<open>A needle that starts with a quote is not found inside text without quotes.\<close>

lemma after_strstr_unquoted:
  "CHR 0x22 \<notin> set pre \<Longrightarrow> after_strstr (CHR 0x22 # n) (pre @ s) = after_strstr (CHR 0x22 # n) s"
proof (induction pre)
  case (Cons x pre)
  then show ?case by (subst append_Cons, subst after_strstr_skip) auto
qed simp

section \<open>A gain packet\<close>

text \<open>The packet of the header comment, with gains of four decimals.\<close>

definition gain_packet :: "string \<Rightarrow> nat \<Rightarrow> nat \<Rightarrow> nat \<Rightarrow> string" where
  "gain_packet ax p i d = ''{\"axis\":\"'' @ ax @ ''\",\"kp\":'' @ dec4 p @ '',\"ki\":'' @ dec4 i @
     '',\"kd\":'' @ dec4 d @ ''}''"

definition axis_name :: "axis \<Rightarrow> string" where
  "axis_name a = (case a of Axis_Pitch \<Rightarrow> ''pitch'' | Axis_Roll \<Rightarrow> ''roll'' | Axis_Yaw \<Rightarrow> ''yaw'')"

definition gain_value :: "nat \<Rightarrow> fp" where
  "gain_value n = fround binary32 False (of_nat n / 10000)"

lemma axis_of_name [simp]: "axis_of (axis_name a) = Some a"
  by (cases a) (simp_all add: axis_of_def axis_name_def)

lemma dec4_plain: "x \<in> set (dec4 n) \<Longrightarrow> is_digit 10 x \<or> x = CHR ''.''"
  using digit_of_dec_digits pad_zeros_digits by (auto simp: dec4_def)

lemma dec4_no_quote: "CHR 0x22 \<notin> set (dec4 n)"
proof -
  have "\<not> is_digit 10 CHR 0x22" by code_simp
  then show ?thesis using dec4_plain [of "CHR 0x22" n] by auto
qed

lemma dec4_first: "\<exists>c cs. dec4 n = c # cs \<and> c \<noteq> CHR '' '' \<and> c \<noteq> CHR 0x09"
proof -
  obtain c cs where c: "dec_digits (n div 10000) = c # cs" "is_digit 10 c" by (rule dec_digits_Cons)
  have "\<not> is_digit 10 CHR '' ''" "\<not> is_digit 10 CHR 0x09" by code_simp+
  with c show ?thesis by (auto simp: dec4_def)
qed

lemma float_field:
  assumes "after_strstr (take 31 (''\"'' @ key @ ''\":'')) json = Some (dec4 n @ c # t)"
    "c = CHR '','' \<or> c = CHR ''}''"
  shows "json_get_float json key dv = gain_value n"
proof -
  have "dropWhile (\<lambda>c. c = CHR '' '' \<or> c = CHR 0x09) (dec4 n @ c # t) = dec4 n @ c # t"
    using dec4_first [of n] by auto
  then show ?thesis using assms strtof_dec4 [OF assms(2), of n t] by (simp add: json_get_float_def gain_value_def)
qed

lemma gain_packet_fields:
  fixes a :: axis and p i d :: nat
  defines "b \<equiv> gain_packet (axis_name a) p i d"
  shows "json_get_str b ''axis'' 16 = axis_name a"
    and "json_get_float b ''kp'' dv = gain_value p"
    and "json_get_float b ''ki'' dv = gain_value i"
    and "json_get_float b ''kd'' dv = gain_value d"
proof -
  show "json_get_str b ''axis'' 16 = axis_name a"
    by (cases a) (simp_all add: b_def gain_packet_def axis_name_def json_get_str_def after_strstr.simps)
  let ?ki = "'',\"ki\":'' @ dec4 i @ '',\"kd\":'' @ dec4 d @ ''}''"
  let ?kd = "'',\"kd\":'' @ dec4 d @ ''}''"
  have 1: "after_strstr ''\"kp\":'' b = Some (dec4 p @ ?ki)"
    by (cases a) (simp_all add: b_def gain_packet_def axis_name_def after_strstr.simps)
  have 2: "after_strstr ''\"ki\":'' b = Some (dec4 i @ ?kd)"
  proof -
    have "after_strstr ''\"ki\":'' b = after_strstr ''\"ki\":'' (dec4 p @ ?ki)"
      by (cases a) (simp_all add: b_def gain_packet_def axis_name_def after_strstr_skip)
    also have "\<dots> = after_strstr ''\"ki\":'' ?ki" by (intro after_strstr_unquoted dec4_no_quote)
    also have "\<dots> = Some (dec4 i @ ?kd)" by (simp add: after_strstr.simps)
    finally show ?thesis .
  qed
  have 3: "after_strstr ''\"kd\":'' b = Some (dec4 d @ ''}'')"
  proof -
    have "after_strstr ''\"kd\":'' b = after_strstr ''\"kd\":'' (dec4 p @ ?ki)"
      by (cases a) (simp_all add: b_def gain_packet_def axis_name_def after_strstr_skip)
    also have "\<dots> = after_strstr ''\"kd\":'' ?ki" by (intro after_strstr_unquoted dec4_no_quote)
    also have "\<dots> = after_strstr ''\"kd\":'' (dec4 i @ ?kd)" by (simp add: after_strstr_skip)
    also have "\<dots> = after_strstr ''\"kd\":'' ?kd" by (intro after_strstr_unquoted dec4_no_quote)
    also have "\<dots> = Some (dec4 d @ ''}'')" by (simp add: after_strstr.simps)
    finally show ?thesis .
  qed
  show "json_get_float b ''kp'' dv = gain_value p"
    using float_field [of "''kp''" b p "CHR '',''"] 1 by simp
  show "json_get_float b ''ki'' dv = gain_value i"
    using float_field [of "''ki''" b i "CHR '',''"] 2 by simp
  show "json_get_float b ''kd'' dv = gain_value d"
    using float_field [of "''kd''" b d "CHR ''}''" "[]"] 3 by simp
qed

lemma gain_value_nonneg: "\<not> gain_value n < 0"
  using round_mag_nonneg [of "of_nat n / 10000" binary32]
  by (auto simp: gain_value_def fround_def Let_def zero_fp_def less_fp_def)

text \<open>The packet sets the named controller to the nearest binary32 values, and touches nothing else.\<close>

lemma apply_gain_packet:
  "apply_gains (gain_packet (axis_name a) p i d) f = set_axis_gains a (gain_value p) (gain_value i) (gain_value d) f"
  by (simp add: apply_gains_def gain_packet_fields gain_value_nonneg)

section \<open>What any packet can do\<close>

definition gain_ok :: "fp \<Rightarrow> bool" where
  "gain_ok a \<longleftrightarrow> \<not> a < 0"

lemma apply_gains_cases:
  "apply_gains buf f = f \<or>
   (\<exists>ax p i d. gain_ok p \<and> gain_ok i \<and> gain_ok d \<and> apply_gains buf f = set_axis_gains ax p i d f)"
  by (auto simp: apply_gains_def Let_def gain_ok_def split: option.splits)

definition pids_ok :: "fc \<Rightarrow> bool" where
  "pids_ok f \<longleftrightarrow> pid_ok (pid_pitch f) \<and> pid_ok (pid_roll f) \<and> pid_ok (pid_yaw f)"

lemma pids_ok_axis: "pids_ok f \<Longrightarrow> pids_ok (set_axis_gains ax p i d f)"
  by (cases ax) (auto simp: pids_ok_def set_axis_gains_def pid_ok_set_gains)

lemma pids_ok_gains [inv_intros]: "pids_ok f \<Longrightarrow> pids_ok (apply_gains buf f)"
  using apply_gains_cases [of buf f] pids_ok_axis [of f] by auto

lemma receive_client:
  "s_client_set t \<Longrightarrow> fst (telemetry_receive_pid_updates sock rx (t, f)) = t"
  by (auto simp: telemetry_receive_pid_updates_def split: prod.splits)

lemma receive_registers:
  "0 \<le> sock \<Longrightarrow> 0 < n \<Longrightarrow> \<not> s_client_set t \<Longrightarrow>
   fst (telemetry_receive_pid_updates sock (n, bytes, src) (t, f)) = t\<lparr>s_client := src, s_client_set := True\<rparr>"
  by (simp add: telemetry_receive_pid_updates_def)

text \<open>A NaN gain passes the sign check and makes the next flying update undefined.\<close>

lemma nan_gain_undefined:
  assumes "kp (pid_pitch (fcs w)) = FNaN" "1200 < throttle"
  shows "flight_controller_update throttle psp rsp ysp p r y now w = None"
proof -
  have "motor_mix throttle FNaN b c = None" for b c
    by (simp add: motor_mix_def Let_def clamp_us_nan)
  then show ?thesis
    using update_flying [OF assms(2), of psp rsp ysp p r y now w] pid_nan_gain [OF assms(1)]
    by (cases "flight_controller_update throttle psp rsp ysp p r y now w") auto
qed

lemma nan_packet: "kp (pid_pitch (apply_gains ''{\"axis\":\"pitch\",\"kp\":nan,\"ki\":0,\"kd\":0}'' f)) = FNaN"
proof -
  let ?b = "''{\"axis\":\"pitch\",\"kp\":nan,\"ki\":0,\"kd\":0}''"
  have "json_get_str ?b ''axis'' 16 = ''pitch''" by code_simp
  moreover have "json_get_float ?b ''kp'' (flit (- 1)) = FNaN" by code_simp
  moreover have "json_get_float ?b ''ki'' (flit (- 1)) = FFin False 0" by code_simp
  moreover have "json_get_float ?b ''kd'' (flit (- 1)) = FFin False 0" by code_simp
  ultimately show ?thesis
    by (simp add: apply_gains_def Let_def axis_of_def set_axis_gains_def pid_set_gains_def zero_fp_def less_fp_def)
qed

section \<open>The size of a telemetry packet\<close>

definition telem_bounded :: "imu_state \<Rightarrow> setpoints \<Rightarrow> telem_cache \<Rightarrow> fc \<Rightarrow> bool" where
  "telem_bounded im g c f \<longleftrightarrow>
     list_all (\<lambda>a. fp_wf a \<and> fbounded a 99999)
       [g_pitch_deg im, g_roll_deg im, g_yaw_rate im, g_pitch_sp g, g_roll_sp g, g_yaw_sp g,
        s_pitch_out c, s_roll_out c, s_yaw_out c,
        kp (pid_pitch f), ki (pid_pitch f), kd (pid_pitch f), kp (pid_roll f), ki (pid_roll f),
        kd (pid_roll f), kp (pid_yaw f), ki (pid_yaw f), kd (pid_yaw f)] \<and>
     list_all (\<lambda>m. unat m < 10000) [s_m_fl c, s_m_fr c, s_m_rl c, s_m_rr c] \<and>
     0 \<le> g_throttle g \<and> g_throttle g < 10000"

lemma length_fixed_bounded: "fp_wf a \<and> fbounded a 99999 \<Longrightarrow> 0 < n \<Longrightarrow> length (fmt_fixed n a) \<le> 7 + n"
  using length_fmt_fixed [of a 99999 5 n] by simp

lemma telemetry_fits:
  assumes "telem_bounded im g c f"
  shows "length (telemetry_json im g c f) < 512"
proof -
  have 4: "length (dec_digits (unat m)) \<le> 4" if "unat m < 10000" for m :: u32
    using length_dec_digits [of 4 "unat m"] that by simp
  have t: "length (fmt_int (g_throttle g)) \<le> 4"
    using assms length_dec_digits [of 4 "nat (g_throttle g)"] by (simp add: telem_bounded_def fmt_int_def nat_less_iff)
  have m: "length (dec_digits (unat (s_m_fl c))) \<le> 4" "length (dec_digits (unat (s_m_fr c))) \<le> 4"
    "length (dec_digits (unat (s_m_rl c))) \<le> 4" "length (dec_digits (unat (s_m_rr c))) \<le> 4"
    using assms by (auto simp: telem_bounded_def intro: 4)
  have b: "length (fmt_fixed 2 a) \<le> 9" "length (fmt_fixed 4 a) \<le> 11" if "fp_wf a \<and> fbounded a 99999" for a
    using length_fixed_bounded [OF that, of 2] length_fixed_bounded [OF that, of 4] by simp_all
  have l2:
    "length (fmt_fixed 2 (g_pitch_deg im)) \<le> 9" "length (fmt_fixed 2 (g_roll_deg im)) \<le> 9" "length (fmt_fixed 2 (g_yaw_rate im)) \<le> 9"
    "length (fmt_fixed 2 (g_pitch_sp g)) \<le> 9" "length (fmt_fixed 2 (g_roll_sp g)) \<le> 9" "length (fmt_fixed 2 (g_yaw_sp g)) \<le> 9"
    "length (fmt_fixed 2 (s_pitch_out c)) \<le> 9" "length (fmt_fixed 2 (s_roll_out c)) \<le> 9" "length (fmt_fixed 2 (s_yaw_out c)) \<le> 9"
    using assms by (auto simp: telem_bounded_def intro!: b(1))
  have l4:
    "length (fmt_fixed 4 (kp (pid_pitch f))) \<le> 11" "length (fmt_fixed 4 (ki (pid_pitch f))) \<le> 11" "length (fmt_fixed 4 (kd (pid_pitch f))) \<le> 11"
    "length (fmt_fixed 4 (kp (pid_roll f))) \<le> 11" "length (fmt_fixed 4 (ki (pid_roll f))) \<le> 11" "length (fmt_fixed 4 (kd (pid_roll f))) \<le> 11"
    "length (fmt_fixed 4 (kp (pid_yaw f))) \<le> 11" "length (fmt_fixed 4 (ki (pid_yaw f))) \<le> 11" "length (fmt_fixed 4 (kd (pid_yaw f))) \<le> 11"
    using assms by (auto simp: telem_bounded_def intro!: b(2))
  show ?thesis unfolding telemetry_json_def using l2 l4 t m by simp
qed

text \<open>
  Gains near the top of the binary32 range are accepted and make the packet longer than the
  buffer.
\<close>

definition huge_packet :: "axis \<Rightarrow> string" where
  "huge_packet a = ''{\"axis\":\"'' @ axis_name a @ ''\",\"kp\":3e38,\"ki\":3e38,\"kd\":3e38}''"

definition huge_gain :: fp where
  "huge_gain = FFin False 300000000549775575777803994281145270272"

definition huge :: "fp \<Rightarrow> bool" where
  "huge a = (case a of FFin s m \<Rightarrow> 10 ^ 38 \<le> m | _ \<Rightarrow> False)"

lemma length_fixed_huge: "huge a \<Longrightarrow> 44 \<le> length (fmt_fixed 4 a)"
  using length_fmt_fixed_lower [of 38 _ 4] by (cases a) (auto simp: huge_def)

lemma length_fixed_min: "3 \<le> length (fmt_fixed 2 a)"
proof (cases a)
  case (FFin s m)
  then show ?thesis by (simp add: Let_def pad_zeros_def)
qed auto

lemma telemetry_overflow:
  assumes "list_all huge [kp (pid_pitch f), ki (pid_pitch f), kd (pid_pitch f), kp (pid_roll f),
    ki (pid_roll f), kd (pid_roll f), kp (pid_yaw f), ki (pid_yaw f), kd (pid_yaw f)]"
  shows "512 < length (telemetry_json im g c f)"
proof -
  have l4:
    "44 \<le> length (fmt_fixed 4 (kp (pid_pitch f)))" "44 \<le> length (fmt_fixed 4 (ki (pid_pitch f)))" "44 \<le> length (fmt_fixed 4 (kd (pid_pitch f)))"
    "44 \<le> length (fmt_fixed 4 (kp (pid_roll f)))" "44 \<le> length (fmt_fixed 4 (ki (pid_roll f)))" "44 \<le> length (fmt_fixed 4 (kd (pid_roll f)))"
    "44 \<le> length (fmt_fixed 4 (kp (pid_yaw f)))" "44 \<le> length (fmt_fixed 4 (ki (pid_yaw f)))" "44 \<le> length (fmt_fixed 4 (kd (pid_yaw f)))"
    using assms by (auto intro!: length_fixed_huge)
  note l2 = length_fixed_min [of "g_pitch_deg im"] length_fixed_min [of "g_roll_deg im"]
    length_fixed_min [of "g_yaw_rate im"] length_fixed_min [of "g_pitch_sp g"]
    length_fixed_min [of "g_roll_sp g"] length_fixed_min [of "g_yaw_sp g"]
    length_fixed_min [of "s_pitch_out c"] length_fixed_min [of "s_roll_out c"]
    length_fixed_min [of "s_yaw_out c"]
  show ?thesis unfolding telemetry_json_def using l2 l4 by simp
qed

lemma strtof_3e38: "strtof ''3e38,\"ki\":3e38,\"kd\":3e38}'' = Some huge_gain"
  "strtof ''3e38,\"kd\":3e38}'' = Some huge_gain" "strtof ''3e38}'' = Some huge_gain"
  unfolding huge_gain_def by code_simp+

lemma huge_packet_gains: "apply_gains (huge_packet a) f = set_axis_gains a huge_gain huge_gain huge_gain f"
proof -
  have n: "\<not> huge_gain < 0" by (simp add: huge_gain_def zero_fp_def less_fp_def)
  have "json_get_str (huge_packet a) ''axis'' 16 = axis_name a"
    by (cases a) (simp_all add: huge_packet_def axis_name_def json_get_str_def after_strstr.simps)
  moreover have "json_get_float (huge_packet a) ''kp'' dv = huge_gain"
    "json_get_float (huge_packet a) ''ki'' dv = huge_gain"
    "json_get_float (huge_packet a) ''kd'' dv = huge_gain" for dv
    by (cases a; simp add: huge_packet_def axis_name_def json_get_float_def after_strstr.simps strtof_3e38)+
  ultimately show ?thesis using n by (simp add: apply_gains_def Let_def)
qed

section \<open>Packets through the whole handler\<close>

lemma gain_packet_no_nul: "c_string (gain_packet (axis_name a) p i d) = gain_packet (axis_name a) p i d"
proof -
  have "\<not> is_digit 10 CHR 0x00" by code_simp
  then have z: "CHR 0x00 \<notin> set (dec4 n)" for n using dec4_plain [of "CHR 0x00" n] by auto
  have "CHR 0x00 \<notin> set (gain_packet (axis_name a) p i d)"
    using z by (cases a) (simp_all add: gain_packet_def axis_name_def)
  then show ?thesis by (simp add: c_string_def takeWhile_eq_all_conv) metis
qed

lemma receive_gains:
  assumes "0 \<le> sock" "0 < n"
  shows "snd (telemetry_receive_pid_updates sock (n, bytes, src) (t, f)) = apply_gains (c_string (take (nat n) bytes)) f"
  using assms by (simp add: telemetry_receive_pid_updates_def)

lemma huge_three:
  "list_all huge [kp (pid_pitch f), ki (pid_pitch f), kd (pid_pitch f), kp (pid_roll f),
    ki (pid_roll f), kd (pid_roll f), kp (pid_yaw f), ki (pid_yaw f), kd (pid_yaw f)]"
  if "f = set_axis_gains Axis_Yaw huge_gain huge_gain huge_gain (set_axis_gains Axis_Roll huge_gain huge_gain huge_gain
    (set_axis_gains Axis_Pitch huge_gain huge_gain huge_gain f0))"
  unfolding that by (simp add: set_axis_gains_def pid_set_gains_def huge_def huge_gain_def)

section \<open>Properties\<close>



text \<open>
  Whatever bytes arrive, the handler either leaves the flight controller as it was or
  replaces the gains of one controller by numbers that are not negative: integrals, previous errors,
  limits and the time of the last update survive every packet.
\<close>

theorem any_packet:
  "snd (telemetry_receive_pid_updates sock rx (t, f)) = f \<or>
   (\<exists>ax p i d. \<not> p < 0 \<and> \<not> i < 0 \<and> \<not> d < 0 \<and>
      snd (telemetry_receive_pid_updates sock rx (t, f)) = set_axis_gains ax p i d f)"
proof -
  obtain n bytes src where "rx = (n, bytes, src)" by (cases rx)
  then show ?thesis
    using apply_gains_cases [of "c_string (take (nat n) bytes)" f]
    by (auto simp: telemetry_receive_pid_updates_def gain_ok_def)
qed

text \<open>
  The first datagram received on the open socket fixes the address telemetry
  is sent to; no later datagram changes it.
\<close>

theorem client_learned_once:
  fixes bytes src f
  assumes "0 \<le> sock" "0 < n" "\<not> s_client_set t"
  defines "s1 \<equiv> telemetry_receive_pid_updates sock (n, bytes, src) (t, f)"
  shows "s_client (fst s1) = src \<and> s_client_set (fst s1) \<and>
    fst (telemetry_receive_pid_updates sock' rx s1) = fst s1"
  using receive_registers [OF assms(1,2,3)] receive_client [of "fst s1" sock' rx "snd s1"] assms(1-3)
  by (simp add: s1_def telemetry_receive_pid_updates_def)

theorem client_learned_once_witness:
  "s_client (fst (telemetry_receive_pid_updates 3 (2, ''ab'', (9, 9))
     (telemetry_receive_pid_updates 3 (1, ''x'', (7, 8)) (telem_boot, flight_controller_init 0)))) = (7, 8)"
  using client_learned_once [of 3 1 telem_boot "''x''" "(7, 8)" "flight_controller_init 0" 3 "(2, ''ab'', (9, 9))"]
  by (simp add: telem_boot_def)

text \<open>
  With every reported float below 100000 in magnitude, pulses and throttle of
  at most four digits, the packet fits the 512-byte buffer: the client gets exactly the formatted
  text.
\<close>

theorem telemetry_fits_buffer:
  assumes "telem_bounded im g c f" "0 \<le> sock" "s_client_set t"
  shows "telemetry_send sock True True t im g c f = Sent (s_client t) (telemetry_json im g c f)"
  using telemetry_fits [OF assms(1)] assms(2,3) by (simp add: telemetry_send_def udp_payload_def)

theorem telemetry_fits_buffer_witness:
  "\<exists>p. telemetry_send 3 True True (telem_boot\<lparr>s_client_set := True\<rparr>) imu_boot setpoints_boot telem_cache_boot
     (flight_controller_init 0) = Sent (0, 0) p"
proof -
  have w: "fp_wf PID_PITCH_KP" "fp_wf PID_PITCH_KI" "fp_wf PID_PITCH_KD" "fp_wf PID_ROLL_KP" "fp_wf PID_ROLL_KI"
    "fp_wf PID_ROLL_KD" "fp_wf PID_YAW_KP" "fp_wf PID_YAW_KI" "fp_wf PID_YAW_KD"
    by (simp_all add: PID_PITCH_KP_def PID_PITCH_KI_def PID_PITCH_KD_def PID_ROLL_KP_def PID_ROLL_KI_def
        PID_ROLL_KD_def PID_YAW_KP_def PID_YAW_KI_def PID_YAW_KD_def)
  have b: "fbounded PID_PITCH_KP 99999" "fbounded PID_PITCH_KI 99999" "fbounded PID_PITCH_KD 99999"
    "fbounded PID_ROLL_KP 99999" "fbounded PID_ROLL_KI 99999" "fbounded PID_ROLL_KD 99999"
    "fbounded PID_YAW_KP 99999" "fbounded PID_YAW_KI 99999" "fbounded PID_YAW_KD 99999"
    by (simp_all add: config_simps fbounded_def)
  have "telem_bounded imu_boot setpoints_boot telem_cache_boot (flight_controller_init 0)"
    by (simp add: telem_bounded_def imu_boot_def setpoints_boot_def telem_cache_boot_def
        flight_controller_init_def fbounded_zero pid_init_def w b)
  from telemetry_fits_buffer [OF this, of 3 "telem_boot\<lparr>s_client_set := True\<rparr>"]
  show ?thesis by (simp add: telem_boot_def)
qed

text \<open>
  Three accepted packets, one per axis, with gains of 3e38 make the next
  telemetry packet longer than its buffer: \<open>sendto\<close> reads past the end of \<open>buf\<close>.
\<close>

theorem telemetry_overread:
  assumes "0 \<le> sock" "s_client_set t"
  shows "telemetry_send sock True True t im g c
      (apply_gains (huge_packet Axis_Yaw) (apply_gains (huge_packet Axis_Roll) (apply_gains (huge_packet Axis_Pitch) f)))
    = Overread"
  using telemetry_overflow [OF huge_three [OF refl], of im g c f] assms
  by (simp add: huge_packet_gains telemetry_send_def udp_payload_def)

theorem telemetry_overread_witness:
  "telemetry_send 3 True True (telem_boot\<lparr>s_client_set := True\<rparr>) imu_boot setpoints_boot telem_cache_boot
     (apply_gains (huge_packet Axis_Yaw) (apply_gains (huge_packet Axis_Roll)
       (apply_gains (huge_packet Axis_Pitch) (flight_controller_init 0)))) = Overread"
  by (rule telemetry_overread) simp_all

text \<open>
  The packet with the gain \<open>nan\<close> is accepted, since a NaN is not below zero, and the
  next flying update converts a NaN to an unsigned integer, which is undefined.
\<close>

theorem nan_gain:
  assumes "1200 < throttle" "0 \<le> sock" "bytes = ''{\"axis\":\"pitch\",\"kp\":nan,\"ki\":0,\"kd\":0}''"
  shows "flight_controller_update throttle psp rsp ysp p r y now
    (w\<lparr>fcs := snd (telemetry_receive_pid_updates sock (int (length bytes), bytes, src) (t, fcs w))\<rparr>) = None"
proof -
  have "c_string bytes = bytes" by (simp add: assms(3) c_string_def)
  moreover have "0 < int (length bytes)" by (simp add: assms(3))
  ultimately have "snd (telemetry_receive_pid_updates sock (int (length bytes), bytes, src) (t, fcs w)) =
      apply_gains bytes (fcs w)"
    using receive_gains [OF assms(2)] by simp
  then show ?thesis using nan_gain_undefined [OF _ assms(1)] nan_packet by (simp add: assms(3))
qed

theorem nan_gain_witness:
  "flight_controller_update 1250 0 0 0 0 0 0 20000
    \<lparr>fcs = snd (telemetry_receive_pid_updates 3 (39, ''{\"axis\":\"pitch\",\"kp\":nan,\"ki\":0,\"kd\":0}'', (1, 2))
       (telem_boot, flight_controller_init 0)), escs = esc_boot, cache = telem_cache_boot\<rparr> = None"
  using nan_gain [of 1250 3 _ 0 0 0 0 0 0 20000 "(1, 2)" telem_boot
      "\<lparr>fcs = flight_controller_init 0, escs = esc_boot, cache = telem_cache_boot\<rparr>"]
  by simp

end
