(* ===== verification/Wifi_Server.thy ===== *)
theory Wifi_Server
  imports Config
begin

text \<open>
  components/telemetry/wifi_server.c: the WiFi access point and the UDP socket.  The SDK calls are
  values of \<open>wifi_op\<close>, recorded in order, and their results are a parameter, a function of the
  history.  The lemmas show what a successful initialisation has done, that every failure after the
  socket was created leaves no socket behind, and that the module never knows a client.
\<close>

section \<open>State and operations\<close>

datatype wifi_op =
    Netif_Init
  | Event_Loop_Create
  | Create_Wifi_Ap
  | Wifi_Init
  | Handler_Register
  | Set_Mode_Ap
  | Set_Config string string int int
  | Wifi_Start
  | Socket_Udp
  | Fcntl_Get int
  | Fcntl_Set int int
  | Bind_Port int int
  | Close_Sock int

record wifi =
  s_sock :: int
  s_client_addr :: "u32 \<times> u16"
  s_client_known :: bool
  wifi_calls :: "wifi_op list"

definition wifi_boot :: wifi where
  "wifi_boot = \<lparr>s_sock = - 1, s_client_addr = (0, 0), s_client_known = False, wifi_calls = []\<rparr>"

definition WIFI_SSID :: string where "WIFI_SSID = ''esp32drone''"
definition WIFI_PASSWORD :: string where "WIFI_PASSWORD = ''quadcopter''"

text \<open>\<open>esp_netif_create_default_wifi_ap\<close> is called without a check; it counts as passed.\<close>

definition wifi_err :: "(wifi_op list \<Rightarrow> int) \<Rightarrow> wifi_op list \<Rightarrow> int" where
  "wifi_err resp h = (case last h of Create_Wifi_Ap \<Rightarrow> ESP_OK | _ \<Rightarrow> resp h)"

definition wifi_start_ops :: "wifi_op list" where
  "wifi_start_ops = [Netif_Init, Event_Loop_Create, Create_Wifi_Ap, Wifi_Init, Handler_Register,
     Set_Mode_Ap, Set_Config WIFI_SSID WIFI_PASSWORD 1 1, Wifi_Start]"

text \<open>\<open>nonblock flags\<close> is \<open>flags | O_NONBLOCK\<close>, an operation of the platform's flag encoding.\<close>

definition wifi_server_init ::
  "(wifi_op list \<Rightarrow> int) \<Rightarrow> (int \<Rightarrow> int) \<Rightarrow> wifi \<Rightarrow> wifi \<times> outcome" where
  "wifi_server_init resp nonblock w =
     (case esp_checked (wifi_err resp) (wifi_calls w) wifi_start_ops of
        (h, False) \<Rightarrow> (w\<lparr>wifi_calls := h\<rparr>, Aborts)
      | (h, True) \<Rightarrow>
          (let h1 = h @ [Socket_Udp]; sock = resp h1 in
           if sock < 0 then (w\<lparr>wifi_calls := h1, s_sock := sock\<rparr>, Returns ESP_FAIL)
           else let h2 = h1 @ [Fcntl_Get sock]; flags = resp h2;
                    h3 = h2 @ [Fcntl_Set sock (nonblock flags)];
                    h4 = h3 @ [Bind_Port sock TELEMETRY_PORT] in
             if resp h4 < 0 then
               (w\<lparr>wifi_calls := h4 @ [Close_Sock sock], s_sock := - 1\<rparr>, Returns ESP_FAIL)
             else (w\<lparr>wifi_calls := h4, s_sock := sock, s_client_addr := (0, 0)\<rparr>, Returns ESP_OK)))"

datatype wifi_event = Sta_Connected | Sta_Disconnected | Other_Event

definition wifi_event_handler :: "wifi_event \<Rightarrow> wifi \<Rightarrow> wifi" where
  "wifi_event_handler ev w =
     (case ev of Sta_Connected \<Rightarrow> w | Sta_Disconnected \<Rightarrow> w\<lparr>s_client_known := False\<rparr> | Other_Event \<Rightarrow> w)"

definition wifi_server_get_sock :: "wifi \<Rightarrow> int" where
  "wifi_server_get_sock w = s_sock w"

definition wifi_server_get_client_addr :: "wifi \<Rightarrow> (u32 \<times> u16) option" where
  "wifi_server_get_client_addr w = (if s_client_known w then Some (s_client_addr w) else None)"

section \<open>Facts\<close>

lemma wifi_init_returns:
  "wifi_server_init resp nonblock w = (w', Returns r) \<Longrightarrow>
   \<exists>rest. wifi_calls w' = wifi_calls w @ wifi_start_ops @ Socket_Udp # rest \<and> (r = ESP_OK \<longleftrightarrow> 0 \<le> s_sock w')"
  by (auto simp: wifi_server_init_def Let_def split: prod.splits bool.splits if_splits
      dest!: esp_checked_True)

lemma wifi_init_ok:
  assumes "wifi_server_init resp nonblock w = (w', Returns 0)"
  shows "\<exists>flags. wifi_calls w' = wifi_calls w @ wifi_start_ops @
     [Socket_Udp, Fcntl_Get (s_sock w'), Fcntl_Set (s_sock w') (nonblock flags),
      Bind_Port (s_sock w') 4444]"
  using assms
  by (auto simp: wifi_server_init_def Let_def TELEMETRY_PORT_def split: prod.splits bool.splits if_splits
      dest!: esp_checked_True)

text \<open>The sockets opened and not closed, read off the history with the newest call first.\<close>

definition leaked :: "wifi_op list \<Rightarrow> int \<Rightarrow> bool" where
  "leaked h sock \<longleftrightarrow> Bind_Port sock TELEMETRY_PORT \<in> set h \<and> Close_Sock sock \<notin> set h"

lemma wifi_init_fail_closed:
  assumes "wifi_server_init resp nonblock wifi_boot = (w', Returns r)" "r \<noteq> 0"
  shows "\<not> leaked (wifi_calls w') sock \<and> s_sock w' < 0"
  using assms
  by (auto simp: wifi_server_init_def Let_def leaked_def wifi_boot_def wifi_start_ops_def
      split: prod.splits bool.splits if_splits dest!: esp_checked_True)

text \<open>No operation sets \<open>s_client_known\<close>: the address of the client is never available here.\<close>

inductive wifi_reach :: "wifi \<Rightarrow> bool" where
  wifi_start: "wifi_reach wifi_boot"
| wifi_run_init: "wifi_reach w \<Longrightarrow> wifi_reach (fst (wifi_server_init resp nonblock w))"
| wifi_event: "wifi_reach w \<Longrightarrow> wifi_reach (wifi_event_handler ev w)"

lemma init_client_known: "s_client_known (fst (wifi_server_init resp nonblock w)) = s_client_known w"
  by (auto simp: wifi_server_init_def Let_def split: prod.splits bool.splits)

lemma client_unknown: "wifi_reach w \<Longrightarrow> \<not> s_client_known w"
proof (induction rule: wifi_reach.induct)
  case (wifi_event w ev)
  then show ?case by (cases ev) (simp_all add: wifi_event_handler_def)
qed (simp_all add: wifi_boot_def init_client_known)

section \<open>Properties\<close>

text \<open>
  If the initialisation returns \<open>ESP_OK\<close>, the socket is open, was made
  non-blocking and then bound to the telemetry port, after the whole access-point sequence; if it
  returns an error, the module has no socket and every socket it tried to bind has been closed.
\<close>

theorem wifi_fail_closed:
  assumes "wifi_server_init resp nonblock wifi_boot = (w', Returns r)"
  shows "if r = ESP_OK then 0 \<le> s_sock w' \<and> (\<exists>flags. wifi_calls w' = wifi_start_ops @
        [Socket_Udp, Fcntl_Get (s_sock w'), Fcntl_Set (s_sock w') (nonblock flags), Bind_Port (s_sock w') 4444])
    else s_sock w' < 0 \<and> (\<forall>sock. \<not> leaked (wifi_calls w') sock)"
proof (cases "r = ESP_OK")
  case True
  then show ?thesis
    using wifi_init_ok [of resp nonblock wifi_boot w'] wifi_init_returns [OF assms] assms
    by (simp add: wifi_boot_def)
next
  case False
  then show ?thesis using wifi_init_fail_closed [OF assms] by simp
qed

theorem wifi_fail_closed_witness:
  "s_sock (fst (wifi_server_init (\<lambda>h. if last h = Bind_Port 54 4444 then - 1 else if last h = Socket_Udp then 54 else 0)
     id wifi_boot)) < 0"
proof -
  let ?ans = "\<lambda>h. if last h = Bind_Port 54 4444 then - 1 else if last h = Socket_Udp then 54 else (0 :: int)"
  have "wifi_server_init ?ans id wifi_boot = (fst (wifi_server_init ?ans id wifi_boot), Returns ESP_FAIL)"
    by code_simp
  from wifi_fail_closed [OF this] show ?thesis by simp
qed

text \<open>
  Whatever WiFi events arrive and however often the module is initialised,
  \<open>wifi_server_get_client_addr\<close> returns NULL: the address its header promises after the first packet
  is never stored.
\<close>

theorem client_never_known:
  assumes "wifi_reach w"
  shows "wifi_server_get_client_addr w = None"
  using client_unknown [OF assms] by (simp add: wifi_server_get_client_addr_def)

theorem client_never_known_witness:
  "wifi_server_get_client_addr (wifi_event_handler Sta_Connected wifi_boot) = None"
  by (rule client_never_known) (intro wifi_reach.intros)

end
