(* ===== verification/Main_Tasks.thy ===== *)
theory Main_Tasks
  imports Kalman Mpu6050 Telemetry Wifi_Server
begin

text \<open>
  main/main.c: the start-up sequence and the tasks.  One iteration of \<open>imu_task\<close> and of
  \<open>flight_ctrl_task\<close> is a function of the clock, the results of the mutex takes and the shared
  state.  The system is a step function over events: an iteration of the flight task is three
  events (its two critical sections and the rest), a telemetry send likewise, so that the other
  tasks can run in between; a critical section itself is atomic, which theory Mutex_Protocol
  justifies.

  The event conditions (\<open>event_fine\<close>) are: gamepad axes in the documented range, a published
  attitude that is not a NaN, gains of received packets bounded by \<open>2 ^ 60\<close>.  The invariant of
  the reachable states then gives that no event is undefined and that the motors always carry a
  pulse the ESCs accept.
\<close>

section \<open>The IMU task\<close>

record imu_task_state =
  kf_pitch :: "fp kalman_state"
  kf_roll :: "fp kalman_state"
  imu_last_us :: u32
  imu_bus :: "i2c_op list"
  imu_raw :: mpu6050_data

text \<open>The structure \<open>raw\<close> is uninitialised before the first read: its value is an argument.\<close>

definition imu_task_start :: "u32 \<Rightarrow> i2c_op list \<Rightarrow> mpu6050_data \<Rightarrow> imu_task_state" where
  "imu_task_start now h raw =
     \<lparr>kf_pitch = kalman_init, kf_roll = kalman_init, imu_last_us = now, imu_bus = h, imu_raw = raw\<rparr>"

text \<open>
  Lines 67 to 89.  The pitch angle goes through \<open>kf_roll\<close> and the roll angle through \<open>kf_pitch\<close>,
  as in the code.
\<close>

definition imu_iteration ::
  "(fp \<Rightarrow> fp \<Rightarrow> fp) \<Rightarrow> i2c_resp \<Rightarrow> u32 \<Rightarrow> bool \<Rightarrow> imu_task_state \<times> imu_state \<Rightarrow> imu_task_state \<times> imu_state"
  where
  "imu_iteration atan2f resp now took s = (case s of (t, g) \<Rightarrow>
     (let dt = loop_dt now (imu_last_us t) in
      case mpu6050_read atan2f resp (imu_bus t) (imu_raw t) of (h, err, raw) \<Rightarrow>
        let t1 = t\<lparr>imu_last_us := now, imu_bus := h, imu_raw := raw\<rparr> in
        if err \<noteq> ESP_OK then (t1, g)
        else
          let (kr, pitch) = kalman_update (kf_roll t) (accel_angle_pitch raw) (gyro_x_dps raw) dt;
              (kp', roll) = kalman_update (kf_pitch t) (accel_angle_roll raw) (gyro_y_dps raw) dt
          in (t1\<lparr>kf_roll := kr, kf_pitch := kp'\<rparr>,
              if took then g\<lparr>g_pitch_deg := pitch - IMU_PITCH_OFFSET_DEG,
                             g_roll_deg := roll - IMU_ROLL_OFFSET_DEG,
                             g_yaw_rate := gyro_z_dps raw\<rparr>
              else g)))"

section \<open>The flight task\<close>

definition angle_exceeded :: "fp \<Rightarrow> fp \<Rightarrow> bool" where
  "angle_exceeded pitch roll \<longleftrightarrow>
     ANGLE_LIMIT_DEG < pitch \<or> pitch < - ANGLE_LIMIT_DEG \<or>
     ANGLE_LIMIT_DEG < roll \<or> roll < - ANGLE_LIMIT_DEG"

definition motors_off :: "flight \<Rightarrow> flight" where
  "motors_off w = w\<lparr>escs := esc_set_all_us (word_of_int ESC_PWM_ARM_US) (escs w),
     fcs := flight_controller_reset_integrals (fcs w)\<rparr>"

text \<open>Lines 129 to 151, given the two snapshots.\<close>

definition flight_act :: "imu_state \<Rightarrow> setpoints \<Rightarrow> u32 \<Rightarrow> flight \<Rightarrow> flight option" where
  "flight_act im g now w =
     (if g_motors_killed g \<noteq> 0 then Some (motors_off w)
      else if angle_exceeded (g_pitch_deg im) (g_roll_deg im) then Some (motors_off w)
      else
        let w1 = (if g_throttle g \<le> ESC_PWM_SPIN_US
                  then w\<lparr>fcs := flight_controller_reset_integrals (fcs w)\<rparr> else w)
        in flight_controller_update (g_throttle g) (g_pitch_sp g) (g_roll_sp g) (g_yaw_sp g)
             (g_pitch_deg im) (g_roll_deg im) (g_yaw_rate im) now w1)"

text \<open>A whole iteration: a failed take of either mutex skips it.\<close>

definition flight_iteration ::
  "bool \<Rightarrow> bool \<Rightarrow> imu_state \<Rightarrow> setpoints \<Rightarrow> u32 \<Rightarrow> flight \<Rightarrow> flight option" where
  "flight_iteration took_imu took_sp im g now w =
     (if \<not> took_imu then Some w else if \<not> took_sp then Some w else flight_act im g now w)"

section \<open>The flight task: facts\<close>

lemma motors_off_idle:
  "esc_inv (escs w) \<Longrightarrow> all_motors_at 1000 (escs (motors_off w)) \<and> esc_inv (escs (motors_off w))"
  by (simp add: motors_off_def all_motors_at_set_all inv_intros)

lemma motors_off_inv [inv_intros]: "flight_inv w \<Longrightarrow> flight_inv (motors_off w)"
  by (simp add: flight_inv_def motors_off_def inv_intros)

lemma flight_act_killed: "g_motors_killed g \<noteq> 0 \<Longrightarrow> flight_act im g now w = Some (motors_off w)"
  by (simp add: flight_act_def)

lemma flight_act_tilted:
  "angle_exceeded (g_pitch_deg im) (g_roll_deg im) \<Longrightarrow> flight_act im g now w = Some (motors_off w)"
  by (simp add: flight_act_def)

lemma angle_bounded:
  assumes "\<not> angle_exceeded p r" "\<not> is_nan p" "\<not> is_nan r"
  shows "fbounded p 45 \<and> fbounded r 45"
proof -
  have l: "is_finite ANGLE_LIMIT_DEG" "fvalue ANGLE_LIMIT_DEG = 45" by (simp_all add: config_simps)
  have "fvalue (- ANGLE_LIMIT_DEG) \<le> fvalue a \<and> fvalue a \<le> fvalue ANGLE_LIMIT_DEG \<and> is_finite a"
    if "\<not> is_nan a" "\<not> ANGLE_LIMIT_DEG < a" "\<not> a < - ANGLE_LIMIT_DEG" for a
    using fp_between [of a "- ANGLE_LIMIT_DEG" ANGLE_LIMIT_DEG] that l by simp
  from this [of p] this [of r] show ?thesis
    using assms l by (auto simp: angle_exceeded_def fbounded_def abs_le_iff)
qed

definition imu_fine :: "imu_state \<Rightarrow> bool" where
  "imu_fine im \<longleftrightarrow> \<not> is_nan (g_pitch_deg im) \<and> \<not> is_nan (g_roll_deg im) \<and> fbounded (g_yaw_rate im) (2 ^ 10)"

lemma flight_act_inv:
  assumes inv: "flight_inv w" and g: "setpoints_ok g" and im: "imu_fine im"
  shows "\<exists>w'. flight_act im g now w = Some w' \<and> flight_inv w'"
proof (cases "g_motors_killed g \<noteq> 0 \<or> angle_exceeded (g_pitch_deg im) (g_roll_deg im)")
  case True
  then show ?thesis using inv by (auto simp: flight_act_def inv_intros)
next
  case False
  let ?w1 = "if g_throttle g \<le> 1200 then w\<lparr>fcs := flight_controller_reset_integrals (fcs w)\<rparr> else w"
  have w1: "flight_inv ?w1" using inv by (simp add: flight_inv_def inv_intros)
  have a: "fbounded (g_pitch_deg im) 45" "fbounded (g_roll_deg im) 45"
    using angle_bounded False im by (auto simp: imu_fine_def)
  have "\<exists>w'. flight_controller_update (g_throttle g) (g_pitch_sp g) (g_roll_sp g) (g_yaw_sp g)
      (g_pitch_deg im) (g_roll_deg im) (g_yaw_rate im) now ?w1 = Some w' \<and> flight_inv w'"
    using g im a
    by (intro update_inv [OF w1]) (auto simp: setpoints_ok_def imu_fine_def intro: within_weaken)
  then show ?thesis using False by (simp add: flight_act_def)
qed

text \<open>The yaw rate the IMU task publishes is bounded whatever the device returns.\<close>

lemma published_yaw_bounded: "fbounded (gyro_z_dps (mpu6050_convert f raw)) (2 ^ 10)"
  using gyro_bounded [of "raw ! 8" "raw ! 9"] by (auto simp: convert_fields fbounded_def)

lemma imu_iteration_yaw:
  "fbounded (g_yaw_rate g) (2 ^ 10) \<Longrightarrow>
   fbounded (g_yaw_rate (snd (imu_iteration f resp now took (t, g)))) (2 ^ 10)"
  using published_yaw_bounded
  by (auto simp: imu_iteration_def mpu6050_read_def Let_def split: prod.splits)

section \<open>The system\<close>

datatype fc_pc = Fc_Wait | Fc_Imu imu_state | Fc_Both imu_state setpoints

datatype tm_pc = Tm_Wait | Tm_Imu imu_state | Tm_Both imu_state setpoints

record sys =
  sy_imu_task :: imu_task_state
  sy_imu :: imu_state
  sy_ctl :: "ctrl \<times> setpoints"
  sy_flight :: flight
  sy_telem :: telem
  sy_sock :: int
  sy_fc_pc :: fc_pc
  sy_tm_pc :: tm_pc
  sy_sent :: "send_result list"

datatype event =
    Imu_Tick u32 bool
  | Fc_Take_Imu bool
  | Fc_Take_Sp bool
  | Fc_Act u32
  | Ctl bool uni_event
  | Tm_Start bool
  | Tm_Take_Sp bool
  | Tm_Send
  | Tm_Receive "int \<times> string \<times> sockaddr"

type_synonym env = "(fp \<Rightarrow> fp \<Rightarrow> fp) \<times> i2c_resp"

definition sys_step :: "env \<Rightarrow> event \<Rightarrow> sys \<Rightarrow> sys option" where
  "sys_step e ev s = (case ev of
     Imu_Tick now took \<Rightarrow>
       (let (t, g) = imu_iteration (fst e) (snd e) now took (sy_imu_task s, sy_imu s)
        in Some (s\<lparr>sy_imu_task := t, sy_imu := g\<rparr>))
   | Fc_Take_Imu took \<Rightarrow>
       Some (if sy_fc_pc s = Fc_Wait \<and> took then s\<lparr>sy_fc_pc := Fc_Imu (sy_imu s)\<rparr> else s)
   | Fc_Take_Sp took \<Rightarrow>
       (case sy_fc_pc s of
          Fc_Imu im \<Rightarrow> Some (s\<lparr>sy_fc_pc := (if took then Fc_Both im (snd (sy_ctl s)) else Fc_Wait)\<rparr>)
        | _ \<Rightarrow> Some s)
   | Fc_Act now \<Rightarrow>
       (case sy_fc_pc s of
          Fc_Both im g \<Rightarrow>
            do { w \<leftarrow> flight_act im g now (sy_flight s); Some (s\<lparr>sy_flight := w, sy_fc_pc := Fc_Wait\<rparr>) }
        | _ \<Rightarrow> Some s)
   | Ctl took u \<Rightarrow> do { c \<leftarrow> s_platform took u (sy_ctl s); Some (s\<lparr>sy_ctl := c\<rparr>) }
   | Tm_Start took \<Rightarrow>
       Some (if sy_tm_pc s = Tm_Wait \<and> \<not> (sy_sock s < 0 \<or> \<not> s_client_set (sy_telem s)) \<and> took
             then s\<lparr>sy_tm_pc := Tm_Imu (sy_imu s)\<rparr> else s)
   | Tm_Take_Sp took \<Rightarrow>
       (case sy_tm_pc s of
          Tm_Imu im \<Rightarrow> Some (s\<lparr>sy_tm_pc := (if took then Tm_Both im (snd (sy_ctl s)) else Tm_Wait)\<rparr>)
        | _ \<Rightarrow> Some s)
   | Tm_Send \<Rightarrow>
       (case sy_tm_pc s of
          Tm_Both im g \<Rightarrow> Some (s\<lparr>sy_tm_pc := Tm_Wait, sy_sent := sy_sent s @
              [telemetry_send (sy_sock s) True True (sy_telem s) im g (cache (sy_flight s)) (fcs (sy_flight s))]\<rparr>)
        | _ \<Rightarrow> Some s)
   | Tm_Receive rx \<Rightarrow>
       (let (t, f) = telemetry_receive_pid_updates (sy_sock s) rx (sy_telem s, fcs (sy_flight s))
        in Some (s\<lparr>sy_telem := t, sy_flight := (sy_flight s)\<lparr>fcs := f\<rparr>\<rparr>)))"

fun sys_run :: "env \<Rightarrow> event list \<Rightarrow> sys \<Rightarrow> sys option" where
  "sys_run e [] s = Some s"
| "sys_run e (ev # evs) s = Option.bind (sys_step e ev s) (sys_run e evs)"

text \<open>The state after start-up, when the tasks begin.\<close>

definition sys_start :: "u32 \<Rightarrow> u32 \<Rightarrow> i2c_op list \<Rightarrow> mpu6050_data \<Rightarrow> esc \<Rightarrow> int \<Rightarrow> sys" where
  "sys_start now1 now2 h raw e sock =
     \<lparr>sy_imu_task = imu_task_start now1 h raw, sy_imu = imu_boot, sy_ctl = (ctrl_boot, setpoints_boot),
      sy_flight = \<lparr>fcs = flight_controller_init now2, escs = e, cache = telem_cache_boot\<rparr>,
      sy_telem = telem_boot, sy_sock = sock, sy_fc_pc = Fc_Wait, sy_tm_pc = Tm_Wait, sy_sent = []\<rparr>"

section \<open>The invariant of the reachable states\<close>

definition event_fine :: "env \<Rightarrow> sys \<Rightarrow> event \<Rightarrow> bool" where
  "event_fine e s ev = (case ev of
     Imu_Tick now took \<Rightarrow>
       (let g = snd (imu_iteration (fst e) (snd e) now took (sy_imu_task s, sy_imu s))
        in \<not> is_nan (g_pitch_deg g) \<and> \<not> is_nan (g_roll_deg g))
   | Ctl took u \<Rightarrow> event_ok u
   | Tm_Receive rx \<Rightarrow>
       (let f = snd (telemetry_receive_pid_updates (sy_sock s) rx (sy_telem s, fcs (sy_flight s)))
        in gains_bounded (pid_pitch f) \<and> gains_bounded (pid_roll f) \<and> gains_bounded (pid_yaw f))
   | _ \<Rightarrow> True)"

inductive sys_reach :: "env \<Rightarrow> sys \<Rightarrow> bool" for e where
  reach_start: "esc_inv x \<Longrightarrow> sys_reach e (sys_start now1 now2 h raw x sock)"
| reach_step: "sys_reach e s \<Longrightarrow> event_fine e s ev \<Longrightarrow> sys_step e ev s = Some s' \<Longrightarrow> sys_reach e s'"

definition pc_fine :: "fc_pc \<Rightarrow> bool" where
  "pc_fine p = (case p of Fc_Wait \<Rightarrow> True | Fc_Imu im \<Rightarrow> imu_fine im
     | Fc_Both im g \<Rightarrow> imu_fine im \<and> setpoints_ok g)"

definition sys_inv :: "sys \<Rightarrow> bool" where
  "sys_inv s \<longleftrightarrow> imu_fine (sy_imu s) \<and> ctrl_ok (sy_ctl s) \<and> flight_inv (sy_flight s) \<and> pc_fine (sy_fc_pc s)"

lemma sys_inv_start: "esc_inv x \<Longrightarrow> sys_inv (sys_start now1 now2 h raw x sock)"
  by (simp add: sys_inv_def sys_start_def imu_fine_def imu_boot_def is_nan_def zero_fp_def
      fbounded_def ctrl_ok_boot [unfolded zero_fp_def] flight_inv_def fc_sane_init pc_fine_def)

lemma gains_keep_sane:
  assumes "fc_sane f" "gains_bounded (pid_pitch (apply_gains b f))"
    "gains_bounded (pid_roll (apply_gains b f))" "gains_bounded (pid_yaw (apply_gains b f))"
  shows "fc_sane (apply_gains b f)"
proof -
  have s: "pid_sane (pid_set_gains q p i d)" if "pid_sane q" "gains_bounded (pid_set_gains q p i d)"
    for q p i d
    using that by (auto simp: pid_sane_def pid_ok_def)
  have "fc_sane (set_axis_gains ax p i d f)"
    if "gains_bounded (pid_pitch (set_axis_gains ax p i d f))"
      "gains_bounded (pid_roll (set_axis_gains ax p i d f))"
      "gains_bounded (pid_yaw (set_axis_gains ax p i d f))" for ax p i d
    using assms(1) that s by (cases ax) (auto simp: fc_sane_def set_axis_gains_def)
  then show ?thesis using apply_gains_cases [of b f] assms by auto
qed

text \<open>One event from a good state: it is defined and leads to a good state.\<close>

lemma sys_step_inv:
  assumes inv: "sys_inv s" and fine: "event_fine e s ev"
  shows "\<exists>s'. sys_step e ev s = Some s' \<and> sys_inv s'"
proof (cases ev)
  case (Imu_Tick now took)
  obtain t g where tg: "imu_iteration (fst e) (snd e) now took (sy_imu_task s, sy_imu s) = (t, g)" by fastforce
  then have "fbounded (g_yaw_rate g) (2 ^ 10)"
    using imu_iteration_yaw [of "sy_imu s" "fst e" "snd e" now took "sy_imu_task s"] inv
    by (simp add: sys_inv_def imu_fine_def)
  then show ?thesis using inv fine Imu_Tick tg
    by (simp add: sys_step_def sys_inv_def event_fine_def imu_fine_def)
next
  case (Fc_Act now)
  show ?thesis
  proof (cases "sy_fc_pc s")
    case (Fc_Both im g)
    then obtain w where "flight_act im g now (sy_flight s) = Some w" "flight_inv w"
      using inv flight_act_inv [of "sy_flight s" g im now] by (auto simp: sys_inv_def pc_fine_def)
    then show ?thesis using inv Fc_Act Fc_Both by (simp add: sys_step_def sys_inv_def pc_fine_def)
  qed (use inv Fc_Act in \<open>simp_all add: sys_step_def\<close>)
next
  case (Ctl took u)
  then obtain c where "s_platform took u (sy_ctl s) = Some c" "ctrl_ok c"
    using inv fine ctrl_ok_event [of "sy_ctl s" u took] by (auto simp: sys_inv_def event_fine_def)
  then show ?thesis using inv Ctl by (simp add: sys_step_def sys_inv_def)
next
  case (Tm_Receive rx)
  obtain n bytes src where rx: "rx = (n, bytes, src)" by (cases rx)
  have "fc_sane (snd (telemetry_receive_pid_updates (sy_sock s) rx (sy_telem s, fcs (sy_flight s))))"
    using inv fine Tm_Receive rx gains_keep_sane
    by (auto simp: telemetry_receive_pid_updates_def sys_inv_def flight_inv_def event_fine_def Let_def)
  then show ?thesis using inv Tm_Receive
    by (simp add: sys_step_def sys_inv_def flight_inv_def case_prod_beta)
qed (use inv in \<open>auto simp: sys_step_def sys_inv_def pc_fine_def ctrl_ok_def split: fc_pc.splits tm_pc.splits\<close>)

lemma reach_inv: "sys_reach e s \<Longrightarrow> sys_inv s"
proof (induction rule: sys_reach.induct)
  case (reach_step s ev s')
  then show ?case using sys_step_inv [of s e ev] by auto
qed (rule sys_inv_start)

text \<open>Without interleaving the three events are one iteration of the task.\<close>

lemma fc_events_iteration:
  assumes "sy_fc_pc s = Fc_Wait"
  shows "sys_run e [Fc_Take_Imu took_imu, Fc_Take_Sp took_sp, Fc_Act now] s =
    map_option (\<lambda>w. s\<lparr>sy_flight := w\<rparr>)
      (flight_iteration took_imu took_sp (sy_imu s) (snd (sy_ctl s)) now (sy_flight s))"
  using assms
  by (cases took_imu; cases took_sp; cases "flight_act (sy_imu s) (snd (sy_ctl s)) now (sy_flight s)")
    (simp_all add: sys_step_def flight_iteration_def)

section \<open>The kill switch\<close>

text \<open>
  The kill flag is set by the X button and by a disconnection, when the mutex take succeeds, and
  cleared by the next ordinary frame.  An iteration of the flight task that took its snapshot
  before the kill still acts on it; from the next snapshot on the motors are idle until an
  ordinary frame arrives.
\<close>

definition ordinary_frame :: "event \<Rightarrow> bool" where
  "ordinary_frame ev = (case ev of Ctl took (Ev_Data gp) \<Rightarrow> \<not> has_flag (buttons gp) BUTTON_X | _ \<Rightarrow> False)"

definition kill_event :: "event \<Rightarrow> bool" where
  "kill_event ev = (case ev of Ctl took (Ev_Data gp) \<Rightarrow> took \<and> has_flag (buttons gp) BUTTON_X
     | Ctl took Ev_Disconnected \<Rightarrow> took | _ \<Rightarrow> False)"

definition killed :: "sys \<Rightarrow> bool" where
  "killed s \<longleftrightarrow> g_motors_killed (snd (sy_ctl s)) \<noteq> 0"

definition kill_seen :: "sys \<Rightarrow> bool" where
  "kill_seen s \<longleftrightarrow> killed s \<and> (case sy_fc_pc s of Fc_Both im g \<Rightarrow> g_motors_killed g \<noteq> 0 | _ \<Rightarrow> True)"

definition motors_idle :: "sys \<Rightarrow> bool" where
  "motors_idle s \<longleftrightarrow> all_motors_at 1000 (escs (sy_flight s))"

lemma kill_event_kills: "kill_event ev \<Longrightarrow> sys_step e ev s = Some s' \<Longrightarrow> killed s'"
  by (auto simp: kill_event_def killed_def sys_step_def s_platform_def on_gamepad_data_def
      on_disconnected_def safe_setpoints_def split: event.splits uni_event.splits prod.splits)

lemma killed_ctl:
  assumes "\<not> ordinary_frame (Ctl took u)" "s_platform took u c = Some c'" "g_motors_killed (snd c) \<noteq> 0"
  shows "g_motors_killed (snd c') \<noteq> 0"
  using assms
  by (auto simp: ordinary_frame_def s_platform_def on_gamepad_data_def on_disconnected_def
      safe_setpoints_def split: uni_event.splits prod.splits if_splits)

lemma flight_act_escs_inv:
  "flight_act im g now w = Some w' \<Longrightarrow> esc_inv (escs w) \<Longrightarrow> esc_inv (escs w')"
  by (auto simp: flight_act_def Let_def motors_off_def inv_intros split: if_splits dest: update_esc_inv)

definition idle_kill :: "sys \<Rightarrow> bool" where
  "idle_kill s \<longleftrightarrow> kill_seen s \<and> motors_idle s \<and> esc_inv (escs (sy_flight s))"

lemma idle_kill_step:
  assumes k: "idle_kill s" and o: "\<not> ordinary_frame ev" and st: "sys_step e ev s = Some s'"
  shows "idle_kill s'"
proof (cases ev)
  case (Fc_Act now)
  then show ?thesis using k st motors_off_idle [of "sy_flight s"]
    by (auto simp: idle_kill_def kill_seen_def killed_def motors_idle_def sys_step_def flight_act_killed
        split: fc_pc.splits)
next
  case (Ctl took u)
  then obtain c where "s_platform took u (sy_ctl s) = Some c" "s' = s\<lparr>sy_ctl := c\<rparr>"
    using st by (auto simp: sys_step_def bind_eq_Some_conv)
  then show ?thesis using k o Ctl killed_ctl [of took u "sy_ctl s" c]
    by (simp add: idle_kill_def kill_seen_def killed_def motors_idle_def)
qed (use k st in \<open>auto simp: idle_kill_def kill_seen_def killed_def motors_idle_def sys_step_def
       case_prod_beta split: if_splits fc_pc.splits tm_pc.splits\<close>)

lemma idle_kill_run:
  "idle_kill s \<Longrightarrow> list_all (\<lambda>ev. \<not> ordinary_frame ev) evs \<Longrightarrow> sys_run e evs s = Some s' \<Longrightarrow> idle_kill s'"
proof (induction evs arbitrary: s)
  case (Cons ev evs)
  then obtain s1 where "sys_step e ev s = Some s1" "sys_run e evs s1 = Some s'"
    by (auto simp: bind_eq_Some_conv)
  then show ?case using Cons.IH [of s1] Cons.prems idle_kill_step [of s ev e s1] by simp
qed simp

lemma sys_run_append: "sys_run e (xs @ ys) q = Option.bind (sys_run e xs q) (sys_run e ys)"
proof (induction xs arbitrary: q)
  case (Cons x xs)
  then show ?case by (cases "sys_step e x q") auto
qed simp

text \<open>A kill, then one whole iteration of the flight task: idle, and idle from then on.\<close>

lemma kill_takes_effect:
  assumes kill: "killed s" "sy_fc_pc s = Fc_Wait" "esc_inv (escs (sy_flight s))"
    and run: "sys_run e ([Fc_Take_Imu True, Fc_Take_Sp True, Fc_Act now] @ evs) s = Some s'"
    and o: "list_all (\<lambda>ev. \<not> ordinary_frame ev) evs"
  shows "motors_idle s'"
proof -
  define w where "w = motors_off (sy_flight s)"
  define s1 where "s1 = s\<lparr>sy_flight := w\<rparr>"
  have s1: "sy_flight s1 = w" "sy_ctl s1 = sy_ctl s" "sy_fc_pc s1 = Fc_Wait"
    using kill(2) by (simp_all add: s1_def)
  have first: "sys_run e [Fc_Take_Imu True, Fc_Take_Sp True, Fc_Act now] s = Some s1"
    unfolding fc_events_iteration [OF kill(2)] using kill(1)
    by (simp add: flight_iteration_def flight_act_killed killed_def s1_def w_def)
  have rest: "sys_run e evs s1 = Some s'" using run by (simp only: sys_run_append first Option.bind.bind_lunit)
  have w: "all_motors_at 1000 (escs w)" "esc_inv (escs w)"
    unfolding w_def using motors_off_idle [OF kill(3)] by blast+
  have "idle_kill s1"
    unfolding idle_kill_def kill_seen_def killed_def motors_idle_def s1
    using w kill(1) by (simp add: killed_def)
  from idle_kill_run [OF this o rest] show ?thesis unfolding idle_kill_def by blast
qed

section \<open>Start-up\<close>

datatype boot_call = Nvs_Init | Nvs_Erase | Btstack_Init | Bluepad_Init

definition nvs_calls :: "int \<Rightarrow> boot_call list" where
  "nvs_calls ret = (if ret = ESP_ERR_NVS_NO_FREE_PAGES \<or> ret = ESP_ERR_NVS_NEW_VERSION_FOUND
     then [Nvs_Init, Nvs_Erase, Nvs_Init] else [Nvs_Init])"

record booted =
  bt_calls :: "boot_call list"
  bt_bus :: "i2c_op list"
  bt_esc :: esc
  bt_wifi :: wifi

text \<open>
  \<open>app_main\<close> up to the creation of the tasks.  \<open>ESP_ERROR_CHECK\<close> aborts unless the code is
  \<open>ESP_OK\<close>; the results of the NVS retry and of \<open>wifi_server_init\<close> are not looked at, but the
  checks inside the latter abort.
\<close>

definition app_main ::
  "int \<Rightarrow> i2c_resp \<Rightarrow> (ledc_op list \<Rightarrow> int) \<Rightarrow> (wifi_op list \<Rightarrow> int) \<Rightarrow> (int \<Rightarrow> int) \<Rightarrow> booted \<times> bool" where
  "app_main nvs_ret ans_i ans_l ans_w nonblock =
     (let c = nvs_calls nvs_ret; (h, o1) = mpu6050_init ans_i [] in
      if o1 \<noteq> Returns ESP_OK then (\<lparr>bt_calls = c, bt_bus = h, bt_esc = esc_boot, bt_wifi = wifi_boot\<rparr>, False)
      else let (e, o2) = esc_init ans_l esc_boot in
        if o2 \<noteq> Returns ESP_OK then (\<lparr>bt_calls = c, bt_bus = h, bt_esc = e, bt_wifi = wifi_boot\<rparr>, False)
        else let e' = esc_arm e; (w, o3) = wifi_server_init ans_w nonblock wifi_boot in
          (\<lparr>bt_calls = c @ [Btstack_Init, Bluepad_Init], bt_bus = h, bt_esc = e', bt_wifi = w\<rparr>, o3 \<noteq> Aborts))"

lemma app_main_ok:
  assumes "app_main nvs ans_i ans_l ans_w nonblock = (b, True)"
  shows "esc_inv (bt_esc b) \<and> all_motors_at 1000 (bt_esc b) \<and>
    bt_bus b = [Param_Config, Driver_Install, Read_Regs 0x75 1] @ mpu6050_config_ops"
proof -
  obtain h o1 where m: "mpu6050_init ans_i [] = (h, o1)" by fastforce
  obtain e o2 where i: "esc_init ans_l esc_boot = (e, o2)" by fastforce
  have "o1 = Returns 0" "bt_esc b = esc_arm e" "bt_bus b = h"
    using assms m i by (auto simp: app_main_def Let_def split: if_splits prod.splits)
  moreover have "esc_inv e" by (rule esc_inv_init [OF i])
  moreover have "h = [Param_Config, Driver_Install, Read_Regs 0x75 1] @ mpu6050_config_ops" if "o1 = Returns 0"
    using m that
    by (auto simp: mpu6050_init_def i2c_read_regs_def Let_def split: prod.splits bool.splits if_splits
        dest!: esp_checked_True)
  ultimately show ?thesis
    by (simp add: esc_arm_def all_motors_at_set_all inv_intros)
qed

text \<open>If the IMU does not answer, no motor output is ever configured.\<close>

lemma app_main_no_imu:
  "snd (mpu6050_init ans_i []) \<noteq> Returns ESP_OK \<Longrightarrow>
   calls (bt_esc (fst (app_main nvs ans_i ans_l ans_w nonblock))) = [] \<and> \<not> snd (app_main nvs ans_i ans_l ans_w nonblock)"
  by (auto simp: app_main_def Let_def esc_boot_def split: prod.splits)

section \<open>A NaN attitude\<close>

lemma fp_nan_ops [simp]: "a - FNaN = FNaN" "FNaN - a = FNaN" "a * FNaN = FNaN" "FNaN + a = FNaN" "a + FNaN = FNaN"
  by (cases a; simp add: minus_fp_def times_fp_def plus_fp_def)+

lemma pid_nan_measurement: "snd (pid_update p s FNaN dt) = FNaN"
  by (simp add: pid_update_output sym_clamp_def)

lemma nan_not_exceeded: "\<not> angle_exceeded FNaN FNaN"
  by (simp add: angle_exceeded_def)

lemma nan_attitude:
  assumes "g_pitch_deg im = FNaN" "g_roll_deg im = FNaN" "g_motors_killed g = 0" "1200 < g_throttle g"
  shows "flight_act im g now w = None"
proof -
  have "motor_mix t FNaN b c = None" for t b c
    by (simp add: motor_mix_def Let_def clamp_us_nan)
  then show ?thesis
    using assms update_flying [OF assms(4), of "g_pitch_sp g" "g_roll_sp g" "g_yaw_sp g" FNaN FNaN "g_yaw_rate im" now w]
    by (cases "flight_controller_update (g_throttle g) (g_pitch_sp g) (g_roll_sp g) (g_yaw_sp g) FNaN FNaN (g_yaw_rate im) now w")
      (auto simp: flight_act_def nan_not_exceeded pid_nan_measurement)
qed

text \<open>A sample used to exhibit concrete states: all registers zero, \<open>atan2f\<close> returning zero.\<close>

definition zero_sample :: mpu6050_data where
  "zero_sample = mpu6050_convert (\<lambda>y x. 0) (replicate 14 0)"

section \<open>Properties\<close>





text \<open>
  C6: Once the kill flag is set, one whole iteration of the flight task puts all motors
  at the arming pulse, and they stay there through every later sequence of events, packets and
  telemetry included, until an ordinary gamepad frame arrives.
\<close>

theorem kill_effective:
  assumes "killed s" "sy_fc_pc s = Fc_Wait" "esc_inv (escs (sy_flight s))"
    "sys_run e ([Fc_Take_Imu True, Fc_Take_Sp True, Fc_Act now] @ evs) s = Some s'"
    "list_all (\<lambda>ev. \<not> ordinary_frame ev) evs"
  shows "motors_idle s'"
  by (rule kill_takes_effect [OF assms])

theorem kill_effective_witness:
  "\<exists>s'. sys_run (\<lambda>y x. 0, \<lambda>h. (0, [])) ([Fc_Take_Imu True, Fc_Take_Sp True, Fc_Act 9] @ [Tm_Start True])
      ((sys_start 5 6 [] zero_sample esc_boot 3)\<lparr>sy_ctl := (ctrl_boot, safe_setpoints setpoints_boot)\<rparr>) = Some s' \<and>
    motors_idle s'"
proof -
  let ?e = "(\<lambda>y x. 0, \<lambda>h. (0, [])) :: env"
  define s where "s = (sys_start 5 6 [] zero_sample esc_boot 3)\<lparr>sy_ctl := (ctrl_boot, safe_setpoints setpoints_boot)\<rparr>"
  have k: "killed s" "sy_fc_pc s = Fc_Wait" "esc_inv (escs (sy_flight s))"
    by (simp_all add: s_def killed_def safe_setpoints_def sys_start_def esc_inv_boot)
  have "flight_iteration True True (sy_imu s) (snd (sy_ctl s)) 9 (sy_flight s) = Some (motors_off (sy_flight s))"
    using k(1) by (simp add: flight_iteration_def flight_act_killed killed_def)
  then have 1: "sys_run ?e [Fc_Take_Imu True, Fc_Take_Sp True, Fc_Act 9] s =
      Some (s\<lparr>sy_flight := motors_off (sy_flight s)\<rparr>)"
    by (simp only: fc_events_iteration [OF k(2)] option.map)
  obtain s' where r: "sys_run ?e ([Fc_Take_Imu True, Fc_Take_Sp True, Fc_Act 9] @ [Tm_Start True]) s = Some s'"
    by (simp only: sys_run_append 1 Option.bind.bind_lunit) (simp add: sys_step_def)
  have "motors_idle s'" by (rule kill_effective [OF k r]) (simp add: ordinary_frame_def)
  with r show ?thesis unfolding s_def by blast
qed

text \<open>
  C7: An iteration that sees the kill flag, or a pitch or roll beyond 45 degrees, puts all
  motors at the arming pulse and clears the controllers, whatever throttle and setpoints say.
\<close>

theorem angle_cutoff:
  assumes "esc_inv (escs w)" "g_motors_killed g \<noteq> 0 \<or> angle_exceeded (g_pitch_deg im) (g_roll_deg im)"
  shows "\<exists>w'. flight_iteration True True im g now w = Some w' \<and> all_motors_at 1000 (escs w') \<and>
    (\<forall>p \<in> {pid_pitch (fcs w'), pid_roll (fcs w'), pid_yaw (fcs w')}. integral p = 0 \<and> prev_error p = 0)"
  using motors_off_idle [OF assms(1)] assms(2)
  by (auto simp: flight_iteration_def flight_act_def motors_off_def flight_controller_reset_integrals_def
      pid_reset_def)

theorem angle_cutoff_witness:
  "\<exists>w'. flight_iteration True True (imu_boot\<lparr>g_roll_deg := flit (- 46)\<rparr>) (setpoints_boot\<lparr>g_throttle := 1300\<rparr>) 9
     \<lparr>fcs = flight_controller_init 0, escs = esc_boot, cache = telem_cache_boot\<rparr> = Some w' \<and>
     all_motors_at 1000 (escs w')"
proof -
  let ?w = "\<lparr>fcs = flight_controller_init 0, escs = esc_boot, cache = telem_cache_boot\<rparr>"
  have "flit (- 46) < - ANGLE_LIMIT_DEG" by code_simp
  then show ?thesis
    using angle_cutoff [of ?w "setpoints_boot\<lparr>g_throttle := 1300\<rparr>" "imu_boot\<lparr>g_roll_deg := flit (- 46)\<rparr>" 9]
    by (auto simp: angle_exceeded_def esc_inv_boot)
qed

text \<open>
  The angle check does not stop a NaN attitude: all its comparisons are false.
  With the motors above the spin threshold the iteration then converts a NaN, which is undefined.
\<close>

theorem nan_attitude_passes:
  assumes "g_pitch_deg im = FNaN" "g_roll_deg im = FNaN" "g_motors_killed g = 0" "1200 < g_throttle g"
  shows "\<not> angle_exceeded (g_pitch_deg im) (g_roll_deg im) \<and> flight_iteration True True im g now w = None"
  using nan_attitude [OF assms] nan_not_exceeded assms(1,2) by (simp add: flight_iteration_def)

theorem nan_attitude_passes_witness:
  "flight_iteration True True \<lparr>g_pitch_deg = FNaN, g_roll_deg = FNaN, g_yaw_rate = 0\<rparr>
     (setpoints_boot\<lparr>g_throttle := 1250\<rparr>) 9
     \<lparr>fcs = flight_controller_init 0, escs = esc_boot, cache = telem_cache_boot\<rparr> = None"
  using nan_attitude_passes [of "\<lparr>g_pitch_deg = FNaN, g_roll_deg = FNaN, g_yaw_rate = 0\<rparr>"
      "setpoints_boot\<lparr>g_throttle := 1250\<rparr>" 9
      "\<lparr>fcs = flight_controller_init 0, escs = esc_boot, cache = telem_cache_boot\<rparr>"]
  by (simp add: setpoints_boot_def)



text \<open>
  If the start-up completes, the IMU has been configured, the motor driver is consistent
  and all motors are at the arming pulse; if the IMU does not answer as it should, the start-up does
  not complete and no motor output has been configured.
\<close>

theorem boot_safe:
  "(snd (app_main nvs ans_i ans_l ans_w nonblock) \<longrightarrow>
     (let b = fst (app_main nvs ans_i ans_l ans_w nonblock) in
      esc_inv (bt_esc b) \<and> all_motors_at 1000 (bt_esc b) \<and>
      bt_bus b = [Param_Config, Driver_Install, Read_Regs 0x75 1] @ mpu6050_config_ops)) \<and>
   (snd (mpu6050_init ans_i []) \<noteq> Returns ESP_OK \<longrightarrow>
     \<not> snd (app_main nvs ans_i ans_l ans_w nonblock) \<and>
     calls (bt_esc (fst (app_main nvs ans_i ans_l ans_w nonblock))) = [])"
  using app_main_ok [of nvs ans_i ans_l ans_w nonblock "fst (app_main nvs ans_i ans_l ans_w nonblock)"]
    app_main_no_imu [of ans_i nvs ans_l ans_w nonblock]
  by (cases "app_main nvs ans_i ans_l ans_w nonblock") (auto simp: Let_def)

theorem boot_safe_witness:
  "calls (bt_esc (fst (app_main 0 (\<lambda>h. (0, [0x70])) (\<lambda>h. 0) (\<lambda>h. 0) id))) = []"
proof -
  have "snd (mpu6050_init (\<lambda>h. (0, [0x70])) []) \<noteq> Returns ESP_OK" by code_simp
  then show ?thesis using boot_safe [of 0 "\<lambda>h. (0, [0x70])" "\<lambda>h. 0" "\<lambda>h. 0" id] by blast
qed

end
