(* ===== verification/Mutex_Protocol.thy ===== *)
theory Mutex_Protocol
  imports Controller
begin

text \<open>
  The locking discipline of the shared globals (\<open>setpoint_mutex\<close> and \<open>imu_mutex\<close>), one memory
  access per step.  A thread runs one critical section at a time: take, the reads or the writes of
  the fields in the order of the code, give.  A failed or timed-out take skips the section.  Any
  number of threads may run, interleaved in any way.

  The theorem the other theories rest on: what a reader has collected always agrees with one
  record that some writer meant to publish, never with a mixture of two.
\<close>

section \<open>Programs of the critical sections\<close>

datatype ('f, 'v) instr = Take_Mutex | Write_Field 'f 'v | Read_Field 'f | Give_Mutex

definition writer :: "'f list \<Rightarrow> ('f \<Rightarrow> 'v) \<Rightarrow> ('f, 'v) instr list" where
  "writer ord w = Take_Mutex # map (\<lambda>f. Write_Field f (w f)) ord @ [Give_Mutex]"

definition reader :: "'f list \<Rightarrow> ('f, 'v) instr list" where
  "reader ord = Take_Mutex # map Read_Field ord @ [Give_Mutex]"

text \<open>The setpoint fields, and the access orders of controller.c, main.c and telemetry.c.\<close>

datatype sp_field = F_Throttle | F_Pitch_Sp | F_Roll_Sp | F_Yaw_Sp | F_Killed

definition data_write_order :: "sp_field list" where
  "data_write_order = [F_Throttle, F_Pitch_Sp, F_Roll_Sp, F_Yaw_Sp, F_Killed]"

definition kill_write_order :: "sp_field list" where
  "kill_write_order = [F_Killed, F_Throttle, F_Pitch_Sp, F_Roll_Sp, F_Yaw_Sp]"

definition disconnect_write_order :: "sp_field list" where
  "disconnect_write_order = [F_Throttle, F_Pitch_Sp, F_Roll_Sp, F_Yaw_Sp, F_Killed]"

definition flight_read_order :: "sp_field list" where
  "flight_read_order = [F_Throttle, F_Pitch_Sp, F_Roll_Sp, F_Yaw_Sp, F_Killed]"

definition telemetry_read_order :: "sp_field list" where
  "telemetry_read_order = [F_Throttle, F_Pitch_Sp, F_Roll_Sp, F_Yaw_Sp]"

definition field_value :: "setpoints \<Rightarrow> sp_field \<Rightarrow> int + fp" where
  "field_value g f = (case f of F_Throttle \<Rightarrow> Inl (g_throttle g) | F_Pitch_Sp \<Rightarrow> Inr (g_pitch_sp g)
     | F_Roll_Sp \<Rightarrow> Inr (g_roll_sp g) | F_Yaw_Sp \<Rightarrow> Inr (g_yaw_sp g) | F_Killed \<Rightarrow> Inl (g_motors_killed g))"

lemma sp_field_UNIV: "(UNIV :: sp_field set) = {F_Throttle, F_Pitch_Sp, F_Roll_Sp, F_Yaw_Sp, F_Killed}"
  using sp_field.exhaust by auto

lemma write_orders_complete:
  "set data_write_order = UNIV" "set kill_write_order = UNIV" "set disconnect_write_order = UNIV"
  by (auto simp: sp_field_UNIV data_write_order_def kill_write_order_def disconnect_write_order_def)

section \<open>Interleaved execution\<close>

record ('f, 'v) mstate =
  mem :: "'f \<Rightarrow> 'v"
  owner :: "nat option"
  prog :: "nat \<Rightarrow> ('f, 'v) instr list"
  seen :: "nat \<Rightarrow> ('f \<times> 'v) list"
  intended :: "('f \<Rightarrow> 'v) list"

definition mstart :: "('f \<Rightarrow> 'v) \<Rightarrow> ('f, 'v) mstate" where
  "mstart w0 = \<lparr>mem = w0, owner = None, prog = (\<lambda>t. []), seen = (\<lambda>t. []), intended = [w0]\<rparr>"

inductive mstep :: "('f, 'v) mstate \<Rightarrow> ('f, 'v) mstate \<Rightarrow> bool" where
  ms_write_start: "prog s t = [] \<Longrightarrow> set ord = UNIV \<Longrightarrow>
    mstep s (s\<lparr>prog := (prog s)(t := writer ord w), intended := intended s @ [w]\<rparr>)"
| ms_read_start: "prog s t = [] \<Longrightarrow>
    mstep s (s\<lparr>prog := (prog s)(t := reader ord), seen := (seen s)(t := [])\<rparr>)"
| ms_take: "prog s t = Take_Mutex # p \<Longrightarrow> owner s = None \<Longrightarrow>
    mstep s (s\<lparr>owner := Some t, prog := (prog s)(t := p)\<rparr>)"
| ms_take_fail: "prog s t = Take_Mutex # p \<Longrightarrow> mstep s (s\<lparr>prog := (prog s)(t := [])\<rparr>)"
| ms_write: "prog s t = Write_Field f v # p \<Longrightarrow>
    mstep s (s\<lparr>mem := (mem s)(f := v), prog := (prog s)(t := p)\<rparr>)"
| ms_read: "prog s t = Read_Field f # p \<Longrightarrow>
    mstep s (s\<lparr>seen := (seen s)(t := (f, mem s f) # seen s t), prog := (prog s)(t := p)\<rparr>)"
| ms_give: "prog s t = Give_Mutex # p \<Longrightarrow> mstep s (s\<lparr>owner := None, prog := (prog s)(t := p)\<rparr>)"

inductive mreach :: "('f \<Rightarrow> 'v) \<Rightarrow> ('f, 'v) mstate \<Rightarrow> bool" for w0 where
  mr_start: "mreach w0 (mstart w0)"
| mr_step: "mreach w0 s \<Longrightarrow> mstep s s' \<Longrightarrow> mreach w0 s'"

section \<open>The invariant\<close>

definition agrees :: "('f \<times> 'v) list \<Rightarrow> ('f \<Rightarrow> 'v) \<Rightarrow> bool" where
  "agrees xs w \<longleftrightarrow> (\<forall>(f, v) \<in> set xs. v = w f)"

text \<open>A thread without the mutex is idle or about to take it.\<close>

definition outside :: "('f, 'v) mstate \<Rightarrow> nat \<Rightarrow> bool" where
  "outside s t \<longleftrightarrow> prog s t = [] \<or>
     (\<exists>ord w. prog s t = writer ord w \<and> set ord = UNIV \<and> w \<in> set (intended s)) \<or>
     (\<exists>ord. prog s t = reader ord \<and> seen s t = [])"

text \<open>The owner is writing the rest of an intended record, or reading a settled memory.\<close>

definition writing :: "('f, 'v) mstate \<Rightarrow> nat \<Rightarrow> bool" where
  "writing s t \<longleftrightarrow> (\<exists>fs w. prog s t = map (\<lambda>f. Write_Field f (w f)) fs @ [Give_Mutex] \<and>
     w \<in> set (intended s) \<and> (\<forall>f. f \<notin> set fs \<longrightarrow> mem s f = w f))"

definition reading :: "('f, 'v) mstate \<Rightarrow> nat \<Rightarrow> bool" where
  "reading s t \<longleftrightarrow> (\<exists>fs. prog s t = map Read_Field fs @ [Give_Mutex]) \<and> mem s \<in> set (intended s) \<and>
     agrees (seen s t) (mem s)"

definition minv :: "('f, 'v) mstate \<Rightarrow> bool" where
  "minv s \<longleftrightarrow>
     (\<forall>t. owner s \<noteq> Some t \<longrightarrow> outside s t) \<and>
     (\<forall>t. owner s = Some t \<longrightarrow> writing s t \<or> reading s t) \<and>
     (owner s = None \<longrightarrow> mem s \<in> set (intended s)) \<and>
     (\<forall>t. \<exists>w \<in> set (intended s). agrees (seen s t) w)"

lemma agrees_simps [simp]: "agrees [] w" "agrees ((f, v) # xs) w \<longleftrightarrow> v = w f \<and> agrees xs w"
  by (auto simp: agrees_def)

lemma outside_intros:
  "prog s t = [] \<Longrightarrow> outside s t"
  "prog s t = writer ord w \<Longrightarrow> set ord = UNIV \<Longrightarrow> w \<in> set (intended s) \<Longrightarrow> outside s t"
  "prog s t = reader ord \<Longrightarrow> seen s t = [] \<Longrightarrow> outside s t"
  unfolding outside_def by blast+

lemma minvD:
  assumes "minv s"
  shows "owner s \<noteq> Some t \<Longrightarrow> outside s t" "owner s = Some t \<Longrightarrow> writing s t \<or> reading s t"
    "owner s = None \<Longrightarrow> mem s \<in> set (intended s)" "\<exists>w \<in> set (intended s). agrees (seen s t) w"
  using assms unfolding minv_def by blast+

lemma minv_start: "minv (mstart w0)"
  by (simp add: minv_def mstart_def outside_def)

lemma inside_not_empty: "writing s t \<or> reading s t \<Longrightarrow> prog s t \<noteq> [] \<and> (\<forall>p. prog s t \<noteq> Take_Mutex # p)"
  by (auto simp: writing_def reading_def Cons_eq_append_conv map_eq_Cons_conv)

lemma outside_take: "outside s t \<Longrightarrow> prog s t = x # p \<Longrightarrow> x = Take_Mutex"
  by (auto simp: outside_def writer_def reader_def)

lemma minv_owner:
  assumes "minv s"
  shows "prog s t = [] \<or> prog s t = Take_Mutex # p \<Longrightarrow> owner s \<noteq> Some t"
    and "prog s t = x # p \<Longrightarrow> x \<noteq> Take_Mutex \<Longrightarrow> owner s = Some t"
  using assms inside_not_empty [of s t] outside_take [of s t] by (auto simp: minv_def)

lemma outside_mono:
  assumes "outside s t" "prog s' t = prog s t" "seen s' t = seen s t" "set (intended s) \<subseteq> set (intended s')"
  shows "outside s' t"
  using assms unfolding outside_def by (metis subsetD)

lemma inside_mono:
  assumes "writing s t \<or> reading s t" "prog s' t = prog s t" "seen s' t = seen s t" "mem s' = mem s"
    "set (intended s) \<subseteq> set (intended s')"
  shows "writing s' t \<or> reading s' t"
proof (cases "writing s t")
  case True
  then obtain fs w where "prog s t = map (\<lambda>f. Write_Field f (w f)) fs @ [Give_Mutex]"
    "w \<in> set (intended s)" "\<forall>f. f \<notin> set fs \<longrightarrow> mem s f = w f" by (auto simp: writing_def)
  then have "writing s' t" unfolding writing_def assms(2,4) using assms(5) by blast
  then show ?thesis ..
next
  case False
  then have "reading s' t" using assms by (auto simp: reading_def)
  then show ?thesis ..
qed

lemma writing_step:
  assumes "writing s t" "prog s t = Write_Field f v # p"
  shows "writing (s\<lparr>mem := (mem s)(f := v), prog := (prog s)(t := p)\<rparr>) t"
proof -
  obtain fs w where w: "prog s t = map (\<lambda>f. Write_Field f (w f)) fs @ [Give_Mutex]"
    "w \<in> set (intended s)" "\<forall>f. f \<notin> set fs \<longrightarrow> mem s f = w f"
    using assms(1) by (auto simp: writing_def)
  then obtain fs' where fs: "fs = f # fs'" "v = w f" "p = map (\<lambda>f. Write_Field f (w f)) fs' @ [Give_Mutex]"
    using assms(2) by (cases fs) auto
  show ?thesis unfolding writing_def
    by (rule exI [of _ fs'], rule exI [of _ w]) (use w fs in auto)
qed

lemma minvI:
  assumes "\<And>t. owner s \<noteq> Some t \<Longrightarrow> outside s t" "\<And>t. owner s = Some t \<Longrightarrow> writing s t \<or> reading s t"
    "owner s = None \<Longrightarrow> mem s \<in> set (intended s)" "\<And>t. \<exists>w \<in> set (intended s). agrees (seen s t) w"
  shows "minv s"
  using assms unfolding minv_def by blast

lemma write_start_minv:
  assumes inv: "minv s" and t: "prog s t = []" "set ord = UNIV"
  shows "minv (s\<lparr>prog := (prog s)(t := writer ord w), intended := intended s @ [w]\<rparr>)" (is "minv ?s")
proof (rule minvI)
  have nt: "owner s \<noteq> Some t" using minv_owner(1) [OF inv] t by blast
  show "outside ?s u" if "owner ?s \<noteq> Some u" for u
  proof (cases "u = t")
    case True
    then show ?thesis using t by (intro outside_intros(2) [of _ _ ord w]) simp_all
  next
    case False
    show ?thesis by (rule outside_mono [OF minvD(1) [OF inv]]) (use that False in auto)
  qed
  show "writing ?s u \<or> reading ?s u" if "owner ?s = Some u" for u
    by (rule inside_mono [OF minvD(2) [OF inv]]) (use that nt in auto)
  show "mem ?s \<in> set (intended ?s)" if "owner ?s = None" using that minvD(3) [OF inv] by simp
  show "\<exists>w \<in> set (intended ?s). agrees (seen ?s u) w" for u using minvD(4) [OF inv, of u] by auto
qed

lemma read_start_minv:
  assumes inv: "minv s" and t: "prog s t = []"
  shows "minv (s\<lparr>prog := (prog s)(t := reader ord), seen := (seen s)(t := [])\<rparr>)" (is "minv ?s")
proof (rule minvI)
  have nt: "owner s \<noteq> Some t" using minv_owner(1) [OF inv] t by blast
  show "outside ?s u" if "owner ?s \<noteq> Some u" for u
  proof (cases "u = t")
    case True
    then show ?thesis by (intro outside_intros(3) [of _ _ ord]) simp_all
  next
    case False
    show ?thesis by (rule outside_mono [OF minvD(1) [OF inv]]) (use that False in auto)
  qed
  show "writing ?s u \<or> reading ?s u" if "owner ?s = Some u" for u
    by (rule inside_mono [OF minvD(2) [OF inv]]) (use that nt in auto)
  show "mem ?s \<in> set (intended ?s)" if "owner ?s = None" using that minvD(3) [OF inv] by simp
  show "\<exists>w \<in> set (intended ?s). agrees (seen ?s u) w" for u using minvD(4) [OF inv, of u] by auto
qed

lemma take_minv:
  assumes inv: "minv s" and t: "prog s t = Take_Mutex # p" and free: "owner s = None"
  shows "minv (s\<lparr>owner := Some t, prog := (prog s)(t := p)\<rparr>)" (is "minv ?s")
proof (rule minvI)
  have o: "outside s t" and m: "mem s \<in> set (intended s)" using minvD(1,3) [OF inv] free by auto
  show "writing ?s u \<or> reading ?s u" if "owner ?s = Some u" for u
  proof (cases "\<exists>ord. prog s t = reader ord \<and> seen s t = []")
    case True
    then have "reading ?s t" using t m by (auto simp: reading_def reader_def)
    with that show ?thesis by simp
  next
    case False
    then obtain ord w where "prog s t = writer ord w" "set ord = UNIV" "w \<in> set (intended s)"
      using o t by (auto simp: outside_def)
    then have "writing ?s t" using t by (auto simp: writing_def writer_def)
    with that show ?thesis by simp
  qed
  show "outside ?s u" if "owner ?s \<noteq> Some u" for u
    by (rule outside_mono [OF minvD(1) [OF inv]]) (use that free in auto)
  show "\<exists>w \<in> set (intended ?s). agrees (seen ?s u) w" for u using minvD(4) [OF inv, of u] by auto
qed simp

lemma take_fail_minv:
  assumes inv: "minv s" and t: "prog s t = Take_Mutex # p"
  shows "minv (s\<lparr>prog := (prog s)(t := [])\<rparr>)" (is "minv ?s")
proof (rule minvI)
  have nt: "owner s \<noteq> Some t" using minv_owner(1) [OF inv] t by blast
  show "outside ?s u" if "owner ?s \<noteq> Some u" for u
  proof (cases "u = t")
    case False
    show ?thesis by (rule outside_mono [OF minvD(1) [OF inv]]) (use that False in auto)
  qed (simp add: outside_intros(1))
  show "writing ?s u \<or> reading ?s u" if "owner ?s = Some u" for u
    by (rule inside_mono [OF minvD(2) [OF inv]]) (use that nt in auto)
  show "mem ?s \<in> set (intended ?s)" if "owner ?s = None" using that minvD(3) [OF inv] by simp
  show "\<exists>w \<in> set (intended ?s). agrees (seen ?s u) w" for u using minvD(4) [OF inv, of u] by auto
qed

lemma write_minv:
  assumes inv: "minv s" and t: "prog s t = Write_Field f v # p"
  shows "minv (s\<lparr>mem := (mem s)(f := v), prog := (prog s)(t := p)\<rparr>)" (is "minv ?s")
proof (rule minvI)
  have o: "owner s = Some t" using minv_owner(2) [OF inv t] by simp
  have "\<not> reading s t" using t by (auto simp: reading_def Cons_eq_append_conv map_eq_Cons_conv)
  then have "writing ?s t" using minvD(2) [OF inv o] writing_step [OF _ t] by blast
  then show "writing ?s u \<or> reading ?s u" if "owner ?s = Some u" for u using that o by simp
  show "outside ?s u" if "owner ?s \<noteq> Some u" for u
    by (rule outside_mono [OF minvD(1) [OF inv]]) (use that o in auto)
  show "mem ?s \<in> set (intended ?s)" if "owner ?s = None" using that o by simp
  show "\<exists>w \<in> set (intended ?s). agrees (seen ?s u) w" for u using minvD(4) [OF inv, of u] by auto
qed

lemma read_minv:
  assumes inv: "minv s" and t: "prog s t = Read_Field f # p"
  shows "minv (s\<lparr>seen := (seen s)(t := (f, mem s f) # seen s t), prog := (prog s)(t := p)\<rparr>)" (is "minv ?s")
proof (rule minvI)
  have o: "owner s = Some t" using minv_owner(2) [OF inv t] by simp
  have "\<not> writing s t" using t by (auto simp: writing_def Cons_eq_append_conv map_eq_Cons_conv)
  then have r: "reading s t" using minvD(2) [OF inv o] by blast
  then have "reading ?s t" using t by (auto simp: reading_def Cons_eq_append_conv map_eq_Cons_conv)
  then show "writing ?s u \<or> reading ?s u" if "owner ?s = Some u" for u using that o by simp
  show "outside ?s u" if "owner ?s \<noteq> Some u" for u
    by (rule outside_mono [OF minvD(1) [OF inv]]) (use that o in auto)
  show "mem ?s \<in> set (intended ?s)" if "owner ?s = None" using that o by simp
  show "\<exists>w \<in> set (intended ?s). agrees (seen ?s u) w" for u
    using minvD(4) [OF inv, of u] r by (cases "u = t") (auto simp: reading_def)
qed

lemma give_minv:
  assumes inv: "minv s" and t: "prog s t = Give_Mutex # p"
  shows "minv (s\<lparr>owner := None, prog := (prog s)(t := p)\<rparr>)" (is "minv ?s")
proof (rule minvI)
  have o: "owner s = Some t" using minv_owner(2) [OF inv t] by simp
  note i = minvD(2) [OF inv o]
  have p: "p = []" using i t by (auto simp: writing_def reading_def Cons_eq_append_conv map_eq_Cons_conv)
  show "mem ?s \<in> set (intended ?s)"
  proof (cases "reading s t")
    case False
    then obtain w where "w \<in> set (intended s)" "\<forall>f. mem s f = w f"
      using i t by (auto simp: writing_def Cons_eq_append_conv map_eq_Cons_conv)
    then show ?thesis by (simp add: ext [of "mem s" w])
  qed (simp add: reading_def)
  show "outside ?s u" if "owner ?s \<noteq> Some u" for u
  proof (cases "u = t")
    case False
    show ?thesis by (rule outside_mono [OF minvD(1) [OF inv]]) (use False o in auto)
  qed (simp add: outside_intros(1) p)
  show "\<exists>w \<in> set (intended ?s). agrees (seen ?s u) w" for u using minvD(4) [OF inv, of u] by auto
qed simp

lemma mstep_minv: "mstep s s' \<Longrightarrow> minv s \<Longrightarrow> minv s'"
  by (induction rule: mstep.induct)
    (simp_all only: write_start_minv read_start_minv take_minv take_fail_minv write_minv read_minv give_minv)

lemma mreach_minv: "mreach w0 s \<Longrightarrow> minv s"
  by (induction rule: mreach.induct) (auto intro: minv_start mstep_minv)

inductive_cases mstep_cases: "mstep s s'"

text \<open>Two threads are never inside at once.\<close>

lemma mutual_exclusion:
  assumes "mreach w0 s" "prog s t = x # p" "prog s u = y # q" "x \<noteq> Take_Mutex" "y \<noteq> Take_Mutex"
  shows "t = u"
  using minv_owner(2) [OF mreach_minv [OF assms(1)]] assms(2-) by (metis option.inject)

section \<open>Properties\<close>

text \<open>
  C9: In every interleaving of the tasks, with takes that may fail, what a reader
  has read since it last started agrees with one record some writer (or the start-up) intended as a
  whole: a snapshot is never a mixture of two writes.  Two tasks are never inside their critical
  sections at once, and each of the three write sequences of controller.c writes every field.
\<close>

theorem snapshot_consistent:
  assumes "mreach w0 s"
  shows "(\<exists>w \<in> set (intended s). \<forall>(f, v) \<in> set (seen s t). v = w f) \<and>
    (\<forall>u x p y q. prog s t = x # p \<and> prog s u = y # q \<and> x \<noteq> Take_Mutex \<and> y \<noteq> Take_Mutex \<longrightarrow> t = u) \<and>
    set data_write_order = UNIV \<and> set kill_write_order = UNIV \<and> set disconnect_write_order = UNIV"
  using minvD(4) [OF mreach_minv [OF assms], of t] mutual_exclusion [OF assms] write_orders_complete
  unfolding agrees_def by blast

theorem snapshot_consistent_witness:
  "\<exists>s. mreach (\<lambda>f :: sp_field. 7 :: int) s \<and> seen s 0 = [(F_Throttle, 7)] \<and>
     (\<exists>w \<in> set (intended s). \<forall>(f, v) \<in> set (seen s 0). v = w f)"
proof -
  define s1 :: "(sp_field, int) mstate" where
    "s1 = (mstart (\<lambda>f. 7))\<lparr>prog := (\<lambda>t. [])(0 := reader [F_Throttle]), seen := (\<lambda>t. [])(0 := [])\<rparr>"
  define s2 where "s2 = s1\<lparr>owner := Some 0, prog := (prog s1)(0 := [Read_Field F_Throttle, Give_Mutex])\<rparr>"
  define s3 where "s3 = s2\<lparr>seen := (seen s2)(0 := [(F_Throttle, 7)]), prog := (prog s2)(0 := [Give_Mutex])\<rparr>"
  have "mstep (mstart (\<lambda>f. 7)) s1"
    using ms_read_start [of "mstart (\<lambda>f. 7)" 0 "[F_Throttle]"] by (simp add: s1_def mstart_def)
  moreover have "mstep s1 s2"
    using ms_take [of s1 0 "[Read_Field F_Throttle, Give_Mutex]"] by (simp add: s1_def s2_def mstart_def reader_def)
  moreover have "mstep s2 s3"
    using ms_read [of s2 0 F_Throttle "[Give_Mutex]"] by (simp add: s1_def s2_def s3_def mstart_def)
  ultimately have "mreach (\<lambda>f. 7) s3" by (intro mr_step [OF mr_step [OF mr_step [OF mr_start]]])
  moreover have "seen s3 0 = [(F_Throttle, 7)]" by (simp add: s3_def)
  ultimately show ?thesis using snapshot_consistent [of "\<lambda>f. 7" s3 0] by blast
qed

end
