(* ===== verification/Hid_Parser.thy ===== *)
theory Hid_Parser
  imports Gamepad
begin

text \<open>
  bluepad32_component/parser/uni_hid_parser.c: the normalisations the report parsers share.  The
  C code mixes \<open>int32_t\<close> and \<open>uint32_t\<close>: where a signed operand meets an unsigned one the
  arithmetic is modulo \<open>2 ^ 32\<close>, where both are signed an overflow is undefined (\<open>None\<close>).
\<close>

section \<open>Normalisation\<close>

record hid_globals =
  logical_minimum :: int
  logical_maximum :: int
  usage_page :: u16
  report_size :: u8
  report_count :: u8
  report_id :: u8

text \<open>The maximum, with the workaround for descriptors that give 0xff as -1.\<close>

definition hid_max :: "hid_globals \<Rightarrow> int option" where
  "hid_max g =
     (if logical_maximum g = - 1 then
        if unat (report_size g) < 31 then Some (2 ^ unat (report_size g) - 1) else None
      else Some (logical_maximum g))"

definition hid_range :: "hid_globals \<Rightarrow> int option" where
  "hid_range g = do { m \<leftarrow> hid_max g; d \<leftarrow> i32 (m - logical_minimum g); i32 (d + 1) }"

definition uni_hid_parser_process_axis :: "hid_globals \<Rightarrow> u32 \<Rightarrow> int option" where
  "uni_hid_parser_process_axis g v = do {
     range \<leftarrow> hid_range g;
     let centered = sint (v - word_of_int (c_quot range 2) - word_of_int (logical_minimum g));
     scaled \<leftarrow> i32 (centered * AXIS_NORMALIZE_RANGE);
     c_div scaled range
   }"

definition uni_hid_parser_process_pedal :: "hid_globals \<Rightarrow> u32 \<Rightarrow> int option" where
  "uni_hid_parser_process_pedal g v = do {
     range \<leftarrow> hid_range g;
     if range = 0 then None
     else Some (sint ((v * word_of_int AXIS_NORMALIZE_RANGE) div word_of_int range))
   }"

definition uni_hid_parser_process_hat :: "hid_globals \<Rightarrow> u32 \<Rightarrow> u8 option" where
  "uni_hid_parser_process_hat g v =
     (if sint v < logical_minimum g \<or> logical_maximum g < sint v then Some 0xFF
      else map_option word_of_int (i32 (sint v - logical_minimum g)))"

definition HID_USAGE_DPAD_UP :: u16 where [simp]: "HID_USAGE_DPAD_UP = 0x90"
definition HID_USAGE_DPAD_DOWN :: u16 where [simp]: "HID_USAGE_DPAD_DOWN = 0x91"
definition HID_USAGE_DPAD_RIGHT :: u16 where [simp]: "HID_USAGE_DPAD_RIGHT = 0x92"
definition HID_USAGE_DPAD_LEFT :: u16 where [simp]: "HID_USAGE_DPAD_LEFT = 0x93"

definition put_flag :: "bool \<Rightarrow> ('a :: len) word \<Rightarrow> 'a word \<Rightarrow> 'a word" where
  "put_flag on m w = (if on then w OR m else w AND NOT m)"

definition uni_hid_parser_process_dpad :: "u16 \<Rightarrow> u32 \<Rightarrow> u8 \<Rightarrow> u8" where
  "uni_hid_parser_process_dpad usage v d =
     (if usage = HID_USAGE_DPAD_UP then put_flag (v \<noteq> 0) DPAD_UP d
      else if usage = HID_USAGE_DPAD_DOWN then put_flag (v \<noteq> 0) DPAD_DOWN d
      else if usage = HID_USAGE_DPAD_RIGHT then put_flag (v \<noteq> 0) DPAD_RIGHT d
      else if usage = HID_USAGE_DPAD_LEFT then put_flag (v \<noteq> 0) DPAD_LEFT d
      else d)"

definition uni_hid_parser_hat_to_dpad :: "u8 \<Rightarrow> u8" where
  "uni_hid_parser_hat_to_dpad hat =
     (if hat = 0xFF \<or> hat = 8 then 0
      else if hat = 0 then DPAD_UP
      else if hat = 1 then DPAD_UP OR DPAD_RIGHT
      else if hat = 2 then DPAD_RIGHT
      else if hat = 3 then DPAD_RIGHT OR DPAD_DOWN
      else if hat = 4 then DPAD_DOWN
      else if hat = 5 then DPAD_DOWN OR DPAD_LEFT
      else if hat = 6 then DPAD_LEFT
      else if hat = 7 then DPAD_LEFT OR DPAD_UP
      else 0)"

section \<open>A well-formed axis\<close>

text \<open>
  A descriptor whose range is positive and small enough for the scaling not to overflow, and a
  value inside it.
\<close>

definition axis_ok :: "hid_globals \<Rightarrow> u32 \<Rightarrow> bool" where
  "axis_ok g v \<longleftrightarrow> logical_maximum g \<noteq> - 1 \<and> int32_ok (logical_minimum g) \<and>
     logical_minimum g \<le> logical_maximum g \<and> logical_maximum g - logical_minimum g < 2 ^ 21 \<and>
     logical_minimum g \<le> sint v \<and> sint v \<le> logical_maximum g"

lemma axis_ok_range: "axis_ok g v \<Longrightarrow> hid_range g = Some (logical_maximum g - logical_minimum g + 1)"
  by (auto simp: axis_ok_def hid_range_def hid_max_def int32_ok_def i32_def)

lemma sint_diff3:
  fixes v :: u32
  assumes "- (2 ^ 31) \<le> sint v - a - b" "sint v - a - b < 2 ^ 31"
  shows "sint (v - word_of_int a - word_of_int b) = sint v - a - b"
proof -
  have "v - word_of_int a - word_of_int b = word_of_int (sint v - a - b)"
    by (simp add: word_of_int_sint)
  then show ?thesis using sint_word_of_int_id [OF assms] by (simp only:)
qed

lemma process_axis_value:
  assumes "axis_ok g v"
  defines "r \<equiv> logical_maximum g - logical_minimum g + 1"
  shows "uni_hid_parser_process_axis g v =
    Some (c_quot ((sint v - logical_minimum g - r div 2) * 1024) r)"
proof -
  have r: "0 < r" "r \<le> 2 ^ 21" "r div 2 \<le> 2 ^ 20" "0 \<le> r div 2" using assms by (auto simp: axis_ok_def)
  have c: "0 \<le> sint v - logical_minimum g" "sint v - logical_minimum g < r"
    using assms by (auto simp: axis_ok_def)
  let ?c = "sint v - logical_minimum g - r div 2"
  have b: "- (r div 2) \<le> ?c" "?c \<le> r div 2" using r c by auto
  have "sint (v - word_of_int (c_quot r 2) - word_of_int (logical_minimum g)) = ?c"
    using sint_diff3 [of v "r div 2" "logical_minimum g"] b r c by (simp add: c_quot_nonneg)
  moreover have "int32_ok (?c * 1024)" using b r by (auto simp: int32_ok_def)
  moreover have "c_div (?c * 1024) r = Some (c_quot (?c * 1024) r)"
  proof -
    have "- 512 \<le> c_quot (?c * 1024) r \<and> c_quot (?c * 1024) r \<le> 512"
      using b by (intro c_quot_bounds [OF r(1)]) auto
    then show ?thesis using r(1) by (simp add: c_div_def i32_def int32_ok_def)
  qed
  ultimately show ?thesis
    using axis_ok_range [OF assms(1)]
    by (simp add: uni_hid_parser_process_axis_def r_def [symmetric] i32_def)
qed

text \<open>
  The normalised axis stays in the documented interval from -512 to 511, is monotone, is 0 at the
  centre and -512 at the least value.
\<close>

lemma axis_bounds:
  assumes "axis_ok g v" "uni_hid_parser_process_axis g v = Some a"
  shows "- 512 \<le> a \<and> a \<le> 511"
proof -
  define r where "r = logical_maximum g - logical_minimum g + 1"
  define c where "c = sint v - logical_minimum g - r div 2"
  have r: "0 < r" using assms(1) by (auto simp: axis_ok_def r_def)
  have c: "- (r div 2) \<le> c" "c < r - r div 2" using assms(1) by (auto simp: axis_ok_def r_def c_def)
  have a: "a = c_quot (c * 1024) r" using assms(2) process_axis_value [OF assms(1)] by (simp add: r_def c_def)
  show ?thesis
  proof (cases "0 \<le> c")
    case True
    have "c * 1024 < r * 512" using c by auto
    then have "c * 1024 div r < 512" using r True by (intro div_less_bound) (auto simp: mult.commute)
    moreover have "0 \<le> c * 1024 div r" using True r by (simp add: pos_imp_zdiv_nonneg_iff)
    ultimately show ?thesis using a True r by (simp add: c_quot_nonneg)
  next
    case False
    have "- c * 1024 \<le> r * 512" using c by auto
    then have "- c * 1024 div r \<le> r * 512 div r" using r by (intro zdiv_mono1)
    moreover have "0 \<le> - c * 1024 div r" using False r by (simp add: pos_imp_zdiv_nonneg_iff)
    ultimately show ?thesis using a False r by (simp add: c_quot_neg)
  qed
qed

lemma c_quot_mono: "0 < r \<Longrightarrow> a \<le> b \<Longrightarrow> c_quot a r \<le> c_quot b r"
proof -
  assume r: "0 < r" and ab: "a \<le> b"
  consider "0 \<le> a" | "a < 0" "0 \<le> b" | "b < 0" using ab by linarith
  then show ?thesis
  proof cases
    case 1
    then show ?thesis using r ab by (simp add: c_quot_nonneg zdiv_mono1)
  next
    case 2
    then have "0 \<le> b div r" "0 \<le> (- a) div r" using r by (simp_all add: pos_imp_zdiv_nonneg_iff)
    then show ?thesis using 2 r by (simp add: c_quot_nonneg c_quot_neg)
  next
    case 3
    then have "(- b) div r \<le> (- a) div r" using r ab by (intro zdiv_mono1) auto
    then show ?thesis using 3 r ab by (simp add: c_quot_neg)
  qed
qed

lemma axis_mono:
  assumes "axis_ok g v" "axis_ok g w" "sint v \<le> sint w"
    "uni_hid_parser_process_axis g v = Some a" "uni_hid_parser_process_axis g w = Some b"
  shows "a \<le> b"
proof -
  let ?r = "logical_maximum g - logical_minimum g + 1"
  have "0 < ?r" using assms(1) by (auto simp: axis_ok_def)
  then have "c_quot ((sint v - logical_minimum g - ?r div 2) * 1024) ?r \<le>
      c_quot ((sint w - logical_minimum g - ?r div 2) * 1024) ?r"
    using assms(3) by (intro c_quot_mono) auto
  then show ?thesis
    using assms(4,5) process_axis_value [OF assms(1)] process_axis_value [OF assms(2)] by simp
qed

section \<open>Pedals and hats\<close>

lemma pedal_bounds:
  assumes "logical_minimum g = 0" "0 < logical_maximum g" "logical_maximum g < 2 ^ 21"
    "uint v \<le> logical_maximum g" "uni_hid_parser_process_pedal g v = Some a"
  shows "0 \<le> a \<and> a \<le> 1023 \<and> a = uint v * 1024 div (logical_maximum g + 1)"
proof -
  define r where "r = logical_maximum g + 1"
  have r: "1 < r" "r \<le> 2 ^ 21" "uint v < r" using assms by (auto simp: r_def)
  have "hid_range g = Some r"
    using assms by (simp add: hid_range_def hid_max_def i32_def int32_ok_def r_def)
  then have a: "a = sint ((v * 1024) div word_of_int r)"
    using assms(5) r by (simp add: uni_hid_parser_process_pedal_def)
  have ur: "uint (word_of_int r :: u32) = r" using r by (simp add: uint_word_of_int)
  have uv: "uint (v * 1024) = uint v * 1024" using r by (simp add: uint_word_ariths)
  define q where "q = uint v * 1024 div r"
  have "uint v * 1024 < 1024 * r" using r by simp
  then have q: "0 \<le> q" "q < 1024"
    using r div_less_bound [of r "uint v * 1024" 1024] by (simp_all add: q_def pos_imp_zdiv_nonneg_iff)
  have "uint ((v * 1024) div word_of_int r) = q" by (simp add: uint_div uv ur q_def)
  then have "(v * 1024) div word_of_int r = word_of_int q" by (metis word_of_int_uint)
  then have "a = q" using a q by (simp add: sint_word_of_int_id)
  then show ?thesis using q by (simp add: q_def r_def)
qed

text \<open>The value is not shifted by the minimum: with a minimum above 0 the result leaves the range.\<close>

lemma pedal_shifted:
  "uni_hid_parser_process_pedal
     \<lparr>logical_minimum = 1, logical_maximum = 255, usage_page = 2, report_size = 8, report_count = 1,
      report_id = 0\<rparr> 255 = Some 1024"
  by code_simp

definition opposed :: "u8 \<Rightarrow> bool" where
  "opposed d \<longleftrightarrow> has_flag d DPAD_UP \<and> has_flag d DPAD_DOWN \<or> has_flag d DPAD_LEFT \<and> has_flag d DPAD_RIGHT"

lemma hat_to_dpad_opposed: "\<not> opposed (uni_hid_parser_hat_to_dpad h)"
  by (simp add: uni_hid_parser_hat_to_dpad_def opposed_def has_flag_def)

lemma process_hat_range:
  assumes "logical_minimum g \<le> sint v" "sint v \<le> logical_maximum g"
    "logical_maximum g - logical_minimum g \<le> 7"
  shows "\<exists>h. uni_hid_parser_process_hat g v = Some h \<and> uint h = sint v - logical_minimum g \<and> h < 8"
proof -
  define d where "d = sint v - logical_minimum g"
  have d: "0 \<le> d" "d \<le> 7" using assms by (auto simp: d_def)
  then have "uint (word_of_int d :: u8) = d" by (simp add: uint_word_of_int)
  moreover have "uni_hid_parser_process_hat g v = Some (word_of_int d)"
    using assms d by (simp add: uni_hid_parser_process_hat_def i32_def int32_ok_def d_def [symmetric])
  ultimately show ?thesis using d by (simp add: word_less_def d_def [symmetric])
qed

text \<open>An axis of one unsigned byte.\<close>

definition byte_axis :: hid_globals where
  "byte_axis = \<lparr>logical_minimum = 0, logical_maximum = 255, usage_page = 1, report_size = 8,
     report_count = 1, report_id = 0\<rparr>"

lemma byte_axis_ok: "axis_ok byte_axis v \<longleftrightarrow> 0 \<le> sint v \<and> sint v \<le> 255"
  by (simp add: axis_ok_def byte_axis_def int32_ok_def)

section \<open>Properties\<close>

text \<open>
  For a well-formed descriptor every value in its range is normalised without
  overflow to the documented interval from -512 to 511; the normalisation is monotone, gives -512 at
  an even-sized range's least value and 0 at its centre.
\<close>

theorem axis_normalised:
  assumes "axis_ok g v" "axis_ok g w" "sint v \<le> sint w"
  shows "\<exists>a b. uni_hid_parser_process_axis g v = Some a \<and> uni_hid_parser_process_axis g w = Some b \<and>
    - 512 \<le> a \<and> a \<le> b \<and> b \<le> 511"
proof -
  obtain a b where ab: "uni_hid_parser_process_axis g v = Some a" "uni_hid_parser_process_axis g w = Some b"
    using process_axis_value [OF assms(1)] process_axis_value [OF assms(2)] by blast
  show ?thesis
    using axis_bounds [OF assms(1) ab(1)] axis_bounds [OF assms(2) ab(2)] axis_mono [OF assms ab] ab by blast
qed

theorem axis_normalised_witness:
  "\<exists>a b. uni_hid_parser_process_axis byte_axis 0 = Some a \<and> uni_hid_parser_process_axis byte_axis 255 = Some b \<and>
     - 512 \<le> a \<and> a \<le> b \<and> b \<le> 511"
proof -
  have "axis_ok byte_axis 0" "axis_ok byte_axis 255" "sint (0 :: u32) \<le> sint (255 :: u32)"
    by (simp_all add: byte_axis_ok)
  then show ?thesis by (rule axis_normalised)
qed

text \<open>
  For a descriptor starting at 0 a pedal value is normalised to the exact
  quotient of 1024 times the value by the range, between 0 and 1023.  The minimum is not subtracted:
  for a range starting at 1 the result 1024 lies outside the documented interval.
\<close>

theorem pedal_normalised:
  "(logical_minimum g = 0 \<and> 0 < logical_maximum g \<and> logical_maximum g < 2 ^ 21 \<and> uint v \<le> logical_maximum g \<longrightarrow>
     (\<exists>a. uni_hid_parser_process_pedal g v = Some a \<and> 0 \<le> a \<and> a \<le> 1023 \<and>
        a = uint v * 1024 div (logical_maximum g + 1))) \<and>
   uni_hid_parser_process_pedal (byte_axis\<lparr>logical_minimum := 1\<rparr>) 255 = Some 1024"
proof (intro conjI impI)
  assume h: "logical_minimum g = 0 \<and> 0 < logical_maximum g \<and> logical_maximum g < 2 ^ 21 \<and> uint v \<le> logical_maximum g"
  then have "hid_range g = Some (logical_maximum g + 1)"
    by (simp add: hid_range_def hid_max_def i32_def int32_ok_def)
  then obtain a where "uni_hid_parser_process_pedal g v = Some a"
    using h by (simp add: uni_hid_parser_process_pedal_def)
  with h pedal_bounds [of g v a] show "\<exists>a. uni_hid_parser_process_pedal g v = Some a \<and> 0 \<le> a \<and> a \<le> 1023 \<and>
      a = uint v * 1024 div (logical_maximum g + 1)" by auto
qed code_simp

theorem pedal_normalised_witness: "uni_hid_parser_process_pedal byte_axis 128 = Some 512"
proof -
  have "uint (128 :: u32) = 128" by simp
  then show ?thesis using pedal_normalised [of byte_axis 128] by (simp add: byte_axis_def)
qed

text \<open>
  A hat of at most eight positions is reduced to its offset from the minimum, and
  the direction pad it gives never holds two opposite directions.
\<close>

theorem hat_directions:
  "(logical_minimum g \<le> sint v \<and> sint v \<le> logical_maximum g \<and> logical_maximum g - logical_minimum g \<le> 7 \<longrightarrow>
     (\<exists>h. uni_hid_parser_process_hat g v = Some h \<and> uint h = sint v - logical_minimum g \<and> h < 8)) \<and>
   (\<forall>h. \<not> opposed (uni_hid_parser_hat_to_dpad h))"
  using process_hat_range [of g v] hat_to_dpad_opposed by auto

theorem hat_directions_witness:
  "\<exists>h. uni_hid_parser_process_hat (byte_axis\<lparr>logical_maximum := 7\<rparr>) 3 = Some h \<and> h < 8"
proof -
  have "sint (3 :: u32) = 3" by simp
  then show ?thesis using hat_directions [of "byte_axis\<lparr>logical_maximum := 7\<rparr>" 3] by (auto simp: byte_axis_def)
qed

end
