(* ===== verification/Usage_Parsers.thy ===== *)
theory Usage_Parsers
  imports Hid_Parser Controller
begin

text \<open>
  The report parsers of bluepad32_component/parser that work on HID usages: generic, Android,
  8BitDo, Nimbus, OUYA, smart TV remote and Xbox One (two firmware layouts), and the raw parser of
  the Atari joystick.  Each \<open>parse_usage\<close> of the source is a pair of nested switches on the usage
  page and the usage; its model is a table of pages, each a table of usages with the statements of
  the case as a list of actions.  A usage without a case only logs and has no entry.  The signed
  parameter \<open>value\<close> is kept as its 32 bits.

  One lemma says that the actions keep a well-formed gamepad well-formed; each parser then only
  needs its table checked.
\<close>

section \<open>Usages\<close>

definition HID_USAGE_PAGE_GENERIC_DESKTOP :: u16 where [simp]: "HID_USAGE_PAGE_GENERIC_DESKTOP = 0x01"
definition HID_USAGE_PAGE_SIMULATION_CONTROLS :: u16 where [simp]: "HID_USAGE_PAGE_SIMULATION_CONTROLS = 0x02"
definition HID_USAGE_PAGE_GENERIC_DEVICE_CONTROLS :: u16 where [simp]: "HID_USAGE_PAGE_GENERIC_DEVICE_CONTROLS = 0x06"
definition HID_USAGE_PAGE_KEYBOARD_KEYPAD :: u16 where [simp]: "HID_USAGE_PAGE_KEYBOARD_KEYPAD = 0x07"
definition HID_USAGE_PAGE_BUTTON :: u16 where [simp]: "HID_USAGE_PAGE_BUTTON = 0x09"
definition HID_USAGE_PAGE_CONSUMER :: u16 where [simp]: "HID_USAGE_PAGE_CONSUMER = 0x0c"
definition HID_USAGE_KB_NONE :: u16 where [simp]: "HID_USAGE_KB_NONE = 0x00"
definition HID_USAGE_KB_C :: u16 where [simp]: "HID_USAGE_KB_C = 0x06"
definition HID_USAGE_KB_D :: u16 where [simp]: "HID_USAGE_KB_D = 0x07"
definition HID_USAGE_KB_E :: u16 where [simp]: "HID_USAGE_KB_E = 0x08"
definition HID_USAGE_KB_F :: u16 where [simp]: "HID_USAGE_KB_F = 0x09"
definition HID_USAGE_KB_G :: u16 where [simp]: "HID_USAGE_KB_G = 0x0a"
definition HID_USAGE_KB_H :: u16 where [simp]: "HID_USAGE_KB_H = 0x0b"
definition HID_USAGE_KB_I :: u16 where [simp]: "HID_USAGE_KB_I = 0x0c"
definition HID_USAGE_KB_J :: u16 where [simp]: "HID_USAGE_KB_J = 0x0d"
definition HID_USAGE_KB_K :: u16 where [simp]: "HID_USAGE_KB_K = 0x0e"
definition HID_USAGE_KB_M :: u16 where [simp]: "HID_USAGE_KB_M = 0x10"
definition HID_USAGE_KB_N :: u16 where [simp]: "HID_USAGE_KB_N = 0x11"
definition HID_USAGE_KB_O :: u16 where [simp]: "HID_USAGE_KB_O = 0x12"
definition HID_USAGE_BATTERY_STRENGTH :: u16 where [simp]: "HID_USAGE_BATTERY_STRENGTH = 0x20"
definition HID_USAGE_KB_ENTER :: u16 where [simp]: "HID_USAGE_KB_ENTER = 0x28"
definition HID_USAGE_AXIS_X :: u16 where [simp]: "HID_USAGE_AXIS_X = 0x30"
definition HID_USAGE_AXIS_Y :: u16 where [simp]: "HID_USAGE_AXIS_Y = 0x31"
definition HID_USAGE_AXIS_Z :: u16 where [simp]: "HID_USAGE_AXIS_Z = 0x32"
definition HID_USAGE_AXIS_RX :: u16 where [simp]: "HID_USAGE_AXIS_RX = 0x33"
definition HID_USAGE_AXIS_RY :: u16 where [simp]: "HID_USAGE_AXIS_RY = 0x34"
definition HID_USAGE_AXIS_RZ :: u16 where [simp]: "HID_USAGE_AXIS_RZ = 0x35"
definition HID_USAGE_HAT :: u16 where [simp]: "HID_USAGE_HAT = 0x39"
definition HID_USAGE_MENU :: u16 where [simp]: "HID_USAGE_MENU = 0x40"
definition HID_USAGE_KB_RIGHT_ARROW :: u16 where [simp]: "HID_USAGE_KB_RIGHT_ARROW = 0x4f"
definition HID_USAGE_KB_LEFT_ARROW :: u16 where [simp]: "HID_USAGE_KB_LEFT_ARROW = 0x50"
definition HID_USAGE_KB_DOWN_ARROW :: u16 where [simp]: "HID_USAGE_KB_DOWN_ARROW = 0x51"
definition HID_USAGE_KB_UP_ARROW :: u16 where [simp]: "HID_USAGE_KB_UP_ARROW = 0x52"
definition HID_USAGE_KP_ENTER :: u16 where [simp]: "HID_USAGE_KP_ENTER = 0x58"
definition HID_USAGE_KB_POWER :: u16 where [simp]: "HID_USAGE_KB_POWER = 0x66"
definition HID_USAGE_ASSIGN_SELECTION :: u16 where [simp]: "HID_USAGE_ASSIGN_SELECTION = 0x81"
definition HID_USAGE_ORDER_MOVIE :: u16 where [simp]: "HID_USAGE_ORDER_MOVIE = 0x85"
definition HID_USAGE_SYSTEM_MAIN_MENU :: u16 where [simp]: "HID_USAGE_SYSTEM_MAIN_MENU = 0x85"
definition HID_USAGE_MEDIA_SELECT_TV :: u16 where [simp]: "HID_USAGE_MEDIA_SELECT_TV = 0x89"
definition HID_USAGE_MEDIA_SELECT_SECURITY :: u16 where [simp]: "HID_USAGE_MEDIA_SELECT_SECURITY = 0x99"
definition HID_USAGE_RECORD :: u16 where [simp]: "HID_USAGE_RECORD = 0xb2"
definition HID_USAGE_FAST_FORWARD :: u16 where [simp]: "HID_USAGE_FAST_FORWARD = 0xb3"
definition HID_USAGE_REWIND :: u16 where [simp]: "HID_USAGE_REWIND = 0xb4"
definition HID_USAGE_ACCELERATOR :: u16 where [simp]: "HID_USAGE_ACCELERATOR = 0xc4"
definition HID_USAGE_BRAKE :: u16 where [simp]: "HID_USAGE_BRAKE = 0xc5"
definition HID_USAGE_PLAY_PAUSE :: u16 where [simp]: "HID_USAGE_PLAY_PAUSE = 0xcd"
definition HID_USAGE_KB_LEFT_CONTROL :: u16 where [simp]: "HID_USAGE_KB_LEFT_CONTROL = 0xe0"
definition HID_USAGE_KB_LEFT_SHIFT :: u16 where [simp]: "HID_USAGE_KB_LEFT_SHIFT = 0xe1"
definition HID_USAGE_KB_LEFT_ALT :: u16 where [simp]: "HID_USAGE_KB_LEFT_ALT = 0xe2"
definition HID_USAGE_MUTE :: u16 where [simp]: "HID_USAGE_MUTE = 0xe2"
definition HID_USAGE_KB_LEFT_GUI :: u16 where [simp]: "HID_USAGE_KB_LEFT_GUI = 0xe3"
definition HID_USAGE_KB_RIGHT_CONTROL :: u16 where [simp]: "HID_USAGE_KB_RIGHT_CONTROL = 0xe4"
definition HID_USAGE_KB_RIGHT_SHIFT :: u16 where [simp]: "HID_USAGE_KB_RIGHT_SHIFT = 0xe5"
definition HID_USAGE_KB_RIGHT_ALT :: u16 where [simp]: "HID_USAGE_KB_RIGHT_ALT = 0xe6"
definition HID_USAGE_KB_RIGHT_GUI :: u16 where [simp]: "HID_USAGE_KB_RIGHT_GUI = 0xe7"
definition HID_USAGE_VOLUME_UP :: u16 where [simp]: "HID_USAGE_VOLUME_UP = 0xe9"
definition HID_USAGE_VOLUME_DOWN :: u16 where [simp]: "HID_USAGE_VOLUME_DOWN = 0xea"
definition HID_USAGE_AC_SEARCH :: u16 where [simp]: "HID_USAGE_AC_SEARCH = 0x221"
definition HID_USAGE_AC_HOME :: u16 where [simp]: "HID_USAGE_AC_HOME = 0x223"
definition HID_USAGE_AC_BACK :: u16 where [simp]: "HID_USAGE_AC_BACK = 0x224"

section \<open>Actions\<close>

datatype slot = S_X | S_Y | S_RX | S_RY | S_Brake | S_Throttle

datatype xbox_fw = Fw_V3_1 | Fw_V4_8 | Fw_V5

datatype usage_act =
    Axis_To slot
  | Axis_Neg slot
  | Pedal_To slot
  | Hat_To_Dpad
  | Dpad_Usage
  | Press u16
  | Press_Misc u8
  | Press_Dpad u8
  | Trigger_At slot u16
  | Set_Battery
  | Set_Fw xbox_fw

type_synonym usage_table = "(u16 \<times> usage_act list) list"

datatype ctl_class = Class_None | Class_Gamepad | Class_Mouse | Class_Keyboard | Class_Balance_Board

record controller =
  klass :: ctl_class
  gamepad :: uni_gamepad
  battery :: u8
  fw_version :: xbox_fw

text \<open>
  \<open>init_report\<close> of all these parsers: \<open>memset\<close> and the class.  The firmware version is part of
  the parser's own data and survives.
\<close>

definition init_report :: "controller \<Rightarrow> controller" where
  "init_report c = c\<lparr>klass := Class_Gamepad, gamepad := gamepad_zero, battery := 0\<rparr>"

definition slot_value :: "slot \<Rightarrow> uni_gamepad \<Rightarrow> int" where
  "slot_value s gp = (case s of S_X \<Rightarrow> axis_x gp | S_Y \<Rightarrow> axis_y gp | S_RX \<Rightarrow> axis_rx gp
     | S_RY \<Rightarrow> axis_ry gp | S_Brake \<Rightarrow> brake gp | S_Throttle \<Rightarrow> gp_throttle gp)"

definition put_slot :: "slot \<Rightarrow> int \<Rightarrow> uni_gamepad \<Rightarrow> uni_gamepad" where
  "put_slot s v gp = (case s of S_X \<Rightarrow> gp\<lparr>axis_x := v\<rparr> | S_Y \<Rightarrow> gp\<lparr>axis_y := v\<rparr>
     | S_RX \<Rightarrow> gp\<lparr>axis_rx := v\<rparr> | S_RY \<Rightarrow> gp\<lparr>axis_ry := v\<rparr> | S_Brake \<Rightarrow> gp\<lparr>brake := v\<rparr>
     | S_Throttle \<Rightarrow> gp\<lparr>gp_throttle := v\<rparr>)"

definition TRIGGER_BUTTON_THRESHOLD :: int where [simp]: "TRIGGER_BUTTON_THRESHOLD = 32"

definition gp_act :: "usage_act \<Rightarrow> hid_globals \<Rightarrow> u16 \<Rightarrow> u32 \<Rightarrow> uni_gamepad \<Rightarrow> uni_gamepad option" where
  "gp_act a g us v gp = (case a of
     Axis_To s \<Rightarrow> map_option (\<lambda>x. put_slot s x gp) (uni_hid_parser_process_axis g v)
   | Axis_Neg s \<Rightarrow> map_option (\<lambda>x. put_slot s x gp)
       (Option.bind (uni_hid_parser_process_axis g v) (\<lambda>x. i32 (- x)))
   | Pedal_To s \<Rightarrow> map_option (\<lambda>x. put_slot s x gp) (uni_hid_parser_process_pedal g v)
   | Hat_To_Dpad \<Rightarrow> map_option (\<lambda>h. gp\<lparr>dpad := uni_hid_parser_hat_to_dpad h\<rparr>) (uni_hid_parser_process_hat g v)
   | Dpad_Usage \<Rightarrow> Some (gp\<lparr>dpad := uni_hid_parser_process_dpad us v (dpad gp)\<rparr>)
   | Press b \<Rightarrow> Some (if v \<noteq> 0 then gp\<lparr>buttons := buttons gp OR b\<rparr> else gp)
   | Press_Misc b \<Rightarrow> Some (if v \<noteq> 0 then gp\<lparr>misc_buttons := misc_buttons gp OR b\<rparr> else gp)
   | Press_Dpad b \<Rightarrow> Some (if v \<noteq> 0 then gp\<lparr>dpad := dpad gp OR b\<rparr> else gp)
   | Trigger_At s b \<Rightarrow> Some (if TRIGGER_BUTTON_THRESHOLD \<le> slot_value s gp
       then gp\<lparr>buttons := buttons gp OR b\<rparr> else gp)
   | Set_Battery \<Rightarrow> Some gp
   | Set_Fw f \<Rightarrow> Some gp)"

definition act :: "usage_act \<Rightarrow> hid_globals \<Rightarrow> u16 \<Rightarrow> u32 \<Rightarrow> controller \<Rightarrow> controller option" where
  "act a g us v c = (case a of
     Set_Battery \<Rightarrow> Some (c\<lparr>battery := ucast v\<rparr>)
   | Set_Fw f \<Rightarrow> Some (c\<lparr>fw_version := f\<rparr>)
   | _ \<Rightarrow> map_option (\<lambda>gp. c\<lparr>gamepad := gp\<rparr>) (gp_act a g us v (gamepad c)))"

fun acts :: "usage_act list \<Rightarrow> hid_globals \<Rightarrow> u16 \<Rightarrow> u32 \<Rightarrow> controller \<Rightarrow> controller option" where
  "acts [] g us v c = Some c"
| "acts (a # as) g us v c = Option.bind (act a g us v c) (acts as g us v)"

definition usage_actions :: "(u16 \<times> usage_table) list \<Rightarrow> u16 \<Rightarrow> u16 \<Rightarrow> usage_act list" where
  "usage_actions pages page us =
     (case map_of pages page of None \<Rightarrow> [] | Some t \<Rightarrow> (case map_of t us of None \<Rightarrow> [] | Some as \<Rightarrow> as))"

definition run_usage ::
  "(u16 \<times> usage_table) list \<Rightarrow> hid_globals \<Rightarrow> u16 \<Rightarrow> u16 \<Rightarrow> u32 \<Rightarrow> controller \<Rightarrow> controller option" where
  "run_usage pages g page us v c = acts (usage_actions pages page us) g us v c"

section \<open>The tables\<close>

definition generic_desktop :: usage_table where
  "generic_desktop =
     [(HID_USAGE_AXIS_X, [Axis_To S_X]), (HID_USAGE_AXIS_Y, [Axis_To S_Y]),
      (HID_USAGE_AXIS_Z, [Axis_To S_RX]), (HID_USAGE_AXIS_RX, [Axis_To S_RX]),
      (HID_USAGE_AXIS_RY, [Pedal_To S_RY]), (HID_USAGE_AXIS_RZ, [Axis_To S_RY]),
      (HID_USAGE_HAT, [Hat_To_Dpad]), (HID_USAGE_DPAD_UP, [Dpad_Usage]),
      (HID_USAGE_DPAD_DOWN, [Dpad_Usage]), (HID_USAGE_DPAD_RIGHT, [Dpad_Usage]),
      (HID_USAGE_DPAD_LEFT, [Dpad_Usage])]"

definition generic_simulation :: usage_table where
  "generic_simulation =
     [(HID_USAGE_ACCELERATOR, [Pedal_To S_Throttle]), (HID_USAGE_BRAKE, [Pedal_To S_Brake])]"

definition generic_keyboard :: usage_table where
  "generic_keyboard =
     [(HID_USAGE_KB_NONE, []), (HID_USAGE_KB_ENTER, [Press_Misc MISC_BUTTON_SYSTEM]),
      (HID_USAGE_KB_LEFT_CONTROL, []), (HID_USAGE_KB_LEFT_SHIFT, []),
      (HID_USAGE_KB_LEFT_ALT, []), (HID_USAGE_KB_LEFT_GUI, []), (HID_USAGE_KB_RIGHT_CONTROL, []),
      (HID_USAGE_KB_RIGHT_SHIFT, []), (HID_USAGE_KB_RIGHT_ALT, []), (HID_USAGE_KB_RIGHT_GUI, [])]"

definition generic_device :: usage_table where
  "generic_device =
     [(HID_USAGE_BATTERY_STRENGTH, [Set_Battery])]"

definition generic_button :: usage_table where
  "generic_button =
     [(0x1, [Press BUTTON_A]), (0x2, [Press BUTTON_B]), (0x3, []), (0x4, [Press BUTTON_X]),
      (0x5, [Press BUTTON_Y]), (0x6, []), (0x7, [Press BUTTON_SHOULDER_L]),
      (0x8, [Press BUTTON_SHOULDER_R]), (0x9, []), (0xa, []),
      (0xb, [Press_Misc MISC_BUTTON_SELECT]), (0xc, [Press_Misc MISC_BUTTON_START]),
      (0xd, [Press_Misc MISC_BUTTON_SYSTEM]), (0xe, [Press BUTTON_THUMB_L]),
      (0xf, [Press BUTTON_THUMB_R]), (0x10, [])]"

definition generic_consumer :: usage_table where
  "generic_consumer =
     [(HID_USAGE_FAST_FORWARD, []), (HID_USAGE_REWIND, []), (HID_USAGE_PLAY_PAUSE, []),
      (HID_USAGE_AC_SEARCH, []), (HID_USAGE_AC_HOME, [Press_Misc MISC_BUTTON_START]),
      (HID_USAGE_AC_BACK, [Press_Misc MISC_BUTTON_SELECT])]"

definition generic_pages :: "(u16 \<times> usage_table) list" where
  "generic_pages = [(HID_USAGE_PAGE_GENERIC_DESKTOP, generic_desktop),
     (HID_USAGE_PAGE_SIMULATION_CONTROLS, generic_simulation),
     (HID_USAGE_PAGE_KEYBOARD_KEYPAD, generic_keyboard),
     (HID_USAGE_PAGE_GENERIC_DEVICE_CONTROLS, generic_device),
     (HID_USAGE_PAGE_BUTTON, generic_button),
     (HID_USAGE_PAGE_CONSUMER, generic_consumer)]"

definition android_desktop :: usage_table where
  "android_desktop =
     [(HID_USAGE_AXIS_X, [Axis_To S_X]), (HID_USAGE_AXIS_Y, [Axis_To S_Y]),
      (HID_USAGE_AXIS_Z, [Axis_To S_RX]), (HID_USAGE_AXIS_RZ, [Axis_To S_RY]),
      (HID_USAGE_HAT, [Hat_To_Dpad]), (HID_USAGE_DPAD_UP, [Dpad_Usage]),
      (HID_USAGE_DPAD_DOWN, [Dpad_Usage]), (HID_USAGE_DPAD_RIGHT, [Dpad_Usage]),
      (HID_USAGE_DPAD_LEFT, [Dpad_Usage])]"

definition android_simulation :: usage_table where
  "android_simulation =
     [(HID_USAGE_ACCELERATOR, [Pedal_To S_Throttle]), (HID_USAGE_BRAKE, [Pedal_To S_Brake])]"

definition android_device :: usage_table where
  "android_device =
     [(HID_USAGE_BATTERY_STRENGTH, [Set_Battery])]"

definition android_button :: usage_table where
  "android_button =
     [(0x1, [Press BUTTON_A]), (0x2, [Press BUTTON_B]), (0x3, []), (0x4, [Press BUTTON_X]),
      (0x5, [Press BUTTON_Y]), (0x6, []), (0x7, [Press BUTTON_SHOULDER_L]),
      (0x8, [Press BUTTON_SHOULDER_R]), (0x9, [Press BUTTON_TRIGGER_L]),
      (0xa, [Press BUTTON_TRIGGER_R]), (0xb, [Press_Misc MISC_BUTTON_SELECT]),
      (0xc, [Press_Misc MISC_BUTTON_START]), (0xd, [Press_Misc MISC_BUTTON_SYSTEM]),
      (0xe, [Press BUTTON_THUMB_L]), (0xf, [Press BUTTON_THUMB_R]), (0x11, []), (0x12, []),
      (0x13, [Press BUTTON_TRIGGER_L]), (0x14, [Press BUTTON_TRIGGER_R])]"

definition android_consumer :: usage_table where
  "android_consumer =
     [(HID_USAGE_AC_HOME, [Press_Misc MISC_BUTTON_START]),
      (HID_USAGE_AC_BACK, [Press_Misc MISC_BUTTON_SELECT])]"

definition android_ff01 :: usage_table where
  "android_ff01 =
     []"

definition android_pages :: "(u16 \<times> usage_table) list" where
  "android_pages = [(HID_USAGE_PAGE_GENERIC_DESKTOP, android_desktop),
     (HID_USAGE_PAGE_SIMULATION_CONTROLS, android_simulation),
     (HID_USAGE_PAGE_GENERIC_DEVICE_CONTROLS, android_device),
     (HID_USAGE_PAGE_BUTTON, android_button),
     (HID_USAGE_PAGE_CONSUMER, android_consumer),
     (0xff01, android_ff01)]"

definition bitdo_desktop :: usage_table where
  "bitdo_desktop =
     [(HID_USAGE_AXIS_X, [Axis_To S_X]), (HID_USAGE_AXIS_Y, [Axis_To S_Y]),
      (HID_USAGE_AXIS_Z, [Axis_To S_RX]), (HID_USAGE_AXIS_RZ, [Axis_To S_RY]),
      (HID_USAGE_HAT, [Hat_To_Dpad]), (HID_USAGE_DPAD_UP, [Dpad_Usage]),
      (HID_USAGE_DPAD_DOWN, [Dpad_Usage]), (HID_USAGE_DPAD_RIGHT, [Dpad_Usage]),
      (HID_USAGE_DPAD_LEFT, [Dpad_Usage])]"

definition bitdo_simulation :: usage_table where
  "bitdo_simulation =
     [(HID_USAGE_ACCELERATOR, [Pedal_To S_Throttle]), (HID_USAGE_BRAKE, [Pedal_To S_Brake])]"

definition bitdo_button :: usage_table where
  "bitdo_button =
     [(0x1, [Press BUTTON_B]), (0x2, [Press BUTTON_A]), (0x3, [Press_Misc MISC_BUTTON_SYSTEM]),
      (0x4, [Press BUTTON_Y]), (0x5, [Press BUTTON_X]), (0x6, []),
      (0x7, [Press BUTTON_SHOULDER_L]), (0x8, [Press BUTTON_SHOULDER_R]),
      (0x9, [Press BUTTON_TRIGGER_L]), (0xa, [Press BUTTON_TRIGGER_R]),
      (0xb, [Press_Misc MISC_BUTTON_SELECT]), (0xc, [Press_Misc MISC_BUTTON_START]),
      (0xd, [Press_Misc MISC_BUTTON_SYSTEM]), (0xe, [Press BUTTON_THUMB_L]),
      (0xf, [Press BUTTON_THUMB_R]), (0x10, [])]"

definition bitdo_device :: usage_table where
  "bitdo_device =
     [(HID_USAGE_BATTERY_STRENGTH, [Set_Battery])]"

definition bitdo_keyboard :: usage_table where
  "bitdo_keyboard =
     [(HID_USAGE_KB_NONE, []), (HID_USAGE_KB_C, [Press_Dpad DPAD_UP]),
      (HID_USAGE_KB_D, [Press_Dpad DPAD_DOWN]), (HID_USAGE_KB_E, [Press_Dpad DPAD_LEFT]),
      (HID_USAGE_KB_F, [Press_Dpad DPAD_RIGHT]), (HID_USAGE_KB_G, [Press BUTTON_B]),
      (HID_USAGE_KB_H, [Press BUTTON_Y]), (HID_USAGE_KB_I, [Press BUTTON_X]),
      (HID_USAGE_KB_J, [Press BUTTON_A]), (HID_USAGE_KB_K, [Press BUTTON_SHOULDER_L]),
      (HID_USAGE_KB_M, [Press BUTTON_SHOULDER_R]),
      (HID_USAGE_KB_N, [Press_Misc MISC_BUTTON_SELECT]),
      (HID_USAGE_KB_O, [Press_Misc MISC_BUTTON_START]), (HID_USAGE_KB_LEFT_CONTROL, []),
      (HID_USAGE_KB_LEFT_SHIFT, []), (HID_USAGE_KB_LEFT_ALT, []), (HID_USAGE_KB_LEFT_GUI, []),
      (HID_USAGE_KB_RIGHT_CONTROL, []), (HID_USAGE_KB_RIGHT_SHIFT, []),
      (HID_USAGE_KB_RIGHT_ALT, []), (HID_USAGE_KB_RIGHT_GUI, [])]"

definition bitdo_pages :: "(u16 \<times> usage_table) list" where
  "bitdo_pages = [(HID_USAGE_PAGE_GENERIC_DESKTOP, bitdo_desktop),
     (HID_USAGE_PAGE_SIMULATION_CONTROLS, bitdo_simulation),
     (HID_USAGE_PAGE_BUTTON, bitdo_button),
     (HID_USAGE_PAGE_GENERIC_DEVICE_CONTROLS, bitdo_device),
     (HID_USAGE_PAGE_KEYBOARD_KEYPAD, bitdo_keyboard)]"

definition nimbus_desktop :: usage_table where
  "nimbus_desktop =
     [(HID_USAGE_AXIS_X, [Axis_To S_X]), (HID_USAGE_AXIS_Y, [Axis_Neg S_Y]),
      (HID_USAGE_AXIS_Z, [Axis_To S_RX]), (HID_USAGE_AXIS_RZ, [Axis_Neg S_RY]),
      (HID_USAGE_HAT, [Hat_To_Dpad]), (HID_USAGE_DPAD_UP, [Dpad_Usage]),
      (HID_USAGE_DPAD_DOWN, [Dpad_Usage]), (HID_USAGE_DPAD_RIGHT, [Dpad_Usage]),
      (HID_USAGE_DPAD_LEFT, [Dpad_Usage])]"

definition nimbus_simulation :: usage_table where
  "nimbus_simulation =
     [(HID_USAGE_ACCELERATOR, [Pedal_To S_Throttle]), (HID_USAGE_BRAKE, [Pedal_To S_Brake])]"

definition nimbus_device :: usage_table where
  "nimbus_device =
     [(HID_USAGE_BATTERY_STRENGTH, [Set_Battery])]"

definition nimbus_button :: usage_table where
  "nimbus_button =
     [(0x1, [Press BUTTON_A]), (0x2, [Press BUTTON_B]), (0x3, [Press BUTTON_X]),
      (0x4, [Press BUTTON_Y]), (0x5, [Press BUTTON_SHOULDER_L]),
      (0x6, [Press BUTTON_SHOULDER_R]), (0x7, [Press BUTTON_TRIGGER_L, Pedal_To S_Brake]),
      (0x8, [Press BUTTON_TRIGGER_R, Pedal_To S_Throttle])]"

definition nimbus_consumer :: usage_table where
  "nimbus_consumer =
     [(HID_USAGE_AC_SEARCH, []), (HID_USAGE_AC_HOME, [Press_Misc MISC_BUTTON_SYSTEM]),
      (HID_USAGE_AC_BACK, [])]"

definition nimbus_pages :: "(u16 \<times> usage_table) list" where
  "nimbus_pages = [(HID_USAGE_PAGE_GENERIC_DESKTOP, nimbus_desktop),
     (HID_USAGE_PAGE_SIMULATION_CONTROLS, nimbus_simulation),
     (HID_USAGE_PAGE_GENERIC_DEVICE_CONTROLS, nimbus_device),
     (HID_USAGE_PAGE_BUTTON, nimbus_button),
     (HID_USAGE_PAGE_CONSUMER, nimbus_consumer)]"

definition ouya_desktop :: usage_table where
  "ouya_desktop =
     [(HID_USAGE_AXIS_X, [Axis_To S_X]), (HID_USAGE_AXIS_Y, [Axis_To S_Y]),
      (HID_USAGE_AXIS_Z, [Pedal_To S_Brake]), (HID_USAGE_AXIS_RX, [Axis_To S_RX]),
      (HID_USAGE_AXIS_RY, [Axis_To S_RY]), (HID_USAGE_AXIS_RZ, [Pedal_To S_Throttle])]"

definition ouya_button :: usage_table where
  "ouya_button =
     [(0x1, [Press BUTTON_A]), (0x2, [Press BUTTON_X]), (0x3, [Press BUTTON_Y]),
      (0x4, [Press BUTTON_B]), (0x5, [Press BUTTON_SHOULDER_L]),
      (0x6, [Press BUTTON_SHOULDER_R]), (0x7, [Press BUTTON_THUMB_L]),
      (0x8, [Press BUTTON_THUMB_R]), (0x9, [Press_Dpad DPAD_UP]), (0xa, [Press_Dpad DPAD_DOWN]),
      (0xb, [Press_Dpad DPAD_LEFT]), (0xc, [Press_Dpad DPAD_RIGHT]),
      (0xd, [Press BUTTON_TRIGGER_L]), (0xe, [Press BUTTON_TRIGGER_R]),
      (0xf, [Press_Misc MISC_BUTTON_SYSTEM]), (0x10, [])]"

definition ouya_ff00 :: usage_table where
  "ouya_ff00 =
     []"

definition ouya_pages :: "(u16 \<times> usage_table) list" where
  "ouya_pages = [(HID_USAGE_PAGE_GENERIC_DESKTOP, ouya_desktop),
     (HID_USAGE_PAGE_BUTTON, ouya_button),
     (0xff00, ouya_ff00)]"

definition smarttv_device :: usage_table where
  "smarttv_device =
     [(HID_USAGE_BATTERY_STRENGTH, [Set_Battery])]"

definition smarttv_keyboard :: usage_table where
  "smarttv_keyboard =
     [(0x0, []), (HID_USAGE_KB_RIGHT_ARROW, [Press_Dpad DPAD_RIGHT]),
      (HID_USAGE_KB_LEFT_ARROW, [Press_Dpad DPAD_LEFT]),
      (HID_USAGE_KB_DOWN_ARROW, [Press_Dpad DPAD_DOWN]),
      (HID_USAGE_KB_UP_ARROW, [Press_Dpad DPAD_UP]), (HID_USAGE_KP_ENTER, [Press BUTTON_A]),
      (HID_USAGE_KB_POWER, []), (0xf1, [Press_Misc MISC_BUTTON_SELECT])]"

definition smarttv_consumer :: usage_table where
  "smarttv_consumer =
     [(HID_USAGE_MENU, [Press_Misc MISC_BUTTON_SYSTEM]), (HID_USAGE_MEDIA_SELECT_TV, []),
      (HID_USAGE_FAST_FORWARD, []), (HID_USAGE_REWIND, []), (HID_USAGE_PLAY_PAUSE, []),
      (HID_USAGE_MUTE, []), (HID_USAGE_VOLUME_UP, []), (HID_USAGE_VOLUME_DOWN, []),
      (HID_USAGE_AC_SEARCH, []), (HID_USAGE_AC_HOME, [Press_Misc MISC_BUTTON_START])]"

definition smarttv_pages :: "(u16 \<times> usage_table) list" where
  "smarttv_pages = [(HID_USAGE_PAGE_GENERIC_DEVICE_CONTROLS, smarttv_device),
     (HID_USAGE_PAGE_KEYBOARD_KEYPAD, smarttv_keyboard),
     (HID_USAGE_PAGE_CONSUMER, smarttv_consumer)]"

definition xbox_v3_desktop :: usage_table where
  "xbox_v3_desktop =
     [(HID_USAGE_AXIS_X, [Axis_To S_X]), (HID_USAGE_AXIS_Y, [Axis_To S_Y]),
      (HID_USAGE_AXIS_Z, [Pedal_To S_Brake]), (HID_USAGE_AXIS_RX, [Axis_To S_RX]),
      (HID_USAGE_AXIS_RY, [Axis_To S_RY]), (HID_USAGE_AXIS_RZ, [Pedal_To S_Throttle]),
      (HID_USAGE_HAT, [Hat_To_Dpad]),
      (HID_USAGE_SYSTEM_MAIN_MENU, [Press_Misc MISC_BUTTON_SYSTEM]),
      (HID_USAGE_DPAD_UP, [Dpad_Usage]), (HID_USAGE_DPAD_DOWN, [Dpad_Usage]),
      (HID_USAGE_DPAD_RIGHT, [Dpad_Usage]), (HID_USAGE_DPAD_LEFT, [Dpad_Usage])]"

definition xbox_v3_device :: usage_table where
  "xbox_v3_device =
     [(HID_USAGE_BATTERY_STRENGTH, [Set_Battery])]"

definition xbox_v3_button :: usage_table where
  "xbox_v3_button =
     [(0x1, [Press BUTTON_A]), (0x2, [Press BUTTON_B]), (0x3, [Press BUTTON_X]),
      (0x4, [Press BUTTON_Y]), (0x5, [Press BUTTON_SHOULDER_L]),
      (0x6, [Press BUTTON_SHOULDER_R]), (0x7, [Press_Misc MISC_BUTTON_SELECT]),
      (0x8, [Press_Misc MISC_BUTTON_START]), (0x9, [Press BUTTON_THUMB_L]),
      (0xa, [Press BUTTON_THUMB_R]), (0xf, [Set_Fw Fw_V4_8])]"

definition xbox_v3_consumer :: usage_table where
  "xbox_v3_consumer =
     [(HID_USAGE_RECORD, []), (HID_USAGE_AC_BACK, [])]"

definition xbox_v3_pages :: "(u16 \<times> usage_table) list" where
  "xbox_v3_pages = [(HID_USAGE_PAGE_GENERIC_DESKTOP, xbox_v3_desktop),
     (HID_USAGE_PAGE_GENERIC_DEVICE_CONTROLS, xbox_v3_device),
     (HID_USAGE_PAGE_BUTTON, xbox_v3_button),
     (HID_USAGE_PAGE_CONSUMER, xbox_v3_consumer)]"

definition xbox_v4_desktop :: usage_table where
  "xbox_v4_desktop =
     [(HID_USAGE_AXIS_X, [Axis_To S_X]), (HID_USAGE_AXIS_Y, [Axis_To S_Y]),
      (HID_USAGE_AXIS_Z, [Axis_To S_RX]), (HID_USAGE_AXIS_RZ, [Axis_To S_RY]),
      (HID_USAGE_HAT, [Hat_To_Dpad]),
      (HID_USAGE_SYSTEM_MAIN_MENU, [Press_Misc MISC_BUTTON_SYSTEM]),
      (HID_USAGE_DPAD_UP, [Dpad_Usage]), (HID_USAGE_DPAD_DOWN, [Dpad_Usage]),
      (HID_USAGE_DPAD_RIGHT, [Dpad_Usage]), (HID_USAGE_DPAD_LEFT, [Dpad_Usage])]"

definition xbox_v4_simulation :: usage_table where
  "xbox_v4_simulation =
     [(0xc4, [Pedal_To S_Throttle, Trigger_At S_Throttle BUTTON_TRIGGER_R]),
      (0xc5, [Pedal_To S_Brake, Trigger_At S_Brake BUTTON_TRIGGER_L])]"

definition xbox_v4_device :: usage_table where
  "xbox_v4_device =
     [(HID_USAGE_BATTERY_STRENGTH, [Set_Battery])]"

definition xbox_v4_button :: usage_table where
  "xbox_v4_button =
     [(0x1, [Press BUTTON_A]), (0x2, [Press BUTTON_B]), (0x3, []), (0x4, [Press BUTTON_X]),
      (0x5, [Press BUTTON_Y]), (0x6, []), (0x7, [Press BUTTON_SHOULDER_L]),
      (0x8, [Press BUTTON_SHOULDER_R]), (0x9, []), (0xa, []),
      (0xb, [Press_Misc MISC_BUTTON_SELECT]), (0xc, [Press_Misc MISC_BUTTON_START]),
      (0xd, [Press_Misc MISC_BUTTON_SYSTEM]), (0xe, [Press BUTTON_THUMB_L]),
      (0xf, [Press BUTTON_THUMB_R])]"

definition xbox_v4_consumer :: usage_table where
  "xbox_v4_consumer =
     [(HID_USAGE_RECORD, [Set_Fw Fw_V5, Press_Misc MISC_BUTTON_CAPTURE]),
      (HID_USAGE_AC_BACK, [Press_Misc MISC_BUTTON_SELECT]),
      (HID_USAGE_ASSIGN_SELECTION, []), (HID_USAGE_ORDER_MOVIE, []),
      (HID_USAGE_MEDIA_SELECT_SECURITY, [])]"

definition xbox_v4_pages :: "(u16 \<times> usage_table) list" where
  "xbox_v4_pages = [(HID_USAGE_PAGE_GENERIC_DESKTOP, xbox_v4_desktop),
     (HID_USAGE_PAGE_SIMULATION_CONTROLS, xbox_v4_simulation),
     (HID_USAGE_PAGE_GENERIC_DEVICE_CONTROLS, xbox_v4_device),
     (HID_USAGE_PAGE_BUTTON, xbox_v4_button),
     (HID_USAGE_PAGE_CONSUMER, xbox_v4_consumer)]"

section \<open>The parsers\<close>

text \<open>Of the Xbox parser the layout depends on the firmware version found so far.\<close>

definition uni_hid_parser_xboxone_parse_usage ::
  "hid_globals \<Rightarrow> u16 \<Rightarrow> u16 \<Rightarrow> u32 \<Rightarrow> controller \<Rightarrow> controller option" where
  "uni_hid_parser_xboxone_parse_usage g page us v c =
     (if fw_version c = Fw_V3_1 then run_usage xbox_v3_pages g page us v c
      else run_usage xbox_v4_pages g page us v c)"

text \<open>\<open>uni_hid_parser_xboxone_setup\<close>: the version from the connection type and descriptor length.\<close>

definition uni_hid_parser_xboxone_setup :: "bool \<Rightarrow> nat \<Rightarrow> controller \<Rightarrow> controller" where
  "uni_hid_parser_xboxone_setup is_le descriptor_len c =
     c\<lparr>fw_version := (if is_le then Fw_V5 else if 330 < descriptor_len then Fw_V4_8 else Fw_V3_1)\<rparr>"

datatype parser = P_Generic | P_Android | P_8bitdo | P_Nimbus | P_Ouya | P_Smarttv | P_Xbox

definition parse_usage :: "parser \<Rightarrow> hid_globals \<Rightarrow> u16 \<Rightarrow> u16 \<Rightarrow> u32 \<Rightarrow> controller \<Rightarrow> controller option" where
  "parse_usage p = (case p of
     P_Generic \<Rightarrow> run_usage generic_pages | P_Android \<Rightarrow> run_usage android_pages
   | P_8bitdo \<Rightarrow> run_usage bitdo_pages | P_Nimbus \<Rightarrow> run_usage nimbus_pages
   | P_Ouya \<Rightarrow> run_usage ouya_pages | P_Smarttv \<Rightarrow> run_usage smarttv_pages
   | P_Xbox \<Rightarrow> uni_hid_parser_xboxone_parse_usage)"

text \<open>
  A report (uni_hid_parse_input_report): the state is reset, then every field the descriptor walk
  yields is handed to \<open>parse_usage\<close>.  A field is the globals, page, usage and value.
\<close>

type_synonym field = "hid_globals \<times> u16 \<times> u16 \<times> u32"

fun parse_fields :: "parser \<Rightarrow> field list \<Rightarrow> controller \<Rightarrow> controller option" where
  "parse_fields p [] c = Some c"
| "parse_fields p ((g, page, us, v) # fs) c = Option.bind (parse_usage p g page us v c) (parse_fields p fs)"

definition parse_report :: "parser \<Rightarrow> field list \<Rightarrow> controller \<Rightarrow> controller option" where
  "parse_report p fs c = parse_fields p fs (init_report c)"

section \<open>Well-formed gamepads\<close>

text \<open>Sticks within the documented range and only defined bits set.\<close>

definition bits_ok :: "uni_gamepad \<Rightarrow> bool" where
  "bits_ok gp \<longleftrightarrow> dpad gp AND 0xF0 = 0 \<and> buttons gp AND 0xFC00 = 0 \<and> misc_buttons gp AND 0xF0 = 0"

definition pad_ok :: "uni_gamepad \<Rightarrow> bool" where
  "pad_ok gp \<longleftrightarrow> gamepad_ok gp \<and> bits_ok gp"

text \<open>What a table may do: a stick comes from a normalised axis, a pedal from a pedal.\<close>

fun act_ok :: "usage_act \<Rightarrow> bool" where
  "act_ok (Axis_To s) = (s \<in> {S_X, S_Y, S_RX, S_RY})"
| "act_ok (Axis_Neg s) = (s \<in> {S_X, S_Y, S_RX, S_RY})"
| "act_ok (Pedal_To s) = (s \<in> {S_Brake, S_Throttle})"
| "act_ok (Press b) = (b AND 0xFC00 = 0)"
| "act_ok (Press_Misc b) = (b AND 0xF0 = 0)"
| "act_ok (Press_Dpad b) = (b AND 0xF0 = 0)"
| "act_ok (Trigger_At s b) = (b AND 0xFC00 = 0)"
| "act_ok _ = True"

definition pages_ok :: "(u16 \<times> usage_table) list \<Rightarrow> bool" where
  "pages_ok pages \<longleftrightarrow> list_all (\<lambda>(page, t). list_all (\<lambda>(us, as). list_all act_ok as) t) pages"

lemma or_masked: "(a :: 'a :: len word) AND m = 0 \<Longrightarrow> b AND m = 0 \<Longrightarrow> (a OR b) AND m = 0"
  by (simp add: bit.conj_disj_distrib2)

lemma and_masked: "(a :: 'a :: len word) AND m = 0 \<Longrightarrow> (a AND b) AND m = 0"
  by (metis and.assoc and.commute and_zero_eq)

lemma put_flag_masked: "w AND m = 0 \<Longrightarrow> b AND m = 0 \<Longrightarrow> put_flag on b w AND m = 0"
  by (simp add: put_flag_def or_masked and_masked)

lemma process_dpad_masked: "d AND 0xF0 = 0 \<Longrightarrow> uni_hid_parser_process_dpad us v d AND 0xF0 = 0"
  by (simp add: uni_hid_parser_process_dpad_def put_flag_masked)

lemma hat_to_dpad_masked: "uni_hid_parser_hat_to_dpad h AND 0xF0 = 0"
  by (simp add: uni_hid_parser_hat_to_dpad_def)

lemma process_pedal_defined: "axis_ok g v \<Longrightarrow> \<exists>a. uni_hid_parser_process_pedal g v = Some a"
  using axis_ok_range [of g v] by (auto simp: uni_hid_parser_process_pedal_def axis_ok_def)

lemma process_hat_defined: "axis_ok g v \<Longrightarrow> \<exists>h. uni_hid_parser_process_hat g v = Some h"
  by (auto simp: uni_hid_parser_process_hat_def axis_ok_def i32_def int32_ok_def)

lemma process_axis_defined:
  assumes "axis_ok g v"
  obtains a where "uni_hid_parser_process_axis g v = Some a" "- 512 \<le> a" "a \<le> 511"
  using process_axis_value [OF assms] axis_bounds [OF assms] by blast

lemma gp_act_ok:
  assumes "act_ok a" "axis_ok g v" "pad_ok gp"
  shows "\<exists>gp'. gp_act a g us v gp = Some gp' \<and> pad_ok gp'"
proof -
  obtain x where x: "uni_hid_parser_process_axis g v = Some x" "- 512 \<le> x" "x \<le> 511"
    by (rule process_axis_defined [OF assms(2)])
  obtain p where p: "uni_hid_parser_process_pedal g v = Some p"
    using process_pedal_defined [OF assms(2)] by blast
  obtain h where h: "uni_hid_parser_process_hat g v = Some h"
    using process_hat_defined [OF assms(2)] by blast
  have n: "i32 (- x) = Some (- x)" using x by (simp add: i32_def int32_ok_def)
  show ?thesis
    using assms(1,3) x(2,3)
    by (cases a) (auto simp: gp_act_def x(1) p h n put_slot_def pad_ok_def gamepad_ok_def stick_ok_def
        bits_ok_def or_masked process_dpad_masked hat_to_dpad_masked)
qed

lemma act_keeps:
  assumes "act_ok a" "axis_ok g v" "pad_ok (gamepad c)"
  shows "\<exists>c'. act a g us v c = Some c' \<and> pad_ok (gamepad c')"
  using gp_act_ok [OF assms, of us] assms(3) by (cases a) (auto simp: act_def)

lemma acts_keep:
  "list_all act_ok as \<Longrightarrow> axis_ok g v \<Longrightarrow> pad_ok (gamepad c) \<Longrightarrow>
    \<exists>c'. acts as g us v c = Some c' \<and> pad_ok (gamepad c')"
proof (induction as arbitrary: c)
  case (Cons a as)
  then show ?case using act_keeps [of a g v c us] by fastforce
qed simp

lemma map_of_list_all: "list_all (\<lambda>(k, v). P v) xs \<Longrightarrow> map_of xs k = Some v \<Longrightarrow> P v"
  by (induction xs) (auto split: if_splits)

lemma usage_actions_ok: "pages_ok pages \<Longrightarrow> list_all act_ok (usage_actions pages page us)"
  unfolding usage_actions_def pages_ok_def
  by (auto split: option.splits dest!: map_of_list_all)

section \<open>The tables of the parsers\<close>

lemma parser_tables_ok:
  "pages_ok android_pages" "pages_ok bitdo_pages" "pages_ok nimbus_pages" "pages_ok ouya_pages"
  "pages_ok smarttv_pages" "pages_ok xbox_v3_pages" "pages_ok xbox_v4_pages"
  by code_simp+

lemma parse_usage_ok:
  assumes "p \<noteq> P_Generic" "axis_ok g v" "pad_ok (gamepad c)"
  shows "\<exists>c'. parse_usage p g page us v c = Some c' \<and> pad_ok (gamepad c')"
  using assms(1) acts_keep [OF usage_actions_ok assms(2,3)] parser_tables_ok
  by (cases p) (simp_all add: parse_usage_def run_usage_def uni_hid_parser_xboxone_parse_usage_def)

definition field_ok :: "field \<Rightarrow> bool" where
  "field_ok f = (case f of (g, page, us, v) \<Rightarrow> axis_ok g v)"

lemma parse_fields_ok:
  "p \<noteq> P_Generic \<Longrightarrow> list_all field_ok fs \<Longrightarrow> pad_ok (gamepad c) \<Longrightarrow>
    \<exists>c'. parse_fields p fs c = Some c' \<and> pad_ok (gamepad c')"
proof (induction p fs c rule: parse_fields.induct)
  case (2 p g page us v fs c)
  then obtain c' where c: "parse_usage p g page us v c = Some c'" "pad_ok (gamepad c')"
    using parse_usage_ok [of p g v c page us] by (auto simp: field_ok_def)
  then show ?case using "2.IH" [of c'] "2.prems" by auto
qed simp

lemma pad_ok_zero: "pad_ok gamepad_zero"
  by (simp add: pad_ok_def gamepad_ok_def stick_ok_def bits_ok_def gamepad_zero_def)

lemma parse_report_ok:
  assumes "p \<noteq> P_Generic" "list_all field_ok fs"
  shows "\<exists>c'. parse_report p fs c = Some c' \<and> pad_ok (gamepad c')"
  using parse_fields_ok [OF assms, of "init_report c"]
  by (simp add: parse_report_def init_report_def pad_ok_zero)

text \<open>
  The generic parser has one case of the wrong kind: the second stick's vertical axis, when the
  descriptor calls it Ry, is normalised as a pedal.  A stick left at its centre then reads 512 of
  1023, and its whole travel never gives a negative value.
\<close>

lemma generic_table_not_ok: "\<not> pages_ok generic_pages"
  by code_simp

lemma generic_ry:
  assumes "uint v \<le> 255"
  shows "\<exists>c'. parse_report P_Generic [(byte_axis, HID_USAGE_PAGE_GENERIC_DESKTOP, HID_USAGE_AXIS_RY, v)] c
      = Some c' \<and> axis_ry (gamepad c') = uint v * 4"
proof -
  have "\<exists>a. uni_hid_parser_process_pedal byte_axis v = Some a"
    by (simp add: uni_hid_parser_process_pedal_def hid_range_def hid_max_def byte_axis_def i32_def int32_ok_def)
  then obtain a where a: "uni_hid_parser_process_pedal byte_axis v = Some a" by blast
  have "a = uint v * 4" using pedal_bounds [of byte_axis v a] assms a by (simp add: byte_axis_def)
  moreover have "usage_actions generic_pages 1 0x34 = [Pedal_To S_RY]" by code_simp
  ultimately show ?thesis using a
    by (simp add: parse_report_def parse_usage_def run_usage_def act_def gp_act_def put_slot_def init_report_def)
qed

section \<open>Properties\<close>



text \<open>
  The generic parser normalises the usage Ry as a pedal into the second stick's
  vertical axis: for a byte axis the result is four times the value, never negative, 512 at the
  centre and up to 1020, outside the range of an axis.
\<close>

theorem generic_ry_pedal:
  assumes "uint v \<le> 255"
  shows "\<exists>c'. parse_report P_Generic [(byte_axis, HID_USAGE_PAGE_GENERIC_DESKTOP, HID_USAGE_AXIS_RY, v)] c
      = Some c' \<and> axis_ry (gamepad c') = uint v * 4"
  by (rule generic_ry [OF assms])

theorem generic_ry_pedal_witness:
  "\<exists>c'. parse_report P_Generic [(byte_axis, 1, 0x34, 255)]
     \<lparr>klass = Class_None, gamepad = gamepad_zero, battery = 0, fw_version = Fw_V5\<rparr> = Some c' \<and>
     \<not> event_ok (Ev_Data (gamepad c'))"
proof -
  have "uint (255 :: u32) = 255" by simp
  then show ?thesis
    using generic_ry_pedal [of 255 "\<lparr>klass = Class_None, gamepad = gamepad_zero, battery = 0, fw_version = Fw_V5\<rparr>"]
    by (auto simp: event_ok_def gamepad_ok_def stick_ok_def)
qed

end
