(* ===== verification/Rumble.thy ===== *)
theory Rumble
  imports Usage_Parsers
begin

text \<open>
  The rumble drivers of the Stadia and Xbox controllers (parser/uni_hid_parser_stadia.c and
  uni_hid_parser_xboxone.c): two one-shot timers, a delayed start and a stop, drive a three-state
  machine.  The status of the write (\<open>hids_client_send_write_report\<close>) is an argument of each
  handler, which writes at most once.  \<open>None\<close> is a failed \<open>assert\<close> or a timer added while it is
  already in the run loop's list.

  The part of the state both drivers share is a record of its own that each extends; truncating a
  driver's state to it is the abstraction function, and the shared machine is the specification
  both are shown to refine.
\<close>

section \<open>The shared timer machine\<close>

datatype rumble_state = Rumble_Disabled | Rumble_Delayed | Rumble_In_Progress

record rumble =
  rumble_state :: rumble_state
  timer_delayed_start :: "u16 option"
  timer_duration :: "u16 option"
  rumble_duration_ms :: u16

definition BLE_RETRY_MS :: u16 where [simp]: "BLE_RETRY_MS = 50"
definition ERROR_CODE_SUCCESS :: u8 where [simp]: "ERROR_CODE_SUCCESS = 0"
definition ERROR_CODE_COMMAND_DISALLOWED :: u8 where [simp]: "ERROR_CODE_COMMAND_DISALLOWED = 0x0C"

text \<open>\<open>btstack_run_loop_add_timer\<close> and the removal at the head of a play request.\<close>

definition add_delayed :: "u16 \<Rightarrow> 'a rumble_scheme \<Rightarrow> 'a rumble_scheme option" where
  "add_delayed ms r = (if timer_delayed_start r = None
     then Some (r\<lparr>timer_delayed_start := Some ms, rumble_state := Rumble_Delayed\<rparr>) else None)"

definition add_duration :: "u16 \<Rightarrow> 'a rumble_scheme \<Rightarrow> 'a rumble_scheme option" where
  "add_duration ms r = (if timer_duration r = None
     then Some (r\<lparr>timer_duration := Some ms, rumble_state := Rumble_In_Progress\<rparr>) else None)"

definition remove_timers :: "'a rumble_scheme \<Rightarrow> 'a rumble_scheme" where
  "remove_timers r = (case rumble_state r of
     Rumble_Delayed \<Rightarrow> r\<lparr>timer_delayed_start := None\<rparr>
   | Rumble_In_Progress \<Rightarrow> r\<lparr>timer_duration := None\<rparr>
   | Rumble_Disabled \<Rightarrow> r)"

text \<open>The handlers on the shared part, with the status of the write they make.\<close>

definition rumble_stop_now :: "u8 \<Rightarrow> 'a rumble_scheme \<Rightarrow> 'a rumble_scheme option" where
  "rumble_stop_now st r =
     (if rumble_state r = Rumble_Disabled then None
      else if st = ERROR_CODE_COMMAND_DISALLOWED then add_duration BLE_RETRY_MS r
      else Some (r\<lparr>rumble_state := Rumble_Disabled\<rparr>))"

definition rumble_play_now :: "u8 \<Rightarrow> u16 \<Rightarrow> 'a rumble_scheme \<Rightarrow> 'a rumble_scheme option" where
  "rumble_play_now st dur r =
     (if dur = 0 then (if rumble_state r = Rumble_Disabled then Some r else rumble_stop_now st r)
      else if st = ERROR_CODE_COMMAND_DISALLOWED then add_delayed BLE_RETRY_MS r
      else if st \<noteq> ERROR_CODE_SUCCESS then Some r
      else add_duration dur r)"

definition rumble_play :: "u8 \<Rightarrow> u16 \<Rightarrow> u16 \<Rightarrow> 'a rumble_scheme \<Rightarrow> 'a rumble_scheme option" where
  "rumble_play st delay dur r =
     (if delay = 0 then rumble_play_now st dur (remove_timers r)
      else add_delayed delay ((remove_timers r)\<lparr>rumble_duration_ms := dur\<rparr>))"

text \<open>A one-shot timer leaves the list before its handler runs.\<close>

definition rumble_on :: "u8 \<Rightarrow> 'a rumble_scheme \<Rightarrow> 'a rumble_scheme option" where
  "rumble_on st r = rumble_play_now st (rumble_duration_ms r) (r\<lparr>timer_delayed_start := None\<rparr>)"

definition rumble_off :: "u8 \<Rightarrow> 'a rumble_scheme \<Rightarrow> 'a rumble_scheme option" where
  "rumble_off st r = rumble_stop_now st (r\<lparr>timer_duration := None\<rparr>)"

text \<open>Truncation commutes with the timer operations.\<close>

lemma rumble_truncate:
  "rumble_state (rumble.truncate r) = rumble_state r"
  "timer_delayed_start (rumble.truncate r) = timer_delayed_start r"
  "timer_duration (rumble.truncate r) = timer_duration r"
  "rumble_duration_ms (rumble.truncate r) = rumble_duration_ms r"
  "rumble.truncate (r\<lparr>rumble_state := a\<rparr>) = (rumble.truncate r)\<lparr>rumble_state := a\<rparr>"
  "rumble.truncate (r\<lparr>timer_delayed_start := b\<rparr>) = (rumble.truncate r)\<lparr>timer_delayed_start := b\<rparr>"
  "rumble.truncate (r\<lparr>timer_duration := b\<rparr>) = (rumble.truncate r)\<lparr>timer_duration := b\<rparr>"
  "rumble.truncate (r\<lparr>rumble_duration_ms := d\<rparr>) = (rumble.truncate r)\<lparr>rumble_duration_ms := d\<rparr>"
  by (simp_all add: rumble.truncate_def)

lemma truncate_add:
  "map_option rumble.truncate (add_delayed ms r) = add_delayed ms (rumble.truncate r)"
  "map_option rumble.truncate (add_duration ms r) = add_duration ms (rumble.truncate r)"
  by (simp_all add: add_delayed_def add_duration_def rumble_truncate)

lemma add_duration_state: "add_duration ms (r\<lparr>rumble_state := a\<rparr>) = add_duration ms r"
  by (simp add: add_duration_def)

lemma truncate_remove: "rumble.truncate (remove_timers r) = remove_timers (rumble.truncate r)"
  by (cases "rumble_state r") (simp_all add: remove_timers_def rumble_truncate)

lemmas rumble_defs = rumble_play_def rumble_on_def rumble_off_def rumble_play_now_def
  rumble_stop_now_def add_delayed_def add_duration_def remove_timers_def

text \<open>An armed timer belongs to the state; with no fatal write error the converse holds too.\<close>

definition timers_ok :: "'a rumble_scheme \<Rightarrow> bool" where
  "timers_ok r \<longleftrightarrow> (timer_delayed_start r \<noteq> None \<longrightarrow> rumble_state r = Rumble_Delayed) \<and>
     (timer_duration r \<noteq> None \<longrightarrow> rumble_state r = Rumble_In_Progress)"

definition timers_live :: "'a rumble_scheme \<Rightarrow> bool" where
  "timers_live r \<longleftrightarrow> (timer_delayed_start r \<noteq> None \<longleftrightarrow> rumble_state r = Rumble_Delayed) \<and>
     (timer_duration r \<noteq> None \<longleftrightarrow> rumble_state r = Rumble_In_Progress)"

definition soft_status :: "u8 \<Rightarrow> bool" where
  "soft_status st \<longleftrightarrow> st = ERROR_CODE_SUCCESS \<or> st = ERROR_CODE_COMMAND_DISALLOWED"

lemma timers_play: "timers_ok r \<Longrightarrow> \<exists>r'. rumble_play st delay dur r = Some r' \<and> timers_ok r'"
  by (cases "rumble_state r") (auto simp: rumble_defs timers_ok_def)

lemma timers_on:
  "timers_ok r \<Longrightarrow> timer_delayed_start r \<noteq> None \<Longrightarrow> \<exists>r'. rumble_on st r = Some r' \<and> timers_ok r'"
  by (auto simp: rumble_defs timers_ok_def)

lemma timers_off:
  "timers_ok r \<Longrightarrow> timer_duration r \<noteq> None \<Longrightarrow> \<exists>r'. rumble_off st r = Some r' \<and> timers_ok r'"
  by (auto simp: rumble_defs timers_ok_def)

lemma live_play:
  "timers_live r \<Longrightarrow> soft_status st \<Longrightarrow> rumble_play st delay dur r = Some r' \<Longrightarrow> timers_live r'"
  by (cases "rumble_state r") (auto simp: rumble_defs timers_live_def soft_status_def split: if_splits)

lemma live_on:
  "timers_live r \<Longrightarrow> timer_delayed_start r \<noteq> None \<Longrightarrow> soft_status st \<Longrightarrow> rumble_on st r = Some r' \<Longrightarrow>
    timers_live r'"
  by (auto simp: rumble_defs timers_live_def soft_status_def split: if_splits)

lemma live_off:
  "timers_live r \<Longrightarrow> timer_duration r \<noteq> None \<Longrightarrow> soft_status st \<Longrightarrow> rumble_off st r = Some r' \<Longrightarrow>
    timers_live r'"
  by (auto simp: rumble_defs timers_live_def soft_status_def split: if_splits)

section \<open>A driver that refines the machine\<close>

datatype 'a rumble_event = Play u16 u16 'a u8 | Fire_On u8 | Fire_Off u8

locale rumble_driver =
  fixes play :: "u16 \<Rightarrow> u16 \<Rightarrow> 'arg \<Rightarrow> u8 \<Rightarrow> 's \<Rightarrow> 's option"
    and on :: "u8 \<Rightarrow> 's \<Rightarrow> 's option"
    and off :: "u8 \<Rightarrow> 's \<Rightarrow> 's option"
    and timers :: "'s \<Rightarrow> rumble"
    and eff :: "'s \<Rightarrow> u8 \<Rightarrow> u8"
  assumes play_refines: "map_option timers (play delay dur arg st s) = rumble_play (eff s st) delay dur (timers s)"
    and on_refines: "map_option timers (on st s) = rumble_on (eff s st) (timers s)"
    and off_refines: "map_option timers (off st s) = rumble_off (eff s st) (timers s)"
    and eff_soft: "soft_status st \<Longrightarrow> soft_status (eff s st)"
begin

definition step :: "'arg rumble_event \<Rightarrow> 's \<Rightarrow> 's option" where
  "step e s = (case e of
     Play delay dur arg st \<Rightarrow> play delay dur arg st s
   | Fire_On st \<Rightarrow> on st s
   | Fire_Off st \<Rightarrow> off st s)"

definition enabled :: "'arg rumble_event \<Rightarrow> 's \<Rightarrow> bool" where
  "enabled e s = (case e of
     Play delay dur arg st \<Rightarrow> True
   | Fire_On st \<Rightarrow> timer_delayed_start (timers s) \<noteq> None
   | Fire_Off st \<Rightarrow> timer_duration (timers s) \<noteq> None)"

definition soft :: "'arg rumble_event \<Rightarrow> bool" where
  "soft e = (case e of Play delay dur arg st \<Rightarrow> soft_status st | Fire_On st \<Rightarrow> soft_status st
     | Fire_Off st \<Rightarrow> soft_status st)"

lemma some_timers: "map_option timers x = Some r \<Longrightarrow> \<exists>s'. x = Some s' \<and> timers s' = r"
  by auto

lemma step_ok:
  assumes "timers_ok (timers s)" "enabled e s"
  shows "\<exists>s'. step e s = Some s' \<and> timers_ok (timers s')"
proof (cases e)
  case (Play delay dur arg st)
  then show ?thesis
    using timers_play [OF assms(1), of "eff s st" delay dur] play_refines [of delay dur arg st s]
    by (auto simp: step_def dest: some_timers)
next
  case (Fire_On st)
  then show ?thesis
    using timers_on [OF assms(1), of "eff s st"] on_refines [of st s] assms(2)
    by (auto simp: step_def enabled_def)
next
  case (Fire_Off st)
  then show ?thesis
    using timers_off [OF assms(1), of "eff s st"] off_refines [of st s] assms(2)
    by (auto simp: step_def enabled_def)
qed

lemma step_live:
  assumes "timers_live (timers s)" "enabled e s" "soft e" "step e s = Some s'"
  shows "timers_live (timers s')"
proof (cases e)
  case (Play delay dur arg st)
  then show ?thesis
    using live_play [OF assms(1), of "eff s st" delay dur] play_refines [of delay dur arg st s] assms(3,4)
    by (auto simp: step_def soft_def eff_soft)
next
  case (Fire_On st)
  then show ?thesis
    using live_on [OF assms(1), of "eff s st"] on_refines [of st s] assms(2-4)
    by (auto simp: step_def enabled_def soft_def eff_soft)
next
  case (Fire_Off st)
  then show ?thesis
    using live_off [OF assms(1), of "eff s st"] off_refines [of st s] assms(2-4)
    by (auto simp: step_def enabled_def soft_def eff_soft)
qed

end

section \<open>Stadia\<close>

record stadia_instance = rumble +
  rumble_weak_magnitude :: u16
  rumble_strong_magnitude :: u16
  ff_sent :: "(u16 \<times> u16) list"

text \<open>The last field is the history of the force-feedback reports written: strong, then weak.\<close>

definition uni_hid_parser_stadia_setup :: stadia_instance where
  "uni_hid_parser_stadia_setup = \<lparr>rumble_state = Rumble_Disabled, timer_delayed_start = None,
     timer_duration = None, rumble_duration_ms = 0, rumble_weak_magnitude = 0,
     rumble_strong_magnitude = 0, ff_sent = []\<rparr>"

definition stadia_stop_rumble_now :: "u8 \<Rightarrow> stadia_instance \<Rightarrow> stadia_instance option" where
  "stadia_stop_rumble_now st s =
     (if rumble_state s = Rumble_Disabled then None
      else
        let s = s\<lparr>rumble_state := Rumble_Disabled, ff_sent := ff_sent s @ [(0, 0)]\<rparr> in
        if st = ERROR_CODE_COMMAND_DISALLOWED then add_duration BLE_RETRY_MS s else Some s)"

definition stadia_play_dual_rumble_now ::
  "u16 \<Rightarrow> u8 \<Rightarrow> u8 \<Rightarrow> u8 \<Rightarrow> stadia_instance \<Rightarrow> stadia_instance option" where
  "stadia_play_dual_rumble_now duration_ms weak strong st s =
     (if duration_ms = 0 then
        (if rumble_state s \<noteq> Rumble_Disabled then stadia_stop_rumble_now st s else Some s)
      else
        let s = s\<lparr>ff_sent := ff_sent s @ [(push_bit 8 (ucast strong), push_bit 8 (ucast weak))]\<rparr> in
        if st = ERROR_CODE_COMMAND_DISALLOWED then add_delayed BLE_RETRY_MS s
        else if st \<noteq> ERROR_CODE_SUCCESS then Some s
        else add_duration duration_ms s)"

definition uni_hid_parser_stadia_play_dual_rumble ::
  "u16 \<Rightarrow> u16 \<Rightarrow> u8 \<times> u8 \<Rightarrow> u8 \<Rightarrow> stadia_instance \<Rightarrow> stadia_instance option" where
  "uni_hid_parser_stadia_play_dual_rumble start_delay_ms duration_ms mags st s =
     (let s = remove_timers s in
      if start_delay_ms = 0 then stadia_play_dual_rumble_now duration_ms (fst mags) (snd mags) st s
      else add_delayed start_delay_ms (s\<lparr>rumble_duration_ms := duration_ms,
        rumble_strong_magnitude := ucast (snd mags), rumble_weak_magnitude := ucast (fst mags)\<rparr>))"

definition on_stadia_set_rumble_on :: "u8 \<Rightarrow> stadia_instance \<Rightarrow> stadia_instance option" where
  "on_stadia_set_rumble_on st s =
     stadia_play_dual_rumble_now (rumble_duration_ms s) (ucast (rumble_weak_magnitude s))
       (ucast (rumble_strong_magnitude s)) st (s\<lparr>timer_delayed_start := None\<rparr>)"

definition on_stadia_set_rumble_off :: "u8 \<Rightarrow> stadia_instance \<Rightarrow> stadia_instance option" where
  "on_stadia_set_rumble_off st s = stadia_stop_rumble_now st (s\<lparr>timer_duration := None\<rparr>)"

lemma stadia_truncate:
  "rumble.truncate (s\<lparr>ff_sent := f\<rparr>) = rumble.truncate s"
  "rumble.truncate (s\<lparr>rumble_strong_magnitude := m\<rparr>) = rumble.truncate s"
  "rumble.truncate (s\<lparr>rumble_weak_magnitude := m\<rparr>) = rumble.truncate s"
  by (simp_all add: rumble.truncate_def)

lemmas stadia_defs = uni_hid_parser_stadia_play_dual_rumble_def on_stadia_set_rumble_on_def
  on_stadia_set_rumble_off_def stadia_play_dual_rumble_now_def stadia_stop_rumble_now_def

lemma stadia_stop: "map_option rumble.truncate (stadia_stop_rumble_now st s) = rumble_stop_now st (rumble.truncate s)"
  by (simp add: stadia_stop_rumble_now_def rumble_stop_now_def Let_def truncate_add add_duration_state rumble_truncate stadia_truncate)

lemma stadia_play: "map_option rumble.truncate (stadia_play_dual_rumble_now dur weak strong st s) =
    rumble_play_now st dur (rumble.truncate s)"
  by (simp add: stadia_play_dual_rumble_now_def rumble_play_now_def Let_def truncate_add stadia_stop rumble_truncate stadia_truncate)

interpretation stadia: rumble_driver uni_hid_parser_stadia_play_dual_rumble on_stadia_set_rumble_on
  on_stadia_set_rumble_off rumble.truncate "\<lambda>s st. st"
proof unfold_locales
  show "map_option rumble.truncate (uni_hid_parser_stadia_play_dual_rumble delay dur arg st s) =
      rumble_play st delay dur (rumble.truncate s)" for delay dur arg st s
    by (simp add: uni_hid_parser_stadia_play_dual_rumble_def rumble_play_def Let_def truncate_add
        stadia_play truncate_remove rumble_truncate stadia_truncate)
  show "map_option rumble.truncate (on_stadia_set_rumble_on st s) = rumble_on st (rumble.truncate s)" for st s
    by (simp add: on_stadia_set_rumble_on_def rumble_on_def stadia_play rumble_truncate)
  show "map_option rumble.truncate (on_stadia_set_rumble_off st s) = rumble_off st (rumble.truncate s)" for st s
    by (simp add: on_stadia_set_rumble_off_def rumble_off_def stadia_stop rumble_truncate)
qed

section \<open>Xbox\<close>

text \<open>Only the Bluetooth LE firmware reports a status; for the others the report is just queued.\<close>

record xbox_ff =
  enable_actuators :: u8
  magnitude_left_trigger :: u8
  magnitude_right_trigger :: u8
  magnitude_strong :: u8
  magnitude_weak :: u8
  duration_10ms :: u8
  start_delay_10ms :: u8
  loop_count :: u8

record xbox_mags =
  m_trigger_left :: u8
  m_trigger_right :: u8
  m_weak :: u8
  m_strong :: u8

record xboxone_instance = rumble +
  xbox_version :: xbox_fw
  rumble_mags :: xbox_mags
  xff_sent :: "xbox_ff list"

definition xbox_ff_stop :: xbox_ff where
  "xbox_ff_stop = \<lparr>enable_actuators = 15, magnitude_left_trigger = 0, magnitude_right_trigger = 0,
     magnitude_strong = 0, magnitude_weak = 0, duration_10ms = 0, start_delay_10ms = 0, loop_count = 0\<rparr>"

text \<open>\<open>((uint16_t)(m * 100)) / UINT8_MAX\<close>, stored in a byte.\<close>

definition ff_percent :: "u8 \<Rightarrow> u8" where
  "ff_percent m = ucast ((ucast m * 100 :: u16) div 255)"

definition xbox_ff_play :: "xbox_mags \<Rightarrow> xbox_ff" where
  "xbox_ff_play m = \<lparr>enable_actuators = (if m_trigger_left m \<noteq> 0 then 8 else 0) OR
       (if m_trigger_right m \<noteq> 0 then 4 else 0) OR (if m_weak m \<noteq> 0 then 1 else 0) OR
       (if m_strong m \<noteq> 0 then 2 else 0),
     magnitude_left_trigger = ff_percent (m_trigger_left m),
     magnitude_right_trigger = ff_percent (m_trigger_right m),
     magnitude_strong = ff_percent (m_strong m), magnitude_weak = ff_percent (m_weak m),
     duration_10ms = 255, start_delay_10ms = 0, loop_count = 25\<rparr>"

definition xboxone_instance_zero :: xboxone_instance where
  "xboxone_instance_zero = \<lparr>rumble_state = Rumble_Disabled, timer_delayed_start = None,
     timer_duration = None, rumble_duration_ms = 0, xbox_version = Fw_V3_1,
     rumble_mags = \<lparr>m_trigger_left = 0, m_trigger_right = 0, m_weak = 0, m_strong = 0\<rparr>, xff_sent = []\<rparr>"

datatype xboxone_retry_cmd = Retry_Rumble_On | Retry_Rumble_Off

definition xboxone_retry_cmd :: "xboxone_retry_cmd \<Rightarrow> xboxone_instance \<Rightarrow> xboxone_instance option" where
  "xboxone_retry_cmd cmd s = (case cmd of
     Retry_Rumble_On \<Rightarrow> add_delayed BLE_RETRY_MS s
   | Retry_Rumble_Off \<Rightarrow> add_duration BLE_RETRY_MS s)"

definition xboxone_stop_rumble_now :: "u8 \<Rightarrow> xboxone_instance \<Rightarrow> xboxone_instance option" where
  "xboxone_stop_rumble_now st s =
     (if rumble_state s = Rumble_Disabled then None
      else
        let s = s\<lparr>rumble_state := Rumble_Disabled, xff_sent := xff_sent s @ [xbox_ff_stop]\<rparr> in
        if xbox_version s = Fw_V5 then
          (if st = ERROR_CODE_COMMAND_DISALLOWED then xboxone_retry_cmd Retry_Rumble_Off s else Some s)
        else Some s)"

definition xboxone_play_quad_rumble_now ::
  "u16 \<Rightarrow> xbox_mags \<Rightarrow> u8 \<Rightarrow> xboxone_instance \<Rightarrow> xboxone_instance option" where
  "xboxone_play_quad_rumble_now duration_ms m st s =
     (if duration_ms = 0 then
        (if rumble_state s \<noteq> Rumble_Disabled then xboxone_stop_rumble_now st s else Some s)
      else
        let s = s\<lparr>xff_sent := xff_sent s @ [xbox_ff_play m]\<rparr> in
        if xbox_version s = Fw_V5 \<and> st = ERROR_CODE_COMMAND_DISALLOWED then xboxone_retry_cmd Retry_Rumble_On s
        else if xbox_version s = Fw_V5 \<and> st \<noteq> ERROR_CODE_SUCCESS then Some s
        else add_duration duration_ms s)"

definition xboxone_play_quad_rumble ::
  "u16 \<Rightarrow> u16 \<Rightarrow> xbox_mags \<Rightarrow> u8 \<Rightarrow> xboxone_instance \<Rightarrow> xboxone_instance option" where
  "xboxone_play_quad_rumble start_delay_ms duration_ms m st s =
     (let s = remove_timers s in
      if start_delay_ms = 0 then xboxone_play_quad_rumble_now duration_ms m st s
      else add_delayed start_delay_ms (s\<lparr>rumble_duration_ms := duration_ms, rumble_mags := m\<rparr>))"

definition on_xboxone_set_rumble_on :: "u8 \<Rightarrow> xboxone_instance \<Rightarrow> xboxone_instance option" where
  "on_xboxone_set_rumble_on st s =
     xboxone_play_quad_rumble_now (rumble_duration_ms s) (rumble_mags s) st (s\<lparr>timer_delayed_start := None\<rparr>)"

definition on_xboxone_set_rumble_off :: "u8 \<Rightarrow> xboxone_instance \<Rightarrow> xboxone_instance option" where
  "on_xboxone_set_rumble_off st s = xboxone_stop_rumble_now st (s\<lparr>timer_duration := None\<rparr>)"

definition xbox_status :: "xboxone_instance \<Rightarrow> u8 \<Rightarrow> u8" where
  "xbox_status s st = (if xbox_version s = Fw_V5 then st else ERROR_CODE_SUCCESS)"

lemma xbox_truncate:
  "rumble.truncate (s\<lparr>xff_sent := f\<rparr>) = rumble.truncate s"
  "rumble.truncate (s\<lparr>rumble_mags := m\<rparr>) = rumble.truncate s"
  by (simp_all add: rumble.truncate_def)

lemma xbox_stop: "map_option rumble.truncate (xboxone_stop_rumble_now st s) =
    rumble_stop_now (xbox_status s st) (rumble.truncate s)"
  by (simp add: xboxone_stop_rumble_now_def rumble_stop_now_def xboxone_retry_cmd_def xbox_status_def
      Let_def truncate_add add_duration_state rumble_truncate xbox_truncate)

lemma xbox_play: "map_option rumble.truncate (xboxone_play_quad_rumble_now dur m st s) =
    rumble_play_now (xbox_status s st) dur (rumble.truncate s)"
  by (simp add: xboxone_play_quad_rumble_now_def rumble_play_now_def xboxone_retry_cmd_def xbox_status_def
      Let_def truncate_add xbox_stop rumble_truncate xbox_truncate)

lemma xbox_status_keeps:
  "xbox_status (remove_timers s) = xbox_status s"
  "xbox_status (s\<lparr>timer_delayed_start := a\<rparr>) = xbox_status s"
  "xbox_status (s\<lparr>timer_duration := a\<rparr>) = xbox_status s"
  by (cases "rumble_state s"; simp add: xbox_status_def remove_timers_def fun_eq_iff)+

interpretation xbox: rumble_driver xboxone_play_quad_rumble on_xboxone_set_rumble_on
  on_xboxone_set_rumble_off rumble.truncate xbox_status
proof unfold_locales
  show "map_option rumble.truncate (xboxone_play_quad_rumble delay dur arg st s) =
      rumble_play (xbox_status s st) delay dur (rumble.truncate s)" for delay dur arg st s
    by (simp add: xboxone_play_quad_rumble_def rumble_play_def Let_def truncate_add xbox_play
        xbox_status_keeps truncate_remove rumble_truncate xbox_truncate)
  show "map_option rumble.truncate (on_xboxone_set_rumble_on st s) =
      rumble_on (xbox_status s st) (rumble.truncate s)" for st s
    by (simp add: on_xboxone_set_rumble_on_def rumble_on_def xbox_play xbox_status_keeps rumble_truncate)
  show "map_option rumble.truncate (on_xboxone_set_rumble_off st s) =
      rumble_off (xbox_status s st) (rumble.truncate s)" for st s
    by (simp add: on_xboxone_set_rumble_off_def rumble_off_def xbox_stop xbox_status_keeps rumble_truncate)
  show "soft_status st \<Longrightarrow> soft_status (xbox_status s st)" for st s
    by (simp add: xbox_status_def soft_status_def)
qed

section \<open>Reachable states\<close>

text \<open>
  Requests come at any time, timers fire in any order, and the Xbox parser may change the firmware
  version between events.  The parameter restricts the events that happen.
\<close>

inductive stadia_reach :: "((u8 \<times> u8) rumble_event \<Rightarrow> bool) \<Rightarrow> stadia_instance \<Rightarrow> bool" for P where
  stadia_setup: "stadia_reach P uni_hid_parser_stadia_setup"
| stadia_event: "stadia_reach P s \<Longrightarrow> P e \<Longrightarrow> stadia.enabled e s \<Longrightarrow> stadia.step e s = Some s' \<Longrightarrow>
    stadia_reach P s'"

inductive xbox_reach :: "(xbox_mags rumble_event \<Rightarrow> bool) \<Rightarrow> xboxone_instance \<Rightarrow> bool" for P where
  xbox_setup: "xbox_reach P (xboxone_instance_zero\<lparr>xbox_version := fw\<rparr>)"
| xbox_version: "xbox_reach P s \<Longrightarrow> xbox_reach P (s\<lparr>xbox_version := fw\<rparr>)"
| xbox_event: "xbox_reach P s \<Longrightarrow> P e \<Longrightarrow> xbox.enabled e s \<Longrightarrow> xbox.step e s = Some s' \<Longrightarrow>
    xbox_reach P s'"

lemma timers_truncate: "timers_ok (rumble.truncate s) = timers_ok s" "timers_live (rumble.truncate s) = timers_live s"
  by (simp_all add: timers_ok_def timers_live_def rumble_truncate)

lemma stadia_reach_ok: "stadia_reach P s \<Longrightarrow> timers_ok s"
proof (induction rule: stadia_reach.induct)
  case stadia_setup
  then show ?case by (simp add: uni_hid_parser_stadia_setup_def timers_ok_def)
next
  case (stadia_event s e s')
  then show ?case using stadia.step_ok [of s e] by (auto simp: timers_truncate)
qed

lemma stadia_reach_live: "stadia_reach stadia.soft s \<Longrightarrow> timers_live s"
proof (induction rule: stadia_reach.induct)
  case stadia_setup
  then show ?case by (simp add: uni_hid_parser_stadia_setup_def timers_live_def)
next
  case (stadia_event s e s')
  then show ?case using stadia.step_live [of s e s'] by (simp add: timers_truncate)
qed

lemma timers_version: "timers_ok (s\<lparr>xbox_version := fw\<rparr>) = timers_ok s"
  "timers_live (s\<lparr>xbox_version := fw\<rparr>) = timers_live s"
  by (simp_all add: timers_ok_def timers_live_def)

lemma xbox_reach_ok: "xbox_reach P s \<Longrightarrow> timers_ok s"
proof (induction rule: xbox_reach.induct)
  case (xbox_event s e s')
  then show ?case using xbox.step_ok [of s e] by (auto simp: timers_truncate)
qed (simp_all add: timers_version, simp add: xboxone_instance_zero_def timers_ok_def)

lemma xbox_reach_live: "xbox_reach xbox.soft s \<Longrightarrow> timers_live s"
proof (induction rule: xbox_reach.induct)
  case (xbox_event s e s')
  then show ?case using xbox.step_live [of s e s'] by (simp add: timers_truncate)
qed (simp_all add: timers_version, simp add: xboxone_instance_zero_def timers_live_def)

section \<open>What a request does\<close>

definition stadia_report :: "u8 \<times> u8 \<Rightarrow> u16 \<times> u16" where
  "stadia_report mags = (push_bit 8 (ucast (snd mags)), push_bit 8 (ucast (fst mags)))"

lemma ucast_u8_u16: "ucast (ucast (x :: u8) :: u16) = x"
  by (simp add: ucast_up_ucast_id is_up)

text \<open>A delayed request is written with its own magnitudes when the delay is over, then zero.\<close>

lemma stadia_delayed_cycle:
  assumes "timers_ok s" "delay \<noteq> 0" "dur \<noteq> 0"
  shows "do { s1 \<leftarrow> uni_hid_parser_stadia_play_dual_rumble delay dur mags st s;
      s2 \<leftarrow> on_stadia_set_rumble_on ERROR_CODE_SUCCESS s1;
      s3 \<leftarrow> on_stadia_set_rumble_off ERROR_CODE_SUCCESS s2;
      Some (timer_delayed_start s1, timer_duration s2, rumble_state s3, ff_sent s3) } =
    Some (Some delay, Some dur, Rumble_Disabled, ff_sent s @ [stadia_report mags, (0, 0)])"
  using assms
  by (cases "rumble_state s") (auto simp: stadia_defs add_delayed_def add_duration_def remove_timers_def
      timers_ok_def stadia_report_def ucast_u8_u16 Let_def)

text \<open>
  A request without delay whose write is refused is retried, but with the magnitudes of an earlier
  delayed request: right after the set-up these are zero, and the rumble is lost.
\<close>

lemma stadia_retry_lost:
  assumes "dur \<noteq> 0"
  shows "do { s1 \<leftarrow> uni_hid_parser_stadia_play_dual_rumble 0 dur mags ERROR_CODE_COMMAND_DISALLOWED
        uni_hid_parser_stadia_setup;
      s2 \<leftarrow> on_stadia_set_rumble_on ERROR_CODE_SUCCESS s1;
      Some (rumble_state s2, ff_sent s2) } = Some (Rumble_Disabled, [stadia_report mags, (0, 0)])"
  using assms
  by (simp add: stadia_defs uni_hid_parser_stadia_setup_def add_delayed_def remove_timers_def
      stadia_report_def Let_def)

text \<open>
  A request made while the motors run cancels the stop timer first.  If its write then fails with an
  error other than the retried one, nothing stops the running motors.
\<close>

lemma stadia_stuck:
  assumes "timers_ok s" "rumble_state s = Rumble_In_Progress" "\<not> soft_status st" "dur \<noteq> 0"
  shows "\<exists>s'. uni_hid_parser_stadia_play_dual_rumble 0 dur mags st s = Some s' \<and>
    rumble_state s' = Rumble_In_Progress \<and> timer_duration s' = None \<and> timer_delayed_start s' = None"
  using assms by (auto simp: stadia_defs remove_timers_def timers_ok_def soft_status_def Let_def)

lemma ff_percent_bound: "uint (ff_percent m) = uint m * 100 div 255" "ff_percent m \<le> 100"
proof -
  have m: "uint (ucast m * 100 :: u16) = uint m * 100"
    using uint_bounds_u8 [of m] by (simp add: uint_word_ariths uint_up_ucast is_up)
  have d: "0 \<le> uint m * 100 div 255" "uint m * 100 div 255 \<le> 100"
    using uint_bounds_u8 [of m] by (simp_all add: pos_imp_zdiv_nonneg_iff) 
  then show u: "uint (ff_percent m) = uint m * 100 div 255"
    by (simp add: ff_percent_def unsigned_ucast_eq uint_div m take_bit_int_eq_self)
  then show "ff_percent m \<le> 100" using d by (simp add: word_le_def)
qed

section \<open>Properties\<close>

text \<open>
  In every reachable state of the Stadia rumble driver, whatever statuses the
  writes returned, a play request and the handler of any armed timer run without failing the
  \<open>assert\<close> and without adding a timer twice.
\<close>

theorem stadia_rumble_safe:
  assumes "stadia_reach P s"
  shows "(\<exists>s'. uni_hid_parser_stadia_play_dual_rumble delay dur mags st s = Some s') \<and>
    (timer_delayed_start s \<noteq> None \<longrightarrow> (\<exists>s'. on_stadia_set_rumble_on st s = Some s')) \<and>
    (timer_duration s \<noteq> None \<longrightarrow> (\<exists>s'. on_stadia_set_rumble_off st s = Some s'))"
proof -
  have ok: "timers_ok (rumble.truncate s)" using stadia_reach_ok [OF assms] by (simp add: timers_truncate)
  show ?thesis
    using stadia.step_ok [OF ok, of "Play delay dur mags st"] stadia.step_ok [OF ok, of "Fire_On st"]
      stadia.step_ok [OF ok, of "Fire_Off st"]
    by (auto simp: stadia.step_def stadia.enabled_def rumble_truncate)
qed

theorem stadia_rumble_safe_witness:
  "\<exists>s'. uni_hid_parser_stadia_play_dual_rumble 0 100 (5, 6) 7 uni_hid_parser_stadia_setup = Some s'"
  using stadia_rumble_safe [OF stadia_setup, of 0 100 "(5, 6)" 7] by blast

text \<open>
  The same of the Xbox driver for any firmware versions along the way; and when
  every write succeeded or was refused for a retry, motors that run always have the timer that will
  stop them, and a pending request the timer that will start it.
\<close>

theorem xbox_rumble_safe:
  assumes "xbox_reach P s"
  shows "(\<exists>s'. xboxone_play_quad_rumble delay dur m st s = Some s') \<and>
    (timer_delayed_start s \<noteq> None \<longrightarrow> (\<exists>s'. on_xboxone_set_rumble_on st s = Some s')) \<and>
    (timer_duration s \<noteq> None \<longrightarrow> (\<exists>s'. on_xboxone_set_rumble_off st s = Some s')) \<and>
    (P = xbox.soft \<longrightarrow> (rumble_state s = Rumble_In_Progress \<longleftrightarrow> timer_duration s \<noteq> None) \<and>
       (rumble_state s = Rumble_Delayed \<longleftrightarrow> timer_delayed_start s \<noteq> None))"
proof -
  have ok: "timers_ok (rumble.truncate s)" using xbox_reach_ok [OF assms] by (simp add: timers_truncate)
  have "P = xbox.soft \<Longrightarrow> timers_live s" using assms xbox_reach_live by blast
  then show ?thesis
    using xbox.step_ok [OF ok, of "Play delay dur m st"] xbox.step_ok [OF ok, of "Fire_On st"]
      xbox.step_ok [OF ok, of "Fire_Off st"]
    by (auto simp: xbox.step_def xbox.enabled_def rumble_truncate timers_live_def)
qed

theorem xbox_rumble_safe_witness:
  "\<exists>s'. xboxone_play_quad_rumble 0 100 (rumble_mags xboxone_instance_zero) 0
     (xboxone_instance_zero\<lparr>xbox_version := Fw_V5\<rparr>) = Some s'"
  using xbox_rumble_safe [OF xbox_setup, of 0 100 "rumble_mags xboxone_instance_zero" 0 Fw_V5]
  by blast

text \<open>
  A delayed request, whatever the state and the status of earlier writes, arms the
  delay; when it is over the request's own magnitudes are written and the stop timer armed for its
  duration; when that fires zero magnitudes are written and the driver is idle.
\<close>

theorem rumble_delayed:
  assumes "stadia_reach P s" "delay \<noteq> 0" "dur \<noteq> 0"
  shows "do { s1 \<leftarrow> uni_hid_parser_stadia_play_dual_rumble delay dur mags st s;
      s2 \<leftarrow> on_stadia_set_rumble_on ERROR_CODE_SUCCESS s1;
      s3 \<leftarrow> on_stadia_set_rumble_off ERROR_CODE_SUCCESS s2;
      Some (timer_delayed_start s1, timer_duration s2, rumble_state s3, ff_sent s3) } =
    Some (Some delay, Some dur, Rumble_Disabled, ff_sent s @ [stadia_report mags, (0, 0)])"
  by (rule stadia_delayed_cycle [OF stadia_reach_ok [OF assms(1)] assms(2,3)])

theorem rumble_delayed_witness:
  "do { s1 \<leftarrow> uni_hid_parser_stadia_play_dual_rumble 10 500 (5, 6) 0 uni_hid_parser_stadia_setup;
      s2 \<leftarrow> on_stadia_set_rumble_on ERROR_CODE_SUCCESS s1;
      s3 \<leftarrow> on_stadia_set_rumble_off ERROR_CODE_SUCCESS s2;
      Some (timer_delayed_start s1, timer_duration s2, rumble_state s3, ff_sent s3) } =
    Some (Some 10, Some 500, Rumble_Disabled, [(0x600, 0x500), (0, 0)])"
  using rumble_delayed [OF stadia_setup, of 10 500 "(5, 6)" 0]
  by (simp add: uni_hid_parser_stadia_setup_def stadia_report_def push_bit_eq_mult)

text \<open>
  Two faults of the Stadia driver.  A request without delay that the stack refuses
  for a retry is lost: the retry runs with the stored magnitudes, zero after the set-up, and writes
  only a stop.  And a request made while the motors run, whose write fails with another error, leaves
  the motors running with no timer that would ever stop them.
\<close>

theorem rumble_faults:
  assumes "dur \<noteq> 0" "stadia_reach P s" "rumble_state s = Rumble_In_Progress" "\<not> soft_status st"
  shows "do { s1 \<leftarrow> uni_hid_parser_stadia_play_dual_rumble 0 dur mags ERROR_CODE_COMMAND_DISALLOWED
          uni_hid_parser_stadia_setup;
        s2 \<leftarrow> on_stadia_set_rumble_on ERROR_CODE_SUCCESS s1;
        Some (rumble_state s2, ff_sent s2) } = Some (Rumble_Disabled, [stadia_report mags, (0, 0)]) \<and>
    (\<exists>s'. uni_hid_parser_stadia_play_dual_rumble 0 dur mags st s = Some s' \<and>
      rumble_state s' = Rumble_In_Progress \<and> timer_duration s' = None \<and> timer_delayed_start s' = None)"
  using stadia_retry_lost [OF assms(1)] stadia_stuck [OF stadia_reach_ok [OF assms(2)] assms(3,4,1)] by blast

theorem rumble_faults_witness:
  "\<exists>s s'. stadia_reach (\<lambda>e. True) s \<and> uni_hid_parser_stadia_play_dual_rumble 0 200 (1, 1) 7 s = Some s' \<and>
     rumble_state s' = Rumble_In_Progress \<and> timer_duration s' = None"
proof -
  define s where "s = uni_hid_parser_stadia_setup\<lparr>rumble_state := Rumble_In_Progress,
    timer_duration := Some 100, ff_sent := [(0x600, 0x500)]\<rparr>"
  have "stadia.step (Play 0 100 (5, 6) 0) uni_hid_parser_stadia_setup = Some s"
    by (simp add: stadia.step_def stadia_defs uni_hid_parser_stadia_setup_def s_def remove_timers_def
        add_duration_def push_bit_eq_mult)
  then have r: "stadia_reach (\<lambda>e. True) s"
    using stadia_event [OF stadia_setup, of "\<lambda>e. True" "Play 0 100 (5, 6) 0" s] by (simp add: stadia.enabled_def)
  have "rumble_state s = Rumble_In_Progress" "\<not> soft_status 7" by (simp_all add: s_def soft_status_def)
  then show ?thesis using rumble_faults [OF _ r, of 200 7 "(1, 1)"] r by auto
qed

end
