(* ===== verification/Circular_Buffer.thy ===== *)
theory Circular_Buffer
  imports Prelude
begin

text \<open>
  bluepad32_component/uni_circular_buffer.c: the queue of outgoing reports of a device, a ring of
  32 slots of 128 bytes.  \<open>memcpy\<close> with a negative or too long length, and an index outside the
  ring, are undefined; the operations are options.  The abstraction is the list of queued packets;
  the locale \<open>bounded_queue\<close> is the contract of a FIFO of bounded capacity and is interpreted on
  the ring.
\<close>

section \<open>The ring\<close>

definition UNI_CIRCULAR_BUFFER_SIZE :: nat where [simp]: "UNI_CIRCULAR_BUFFER_SIZE = 32"
definition UNI_CIRCULAR_BUFFER_DATA_SIZE :: int where [simp]: "UNI_CIRCULAR_BUFFER_DATA_SIZE = 128"

datatype cb_error = CB_OK | CB_FULL | CB_EMPTY | CB_TOO_BIG

record cb_slot =
  slot_cid :: int
  slot_data :: "u8 list"
  slot_len :: int

record cbuf =
  cb_buffer :: "cb_slot list"
  head_idx :: nat
  tail_idx :: nat

definition cbuf_zero :: cbuf where
  "cbuf_zero = \<lparr>cb_buffer = replicate 32 \<lparr>slot_cid = 0, slot_data = replicate 128 0, slot_len = 0\<rparr>,
     head_idx = 0, tail_idx = 0\<rparr>"

definition uni_circular_buffer_is_empty :: "cbuf \<Rightarrow> bool" where
  "uni_circular_buffer_is_empty b \<longleftrightarrow> head_idx b = tail_idx b"

definition uni_circular_buffer_is_full :: "cbuf \<Rightarrow> bool" where
  "uni_circular_buffer_is_full b \<longleftrightarrow>
     tail_idx b + 1 = head_idx b \<or> head_idx b = 0 \<and> tail_idx b = UNI_CIRCULAR_BUFFER_SIZE - 1"

definition wrap_inc :: "nat \<Rightarrow> nat" where
  "wrap_inc i = (if i + 1 = UNI_CIRCULAR_BUFFER_SIZE then 0 else i + 1)"

definition uni_circular_buffer_put :: "int \<Rightarrow> u8 list \<Rightarrow> int \<Rightarrow> cbuf \<Rightarrow> (cbuf \<times> cb_error) option" where
  "uni_circular_buffer_put cid dat len b =
     (if uni_circular_buffer_is_full b then Some (b, CB_FULL)
      else if UNI_CIRCULAR_BUFFER_DATA_SIZE \<le> len then Some (b, CB_TOO_BIG)
      else if len < 0 \<or> length dat < nat len then None
      else do {
        s \<leftarrow> read_at (cb_buffer b) (tail_idx b);
        let s' = \<lparr>slot_cid = cid, slot_data = take (nat len) dat @ drop (nat len) (slot_data s),
                  slot_len = len\<rparr>;
        Some (b\<lparr>cb_buffer := (cb_buffer b)[tail_idx b := s'], tail_idx := wrap_inc (tail_idx b)\<rparr>, CB_OK)
      })"

text \<open>The out parameters are written only when a packet is returned.\<close>

definition uni_circular_buffer_get :: "cbuf \<Rightarrow> (cbuf \<times> cb_error \<times> cb_slot option) option" where
  "uni_circular_buffer_get b =
     (if uni_circular_buffer_is_empty b then Some (b, CB_EMPTY, None)
      else do {
        s \<leftarrow> read_at (cb_buffer b) (head_idx b);
        Some (b\<lparr>head_idx := wrap_inc (head_idx b)\<rparr>, CB_OK, Some s)
      })"

definition uni_circular_buffer_reset :: "cbuf \<Rightarrow> cbuf" where
  "uni_circular_buffer_reset b = b\<lparr>head_idx := 0, tail_idx := 0\<rparr>"

section \<open>The queued packets\<close>

definition slot_packet :: "cb_slot \<Rightarrow> int \<times> u8 list" where
  "slot_packet s = (slot_cid s, take (nat (slot_len s)) (slot_data s))"

definition cb_count :: "cbuf \<Rightarrow> nat" where
  "cb_count b = (tail_idx b + 32 - head_idx b) mod 32"

definition cb_packets :: "cbuf \<Rightarrow> (int \<times> u8 list) list" where
  "cb_packets b = map (\<lambda>k. slot_packet (cb_buffer b ! ((head_idx b + k) mod 32))) [0..<cb_count b]"

definition cb_inv :: "cbuf \<Rightarrow> bool" where
  "cb_inv b \<longleftrightarrow> length (cb_buffer b) = 32 \<and> head_idx b < 32 \<and> tail_idx b < 32 \<and>
     (\<forall>s \<in> set (cb_buffer b). length (slot_data s) = 128)"

lemma cb_inv_zero [inv_intros]: "cb_inv cbuf_zero"
  by (simp add: cb_inv_def cbuf_zero_def)

lemma cb_inv_reset [inv_intros]: "cb_inv b \<Longrightarrow> cb_inv (uni_circular_buffer_reset b)"
  by (simp add: cb_inv_def uni_circular_buffer_reset_def)

lemma wrap_inc_mod: "i < 32 \<Longrightarrow> wrap_inc i = (i + 1) mod 32"
  by (auto simp: wrap_inc_def)

lemma count_less: "cb_count b < 32"
  by (simp add: cb_count_def)

lemma mod_32: "a < 64 \<Longrightarrow> a mod 32 = (if a < 32 then a else a - (32 :: nat))"
  using le_mod_geq [of 32 a] by auto

lemma cb_count_cases:
  "cb_inv b \<Longrightarrow> cb_count b =
     (if head_idx b \<le> tail_idx b then tail_idx b - head_idx b else tail_idx b + 32 - head_idx b)"
  unfolding cb_count_def by (subst mod_32) (auto simp: cb_inv_def)

lemma cb_inv_idx: "cb_inv b \<Longrightarrow> head_idx b < 32 \<and> tail_idx b < 32"
  by (simp add: cb_inv_def)

lemma empty_count: "cb_inv b \<Longrightarrow> uni_circular_buffer_is_empty b \<longleftrightarrow> cb_count b = 0"
  using cb_inv_idx [of b] by (auto simp: cb_count_cases uni_circular_buffer_is_empty_def)

lemma full_count: "cb_inv b \<Longrightarrow> uni_circular_buffer_is_full b \<longleftrightarrow> cb_count b = 31"
  using cb_inv_idx [of b] by (auto simp: cb_count_cases uni_circular_buffer_is_full_def)

lemma ring_position:
  assumes "cb_inv b"
  shows "(head_idx b + cb_count b) mod 32 = tail_idx b"
    and "k < cb_count b \<Longrightarrow> (head_idx b + k) mod 32 \<noteq> tail_idx b"
  using cb_inv_idx [OF assms] count_less [of b] cb_count_cases [OF assms]
  by (auto simp: mod_32 split: if_splits)

lemma count_after:
  assumes "cb_inv b" "cb_inv b'"
  shows "tail_idx b' = wrap_inc (tail_idx b) \<Longrightarrow> head_idx b' = head_idx b \<Longrightarrow> cb_count b < 31 \<Longrightarrow>
      cb_count b' = cb_count b + 1"
    and "head_idx b' = wrap_inc (head_idx b) \<Longrightarrow> tail_idx b' = tail_idx b \<Longrightarrow> 0 < cb_count b \<Longrightarrow>
      cb_count b = Suc (cb_count b')"
  using cb_inv_idx [OF assms(1)] cb_inv_idx [OF assms(2)] cb_count_cases [OF assms(1)]
    cb_count_cases [OF assms(2)] by (auto simp: wrap_inc_def split: if_splits)

lemma length_packets: "length (cb_packets b) = cb_count b"
  by (simp add: cb_packets_def)

lemma put_full: "uni_circular_buffer_is_full b \<Longrightarrow> uni_circular_buffer_put cid dat len b = Some (b, CB_FULL)"
  by (simp add: uni_circular_buffer_put_def)

lemma put_ok:
  assumes inv: "cb_inv b" and nf: "cb_count b < 31" and len: "0 \<le> len" "len < 128" "nat len \<le> length dat"
  shows "\<exists>b'. uni_circular_buffer_put cid dat len b = Some (b', CB_OK) \<and> cb_inv b' \<and>
    cb_packets b' = cb_packets b @ [(cid, take (nat len) dat)]"
proof -
  let ?t = "tail_idx b"
  have t: "?t < 32" "length (cb_buffer b) = 32" using inv by (auto simp: cb_inv_def)
  define s' where "s' = \<lparr>slot_cid = cid,
    slot_data = take (nat len) dat @ drop (nat len) (slot_data (cb_buffer b ! ?t)), slot_len = len\<rparr>"
  define b' where "b' = b\<lparr>cb_buffer := (cb_buffer b)[?t := s'], tail_idx := wrap_inc ?t\<rparr>"
  have "\<not> uni_circular_buffer_is_full b" using nf full_count [OF inv] by simp
  then have put: "uni_circular_buffer_put cid dat len b = Some (b', CB_OK)"
    using len t by (simp add: uni_circular_buffer_put_def b'_def s'_def read_at_def)
  have l: "length (slot_data s') = 128"
    using inv len t by (simp add: s'_def cb_inv_def)
  have inv': "cb_inv b'"
    using inv l t by (auto simp: cb_inv_def b'_def wrap_inc_mod dest!: set_update_subset_insert [THEN subsetD])
  have c: "cb_count b' = cb_count b + 1"
    by (rule count_after(1) [OF inv inv']) (simp_all add: b'_def nf)
  have old: "cb_buffer b' ! ((head_idx b' + k) mod 32) = cb_buffer b ! ((head_idx b + k) mod 32)"
    if "k < cb_count b" for k
    using ring_position(2) [OF inv that] by (simp add: b'_def)
  have new: "cb_buffer b' ! ((head_idx b' + cb_count b) mod 32) = s'"
    using ring_position(1) [OF inv] t by (simp add: b'_def)
  have "cb_packets b' = cb_packets b @ [slot_packet s']"
    using old new by (simp add: cb_packets_def c)
  moreover have "slot_packet s' = (cid, take (nat len) dat)"
    using len by (simp add: slot_packet_def s'_def min_def)
  ultimately show ?thesis using put inv' by auto
qed

lemma get_empty: "cb_inv b \<Longrightarrow> cb_packets b = [] \<Longrightarrow> uni_circular_buffer_get b = Some (b, CB_EMPTY, None)"
  using empty_count [of b] length_packets [of b] by (simp add: uni_circular_buffer_get_def)

lemma get_ok:
  assumes inv: "cb_inv b" and ne: "cb_packets b \<noteq> []"
  shows "\<exists>b' s. uni_circular_buffer_get b = Some (b', CB_OK, Some s) \<and> cb_inv b' \<and>
    cb_packets b = slot_packet s # cb_packets b'"
proof -
  let ?h = "head_idx b"
  have h: "?h < 32" "length (cb_buffer b) = 32" using inv by (auto simp: cb_inv_def)
  define b' where "b' = b\<lparr>head_idx := wrap_inc ?h\<rparr>"
  have pos: "0 < cb_count b" unfolding length_packets [symmetric] using ne by simp
  then have get: "uni_circular_buffer_get b = Some (b', CB_OK, Some (cb_buffer b ! ?h))"
    using empty_count [OF inv] h by (simp add: uni_circular_buffer_get_def b'_def read_at_def)
  have inv': "cb_inv b'" using inv by (simp add: cb_inv_def b'_def wrap_inc_mod)
  have c: "cb_count b = Suc (cb_count b')"
    by (rule count_after(2) [OF inv inv']) (simp_all add: b'_def pos)
  have "map (\<lambda>k. slot_packet (cb_buffer b ! ((?h + k) mod 32))) [0..<Suc (cb_count b')] =
      slot_packet (cb_buffer b ! ?h) # cb_packets b'"
    using h by (simp add: cb_packets_def b'_def wrap_inc_mod upt_conv_Cons map_Suc_upt [symmetric]
        mod_add_left_eq del: upt_Suc)
  then show ?thesis using get inv' by (simp add: cb_packets_def c)
qed

section \<open>The contract of a bounded queue\<close>

locale bounded_queue =
  fixes put :: "'a \<Rightarrow> 'q \<Rightarrow> 'q option"
    and get :: "'q \<Rightarrow> ('a \<times> 'q) option"
    and content :: "'q \<Rightarrow> 'a list"
    and ok :: "'q \<Rightarrow> bool"
    and item_ok :: "'a \<Rightarrow> bool"
    and capacity :: nat
  assumes put_room: "ok q \<Longrightarrow> item_ok x \<Longrightarrow> length (content q) < capacity \<Longrightarrow>
      \<exists>q'. put x q = Some q' \<and> ok q' \<and> content q' = content q @ [x]"
    and put_no_room: "ok q \<Longrightarrow> length (content q) = capacity \<Longrightarrow> put x q = None"
    and get_some: "ok q \<Longrightarrow> content q = x # xs \<Longrightarrow> \<exists>q'. get q = Some (x, q') \<and> ok q' \<and> content q' = xs"
    and get_none: "ok q \<Longrightarrow> content q = [] \<Longrightarrow> get q = None"
begin

fun put_all :: "'a list \<Rightarrow> 'q \<Rightarrow> 'q option" where
  "put_all [] q = Some q"
| "put_all (x # xs) q = do { q' \<leftarrow> put x q; put_all xs q' }"

fun get_n :: "nat \<Rightarrow> 'q \<Rightarrow> ('a list \<times> 'q) option" where
  "get_n 0 q = Some ([], q)"
| "get_n (Suc n) q = do { (x, q') \<leftarrow> get q; (xs, q'') \<leftarrow> get_n n q'; Some (x # xs, q'') }"

lemma put_all_ok:
  "ok q \<Longrightarrow> list_all item_ok xs \<Longrightarrow> length (content q) + length xs \<le> capacity \<Longrightarrow>
   \<exists>q'. put_all xs q = Some q' \<and> ok q' \<and> content q' = content q @ xs"
proof (induction xs arbitrary: q)
  case (Cons x xs)
  then obtain q1 where "put x q = Some q1" "ok q1" "content q1 = content q @ [x]"
    using put_room [of q x] by auto
  then show ?case using Cons.IH [of q1] Cons.prems by simp
qed simp

lemma get_n_ok:
  "ok q \<Longrightarrow> content q = xs @ ys \<Longrightarrow>
   \<exists>q'. get_n (length xs) q = Some (xs, q') \<and> ok q' \<and> content q' = ys"
proof (induction xs arbitrary: q)
  case (Cons x xs)
  then obtain q1 where "get q = Some (x, q1)" "ok q1" "content q1 = xs @ ys"
    using get_some [of q x "xs @ ys"] by auto
  then show ?case using Cons.IH [of q1] by auto
qed simp

text \<open>First in, first out: what was queued into an empty queue comes out in order.\<close>

lemma fifo:
  assumes "ok q" "content q = []" "list_all item_ok xs" "length xs \<le> capacity"
  shows "\<exists>q1 q2. put_all xs q = Some q1 \<and> get_n (length xs) q1 = Some (xs, q2) \<and> content q2 = []"
  using put_all_ok [OF assms(1,3)] assms(2,4) get_n_ok [of _ xs "[]"] by fastforce

end

text \<open>The ring as such a queue: a put that reports an error is no put.\<close>

definition ring_put :: "int \<times> u8 list \<Rightarrow> cbuf \<Rightarrow> cbuf option" where
  "ring_put x b = (case uni_circular_buffer_put (fst x) (snd x) (int (length (snd x))) b of
     Some (b', CB_OK) \<Rightarrow> Some b' | _ \<Rightarrow> None)"

definition ring_get :: "cbuf \<Rightarrow> ((int \<times> u8 list) \<times> cbuf) option" where
  "ring_get b = (case uni_circular_buffer_get b of
     Some (b', CB_OK, Some s) \<Rightarrow> Some (slot_packet s, b') | _ \<Rightarrow> None)"

interpretation ring: bounded_queue ring_put ring_get cb_packets cb_inv "\<lambda>x. length (snd x) < 128" 31
proof
  fix q :: cbuf and x :: "int \<times> u8 list"
  assume q: "cb_inv q" and x: "length (snd x) < 128" "length (cb_packets q) < 31"
  then show "\<exists>q'. ring_put x q = Some q' \<and> cb_inv q' \<and> cb_packets q' = cb_packets q @ [x]"
    using put_ok [OF q, of "int (length (snd x))" "snd x" "fst x"]
    by (auto simp: length_packets ring_put_def)
next
  fix q :: cbuf and x :: "int \<times> u8 list"
  assume "cb_inv q" "length (cb_packets q) = 31"
  then show "ring_put x q = None" by (simp add: ring_put_def put_full full_count length_packets)
next
  fix q :: cbuf and x :: "int \<times> u8 list" and xs
  assume "cb_inv q" "cb_packets q = x # xs"
  then show "\<exists>q'. ring_get q = Some (x, q') \<and> cb_inv q' \<and> cb_packets q' = xs"
    using get_ok [of q] by (auto simp: ring_get_def)
next
  fix q :: cbuf
  assume "cb_inv q" "cb_packets q = []"
  then show "ring_get q = None" by (simp add: ring_get_def get_empty)
qed

section \<open>Properties\<close>

text \<open>
  C38: Up to 31 packets shorter than 128 bytes put into an empty ring are all accepted, and
  as many gets return exactly them, in order, and leave the ring empty, wherever the indices stood.
\<close>

theorem ring_fifo:
  assumes "cb_inv b" "uni_circular_buffer_is_empty b" "list_all (\<lambda>x. length (snd x) < 128) xs" "length xs \<le> 31"
  shows "\<exists>b1 b2. ring.put_all xs b = Some b1 \<and> ring.get_n (length xs) b1 = Some (xs, b2) \<and>
    uni_circular_buffer_is_empty b2 \<and> cb_inv b2"
proof -
  have "cb_packets b = []" using assms(1,2) empty_count by (simp add: cb_packets_def)
  then obtain b1 where 1: "ring.put_all xs b = Some b1" "cb_inv b1" "cb_packets b1 = xs @ []"
    using ring.put_all_ok [OF assms(1,3)] assms(4) by auto
  then obtain b2 where 2: "ring.get_n (length xs) b1 = Some (xs, b2)" "cb_inv b2" "cb_packets b2 = []"
    using ring.get_n_ok [of b1 xs "[]"] by auto
  then have "uni_circular_buffer_is_empty b2" using empty_count [OF 2(2)] by (simp add: cb_packets_def)
  with 1 2 show ?thesis by auto
qed

theorem ring_fifo_witness:
  "\<exists>b1 b2. ring.put_all [(1, [7]), (2, [8, 9])] cbuf_zero = Some b1 \<and>
     ring.get_n 2 b1 = Some ([(1, [7]), (2, [8, 9])], b2) \<and> uni_circular_buffer_is_empty b2"
proof -
  let ?xs = "[(1, [7]), (2, [8, 9])] :: (int \<times> u8 list) list"
  have e: "uni_circular_buffer_is_empty cbuf_zero" by (simp add: uni_circular_buffer_is_empty_def cbuf_zero_def)
  have "list_all (\<lambda>x. length (snd x) < 128) ?xs" "length ?xs \<le> 31" "length ?xs = 2" by simp_all
  with ring_fifo [OF cb_inv_zero e, of ?xs] show ?thesis by metis
qed

text \<open>
  The ring of 32 slots is full at 31 packets, and a put into a full ring, or of 128
  bytes or more, changes nothing and reports it: neither the 32 packets nor the 128 bytes the
  header announces fit.
\<close>

theorem ring_limits:
  assumes "cb_inv b"
  shows "(uni_circular_buffer_is_full b \<longleftrightarrow> length (cb_packets b) = 31) \<and>
    (uni_circular_buffer_is_full b \<longrightarrow> uni_circular_buffer_put cid dat len b = Some (b, CB_FULL)) \<and>
    (\<not> uni_circular_buffer_is_full b \<and> 128 \<le> len \<longrightarrow> uni_circular_buffer_put cid dat len b = Some (b, CB_TOO_BIG))"
  using full_count [OF assms] by (auto simp: length_packets uni_circular_buffer_put_def)

theorem ring_limits_witness:
  "uni_circular_buffer_put 5 (replicate 128 0) 128 cbuf_zero = Some (cbuf_zero, CB_TOO_BIG)"
  using ring_limits [OF cb_inv_zero, of 5 "replicate 128 0" 128]
  by (simp add: uni_circular_buffer_is_full_def cbuf_zero_def)

end
