(* ===== verification/Report_Sender.thy ===== *)
theory Report_Sender
  imports Circular_Buffer "HOL-Library.Multiset"
begin

text \<open>
  The sending half of bluepad32_component/uni_hid_device.c: a report is handed to
  \<open>l2cap_send\<close> at once, and queued in the ring of the device when that fails; the queue is drained one
  report per "can send now" event.  What \<open>l2cap_send\<close> answers is a parameter, a function of the
  calls made so far, the last being the one answered.  The abstraction is the pair of what left
  the device and what is queued.
\<close>

section \<open>State\<close>

record sender =
  outgoing_buffer :: cbuf
  l2cap_calls :: "(u16 \<times> u8 list) list"
  delivered :: "(u16 \<times> u8 list) list"
  dropped :: "(u16 \<times> u8 list) list"

type_synonym l2cap = "(u16 \<times> u8 list) list \<Rightarrow> int"

text \<open>The channel passes through an \<open>int16_t\<close> on its way into and out of the ring.\<close>

definition cid_to_ring :: "u16 \<Rightarrow> int" where "cid_to_ring c = sint c"
definition cid_of_ring :: "int \<Rightarrow> u16" where "cid_of_ring c = word_of_int c"

section \<open>Operations\<close>

text \<open>
  \<open>len\<close> is the length argument, \<open>report\<close> the memory behind the pointer, \<open>None\<close> for \<open>NULL\<close>.  What
  the ring refuses, for want of room or for its size, is dropped with a log line.
\<close>

definition uni_hid_device_send_report ::
  "l2cap \<Rightarrow> u16 \<Rightarrow> u8 list option \<Rightarrow> u16 \<Rightarrow> sender \<Rightarrow> sender option" where
  "uni_hid_device_send_report stk cid report len s =
     (if cid = 0 then Some s
      else case report of None \<Rightarrow> Some s | Some r \<Rightarrow>
        if len = 0 then Some s
        else if length r < unat len then None
        else
          let p = (cid, take (unat len) r); s1 = s\<lparr>l2cap_calls := l2cap_calls s @ [p]\<rparr>
          in if stk (l2cap_calls s1) = 0 then Some (s1\<lparr>delivered := delivered s @ [p]\<rparr>)
             else do {
               (b, e) \<leftarrow> uni_circular_buffer_put (cid_to_ring cid) r (int (unat len)) (outgoing_buffer s1);
               Some (if e = CB_OK then s1\<lparr>outgoing_buffer := b\<rparr>
                     else s1\<lparr>outgoing_buffer := b, dropped := dropped s @ [p]\<rparr>)
             })"

text \<open>The length passes through an \<open>int\<close> and back into \<open>uint16_t\<close>.\<close>

definition uni_hid_device_send_queued_reports :: "l2cap \<Rightarrow> sender \<Rightarrow> sender option" where
  "uni_hid_device_send_queued_reports stk s =
     (if uni_circular_buffer_is_empty (outgoing_buffer s) then Some s
      else do {
        (b, e, out) \<leftarrow> uni_circular_buffer_get (outgoing_buffer s);
        case out of
          None \<Rightarrow> Some (s\<lparr>outgoing_buffer := b\<rparr>)
        | Some p \<Rightarrow> uni_hid_device_send_report stk (cid_of_ring (slot_cid p)) (Some (slot_data p))
            (word_of_int (slot_len p)) (s\<lparr>outgoing_buffer := b\<rparr>)
      })"

text \<open>The report goes to the interrupt or the control channel of the connection.\<close>

definition uni_hid_device_send_intr_report ::
  "l2cap \<Rightarrow> u16 \<Rightarrow> u8 list option \<Rightarrow> u16 \<Rightarrow> sender \<Rightarrow> sender option" where
  "uni_hid_device_send_intr_report stk interrupt_cid report len s =
     uni_hid_device_send_report stk interrupt_cid report len s"

definition uni_hid_device_send_ctrl_report ::
  "l2cap \<Rightarrow> u16 \<Rightarrow> u8 list option \<Rightarrow> u16 \<Rightarrow> sender \<Rightarrow> sender option" where
  "uni_hid_device_send_ctrl_report stk control_cid report len s =
     uni_hid_device_send_report stk control_cid report len s"

section \<open>The queue of a sender\<close>

definition queued :: "sender \<Rightarrow> (u16 \<times> u8 list) list" where
  "queued s = map (\<lambda>(c, d). (cid_of_ring c, d)) (cb_packets (outgoing_buffer s))"

text \<open>
  What the code keeps of the ring: channels are non-zero 16 bit numbers and lengths are positive
  and below 128.
\<close>

definition packet_ok :: "int \<times> u8 list \<Rightarrow> bool" where
  "packet_ok p \<longleftrightarrow> cid_of_ring (fst p) \<noteq> 0 \<and> snd p \<noteq> [] \<and> length (snd p) < 128"

definition sender_inv :: "sender \<Rightarrow> bool" where
  "sender_inv s \<longleftrightarrow> cb_inv (outgoing_buffer s) \<and> list_all packet_ok (cb_packets (outgoing_buffer s))"

definition sender_boot :: sender where
  "sender_boot = \<lparr>outgoing_buffer = cbuf_zero, l2cap_calls = [], delivered = [], dropped = []\<rparr>"

lemma sender_inv_boot: "sender_inv sender_boot" "queued sender_boot = []"
  using cb_inv_zero
  by (simp_all add: sender_inv_def sender_boot_def queued_def cb_packets_def cb_count_def)
    (simp_all add: cbuf_zero_def)

lemma cid_round_trip [simp]: "cid_of_ring (cid_to_ring c) = c"
  by (simp add: cid_of_ring_def cid_to_ring_def)

lemma length_queued: "length (queued s) = length (cb_packets (outgoing_buffer s))"
  by (simp add: queued_def)

text \<open>The three fates of a valid report.\<close>

definition report_ok :: "u16 \<times> u8 list \<Rightarrow> bool" where
  "report_ok p \<longleftrightarrow> fst p \<noteq> 0 \<and> snd p \<noteq> [] \<and> length (snd p) < 65536"

lemma send_accepted:
  assumes "report_ok p" "unat len = length (snd p)" "take (unat len) r = snd p" "unat len \<le> length r"
    "stk (l2cap_calls s @ [p]) = 0"
  shows "uni_hid_device_send_report stk (fst p) (Some r) len s =
    Some (s\<lparr>l2cap_calls := l2cap_calls s @ [p], delivered := delivered s @ [p]\<rparr>)"
proof -
  have "len \<noteq> 0" using assms(1,2) by (auto simp: report_ok_def)
  moreover have "(fst p, take (unat len) r) = p" using assms(3) by (cases p) simp
  ultimately show ?thesis using assms by (simp add: uni_hid_device_send_report_def report_ok_def Let_def)
qed

lemma send_refused:
  assumes "sender_inv s" "report_ok p" "unat len = length (snd p)" "take (unat len) r = snd p"
    "unat len \<le> length r" "stk (l2cap_calls s @ [p]) \<noteq> 0"
  shows "\<exists>s'. uni_hid_device_send_report stk (fst p) (Some r) len s = Some s' \<and> sender_inv s' \<and>
    l2cap_calls s' = l2cap_calls s @ [p] \<and> delivered s' = delivered s \<and>
    (if length (queued s) < 31 \<and> length (snd p) < 128
     then queued s' = queued s @ [p] \<and> dropped s' = dropped s
     else queued s' = queued s \<and> dropped s' = dropped s @ [p])"
proof -
  let ?s1 = "s\<lparr>l2cap_calls := l2cap_calls s @ [p]\<rparr>"
  let ?put = "uni_circular_buffer_put (cid_to_ring (fst p)) r (int (unat len)) (outgoing_buffer s)"
  have inv: "cb_inv (outgoing_buffer s)" using assms(1) by (simp add: sender_inv_def)
  have nz: "len \<noteq> 0" using assms(2,3) by (auto simp: report_ok_def)
  have p: "(fst p, take (unat len) r) = p" using assms(4) by (cases p) simp
  have eq: "uni_hid_device_send_report stk (fst p) (Some r) len s = do {
      (b, e) \<leftarrow> ?put;
      Some (if e = CB_OK then ?s1\<lparr>outgoing_buffer := b\<rparr>
            else ?s1\<lparr>outgoing_buffer := b, dropped := dropped s @ [p]\<rparr>) }"
    using assms(2,5,6) nz p by (simp add: uni_hid_device_send_report_def report_ok_def Let_def)
  show ?thesis
  proof (cases "length (queued s) < 31 \<and> length (snd p) < 128")
    case True
    then obtain b where b: "?put = Some (b, CB_OK)" "cb_inv b"
      "cb_packets b = cb_packets (outgoing_buffer s) @ [(cid_to_ring (fst p), snd p)]"
      using put_ok [OF inv, of "int (unat len)" r "cid_to_ring (fst p)"] assms(3-5)
      by (auto simp: length_queued length_packets)
    have "packet_ok (cid_to_ring (fst p), snd p)" using assms(2) True by (simp add: packet_ok_def report_ok_def)
    with True b assms(1) show ?thesis by (auto simp: eq sender_inv_def queued_def)
  next
    case False
    then have "\<exists>e. ?put = Some (outgoing_buffer s, e) \<and> e \<noteq> CB_OK"
    proof (cases "uni_circular_buffer_is_full (outgoing_buffer s)")
      case True
      then show ?thesis by (simp add: put_full)
    next
      case nf: False
      then have "cb_count (outgoing_buffer s) \<noteq> 31" using full_count [OF inv] by simp
      then have "128 \<le> length (snd p)"
        using False count_less [of "outgoing_buffer s"] by (simp add: length_queued length_packets)
      then show ?thesis using nf assms(3) by (simp add: uni_circular_buffer_put_def)
    qed
    then show ?thesis using False assms(1) by (auto simp: eq sender_inv_def queued_def)
  qed
qed

lemma drain_step:
  assumes "sender_inv s" "queued s = p # ps"
  shows "\<exists>b r len. uni_hid_device_send_queued_reports stk s =
      uni_hid_device_send_report stk (fst p) (Some r) len (s\<lparr>outgoing_buffer := b\<rparr>) \<and>
    sender_inv (s\<lparr>outgoing_buffer := b\<rparr>) \<and> queued (s\<lparr>outgoing_buffer := b\<rparr>) = ps \<and>
    report_ok p \<and> length (snd p) < 128 \<and> unat len = length (snd p) \<and> take (unat len) r = snd p \<and>
    unat len \<le> length r"
proof -
  have inv: "cb_inv (outgoing_buffer s)" using assms(1) by (simp add: sender_inv_def)
  have ne: "cb_packets (outgoing_buffer s) \<noteq> []" using assms(2) by (auto simp: queued_def)
  obtain b x where g: "uni_circular_buffer_get (outgoing_buffer s) = Some (b, CB_OK, Some x)" "cb_inv b"
    "cb_packets (outgoing_buffer s) = slot_packet x # cb_packets b"
    using get_ok [OF inv ne] by blast
  have x: "x \<in> set (cb_buffer (outgoing_buffer s))"
    using g(1) inv by (auto simp: uni_circular_buffer_get_def cb_inv_def bind_eq_Some_conv split: if_splits)
  have l: "length (slot_data x) = 128" using x inv by (auto simp: cb_inv_def)
  have ok: "packet_ok (slot_packet x)" "list_all packet_ok (cb_packets b)"
    using assms(1) g(3) by (auto simp: sender_inv_def)
  have p: "p = (cid_of_ring (slot_cid x), take (nat (slot_len x)) (slot_data x))" "queued (s\<lparr>outgoing_buffer := b\<rparr>) = ps"
    using assms(2) g(3) by (auto simp: queued_def slot_packet_def)
  have len: "0 < slot_len x" "slot_len x < 128"
    using ok(1) l by (auto simp: packet_ok_def slot_packet_def)
  have u: "unat (word_of_int (slot_len x) :: u16) = nat (slot_len x)"
    using len by (simp add: unat_eq_nat_uint uint_word_of_int)
  have "\<not> uni_circular_buffer_is_empty (outgoing_buffer s)"
    using empty_count [OF inv] ne length_packets [of "outgoing_buffer s"] by auto
  then have "uni_hid_device_send_queued_reports stk s =
      uni_hid_device_send_report stk (fst p) (Some (slot_data x)) (word_of_int (slot_len x))
        (s\<lparr>outgoing_buffer := b\<rparr>)"
    using g(1) p(1) by (simp add: uni_hid_device_send_queued_reports_def)
  moreover have "sender_inv (s\<lparr>outgoing_buffer := b\<rparr>)" using g(2) ok(2) by (simp add: sender_inv_def)
  moreover have "report_ok p" using ok(1) p(1) by (auto simp: packet_ok_def report_ok_def slot_packet_def)
  moreover have "length (snd p) < 128" using p(1) len by simp
  ultimately show ?thesis using p u l len
    by (intro exI [of _ b] exI [of _ "slot_data x"] exI [of _ "word_of_int (slot_len x)"]) simp
qed

text \<open>A drain sends the oldest report or moves it behind the others.\<close>

lemma drain_effect:
  assumes "sender_inv s" "queued s = p # ps"
  shows "\<exists>s'. uni_hid_device_send_queued_reports stk s = Some s' \<and> sender_inv s' \<and> dropped s' = dropped s \<and>
    l2cap_calls s' = l2cap_calls s @ [p] \<and>
    (if stk (l2cap_calls s @ [p]) = 0 then delivered s' = delivered s @ [p] \<and> queued s' = ps
     else delivered s' = delivered s \<and> queued s' = ps @ [p])"
proof -
  obtain b r len where d: "uni_hid_device_send_queued_reports stk s =
      uni_hid_device_send_report stk (fst p) (Some r) len (s\<lparr>outgoing_buffer := b\<rparr>)"
    "sender_inv (s\<lparr>outgoing_buffer := b\<rparr>)" "queued (s\<lparr>outgoing_buffer := b\<rparr>) = ps"
    "report_ok p" "length (snd p) < 128" "unat len = length (snd p)" "take (unat len) r = snd p" "unat len \<le> length r"
    using drain_step [OF assms] by blast
  have n: "length ps < 31"
    using assms count_less [of "outgoing_buffer s"] by (metis Suc_lessD Suc_less_eq
        length_Cons length_packets length_queued numeral_eq_Suc pred_numeral_simps(2) semiring_norm(26-28))
  show ?thesis
  proof (cases "stk (l2cap_calls s @ [p]) = 0")
    case True
    with send_accepted [OF d(4,6,7,8), of stk "s\<lparr>outgoing_buffer := b\<rparr>"] d(1-3) show ?thesis
      by (simp add: sender_inv_def queued_def)
  next
    case False
    with send_refused [OF d(2,4,6,7,8), of stk] d(1,3,5) n show ?thesis by auto
  qed
qed

section \<open>Runs\<close>

text \<open>What the driver does over time: it sends a report, or the stack reports room.\<close>

datatype send_event = Send "u16 \<times> u8 list" | Drain

definition send_step :: "l2cap \<Rightarrow> send_event \<Rightarrow> sender \<Rightarrow> sender option" where
  "send_step stk ev s = (case ev of
     Send p \<Rightarrow> uni_hid_device_send_report stk (fst p) (Some (snd p)) (word_of_nat (length (snd p))) s
   | Drain \<Rightarrow> uni_hid_device_send_queued_reports stk s)"

fun send_run :: "l2cap \<Rightarrow> send_event list \<Rightarrow> sender \<Rightarrow> sender option" where
  "send_run stk [] s = Some s"
| "send_run stk (ev # evs) s = Option.bind (send_step stk ev s) (send_run stk evs)"

definition event_report_ok :: "send_event \<Rightarrow> bool" where
  "event_report_ok ev = (case ev of Send p \<Rightarrow> report_ok p | Drain \<Rightarrow> True)"

definition sends :: "send_event list \<Rightarrow> (u16 \<times> u8 list) list" where
  "sends evs = concat (map (\<lambda>ev. case ev of Send p \<Rightarrow> [p] | Drain \<Rightarrow> []) evs)"

text \<open>Every report is in exactly one of three places.\<close>

definition accounted :: "sender \<Rightarrow> (u16 \<times> u8 list) multiset" where
  "accounted s = mset (delivered s) + mset (queued s) + mset (dropped s)"

lemma length_word: "report_ok p \<Longrightarrow> unat (word_of_nat (length (snd p)) :: u16) = length (snd p)"
  by (auto simp: report_ok_def unat_of_nat)

lemma step_accepted:
  "report_ok p \<Longrightarrow> stk (l2cap_calls s @ [p]) = 0 \<Longrightarrow>
     send_step stk (Send p) s = Some (s\<lparr>l2cap_calls := l2cap_calls s @ [p], delivered := delivered s @ [p]\<rparr>)"
  unfolding send_step_def send_event.case by (rule send_accepted) (simp_all add: length_word)

lemma step_refused:
  "sender_inv s \<Longrightarrow> report_ok p \<Longrightarrow> stk (l2cap_calls s @ [p]) \<noteq> 0 \<Longrightarrow>
   \<exists>s'. send_step stk (Send p) s = Some s' \<and> sender_inv s' \<and>
     l2cap_calls s' = l2cap_calls s @ [p] \<and> delivered s' = delivered s \<and>
     (if length (queued s) < 31 \<and> length (snd p) < 128
      then queued s' = queued s @ [p] \<and> dropped s' = dropped s
      else queued s' = queued s \<and> dropped s' = dropped s @ [p])"
  unfolding send_step_def send_event.case by (rule send_refused) (simp_all add: length_word)

lemma step_drained:
  "sender_inv s \<Longrightarrow> queued s = p # ps \<Longrightarrow>
   \<exists>s'. send_step stk Drain s = Some s' \<and> sender_inv s' \<and> dropped s' = dropped s \<and>
     l2cap_calls s' = l2cap_calls s @ [p] \<and>
     (if stk (l2cap_calls s @ [p]) = 0 then delivered s' = delivered s @ [p] \<and> queued s' = ps
      else delivered s' = delivered s \<and> queued s' = ps @ [p])"
  unfolding send_step_def send_event.case by (rule drain_effect)

lemma send_step_ok:
  assumes "sender_inv s" "event_report_ok ev"
  shows "\<exists>s'. send_step stk ev s = Some s' \<and> sender_inv s' \<and>
    accounted s' = accounted s + mset (sends [ev]) \<and>
    (dropped s' \<noteq> dropped s \<longrightarrow> length (queued s) = 31 \<or> (\<exists>p. ev = Send p \<and> 128 \<le> length (snd p)))"
proof (cases ev)
  case (Send p)
  then have ok: "report_ok p" using assms(2) by (simp add: event_report_ok_def)
  have le: "length (queued s) \<le> 31"
    using count_less [of "outgoing_buffer s"] by (simp add: length_queued length_packets)
  show ?thesis
  proof (cases "stk (l2cap_calls s @ [p]) = 0")
    case True
    from step_accepted [where s = s and stk = stk, OF ok True] Send assms(1) show ?thesis
      by (simp add: sends_def accounted_def sender_inv_def queued_def)
  next
    case False
    from step_refused [where stk = stk, OF assms(1) ok False] obtain s' where
      "send_step stk ev s = Some s'" "sender_inv s'" "delivered s' = delivered s"
      "if length (queued s) < 31 \<and> length (snd p) < 128
       then queued s' = queued s @ [p] \<and> dropped s' = dropped s
       else queued s' = queued s \<and> dropped s' = dropped s @ [p]"
      unfolding Send by blast
    with Send le show ?thesis by (auto simp: sends_def accounted_def split: if_splits)
  qed
next
  case Drain
  show ?thesis
  proof (cases "queued s")
    case Nil
    then have "cb_packets (outgoing_buffer s) = []" by (simp add: queued_def)
    then have "uni_circular_buffer_is_empty (outgoing_buffer s)"
      using assms(1) empty_count length_packets by (metis list.size(3) sender_inv_def)
    then show ?thesis using assms(1) Drain
      by (simp add: send_step_def uni_hid_device_send_queued_reports_def sends_def)
  next
    case (Cons p ps)
    from step_drained [OF assms(1) Cons, of stk] obtain s' where
      "send_step stk ev s = Some s'" "sender_inv s'" "dropped s' = dropped s"
      "if stk (l2cap_calls s @ [p]) = 0 then delivered s' = delivered s @ [p] \<and> queued s' = ps
       else delivered s' = delivered s \<and> queued s' = ps @ [p]"
      unfolding Drain by blast
    with Cons Drain show ?thesis by (auto simp: sends_def accounted_def split: if_splits)
  qed
qed

lemma send_run_ok:
  "sender_inv s \<Longrightarrow> list_all event_report_ok evs \<Longrightarrow>
   \<exists>s'. send_run stk evs s = Some s' \<and> sender_inv s' \<and> accounted s' = accounted s + mset (sends evs)"
proof (induction evs arbitrary: s)
  case Nil
  then show ?case by (simp add: sends_def)
next
  case (Cons ev evs)
  then obtain s1 where 1: "send_step stk ev s = Some s1" "sender_inv s1"
    "accounted s1 = accounted s + mset (sends [ev])"
    using send_step_ok [of s ev stk] by auto
  obtain s2 where "send_run stk evs s1 = Some s2" "sender_inv s2" "accounted s2 = accounted s1 + mset (sends evs)"
    using Cons.IH [OF 1(2)] Cons.prems(2) by auto
  with 1 show ?case by (auto simp: sends_def)
qed

section \<open>Draining\<close>

lemma drain_empty: "sender_inv s \<Longrightarrow> queued s = [] \<Longrightarrow> send_step stk Drain s = Some s"
proof -
  assume a: "sender_inv s" "queued s = []"
  then have "cb_packets (outgoing_buffer s) = []" by (simp add: queued_def)
  then have "uni_circular_buffer_is_empty (outgoing_buffer s)"
    using a(1) empty_count length_packets by (metis list.size(3) sender_inv_def)
  then show ?thesis by (simp add: send_step_def uni_hid_device_send_queued_reports_def)
qed

text \<open>
  A stack that accepts at least every \<open>k\<close>-th call: the number of drains still needed is bounded by
  a measure that every drain of a non-empty queue decreases.
\<close>

definition drains_left :: "nat \<Rightarrow> sender \<Rightarrow> nat" where
  "drains_left k s = k * length (queued s) - length (l2cap_calls s) mod k"

lemma drain_progress:
  assumes "sender_inv s" "queued s = p # ps" "0 < k" "\<And>h. length h mod k = 0 \<Longrightarrow> stk h = 0"
  shows "\<exists>s'. send_step stk Drain s = Some s' \<and> sender_inv s' \<and> dropped s' = dropped s \<and>
    mset (delivered s') + mset (queued s') = mset (delivered s) + mset (queued s) \<and>
    drains_left k s' < drains_left k s"
proof -
  let ?c = "length (l2cap_calls s)"
  from step_drained [OF assms(1,2), of stk] obtain s' where s': "send_step stk Drain s = Some s'" "sender_inv s'"
    "dropped s' = dropped s" "l2cap_calls s' = l2cap_calls s @ [p]"
    "if stk (l2cap_calls s @ [p]) = 0 then delivered s' = delivered s @ [p] \<and> queued s' = ps
     else delivered s' = delivered s \<and> queued s' = ps @ [p]" by blast
  have m: "?c mod k < k" using assms(3) by simp
  have "drains_left k s' < drains_left k s"
  proof (cases "stk (l2cap_calls s @ [p]) = 0")
    case True
    then have "drains_left k s' \<le> k * length ps" using s'(5) by (simp add: drains_left_def)
    moreover have "drains_left k s = k + k * length ps - ?c mod k" using assms(2) by (simp add: drains_left_def)
    ultimately show ?thesis using m by linarith
  next
    case False
    then have "Suc ?c mod k \<noteq> 0" using assms(4) [of "l2cap_calls s @ [p]"] by auto
    then have "Suc ?c mod k = Suc (?c mod k)" by (simp add: mod_Suc split: if_splits)
    moreover have "length (queued s') = length (queued s)" using False s'(5) assms(2) by simp
    moreover have "?c mod k < k * length (queued s)" using m assms(2) by simp
    ultimately show ?thesis using s'(4) by (simp add: drains_left_def)
  qed
  moreover have "mset (delivered s') + mset (queued s') = mset (delivered s) + mset (queued s)"
    using s'(5) assms(2) by (simp split: if_splits)
  ultimately show ?thesis using s'(1-3) by blast
qed

lemma drains_empty:
  assumes "0 < k" "\<And>h. length h mod k = 0 \<Longrightarrow> stk h = 0"
  shows "sender_inv s \<Longrightarrow> drains_left k s \<le> n \<Longrightarrow>
    \<exists>s'. send_run stk (replicate n Drain) s = Some s' \<and> queued s' = [] \<and> dropped s' = dropped s \<and>
      mset (delivered s') = mset (delivered s) + mset (queued s)"
proof (induction n arbitrary: s)
  case 0
  have "length (l2cap_calls s) mod k < k" using assms(1) by simp
  then have "queued s = []" using 0(2) by (cases "queued s") (auto simp: drains_left_def)
  then show ?case by simp
next
  case (Suc n)
  show ?case
  proof (cases "queued s")
    case Nil
    then have "drains_left k s = 0" by (simp add: drains_left_def)
    then show ?thesis using Suc.IH [OF Suc.prems(1)] drain_empty [OF Suc.prems(1) Nil] by simp
  next
    case (Cons p ps)
    from drain_progress [where stk = stk, OF Suc.prems(1) Cons assms] obtain s1 where s1: "send_step stk Drain s = Some s1"
      "sender_inv s1" "dropped s1 = dropped s"
      "mset (delivered s1) + mset (queued s1) = mset (delivered s) + mset (queued s)"
      "drains_left k s1 < drains_left k s" by blast
    with Suc.prems(2) have "drains_left k s1 \<le> n" by simp
    from Suc.IH [OF s1(2) this] s1 show ?thesis by auto
  qed
qed


section \<open>Properties\<close>

text \<open>
  C20: Whatever \<open>l2cap_send\<close> answers and however sends and drains follow each other,
  the sender never fails, and every report handed to it is in exactly one of three places: delivered,
  in the ring, or dropped.  None is duplicated and none disappears silently.
\<close>

theorem reports_conserved:
  assumes "list_all event_report_ok evs"
  shows "\<exists>s. send_run stk evs sender_boot = Some s \<and>
    mset (delivered s) + mset (queued s) + mset (dropped s) = mset (sends evs) \<and> length (queued s) \<le> 31"
proof -
  obtain s where s: "send_run stk evs sender_boot = Some s" "sender_inv s"
    "accounted s = accounted sender_boot + mset (sends evs)"
    using send_run_ok [OF sender_inv_boot(1) assms] by blast
  have "length (queued s) \<le> 31"
    using count_less [of "outgoing_buffer s"] by (simp add: length_queued length_packets)
  with s show ?thesis by (auto simp: accounted_def sender_inv_boot) (simp_all add: sender_boot_def)
qed

theorem reports_conserved_witness:
  "\<exists>s. send_run (\<lambda>h. - 1) [Send (7, [1]), Send (7, [2]), Drain] sender_boot = Some s \<and>
     mset (delivered s) + mset (queued s) + mset (dropped s) = {#(7, [1]), (7, [2])#} \<and> length (queued s) \<le> 31"
  using reports_conserved [of "[Send (7, [1]), Send (7, [2]), Drain]" "\<lambda>h. - 1"]
  by (simp add: event_report_ok_def report_ok_def sends_def)

text \<open>
  The sender is not a FIFO.  A report sent while others wait overtakes them when
  the stack has room, and a queued report that is refused again goes behind the others.
\<close>

theorem reports_reordered:
  assumes "sender_inv s" "queued s = p # ps" "report_ok q" "ps \<noteq> []"
  shows "(stk (l2cap_calls s @ [q]) = 0 \<longrightarrow>
      (\<exists>s'. send_step stk (Send q) s = Some s' \<and> delivered s' = delivered s @ [q] \<and> queued s' = p # ps)) \<and>
    (stk (l2cap_calls s @ [p]) \<noteq> 0 \<longrightarrow>
      (\<exists>s'. send_step stk Drain s = Some s' \<and> delivered s' = delivered s \<and> queued s' = ps @ [p]))"
  using step_accepted [OF assms(3), of stk s] step_drained [OF assms(1,2), of stk] assms(2)
  by (auto simp: queued_def)

theorem reports_reordered_witness:
  "\<exists>s s'. send_run (\<lambda>h. - 1) [Send (7, [1]), Send (7, [2])] sender_boot = Some s \<and>
     send_step (\<lambda>h. 0) (Send (7, [3])) s = Some s' \<and> delivered s' = [(7, [3])]"
proof -
  let ?l = "\<lambda>h :: (u16 \<times> u8 list) list. - 1 :: int"
  obtain s1 where s1: "send_step ?l (Send (7, [1])) sender_boot = Some s1" "sender_inv s1"
    "queued s1 = [(7, [1])]" "delivered s1 = []"
    using step_refused [OF sender_inv_boot(1), of "(7, [1])" ?l] sender_inv_boot(2)
    by (auto simp: report_ok_def) (simp add: sender_boot_def)
  obtain s2 where s2: "send_step ?l (Send (7, [2])) s1 = Some s2" "sender_inv s2"
    "queued s2 = [(7, [1]), (7, [2])]" "delivered s2 = []"
    using step_refused [OF s1(2), of "(7, [2])" ?l] s1 by (auto simp: report_ok_def)
  from reports_reordered [OF s2(2,3), of "(7, [3])" "\<lambda>h. 0"] s1(1) s2(1,4) show ?thesis
    by (auto simp: report_ok_def)
qed

text \<open>
  C21: No report is stuck.  If the stack accepts at least every \<open>k\<close>-th call, whatever it
  answers to the others, then \<open>k\<close> "can send now" events per queued report empty the ring of any
  sender: every queued report is delivered, once, and none is dropped, although refused reports go
  to the back of the queue.
\<close>

theorem queue_drains:
  assumes "sender_inv s" "0 < k" "\<And>h. length h mod k = 0 \<Longrightarrow> stk h = 0"
  shows "\<exists>s'. send_run stk (replicate (k * length (queued s)) Drain) s = Some s' \<and> queued s' = [] \<and>
    dropped s' = dropped s \<and> mset (delivered s') = mset (delivered s) + mset (queued s)"
  by (rule drains_empty [where stk = stk, OF assms(2,3,1)]) (simp_all add: drains_left_def)

theorem queue_drains_witness:
  "\<exists>s s'. send_run (\<lambda>h. - 1) [Send (7, [1]), Send (7, [2])] sender_boot = Some s \<and> length (queued s) = 2 \<and>
     send_run (\<lambda>h. if length h mod 3 = 0 then 0 else - 1) (replicate 6 Drain) s = Some s' \<and> queued s' = []"
proof -
  let ?l = "\<lambda>h :: (u16 \<times> u8 list) list. - 1 :: int"
  obtain s1 where s1: "send_step ?l (Send (7, [1])) sender_boot = Some s1" "sender_inv s1" "queued s1 = [(7, [1])]"
    using step_refused [OF sender_inv_boot(1), of "(7, [1])" ?l] sender_inv_boot(2) by (auto simp: report_ok_def)
  obtain s2 where s2: "send_step ?l (Send (7, [2])) s1 = Some s2" "sender_inv s2" "queued s2 = [(7, [1]), (7, [2])]"
    using step_refused [OF s1(2), of "(7, [2])" ?l] s1 by (auto simp: report_ok_def)
  have "\<exists>s'. send_run (\<lambda>h. if length h mod 3 = 0 then 0 else - 1) (replicate (3 * length (queued s2)) Drain) s2 = Some s' \<and>
      queued s' = []"
    using queue_drains [OF s2(2), of 3 "\<lambda>h. if length h mod 3 = 0 then 0 else - 1"] by auto
  then show ?thesis using s1(1) s2 by auto
qed

end
