(* ===== verification/C_Utils.thy ===== *)
theory C_Utils
  imports Prelude
begin

text \<open>
  The arithmetic helpers of Bluepad32: \<open>mult_frac\<close> of include/uni_common.h, which scales an integer
  by a fraction in 64 bit arithmetic, and the CRC-32 of uni_utils.c that closes the reports sent to
  a DualShock 4 or a DualSense.  The reference for the first is the truncated quotient of the exact
  product; for the second the receiver's check, and what the check detects.
\<close>

section \<open>Scaling by a fraction\<close>

definition int64_ok :: "int \<Rightarrow> bool" where
  "int64_ok i \<longleftrightarrow> - (2 ^ 63) \<le> i \<and> i < 2 ^ 63"

definition i64 :: "int \<Rightarrow> int option" where
  "i64 i = (if int64_ok i then Some i else None)"

definition c_div64 :: "int \<Rightarrow> int \<Rightarrow> int option" where
  "c_div64 a b = (if b = 0 then None else i64 (c_quot a b))"

definition mult_frac :: "int \<Rightarrow> int \<Rightarrow> int \<Rightarrow> int option" where
  "mult_frac x multiplier divisor = do {
     q \<leftarrow> c_div64 x divisor;
     let r = c_rem x divisor;
     a \<leftarrow> i64 (q * multiplier);
     b \<leftarrow> i64 (r * multiplier);
     c \<leftarrow> c_div64 b divisor;
     i64 (a + c)
   }"

lemma c_rem_sgn: "d \<noteq> 0 \<Longrightarrow> c_rem x d = sgn x * (\<bar>x\<bar> mod \<bar>d\<bar>)"
proof -
  assume "d \<noteq> 0"
  then have "d * (sgn x * sgn d * (\<bar>x\<bar> div \<bar>d\<bar>)) = sgn x * (\<bar>d\<bar> * (\<bar>x\<bar> div \<bar>d\<bar>))"
    by (simp add: abs_sgn)
  also have "\<dots> = sgn x * (\<bar>x\<bar> - \<bar>x\<bar> mod \<bar>d\<bar>)" by (simp add: minus_mod_eq_mult_div [symmetric])
  also have "\<dots> = x - sgn x * (\<bar>x\<bar> mod \<bar>d\<bar>)" by (simp add: right_diff_distrib sgn_mult_abs)
  finally show ?thesis by (simp add: c_rem_def c_quot_def)
qed

lemma c_quot_abs: "\<bar>c_quot a b\<bar> \<le> \<bar>a\<bar>"
proof (cases "b = 0")
  case False
  have "\<bar>a\<bar> div \<bar>b\<bar> \<le> \<bar>a\<bar>" using zdiv_mono2 [of "\<bar>a\<bar>" 1 "\<bar>b\<bar>"] False by simp
  moreover have "0 \<le> \<bar>a\<bar> div \<bar>b\<bar>" using False by (simp add: pos_imp_zdiv_nonneg_iff)
  ultimately show ?thesis using False by (cases "a = 0") (simp_all add: c_quot_def abs_mult)
qed (simp add: c_quot_def)

lemma quot_rem_scale:
  assumes "d \<noteq> 0"
  shows "c_quot x d * m + c_quot (c_rem x d * m) d = c_quot (x * m) d"
proof -
  define X D M where "X = \<bar>x\<bar>" and "D = \<bar>d\<bar>" and "M = \<bar>m\<bar>"
  have D: "0 < D" using assms by (simp add: D_def)
  have q: "c_quot x d * m = sgn x * sgn d * sgn m * ((X div D) * M)"
    by (simp add: c_quot_def X_def D_def M_def abs_sgn ac_simps)
  have s: "sgn (sgn x * (X mod D) * m) * (\<bar>sgn x * (X mod D) * m\<bar> div D) =
      sgn x * sgn m * (((X mod D) * M) div D)"
  proof (cases "X mod D = 0")
    case False
    then have "0 < X mod D" using D pos_mod_sign [of D X] by linarith
    moreover from this have "x \<noteq> 0" by (auto simp: X_def)
    ultimately show ?thesis using D by (simp add: sgn_mult abs_mult M_def)
  qed simp
  have "c_quot (c_rem x d * m) d = sgn x * sgn d * sgn m * (((X mod D) * M) div D)"
    using s assms by (simp add: c_rem_sgn c_quot_def X_def D_def ac_simps)
  moreover have "(X div D) * M + ((X mod D) * M) div D = (X * M) div D"
  proof -
    have "X * M = ((X mod D) * M) + D * ((X div D) * M)"
      by (metis distrib_right mod_mult_div_eq mult.assoc)
    then show ?thesis using D by (simp add: div_mult_self2)
  qed
  ultimately have "c_quot x d * m + c_quot (c_rem x d * m) d = sgn x * sgn d * sgn m * ((X * M) div D)"
    using q by (metis distrib_left)
  then show ?thesis by (simp add: c_quot_def X_def D_def M_def abs_mult sgn_mult ac_simps)
qed

lemma product_fits: "int32_ok x \<Longrightarrow> int32_ok m \<Longrightarrow> \<bar>x * m\<bar> < 2 ^ 63"
proof -
  assume "int32_ok x" "int32_ok m"
  then have "\<bar>x\<bar> * \<bar>m\<bar> \<le> 2 ^ 31 * 2 ^ 31" by (intro mult_mono) (auto simp: int32_ok_def)
  then show ?thesis by (simp add: abs_mult)
qed

lemma int64_abs: "\<bar>i\<bar> < 2 ^ 63 \<Longrightarrow> int64_ok i"
  by (simp add: int64_ok_def abs_less_iff)

section \<open>CRC-32\<close>

definition CRCPOLY :: u32 where "CRCPOLY = 0xedb88320"

definition crc_bit :: "u32 \<Rightarrow> u32" where
  "crc_bit crc = drop_bit 1 crc XOR (if crc AND 1 \<noteq> 0 then CRCPOLY else 0)"

definition crc_byte :: "u32 \<Rightarrow> u8 \<Rightarrow> u32" where
  "crc_byte crc b = (crc_bit ^^ 8) (crc XOR ucast b)"

fun uni_crc32_le :: "u32 \<Rightarrow> u8 list \<Rightarrow> u32" where
  "uni_crc32_le crc [] = crc"
| "uni_crc32_le crc (b # data) = uni_crc32_le (crc_byte crc b) data"

text \<open>A \<open>uint32_t\<close> in the memory of the ESP32, least significant byte first.\<close>

definition le_bytes :: "u32 \<Rightarrow> u8 list" where
  "le_bytes w = [ucast w, ucast (drop_bit 8 w), ucast (drop_bit 16 w), ucast (drop_bit 24 w)]"

fun le_word :: "u8 list \<Rightarrow> u32" where
  "le_word [] = 0"
| "le_word (b # bs) = ucast b XOR push_bit 8 (le_word bs)"

subsection \<open>The register is a linear, injective map\<close>

lemma bit_crc_bit: "bit (crc_bit c) n \<longleftrightarrow> (bit c (Suc n) \<noteq> (bit c 0 \<and> bit CRCPOLY n))"
proof -
  have "c AND 1 \<noteq> 0 \<longleftrightarrow> bit c 0" by (simp add: and_one_eq odd_iff_mod_2_eq_one bit_0)
  then show ?thesis by (auto simp: crc_bit_def bit_simps)
qed

lemma crc_bit_xor: "crc_bit (a XOR b) = crc_bit a XOR crc_bit b"
  by (rule bit_word_eqI) (auto simp: bit_crc_bit bit_simps)

lemma crc_bits_xor: "(crc_bit ^^ n) (a XOR b) = (crc_bit ^^ n) a XOR (crc_bit ^^ n) b"
  by (induction n) (simp_all add: crc_bit_xor)

lemma crc_bit_zero: "crc_bit c = 0 \<Longrightarrow> c = 0"
proof -
  assume z: "crc_bit c = 0"
  have all: "bit c (Suc n) = (bit c 0 \<and> bit CRCPOLY n)" for n
    using bit_crc_bit [of c n] z by simp
  have "bit CRCPOLY 31" by (simp add: CRCPOLY_def)
  moreover have "\<not> bit c 32" by (rule notI, drule bit_imp_le_length, simp)
  ultimately have "\<not> bit c 0" using all [of 31] by simp
  with all have "\<not> bit c n" for n by (cases n) auto
  then show "c = 0" by (simp add: bit_eq_iff)
qed

lemma crc_bits_zero: "(crc_bit ^^ n) c = 0 \<Longrightarrow> c = 0"
  by (induction n) (auto dest: crc_bit_zero)

lemma word_xor_eq_zero: "a XOR b = 0 \<longleftrightarrow> a = (b :: 'a :: len word)"
  by (metis xor.assoc xor.right_neutral xor_self_eq)

lemma word_xor_cancel: "a XOR c = b XOR c \<longleftrightarrow> a = (b :: 'a :: len word)"
  by (metis xor.assoc xor.right_neutral xor_self_eq)

lemma crc_bits_inj: "(crc_bit ^^ n) a = (crc_bit ^^ n) b \<Longrightarrow> a = b"
  using crc_bits_zero [of n "a XOR b"] by (simp add: crc_bits_xor word_xor_eq_zero)

lemma crc_byte_inj: "crc_byte a b = crc_byte a' b \<Longrightarrow> a = a'"
  unfolding crc_byte_def by (drule crc_bits_inj) (simp add: word_xor_cancel)

lemma crc_append: "uni_crc32_le c (xs @ ys) = uni_crc32_le (uni_crc32_le c xs) ys"
  by (induction xs arbitrary: c) auto

lemma crc_inj: "uni_crc32_le a xs = uni_crc32_le b xs \<Longrightarrow> a = b"
  by (induction xs arbitrary: a b) (auto dest: crc_byte_inj)

subsection \<open>Up to four bytes at once\<close>

lemma bit_le_word: "length bs \<le> 4 \<Longrightarrow> bit (le_word bs) n \<longleftrightarrow> n < 8 * length bs \<and> bit (bs ! (n div 8)) (n mod 8)"
proof (induction bs arbitrary: n)
  case (Cons b bs)
  show ?case
  proof (cases "n < 8")
    case True
    then show ?thesis by (simp add: bit_xor_iff bit_push_bit_iff bit_ucast_iff)
  next
    case False
    then have "n div 8 = Suc ((n - 8) div 8)" "n mod 8 = (n - 8) mod 8"
      by (simp_all add: le_div_geq le_mod_geq)
    moreover have "\<not> bit b n" using False bit_imp_le_length [of b n] by auto
    moreover have "n < 8 * length (b # bs) \<longleftrightarrow> n - 8 < 8 * length bs" "n < 8 * length (b # bs) \<Longrightarrow> n < 32"
      using False Cons.prems by auto
    ultimately show ?thesis using Cons.IH [of "n - 8"] Cons.prems False
      by (auto simp: bit_xor_iff bit_push_bit_iff bit_ucast_iff)
  qed
qed simp

lemma crc_shift:
  assumes "\<And>n. 31 - k \<le> n \<Longrightarrow> \<not> bit x n" "k < 31"
  shows "crc_bit (push_bit (Suc k) x) = push_bit k x"
proof (rule bit_word_eqI)
  fix n
  assume "n < LENGTH(32)"
  then have n: "n < 32" by simp
  have "bit (crc_bit (push_bit (Suc k) x)) n = bit (push_bit (Suc k) x) (Suc n)"
    by (auto simp: bit_crc_bit bit_push_bit_iff simp del: push_bit_Suc)
  also have "\<dots> = bit (push_bit k x) n"
  proof (cases "k \<le> n")
    case True
    have "31 \<le> n \<Longrightarrow> \<not> bit x (n - k)" using assms(1) [of "n - k"] by simp
    with True n show ?thesis by (cases "n < 31") (simp_all add: bit_push_bit_iff del: push_bit_Suc)
  qed (simp add: bit_push_bit_iff del: push_bit_Suc)
  finally show "bit (crc_bit (push_bit (Suc k) x)) n = bit (push_bit k x) n" .
qed

lemma crc_shift_byte:
  assumes "\<And>n. 24 \<le> n \<Longrightarrow> \<not> bit x n"
  shows "(crc_bit ^^ 8) (push_bit 8 x) = x"
proof -
  have "(crc_bit ^^ k) (push_bit k x) = x" if "k \<le> 8" for k
    using that
  proof (induction k)
    case (Suc k)
    then have "crc_bit (push_bit (Suc k) x) = push_bit k x" by (intro crc_shift assms) auto
    then show ?case using Suc by (simp add: funpow_Suc_right del: funpow.simps)
  qed simp
  then show ?thesis by blast
qed

lemma crc_window: "length bs \<le> 4 \<Longrightarrow> uni_crc32_le c bs = (crc_bit ^^ (8 * length bs)) (c XOR le_word bs)"
proof (induction bs arbitrary: c)
  case (Cons b bs)
  have "(crc_bit ^^ 8) (push_bit 8 (le_word bs)) = le_word bs"
    using Cons.prems by (intro crc_shift_byte) (auto simp: bit_le_word)
  then have "crc_byte c b XOR le_word bs = (crc_bit ^^ 8) (c XOR le_word (b # bs))"
    by (simp add: crc_byte_def crc_bits_xor xor.assoc)
  then have "uni_crc32_le c (b # bs) = (crc_bit ^^ (8 * length bs)) ((crc_bit ^^ 8) (c XOR le_word (b # bs)))"
    using Cons by simp
  also have "\<dots> = (crc_bit ^^ (8 * length bs + 8)) (c XOR le_word (b # bs))"
    by (simp add: funpow_add)
  finally show ?case by (simp add: add.commute)
qed simp

lemma le_word_inj:
  assumes "length xs = length ys" "length xs \<le> 4" "le_word xs = le_word ys"
  shows "xs = ys"
proof (rule nth_equalityI [OF assms(1)])
  fix i
  assume i: "i < length xs"
  show "xs ! i = ys ! i"
  proof (rule bit_word_eqI)
    fix n
    assume n: "n < LENGTH(8)"
    then have "(8 * i + n) div 8 = i" "(8 * i + n) mod 8 = n" "8 * i + n < 8 * length xs" using i by auto
    then show "bit (xs ! i) n = bit (ys ! i) n"
      using bit_le_word [of xs "8 * i + n"] bit_le_word [of ys "8 * i + n"] assms by simp
  qed
qed

lemma le_bytes_nth: "i < 4 \<Longrightarrow> le_bytes w ! i = ucast (drop_bit (8 * i) w)"
proof -
  assume "i < 4"
  then have "i = 0 \<or> i = 1 \<or> i = 2 \<or> i = 3" by auto
  then show ?thesis by (elim disjE) (simp_all add: le_bytes_def)
qed

lemma length_le_bytes [simp]: "length (le_bytes w) = 4"
  by (simp add: le_bytes_def)

lemma le_word_bytes: "le_word (le_bytes w) = w"
proof (rule bit_word_eqI)
  fix n
  assume "n < LENGTH(32)"
  then have n: "n < 32" "n div 8 < 4" by auto
  then have "bit (le_word (le_bytes w)) n \<longleftrightarrow> bit (le_bytes w ! (n div 8)) (n mod 8)"
    by (subst bit_le_word) auto
  also have "\<dots> \<longleftrightarrow> bit w n"
    using n(2) by (simp add: le_bytes_nth bit_ucast_iff bit_drop_bit_eq)
  finally show "bit (le_word (le_bytes w)) n = bit w n" .
qed

definition CRC_RESIDUE :: u32 where "CRC_RESIDUE = 0xdebb20e3"

lemma funpow_numeral_eq: "(f ^^ numeral k) x = (f ^^ pred_numeral k) (f x)"
  by (simp add: numeral_eq_Suc funpow_Suc_right del: funpow.simps)

lemma residue_ones: "(crc_bit ^^ 32) 0xffffffff = CRC_RESIDUE"
  by (simp add: funpow_numeral_eq crc_bit_def CRCPOLY_def CRC_RESIDUE_def)

lemma crc_tail: "length t = 4 \<Longrightarrow> uni_crc32_le c t = (crc_bit ^^ 32) (c XOR le_word t)"
  by (simp add: crc_window)

lemma mult_frac_value:
  assumes "int32_ok x" "int32_ok m" "d \<noteq> 0"
  shows "mult_frac x m d = Some (c_quot (x * m) d)"
proof -
  have p: "\<bar>x * m\<bar> < 2 ^ 63" by (rule product_fits [OF assms(1,2)])
  have q: "\<bar>c_quot x d\<bar> \<le> \<bar>x\<bar>" by (rule c_quot_abs)
  have r: "\<bar>c_rem x d\<bar> \<le> \<bar>x\<bar>"
    using assms(3) by (cases "x = 0") (simp_all add: c_rem_sgn abs_mult zmod_le_nonneg_dividend)
  have "\<bar>c_quot x d * m\<bar> \<le> \<bar>x * m\<bar>" "\<bar>c_rem x d * m\<bar> \<le> \<bar>x * m\<bar>"
    using mult_right_mono [OF q, of "\<bar>m\<bar>"] mult_right_mono [OF r, of "\<bar>m\<bar>"] by (simp_all add: abs_mult)
  moreover have "\<bar>x\<bar> \<le> 2 ^ 31" using assms(1) by (auto simp: int32_ok_def)
  then have "\<bar>c_quot x d\<bar> < 2 ^ 63" using q by simp
  moreover have "\<bar>c_quot (c_rem x d * m) d\<bar> \<le> \<bar>c_rem x d * m\<bar>" "\<bar>c_quot (x * m) d\<bar> \<le> \<bar>x * m\<bar>"
    by (rule c_quot_abs)+
  ultimately have "int64_ok (c_quot x d)" "int64_ok (c_quot x d * m)" "int64_ok (c_rem x d * m)"
    "int64_ok (c_quot (c_rem x d * m) d)" "int64_ok (c_quot (x * m) d)"
    using p by (intro int64_abs; linarith)+
  then show ?thesis
    using assms(3) quot_rem_scale [OF assms(3), of x m] by (simp add: mult_frac_def c_div64_def i64_def)
qed

lemma crc_residue_iff:
  assumes "length t = 4"
  shows "uni_crc32_le 0xffffffff (body @ t) = CRC_RESIDUE \<longleftrightarrow>
    t = le_bytes (NOT (uni_crc32_le 0xffffffff body))"
proof -
  let ?c = "uni_crc32_le 0xffffffff body"
  have "?c XOR le_word t = 0xffffffff \<longleftrightarrow> le_word t = NOT ?c"
  proof -
    have "0xffffffff = NOT (0 :: u32)" by simp
    then show ?thesis unfolding bit_eq_iff by (auto simp: bit_simps)
  qed
  moreover have "le_word t = NOT ?c \<longleftrightarrow> t = le_bytes (NOT ?c)"
    using le_word_inj [of t "le_bytes (NOT ?c)"] assms by (auto simp: le_word_bytes)
  moreover have "uni_crc32_le 0xffffffff (body @ t) = CRC_RESIDUE \<longleftrightarrow> ?c XOR le_word t = 0xffffffff"
    unfolding crc_append crc_tail [OF assms] residue_ones [symmetric] by (auto dest: crc_bits_inj)
  ultimately show ?thesis by blast
qed

section \<open>Properties\<close>

text \<open>
  On 32 bit operands and a divisor other than zero, \<open>mult_frac\<close> never overflows
  and returns the exact product divided once and truncated towards zero: splitting the operand
  into quotient and remainder loses nothing, whatever the three signs.
\<close>

theorem mult_frac_exact:
  assumes "int32_ok x" "int32_ok m" "d \<noteq> 0"
  shows "mult_frac x m d = Some (c_quot (x * m) d)"
  by (rule mult_frac_value [OF assms])

theorem mult_frac_exact_witness: "mult_frac (- 7) 5 2 = Some (- 17)"
  using mult_frac_exact [of "- 7" 5 2] by (simp add: int32_ok_def c_quot_def)

text \<open>
  A receiver that runs the CRC over the whole frame accepts exactly the intended one:
  for any body, the register ends in the residue if and only if the last four bytes are the
  complemented CRC of the body in little endian order, which is what the DualShock 4 and DualSense
  drivers append.
\<close>

theorem crc_frame:
  assumes "length t = 4"
  shows "uni_crc32_le 0xffffffff (body @ t) = CRC_RESIDUE \<longleftrightarrow>
    t = le_bytes (NOT (uni_crc32_le 0xffffffff body))"
  by (rule crc_residue_iff [OF assms])

theorem crc_frame_witness:
  "uni_crc32_le 0xffffffff ([1, 2] @ le_bytes (NOT (uni_crc32_le 0xffffffff [1, 2]))) = CRC_RESIDUE"
  using crc_frame [of "le_bytes (NOT (uni_crc32_le 0xffffffff [1, 2]))" "[1, 2]"] by simp

text \<open>
  Two messages of any length that differ only inside a window of at most four bytes
  have different CRCs, whatever the start value: every burst error of up to 32 aligned bits is
  detected.
\<close>

theorem crc_burst:
  assumes "length u = length v" "length u \<le> 4" "u \<noteq> v"
  shows "uni_crc32_le c (pre @ u @ post) \<noteq> uni_crc32_le c (pre @ v @ post)"
proof
  assume "uni_crc32_le c (pre @ u @ post) = uni_crc32_le c (pre @ v @ post)"
  then have "uni_crc32_le (uni_crc32_le c pre) u = uni_crc32_le (uni_crc32_le c pre) v"
    by (auto simp: crc_append dest: crc_inj)
  then have "le_word u = le_word v"
    using assms(1,2) by (auto simp: crc_window dest!: crc_bits_inj)
      (metis word_xor_cancel xor.commute)
  then show False using le_word_inj assms by blast
qed

theorem crc_burst_witness:
  "uni_crc32_le 0xffffffff ([7] @ [1, 2] @ [9]) \<noteq> uni_crc32_le 0xffffffff ([7] @ [1, 3] @ [9])"
  by (rule crc_burst) simp_all

end
