(* ===== verification/Allowlist.thy ===== *)
theory Allowlist
  imports Prelude
begin

text \<open>
  bluepad32_component/bt/uni_bt_allowlist.c: the list of Bluetooth addresses that may connect, its
  switch, and its persistent copy, a string of comma separated addresses in the property store.
  The address printer and scanner are those of btstack/src/btstack_util.c.  The store is part of
  the state: what \<open>uni_property_set\<close> wrote is what \<open>uni_property_get\<close> returns, which theory
  \<open>Property_Store\<close> shows of the flash storage.  The abstraction is the set of listed addresses and
  the switch; the locale \<open>command_refinement\<close> states the contract.
\<close>

type_synonym bd_addr = "u8 list"

definition zero_addr :: bd_addr where "zero_addr = replicate 6 0"

section \<open>Addresses as text\<close>

definition char_for_nibble :: "nat \<Rightarrow> char" where
  "char_for_nibble n = (if n < 16 then ''0123456789ABCDEF'' ! n else CHR ''?'')"

definition nibble_for_char :: "char \<Rightarrow> int" where
  "nibble_for_char c =
     (let n = of_char c :: int
      in if 48 \<le> n \<and> n \<le> 57 then n - 48
         else if 97 \<le> n \<and> n \<le> 102 then n - 97 + 10
         else if 65 \<le> n \<and> n \<le> 70 then n - 65 + 10
         else - 1)"

definition byte_text :: "u8 \<Rightarrow> string" where
  "byte_text b = [char_for_nibble (unat b div 16), char_for_nibble (unat b mod 16)]"

fun bd_addr_to_str_with_delimiter :: "bd_addr \<Rightarrow> char \<Rightarrow> string" where
  "bd_addr_to_str_with_delimiter [] d = []"
| "bd_addr_to_str_with_delimiter [b] d = byte_text b"
| "bd_addr_to_str_with_delimiter (b # bs) d = byte_text b @ d # bd_addr_to_str_with_delimiter bs d"

definition bd_addr_to_str :: "bd_addr \<Rightarrow> string" where
  "bd_addr_to_str a = bd_addr_to_str_with_delimiter a (CHR '':'')"

text \<open>Reading stops at the terminating NUL, which is no hexadecimal digit.\<close>

definition scan_hex_byte :: "string \<Rightarrow> int" where
  "scan_hex_byte s = (case s of [] \<Rightarrow> - 1 | c # r \<Rightarrow>
     if nibble_for_char c < 0 then - 1
     else (case r of [] \<Rightarrow> - 1 | c' # _ \<Rightarrow>
       if nibble_for_char c' < 0 then - 1 else 16 * nibble_for_char c + nibble_for_char c'))"

definition skip_separator :: "string \<Rightarrow> string" where
  "skip_separator s = (case s of [] \<Rightarrow> [] | c # r \<Rightarrow>
     if c = CHR '':'' \<or> c = CHR ''-'' \<or> c = CHR '' '' then r else s)"

text \<open>The scan of \<open>Suc n\<close> more bytes; no separator is skipped after the last.\<close>

fun scan_bytes :: "nat \<Rightarrow> string \<Rightarrow> bd_addr option" where
  "scan_bytes 0 s = Some []"
| "scan_bytes (Suc n) s =
     (let v = scan_hex_byte s in
      if v < 0 then None
      else map_option (\<lambda>bs. word_of_int v # bs)
             (scan_bytes n (if n = 0 then drop 2 s else skip_separator (drop 2 s))))"

definition sscanf_bd_addr :: "string \<Rightarrow> bd_addr option" where
  "sscanf_bd_addr s = scan_bytes 6 s"

section \<open>The list\<close>

record allowlist =
  addr_allow_list :: "bd_addr list"
  enforced :: bool
  stored_list :: "string option"
  stored_enabled :: bool

text \<open>The statics at reset; the store keeps what was written before.\<close>

definition allowlist_reset :: "string option \<Rightarrow> bool \<Rightarrow> allowlist" where
  "allowlist_reset l e = \<lparr>addr_allow_list = replicate 4 zero_addr, enforced = False,
     stored_list = l, stored_enabled = e\<rparr>"

fun list_text :: "bd_addr list \<Rightarrow> string" where
  "list_text [] = []"
| "list_text (a # as) =
     (if a = zero_addr then list_text as else bd_addr_to_str a @ CHR '','' # list_text as)"

definition update_allowlist_to_property :: "allowlist \<Rightarrow> allowlist" where
  "update_allowlist_to_property w = w\<lparr>stored_list := Some (list_text (addr_allow_list w))\<rparr>"

definition is_address_in_allowlist :: "bd_addr \<Rightarrow> allowlist \<Rightarrow> bool" where
  "is_address_in_allowlist a w \<longleftrightarrow> a \<in> set (addr_allow_list w)"

definition uni_bt_allowlist_is_allowed_addr :: "bd_addr \<Rightarrow> allowlist \<Rightarrow> bool" where
  "uni_bt_allowlist_is_allowed_addr a w \<longleftrightarrow> (if \<not> enforced w then True else is_address_in_allowlist a w)"

text \<open>The first entry equal to the old address is overwritten.\<close>

fun replace_first :: "bd_addr \<Rightarrow> bd_addr \<Rightarrow> bd_addr list \<Rightarrow> bd_addr list option" where
  "replace_first old new [] = None"
| "replace_first old new (a # as) =
     (if a = old then Some (new # as) else map_option (Cons a) (replace_first old new as))"

definition uni_bt_allowlist_add_addr :: "bd_addr \<Rightarrow> allowlist \<Rightarrow> allowlist \<times> bool" where
  "uni_bt_allowlist_add_addr a w =
     (if is_address_in_allowlist a w then (w, False)
      else case replace_first zero_addr a (addr_allow_list w) of
        None \<Rightarrow> (w, False)
      | Some l \<Rightarrow> (update_allowlist_to_property (w\<lparr>addr_allow_list := l\<rparr>), True))"

definition uni_bt_allowlist_remove_addr :: "bd_addr \<Rightarrow> allowlist \<Rightarrow> allowlist \<times> bool" where
  "uni_bt_allowlist_remove_addr a w =
     (case replace_first a zero_addr (addr_allow_list w) of
        None \<Rightarrow> (w, False)
      | Some l \<Rightarrow> (update_allowlist_to_property (w\<lparr>addr_allow_list := l\<rparr>), True))"

definition uni_bt_allowlist_remove_all :: "allowlist \<Rightarrow> allowlist \<times> bool" where
  "uni_bt_allowlist_remove_all w =
     (update_allowlist_to_property
        (w\<lparr>addr_allow_list := map (\<lambda>_. zero_addr) (addr_allow_list w)\<rparr>), True)"

definition uni_bt_allowlist_is_enabled :: "allowlist \<Rightarrow> bool" where
  "uni_bt_allowlist_is_enabled w = enforced w"

definition uni_bt_allowlist_set_enabled :: "bool \<Rightarrow> allowlist \<Rightarrow> allowlist" where
  "uni_bt_allowlist_set_enabled e w =
     (if e \<noteq> enforced w then w\<lparr>enforced := e, stored_enabled := e\<rparr> else w)"

text \<open>Each stored address takes 18 characters, its comma included; a parse failure ends the loop.\<close>

function load_addresses :: "string \<Rightarrow> allowlist \<Rightarrow> allowlist" where
  "load_addresses s w =
     (if s = [] then w
      else case sscanf_bd_addr s of
        None \<Rightarrow> w
      | Some a \<Rightarrow> load_addresses (drop 18 s) (fst (uni_bt_allowlist_add_addr a w)))"
  by pat_completeness auto

termination by (relation "measure (\<lambda>(s, _). length s)") auto

declare load_addresses.simps [simp del]

definition update_allowlist_from_property :: "allowlist \<Rightarrow> allowlist" where
  "update_allowlist_from_property w =
     (case stored_list w of None \<Rightarrow> w | Some s \<Rightarrow> load_addresses s w)"

definition uni_bt_allowlist_init :: "allowlist \<Rightarrow> allowlist" where
  "uni_bt_allowlist_init w = update_allowlist_from_property (w\<lparr>enforced := stored_enabled w\<rparr>)"

section \<open>Printing and scanning\<close>

lemma zero_addr_list: "zero_addr = [0, 0, 0, 0, 0, 0]"
  by (simp add: zero_addr_def eval_nat_numeral)

lemma nibble_char: "n < 16 \<Longrightarrow> nibble_for_char (char_for_nibble n) = int n"
proof -
  have "\<forall>n \<in> set [0..<16]. nibble_for_char (char_for_nibble n) = int n" by code_simp
  then show "n < 16 \<Longrightarrow> nibble_for_char (char_for_nibble n) = int n" by simp
qed

lemma scan_byte_text: "scan_hex_byte (byte_text b @ r) = uint b"
proof -
  have "unat b div 16 < 16" using unat_less_u8 [of b] by (simp add: less_mult_imp_div_less)
  moreover have "16 * int (unat b div 16) + int (unat b mod 16) = uint b"
    by (metis mult_div_mod_eq of_nat_add of_nat_mult of_nat_numeral uint_nat)
  ultimately show ?thesis by (simp add: scan_hex_byte_def byte_text_def nibble_char)
qed

lemma drop_byte_text [simp]: "drop 2 (byte_text b @ r) = r" "drop 2 (byte_text b) = []"
  by (simp_all add: byte_text_def)

lemma scan_bytes_text:
  "scan_bytes (Suc n) (byte_text b @ r) =
     map_option ((#) b) (scan_bytes n (if n = 0 then r else skip_separator r))"
  by (simp add: scan_byte_text del: drop_append)

lemma skip_colon [simp]: "skip_separator (CHR '':'' # r) = r"
  by (simp add: skip_separator_def)

lemma scan_printed:
  "as \<noteq> [] \<Longrightarrow> scan_bytes (length as) (bd_addr_to_str_with_delimiter as (CHR '':'') @ r) = Some as"
proof (induction as "CHR '':''" rule: bd_addr_to_str_with_delimiter.induct)
  case (2 b)
  then show ?case using scan_bytes_text [of 0 b r] by simp
next
  case (3 b b' bs)
  then show ?case by (simp add: scan_bytes_text del: scan_bytes.simps(2))
qed simp

lemma length_printed:
  "as \<noteq> [] \<Longrightarrow> length (bd_addr_to_str_with_delimiter as d) + 1 = 3 * length as"
  by (induction as d rule: bd_addr_to_str_with_delimiter.induct) (auto simp: byte_text_def)

definition addr_ok :: "bd_addr \<Rightarrow> bool" where
  "addr_ok a \<longleftrightarrow> length a = 6"

lemma scan_addr: "addr_ok a \<Longrightarrow> sscanf_bd_addr (bd_addr_to_str a @ r) = Some a"
  using scan_printed [of a r] by (cases a) (auto simp: sscanf_bd_addr_def bd_addr_to_str_def addr_ok_def)

lemma length_addr: "addr_ok a \<Longrightarrow> length (bd_addr_to_str a) = 17"
  using length_printed [of a "CHR '':''"] by (cases a) (auto simp: bd_addr_to_str_def addr_ok_def)

lemma addr_ok_zero [simp]: "addr_ok zero_addr"
  by (simp add: addr_ok_def zero_addr_def)

section \<open>The set of listed addresses\<close>

definition listed :: "allowlist \<Rightarrow> bd_addr set" where
  "listed w = set (addr_allow_list w) - {zero_addr}"

definition entries :: "bd_addr list \<Rightarrow> bd_addr list" where
  "entries l = filter (\<lambda>a. a \<noteq> zero_addr) l"

definition allow_inv :: "allowlist \<Rightarrow> bool" where
  "allow_inv w \<longleftrightarrow> length (addr_allow_list w) = 4 \<and> list_all addr_ok (addr_allow_list w) \<and>
     distinct (entries (addr_allow_list w))"

lemma replace_first_None: "replace_first old new l = None \<longleftrightarrow> old \<notin> set l"
  by (induction l) auto

lemma replace_first_split:
  "replace_first old new l = Some l' \<Longrightarrow> \<exists>xs ys. l = xs @ old # ys \<and> l' = xs @ new # ys \<and> old \<notin> set xs"
proof (induction l arbitrary: l')
  case (Cons a as)
  show ?case
  proof (cases "a = old")
    case True
    with Cons.prems show ?thesis by (intro exI [of _ "[]"] exI [of _ as]) auto
  next
    case False
    with Cons.prems obtain k where k: "replace_first old new as = Some k" "l' = a # k" by auto
    from Cons.IH [OF k(1)] obtain xs ys
      where "as = xs @ old # ys" "k = xs @ new # ys" "old \<notin> set xs" by blast
    with False k(2) show ?thesis by (intro exI [of _ "a # xs"] exI [of _ ys]) auto
  qed
qed simp

lemma entries_simps [simp]:
  "entries [] = []" "entries (a # as) = (if a = zero_addr then entries as else a # entries as)"
  "entries (xs @ ys) = entries xs @ entries ys" "set (entries l) = set l - {zero_addr}"
  by (auto simp: entries_def)

lemma set_entries: "a \<in> set l \<and> a \<noteq> zero_addr \<longleftrightarrow> a \<in> set (entries l)"
  by simp

lemma add_effect:
  assumes "allow_inv w" "addr_ok a" "a \<noteq> zero_addr" "uni_bt_allowlist_add_addr a w = (w', ok)"
  shows "allow_inv w'" "enforced w' = enforced w"
    and "listed w' = (if ok then insert a (listed w) else listed w)"
    and "ok \<longleftrightarrow> a \<notin> listed w \<and> zero_addr \<in> set (addr_allow_list w)"
proof -
  have "allow_inv w' \<and> enforced w' = enforced w \<and>
    listed w' = (if ok then insert a (listed w) else listed w) \<and>
    (ok \<longleftrightarrow> a \<notin> listed w \<and> zero_addr \<in> set (addr_allow_list w))"
  proof (cases "replace_first zero_addr a (addr_allow_list w)")
    case None
    then have "zero_addr \<notin> set (addr_allow_list w)" by (simp add: replace_first_None)
    then show ?thesis using assms None
      by (auto simp: uni_bt_allowlist_add_addr_def listed_def split: if_splits)
  next
    case (Some l)
    from replace_first_split [OF Some] obtain xs ys where
      "addr_allow_list w = xs @ zero_addr # ys" "l = xs @ a # ys" "zero_addr \<notin> set xs" by blast
    then show ?thesis using assms Some
      by (auto simp: uni_bt_allowlist_add_addr_def is_address_in_allowlist_def listed_def
          allow_inv_def update_allowlist_to_property_def split: if_splits)
  qed
  then show "allow_inv w'" "enforced w' = enforced w"
    "listed w' = (if ok then insert a (listed w) else listed w)"
    "ok \<longleftrightarrow> a \<notin> listed w \<and> zero_addr \<in> set (addr_allow_list w)" by blast+
qed

lemma remove_effect:
  assumes "allow_inv w" "a \<noteq> zero_addr" "uni_bt_allowlist_remove_addr a w = (w', ok)"
  shows "allow_inv w' \<and> enforced w' = enforced w \<and> listed w' = listed w - {a} \<and> (ok \<longleftrightarrow> a \<in> listed w)"
proof (cases "replace_first a zero_addr (addr_allow_list w)")
  case None
  then have "a \<notin> set (addr_allow_list w)" by (simp add: replace_first_None)
  then show ?thesis using assms None
    by (auto simp: uni_bt_allowlist_remove_addr_def listed_def)
next
  case (Some l)
  from replace_first_split [OF Some] obtain xs ys where
    "addr_allow_list w = xs @ a # ys" "l = xs @ zero_addr # ys" "a \<notin> set xs" by blast
  then show ?thesis using assms Some
    by (auto simp: uni_bt_allowlist_remove_addr_def listed_def allow_inv_def
        update_allowlist_to_property_def)
qed

lemma remove_all_effect:
  "allow_inv w \<Longrightarrow> uni_bt_allowlist_remove_all w = (w', ok) \<Longrightarrow>
     allow_inv w' \<and> enforced w' = enforced w \<and> listed w' = {} \<and> ok"
  by (auto simp: uni_bt_allowlist_remove_all_def allow_inv_def listed_def list_all_iff entries_def
      filter_empty_conv distinct_map update_allowlist_to_property_def)

section \<open>A reboot\<close>

text \<open>After any change of the list the store holds its text.\<close>

definition stored_ok :: "allowlist \<Rightarrow> bool" where
  "stored_ok w \<longleftrightarrow> stored_enabled w = enforced w \<and>
     (case stored_list w of None \<Rightarrow> listed w = {}
      | Some s \<Rightarrow> s = list_text (addr_allow_list w))"

lemma load_step:
  assumes "addr_ok a"
  shows "load_addresses (bd_addr_to_str a @ CHR '','' # r) w =
    load_addresses r (fst (uni_bt_allowlist_add_addr a w))"
proof -
  have "bd_addr_to_str a @ CHR '','' # r \<noteq> []" by simp
  moreover have "drop 18 (bd_addr_to_str a @ CHR '','' # r) = r" by (simp add: length_addr [OF assms])
  ultimately show ?thesis
    by (subst load_addresses.simps) (simp add: scan_addr [OF assms])
qed

definition filled :: "bd_addr list \<Rightarrow> bd_addr list" where
  "filled es = es @ replicate (4 - length es) zero_addr"

lemma replace_filled:
  "zero_addr \<notin> set es \<Longrightarrow> length es < 4 \<Longrightarrow> replace_first zero_addr a (filled es) = Some (filled (es @ [a]))"
proof -
  assume es: "zero_addr \<notin> set es" "length es < 4"
  have *: "zero_addr \<notin> set xs \<Longrightarrow> replace_first zero_addr a (xs @ zero_addr # ys) = Some (xs @ a # ys)" for xs ys
    by (induction xs) auto
  have "replicate (4 - length es) zero_addr = zero_addr # replicate (3 - length es) zero_addr"
    using es(2) by (simp add: Suc_diff_le numeral_eq_Suc flip: replicate_Suc)
  then show ?thesis using es * [of es] by (simp add: filled_def)
qed

lemma load_list:
  "list_all addr_ok l \<Longrightarrow> distinct (es @ entries l) \<Longrightarrow> zero_addr \<notin> set es \<Longrightarrow>
     length (es @ entries l) \<le> 4 \<Longrightarrow> addr_allow_list w = filled es \<Longrightarrow>
     w' = load_addresses (list_text l) w \<Longrightarrow>
     addr_allow_list w' = filled (es @ entries l) \<and> enforced w' = enforced w \<and>
     stored_enabled w' = stored_enabled w \<and>
     (stored_list w' = (if entries l = [] then stored_list w else Some (list_text (addr_allow_list w'))))"
proof (induction l arbitrary: es w)
  case Nil
  then show ?case by (simp add: load_addresses.simps)
next
  case (Cons a as)
  show ?case
  proof (cases "a = zero_addr")
    case True
    with Cons.IH [of es w] Cons.prems show ?thesis by simp
  next
    case False
    let ?w = "fst (uni_bt_allowlist_add_addr a w)"
    have "a \<notin> set (filled es)" using Cons.prems False by (auto simp: filled_def)
    moreover have "replace_first zero_addr a (filled es) = Some (filled (es @ [a]))"
      using Cons.prems False by (intro replace_filled) auto
    ultimately have w: "addr_allow_list ?w = filled (es @ [a])" "enforced ?w = enforced w"
      "stored_enabled ?w = stored_enabled w" "stored_list ?w = Some (list_text (addr_allow_list ?w))"
      using Cons.prems(5)
      by (simp_all add: uni_bt_allowlist_add_addr_def is_address_in_allowlist_def
          update_allowlist_to_property_def)
    have "w' = load_addresses (list_text as) ?w" using Cons.prems False by (simp add: load_step)
    with Cons.IH [of "es @ [a]" ?w] Cons.prems False w show ?thesis by auto
  qed
qed

lemma list_text_entries: "list_text l = list_text (entries l)"
  by (induction l) auto

lemma entries_filled: "zero_addr \<notin> set es \<Longrightarrow> entries (filled es) = es"
  by (auto simp: filled_def entries_def filter_id_conv)

lemma init_effect:
  assumes "allow_inv w" "stored_ok w"
  defines "w' \<equiv> uni_bt_allowlist_init (allowlist_reset (stored_list w) (stored_enabled w))"
  shows "listed w' = listed w \<and> enforced w' = enforced w \<and> allow_inv w' \<and> stored_ok w'"
proof (cases "stored_list w")
  case None
  with assms show ?thesis
    by (auto simp: uni_bt_allowlist_init_def update_allowlist_from_property_def allowlist_reset_def
        stored_ok_def listed_def allow_inv_def entries_def list_all_iff)
next
  case (Some s)
  let ?l = "addr_allow_list w"
  let ?b = "\<lparr>addr_allow_list = replicate 4 zero_addr, enforced = enforced w,
     stored_list = Some s, stored_enabled = enforced w\<rparr>"
  have s: "s = list_text ?l" "stored_enabled w = enforced w" using assms(2) Some by (auto simp: stored_ok_def)
  have w': "w' = load_addresses (list_text ?l) ?b"
    by (simp add: w'_def uni_bt_allowlist_init_def update_allowlist_from_property_def allowlist_reset_def
        Some s)
  have "length (entries ?l) \<le> 4" using assms(1) length_filter_le [of _ ?l]
    by (auto simp: entries_def allow_inv_def)
  moreover have "addr_allow_list ?b = filled []" by (simp add: filled_def)
  ultimately have r: "addr_allow_list w' = filled (entries ?l)" "enforced w' = enforced w"
      "stored_enabled w' = enforced w"
      "stored_list w' = (if entries ?l = [] then Some s else Some (list_text (addr_allow_list w')))"
      "length (entries ?l) \<le> 4"
    using load_list [OF _ _ _ _ _ w', of "[]"] assms(1) by (simp_all add: allow_inv_def)
  have e: "entries (addr_allow_list w') = entries ?l" using r(1) by (simp add: entries_filled)
  have "list_all addr_ok (addr_allow_list w')" "length (addr_allow_list w') = 4"
    using r(1,5) assms(1) by (auto simp: filled_def allow_inv_def list_all_iff)
  then have "allow_inv w'" using e assms(1) by (simp add: allow_inv_def)
  moreover have "listed w' = listed w" using e by (metis listed_def entries_simps(4))
  moreover have "stored_list w' = Some (list_text (addr_allow_list w'))"
    using r(4) e s(1) list_text_entries [of ?l] list_text_entries [of "addr_allow_list w'"]
    by (auto split: if_splits)
  ultimately show ?thesis using r by (simp add: stored_ok_def)
qed

lemma stored_ok_ops:
  assumes "stored_ok w"
  shows "stored_ok (fst (uni_bt_allowlist_add_addr a w))" "stored_ok (fst (uni_bt_allowlist_remove_addr a w))"
    "stored_ok (fst (uni_bt_allowlist_remove_all w))" "stored_ok (uni_bt_allowlist_set_enabled e w)"
  using assms
  by (auto simp: stored_ok_def uni_bt_allowlist_add_addr_def uni_bt_allowlist_remove_addr_def
      uni_bt_allowlist_remove_all_def uni_bt_allowlist_set_enabled_def listed_def
      update_allowlist_to_property_def split: option.splits)

lemma set_enabled_effect:
  "allow_inv w \<Longrightarrow> allow_inv (uni_bt_allowlist_set_enabled e w) \<and>
     listed (uni_bt_allowlist_set_enabled e w) = listed w \<and> enforced (uni_bt_allowlist_set_enabled e w) = e"
  by (auto simp: uni_bt_allowlist_set_enabled_def allow_inv_def listed_def)

lemma reset_inv: "allow_inv (allowlist_reset None False)" "stored_ok (allowlist_reset None False)"
  "listed (allowlist_reset None False) = {}"
  by (auto simp: allow_inv_def allowlist_reset_def stored_ok_def listed_def entries_def list_all_iff)

section \<open>Sequences of commands\<close>

text \<open>
  The commands of the console and of the service, a reboot included; the specification is a set
  of at most four addresses and a switch.
\<close>

datatype allow_cmd = Allow bd_addr | Forbid bd_addr | Forbid_All | Enable bool | Reboot

definition allow_exec :: "allow_cmd \<Rightarrow> allowlist \<Rightarrow> allowlist" where
  "allow_exec c w = (case c of
     Allow a \<Rightarrow> fst (uni_bt_allowlist_add_addr a w)
   | Forbid a \<Rightarrow> fst (uni_bt_allowlist_remove_addr a w)
   | Forbid_All \<Rightarrow> fst (uni_bt_allowlist_remove_all w)
   | Enable e \<Rightarrow> uni_bt_allowlist_set_enabled e w
   | Reboot \<Rightarrow> uni_bt_allowlist_init (allowlist_reset (stored_list w) (stored_enabled w)))"

definition spec_exec :: "allow_cmd \<Rightarrow> bd_addr set \<times> bool \<Rightarrow> bd_addr set \<times> bool" where
  "spec_exec c s = (case c of
     Allow a \<Rightarrow> (if card (fst s) < 4 then insert a (fst s) else fst s, snd s)
   | Forbid a \<Rightarrow> (fst s - {a}, snd s)
   | Forbid_All \<Rightarrow> ({}, snd s)
   | Enable e \<Rightarrow> (fst s, e)
   | Reboot \<Rightarrow> s)"

definition cmd_ok :: "allow_cmd \<Rightarrow> bool" where
  "cmd_ok c = (case c of Allow a \<Rightarrow> addr_ok a \<and> a \<noteq> zero_addr | Forbid a \<Rightarrow> addr_ok a \<and> a \<noteq> zero_addr | _ \<Rightarrow> True)"

locale command_refinement =
  fixes exec :: "'c \<Rightarrow> 's \<Rightarrow> 's" and spec :: "'c \<Rightarrow> 'a \<Rightarrow> 'a"
    and abs :: "'s \<Rightarrow> 'a" and inv :: "'s \<Rightarrow> bool" and ok :: "'c \<Rightarrow> bool"
  assumes preserved: "inv s \<Longrightarrow> ok c \<Longrightarrow> inv (exec c s)"
    and simulated: "inv s \<Longrightarrow> ok c \<Longrightarrow> abs (exec c s) = spec c (abs s)"
begin

lemma run:
  "inv s \<Longrightarrow> list_all ok cs \<Longrightarrow> inv (fold exec cs s) \<and> abs (fold exec cs s) = fold spec cs (abs s)"
  by (induction cs arbitrary: s) (auto simp: preserved simulated)

end

definition allow_abs :: "allowlist \<Rightarrow> bd_addr set \<times> bool" where
  "allow_abs w = (listed w, enforced w)"

definition allow_all_inv :: "allowlist \<Rightarrow> bool" where
  "allow_all_inv w \<longleftrightarrow> allow_inv w \<and> stored_ok w"

lemma card_listed:
  assumes "allow_inv w"
  shows "card (listed w) < 4 \<longleftrightarrow> zero_addr \<in> set (addr_allow_list w)"
proof -
  have c: "card (listed w) = length (entries (addr_allow_list w))"
    using assms distinct_card [of "entries (addr_allow_list w)"] by (simp add: listed_def allow_inv_def)
  have "length (entries l) < length l \<longleftrightarrow> zero_addr \<in> set l" for l
    by (induction l) (auto simp: less_Suc_eq_le entries_def)
  then show ?thesis using assms c by (metis allow_inv_def)
qed

lemma exec_ok:
  assumes "allow_all_inv w" "cmd_ok c"
  shows "allow_all_inv (allow_exec c w) \<and> allow_abs (allow_exec c w) = spec_exec c (allow_abs w)"
proof -
  have w: "allow_inv w" "stored_ok w" using assms(1) by (auto simp: allow_all_inv_def)
  show ?thesis
  proof (cases c)
    case (Allow a)
    obtain w' ok where r: "uni_bt_allowlist_add_addr a w = (w', ok)" by fastforce
    have "addr_ok a" "a \<noteq> zero_addr" using assms(2) Allow by (auto simp: cmd_ok_def)
    from add_effect [OF w(1) this r] show ?thesis
      using stored_ok_ops(1) [OF w(2), of a] r card_listed [OF w(1)] Allow
      by (auto simp: allow_exec_def spec_exec_def allow_abs_def allow_all_inv_def)
  next
    case (Forbid a)
    obtain w' ok where r: "uni_bt_allowlist_remove_addr a w = (w', ok)" by fastforce
    have "a \<noteq> zero_addr" using assms(2) Forbid by (auto simp: cmd_ok_def)
    from remove_effect [OF w(1) this r] show ?thesis using stored_ok_ops(2) [OF w(2), of a] r Forbid
      by (simp add: allow_exec_def spec_exec_def allow_abs_def allow_all_inv_def)
  next
    case Forbid_All
    obtain w' ok where r: "uni_bt_allowlist_remove_all w = (w', ok)" by fastforce
    from remove_all_effect [OF w(1) r] show ?thesis using stored_ok_ops(3) [OF w(2)] r Forbid_All
      by (simp add: allow_exec_def spec_exec_def allow_abs_def allow_all_inv_def)
  next
    case (Enable e)
    then show ?thesis using set_enabled_effect [OF w(1), of e] stored_ok_ops(4) [OF w(2), of e]
      by (simp add: allow_exec_def spec_exec_def allow_abs_def allow_all_inv_def)
  next
    case Reboot
    then show ?thesis using init_effect [OF w]
      by (simp add: allow_exec_def spec_exec_def allow_abs_def allow_all_inv_def)
  qed
qed

interpretation allowed: command_refinement allow_exec spec_exec allow_abs allow_all_inv cmd_ok
  by unfold_locales (auto simp: exec_ok)

section \<open>Properties\<close>

text \<open>
  C39: After any sequence of allow, forbid, clear, enable and reboot commands,
  starting from an empty store, the allowlist module answers exactly what a set of at most four
  addresses and a switch would: an address may connect iff the switch is off or the address is in
  the set.  In particular the printed list survives a reboot, and a fifth address is refused.
\<close>
theorem allowlist_refinement:
  assumes "list_all cmd_ok cs" "a \<noteq> zero_addr"
  defines "w \<equiv> fold allow_exec cs (allowlist_reset None False)"
    and "s \<equiv> fold spec_exec cs ({}, False)"
  shows "uni_bt_allowlist_is_allowed_addr a w \<longleftrightarrow> \<not> snd s \<or> a \<in> fst s"
proof -
  have "allow_all_inv (allowlist_reset None False)"
    "allow_abs (allowlist_reset None False) = ({}, False)"
    using reset_inv by (simp_all add: allow_all_inv_def allow_abs_def allowlist_reset_def)
  with allowed.run [OF _ assms(1)] have "allow_abs w = s" by (simp add: w_def s_def)
  with assms(2) show ?thesis
    by (auto simp: allow_abs_def uni_bt_allowlist_is_allowed_addr_def listed_def is_address_in_allowlist_def)
qed

theorem allowlist_refinement_witness:
  "uni_bt_allowlist_is_allowed_addr [1, 2, 3, 4, 5, 0xAB]
     (fold allow_exec [Enable True, Allow [1, 2, 3, 4, 5, 0xAB], Reboot] (allowlist_reset None False)) \<and>
   \<not> uni_bt_allowlist_is_allowed_addr [9, 2, 3, 4, 5, 0xAB]
     (fold allow_exec [Enable True, Allow [1, 2, 3, 4, 5, 0xAB], Reboot] (allowlist_reset None False))"
  using allowlist_refinement [of "[Enable True, Allow [1, 2, 3, 4, 5, 0xAB], Reboot]" "[1, 2, 3, 4, 5, 0xAB]"]
    allowlist_refinement [of "[Enable True, Allow [1, 2, 3, 4, 5, 0xAB], Reboot]" "[9, 2, 3, 4, 5, 0xAB]"]
  by (simp add: cmd_ok_def addr_ok_def zero_addr_list spec_exec_def)
end
