(* ===== verification/Controller_Db.thy ===== *)
theory Controller_Db
  imports Prelude
begin

text \<open>
  bluepad32_component/controller/uni_controller_type.c and its table controller_list.h: which kind
  of controller a vendor and product id stand for.  Controller types are the numbers of
  uni_controller_type.h; an entry is the 32 bit device id and the type.
\<close>

section \<open>Controller types\<close>

definition CT_Unknown :: int where [simp]: "CT_Unknown = 0"
definition CT_UnknownSteamController :: int where [simp]: "CT_UnknownSteamController = 1"
definition CT_SteamController :: int where [simp]: "CT_SteamController = 2"
definition CT_SteamControllerV2 :: int where [simp]: "CT_SteamControllerV2 = 3"
definition CT_SteamControllerNeptune :: int where [simp]: "CT_SteamControllerNeptune = 4"
definition CT_UnknownNonSteamController :: int where [simp]: "CT_UnknownNonSteamController = 30"
definition CT_XBox360Controller :: int where [simp]: "CT_XBox360Controller = 31"
definition CT_XBoxOneController :: int where [simp]: "CT_XBoxOneController = 32"
definition CT_PS3Controller :: int where [simp]: "CT_PS3Controller = 33"
definition CT_PS4Controller :: int where [simp]: "CT_PS4Controller = 34"
definition CT_WiiController :: int where [simp]: "CT_WiiController = 35"
definition CT_AppleController :: int where [simp]: "CT_AppleController = 36"
definition CT_AndroidController :: int where [simp]: "CT_AndroidController = 37"
definition CT_SwitchProController :: int where [simp]: "CT_SwitchProController = 38"
definition CT_SwitchJoyConLeft :: int where [simp]: "CT_SwitchJoyConLeft = 39"
definition CT_SwitchJoyConRight :: int where [simp]: "CT_SwitchJoyConRight = 40"
definition CT_SwitchJoyConPair :: int where [simp]: "CT_SwitchJoyConPair = 41"
definition CT_SwitchInputOnlyController :: int where [simp]: "CT_SwitchInputOnlyController = 42"
definition CT_MobileTouch :: int where [simp]: "CT_MobileTouch = 43"
definition CT_XInputSwitchController :: int where [simp]: "CT_XInputSwitchController = 44"
definition CT_PS5Controller :: int where [simp]: "CT_PS5Controller = 45"
definition CT_XInputPS4Controller :: int where [simp]: "CT_XInputPS4Controller = 46"
definition CT_iCadeController :: int where [simp]: "CT_iCadeController = 50"
definition CT_SmartTVRemoteController :: int where [simp]: "CT_SmartTVRemoteController = 51"
definition CT_8BitdoController :: int where [simp]: "CT_8BitdoController = 52"
definition CT_GenericController :: int where [simp]: "CT_GenericController = 53"
definition CT_NimbusController :: int where [simp]: "CT_NimbusController = 54"
definition CT_OUYAController :: int where [simp]: "CT_OUYAController = 55"
definition CT_PSMoveController :: int where [simp]: "CT_PSMoveController = 56"
definition CT_AtariJoystick :: int where [simp]: "CT_AtariJoystick = 57"
definition CT_GenericKeyboard :: int where [simp]: "CT_GenericKeyboard = 400"
definition CT_GenericMouse :: int where [simp]: "CT_GenericMouse = 800"

section \<open>The table\<close>

definition MAKE_CONTROLLER_ID :: "int \<Rightarrow> int \<Rightarrow> int" where
  "MAKE_CONTROLLER_ID vid pid = 65536 * vid + pid"

definition arrControllers_1 :: "(int \<times> int) list" where
  "arrControllers_1 = [
   (0x0079181a, 33), (0x00791844, 33), (0x044fb315, 33), (0x044fd007, 33), (0x046dcad1, 33),
   (0x054c0268, 33), (0x056e200f, 33), (0x056e2013, 33), (0x05b81004, 33), (0x05b81006, 33),
   (0x06a3f622, 33), (0x07383180, 33), (0x07383250, 33), (0x07383481, 33), (0x07388180, 33),
   (0x07388838, 33), (0x08100001, 33), (0x08100003, 33), (0x09250005, 33), (0x09258866, 33),
   (0x09258888, 33), (0x0e6f0109, 33), (0x0e6f011e, 33), (0x0e6f0128, 33), (0x0e6f0214, 33),
   (0x0e6f1314, 33), (0x0e6f6302, 33), (0x0e8f0008, 33), (0x0e8f3075, 33), (0x0e8f310d, 33),
   (0x0f0d0009, 33), (0x0f0d004d, 33), (0x0f0d005f, 33), (0x0f0d006a, 33), (0x0f0d006e, 33),
   (0x0f0d0085, 33), (0x0f0d0086, 33), (0x0f0d0088, 33), (0x0f301100, 33), (0x11ff3331, 33),
   (0x13451000, 33), (0x13456005, 33), (0x146b5500, 33), (0x1a340836, 33), (0x20bc5500, 33),
   (0x20d6576d, 33), (0x20d6ca6d, 33), (0x25630523, 33), (0x25630575, 33), (0x25f083c3, 33),
   (0x25f0c121, 33), (0x2c222003, 33), (0x2c222302, 33), (0x2c222502, 33), (0x83800003, 33),
   (0x88880308, 33), (0x0079181b, 34), (0x044fd00e, 34), (0x054c05c4, 34), (0x054c05c5, 34),
   (0x054c09cc, 34), (0x054c0ba0, 34), (0x07388250, 34), (0x07388384, 34), (0x07388480, 34),
   (0x07388481, 34), (0x0c120e10, 34), (0x0c120e13, 34), (0x0c120e15, 34), (0x0c120e20, 34),
   (0x0c120ef6, 34), (0x0c121cf6, 34), (0x0c121e10, 34), (0x0e6f0203, 34), (0x0e6f0207, 34),
   (0x0e6f020a, 34), (0x0f0d0055, 34), (0x0f0d005e, 34), (0x0f0d0066, 34), (0x0f0d0084, 34),
   (0x0f0d0087, 34), (0x0f0d008a, 34), (0x0f0d009c, 34), (0x0f0d00a0, 34), (0x0f0d00ed, 46),
   (0x0f0d00ee, 34), (0x0f0d011c, 34), (0x0f0d0123, 34), (0x0f0d0162, 34), (0x0f0d0164, 46),
   (0x11c04001, 34), (0x146b0603, 46), (0x146b0604, 46), (0x146b0605, 46), (0x146b0606, 46),
   (0x146b0609, 46), (0x146b0d01, 34), (0x146b0d02, 34), (0x146b0d06, 34), (0x146b0d08, 34),
   (0x146b0d09, 34), (0x146b0d10, 34), (0x146b0d10, 34), (0x146b0d13, 34), (0x146b1103, 34),
   (0x15321000, 34), (0x15321004, 34), (0x15321007, 34), (0x15321008, 34), (0x15321009, 34),
   (0x1532100a, 34), (0x15321100, 34), (0x20d6792a, 34)]"

definition arrControllers_2 :: "(int \<times> int) list" where
  "arrControllers_2 = [
   (0x2c222000, 34), (0x2c222300, 34), (0x2c222303, 46), (0x2c222500, 34), (0x2c222503, 46),
   (0x32850d16, 34), (0x32850d17, 34), (0x75450104, 34), (0x98860025, 34), (0x054c0ce6, 45),
   (0x054c0df2, 45), (0x054c0e5f, 45), (0x0e6f0209, 45), (0x0f0d0163, 45), (0x0f0d0184, 45),
   (0x1532100b, 45), (0x1532100c, 45), (0x15321012, 45), (0x32850d18, 45), (0x32850d19, 45),
   (0x358a0104, 45), (0x00790006, 30), (0x007918d4, 31), (0x03ebff02, 31), (0x044fb326, 31),
   (0x045e028e, 31), (0x045e028f, 31), (0x045e0291, 31), (0x045e02a0, 31), (0x045e02a1, 31),
   (0x045e02a9, 31), (0x045e0719, 31), (0x046dc21d, 31), (0x046dc21e, 31), (0x046dc21f, 31),
   (0x046dc242, 31), (0x056e2004, 31), (0x07384716, 31), (0x07384718, 31), (0x07384726, 31),
   (0x07384728, 31), (0x07384736, 31), (0x07384738, 31), (0x07384740, 31), (0x0738b726, 31),
   (0x0738beef, 31), (0x0738cb02, 31), (0x0738cb03, 31), (0x0738f738, 31), (0x09557210, 31),
   (0x0955b400, 31), (0x0b051b4c, 31), (0x0e6f0105, 31), (0x0e6f0113, 31), (0x0e6f011f, 31),
   (0x0e6f0125, 31), (0x0e6f0127, 31), (0x0e6f0131, 31), (0x0e6f0133, 31), (0x0e6f0143, 31),
   (0x0e6f0147, 31), (0x0e6f0201, 31), (0x0e6f0213, 31), (0x0e6f021f, 31), (0x0e6f0301, 31),
   (0x0e6f0313, 31), (0x0e6f0314, 31), (0x0e6f0401, 31), (0x0e6f0413, 31), (0x0e6f0501, 31),
   (0x0e6ff900, 31), (0x0f0d000a, 31), (0x0f0d000c, 31), (0x0f0d000d, 31), (0x0f0d0016, 31),
   (0x0f0d001b, 31), (0x0f0d008c, 31), (0x0f0d00db, 31), (0x0f0d011e, 31), (0x10381430, 31),
   (0x10381431, 31), (0x1038b360, 31), (0x11c955f0, 31), (0x12ab0004, 31), (0x12ab0301, 31),
   (0x12ab0303, 31), (0x143002a0, 31), (0x14304748, 31), (0x1430f801, 31), (0x146b0601, 31),
   (0x15e43f00, 31), (0x15e43f0a, 31), (0x15e43f10, 31), (0x162ebeef, 31), (0x1689fd00, 31),
   (0x1689fd01, 31), (0x1689fe00, 31), (0x1949041a, 31), (0x1bad0002, 31), (0x1bad0003, 31),
   (0x1badf016, 31), (0x1badf018, 31), (0x1badf019, 31), (0x1badf021, 31), (0x1badf023, 31),
   (0x1badf025, 31), (0x1badf027, 31), (0x1badf028, 31), (0x1badf02e, 31), (0x1badf036, 31),
   (0x1badf038, 31), (0x1badf039, 31), (0x1badf03a, 31)]"

definition arrControllers_3 :: "(int \<times> int) list" where
  "arrControllers_3 = [
   (0x1badf03d, 31), (0x1badf03e, 31), (0x1badf03f, 31), (0x1badf042, 31), (0x1badf080, 31),
   (0x1badf501, 31), (0x1badf502, 31), (0x1badf503, 31), (0x1badf504, 31), (0x1badf505, 31),
   (0x1badf506, 31), (0x1badf900, 31), (0x1badf901, 31), (0x1badf902, 31), (0x1badf903, 31),
   (0x1badf904, 31), (0x1badf906, 31), (0x1badfa01, 31), (0x1badfd00, 31), (0x1badfd01, 31),
   (0x24c65000, 31), (0x24c65300, 31), (0x24c65303, 31), (0x24c6530a, 31), (0x24c6531a, 31),
   (0x24c65397, 31), (0x24c65500, 31), (0x24c65501, 31), (0x24c65502, 31), (0x24c65503, 31),
   (0x24c65506, 31), (0x24c6550d, 31), (0x24c6550e, 31), (0x24c65508, 31), (0x24c65510, 31),
   (0x24c65b00, 31), (0x24c65b02, 31), (0x24c65b03, 31), (0x24c65d04, 31), (0x24c6fafa, 31),
   (0x24c6fafb, 31), (0x24c6fafc, 31), (0x24c6fafd, 31), (0x24c6fafe, 31), (0x03f00495, 32),
   (0x044fd012, 32), (0x045e02d1, 32), (0x045e02dd, 32), (0x045e02e0, 32), (0x045e02e3, 32),
   (0x045e02ea, 32), (0x045e02fd, 32), (0x045e02ff, 32), (0x045e0b00, 32), (0x045e0b05, 32),
   (0x045e0b0a, 32), (0x045e0b0c, 32), (0x045e0b12, 32), (0x045e0b13, 32), (0x045e0b20, 32),
   (0x045e0b21, 32), (0x045e0b22, 32), (0x07384a01, 32), (0x0e6f0139, 32), (0x0e6f013b, 32),
   (0x0e6f013a, 32), (0x0e6f0145, 32), (0x0e6f0146, 32), (0x0e6f015b, 32), (0x0e6f015c, 32),
   (0x0e6f015d, 32), (0x0e6f015f, 32), (0x0e6f0160, 32), (0x0e6f0161, 32), (0x0e6f0162, 32),
   (0x0e6f0163, 32), (0x0e6f0164, 32), (0x0e6f0165, 32), (0x0e6f0166, 32), (0x0e6f0167, 32),
   (0x0e6f0205, 32), (0x0e6f0206, 32), (0x0e6f0246, 32), (0x0e6f0261, 32), (0x0e6f0262, 32),
   (0x0e6f02a0, 32), (0x0e6f02a1, 32), (0x0e6f02a2, 32), (0x0e6f02a3, 32), (0x0e6f02a4, 32),
   (0x0e6f02a5, 32), (0x0e6f02a6, 32), (0x0e6f02a7, 32), (0x0e6f02a8, 32), (0x0e6f02a9, 32),
   (0x0e6f02aa, 32), (0x0e6f02ab, 32), (0x0e6f02ac, 32), (0x0e6f02ad, 32), (0x0e6f02ae, 32),
   (0x0e6f02af, 32), (0x0e6f02b0, 32), (0x0e6f02b1, 32), (0x0e6f02b3, 32), (0x0e6f02b5, 32),
   (0x0e6f02b6, 32), (0x0e6f02bd, 32), (0x0e6f02be, 32), (0x0e6f02bf, 32), (0x0e6f02c0, 32),
   (0x0e6f02c1, 32), (0x0e6f02c2, 32), (0x0e6f02c3, 32)]"

definition arrControllers_4 :: "(int \<times> int) list" where
  "arrControllers_4 = [
   (0x0e6f02c4, 32), (0x0e6f02c5, 32), (0x0e6f02c6, 32), (0x0e6f02c7, 32), (0x0e6f02c8, 32),
   (0x0e6f02c9, 32), (0x0e6f02ca, 32), (0x0e6f02cb, 32), (0x0e6f02cd, 32), (0x0e6f02ce, 32),
   (0x0e6f02cf, 32), (0x0e6f02d5, 32), (0x0e6f0346, 32), (0x0e6f0446, 32), (0x0e6f02da, 32),
   (0x0e6f02d6, 32), (0x0e6f02d9, 32), (0x0f0d0063, 32), (0x0f0d0067, 32), (0x0f0d0078, 32),
   (0x0f0d00c5, 32), (0x0f0d0150, 32), (0x10f57009, 32), (0x10f57013, 32), (0x15320a00, 32),
   (0x15320a03, 32), (0x15320a14, 32), (0x15320a15, 32), (0x20d62001, 32), (0x20d62002, 32),
   (0x20d62003, 32), (0x20d62004, 32), (0x20d62005, 32), (0x20d62006, 32), (0x20d62009, 32),
   (0x20d6200a, 32), (0x20d6200b, 32), (0x20d6200c, 32), (0x20d6200d, 32), (0x20d6200e, 32),
   (0x20d6200f, 32), (0x20d62011, 32), (0x20d62012, 32), (0x20d62015, 32), (0x20d62016, 32),
   (0x20d62017, 32), (0x20d62018, 32), (0x20d62019, 32), (0x20d6201a, 32), (0x20d64001, 32),
   (0x20d64002, 32), (0x20d6890b, 32), (0x24c6541a, 32), (0x24c6542a, 32), (0x24c6543a, 32),
   (0x24c6551a, 32), (0x24c6561a, 32), (0x24c6581a, 32), (0x24c6591a, 32), (0x24c6592a, 32),
   (0x24c6791a, 32), (0x2dc82002, 32), (0x2dc83106, 32), (0x2e240652, 32), (0x2e241618, 32),
   (0x2e241688, 32), (0x146b0611, 32), (0x00000000, 31), (0x045e02a2, 31), (0x0e6f1414, 31),
   (0x0e6f0159, 31), (0x24c6faff, 31), (0x0f0d006d, 31), (0x0f0d00a4, 31), (0x00791832, 31),
   (0x0079187f, 31), (0x00791883, 31), (0x03ebff01, 31), (0x0c120ef8, 31), (0x046d1000, 31),
   (0x13456006, 31), (0x056e2012, 31), (0x146b0602, 31), (0x0f0d00ae, 31), (0x046d0401, 31),
   (0x046d0301, 31), (0x046dcaa3, 31), (0x046dc261, 31), (0x046d0291, 31), (0x007918d3, 31),
   (0x0f0d00b1, 31), (0x00010001, 31), (0x0079188e, 31), (0x0079187c, 31), (0x0079189c, 31),
   (0x00791874, 31), (0x2f240050, 32), (0x2f24002e, 32), (0x2f240091, 32), (0x14300719, 32),
   (0x0f0d00ed, 32), (0x0f0d00c0, 32), (0x0e6f0152, 32), (0x0e6f02a7, 32), (0x046d1007, 32),
   (0x0e6f02b8, 32), (0x0e6f02a8, 32), (0x007918a1, 32), (0x00006686, 32), (0x11ff0511, 32),
   (0x12ab0304, 32), (0x14300291, 32), (0x143002a9, 32)]"

definition arrControllers_5 :: "(int \<times> int) list" where
  "arrControllers_5 = [
   (0x1430070b, 32), (0x1bad028e, 32), (0x1bad02a0, 32), (0x1bad5500, 32), (0x20ab55ef, 32),
   (0x24c65509, 32), (0x25160069, 32), (0x25b10360, 32), (0x2c222203, 32), (0x2f240011, 32),
   (0x2f240053, 32), (0x2f2400b7, 32), (0x046d0000, 32), (0x046d1004, 32), (0x046d1008, 32),
   (0x046df301, 32), (0x073802a0, 32), (0x07387263, 32), (0x0738b738, 32), (0x0738cb29, 32),
   (0x0738f401, 32), (0x007918c2, 32), (0x007918c8, 32), (0x007918cf, 32), (0x0c120e17, 32),
   (0x0c120e1c, 32), (0x0c120e22, 32), (0x0c120e30, 32), (0xd2d2d2d2, 32), (0x0d629a1a, 32),
   (0x0d629a1b, 32), (0x0e000e00, 32), (0x0e6f012a, 32), (0x0e6f02a1, 32), (0x0e6f02a2, 32),
   (0x0e6f02a5, 32), (0x0e6f02b2, 32), (0x0e6f02bd, 32), (0x0e6f02bf, 32), (0x0e6f02c0, 32),
   (0x0e6f02c6, 32), (0x0f0d0097, 32), (0x0f0d00ba, 32), (0x0f0d00d8, 32), (0x0fff02a1, 32),
   (0x045e0867, 32), (0x16d00f3f, 32), (0x2f24008f, 32), (0x0e6ff501, 32), (0x05ac0001, 36),
   (0x05ac0002, 36), (0x057e2006, 39), (0x057e2007, 40), (0x057e2008, 41), (0x057e2009, 38),
   (0x0f0d00c1, 42), (0x0f0d0092, 42), (0x0f0d00f6, 38), (0x0f0d00dc, 44), (0x0e6f0180, 42),
   (0x0e6f0181, 42), (0x0e6f0184, 42), (0x0e6f0185, 42), (0x0e6f0186, 38), (0x0e6f0187, 42),
   (0x0e6f0188, 42), (0x0f0d00aa, 42), (0x20d6a711, 42), (0x20d6a712, 42), (0x20d6a713, 42),
   (0x20d6a714, 42), (0x20d6a715, 42), (0x20d6a716, 42), (0x20d6a718, 42), (0x000011fb, 43),
   (0x28de1101, 2), (0x28de1102, 2), (0x28de1105, 2), (0x28de1106, 2), (0x28de11ff, 30),
   (0x28de1142, 2), (0x28de1201, 3), (0x28de1202, 3), (0x28de1205, 4), (0x28360001, 55),
   (0x15e40132, 50), (0x0a5c8502, 50), (0x20d66271, 37), (0x0b054500, 37), (0x19490402, 37),
   (0x18d19400, 37), (0x19490401, 51), (0x28200009, 52), (0x2dc80651, 52), (0x2dc82830, 52),
   (0x2dc82840, 52), (0x2dc83230, 52), (0x2dc86006, 52), (0x2dc86100, 52), (0x2dc86101, 52),
   (0x0a5c4502, 53), (0x01111420, 54), (0x01111431, 37), (0x057e0330, 35), (0x057e0306, 35),
   (0x057e2017, 38), (0x057e2019, 38), (0x057e201e, 38), (0x054c03d5, 56), (0x054c0c5e, 56),
   (0x32501001, 57)]"

definition arrControllers :: "(int \<times> int) list" where
  "arrControllers = concat [arrControllers_1, arrControllers_2, arrControllers_3, arrControllers_4, arrControllers_5]"

section \<open>Lookup\<close>

fun find_controller :: "int \<Rightarrow> (int \<times> int) list \<Rightarrow> int option" where
  "find_controller i [] = None"
| "find_controller i ((i', t) # es) = (if i = i' then Some t else find_controller i es)"

definition uni_guess_controller_type :: "u16 \<Rightarrow> u16 \<Rightarrow> int" where
  "uni_guess_controller_type vid pid =
     (case find_controller (MAKE_CONTROLLER_ID (uint vid) (uint pid)) arrControllers of
        None \<Rightarrow> CT_UnknownNonSteamController | Some t \<Rightarrow> t)"

section \<open>The types the table can answer\<close>

lemmas arrControllers_defs = arrControllers_1_def arrControllers_2_def arrControllers_3_def
  arrControllers_4_def arrControllers_5_def

definition type_range :: "int \<Rightarrow> bool" where
  "type_range t \<longleftrightarrow> 1 \<le> t \<and> t \<le> 57"

lemma find_controller_type: "find_controller i es = Some t \<Longrightarrow> t \<in> snd ` set es"
  by (induction i es rule: find_controller.induct) (auto split: if_splits)

lemma chunk_types:
  "list_all (\<lambda>e. type_range (snd e)) arrControllers_1"
  "list_all (\<lambda>e. type_range (snd e)) arrControllers_2"
  "list_all (\<lambda>e. type_range (snd e)) arrControllers_3"
  "list_all (\<lambda>e. type_range (snd e)) arrControllers_4"
  "list_all (\<lambda>e. type_range (snd e)) arrControllers_5"
  by code_simp+

lemma guess_types: "type_range (uni_guess_controller_type vid pid)"
proof (cases "find_controller (MAKE_CONTROLLER_ID (uint vid) (uint pid)) arrControllers")
  case (Some t)
  have "list_all (\<lambda>e. type_range (snd e)) arrControllers"
    using chunk_types by (simp add: arrControllers_def)
  with find_controller_type [OF Some] have "type_range t" by (auto simp: list_all_iff)
  with Some show ?thesis by (simp add: uni_guess_controller_type_def)
qed (simp add: uni_guess_controller_type_def type_range_def)

lemma guess_examples:
  "find_controller 0x18d19400 arrControllers = Some 37"
  "find_controller 0x045e02e0 arrControllers = Some 32"
  "find_controller 0x057e2009 arrControllers = Some 38"
  "find_controller 0x0f0d00ed arrControllers = Some 46"
  "find_controller 0 arrControllers = Some 31"
  by code_simp+

end
