(* ===== verification/Hid_Device.thy ===== *)
theory Hid_Device
  imports Allowlist Controller_Db Usage_Parsers
begin

text \<open>
  bluepad32_component/uni_hid_device.c and bt/uni_bt_conn.c: the table of four devices, their life
  cycle from discovery to ready and away, the choice of the report parser, and the hand-over of
  controller data to the platform.  The world is the table, the timers that are in BTstack's run
  loop, and the log of what the platform and the Bluetooth stack were told.  A device is the index
  of its slot.  \<open>None\<close> is a crash: adding a timer twice trips BTstack's assertion, and clearing
  a slot whose timer is still linked leaves a zeroed node with a \<open>NULL\<close> callback in the run loop.
  Parser private data, battery, signal strength and the SDP bookkeeping of the connection modules
  are left out; sending is in theory \<open>Report_Sender\<close>.
\<close>

section \<open>Connections\<close>

datatype conn_state =
    Cs_None
  | Cs_Discovered
  | Cs_Remote_Name_Request
  | Cs_Remote_Name_Inquired
  | Cs_Remote_Name_Fetched
  | Cs_Sdp_Vendor_Requested
  | Cs_Sdp_Vendor_Fetched
  | Cs_Sdp_Hid_Descriptor_Requested
  | Cs_Sdp_Hid_Descriptor_Fetched
  | Cs_L2cap_Control_Connection_Requested
  | Cs_L2cap_Control_Connected
  | Cs_L2cap_Interrupt_Connection_Requested
  | Cs_L2cap_Interrupt_Connected
  | Cs_Pending_Ready
  | Cs_Ready

record uni_bt_conn =
  btaddr :: bd_addr
  handle :: u16
  control_cid :: u16
  interrupt_cid :: u16
  incoming :: bool
  connected :: bool
  conn_state :: conn_state

definition UNI_BT_CONN_HANDLE_INVALID :: u16 where [simp]: "UNI_BT_CONN_HANDLE_INVALID = 0xffff"

definition conn_zero :: uni_bt_conn where
  "conn_zero = \<lparr>btaddr = zero_addr, handle = 0, control_cid = 0, interrupt_cid = 0,
     incoming = False, connected = False, conn_state = Cs_None\<rparr>"

definition uni_bt_conn_init :: uni_bt_conn where
  "uni_bt_conn_init = conn_zero\<lparr>handle := UNI_BT_CONN_HANDLE_INVALID\<rparr>"

definition uni_bt_conn_set_state :: "conn_state \<Rightarrow> uni_bt_conn \<Rightarrow> uni_bt_conn" where
  "uni_bt_conn_set_state s c = c\<lparr>conn_state := s\<rparr>"

definition uni_bt_conn_set_connected :: "bool \<Rightarrow> uni_bt_conn \<Rightarrow> uni_bt_conn" where
  "uni_bt_conn_set_connected b c = (if connected c = b then c else c\<lparr>connected := b\<rparr>)"

definition uni_bt_conn_disconnect :: "uni_bt_conn \<Rightarrow> uni_bt_conn" where
  "uni_bt_conn_disconnect c = uni_bt_conn_set_connected False c"

section \<open>Class of device\<close>

definition UNI_BT_COD_MAJOR_MASK :: u32 where [simp]: "UNI_BT_COD_MAJOR_MASK = 0x1f00"
definition UNI_BT_COD_MAJOR_PERIPHERAL :: u32 where [simp]: "UNI_BT_COD_MAJOR_PERIPHERAL = 0x0500"
definition UNI_BT_COD_MAJOR_AUDIO_VIDEO :: u32 where [simp]: "UNI_BT_COD_MAJOR_AUDIO_VIDEO = 0x0400"
definition UNI_BT_COD_MINOR_MASK :: u32 where [simp]: "UNI_BT_COD_MINOR_MASK = 0xfc"
definition UNI_BT_COD_MINOR_MICE :: u32 where [simp]: "UNI_BT_COD_MINOR_MICE = 0x80"
definition UNI_BT_COD_MINOR_KEYBOARD :: u32 where [simp]: "UNI_BT_COD_MINOR_KEYBOARD = 0x40"
definition UNI_BT_COD_MINOR_GAMEPAD :: u32 where [simp]: "UNI_BT_COD_MINOR_GAMEPAD = 0x08"
definition UNI_BT_COD_MINOR_JOYSTICK :: u32 where [simp]: "UNI_BT_COD_MINOR_JOYSTICK = 0x04"

definition uni_hid_device_is_cod_supported :: "u32 \<Rightarrow> bool" where
  "uni_hid_device_is_cod_supported c =
     (let minor = c AND UNI_BT_COD_MINOR_MASK in
      if c AND UNI_BT_COD_MAJOR_MASK = UNI_BT_COD_MAJOR_PERIPHERAL
      then minor AND (UNI_BT_COD_MINOR_MICE OR UNI_BT_COD_MINOR_KEYBOARD OR UNI_BT_COD_MINOR_GAMEPAD
             OR UNI_BT_COD_MINOR_JOYSTICK) \<noteq> 0
      else if c AND UNI_BT_COD_MAJOR_MASK = UNI_BT_COD_MAJOR_AUDIO_VIDEO then c = 0x400408
      else False)"

datatype uni_error = UNI_ERROR_SUCCESS | UNI_ERROR_IGNORE_DEVICE

text \<open>The class of device arrives as a \<open>uint16_t\<close>; the platform of controller.c has no discovery callback.\<close>

definition uni_hid_device_on_device_discovered :: "bd_addr \<Rightarrow> u16 \<Rightarrow> u8 \<Rightarrow> allowlist \<Rightarrow> uni_error" where
  "uni_hid_device_on_device_discovered addr c rssi al =
     (if \<not> uni_bt_allowlist_is_allowed_addr addr al then UNI_ERROR_IGNORE_DEVICE
      else if rssi < 155 then UNI_ERROR_IGNORE_DEVICE
      else if \<not> uni_hid_device_is_cod_supported (ucast c) then UNI_ERROR_IGNORE_DEVICE
      else UNI_ERROR_SUCCESS)"

section \<open>Devices\<close>

text \<open>A slot of the parser's function table names the driver whose function it holds.\<close>

datatype driver = D_Icade | D_Ouya | D_Xboxone | D_Android | D_Stadia | D_Nimbus | D_Smarttv | D_Psmove | D_Ds3 | D_Ds4 | D_Ds5 | D_8bitdo | D_Generic | D_Wii | D_Switch | D_Steam | D_Atari | D_Mouse | D_Keyboard

record report_parser =
  rp_setup :: "driver option"
  rp_init_report :: "driver option"
  rp_parse_usage :: "driver option"
  rp_parse_input_report :: "driver option"
  rp_parse_feature_report :: "driver option"
  rp_set_player_leds :: "driver option"
  rp_set_lightbar_color :: "driver option"
  rp_play_dual_rumble :: "driver option"
  rp_device_dump :: "driver option"

definition no_parser :: report_parser where
  "no_parser = \<lparr>rp_setup = None, rp_init_report = None, rp_parse_usage = None,
     rp_parse_input_report = None, rp_parse_feature_report = None, rp_set_player_leds = None,
     rp_set_lightbar_color = None, rp_play_dual_rumble = None, rp_device_dump = None\<rparr>"

record hid_device =
  cod :: u32
  vendor_id :: u16
  product_id :: u16
  dev_name :: string
  flags :: u32
  hid_descriptor :: "u8 list"
  hid_descriptor_len :: nat
  hids_cid :: u16
  controller_type :: int
  ctl :: controller
  report_parser :: report_parser
  misc_button_wait_release :: u8
  misc_button_wait_delay :: u8
  conn :: uni_bt_conn
  parent :: "nat option"
  child :: "nat option"

definition device_zero :: hid_device where
  "device_zero = \<lparr>cod = 0, vendor_id = 0, product_id = 0, dev_name = [], flags = 0,
     hid_descriptor = replicate 512 0, hid_descriptor_len = 0, hids_cid = 0, controller_type = 0,
     ctl = \<lparr>klass = Class_None, gamepad = gamepad_zero, battery = 0, fw_version = Fw_V3_1\<rparr>,
     report_parser = no_parser, misc_button_wait_release = 0, misc_button_wait_delay = 0,
     conn = conn_zero, parent = None, child = None\<rparr>"

definition FLAGS_HAS_COD :: u32 where [simp]: "FLAGS_HAS_COD = 0x100"
definition FLAGS_HAS_NAME :: u32 where [simp]: "FLAGS_HAS_NAME = 0x200"
definition FLAGS_HAS_HID_DESCRIPTOR :: u32 where [simp]: "FLAGS_HAS_HID_DESCRIPTOR = 0x400"
definition FLAGS_HAS_VENDOR_ID :: u32 where [simp]: "FLAGS_HAS_VENDOR_ID = 0x800"
definition FLAGS_HAS_PRODUCT_ID :: u32 where [simp]: "FLAGS_HAS_PRODUCT_ID = 0x1000"
definition FLAGS_HAS_CONTROLLER_TYPE :: u32 where [simp]: "FLAGS_HAS_CONTROLLER_TYPE = 0x2000"

definition uni_hid_device_set_cod :: "u32 \<Rightarrow> hid_device \<Rightarrow> hid_device" where
  "uni_hid_device_set_cod c d = d\<lparr>cod := c,
     flags := (if c = 0 then flags d AND NOT FLAGS_HAS_COD else flags d OR FLAGS_HAS_COD)\<rparr>"

definition uni_hid_device_set_incoming :: "bool \<Rightarrow> hid_device \<Rightarrow> hid_device" where
  "uni_hid_device_set_incoming b d = d\<lparr>conn := (conn d)\<lparr>incoming := b\<rparr>\<rparr>"

text \<open>A C string: 239 characters fit; a \<open>NULL\<close> name is refused.\<close>

definition uni_hid_device_set_name :: "string option \<Rightarrow> hid_device \<Rightarrow> hid_device" where
  "uni_hid_device_set_name n d = (case n of None \<Rightarrow> d
     | Some s \<Rightarrow> d\<lparr>dev_name := take 239 s, flags := flags d OR FLAGS_HAS_NAME\<rparr>)"

definition uni_hid_device_has_name :: "hid_device \<Rightarrow> bool" where
  "uni_hid_device_has_name d \<longleftrightarrow> flags d AND FLAGS_HAS_NAME \<noteq> 0"

text \<open>\<open>memcpy\<close> copies the whole descriptor, not the minimum stored as its length.\<close>

definition uni_hid_device_set_hid_descriptor :: "u8 list \<Rightarrow> int \<Rightarrow> hid_device \<Rightarrow> hid_device option" where
  "uni_hid_device_set_hid_descriptor bytes len d =
     (if len < 0 \<or> 512 < len \<or> length bytes < nat len then None
      else Some (d\<lparr>hid_descriptor := take (nat len) bytes @ drop (nat len) (hid_descriptor d),
        hid_descriptor_len := nat (min 512 len), flags := flags d OR FLAGS_HAS_HID_DESCRIPTOR\<rparr>))"

definition uni_hid_device_has_hid_descriptor :: "hid_device \<Rightarrow> bool" where
  "uni_hid_device_has_hid_descriptor d \<longleftrightarrow> flags d AND FLAGS_HAS_HID_DESCRIPTOR \<noteq> 0"

definition uni_hid_device_set_product_id :: "u16 \<Rightarrow> hid_device \<Rightarrow> hid_device" where
  "uni_hid_device_set_product_id p d = d\<lparr>product_id := p, flags := flags d OR FLAGS_HAS_PRODUCT_ID\<rparr>"

definition uni_hid_device_set_vendor_id :: "u16 \<Rightarrow> hid_device \<Rightarrow> hid_device" where
  "uni_hid_device_set_vendor_id v d =
     (if v = 0 then d else d\<lparr>vendor_id := v, flags := flags d OR FLAGS_HAS_VENDOR_ID\<rparr>)"

definition uni_hid_device_has_controller_type :: "hid_device \<Rightarrow> bool" where
  "uni_hid_device_has_controller_type d \<longleftrightarrow> flags d AND FLAGS_HAS_CONTROLLER_TYPE \<noteq> 0"

definition uni_hid_device_set_connection_handle :: "u16 \<Rightarrow> hid_device \<Rightarrow> hid_device" where
  "uni_hid_device_set_connection_handle h d = d\<lparr>conn := (conn d)\<lparr>handle := h\<rparr>\<rparr>"

definition uni_hid_device_does_require_hid_descriptor :: "hid_device \<Rightarrow> bool" where
  "uni_hid_device_does_require_hid_descriptor d \<longleftrightarrow> rp_parse_usage (report_parser d) \<noteq> None"

definition uni_hid_device_is_mouse :: "hid_device \<Rightarrow> bool" where
  "uni_hid_device_is_mouse d \<longleftrightarrow>
     (let m = UNI_BT_COD_MAJOR_PERIPHERAL OR UNI_BT_COD_MINOR_MICE in cod d AND m = m)"

definition uni_hid_device_is_keyboard :: "hid_device \<Rightarrow> bool" where
  "uni_hid_device_is_keyboard d \<longleftrightarrow>
     (let m = UNI_BT_COD_MAJOR_PERIPHERAL OR UNI_BT_COD_MINOR_KEYBOARD in cod d AND m = m)"

definition uni_hid_device_is_gamepad :: "hid_device \<Rightarrow> bool" where
  "uni_hid_device_is_gamepad d \<longleftrightarrow>
     cod d AND UNI_BT_COD_MAJOR_PERIPHERAL \<noteq> 0 \<and>
     cod d AND (UNI_BT_COD_MINOR_GAMEPAD OR UNI_BT_COD_MINOR_JOYSTICK) \<noteq> 0"

definition uni_hid_device_is_virtual_device :: "hid_device \<Rightarrow> bool" where
  "uni_hid_device_is_virtual_device d \<longleftrightarrow> parent d \<noteq> None"

section \<open>The report parser of a device\<close>

definition UNI_HID_PARSER_STADIA_VID :: u16 where [simp]: "UNI_HID_PARSER_STADIA_VID = 0x18d1"
definition UNI_HID_PARSER_STADIA_PID :: u16 where [simp]: "UNI_HID_PARSER_STADIA_PID = 0x9400"

definition select_parser :: "int \<Rightarrow> u16 \<Rightarrow> u16 \<Rightarrow> report_parser" where
  "select_parser t vid pid =
    (if t = CT_iCadeController then
       no_parser\<lparr>rp_setup := Some D_Icade, rp_parse_usage := Some D_Icade\<rparr>
     else if t = CT_OUYAController then
       no_parser\<lparr>rp_init_report := Some D_Ouya, rp_parse_usage := Some D_Ouya, rp_set_player_leds := Some D_Ouya\<rparr>
     else if t = CT_XBoxOneController then
       no_parser\<lparr>rp_setup := Some D_Xboxone, rp_init_report := Some D_Xboxone, rp_parse_usage := Some D_Xboxone,
          rp_play_dual_rumble := Some D_Xboxone, rp_device_dump := Some D_Xboxone\<rparr>
     else if t = CT_AndroidController then
       (if vid = UNI_HID_PARSER_STADIA_VID \<and> pid = UNI_HID_PARSER_STADIA_PID
        then no_parser\<lparr>rp_init_report := Some D_Android, rp_parse_usage := Some D_Android, rp_set_player_leds := Some D_Android,
          rp_setup := Some D_Stadia, rp_play_dual_rumble := Some D_Stadia\<rparr>
        else no_parser\<lparr>rp_init_report := Some D_Android, rp_parse_usage := Some D_Android, rp_set_player_leds := Some D_Android\<rparr>)
     else if t = CT_NimbusController then
       no_parser\<lparr>rp_init_report := Some D_Nimbus, rp_parse_usage := Some D_Nimbus, rp_set_player_leds := Some D_Nimbus\<rparr>
     else if t = CT_SmartTVRemoteController then
       no_parser\<lparr>rp_init_report := Some D_Smarttv, rp_parse_usage := Some D_Smarttv\<rparr>
     else if t = CT_PSMoveController then
       no_parser\<lparr>rp_setup := Some D_Psmove, rp_init_report := Some D_Psmove, rp_parse_input_report := Some D_Psmove,
          rp_set_lightbar_color := Some D_Psmove, rp_play_dual_rumble := Some D_Psmove\<rparr>
     else if t = CT_PS3Controller then
       no_parser\<lparr>rp_setup := Some D_Ds3, rp_init_report := Some D_Ds3, rp_parse_input_report := Some D_Ds3,
          rp_set_player_leds := Some D_Ds3, rp_play_dual_rumble := Some D_Ds3\<rparr>
     else if t = CT_PS4Controller then
       no_parser\<lparr>rp_setup := Some D_Ds4, rp_init_report := Some D_Ds4, rp_parse_input_report := Some D_Ds4,
          rp_parse_feature_report := Some D_Ds4, rp_set_lightbar_color := Some D_Ds4, rp_play_dual_rumble := Some D_Ds4,
          rp_device_dump := Some D_Ds4\<rparr>
     else if t = CT_PS5Controller then
       no_parser\<lparr>rp_init_report := Some D_Ds5, rp_setup := Some D_Ds5, rp_parse_input_report := Some D_Ds5,
          rp_parse_feature_report := Some D_Ds5, rp_set_player_leds := Some D_Ds5, rp_set_lightbar_color := Some D_Ds5,
          rp_play_dual_rumble := Some D_Ds5, rp_device_dump := Some D_Ds5\<rparr>
     else if t = CT_8BitdoController then
       no_parser\<lparr>rp_init_report := Some D_8bitdo, rp_parse_usage := Some D_8bitdo\<rparr>
     else if t = CT_GenericController then
       no_parser\<lparr>rp_init_report := Some D_Generic, rp_parse_usage := Some D_Generic\<rparr>
     else if t = CT_WiiController then
       no_parser\<lparr>rp_setup := Some D_Wii, rp_init_report := Some D_Wii, rp_parse_input_report := Some D_Wii,
          rp_set_player_leds := Some D_Wii, rp_play_dual_rumble := Some D_Wii, rp_device_dump := Some D_Wii\<rparr>
     else if t = CT_SwitchProController \<or> t = CT_SwitchJoyConRight \<or> t = CT_SwitchJoyConLeft then
       no_parser\<lparr>rp_setup := Some D_Switch, rp_init_report := Some D_Switch, rp_parse_input_report := Some D_Switch,
          rp_set_player_leds := Some D_Switch, rp_play_dual_rumble := Some D_Switch, rp_device_dump := Some D_Switch\<rparr>
     else if t = CT_SteamController then
       no_parser\<lparr>rp_setup := Some D_Steam, rp_init_report := Some D_Steam, rp_parse_input_report := Some D_Steam\<rparr>
     else if t = CT_AtariJoystick then
       no_parser\<lparr>rp_setup := Some D_Atari, rp_init_report := Some D_Atari, rp_parse_input_report := Some D_Atari\<rparr>
     else if t = CT_GenericMouse then
       no_parser\<lparr>rp_setup := Some D_Mouse, rp_parse_input_report := Some D_Mouse, rp_init_report := Some D_Mouse,
          rp_parse_usage := Some D_Mouse, rp_device_dump := Some D_Mouse\<rparr>
     else if t = CT_GenericKeyboard then
       no_parser\<lparr>rp_setup := Some D_Keyboard, rp_parse_input_report := Some D_Keyboard, rp_init_report := Some D_Keyboard,
          rp_parse_usage := Some D_Keyboard, rp_device_dump := Some D_Keyboard\<rparr>
     else no_parser\<lparr>rp_init_report := Some D_Generic, rp_parse_usage := Some D_Generic\<rparr>)"

definition XBOX_WIRELESS_VID :: u16 where [simp]: "XBOX_WIRELESS_VID = 0x045e"
definition XBOX_WIRELESS_PID :: u16 where [simp]: "XBOX_WIRELESS_PID = 0x02e0"

text \<open>
  \<open>strncmp\<close> over 25 characters, the terminating NUL of the constant included, so the whole name has
  to be equal.  A match stores faked ids and the descriptor of the 4.8 firmware, whose bytes are
  the parameter \<open>xbox_desc\<close>.
\<close>

definition uni_hid_parser_xboxone_does_name_match :: "u8 list \<Rightarrow> hid_device \<Rightarrow> (hid_device \<times> bool) option" where
  "uni_hid_parser_xboxone_does_name_match xbox_desc d =
     (if dev_name d \<noteq> ''Xbox Wireless Controller'' then Some (d, False)
      else do {
        d1 \<leftarrow> uni_hid_device_set_hid_descriptor xbox_desc (int (length xbox_desc))
          (uni_hid_device_set_product_id XBOX_WIRELESS_PID (uni_hid_device_set_vendor_id XBOX_WIRELESS_VID d));
        Some (d1, True)
      })"

text \<open>The type when the table does not know the ids: by class of device, then by name.\<close>

definition fallback_type :: "u8 list \<Rightarrow> hid_device \<Rightarrow> (hid_device \<times> int) option" where
  "fallback_type xbox_desc d =
     (if uni_hid_device_is_mouse d then Some (d, CT_GenericMouse)
      else if uni_hid_device_is_keyboard d then Some (d, CT_GenericKeyboard)
      else do {
        (d1, matches) \<leftarrow> uni_hid_parser_xboxone_does_name_match xbox_desc d;
        Some (d1, if matches then CT_XBoxOneController else CT_AndroidController)
      })"

definition uni_hid_device_guess_controller_type_from_pid_vid :: "u8 list \<Rightarrow> hid_device \<Rightarrow> hid_device option" where
  "uni_hid_device_guess_controller_type_from_pid_vid xbox_desc d =
     (if uni_hid_device_has_controller_type d then Some d
      else do {
        let t0 = uni_guess_controller_type (vendor_id d) (product_id d);
        (d1, t) \<leftarrow> (if t0 = CT_Unknown \<or> t0 = CT_UnknownNonSteamController \<or> t0 = CT_UnknownSteamController
                   then fallback_type xbox_desc d else Some (d, t0));
        Some (d1\<lparr>report_parser := select_parser t (vendor_id d1) (product_id d1), controller_type := t,
          flags := flags d1 OR FLAGS_HAS_CONTROLLER_TYPE\<rparr>)
      })"

section \<open>The world\<close>

datatype timer = T_Connection | T_Inquiry | T_Misc

datatype plat_event =
    P_Connected nat
  | P_Disconnected nat
  | P_Ready nat
  | P_Data nat controller
  | P_Oob nat
  | P_Dump nat
  | P_Gap_Disconnect u16
  | P_L2cap_Disconnect u16
  | P_Hids_Disconnect u16

datatype gap_type = Gap_Acl | Gap_Sco | Gap_Le | Gap_Invalid

record bt_world =
  devs :: "hid_device list"
  timers :: "(timer \<times> nat) list"
  plat :: "plat_event list"
  virtual_enabled :: bool

definition upd :: "nat \<Rightarrow> (hid_device \<Rightarrow> hid_device) \<Rightarrow> bt_world \<Rightarrow> bt_world" where
  "upd i f w = w\<lparr>devs := (devs w)[i := f (devs w ! i)]\<rparr>"

definition emit :: "plat_event \<Rightarrow> bt_world \<Rightarrow> bt_world" where
  "emit ev w = w\<lparr>plat := plat w @ [ev]\<rparr>"

definition add_timer :: "timer \<Rightarrow> nat \<Rightarrow> bt_world \<Rightarrow> bt_world option" where
  "add_timer t i w = (if (t, i) \<in> set (timers w) then None else Some (w\<lparr>timers := (t, i) # timers w\<rparr>))"

definition remove_timer :: "timer \<Rightarrow> nat \<Rightarrow> bt_world \<Rightarrow> bt_world" where
  "remove_timer t i w = w\<lparr>timers := removeAll (t, i) (timers w)\<rparr>"

text \<open>Overwriting a slot is a crash while one of its timers is linked.\<close>

definition overwrite :: "nat \<Rightarrow> hid_device \<Rightarrow> bt_world \<Rightarrow> bt_world option" where
  "overwrite i d w = (if \<exists>t \<in> {T_Connection, T_Inquiry, T_Misc}. (t, i) \<in> set (timers w) then None
     else Some (w\<lparr>devs := (devs w)[i := d]\<rparr>))"

section \<open>The table\<close>

definition uni_hid_device_init :: "nat \<Rightarrow> bt_world \<Rightarrow> bt_world option" where
  "uni_hid_device_init i = overwrite i (device_zero\<lparr>hids_cid := 0xffff, conn := uni_bt_conn_init\<rparr>)"

text \<open>At start-up the slots are zero and no timer runs.\<close>

definition uni_hid_device_setup :: "bool \<Rightarrow> bt_world option" where
  "uni_hid_device_setup virt = fold (\<lambda>i w. Option.bind w (uni_hid_device_init i)) [0..<4]
     (Some \<lparr>devs = replicate 4 device_zero, timers = [], plat = [], virtual_enabled = virt\<rparr>)"

definition find_slot :: "(hid_device \<Rightarrow> bool) \<Rightarrow> bt_world \<Rightarrow> nat option" where
  "find_slot P w = find (\<lambda>i. P (devs w ! i)) [0..<4]"

definition free_slot :: "hid_device \<Rightarrow> bool" where
  "free_slot d \<longleftrightarrow> btaddr (conn d) = zero_addr"

definition uni_hid_device_create :: "bd_addr \<Rightarrow> bt_world \<Rightarrow> (bt_world \<times> nat option) option" where
  "uni_hid_device_create addr w = (case find_slot free_slot w of
     None \<Rightarrow> Some (w, None)
   | Some i \<Rightarrow> do {
       w1 \<leftarrow> overwrite i (device_zero\<lparr>conn := conn_zero\<lparr>btaddr := addr\<rparr>\<rparr>) w;
       w2 \<leftarrow> add_timer T_Connection i w1;
       Some (w2, Some i)
     })"

text \<open>The name \<open>virtual-<i>\<close> is only printed; the slot index is its digit.\<close>

definition uni_hid_device_create_virtual :: "nat \<Rightarrow> bt_world \<Rightarrow> bt_world \<times> nat option" where
  "uni_hid_device_create_virtual p w =
     (if \<not> virtual_enabled w then (w, None)
      else case find_slot free_slot w of
        None \<Rightarrow> (w, None)
      | Some i \<Rightarrow>
          let pd = devs w ! p;
              w1 = upd i (\<lambda>d. d\<lparr>conn := (conn d)\<lparr>btaddr := btaddr (conn pd)\<rparr>, parent := Some p,
                product_id := product_id pd, vendor_id := vendor_id pd, cod := cod pd,
                controller_type := controller_type pd, flags := flags d OR FLAGS_HAS_CONTROLLER_TYPE,
                dev_name := ''virtual-'' @ [char_of (48 + i)]\<rparr>) w
          in (upd p (\<lambda>d. d\<lparr>child := Some i\<rparr>) w1, Some i))"

definition uni_hid_device_get_instance_for_address :: "bd_addr \<Rightarrow> bt_world \<Rightarrow> nat option" where
  "uni_hid_device_get_instance_for_address addr =
     find_slot (\<lambda>d. \<not> uni_hid_device_is_virtual_device d \<and> btaddr (conn d) = addr)"

definition uni_hid_device_get_instance_for_cid :: "u16 \<Rightarrow> bt_world \<Rightarrow> nat option" where
  "uni_hid_device_get_instance_for_cid cid w =
     (if cid = 0 then None
      else find_slot (\<lambda>d. interrupt_cid (conn d) = cid \<or> control_cid (conn d) = cid) w)"

definition uni_hid_device_get_instance_for_hids_cid :: "u16 \<Rightarrow> bt_world \<Rightarrow> nat option" where
  "uni_hid_device_get_instance_for_hids_cid cid w =
     (if cid = 0 then None else find_slot (\<lambda>d. hids_cid d = cid) w)"

definition uni_hid_device_get_instance_for_connection_handle :: "u16 \<Rightarrow> bt_world \<Rightarrow> nat option" where
  "uni_hid_device_get_instance_for_connection_handle h w =
     (if h = UNI_BT_CONN_HANDLE_INVALID then None else find_slot (\<lambda>d. handle (conn d) = h) w)"

definition uni_hid_device_get_instance_with_predicate :: "(hid_device \<Rightarrow> bool) \<Rightarrow> bt_world \<Rightarrow> nat option" where
  "uni_hid_device_get_instance_with_predicate P =
     find_slot (\<lambda>d. if conn_state (conn d) \<noteq> Cs_Ready then False else P d)"

definition uni_hid_device_get_instance_for_idx :: "int \<Rightarrow> nat option" where
  "uni_hid_device_get_instance_for_idx i = (if i < 0 \<or> 4 \<le> i then None else Some (nat i))"

definition uni_hid_device_get_first_device_with_state :: "conn_state \<Rightarrow> bt_world \<Rightarrow> nat option" where
  "uni_hid_device_get_first_device_with_state s =
     find_slot (\<lambda>d. btaddr (conn d) \<noteq> zero_addr \<and> conn_state (conn d) = s)"

definition uni_hid_device_request_inquire :: "bt_world \<Rightarrow> bt_world" where
  "uni_hid_device_request_inquire w = w\<lparr>devs := map (\<lambda>d.
     if conn_state (conn d) = Cs_Remote_Name_Inquired
     then d\<lparr>conn := uni_bt_conn_set_state Cs_Remote_Name_Request (conn d)\<rparr> else d) (devs w)\<rparr>"

section \<open>Life cycle\<close>

definition uni_hid_device_on_connected :: "nat \<Rightarrow> bool \<Rightarrow> bt_world \<Rightarrow> bt_world" where
  "uni_hid_device_on_connected i b w = emit (if b then P_Connected i else P_Disconnected i) w"

definition uni_hid_device_connect :: "nat \<Rightarrow> bt_world \<Rightarrow> bt_world" where
  "uni_hid_device_connect i w =
     uni_hid_device_on_connected i True (upd i (\<lambda>d. d\<lparr>conn := uni_bt_conn_set_connected True (conn d)\<rparr>) w)"

text \<open>
  How the Bluetooth modules drop the link; \<open>gap\<close> is BTstack's answer to
  \<open>gap_get_connection_type\<close>, the scan hint of the LE module is left out.
\<close>

definition uni_bt_bredr_disconnect :: "(u16 \<Rightarrow> gap_type) \<Rightarrow> nat \<Rightarrow> bt_world \<Rightarrow> bt_world" where
  "uni_bt_bredr_disconnect gap i w =
     (let c = conn (devs w ! i) in
      if gap (handle c) \<noteq> Gap_Invalid
      then upd i (\<lambda>d. d\<lparr>conn := (conn d)\<lparr>handle := UNI_BT_CONN_HANDLE_INVALID\<rparr>\<rparr>)
        (emit (P_Gap_Disconnect (handle c)) w)
      else
        let w1 = (if control_cid c \<noteq> 0
              then upd i (\<lambda>d. d\<lparr>conn := (conn d)\<lparr>control_cid := 0\<rparr>\<rparr>) (emit (P_L2cap_Disconnect (control_cid c)) w)
              else w)
        in if interrupt_cid c \<noteq> 0
           then upd i (\<lambda>d. d\<lparr>conn := (conn d)\<lparr>interrupt_cid := 0\<rparr>\<rparr>) (emit (P_L2cap_Disconnect (interrupt_cid c)) w1)
           else w1)"

definition hog_disconnect :: "(u16 \<Rightarrow> gap_type) \<Rightarrow> u16 \<Rightarrow> bt_world \<Rightarrow> bt_world" where
  "hog_disconnect gap h w =
     (let w1 = (case uni_hid_device_get_instance_for_connection_handle h w of
           None \<Rightarrow> w | Some j \<Rightarrow> emit (P_Hids_Disconnect (hids_cid (devs w ! j))) w)
      in if gap h \<noteq> Gap_Invalid then emit (P_Gap_Disconnect h) w1 else w1)"

definition drop_link :: "(u16 \<Rightarrow> gap_type) \<Rightarrow> nat \<Rightarrow> bt_world \<Rightarrow> bt_world" where
  "drop_link gap i w =
     (let h = handle (conn (devs w ! i)) in
      if gap h = Gap_Le then hog_disconnect gap h w
      else if gap h = Gap_Acl then uni_bt_bredr_disconnect gap i w
      else w)"

text \<open>The recursion through \<open>child\<close> is bounded by fuel; a chain has at most four devices.\<close>

fun uni_hid_device_disconnect :: "nat \<Rightarrow> (u16 \<Rightarrow> gap_type) \<Rightarrow> nat \<Rightarrow> bt_world \<Rightarrow> bt_world option" where
  "uni_hid_device_disconnect 0 gap i w = None"
| "uni_hid_device_disconnect (Suc n) gap i w = do {
     w1 \<leftarrow> (case child (devs w ! i) of None \<Rightarrow> Some w | Some c \<Rightarrow> uni_hid_device_disconnect n gap c w);
     let was = connected (conn (devs w1 ! i));
     let w2 = (if uni_hid_device_is_virtual_device (devs w1 ! i) then w1 else drop_link gap i w1);
     let w3 = upd i (\<lambda>d. d\<lparr>conn := uni_bt_conn_disconnect (conn d)\<rparr>) w2;
     let w4 = remove_timer T_Inquiry i (remove_timer T_Connection i w3);
     Some (if was then uni_hid_device_on_connected i False w4 else w4)
   }"

fun uni_hid_device_delete :: "nat \<Rightarrow> nat \<Rightarrow> bt_world \<Rightarrow> bt_world option" where
  "uni_hid_device_delete 0 i w = None"
| "uni_hid_device_delete (Suc n) i w = do {
     w1 \<leftarrow> (case child (devs w ! i) of None \<Rightarrow> Some w | Some c \<Rightarrow> uni_hid_device_delete n c w);
     uni_hid_device_init i (remove_timer T_Connection i w1)
   }"

definition drop_device :: "(u16 \<Rightarrow> gap_type) \<Rightarrow> nat \<Rightarrow> bt_world \<Rightarrow> bt_world option" where
  "drop_device gap i w = Option.bind (uni_hid_device_disconnect 4 gap i w) (uni_hid_device_delete 4 i)"

text \<open>\<open>accept\<close> is the platform's answer in \<open>on_device_ready\<close>.\<close>

definition uni_hid_device_set_ready_complete ::
  "(u16 \<Rightarrow> gap_type) \<Rightarrow> bool \<Rightarrow> nat \<Rightarrow> bt_world \<Rightarrow> (bt_world \<times> bool) option" where
  "uni_hid_device_set_ready_complete gap accept i w =
     (if conn_state (conn (devs w ! i)) = Cs_Ready then Some (w, False)
      else
        let w1 = emit (P_Ready i) (remove_timer T_Connection i w) in
        if \<not> accept then map_option (\<lambda>w2. (w2, False)) (drop_device gap i w1)
        else Some (upd i (\<lambda>d. d\<lparr>conn := uni_bt_conn_set_state Cs_Ready (conn d)\<rparr>) w1, True))"

text \<open>
  \<open>setup\<close> is the parser's setup function, which calls \<open>set_ready_complete\<close> when it is done, at once
  or from a later report.
\<close>

definition uni_hid_device_set_ready ::
  "(driver \<Rightarrow> nat \<Rightarrow> bt_world \<Rightarrow> bt_world option) \<Rightarrow> (u16 \<Rightarrow> gap_type) \<Rightarrow> bool \<Rightarrow> nat \<Rightarrow> bt_world \<Rightarrow> bt_world option" where
  "uni_hid_device_set_ready setup gap accept i w =
     (if conn_state (conn (devs w ! i)) = Cs_Pending_Ready then Some w
      else
        let w1 = upd i (\<lambda>d. d\<lparr>conn := uni_bt_conn_set_state Cs_Pending_Ready (conn d)\<rparr>) w in
        case rp_setup (report_parser (devs w1 ! i)) of
          Some drv \<Rightarrow> setup drv i w1
        | None \<Rightarrow> map_option fst (uni_hid_device_set_ready_complete gap accept i w1))"

text \<open>A timer that fires has left the run loop.\<close>

definition device_connection_timeout :: "(u16 \<Rightarrow> gap_type) \<Rightarrow> nat \<Rightarrow> bt_world \<Rightarrow> bt_world option" where
  "device_connection_timeout gap i w =
     (if conn_state (conn (devs w ! i)) = Cs_Ready then Some w
      else drop_device gap i (emit (P_Dump i) w))"

section \<open>Controller data\<close>

definition misc_buttons_of :: "nat \<Rightarrow> bt_world \<Rightarrow> u8" where
  "misc_buttons_of i w = misc_buttons (gamepad (ctl (devs w ! i)))"

definition switch_family :: "int \<Rightarrow> bool" where
  "switch_family t \<longleftrightarrow> t = CT_SwitchProController \<or> t = CT_SwitchJoyConLeft \<or> t = CT_SwitchJoyConRight"

definition process_misc_button_system :: "nat \<Rightarrow> bt_world \<Rightarrow> bt_world option" where
  "process_misc_button_system i w =
     (let d = devs w ! i; delayed = switch_family (controller_type d) in
      if misc_buttons_of i w AND MISC_BUTTON_SYSTEM = 0
      then Some (upd i (\<lambda>d. d\<lparr>misc_button_wait_release := misc_button_wait_release d AND NOT MISC_BUTTON_SYSTEM\<rparr>) w)
      else if misc_button_wait_release d AND MISC_BUTTON_SYSTEM \<noteq> 0 then Some w
      else if delayed \<and> misc_button_wait_delay d AND MISC_BUTTON_SYSTEM \<noteq> 0 then Some w
      else
        let w1 = emit (P_Oob i)
          (upd i (\<lambda>d. d\<lparr>misc_button_wait_release := misc_button_wait_release d OR MISC_BUTTON_SYSTEM\<rparr>) w)
        in if delayed
           then add_timer T_Misc i
             (upd i (\<lambda>d. d\<lparr>misc_button_wait_delay := misc_button_wait_delay d OR MISC_BUTTON_SYSTEM\<rparr>) w1)
           else Some w1)"

definition process_misc_button_home :: "nat \<Rightarrow> bt_world \<Rightarrow> bt_world" where
  "process_misc_button_home i w =
     (if misc_buttons_of i w AND MISC_BUTTON_START = 0
      then upd i (\<lambda>d. d\<lparr>misc_button_wait_release := misc_button_wait_release d AND NOT MISC_BUTTON_START\<rparr>) w
      else if misc_button_wait_release (devs w ! i) AND MISC_BUTTON_START \<noteq> 0 then w
      else upd i (\<lambda>d. d\<lparr>misc_button_wait_release := misc_button_wait_release d OR MISC_BUTTON_START\<rparr>) w)"

definition misc_button_enable_callback :: "nat \<Rightarrow> bt_world \<Rightarrow> bt_world" where
  "misc_button_enable_callback i =
     upd i (\<lambda>d. d\<lparr>misc_button_wait_delay := misc_button_wait_delay d AND NOT MISC_BUTTON_SYSTEM\<rparr>)"

definition uni_hid_device_process_controller :: "gamepad_cfg \<Rightarrow> nat \<Rightarrow> bt_world \<Rightarrow> bt_world option" where
  "uni_hid_device_process_controller cfg i w =
     (if conn_state (conn (devs w ! i)) \<noteq> Cs_Ready then Some w
      else do {
        let c = ctl (devs w ! i);
        c' \<leftarrow> (if klass c = Class_Gamepad
               then map_option (\<lambda>gp. c\<lparr>gamepad := gp\<rparr>) (remap_with cfg (gamepad c)) else Some c);
        let w1 = emit (P_Data i c') (upd i (\<lambda>d. d\<lparr>ctl := c'\<rparr>) w);
        w2 \<leftarrow> process_misc_button_system i w1;
        Some (process_misc_button_home i w2)
      })"

section \<open>Local effects\<close>

definition timers_of :: "nat \<Rightarrow> bt_world \<Rightarrow> timer set" where
  "timers_of i w = {t. (t, i) \<in> set (timers w)}"

definition quiet :: "plat_event \<Rightarrow> bool" where
  "quiet ev = (case ev of P_Data _ _ \<Rightarrow> False | _ \<Rightarrow> True)"

text \<open>Only slot \<open>i\<close> and its timers change, and the log grows by events other than data.\<close>

definition local_to :: "nat \<Rightarrow> bt_world \<Rightarrow> bt_world \<Rightarrow> bool" where
  "local_to i w w' \<longleftrightarrow> length (devs w') = length (devs w) \<and> virtual_enabled w' = virtual_enabled w \<and>
     (\<forall>j. j \<noteq> i \<longrightarrow> devs w' ! j = devs w ! j \<and> timers_of j w' = timers_of j w) \<and>
     (\<exists>es. plat w' = plat w @ es \<and> list_all quiet es)"

lemma local_refl: "local_to i w w"
  by (simp add: local_to_def)

lemma local_trans:
  assumes "local_to i w w1" "local_to i w1 w2"
  shows "local_to i w w2"
proof -
  obtain es fs where "plat w1 = plat w @ es" "list_all quiet es" "plat w2 = plat w1 @ fs" "list_all quiet fs"
    using assms unfolding local_to_def by blast
  then have "plat w2 = plat w @ es @ fs \<and> list_all quiet (es @ fs)" by simp
  with assms show ?thesis unfolding local_to_def by metis
qed

lemma local_upd: "local_to i w (upd i f w)"
  by (auto simp: local_to_def upd_def timers_of_def)

lemma local_remove: "local_to i w (remove_timer t i w)"
  by (auto simp: local_to_def remove_timer_def timers_of_def)

lemma local_emit: "quiet ev \<Longrightarrow> local_to i w (emit ev w)"
  by (auto simp: local_to_def emit_def timers_of_def)

lemma local_add: "add_timer t i w = Some w' \<Longrightarrow> local_to i w w'"
  by (auto simp: local_to_def add_timer_def timers_of_def split: if_splits)

lemma local_overwrite: "overwrite i d w = Some w' \<Longrightarrow> local_to i w w'"
  by (auto simp: local_to_def overwrite_def timers_of_def split: if_splits)

lemmas local_intros = local_refl local_upd local_remove local_emit local_add local_overwrite

lemma slot_simps [simp]:
  "devs (emit ev w) = devs w" "timers (emit ev w) = timers w" "devs (remove_timer t i w) = devs w"
  "timers (upd i f w) = timers w" "plat (upd i f w) = plat w" "plat (remove_timer t i w) = plat w"
  "plat (emit ev w) = plat w @ [ev]" "length (devs (upd i f w)) = length (devs w)"
  "virtual_enabled (upd i f w) = virtual_enabled w" "virtual_enabled (emit ev w) = virtual_enabled w"
  "i < length (devs w) \<Longrightarrow> devs (upd i f w) ! i = f (devs w ! i)"
  "timers_of i (upd j f w) = timers_of i w" "timers_of i (emit ev w) = timers_of i w"
  "timers_of i (remove_timer t i w) = timers_of i w - {t}"
  by (auto simp: upd_def emit_def remove_timer_def timers_of_def)

lemma misc_simps [simp]: "misc_buttons_of i (emit ev w) = misc_buttons_of i w"
  by (simp add: misc_buttons_of_def)

section \<open>Dropping a device\<close>

definition device_fresh :: hid_device where
  "device_fresh = device_zero\<lparr>hids_cid := 0xffff, conn := uni_bt_conn_init\<rparr>"

lemma drop_link_effect:
  assumes "i < length (devs w)"
  shows "local_to i w (drop_link gap i w) \<and>
    child (devs (drop_link gap i w) ! i) = child (devs w ! i) \<and>
    connected (conn (devs (drop_link gap i w) ! i)) = connected (conn (devs w ! i)) \<and>
    timers_of i (drop_link gap i w) = timers_of i w"
proof -
  let ?h = "handle (conn (devs w ! i))"
  have le: "local_to i w (emit (P_Gap_Disconnect ?h) (emit ev w))" if "quiet ev" for ev
    by (rule local_trans [OF local_emit [OF that] local_emit]) (simp add: quiet_def)
  have e: "local_to i w (emit (P_Gap_Disconnect ?h) w)" by (rule local_emit) (simp add: quiet_def)
  have u: "local_to i w (upd i f (emit (P_Gap_Disconnect ?h) w))" for f by (rule local_trans [OF e local_upd])
  show ?thesis using assms
    by (simp add: drop_link_def hog_disconnect_def uni_bt_bredr_disconnect_def Let_def le e u local_refl
        quiet_def split: option.splits)
qed

lemma disconnect_effect:
  assumes "i < length (devs w)" "child (devs w ! i) = None" "parent (devs w ! i) = None"
  shows "\<exists>w'. uni_hid_device_disconnect (Suc n) gap i w = Some w' \<and> local_to i w w' \<and>
    child (devs w' ! i) = None \<and> \<not> connected (conn (devs w' ! i)) \<and>
    timers_of i w' = timers_of i w - {T_Connection, T_Inquiry}"
proof -
  let ?w2 = "drop_link gap i w"
  have l: "local_to i w ?w2" "timers_of i ?w2 = timers_of i w"
    and d: "child (devs ?w2 ! i) = None"
      "connected (conn (devs ?w2 ! i)) = connected (conn (devs w ! i))"
    using drop_link_effect [OF assms(1), of gap] assms(2) by simp_all
  have len: "i < length (devs ?w2)" using l(1) assms(1) by (simp add: local_to_def)
  let ?w3 = "upd i (\<lambda>d. d\<lparr>conn := uni_bt_conn_disconnect (conn d)\<rparr>) ?w2"
  let ?w4 = "remove_timer T_Inquiry i (remove_timer T_Connection i ?w3)"
  let ?w5 = "if connected (conn (devs w ! i)) then uni_hid_device_on_connected i False ?w4 else ?w4"
  have "uni_hid_device_disconnect (Suc n) gap i w = Some ?w5"
    using assms(2,3) by (simp add: uni_hid_device_is_virtual_device_def)
  moreover have "local_to i w ?w4"
    by (rule local_trans [OF l(1)], rule local_trans [OF local_upd], rule local_trans [OF local_remove local_remove])
  then have "local_to i w ?w5"
    by (auto simp: uni_hid_device_on_connected_def quiet_def intro: local_trans [OF _ local_emit])
  moreover have "child (devs ?w5 ! i) = None \<and> \<not> connected (conn (devs ?w5 ! i))"
    using assms(2) d len
    by (simp add: uni_hid_device_on_connected_def uni_bt_conn_disconnect_def uni_bt_conn_set_connected_def)
  moreover have "timers_of i ?w5 = timers_of i w - {T_Connection, T_Inquiry}"
    using l(2) by (auto simp: uni_hid_device_on_connected_def)
  ultimately show ?thesis by blast
qed

lemma timer_cases: "t \<noteq> T_Connection \<Longrightarrow> t \<noteq> T_Inquiry \<Longrightarrow> t = T_Misc"
  by (cases t) auto

lemma overwrite_cases:
  "overwrite i d w = (if timers_of i w = {} then Some (w\<lparr>devs := (devs w)[i := d]\<rparr>) else None)"
proof -
  have "x \<in> {T_Connection, T_Inquiry, T_Misc}" for x by (cases x) auto
  then have "(\<exists>t \<in> {T_Connection, T_Inquiry, T_Misc}. (t, i) \<in> set (timers w)) \<longleftrightarrow> timers_of i w \<noteq> {}"
    unfolding timers_of_def by blast
  then show ?thesis unfolding overwrite_def by presburger
qed

text \<open>
  A device with no relatives can be dropped in every state but one: while the delay timer of the
  system button runs, which neither the disconnect nor the delete removes.
\<close>

lemma drop_effect:
  assumes "i < length (devs w)" "child (devs w ! i) = None" "parent (devs w ! i) = None"
  shows "if T_Misc \<in> timers_of i w then drop_device gap i w = None
    else (\<exists>w'. drop_device gap i w = Some w' \<and> local_to i w w' \<and> devs w' ! i = device_fresh \<and> timers_of i w' = {})"
proof -
  obtain w1 where w1: "uni_hid_device_disconnect 4 gap i w = Some w1" "local_to i w w1"
    "child (devs w1 ! i) = None" "timers_of i w1 = timers_of i w - {T_Connection, T_Inquiry}"
    using disconnect_effect [OF assms, of 3 gap] by (auto simp: eval_nat_numeral)
  let ?w2 = "remove_timer T_Connection i w1"
  have del: "drop_device gap i w = uni_hid_device_init i ?w2"
    using w1(1,3) by (simp add: drop_device_def eval_nat_numeral)
  have t: "timers_of i ?w2 = timers_of i w \<inter> {T_Misc}"
    unfolding slot_simps w1(4) by (auto intro: timer_cases)
  have l: "i < length (devs ?w2)" using w1(2) assms(1) by (simp add: local_to_def)
  show ?thesis
  proof (cases "T_Misc \<in> timers_of i w")
    case True
    then show ?thesis using t by (simp add: del uni_hid_device_init_def overwrite_cases)
  next
    case False
    let ?w3 = "?w2\<lparr>devs := (devs ?w2)[i := device_fresh]\<rparr>"
    have r: "uni_hid_device_init i ?w2 = Some ?w3"
      using False t by (simp add: uni_hid_device_init_def overwrite_cases device_fresh_def)
    have "local_to i w ?w3"
      using local_trans [OF local_trans [OF w1(2) local_remove [of i w1 T_Connection]]
          local_overwrite [of i device_fresh]] r
      by (simp add: uni_hid_device_init_def device_fresh_def)
    moreover have "devs ?w3 ! i = device_fresh" "timers_of i ?w3 = {}"
      using l t False by (simp_all add: timers_of_def)
    ultimately show ?thesis using False del r by metis
  qed
qed

section \<open>Runs\<close>

text \<open>
  The events that reach a device: it is created by the scan, the connection modules move its state,
  its parser is chosen, its set-up starts and completes, reports arrive, timers fire, and it is
  dropped when the link goes down.  Parsers that complete their set-up at once are a
  \<open>Dv_Set_Ready\<close> followed by a \<open>Dv_Ready_Complete\<close>.  \<open>accept\<close> is the platform's answer.
\<close>

datatype dev_event =
    Dv_Create bd_addr
  | Dv_State nat conn_state
  | Dv_Connect nat
  | Dv_Guess nat "u8 list"
  | Dv_Inquiry nat
  | Dv_Set_Ready nat bool
  | Dv_Ready_Complete nat bool
  | Dv_Report nat controller
  | Dv_Drop nat
  | Dv_Timeout nat
  | Dv_Misc_Timer nat

record dev_env =
  env_gap :: "u16 \<Rightarrow> gap_type"
  env_cfg :: gamepad_cfg

definition guess_at :: "nat \<Rightarrow> u8 list \<Rightarrow> bt_world \<Rightarrow> bt_world option" where
  "guess_at i desc w = map_option (\<lambda>d. upd i (\<lambda>_. d) w)
     (uni_hid_device_guess_controller_type_from_pid_vid desc (devs w ! i))"

definition dev_step :: "dev_env \<Rightarrow> dev_event \<Rightarrow> bt_world \<Rightarrow> bt_world option" where
  "dev_step e ev w = (case ev of
     Dv_Create a \<Rightarrow> map_option fst (uni_hid_device_create a w)
   | Dv_State i s \<Rightarrow> Some (upd i (\<lambda>d. d\<lparr>conn := uni_bt_conn_set_state s (conn d)\<rparr>) w)
   | Dv_Connect i \<Rightarrow> Some (uni_hid_device_connect i w)
   | Dv_Guess i desc \<Rightarrow> guess_at i desc w
   | Dv_Inquiry i \<Rightarrow> add_timer T_Inquiry i w
   | Dv_Set_Ready i accept \<Rightarrow> uni_hid_device_set_ready (\<lambda>_ _. Some) (env_gap e) accept i w
   | Dv_Ready_Complete i accept \<Rightarrow> map_option fst (uni_hid_device_set_ready_complete (env_gap e) accept i w)
   | Dv_Report i c \<Rightarrow> uni_hid_device_process_controller (env_cfg e) i (upd i (\<lambda>d. d\<lparr>ctl := c\<rparr>) w)
   | Dv_Drop i \<Rightarrow> drop_device (env_gap e) i w
   | Dv_Timeout i \<Rightarrow> if T_Connection \<in> timers_of i w
       then device_connection_timeout (env_gap e) i (remove_timer T_Connection i w) else Some w
   | Dv_Misc_Timer i \<Rightarrow> if T_Misc \<in> timers_of i w
       then Some (misc_button_enable_callback i (remove_timer T_Misc i w)) else Some w)"

fun slot_of :: "dev_event \<Rightarrow> nat" where
  "slot_of (Dv_Create _) = 0"
| "slot_of (Dv_State i _) = i"
| "slot_of (Dv_Connect i) = i"
| "slot_of (Dv_Guess i _) = i"
| "slot_of (Dv_Inquiry i) = i"
| "slot_of (Dv_Set_Ready i _) = i"
| "slot_of (Dv_Ready_Complete i _) = i"
| "slot_of (Dv_Report i _) = i"
| "slot_of (Dv_Drop i) = i"
| "slot_of (Dv_Timeout i) = i"
| "slot_of (Dv_Misc_Timer i) = i"

text \<open>
  What the callers guarantee: a slot in use, an address that is not zero, a state set directly is
  one of the connection states below the ready ones, an inquiry timer that is not running, a
  descriptor that fits, a mapping of the gamepad that is defined.
\<close>

definition dev_event_ok :: "dev_env \<Rightarrow> bt_world \<Rightarrow> dev_event \<Rightarrow> bool" where
  "dev_event_ok e w ev \<longleftrightarrow> slot_of ev < 4 \<and> cfg_type (env_cfg e) \<noteq> Map_Custom \<and> (case ev of
     Dv_Create a \<Rightarrow> a \<noteq> zero_addr
   | Dv_State i s \<Rightarrow> \<not> free_slot (devs w ! i) \<and> s \<noteq> Cs_Ready \<and> s \<noteq> Cs_Pending_Ready
   | Dv_Guess i desc \<Rightarrow> \<not> free_slot (devs w ! i) \<and> length desc \<le> 512
   | Dv_Inquiry i \<Rightarrow> \<not> free_slot (devs w ! i) \<and> T_Inquiry \<notin> timers_of i w
   | _ \<Rightarrow> \<not> free_slot (devs w ! slot_of ev))"

text \<open>The event deletes the device in slot \<open>i\<close>.\<close>

definition deletes :: "bt_world \<Rightarrow> dev_event \<Rightarrow> nat \<Rightarrow> bool" where
  "deletes w ev i \<longleftrightarrow> (case ev of
     Dv_Drop j \<Rightarrow> j = i
   | Dv_Timeout j \<Rightarrow> j = i \<and> T_Connection \<in> timers_of i w
   | Dv_Ready_Complete j accept \<Rightarrow> j = i \<and> \<not> accept \<and> conn_state (conn (devs w ! i)) \<noteq> Cs_Ready
   | Dv_Set_Ready j accept \<Rightarrow> j = i \<and> \<not> accept \<and> conn_state (conn (devs w ! i)) \<noteq> Cs_Pending_Ready \<and>
       rp_setup (report_parser (devs w ! i)) = None
   | _ \<Rightarrow> False)"

section \<open>The invariant\<close>

text \<open>
  The connection timer only runs for a device that is not ready yet; the delay timer runs exactly
  while the device ignores its system button; a free slot has no timer.
\<close>

definition slot_inv :: "hid_device \<Rightarrow> timer set \<Rightarrow> bool" where
  "slot_inv d T \<longleftrightarrow> child d = None \<and> parent d = None \<and>
     (T_Connection \<in> T \<longrightarrow> conn_state (conn d) \<noteq> Cs_Ready) \<and>
     (T_Misc \<in> T \<longleftrightarrow> misc_button_wait_delay d AND MISC_BUTTON_SYSTEM \<noteq> 0) \<and>
     (free_slot d \<longrightarrow> T = {})"

definition gated :: "(controller \<Rightarrow> bool) \<Rightarrow> plat_event list \<Rightarrow> bool" where
  "gated G xs \<longleftrightarrow> (\<forall>ys i c zs. xs = ys @ P_Data i c # zs \<longrightarrow> P_Ready i \<in> set ys \<and> G c)"

definition dev_inv :: "(controller \<Rightarrow> bool) \<Rightarrow> bt_world \<Rightarrow> bool" where
  "dev_inv G w \<longleftrightarrow> length (devs w) = 4 \<and> \<not> virtual_enabled w \<and> gated G (plat w) \<and>
     (\<forall>i < 4. slot_inv (devs w ! i) (timers_of i w) \<and>
       (conn_state (conn (devs w ! i)) = Cs_Ready \<longrightarrow> P_Ready i \<in> set (plat w)))"

lemma gated_snoc: "gated G (xs @ [e]) \<longleftrightarrow> gated G xs \<and> (\<forall>i c. e = P_Data i c \<longrightarrow> P_Ready i \<in> set xs \<and> G c)"
proof
  assume g: "gated G (xs @ [e])"
  show "gated G xs \<and> (\<forall>i c. e = P_Data i c \<longrightarrow> P_Ready i \<in> set xs \<and> G c)"
    using g unfolding gated_def by (metis append.assoc append_Cons append_Nil2 append_Nil)
next
  assume a: "gated G xs \<and> (\<forall>i c. e = P_Data i c \<longrightarrow> P_Ready i \<in> set xs \<and> G c)"
  show "gated G (xs @ [e])"
    unfolding gated_def
  proof (intro allI impI)
    fix ys i c zs
    assume "xs @ [e] = ys @ P_Data i c # zs"
    then show "P_Ready i \<in> set ys \<and> G c"
      using a unfolding gated_def by (cases zs rule: rev_cases) auto
  qed
qed

lemma gated_quiet: "gated G xs \<Longrightarrow> list_all quiet es \<Longrightarrow> gated G (xs @ es)"
proof (induction es rule: rev_induct)
  case (snoc e es)
  then have "gated G (xs @ es)" by simp
  moreover have "\<forall>i c. e \<noteq> P_Data i c" using snoc.prems(2) by (auto simp: quiet_def)
  ultimately show ?case using gated_snoc [of G "xs @ es" e] by simp
qed simp

text \<open>A local change keeps the invariant when it keeps the slot's part.\<close>

lemma dev_inv_local:
  assumes "dev_inv G w" "local_to i w w'" "i < 4" "slot_inv (devs w' ! i) (timers_of i w')"
    "conn_state (conn (devs w' ! i)) = Cs_Ready \<Longrightarrow>
       conn_state (conn (devs w ! i)) = Cs_Ready \<or> P_Ready i \<in> set (plat w')"
  shows "dev_inv G w'"
proof -
  obtain es where es: "plat w' = plat w @ es" "list_all quiet es"
    using assms(2) unfolding local_to_def by blast
  have "gated G (plat w')" using assms(1) es gated_quiet unfolding dev_inv_def by simp
  moreover have "slot_inv (devs w' ! j) (timers_of j w') \<and>
      (conn_state (conn (devs w' ! j)) = Cs_Ready \<longrightarrow> P_Ready j \<in> set (plat w'))" if "j < 4" for j
  proof (cases "j = i")
    case True
    then show ?thesis using assms(1,3-5) es that by (auto simp: dev_inv_def)
  next
    case False
    then have "devs w' ! j = devs w ! j" "timers_of j w' = timers_of j w"
      using assms(2) by (auto simp: local_to_def)
    then show ?thesis using assms(1) es that by (simp add: dev_inv_def)
  qed
  ultimately show ?thesis using assms(1,2) by (simp add: dev_inv_def local_to_def)
qed

lemma dev_invD:
  assumes "dev_inv G w" "i < 4"
  shows "i < length (devs w)" "child (devs w ! i) = None" "parent (devs w ! i) = None"
    "slot_inv (devs w ! i) (timers_of i w)"
    "conn_state (conn (devs w ! i)) = Cs_Ready \<Longrightarrow> P_Ready i \<in> set (plat w)"
  using assms by (auto simp: dev_inv_def slot_inv_def)

lemma slot_inv_fresh: "slot_inv device_fresh {}" "conn_state (conn device_fresh) = Cs_None"
  by (simp_all add: slot_inv_def device_fresh_def device_zero_def uni_bt_conn_init_def conn_zero_def)

lemma inv_upd:
  assumes "dev_inv G w" "i < 4" "slot_inv (f (devs w ! i)) (timers_of i w)"
    "conn_state (conn (f (devs w ! i))) = Cs_Ready \<Longrightarrow> conn_state (conn (devs w ! i)) = Cs_Ready"
  shows "dev_inv G (upd i f w)"
  using dev_inv_local [OF assms(1) local_upd assms(2), of f] assms(3,4) dev_invD(1) [OF assms(1,2)] by simp

lemma inv_emit: "dev_inv G w \<Longrightarrow> i < (4 :: nat) \<Longrightarrow> quiet ev \<Longrightarrow> dev_inv G (emit ev w)"
  using dev_inv_local [of G w i "emit ev w"] local_emit [of ev i w] dev_invD(4) [of G w i] by simp

lemma inv_remove:
  assumes "dev_inv G w" "i < 4" "t \<noteq> T_Misc"
  shows "dev_inv G (remove_timer t i w)"
  using dev_inv_local [OF assms(1) local_remove assms(2), of t] dev_invD(4) [OF assms(1,2)] assms(3)
  by (auto simp: slot_inv_def)

lemma drop_inv:
  assumes "dev_inv G w" "i < 4"
  shows "if T_Misc \<in> timers_of i w then drop_device gap i w = None
    else (\<exists>w'. drop_device gap i w = Some w' \<and> dev_inv G w' \<and> free_slot (devs w' ! i))"
proof (cases "T_Misc \<in> timers_of i w")
  case True
  then show ?thesis using drop_effect [OF dev_invD(1-3) [OF assms], of gap] by simp
next
  case False
  then obtain w' where w': "drop_device gap i w = Some w'" "local_to i w w'"
    "devs w' ! i = device_fresh" "timers_of i w' = {}"
    using drop_effect [OF dev_invD(1-3) [OF assms], of gap] by auto
  have "dev_inv G w'"
    by (rule dev_inv_local [OF assms(1) w'(2) assms(2)]) (simp_all add: w' slot_inv_fresh)
  moreover have "free_slot device_fresh"
    by (simp add: free_slot_def device_fresh_def device_zero_def uni_bt_conn_init_def conn_zero_def)
  ultimately show ?thesis using False w' by auto
qed

section \<open>Each event keeps the invariant\<close>

lemma find_range: "find P [0..<4] = Some i \<Longrightarrow> i < 4 \<and> P i"
  by (auto simp: find_Some_iff)

lemma create_inv:
  assumes "dev_inv G w" "a \<noteq> zero_addr"
  shows "\<exists>w' r. uni_hid_device_create a w = Some (w', r) \<and> dev_inv G w'"
proof (cases "find_slot free_slot w")
  case None
  then show ?thesis using assms by (simp add: uni_hid_device_create_def)
next
  case (Some i)
  then have i: "i < 4" "free_slot (devs w ! i)" using find_range unfolding find_slot_def by auto
  note D = dev_invD [OF assms(1) i(1)]
  have t: "timers_of i w = {}" using D(4) i(2) by (simp add: slot_inv_def)
  let ?d = "device_zero\<lparr>conn := conn_zero\<lparr>btaddr := a\<rparr>\<rparr>"
  let ?w1 = "w\<lparr>devs := (devs w)[i := ?d]\<rparr>"
  have 1: "overwrite i ?d w = Some ?w1" using t by (simp add: overwrite_cases)
  have t1: "timers_of i ?w1 = {}" using t by (simp add: timers_of_def)
  let ?w2 = "?w1\<lparr>timers := (T_Connection, i) # timers ?w1\<rparr>"
  have 2: "add_timer T_Connection i ?w1 = Some ?w2" using t1 by (auto simp: add_timer_def timers_of_def)
  have t2: "timers_of i ?w2 = {T_Connection}" using t1 by (auto simp: timers_of_def)
  have d: "devs ?w2 ! i = ?d" using D(1) by simp
  have "slot_inv (devs ?w2 ! i) (timers_of i ?w2)" "conn_state (conn (devs ?w2 ! i)) \<noteq> Cs_Ready"
    unfolding d t2 using assms(2)
    by (simp_all add: slot_inv_def free_slot_def device_zero_def conn_zero_def)
  then have "dev_inv G ?w2"
    using dev_inv_local [OF assms(1) local_trans [OF local_overwrite [OF 1] local_add [OF 2]] i(1)] by blast
  then show ?thesis using Some 1 2 by (simp add: uni_hid_device_create_def)
qed

lemma guess_keeps:
  assumes "length desc \<le> 512"
  shows "\<exists>d'. uni_hid_device_guess_controller_type_from_pid_vid desc d = Some d' \<and> conn d' = conn d \<and>
    child d' = child d \<and> parent d' = parent d \<and> misc_button_wait_delay d' = misc_button_wait_delay d"
  using assms
  by (auto simp: uni_hid_device_guess_controller_type_from_pid_vid_def fallback_type_def Let_def
      uni_hid_parser_xboxone_does_name_match_def uni_hid_device_set_hid_descriptor_def
      uni_hid_device_set_product_id_def uni_hid_device_set_vendor_id_def)

lemma ready_complete_inv:
  assumes "dev_inv G w" "i < 4" "\<not> free_slot (devs w ! i)"
  shows "(uni_hid_device_set_ready_complete gap accept i w = None \<longleftrightarrow>
      conn_state (conn (devs w ! i)) \<noteq> Cs_Ready \<and> \<not> accept \<and> T_Misc \<in> timers_of i w) \<and>
    (\<forall>r. uni_hid_device_set_ready_complete gap accept i w = Some r \<longrightarrow> dev_inv G (fst r))"
proof (cases "conn_state (conn (devs w ! i)) = Cs_Ready")
  case True
  then show ?thesis using assms by (simp add: uni_hid_device_set_ready_complete_def)
next
  case False
  let ?w1 = "emit (P_Ready i) (remove_timer T_Connection i w)"
  have r: "dev_inv G (remove_timer T_Connection i w)" by (rule inv_remove [OF assms(1,2)]) simp
  have w1: "dev_inv G ?w1" by (rule inv_emit [OF r assms(2)]) (simp add: quiet_def)
  show ?thesis
  proof (cases accept)
    case True
    let ?w2 = "upd i (\<lambda>d. d\<lparr>conn := uni_bt_conn_set_state Cs_Ready (conn d)\<rparr>) ?w1"
    note D = dev_invD [OF w1 assms(2)]
    have s: "slot_inv (devs ?w2 ! i) (timers_of i ?w2)"
      using D(1,4) by (auto simp: slot_inv_def uni_bt_conn_set_state_def free_slot_def)
    have "dev_inv G ?w2"
      by (rule dev_inv_local [OF w1 local_upd assms(2) s]) simp
    then show ?thesis using False True by (simp add: uni_hid_device_set_ready_complete_def Let_def)
  next
    case no: False
    have "T_Misc \<in> timers_of i ?w1 \<longleftrightarrow> T_Misc \<in> timers_of i w" by simp
    then show ?thesis using drop_inv [OF w1 assms(2), of gap] False no
      by (auto simp: uni_hid_device_set_ready_complete_def Let_def split: if_splits)
  qed
qed

lemma set_ready_inv:
  assumes "dev_inv G w" "i < 4" "\<not> free_slot (devs w ! i)"
  shows "(uni_hid_device_set_ready (\<lambda>_ _. Some) gap accept i w = None \<longleftrightarrow>
      conn_state (conn (devs w ! i)) \<noteq> Cs_Pending_Ready \<and> rp_setup (report_parser (devs w ! i)) = None \<and>
      \<not> accept \<and> T_Misc \<in> timers_of i w) \<and>
    (\<forall>w'. uni_hid_device_set_ready (\<lambda>_ _. Some) gap accept i w = Some w' \<longrightarrow> dev_inv G w')"
proof (cases "conn_state (conn (devs w ! i)) = Cs_Pending_Ready")
  case True
  then show ?thesis using assms by (simp add: uni_hid_device_set_ready_def)
next
  case False
  let ?w1 = "upd i (\<lambda>d. d\<lparr>conn := uni_bt_conn_set_state Cs_Pending_Ready (conn d)\<rparr>) w"
  note D = dev_invD [OF assms(1,2)]
  have w1: "dev_inv G ?w1"
    using D(1,4) by (intro inv_upd [OF assms(1,2)]) (auto simp: slot_inv_def uni_bt_conn_set_state_def free_slot_def)
  have f: "\<not> free_slot (devs ?w1 ! i)" using assms(3) D(1) by (simp add: free_slot_def uni_bt_conn_set_state_def)
  have s: "conn_state (conn (devs ?w1 ! i)) = Cs_Pending_Ready"
    "report_parser (devs ?w1 ! i) = report_parser (devs w ! i)"
    using D(1) by (simp_all add: uni_bt_conn_set_state_def)
  show ?thesis
  proof (cases "rp_setup (report_parser (devs w ! i))")
    case None
    then show ?thesis using ready_complete_inv [OF w1 assms(2) f, of gap accept] False s
      by (auto simp: uni_hid_device_set_ready_def Let_def)
  next
    case (Some drv)
    then show ?thesis using False s w1 by (simp add: uni_hid_device_set_ready_def Let_def)
  qed
qed

section \<open>Controller data and the delay timer\<close>

lemma set_connected_simps [simp]:
  "conn_state (uni_bt_conn_set_connected b c) = conn_state c"
  "btaddr (uni_bt_conn_set_connected b c) = btaddr c"
  by (simp_all add: uni_bt_conn_set_connected_def)

lemma bit0_simps [simp]: "(x OR 1) AND 1 \<noteq> (0 :: u8)" "(x AND - 2) AND 1 = (0 :: u8)"
proof -
  have "bit ((x OR 1) AND 1) 0" by (simp add: bit_simps)
  then show "(x OR 1) AND 1 \<noteq> (0 :: u8)" by auto
  have "(x AND NOT 1) AND 1 = (0 :: u8)" by (intro bit_word_eqI) (auto simp: bit_simps)
  then show "(x AND - 2) AND 1 = (0 :: u8)" by simp
qed

lemma misc_system_inv:
  assumes "dev_inv G w" "i < 4" "\<not> free_slot (devs w ! i)"
  shows "\<exists>w'. process_misc_button_system i w = Some w' \<and> dev_inv G w'"
proof -
  note D = dev_invD [OF assms(1,2)]
  let ?S = "\<lambda>d. d\<lparr>misc_button_wait_release := misc_button_wait_release d OR MISC_BUTTON_SYSTEM\<rparr>"
  let ?C = "\<lambda>d. d\<lparr>misc_button_wait_release := misc_button_wait_release d AND NOT MISC_BUTTON_SYSTEM\<rparr>"
  let ?E = "\<lambda>d. d\<lparr>misc_button_wait_delay := misc_button_wait_delay d OR MISC_BUTTON_SYSTEM\<rparr>"
  have rel: "dev_inv G (upd i ?S w)" "dev_inv G (upd i ?C w)"
    using D(4) by (intro inv_upd [OF assms(1,2)]; simp add: slot_inv_def free_slot_def)+
  have w1: "dev_inv G (emit (P_Oob i) (upd i ?S w))"
    by (rule inv_emit [OF rel(1) assms(2)]) (simp add: quiet_def)
  let ?w1 = "emit (P_Oob i) (upd i ?S w)"
  have delay: "\<exists>w'. add_timer T_Misc i (upd i ?E ?w1) = Some w' \<and> dev_inv G w'"
    if "misc_button_wait_delay (devs w ! i) AND MISC_BUTTON_SYSTEM = 0"
  proof -
    let ?w2 = "upd i ?E ?w1"
    let ?w3 = "?w2\<lparr>timers := (T_Misc, i) # timers ?w2\<rparr>"
    have no: "T_Misc \<notin> timers_of i w" using D(4) that by (simp add: slot_inv_def)
    then have a: "add_timer T_Misc i ?w2 = Some ?w3" by (auto simp: add_timer_def timers_of_def)
    have t: "timers_of i ?w3 = insert T_Misc (timers_of i w)" by (auto simp: timers_of_def)
    have d: "devs ?w3 ! i = ?E (?S (devs w ! i))" using D(1) by simp
    have s: "slot_inv (devs ?w3 ! i) (timers_of i ?w3)"
      unfolding d t using D(4) assms(3) by (simp add: slot_inv_def free_slot_def)
    have "dev_inv G ?w3"
    proof (rule dev_inv_local [OF w1 local_trans [OF local_upd local_add [OF a]] assms(2) s])
      show "conn_state (conn (devs ?w3 ! i)) = Cs_Ready \<Longrightarrow>
          conn_state (conn (devs ?w1 ! i)) = Cs_Ready \<or> P_Ready i \<in> set (plat ?w3)"
        unfolding d using D(1) by simp
    qed
    with a show ?thesis by blast
  qed
  show ?thesis using rel w1 assms(1) delay
    by (auto simp: process_misc_button_system_def Let_def)
qed

lemma misc_home_inv: "dev_inv G w \<Longrightarrow> i < (4 :: nat) \<Longrightarrow> dev_inv G (process_misc_button_home i w)"
  using dev_invD(4) [of G w i]
  by (auto simp: process_misc_button_home_def slot_inv_def free_slot_def intro!: inv_upd)

lemma remap_defined: "cfg_type cfg \<noteq> Map_Custom \<Longrightarrow> \<exists>gp'. remap_with cfg gp = Some gp'"
  by (cases "cfg_type cfg") (auto simp: remap_with_def uni_gamepad_remap_def)

text \<open>What the platform sees of a controller.\<close>

definition platform_view :: "gamepad_cfg \<Rightarrow> controller \<Rightarrow> controller option" where
  "platform_view cfg c = (if klass c = Class_Gamepad
     then map_option (\<lambda>gp. c\<lparr>gamepad := gp\<rparr>) (remap_with cfg (gamepad c)) else Some c)"

text \<open>The data event itself is not quiet; it is gated because the device is ready.\<close>

lemma data_inv:
  assumes "dev_inv G w" "i < 4" "conn_state (conn (devs w ! i)) = Cs_Ready" "G c"
  shows "dev_inv G (emit (P_Data i c) w)"
  using assms dev_invD(5) [OF assms(1-3)] by (auto simp: dev_inv_def gated_snoc)

lemma process_controller_inv:
  assumes "dev_inv G w" "i < 4" "\<not> free_slot (devs w ! i)" "cfg_type cfg \<noteq> Map_Custom"
    "\<And>c'. platform_view cfg (ctl (devs w ! i)) = Some c' \<Longrightarrow> G c'"
  shows "\<exists>w'. uni_hid_device_process_controller cfg i w = Some w' \<and> dev_inv G w'"
proof (cases "conn_state (conn (devs w ! i)) = Cs_Ready")
  case True
  let ?c = "ctl (devs w ! i)"
  note D = dev_invD [OF assms(1,2)]
  have "\<exists>c'. platform_view cfg ?c = Some c'"
    using remap_defined [OF assms(4), of "gamepad ?c"] by (auto simp: platform_view_def)
  then obtain c' where c': "platform_view cfg ?c = Some c'" by blast
  let ?u = "upd i (\<lambda>d. d\<lparr>ctl := c'\<rparr>) w"
  have u: "dev_inv G ?u" using D(4) by (intro inv_upd [OF assms(1,2)]) (simp_all add: slot_inv_def free_slot_def)
  have w1: "dev_inv G (emit (P_Data i c') ?u)" by (rule data_inv [OF u assms(2)]) (simp_all add: D(1) True assms(5) [OF c'])
  have "\<not> free_slot (devs (emit (P_Data i c') ?u) ! i)" using assms(3) D(1) by (simp add: free_slot_def)
  from misc_system_inv [OF w1 assms(2) this] obtain w2
    where w2: "process_misc_button_system i (emit (P_Data i c') ?u) = Some w2" "dev_inv G w2" by blast
  have "uni_hid_device_process_controller cfg i w = Some (process_misc_button_home i w2)"
    using True c' w2(1) by (simp add: uni_hid_device_process_controller_def platform_view_def Let_def)
  then show ?thesis using misc_home_inv [OF w2(2) assms(2)] by blast
qed (use assms in \<open>simp add: uni_hid_device_process_controller_def\<close>)

lemma misc_timer_inv:
  assumes "dev_inv G w" "i < 4" "\<not> free_slot (devs w ! i)"
  shows "dev_inv G (misc_button_enable_callback i (remove_timer T_Misc i w))"
proof -
  note D = dev_invD [OF assms(1,2)]
  let ?w' = "misc_button_enable_callback i (remove_timer T_Misc i w)"
  have l: "local_to i w ?w'"
    unfolding misc_button_enable_callback_def by (rule local_trans [OF local_remove local_upd])
  have s: "slot_inv (devs ?w' ! i) (timers_of i ?w')"
    using D(1,4) assms(3) by (auto simp: misc_button_enable_callback_def slot_inv_def free_slot_def)
  show ?thesis
    by (rule dev_inv_local [OF assms(1) l assms(2) s])
      (simp add: misc_button_enable_callback_def D(1))
qed

lemma inquiry_inv:
  assumes "dev_inv G w" "i < 4" "\<not> free_slot (devs w ! i)" "T_Inquiry \<notin> timers_of i w"
  shows "\<exists>w'. add_timer T_Inquiry i w = Some w' \<and> dev_inv G w'"
proof -
  let ?w' = "w\<lparr>timers := (T_Inquiry, i) # timers w\<rparr>"
  note D = dev_invD [OF assms(1,2)]
  have a: "add_timer T_Inquiry i w = Some ?w'" using assms(4) by (auto simp: add_timer_def timers_of_def)
  have t: "timers_of i ?w' = insert T_Inquiry (timers_of i w)" by (auto simp: timers_of_def)
  have s: "slot_inv (devs ?w' ! i) (timers_of i ?w')"
    unfolding t using D(4) assms(3) by (simp add: slot_inv_def)
  have "dev_inv G ?w'"
    by (rule dev_inv_local [OF assms(1) local_add [OF a] assms(2) s]) simp
  with a show ?thesis by blast
qed

lemma timeout_inv:
  assumes "dev_inv G w" "i < 4" "T_Connection \<in> timers_of i w"
  shows "(device_connection_timeout gap i (remove_timer T_Connection i w) = None \<longleftrightarrow> T_Misc \<in> timers_of i w) \<and>
    (\<forall>w'. device_connection_timeout gap i (remove_timer T_Connection i w) = Some w' \<longrightarrow> dev_inv G w')"
proof -
  let ?w1 = "emit (P_Dump i) (remove_timer T_Connection i w)"
  have r: "dev_inv G (remove_timer T_Connection i w)" by (rule inv_remove [OF assms(1,2)]) simp
  have w1: "dev_inv G ?w1" by (rule inv_emit [OF r assms(2)]) (simp add: quiet_def)
  have "conn_state (conn (devs w ! i)) \<noteq> Cs_Ready"
    using dev_invD(4) [OF assms(1,2)] assms(3) by (simp add: slot_inv_def)
  moreover have "T_Misc \<in> timers_of i ?w1 \<longleftrightarrow> T_Misc \<in> timers_of i w" by simp
  ultimately show ?thesis using drop_inv [OF w1 assms(2), of gap]
    by (auto simp: device_connection_timeout_def split: if_splits)
qed

section \<open>The step\<close>

lemma map_fst_conv:
  "map_option fst x = None \<longleftrightarrow> x = None" "map_option fst x = Some w' \<longleftrightarrow> (\<exists>r. x = Some r \<and> fst r = w')"
  by auto

lemma dev_step_inv:
  assumes inv: "dev_inv G w" and ok: "dev_event_ok e w ev"
    and good: "\<And>i c c'. ev = Dv_Report i c \<Longrightarrow> platform_view (env_cfg e) c = Some c' \<Longrightarrow> G c'"
  shows "(dev_step e ev w = None \<longleftrightarrow> deletes w ev (slot_of ev) \<and> T_Misc \<in> timers_of (slot_of ev) w) \<and>
    (\<forall>w'. dev_step e ev w = Some w' \<longrightarrow> dev_inv G w')"
proof -
  define i where "i = slot_of ev"
  have i: "i < 4" using ok by (simp add: dev_event_ok_def i_def)
  note D = dev_invD [OF inv i]
  have defined: "?thesis" if "\<not> deletes w ev i" "\<exists>w'. dev_step e ev w = Some w' \<and> dev_inv G w'"
    using that by (auto simp: i_def)
  show ?thesis
  proof (cases ev)
    case (Dv_Create a)
    then show ?thesis using create_inv [OF inv, of a] ok
      by (auto simp: dev_step_def deletes_def dev_event_ok_def)
  next
    case (Dv_State j s)
    then have "dev_inv G (upd i (\<lambda>d. d\<lparr>conn := uni_bt_conn_set_state s (conn d)\<rparr>) w)"
      using D(1,4) ok by (intro inv_upd [OF inv i])
        (auto simp: slot_inv_def free_slot_def uni_bt_conn_set_state_def dev_event_ok_def i_def)
    with Dv_State show ?thesis by (intro defined) (simp_all add: dev_step_def deletes_def i_def)
  next
    case (Dv_Connect j)
    have "dev_inv G (upd i (\<lambda>d. d\<lparr>conn := uni_bt_conn_set_connected True (conn d)\<rparr>) w)"
      using D(1,4) by (intro inv_upd [OF inv i])
        (auto simp: slot_inv_def free_slot_def)
    then have "dev_inv G (uni_hid_device_connect i w)"
      unfolding uni_hid_device_connect_def uni_hid_device_on_connected_def
      by (rule inv_emit [OF _ i]) (simp add: quiet_def)
    with Dv_Connect show ?thesis by (intro defined) (simp_all add: dev_step_def deletes_def i_def)
  next
    case (Dv_Guess j desc)
    then obtain d' where d': "uni_hid_device_guess_controller_type_from_pid_vid desc (devs w ! i) = Some d'"
      "conn d' = conn (devs w ! i)" "child d' = child (devs w ! i)" "parent d' = parent (devs w ! i)"
      "misc_button_wait_delay d' = misc_button_wait_delay (devs w ! i)"
      using guess_keeps [of desc "devs w ! i"] ok by (auto simp: dev_event_ok_def i_def)
    then have "dev_inv G (upd i (\<lambda>_. d') w)"
      using D(4) by (intro inv_upd [OF inv i]) (simp_all add: slot_inv_def free_slot_def)
    with Dv_Guess d' show ?thesis by (intro defined) (simp_all add: dev_step_def deletes_def guess_at_def i_def)
  next
    case (Dv_Inquiry j)
    then show ?thesis using inquiry_inv [OF inv i] ok
      by (intro defined) (simp_all add: dev_step_def deletes_def dev_event_ok_def i_def)
  next
    case (Dv_Set_Ready j accept)
    then show ?thesis using set_ready_inv [OF inv i, of "env_gap e" accept] ok
      by (auto simp: dev_step_def deletes_def dev_event_ok_def i_def)
  next
    case (Dv_Ready_Complete j accept)
    then show ?thesis using ready_complete_inv [OF inv i, of "env_gap e" accept] ok
      by (auto simp: dev_step_def deletes_def dev_event_ok_def i_def map_fst_conv)
  next
    case (Dv_Report j c)
    let ?u = "upd i (\<lambda>d. d\<lparr>ctl := c\<rparr>) w"
    have "dev_inv G ?u" using D(4) by (intro inv_upd [OF inv i]) (simp_all add: slot_inv_def free_slot_def)
    from process_controller_inv [OF this i, of "env_cfg e"] Dv_Report ok D(1) good [OF Dv_Report] show ?thesis
      by (intro defined) (simp_all add: dev_step_def deletes_def dev_event_ok_def i_def free_slot_def)
  next
    case (Dv_Drop j)
    then show ?thesis using drop_inv [OF inv i, of "env_gap e"]
      by (auto simp: dev_step_def deletes_def i_def split: if_splits)
  next
    case (Dv_Timeout j)
    then show ?thesis using timeout_inv [OF inv i, of "env_gap e"] inv
      by (auto simp: dev_step_def deletes_def i_def)
  next
    case (Dv_Misc_Timer j)
    then show ?thesis using misc_timer_inv [OF inv i] ok inv
      by (intro defined) (auto simp: dev_step_def deletes_def dev_event_ok_def i_def)
  qed
qed

text \<open>Reachable worlds, from start-up with virtual devices off as configured.\<close>

inductive dev_reach :: "dev_env \<Rightarrow> bt_world \<Rightarrow> bool" for e where
  dev_start: "uni_hid_device_setup False = Some w \<Longrightarrow> dev_reach e w"
| dev_next: "dev_reach e w \<Longrightarrow> dev_event_ok e w ev \<Longrightarrow> dev_step e ev w = Some w' \<Longrightarrow> dev_reach e w'"

definition world_start :: bt_world where
  "world_start = \<lparr>devs = replicate 4 device_fresh, timers = [], plat = [], virtual_enabled = False\<rparr>"

lemma setup_start: "uni_hid_device_setup False = Some world_start"
  by (simp add: uni_hid_device_setup_def uni_hid_device_init_def overwrite_def world_start_def
      device_fresh_def eval_nat_numeral)

lemma dev_inv_start: "dev_inv G world_start"
  by (auto simp: dev_inv_def world_start_def gated_def timers_of_def slot_inv_fresh)

lemma dev_reach_inv: "dev_reach e w \<Longrightarrow> dev_inv (\<lambda>_. True) w"
proof (induction rule: dev_reach.induct)
  case (dev_start w)
  then show ?case using setup_start dev_inv_start by simp
next
  case (dev_next w ev w')
  then show ?case using dev_step_inv [of "\<lambda>_. True" w e ev] by blast
qed

section \<open>The system button\<close>

definition pressed :: "controller \<Rightarrow> bool" where
  "pressed c \<longleftrightarrow> misc_buttons (gamepad c) AND MISC_BUTTON_SYSTEM \<noteq> 0"

definition waiting :: "nat \<Rightarrow> bt_world \<Rightarrow> bool" where
  "waiting i w \<longleftrightarrow> misc_button_wait_release (devs w ! i) AND MISC_BUTTON_SYSTEM \<noteq> 0"

text \<open>The presses of a sequence of reports: reports with the button down after one with it up.\<close>

fun presses :: "bool \<Rightarrow> controller list \<Rightarrow> nat" where
  "presses before [] = 0"
| "presses before (c # cs) = (if pressed c \<and> \<not> before then 1 else 0) + presses (pressed c) cs"

fun reports_run :: "dev_env \<Rightarrow> nat \<Rightarrow> controller list \<Rightarrow> bt_world \<Rightarrow> bt_world option" where
  "reports_run e i [] w = Some w"
| "reports_run e i (c # cs) w = Option.bind (dev_step e (Dv_Report i c) w) (reports_run e i cs)"

definition oobs :: "nat \<Rightarrow> bt_world \<Rightarrow> nat" where
  "oobs i w = length (filter (\<lambda>ev. ev = P_Oob i) (plat w))"

lemma bit_mask_simps [simp]:
  "(x OR 4) AND 1 = x AND (1 :: u8)" "(x AND - 5) AND 1 = x AND (1 :: u8)"
proof -
  show "(x OR 4) AND 1 = x AND (1 :: u8)" by (intro bit_word_eqI) (auto simp: bit_simps)
  have "(x AND NOT 4) AND 1 = x AND (1 :: u8)" by (intro bit_word_eqI) (auto simp: bit_simps)
  then show "(x AND - 5) AND 1 = x AND (1 :: u8)" by simp
qed

lemma remap_misc: "cfg_type cfg \<noteq> Map_Custom \<Longrightarrow> remap_with cfg gp = Some gp' \<Longrightarrow> misc_buttons gp' = misc_buttons gp"
  by (cases "cfg_type cfg") (auto simp: remap_with_def uni_gamepad_remap_def remap_switch_def Let_def)

text \<open>What one report does to a ready device outside the Switch family.\<close>

definition plain_ready :: "nat \<Rightarrow> bt_world \<Rightarrow> bool" where
  "plain_ready i w \<longleftrightarrow> i < length (devs w) \<and> conn_state (conn (devs w ! i)) = Cs_Ready \<and>
     \<not> switch_family (controller_type (devs w ! i))"

lemma misc_system_plain:
  assumes "plain_ready i w"
  shows "\<exists>w'. process_misc_button_system i w = Some w' \<and> plain_ready i w' \<and>
    misc_buttons_of i w' = misc_buttons_of i w \<and>
    (waiting i w' \<longleftrightarrow> pressed (ctl (devs w ! i))) \<and>
    oobs i w' = oobs i w + (if pressed (ctl (devs w ! i)) \<and> \<not> waiting i w then 1 else 0)"
  using assms
  by (auto simp: process_misc_button_system_def Let_def pressed_def waiting_def misc_buttons_of_def
      plain_ready_def oobs_def)

lemma misc_home_plain:
  assumes "plain_ready i w"
  shows "plain_ready i (process_misc_button_home i w) \<and>
    (waiting i (process_misc_button_home i w) \<longleftrightarrow> waiting i w) \<and> oobs i (process_misc_button_home i w) = oobs i w"
  using assms by (auto simp: process_misc_button_home_def waiting_def plain_ready_def oobs_def)

lemma report_plain:
  assumes "plain_ready i w" "cfg_type (env_cfg e) \<noteq> Map_Custom"
  shows "\<exists>w'. dev_step e (Dv_Report i c) w = Some w' \<and> plain_ready i w' \<and> (waiting i w' \<longleftrightarrow> pressed c) \<and>
    oobs i w' = oobs i w + (if pressed c \<and> \<not> waiting i w then 1 else 0)"
proof -
  let ?u = "upd i (\<lambda>d. d\<lparr>ctl := c\<rparr>) w"
  have l: "i < length (devs w)" using assms(1) by (simp add: plain_ready_def)
  obtain gp' where gp': "remap_with (env_cfg e) (gamepad c) = Some gp'" using remap_defined [OF assms(2)] by blast
  define c' where "c' = (if klass c = Class_Gamepad then c\<lparr>gamepad := gp'\<rparr> else c)"
  have p: "pressed c' \<longleftrightarrow> pressed c" using remap_misc [OF assms(2) gp'] by (simp add: pressed_def c'_def)
  let ?w1 = "emit (P_Data i c') (upd i (\<lambda>d. d\<lparr>ctl := c'\<rparr>) ?u)"
  have w1: "plain_ready i ?w1" "ctl (devs ?w1 ! i) = c'" "waiting i ?w1 \<longleftrightarrow> waiting i w" "oobs i ?w1 = oobs i w"
    using assms(1) by (simp_all add: plain_ready_def waiting_def oobs_def)
  obtain w2 where w2: "process_misc_button_system i ?w1 = Some w2" "plain_ready i w2"
    "waiting i w2 \<longleftrightarrow> pressed c" "oobs i w2 = oobs i w + (if pressed c \<and> \<not> waiting i w then 1 else 0)"
    using misc_system_plain [OF w1(1)] w1 p by auto
  have "dev_step e (Dv_Report i c) w = Some (process_misc_button_home i w2)"
    using assms(1) gp' w2(1) l
    by (simp add: dev_step_def uni_hid_device_process_controller_def Let_def plain_ready_def c'_def
        split: if_splits)
  with misc_home_plain [OF w2(2)] w2 show ?thesis by auto
qed

lemma reports_presses:
  "plain_ready i w \<Longrightarrow> cfg_type (env_cfg e) \<noteq> Map_Custom \<Longrightarrow>
   \<exists>w'. reports_run e i cs w = Some w' \<and> oobs i w' = oobs i w + presses (waiting i w) cs"
proof (induction cs arbitrary: w)
  case (Cons c cs)
  from report_plain [OF Cons.prems, of c] obtain w1 where w1: "dev_step e (Dv_Report i c) w = Some w1"
    "plain_ready i w1" "waiting i w1 \<longleftrightarrow> pressed c"
    "oobs i w1 = oobs i w + (if pressed c \<and> \<not> waiting i w then 1 else 0)" by blast
  from Cons.IH [OF w1(2) Cons.prems(2)] w1 show ?case by auto
qed simp

section \<open>Discovery and the choice of the parser\<close>

text \<open>The bits of the class of device, read as 16 bits.\<close>

lemma cod_supported_16:
  "uni_hid_device_is_cod_supported (ucast (c :: u16)) \<longleftrightarrow>
     c AND 0x1f00 = 0x0500 \<and> c AND 0xcc \<noteq> 0"
proof -
  have m: "(ucast c :: u32) AND ucast (k :: u16) = ucast (c AND k)" for k
    by (simp add: unsigned_and_eq)
  have u: "uint (ucast a :: u32) = uint a" for a :: u16 by (rule uint_up_ucast) (simp add: is_up)
  have eq: "(ucast (a :: u16) :: u32) = ucast (b :: u16) \<longleftrightarrow> a = b" for a b by (metis u word_uint_eq_iff)
  have big: "(ucast c :: u32) \<noteq> 0x400408"
  proof
    assume "(ucast c :: u32) = 0x400408"
    with u [of c] have "uint c = 0x400408" by simp
    with uint_lt2p [of c] show False by simp
  qed
  have minor: "((ucast c :: u32) AND 0xfc) AND 0xcc = ucast (c AND 0xcc)"
    using m [of "0xcc"] by (simp add: and.assoc)
  have major: "((ucast c :: u32) AND 0x1f00 = 0x500) \<longleftrightarrow> c AND 0x1f00 = 0x500"
    using m [of "0x1f00"] eq [of "c AND 0x1f00" "0x500"] by simp
  have "(ucast (c AND 0xcc) :: u32) = 0 \<longleftrightarrow> c AND 0xcc = 0" using eq [of "c AND 0xcc" 0] by simp
  with big minor major show ?thesis
    by (simp add: uni_hid_device_is_cod_supported_def Let_def)
qed

section \<open>The recursion through virtual devices\<close>

definition children :: "bt_world \<Rightarrow> nat option list" where
  "children w = map child (devs w)"

lemma children_upd: "(\<And>d. child (f d) = child d) \<Longrightarrow> children (upd i f w) = children w"
  unfolding children_def upd_def
  by (cases "i < length (devs w)") (simp_all add: map_update list_update_same_conv list_update_beyond)

lemma children_frame [simp]:
  "children (emit ev w) = children w" "children (remove_timer t i w) = children w"
  by (simp_all add: children_def emit_def remove_timer_def)

lemma children_drop_link: "children (drop_link gap i w) = children w"
  by (simp add: drop_link_def hog_disconnect_def uni_bt_bredr_disconnect_def Let_def children_upd split: option.split)

text \<open>A rank that decreases from a device to its child exists exactly when no chain of children is cyclic.\<close>

definition ranked :: "(nat \<Rightarrow> nat) \<Rightarrow> bt_world \<Rightarrow> bool" where
  "ranked rank w \<longleftrightarrow> (\<forall>j c. j < length (devs w) \<longrightarrow> child (devs w ! j) = Some c \<longrightarrow>
     c < length (devs w) \<and> rank c < rank j)"

lemma ranked_children: "children w = children w' \<Longrightarrow> ranked rank w = ranked rank w'"
proof -
  assume c: "children w = children w'"
  then have l: "length (devs w) = length (devs w')" by (metis children_def length_map)
  have "child (devs w ! j) = child (devs w' ! j)" if "j < length (devs w)" for j
    using c that l by (metis children_def nth_map)
  then show ?thesis using l by (auto simp: ranked_def)
qed

lemma disconnect_fuel:
  "ranked rank w \<Longrightarrow> i < length (devs w) \<Longrightarrow> rank i < n \<Longrightarrow> rank i < m \<Longrightarrow>
   \<exists>w'. uni_hid_device_disconnect n gap i w = Some w' \<and> uni_hid_device_disconnect m gap i w = Some w' \<and>
     children w' = children w"
proof (induction n arbitrary: m i w)
  case (Suc n)
  from Suc.prems(4) obtain k where m: "m = Suc k" by (cases m) auto
  define tail where "tail w1 = (let was = connected (conn (devs w1 ! i));
      w2 = (if uni_hid_device_is_virtual_device (devs w1 ! i) then w1 else drop_link gap i w1);
      w3 = upd i (\<lambda>d. d\<lparr>conn := uni_bt_conn_disconnect (conn d)\<rparr>) w2;
      w4 = remove_timer T_Inquiry i (remove_timer T_Connection i w3)
    in if was then uni_hid_device_on_connected i False w4 else w4)" for w1
  have tail: "children (tail w1) = children w1" for w1
    by (simp add: tail_def Let_def children_drop_link children_upd uni_hid_device_on_connected_def)
  have eq: "uni_hid_device_disconnect (Suc a) gap i w = Option.bind
      (case child (devs w ! i) of None \<Rightarrow> Some w | Some c \<Rightarrow> uni_hid_device_disconnect a gap c w) (Some \<circ> tail)" for a
    by (simp add: tail_def Let_def comp_def)
  show ?case
  proof (cases "child (devs w ! i)")
    case None
    then show ?thesis unfolding m eq by (simp add: tail)
  next
    case (Some c)
    then have "c < length (devs w)" "rank c < rank i" using Suc.prems(1,2) by (auto simp: ranked_def)
    with Suc.IH [OF Suc.prems(1), of c k] Suc.prems(3,4) m obtain w1 where
      "uni_hid_device_disconnect n gap c w = Some w1" "uni_hid_device_disconnect k gap c w = Some w1"
      "children w1 = children w" by auto
    then show ?thesis unfolding m eq Some by (simp add: tail)
  qed
qed simp

lemma mouse_ranked:
  assumes "ranked rank w" "\<forall>j. rank j = 0" "p < length (devs w)" "length (devs w) = 4" "free_slot (devs w ! i)" "i < 4"
    "uni_hid_device_create_virtual p w = (w', Some i)" "i \<noteq> p"
  shows "ranked (\<lambda>j. if j = p then 1 else 0) w'"
  using assms by (auto simp: ranked_def uni_hid_device_create_virtual_def Let_def upd_def nth_list_update
      split: option.splits if_splits)


section \<open>Lookup\<close>

lemma find_slot_unique:
  assumes "i < 4" "P (devs w ! i)" "\<And>j. j < 4 \<Longrightarrow> P (devs w ! j) \<Longrightarrow> j = i"
  shows "find_slot P w = Some i"
proof (cases "find_slot P w")
  case None
  then show ?thesis using assms(1,2) by (auto simp: find_slot_def find_None_iff)
next
  case (Some j)
  then show ?thesis using find_range [of "\<lambda>i. P (devs w ! i)" j] assms(3) by (auto simp: find_slot_def)
qed

lemma create_at:
  assumes "dev_inv G w" "uni_hid_device_create a w = Some (w', Some i)"
  shows "i < 4 \<and> devs w' ! i = device_zero\<lparr>conn := conn_zero\<lparr>btaddr := a\<rparr>\<rparr> \<and> local_to i w w' \<and> free_slot (devs w ! i)"
proof -
  from assms(2) obtain w1 where s: "find_slot free_slot w = Some i"
    and o: "overwrite i (device_zero\<lparr>conn := conn_zero\<lparr>btaddr := a\<rparr>\<rparr>) w = Some w1"
    and t: "add_timer T_Connection i w1 = Some w'"
    by (auto simp: uni_hid_device_create_def bind_eq_Some_conv split: option.splits)
  have i: "i < 4" "free_slot (devs w ! i)" using s find_range unfolding find_slot_def by auto
  have "devs w' = devs w1" using t by (auto simp: add_timer_def split: if_splits)
  moreover have "devs w1 ! i = device_zero\<lparr>conn := conn_zero\<lparr>btaddr := a\<rparr>\<rparr>"
    using o dev_invD(1) [OF assms(1) i(1)] by (auto simp: overwrite_cases split: if_splits)
  ultimately show ?thesis using i local_trans [OF local_overwrite [OF o] local_add [OF t]] by simp
qed

section \<open>Properties\<close>



text \<open>
  For a ready device outside the Nintendo Switch family, any sequence of reports
  raises the system-button event exactly once per press, however long the button is held and
  whatever else the reports carry.
\<close>

theorem button_presses:
  assumes "i < length (devs w)" "conn_state (conn (devs w ! i)) = Cs_Ready"
    "\<not> switch_family (controller_type (devs w ! i))" "cfg_type (env_cfg e) \<noteq> Map_Custom"
  shows "\<exists>w'. reports_run e i cs w = Some w' \<and> oobs i w' = oobs i w + presses (waiting i w) cs"
  using reports_presses [OF _ assms(4)] assms(1-3) by (simp add: plain_ready_def)

theorem button_presses_witness:
  "\<exists>w'. reports_run \<lparr>env_gap = \<lambda>_. Gap_Acl, env_cfg = \<lparr>cfg_map = GAMEPAD_DEFAULT_MAPPINGS, cfg_type = Map_Switch\<rparr>\<rparr> 1
     [ctl device_zero, (ctl device_zero)\<lparr>gamepad := gamepad_zero\<lparr>misc_buttons := 1\<rparr>\<rparr>,
      (ctl device_zero)\<lparr>gamepad := gamepad_zero\<lparr>misc_buttons := 5\<rparr>\<rparr>]
     (upd 1 (\<lambda>d. d\<lparr>conn := (conn d)\<lparr>conn_state := Cs_Ready\<rparr>\<rparr>) world_start) = Some w' \<and> oobs 1 w' = 1"
proof -
  let ?w = "upd 1 (\<lambda>d. d\<lparr>conn := (conn d)\<lparr>conn_state := Cs_Ready\<rparr>\<rparr>) world_start"
  let ?e = "\<lparr>env_gap = \<lambda>_. Gap_Acl, env_cfg = \<lparr>cfg_map = GAMEPAD_DEFAULT_MAPPINGS, cfg_type = Map_Switch\<rparr>\<rparr>"
  let ?cs = "[ctl device_zero, (ctl device_zero)\<lparr>gamepad := gamepad_zero\<lparr>misc_buttons := 1\<rparr>\<rparr>,
      (ctl device_zero)\<lparr>gamepad := gamepad_zero\<lparr>misc_buttons := 5\<rparr>\<rparr>]"
  have r: "1 < length (devs ?w)" "conn_state (conn (devs ?w ! 1)) = Cs_Ready"
    "\<not> switch_family (controller_type (devs ?w ! 1))" "cfg_type (env_cfg ?e) \<noteq> Map_Custom"
    by (simp_all add: world_start_def switch_family_def device_fresh_def device_zero_def)
  have "presses (waiting 1 ?w) ?cs = 1" "oobs 1 ?w = 0"
    by (simp_all add: pressed_def waiting_def oobs_def world_start_def device_fresh_def device_zero_def gamepad_zero_def)
  with button_presses [OF r, of ?cs] show ?thesis by auto
qed

text \<open>
  A discovered device is connected to iff the allowlist lets its address in, its
  signal strength byte is at least 155 and its class of device, cut to 16 bits, is a peripheral
  that is a mouse, keyboard, gamepad or joystick.  The class 0x400408 of the remote control that
  the source accepts explicitly is never accepted, because the argument has 16 bits.
\<close>

theorem discovery_rule:
  "(uni_hid_device_on_device_discovered a c rssi al = UNI_ERROR_SUCCESS \<longleftrightarrow>
     uni_bt_allowlist_is_allowed_addr a al \<and> 155 \<le> rssi \<and> c AND 0x1f00 = 0x0500 \<and> c AND 0xcc \<noteq> 0) \<and>
   uni_hid_device_is_cod_supported 0x400408 \<and>
   uni_hid_device_on_device_discovered a (ucast (0x400408 :: u32)) rssi al = UNI_ERROR_IGNORE_DEVICE"
  using cod_supported_16 [of c] cod_supported_16 [of "ucast (0x400408 :: u32)"]
  by (auto simp: uni_hid_device_on_device_discovered_def not_less uni_hid_device_is_cod_supported_def)

text \<open>
  A device that reported no vendor and product id, as the clones with empty
  SDP answers, is always given the generic parser: the table has an entry for the ids 0, so the
  fallback by class of device and by the name of the Xbox controllers is not reached for it.
\<close>

theorem unknown_ids_generic:
  assumes "\<not> uni_hid_device_has_controller_type d" "vendor_id d = 0" "product_id d = 0"
  shows "\<exists>d'. uni_hid_device_guess_controller_type_from_pid_vid desc d = Some d' \<and>
    controller_type d' = CT_XBox360Controller \<and>
    report_parser d' = no_parser\<lparr>rp_init_report := Some D_Generic, rp_parse_usage := Some D_Generic\<rparr>"
proof -
  have "uni_guess_controller_type 0 0 = 31"
    using guess_examples(5) by (simp add: uni_guess_controller_type_def MAKE_CONTROLLER_ID_def)
  with assms show ?thesis
    by (simp add: uni_hid_device_guess_controller_type_from_pid_vid_def Let_def select_parser_def)
qed

theorem unknown_ids_generic_witness:
  "\<exists>d'. uni_hid_device_guess_controller_type_from_pid_vid []
     (device_zero\<lparr>cod := 0x0580, dev_name := ''Xbox Wireless Controller''\<rparr>) = Some d' \<and>
   rp_parse_usage (report_parser d') = Some D_Generic"
  using unknown_ids_generic [of "device_zero\<lparr>cod := 0x0580, dev_name := ''Xbox Wireless Controller''\<rparr>" "[]"]
  by (auto simp: uni_hid_device_has_controller_type_def device_zero_def)

text \<open>
  A device created for an address that no device has is found again by that address,
  in a slot that was free, and the other slots are untouched.  Until its connection is up its
  handle is 0, since creation clears the slot and skips the initialisation of the connection, so it
  also answers to the connection handle 0 of another device.
\<close>

theorem created_found:
  assumes "dev_reach e w" "a \<noteq> zero_addr" "\<forall>j < 4. btaddr (conn (devs w ! j)) \<noteq> a"
    "uni_hid_device_create a w = Some (w', Some i)"
  shows "uni_hid_device_get_instance_for_address a w' = Some i \<and> free_slot (devs w ! i) \<and>
    (\<forall>j. j \<noteq> i \<longrightarrow> devs w' ! j = devs w ! j) \<and>
    (\<exists>j \<le> i. uni_hid_device_get_instance_for_connection_handle 0 w' = Some j)"
proof -
  note C = create_at [OF dev_reach_inv [OF assms(1)] assms(4)]
  have d: "devs w' ! i = device_zero\<lparr>conn := conn_zero\<lparr>btaddr := a\<rparr>\<rparr>" "i < 4" using C by auto
  have o: "devs w' ! j = devs w ! j" if "j \<noteq> i" for j using C that by (auto simp: local_to_def)
  have "find_slot (\<lambda>d. \<not> uni_hid_device_is_virtual_device d \<and> btaddr (conn d) = a) w' = Some i"
  proof (rule find_slot_unique [OF d(2)])
    show "\<not> uni_hid_device_is_virtual_device (devs w' ! i) \<and> btaddr (conn (devs w' ! i)) = a"
      by (simp add: d uni_hid_device_is_virtual_device_def device_zero_def)
  next
    fix j assume "j < 4" "\<not> uni_hid_device_is_virtual_device (devs w' ! j) \<and> btaddr (conn (devs w' ! j)) = a"
    then show "j = i" using o [of j] assms(3) by metis
  qed
  moreover have "\<exists>j \<le> i. find_slot (\<lambda>d. handle (conn d) = 0) w' = Some j"
  proof (cases "find_slot (\<lambda>d. handle (conn d) = 0) w'")
    case None
    then show ?thesis using d by (auto simp: find_slot_def find_None_iff conn_zero_def device_zero_def)
  next
    case (Some j)
    have "\<not> i < j"
      using Some d by (auto simp: find_slot_def find_Some_iff conn_zero_def device_zero_def)
    with Some show ?thesis by auto
  qed
  ultimately show ?thesis using C o
    by (simp add: uni_hid_device_get_instance_for_address_def uni_hid_device_get_instance_for_connection_handle_def)
qed

theorem created_found_witness:
  "\<exists>w' i. uni_hid_device_create [1, 2, 3, 4, 5, 6] world_start = Some (w', Some i) \<and>
     uni_hid_device_get_instance_for_address [1, 2, 3, 4, 5, 6] w' = Some i"
proof -
  have f: "free_slot device_fresh"
    by (simp add: free_slot_def device_fresh_def device_zero_def uni_bt_conn_init_def conn_zero_def)
  then have "find_slot free_slot world_start = Some 0"
    by (simp add: find_slot_def world_start_def eval_nat_numeral)
  then obtain w' where c: "uni_hid_device_create [1, 2, 3, 4, 5, 6] world_start = Some (w', Some 0)"
    by (simp add: uni_hid_device_create_def overwrite_def add_timer_def world_start_def)
  have "\<forall>j < 4. btaddr (conn (devs world_start ! j)) \<noteq> [1, 2, 3, 4, 5, 6]"
    using f by (simp add: world_start_def free_slot_def zero_addr_list)
  from created_found [OF dev_start [OF setup_start] _ this c] c show ?thesis by (auto simp: zero_addr_list)
qed



end
