(* ===== verification/Dualshock.thy ===== *)
theory Dualshock
  imports Rumble C_Utils Hid_Device
begin

text \<open>
  The DualShock 4 driver, parser/uni_hid_parser_ds4.c, and what the DualSense driver of theory
  \<open>Dualsense\<close> has in common with it: the layout of the sticks and buttons, the calibration of the
  motion sensors, the touch pad as a virtual mouse.  A report is the memory behind its pointer,
  with the length argument; reading past that memory is \<open>None\<close>, as are a failed \<open>assert\<close> and a
  division by zero.  What the driver sends is a log of messages on the interrupt and control
  channels.
\<close>

section \<open>Memory\<close>

definition le16 :: "u8 list \<Rightarrow> nat \<Rightarrow> u16" where
  "le16 m i = ucast (m ! i) OR push_bit 8 (ucast (m ! Suc i))"

definition s16 :: "u8 list \<Rightarrow> nat \<Rightarrow> int" where
  "s16 m i = sint (le16 m i)"

datatype ds_msg = Ds_Intr "u8 list" | Ds_Ctrl "u8 list"

definition HID_OUTPUT_REPORT :: u8 where "HID_OUTPUT_REPORT = push_bit 4 0xa OR 2"
definition HID_GET_FEATURE_REPORT :: u8 where "HID_GET_FEATURE_REPORT = push_bit 4 4 OR 3"

section \<open>Sticks and buttons\<close>

definition flag_if :: "u8 \<Rightarrow> u8 \<Rightarrow> ('w :: len) word \<Rightarrow> 'w word" where
  "flag_if b m w = (if b AND m \<noteq> 0 then w else 0)"

definition sony_hat :: "u8 \<Rightarrow> u8" where
  "sony_hat b = (let v = b AND 0xf in uni_hid_parser_hat_to_dpad (if 7 < v then 0xff else v))"

definition sony_buttons :: "u8 \<Rightarrow> u8 \<Rightarrow> u16" where
  "sony_buttons b0 b1 = flag_if b0 0x10 BUTTON_X OR flag_if b0 0x20 BUTTON_A OR flag_if b0 0x40 BUTTON_B OR
     flag_if b0 0x80 BUTTON_Y OR flag_if b1 0x01 BUTTON_SHOULDER_L OR flag_if b1 0x02 BUTTON_SHOULDER_R OR
     flag_if b1 0x04 BUTTON_TRIGGER_L OR flag_if b1 0x08 BUTTON_TRIGGER_R OR flag_if b1 0x40 BUTTON_THUMB_L OR
     flag_if b1 0x80 BUTTON_THUMB_R"

definition sony_misc :: "u8 \<Rightarrow> u8 \<Rightarrow> u8" where
  "sony_misc b1 b2 = flag_if b1 0x10 MISC_BUTTON_SELECT OR flag_if b1 0x20 MISC_BUTTON_START OR
     flag_if b2 0x01 MISC_BUTTON_SYSTEM"

text \<open>
  The nine bytes from offset \<open>o\<close>: sticks, buttons, pedals.
\<close>

definition ds4_pad :: "u8 list \<Rightarrow> nat \<Rightarrow> uni_gamepad \<Rightarrow> uni_gamepad" where
  "ds4_pad r k gp = gp\<lparr>axis_x := (uint (r ! k) - 127) * 4, axis_y := (uint (r ! (k + 1)) - 127) * 4,
     axis_rx := (uint (r ! (k + 2)) - 127) * 4, axis_ry := (uint (r ! (k + 3)) - 127) * 4,
     dpad := sony_hat (r ! (k + 4)), buttons := buttons gp OR sony_buttons (r ! (k + 4)) (r ! (k + 5)),
     misc_buttons := misc_buttons gp OR sony_misc (r ! (k + 5)) (r ! (k + 6)),
     brake := uint (r ! (k + 7)) * 4, gp_throttle := uint (r ! (k + 8)) * 4\<rparr>"

section \<open>Motion sensors\<close>

record ds_calib =
  cal_bias :: int
  sens_numer :: int
  sens_denom :: int

definition INT16_MAX :: int where [simp]: "INT16_MAX = 32767"
definition DS4_ACC_RES_PER_G :: int where [simp]: "DS4_ACC_RES_PER_G = 8192"
definition DS4_ACC_RANGE :: int where [simp]: "DS4_ACC_RANGE = 4 * DS4_ACC_RES_PER_G"
definition DS4_GYRO_RES_PER_DEG_S :: int where [simp]: "DS4_GYRO_RES_PER_DEG_S = 1024"
definition DS4_GYRO_RANGE :: int where [simp]: "DS4_GYRO_RANGE = 2048 * DS4_GYRO_RES_PER_DEG_S"

definition gyro_default :: ds_calib where
  "gyro_default = \<lparr>cal_bias = 0, sens_numer = DS4_GYRO_RANGE, sens_denom = INT16_MAX\<rparr>"

definition accel_default :: ds_calib where
  "accel_default = \<lparr>cal_bias = 0, sens_numer = DS4_ACC_RANGE, sens_denom = INT16_MAX\<rparr>"

text \<open>
  The denominator of an axis of the gyroscope; the code has a plus in the second term of the pitch
  axis.  The sums of two 16 bit values, and 1024 times such a sum, fit an \<open>int\<close>.
\<close>

definition pitch_denom :: "int \<Rightarrow> int \<Rightarrow> int \<Rightarrow> int" where
  "pitch_denom bias hi lo = \<bar>hi - bias\<bar> + \<bar>lo + bias\<bar>"

definition gyro_denom :: "int \<Rightarrow> int \<Rightarrow> int \<Rightarrow> int" where
  "gyro_denom bias hi lo = \<bar>hi - bias\<bar> + \<bar>lo - bias\<bar>"

definition gyro_calib :: "int \<Rightarrow> int \<Rightarrow> ds_calib" where
  "gyro_calib speed_2x denom =
     (if denom = 0 then gyro_default
      else \<lparr>cal_bias = 0, sens_numer = speed_2x * DS4_GYRO_RES_PER_DEG_S, sens_denom = denom\<rparr>)"

definition accel_calib :: "int \<Rightarrow> int \<Rightarrow> ds_calib" where
  "accel_calib hi lo =
     (let range_2g = hi - lo in
      if range_2g = 0 then accel_default
      else \<lparr>cal_bias = sint (word_of_int (hi - c_quot range_2g 2) :: u16),
             sens_numer = 2 * DS4_ACC_RES_PER_G, sens_denom = range_2g\<rparr>)"

text \<open>The 64 bit result of \<open>mult_frac\<close> is stored in an \<open>int32_t\<close>.\<close>

fun calibrate :: "ds_calib list \<Rightarrow> int list \<Rightarrow> int list option" where
  "calibrate (c # cs) (v # vs) = do {
     x \<leftarrow> mult_frac (sens_numer c) v (sens_denom c);
     xs \<leftarrow> calibrate cs vs;
     Some (sint (word_of_int x :: u32) # xs)
   }"
| "calibrate _ _ = Some []"

definition three16 :: "u8 list \<Rightarrow> nat \<Rightarrow> int list" where
  "three16 r k = [s16 r k, s16 r (k + 2), s16 r (k + 4)]"

section \<open>The touch pad\<close>

text \<open>Without the wheel and the misc buttons, which neither driver sets.\<close>

record uni_mouse =
  delta_x :: int
  delta_y :: int
  ms_buttons :: u16

definition mouse_zero :: uni_mouse where
  "mouse_zero = \<lparr>delta_x = 0, delta_y = 0, ms_buttons = 0\<rparr>"

definition UNI_MOUSE_BUTTON_LEFT :: u16 where [simp]: "UNI_MOUSE_BUTTON_LEFT = 1"
definition UNI_MOUSE_BUTTON_RIGHT :: u16 where [simp]: "UNI_MOUSE_BUTTON_RIGHT = 2"

text \<open>
  The virtual device of the touch pad: its part of the parser data, its controller, and the mouse
  states handed to \<open>uni_hid_device_process_controller\<close>.
\<close>

record touch_dev =
  x_prev :: int
  y_prev :: int
  prev_touch_active :: bool
  mouse :: uni_mouse
  mouse_log :: "uni_mouse list"

definition touch_zero :: touch_dev where
  "touch_zero = \<lparr>x_prev = 0, y_prev = 0, prev_touch_active = False, mouse = mouse_zero, mouse_log = []\<rparr>"

text \<open>\<open>k\<close> is the offset of the touch point, \<open>click\<close> the byte with the button of the pad.\<close>

definition touch_x :: "u8 list \<Rightarrow> nat \<Rightarrow> int" where
  "touch_x r k = uint (r ! (k + 2) AND 0xf) * 256 + uint (r ! (k + 1))"

definition touch_y :: "u8 list \<Rightarrow> nat \<Rightarrow> int" where
  "touch_y r k = uint (r ! (k + 3)) * 16 + uint (drop_bit 4 (r ! (k + 2)))"

definition parse_touch :: "u8 list \<Rightarrow> nat \<Rightarrow> u8 \<Rightarrow> touch_dev \<Rightarrow> touch_dev" where
  "parse_touch r k click t =
     (let x = touch_x r k; y = touch_y r k;
          m = (mouse t)\<lparr>delta_x := (if prev_touch_active t then x - x_prev t else 0),
            delta_y := (if prev_touch_active t then y - y_prev t else 0)\<rparr>;
          m1 = (if click AND 2 \<noteq> 0
            then m\<lparr>ms_buttons := ms_buttons m OR
              (if x < 1440 then UNI_MOUSE_BUTTON_LEFT else UNI_MOUSE_BUTTON_RIGHT)\<rparr>
            else m)
      in \<lparr>x_prev = x, y_prev = y, prev_touch_active = (r ! k AND 0x80 = 0), mouse = m1,
           mouse_log = mouse_log t @ [m1]\<rparr>)"

section \<open>The driver's data\<close>

record ds4_instance = rumble +
  ds4_weak :: u16
  ds4_strong :: u16
  ds4_fw :: u16
  ds4_hw :: u16
  ds4_gyro :: "ds_calib list"
  ds4_accel :: "ds_calib list"
  prev_color :: "u8 \<times> u8 \<times> u8"
  prev_rumble :: "u8 \<times> u8"
  ds4_log :: "ds_msg list"

text \<open>\<open>prev_color\<close> is red, green and blue; \<open>prev_rumble\<close> is weak and strong.\<close>

definition ds4_zero :: ds4_instance where
  "ds4_zero = \<lparr>rumble_state = Rumble_Disabled, timer_delayed_start = None, timer_duration = None,
     rumble_duration_ms = 0, ds4_weak = 0, ds4_strong = 0, ds4_fw = 0, ds4_hw = 0,
     ds4_gyro = replicate 3 gyro_default, ds4_accel = replicate 3 accel_default,
     prev_color = (0, 0, 0), prev_rumble = (0, 0), ds4_log = []\<rparr>"

subsection \<open>Messages\<close>

text \<open>The fields of the output report that are ever set; the others are zero.\<close>

definition DS4_FF_FLAG_BLINK_COLOR_RUMBLE :: u8 where
  "DS4_FF_FLAG_BLINK_COLOR_RUMBLE = 1 OR 2 OR 4"

definition ds4_output_report :: "u8 \<times> u8 \<Rightarrow> u8 \<times> u8 \<times> u8 \<Rightarrow> u8 list" where
  "ds4_output_report mags color =
     [HID_OUTPUT_REPORT, 0x11, 0xc4, 0, DS4_FF_FLAG_BLINK_COLOR_RUMBLE, 0, 0, fst mags, snd mags,
      fst color, fst (snd color), snd (snd color), 0, 0] @ replicate 61 0"

definition ds4_send_output_report :: "u8 list \<Rightarrow> ds4_instance \<Rightarrow> ds4_instance" where
  "ds4_send_output_report out s =
     s\<lparr>ds4_log := ds4_log s @ [Ds_Intr (out @ le_bytes (NOT (uni_crc32_le 0xffffffff out)))]\<rparr>"

definition ds4_request :: "u8 \<Rightarrow> ds4_instance \<Rightarrow> ds4_instance" where
  "ds4_request feature s = s\<lparr>ds4_log := ds4_log s @ [Ds_Ctrl [HID_GET_FEATURE_REPORT, feature]]\<rparr>"

definition DS4_FEATURE_REPORT_FIRMWARE_VERSION :: u8 where "DS4_FEATURE_REPORT_FIRMWARE_VERSION = 0xa3"
definition DS4_FEATURE_REPORT_CALIBRATION :: u8 where "DS4_FEATURE_REPORT_CALIBRATION = 0x02"

definition ds4_request_calibration_report :: "ds4_instance \<Rightarrow> ds4_instance" where
  "ds4_request_calibration_report = ds4_request DS4_FEATURE_REPORT_CALIBRATION"

definition ds4_request_firmware_version_report :: "ds4_instance \<Rightarrow> ds4_instance" where
  "ds4_request_firmware_version_report = ds4_request DS4_FEATURE_REPORT_FIRMWARE_VERSION"

definition ds4_send_enable_lightbar_report :: "ds4_instance \<Rightarrow> ds4_instance" where
  "ds4_send_enable_lightbar_report s =
     ds4_send_output_report (ds4_output_report (0, 0) (0, 0, 0x40))
       (s\<lparr>prev_color := (0, 0, 0x40), prev_rumble := (0, 0)\<rparr>)"

definition uni_hid_parser_ds4_set_lightbar_color :: "u8 \<Rightarrow> u8 \<Rightarrow> u8 \<Rightarrow> ds4_instance \<Rightarrow> ds4_instance" where
  "uni_hid_parser_ds4_set_lightbar_color r g b s =
     ds4_send_output_report (ds4_output_report (prev_rumble s) (r, g, b)) (s\<lparr>prev_color := (r, g, b)\<rparr>)"

subsection \<open>Set-up\<close>

text \<open>
  The virtual mouse of a pad that was accepted.  The platform may refuse it too; then the link to
  the parent is cut.
\<close>

definition sony_create_mouse :: "(u16 \<Rightarrow> gap_type) \<Rightarrow> bool \<Rightarrow> nat \<Rightarrow> bt_world \<Rightarrow> bt_world option" where
  "sony_create_mouse gap accept_mouse i w =
     (case uni_hid_device_create_virtual i w of
        (w1, None) \<Rightarrow> Some w1
      | (w1, Some c) \<Rightarrow> do {
          let w2 = upd c (uni_hid_device_set_cod (UNI_BT_COD_MAJOR_PERIPHERAL OR UNI_BT_COD_MINOR_MICE)) w1;
          (w3, ok) \<leftarrow> uni_hid_device_set_ready_complete gap accept_mouse c (uni_hid_device_connect c w2);
          Some (if ok then w3 else upd i (\<lambda>d. d\<lparr>child := None\<rparr>) w3)
        })"

definition uni_hid_parser_ds4_setup ::
  "(u16 \<Rightarrow> gap_type) \<Rightarrow> bool \<Rightarrow> bool \<Rightarrow> nat \<Rightarrow> bt_world \<Rightarrow> (bt_world \<times> ds4_instance) option" where
  "uni_hid_parser_ds4_setup gap accept accept_mouse i w = do {
     let s = ds4_request_calibration_report (ds4_send_enable_lightbar_report ds4_zero);
     (w1, ok) \<leftarrow> uni_hid_device_set_ready_complete gap accept i w;
     if \<not> ok then Some (w1, s)
     else map_option (\<lambda>w2. (w2, s)) (sony_create_mouse gap accept_mouse i w1)
   }"

subsection \<open>Feature reports\<close>

text \<open>
  A calibration report of another length is only logged: the last byte read is number 34 whatever
  the length.  The order of the fields is that of Bluetooth.
\<close>

definition ds4_calibration :: "u8 list \<Rightarrow> ds4_instance \<Rightarrow> ds4_instance" where
  "ds4_calibration r s =
     (let speed_2x = s16 r 19 + s16 r 21 in
      s\<lparr>ds4_gyro := [gyro_calib speed_2x (pitch_denom (s16 r 1) (s16 r 7) (s16 r 13)),
                      gyro_calib speed_2x (gyro_denom (s16 r 3) (s16 r 9) (s16 r 15)),
                      gyro_calib speed_2x (gyro_denom (s16 r 5) (s16 r 11) (s16 r 17))],
        ds4_accel := [accel_calib (s16 r 23) (s16 r 25), accel_calib (s16 r 27) (s16 r 29),
                       accel_calib (s16 r 31) (s16 r 33)]\<rparr>)"

definition uni_hid_parser_ds4_parse_feature_report ::
  "u8 list \<Rightarrow> u16 \<Rightarrow> ds4_instance \<Rightarrow> ds4_instance option" where
  "uni_hid_parser_ds4_parse_feature_report report len s = do {
     id \<leftarrow> read_at report 0;
     if id = DS4_FEATURE_REPORT_CALIBRATION then
       (if length report < 35 then None
        else Some (ds4_request_firmware_version_report (ds4_calibration report s)))
     else if id = DS4_FEATURE_REPORT_FIRMWARE_VERSION then
       (if length report < 43 then None
        else Some (s\<lparr>ds4_hw := le16 report 35, ds4_fw := le16 report 41\<rparr>))
     else Some s
   }"

subsection \<open>Input reports\<close>

definition ds4_init_report :: "controller \<Rightarrow> touch_dev option \<Rightarrow> controller \<times> touch_dev option" where
  "ds4_init_report c t = (c\<lparr>klass := Class_Gamepad, gamepad := gamepad_zero, battery := 0\<rparr>,
     map_option (\<lambda>d. d\<lparr>mouse := mouse_zero\<rparr>) t)"

definition ds4_parse_input_report_01 :: "u8 list \<Rightarrow> controller \<Rightarrow> controller" where
  "ds4_parse_input_report_01 r c = c\<lparr>gamepad := ds4_pad r 0 (gamepad c)\<rparr>"

definition ds4_parse_mouse :: "u8 list \<Rightarrow> touch_dev \<Rightarrow> touch_dev" where
  "ds4_parse_mouse r t =
     (if r ! 32 < 1 then t\<lparr>prev_touch_active := False\<rparr> else parse_touch r 34 (r ! 6) t)"

definition sony_battery :: "u8 \<Rightarrow> u8" where
  "sony_battery st = (st AND 0xf) * 25 + 1"

definition ds4_parse_input_report_11 ::
  "ds4_instance \<Rightarrow> u8 list \<Rightarrow> controller \<Rightarrow> touch_dev option \<Rightarrow> (controller \<times> touch_dev option) option" where
  "ds4_parse_input_report_11 s r c t = do {
     g \<leftarrow> calibrate (ds4_gyro s) (three16 r 12);
     a \<leftarrow> calibrate (ds4_accel s) (three16 r 18);
     Some (c\<lparr>gamepad := (ds4_pad r 0 (gamepad c))\<lparr>gyro := g, accel := a\<rparr>, battery := sony_battery (r ! 29)\<rparr>,
       map_option (ds4_parse_mouse r) t)
   }"

definition uni_hid_parser_ds4_parse_input_report ::
  "ds4_instance \<Rightarrow> u8 list \<Rightarrow> u16 \<Rightarrow> controller \<Rightarrow> touch_dev option \<Rightarrow> (controller \<times> touch_dev option) option" where
  "uni_hid_parser_ds4_parse_input_report s report len c t =
     (if length report < unat len then None
      else do {
        id \<leftarrow> read_at report 0;
        if id = 0x11 \<and> len = 78 then ds4_parse_input_report_11 s (drop 3 report) c t
        else if id = 0x01 \<and> len = 10 then Some (ds4_parse_input_report_01 (drop 1 report) c, t)
        else Some (c, t)
      })"

text \<open>What \<open>uni_hid_parse_input_report\<close> does with a pad of this driver.\<close>

definition ds4_report ::
  "ds4_instance \<Rightarrow> u8 list \<Rightarrow> u16 \<Rightarrow> controller \<Rightarrow> touch_dev option \<Rightarrow> (controller \<times> touch_dev option) option" where
  "ds4_report s report len c t =
     (let (c1, t1) = ds4_init_report c t in uni_hid_parser_ds4_parse_input_report s report len c1 t1)"

section \<open>Rumble\<close>

text \<open>Unlike the other drivers, stopping asserts that the motors run.\<close>

definition ds4_stop_rumble_now :: "ds4_instance \<Rightarrow> ds4_instance option" where
  "ds4_stop_rumble_now s =
     (if rumble_state s \<noteq> Rumble_In_Progress then None
      else
        let s1 = s\<lparr>rumble_state := Rumble_Disabled, prev_rumble := (0, 0)\<rparr>
        in Some (ds4_send_output_report (ds4_output_report (0, 0) (prev_color s1)) s1))"

definition ds4_play_dual_rumble_now :: "u16 \<Rightarrow> u8 \<times> u8 \<Rightarrow> ds4_instance \<Rightarrow> ds4_instance option" where
  "ds4_play_dual_rumble_now duration_ms mags s =
     (if duration_ms = 0 then
        (if rumble_state s \<noteq> Rumble_Disabled then ds4_stop_rumble_now s else Some s)
      else
        let s1 = s\<lparr>prev_rumble := mags\<rparr>
        in add_duration duration_ms (ds4_send_output_report (ds4_output_report mags (prev_color s1)) s1))"

definition uni_hid_parser_ds4_play_dual_rumble ::
  "u16 \<Rightarrow> u16 \<Rightarrow> u8 \<times> u8 \<Rightarrow> ds4_instance \<Rightarrow> ds4_instance option" where
  "uni_hid_parser_ds4_play_dual_rumble start_delay_ms duration_ms mags s =
     (let s = remove_timers s in
      if start_delay_ms = 0 then ds4_play_dual_rumble_now duration_ms mags s
      else add_delayed start_delay_ms (s\<lparr>rumble_duration_ms := duration_ms,
        ds4_strong := ucast (snd mags), ds4_weak := ucast (fst mags)\<rparr>))"

definition on_ds4_set_rumble_on :: "ds4_instance \<Rightarrow> ds4_instance option" where
  "on_ds4_set_rumble_on s =
     ds4_play_dual_rumble_now (rumble_duration_ms s) (ucast (ds4_weak s), ucast (ds4_strong s))
       (s\<lparr>timer_delayed_start := None\<rparr>)"

definition on_ds4_set_rumble_off :: "ds4_instance \<Rightarrow> ds4_instance option" where
  "on_ds4_set_rumble_off s = ds4_stop_rumble_now (s\<lparr>timer_duration := None\<rparr>)"

section \<open>Sticks, buttons and battery\<close>

lemma flag_if_and: "w AND k = 0 \<Longrightarrow> flag_if b m w AND k = 0"
  by (simp add: flag_if_def)

lemma sony_bits: "sony_hat b AND 0xF0 = 0" "sony_buttons b0 b1 AND 0xFC00 = 0" "sony_misc b1 b2 AND 0xF0 = 0"
proof -
  show "sony_hat b AND 0xF0 = 0" by (simp add: sony_hat_def uni_hid_parser_hat_to_dpad_def Let_def)
  show "sony_buttons b0 b1 AND 0xFC00 = 0"
    by (simp add: sony_buttons_def bit.conj_disj_distrib2 flag_if_and)
  show "sony_misc b1 b2 AND 0xF0 = 0"
    by (simp add: sony_misc_def bit.conj_disj_distrib2 flag_if_and)
qed

lemma byte_stick: "0 \<le> u \<Longrightarrow> u \<le> 255 \<Longrightarrow> stick_ok ((u - 127) * 4)"
  by (simp add: stick_ok_def abs_le_iff)

lemma sony_stick: "stick_ok ((uint (b :: u8) - 127) * 4)"
  using uint_bounds_u8 [of b] byte_stick by blast

lemma sony_stick_dist: "stick_ok (uint (b :: u8) * 4 - 508)"
  using sony_stick [of b] by simp

lemma ds4_pad_ok: "pad_ok (ds4_pad r k gamepad_zero)"
  by (simp add: ds4_pad_def pad_ok_def gamepad_ok_def bits_ok_def sony_stick_dist sony_bits gamepad_zero_def)

lemma pad_ok_motion: "pad_ok (gp\<lparr>gyro := g, accel := a\<rparr>) = pad_ok gp"
  by (simp add: pad_ok_def gamepad_ok_def bits_ok_def)

text \<open>A pad on its charger that reports a full battery, eleven, reads as almost empty.\<close>

lemma battery_wraps: "sony_battery 11 = 20" "sony_battery 10 = 251"
  by (simp_all add: sony_battery_def)

section \<open>Calibration\<close>

definition calib_ok :: "ds_calib \<Rightarrow> bool" where
  "calib_ok c \<longleftrightarrow> sens_denom c \<noteq> 0 \<and> int32_ok (sens_numer c)"

definition scaled :: "ds_calib \<Rightarrow> int \<Rightarrow> int" where
  "scaled c v = sint (word_of_int (c_quot (sens_numer c * v) (sens_denom c)) :: u32)"

lemma calibrate_exact:
  "list_all calib_ok cs \<Longrightarrow> list_all int32_ok vs \<Longrightarrow> length cs = length vs \<Longrightarrow>
    calibrate cs vs = Some (map2 scaled cs vs)"
proof (induction cs vs rule: calibrate.induct)
  case (1 c cs v vs)
  then show ?case using mult_frac_value [of "sens_numer c" v "sens_denom c"]
    by (simp add: calib_ok_def scaled_def)
qed auto

lemma s16_bounds: "- 32768 \<le> s16 r i" "s16 r i \<le> 32767"
  using sint_bounds_16 [of "le16 r i"] by (simp_all add: s16_def)

lemma short_int32: "- 32768 \<le> v \<Longrightarrow> v \<le> 32767 \<Longrightarrow> int32_ok v"
  by (simp add: int32_ok_def)

lemma three16_ok: "list_all int32_ok (three16 r k)" "length (three16 r k) = 3"
proof -
  have "int32_ok (s16 r i)" for i by (rule short_int32 [OF s16_bounds])
  then show "list_all int32_ok (three16 r k)" by (simp add: three16_def)
qed (simp add: three16_def)

lemma gyro_calib_ok: "- 65536 \<le> v \<Longrightarrow> v \<le> 65536 \<Longrightarrow> calib_ok (gyro_calib v d)"
  by (simp add: gyro_calib_def gyro_default_def calib_ok_def int32_ok_def)

lemma accel_calib_ok: "calib_ok (accel_calib hi lo)"
  by (simp add: accel_calib_def accel_default_def calib_ok_def int32_ok_def Let_def)

definition calibs_ok :: "ds_calib list \<Rightarrow> bool" where
  "calibs_ok cs \<longleftrightarrow> length cs = 3 \<and> list_all calib_ok cs"

lemma calibs_default: "calibs_ok (replicate 3 gyro_default)" "calibs_ok (replicate 3 accel_default)"
  by (simp_all add: calibs_ok_def calib_ok_def gyro_default_def accel_default_def int32_ok_def list_all_length)

lemma calibs_read:
  "calibs_ok [gyro_calib (s16 r i + s16 r j) a, gyro_calib (s16 r i + s16 r j) b, gyro_calib (s16 r i + s16 r j) c]"
  "calibs_ok [accel_calib x x', accel_calib y y', accel_calib z z']"
  using s16_bounds [of r i] s16_bounds [of r j]
  by (simp_all add: calibs_ok_def gyro_calib_ok accel_calib_ok)

lemma calibrate_three: "calibs_ok cs \<Longrightarrow> calibrate cs (three16 r k) = Some (map2 scaled cs (three16 r k))"
  by (rule calibrate_exact) (simp_all add: calibs_ok_def three16_ok)

section \<open>The driver's invariant\<close>

text \<open>What a message on the wire looks like: a framed output report, or a request of two bytes.\<close>

definition msg_ok :: "u8 \<Rightarrow> ds_msg \<Rightarrow> bool" where
  "msg_ok rid m = (case m of
     Ds_Intr b \<Rightarrow> length b = 79 \<and> b ! 0 = 0xa2 \<and> b ! 1 = rid \<and> uni_crc32_le 0xffffffff b = CRC_RESIDUE
   | Ds_Ctrl b \<Rightarrow> length b = 2 \<and> b ! 0 = 0x43)"

lemma framed_ok:
  assumes "length out = 75" "out ! 0 = 0xa2" "out ! 1 = rid"
  shows "msg_ok rid (Ds_Intr (out @ le_bytes (NOT (uni_crc32_le 0xffffffff out))))"
  using assms crc_residue_iff [of "le_bytes (NOT (uni_crc32_le 0xffffffff out))" out]
  by (simp add: msg_ok_def nth_append)

lemma ds4_output_shape:
  "length (ds4_output_report mags color) = 75" "ds4_output_report mags color ! 0 = 0xa2"
  "ds4_output_report mags color ! 1 = 0x11"
  by (simp_all add: ds4_output_report_def HID_OUTPUT_REPORT_def)

definition ds4_inv :: "ds4_instance \<Rightarrow> bool" where
  "ds4_inv s \<longleftrightarrow> calibs_ok (ds4_gyro s) \<and> calibs_ok (ds4_accel s) \<and> timers_live s \<and>
     list_all (msg_ok 0x11) (ds4_log s)"

lemma live_updates:
  "timers_live (ds4_send_output_report out s) = timers_live s"
  "timers_live (s\<lparr>prev_rumble := m\<rparr>) = timers_live s" "timers_live (s\<lparr>prev_color := k\<rparr>) = timers_live s"
  by (simp_all add: timers_live_def ds4_send_output_report_def)

lemma ds4_inv_send:
  "ds4_inv s \<Longrightarrow> ds4_inv (ds4_send_output_report (ds4_output_report mags color) s)"
  using framed_ok [of "ds4_output_report mags color"] ds4_output_shape [of mags color]
  by (simp add: ds4_inv_def ds4_send_output_report_def timers_live_def)

lemma ds4_inv_request: "ds4_inv s \<Longrightarrow> ds4_inv (ds4_request f s)"
  by (simp add: ds4_inv_def ds4_request_def timers_live_def msg_ok_def HID_GET_FEATURE_REPORT_def)

lemma ds4_inv_prev: "ds4_inv (s\<lparr>prev_rumble := m\<rparr>) = ds4_inv s" "ds4_inv (s\<lparr>prev_color := k\<rparr>) = ds4_inv s"
  by (simp_all add: ds4_inv_def timers_live_def)

definition ds4_start :: ds4_instance where
  "ds4_start = ds4_request_calibration_report (ds4_send_enable_lightbar_report ds4_zero)"

lemma ds4_inv_start: "ds4_inv ds4_start"
proof -
  have "ds4_inv ds4_zero" by (simp add: ds4_inv_def ds4_zero_def calibs_default timers_live_def)
  then show ?thesis
    by (simp add: ds4_start_def ds4_request_calibration_report_def ds4_send_enable_lightbar_report_def
        ds4_inv_request ds4_inv_send ds4_inv_prev)
qed

lemma ds4_inv_lightbar: "ds4_inv s \<Longrightarrow> ds4_inv (uni_hid_parser_ds4_set_lightbar_color r g b s)"
  by (simp add: uni_hid_parser_ds4_set_lightbar_color_def ds4_inv_send ds4_inv_prev)

lemma ds4_inv_feature:
  assumes "ds4_inv s" "uni_hid_parser_ds4_parse_feature_report r len s = Some s'"
  shows "ds4_inv s'"
proof -
  have "ds4_inv (ds4_calibration r s)"
    using assms(1) by (simp add: ds4_inv_def ds4_calibration_def calibs_read Let_def timers_live_def)
  then have "ds4_inv (ds4_request_firmware_version_report (ds4_calibration r s))"
    by (simp add: ds4_request_firmware_version_report_def ds4_inv_request)
  moreover have "ds4_inv (s\<lparr>ds4_hw := a, ds4_fw := b\<rparr>)" for a b
    using assms(1) by (simp add: ds4_inv_def timers_live_def)
  moreover have "s' = ds4_request_firmware_version_report (ds4_calibration r s) \<or>
      (\<exists>a b. s' = s\<lparr>ds4_hw := a, ds4_fw := b\<rparr>) \<or> s' = s"
    using assms(2) by (auto simp: uni_hid_parser_ds4_parse_feature_report_def bind_eq_Some_conv split: if_splits)
  ultimately show ?thesis using assms(1) by blast
qed

subsection \<open>Rumble\<close>

lemma add_timers_log:
  "add_duration ms s = Some s' \<Longrightarrow> ds4_log s' = ds4_log s \<and> ds4_gyro s' = ds4_gyro s \<and> ds4_accel s' = ds4_accel s"
  "add_delayed ms s = Some s' \<Longrightarrow> ds4_log s' = ds4_log s \<and> ds4_gyro s' = ds4_gyro s \<and> ds4_accel s' = ds4_accel s"
  by (auto simp: add_duration_def add_delayed_def split: if_splits)

text \<open>The timers while a handler runs: none is armed, unless the state is the idle one.\<close>

definition ds4_parts :: "ds4_instance \<Rightarrow> bool" where
  "ds4_parts s \<longleftrightarrow> calibs_ok (ds4_gyro s) \<and> calibs_ok (ds4_accel s) \<and> list_all (msg_ok 0x11) (ds4_log s)"

lemma ds4_inv_parts: "ds4_inv s \<longleftrightarrow> ds4_parts s \<and> timers_live s"
  by (auto simp: ds4_inv_def ds4_parts_def)

lemma ds4_parts_send: "ds4_parts s \<Longrightarrow> ds4_parts (ds4_send_output_report (ds4_output_report mags color) s)"
  using framed_ok [of "ds4_output_report mags color"] ds4_output_shape [of mags color]
  by (simp add: ds4_parts_def ds4_send_output_report_def)

lemma ds4_stop_effect:
  assumes "ds4_parts s" "timer_duration s = None" "timer_delayed_start s = None"
  shows "ds4_stop_rumble_now s = None \<longleftrightarrow> rumble_state s \<noteq> Rumble_In_Progress"
    and "ds4_stop_rumble_now s = Some s' \<Longrightarrow> ds4_inv s' \<and> rumble_state s' = Rumble_Disabled"
proof -
  define s1 where "s1 = s\<lparr>rumble_state := Rumble_Disabled, prev_rumble := (0, 0)\<rparr>"
  define s2 where "s2 = ds4_send_output_report (ds4_output_report (0, 0) (prev_color s1)) s1"
  have eq: "ds4_stop_rumble_now s = (if rumble_state s \<noteq> Rumble_In_Progress then None else Some s2)"
    by (simp add: ds4_stop_rumble_now_def Let_def s2_def s1_def)
  then show "ds4_stop_rumble_now s = None \<longleftrightarrow> rumble_state s \<noteq> Rumble_In_Progress" by simp
  have "ds4_parts s1" "timers_live s1" using assms by (simp_all add: ds4_parts_def timers_live_def s1_def)
  then have "ds4_inv s2" by (simp add: ds4_inv_parts s2_def ds4_parts_send live_updates)
  moreover have "rumble_state s2 = Rumble_Disabled" by (simp add: s2_def s1_def ds4_send_output_report_def)
  ultimately show "ds4_stop_rumble_now s = Some s' \<Longrightarrow> ds4_inv s' \<and> rumble_state s' = Rumble_Disabled"
    by (simp add: eq split: if_splits)
qed

lemma ds4_play_now_effect:
  assumes "ds4_parts s" "timer_duration s = None" "timer_delayed_start s = None"
  shows "ds4_play_dual_rumble_now dur mags s = None \<longleftrightarrow> dur = 0 \<and> rumble_state s = Rumble_Delayed"
    and "ds4_play_dual_rumble_now dur mags s = Some s' \<Longrightarrow> ds4_inv s'"
proof -
  let ?s1 = "ds4_send_output_report (ds4_output_report mags (prev_color s)) (s\<lparr>prev_rumble := mags\<rparr>)"
  have "ds4_parts (s\<lparr>prev_rumble := mags\<rparr>)" using assms(1) by (simp add: ds4_parts_def)
  then have p: "ds4_parts ?s1" by (rule ds4_parts_send)
  have t: "timer_duration ?s1 = None" "timer_delayed_start ?s1 = None" "rumble_state ?s1 = rumble_state s"
    using assms(2,3) by (simp_all add: ds4_send_output_report_def)
  have eq: "ds4_play_dual_rumble_now dur mags s =
      (if dur = 0 then (if rumble_state s \<noteq> Rumble_Disabled then ds4_stop_rumble_now s else Some s)
       else add_duration dur ?s1)"
    by (simp add: ds4_play_dual_rumble_now_def Let_def)
  show "ds4_play_dual_rumble_now dur mags s = None \<longleftrightarrow> dur = 0 \<and> rumble_state s = Rumble_Delayed"
    using t ds4_stop_effect(1) [OF assms] by (cases "rumble_state s") (simp_all add: eq add_duration_def)
  show "ds4_inv s'" if r: "ds4_play_dual_rumble_now dur mags s = Some s'"
  proof (cases "dur = 0")
    case True
    have "rumble_state s = Rumble_Disabled \<Longrightarrow> ds4_inv s"
      using assms by (simp add: ds4_inv_parts timers_live_def)
    moreover have "(if rumble_state s \<noteq> Rumble_Disabled then ds4_stop_rumble_now s else Some s) = Some s'"
      using r unfolding eq by (simp add: True)
    ultimately show ?thesis using ds4_stop_effect(2) [OF assms, of s'] by (simp split: if_splits)
  next
    case False
    then have "s' = ?s1\<lparr>timer_duration := Some dur, rumble_state := Rumble_In_Progress\<rparr>"
      using r t(1) by (simp add: eq add_duration_def)
    then show ?thesis using p t by (simp add: ds4_inv_def ds4_parts_def timers_live_def)
  qed
qed

lemma ds4_remove:
  assumes "ds4_inv s"
  shows "ds4_parts (remove_timers s)" "timer_duration (remove_timers s) = None"
    "timer_delayed_start (remove_timers s) = None" "rumble_state (remove_timers s) = rumble_state s"
  using assms by (cases "rumble_state s"; simp add: remove_timers_def ds4_inv_def ds4_parts_def timers_live_def)+

lemma ds4_play_effect:
  assumes "ds4_inv s"
  shows "uni_hid_parser_ds4_play_dual_rumble delay dur mags s = None \<longleftrightarrow>
      delay = 0 \<and> dur = 0 \<and> rumble_state s = Rumble_Delayed"
    and "uni_hid_parser_ds4_play_dual_rumble delay dur mags s = Some s' \<Longrightarrow> ds4_inv s'"
proof -
  note r = ds4_remove [OF assms]
  show "uni_hid_parser_ds4_play_dual_rumble delay dur mags s = None \<longleftrightarrow>
      delay = 0 \<and> dur = 0 \<and> rumble_state s = Rumble_Delayed"
    using ds4_play_now_effect(1) [OF r(1-3)] r
    by (simp add: uni_hid_parser_ds4_play_dual_rumble_def Let_def add_delayed_def)
  show "uni_hid_parser_ds4_play_dual_rumble delay dur mags s = Some s' \<Longrightarrow> ds4_inv s'"
    using ds4_play_now_effect(2) [OF r(1-3)] r
    by (auto simp: uni_hid_parser_ds4_play_dual_rumble_def Let_def add_delayed_def ds4_inv_parts timers_live_def
        ds4_parts_def split: if_splits)
qed

lemma ds4_on_effect:
  assumes "ds4_inv s" "timer_delayed_start s \<noteq> None"
  shows "on_ds4_set_rumble_on s = None \<longleftrightarrow> rumble_duration_ms s = 0"
    and "on_ds4_set_rumble_on s = Some s' \<Longrightarrow> ds4_inv s'"
proof -
  let ?s1 = "s\<lparr>timer_delayed_start := None\<rparr>"
  have "rumble_state s = Rumble_Delayed" "timer_duration s = None"
    using assms by (auto simp: ds4_inv_def timers_live_def)
  moreover have "ds4_parts ?s1" using assms(1) by (simp add: ds4_inv_def ds4_parts_def)
  ultimately show "on_ds4_set_rumble_on s = None \<longleftrightarrow> rumble_duration_ms s = 0"
    "on_ds4_set_rumble_on s = Some s' \<Longrightarrow> ds4_inv s'"
    using ds4_play_now_effect [of ?s1] by (simp_all add: on_ds4_set_rumble_on_def)
qed

lemma ds4_off_effect:
  assumes "ds4_inv s" "timer_duration s \<noteq> None"
  shows "\<exists>s'. on_ds4_set_rumble_off s = Some s' \<and> ds4_inv s' \<and> rumble_state s' = Rumble_Disabled"
proof -
  let ?s1 = "s\<lparr>timer_duration := None\<rparr>"
  have st: "rumble_state s = Rumble_In_Progress" "timer_delayed_start s = None"
    using assms by (auto simp: ds4_inv_def timers_live_def)
  have p: "ds4_parts ?s1" using assms(1) by (simp add: ds4_inv_def ds4_parts_def)
  have "ds4_stop_rumble_now ?s1 \<noteq> None" using ds4_stop_effect(1) [OF p] st by simp
  then obtain s' where "ds4_stop_rumble_now ?s1 = Some s'" by blast
  with ds4_stop_effect(2) [OF p, of s'] st show ?thesis by (simp add: on_ds4_set_rumble_off_def)
qed

section \<open>Runs of the driver\<close>

datatype ds4_event =
    Ds4_Feature "u8 list" u16
  | Ds4_Lightbar u8 u8 u8
  | Ds4_Play u16 u16 "u8 \<times> u8"
  | Ds4_On
  | Ds4_Off

definition ds4_step :: "ds4_event \<Rightarrow> ds4_instance \<Rightarrow> ds4_instance option" where
  "ds4_step e s = (case e of
     Ds4_Feature r len \<Rightarrow> uni_hid_parser_ds4_parse_feature_report r len s
   | Ds4_Lightbar r g b \<Rightarrow> Some (uni_hid_parser_ds4_set_lightbar_color r g b s)
   | Ds4_Play delay dur mags \<Rightarrow> uni_hid_parser_ds4_play_dual_rumble delay dur mags s
   | Ds4_On \<Rightarrow> if timer_delayed_start s = None then Some s else on_ds4_set_rumble_on s
   | Ds4_Off \<Rightarrow> if timer_duration s = None then Some s else on_ds4_set_rumble_off s)"

inductive ds4_reach :: "ds4_instance \<Rightarrow> bool" where
  ds4_setup: "ds4_reach ds4_start"
| ds4_event: "ds4_reach s \<Longrightarrow> ds4_step e s = Some s' \<Longrightarrow> ds4_reach s'"

lemma ds4_step_inv:
  assumes "ds4_inv s" "ds4_step e s = Some s'"
  shows "ds4_inv s'"
proof (cases e)
  case (Ds4_Feature r len)
  then show ?thesis using ds4_inv_feature [OF assms(1)] assms(2) by (simp add: ds4_step_def)
next
  case (Ds4_Lightbar r g b)
  then show ?thesis using ds4_inv_lightbar [OF assms(1), of r g b] assms(2) by (simp add: ds4_step_def)
next
  case (Ds4_Play delay dur mags)
  then show ?thesis using ds4_play_effect(2) [OF assms(1)] assms(2) by (simp add: ds4_step_def)
next
  case Ds4_On
  then show ?thesis
    using ds4_on_effect(2) [OF assms(1), of s'] assms by (cases "timer_delayed_start s") (simp_all add: ds4_step_def)
next
  case Ds4_Off
  show ?thesis
  proof (cases "timer_duration s = None")
    case True
    then show ?thesis using Ds4_Off assms by (simp add: ds4_step_def)
  next
    case False
    with ds4_off_effect [OF assms(1)] Ds4_Off assms(2) show ?thesis by (auto simp: ds4_step_def)
  qed
qed

lemma ds4_reach_inv: "ds4_reach s \<Longrightarrow> ds4_inv s"
  by (induction rule: ds4_reach.induct) (auto intro: ds4_inv_start ds4_step_inv)

text \<open>
  With virtual devices off, as the firmware is configured, the set-up changes the device table as
  completing the set-up of any pad does.
\<close>

lemma create_virtual_off: "\<not> virtual_enabled w \<Longrightarrow> sony_create_mouse gap accept i w = Some w"
  by (simp add: sony_create_mouse_def uni_hid_device_create_virtual_def)

lemma ready_complete_virtual:
  "dev_inv G w \<Longrightarrow> i < 4 \<Longrightarrow> \<not> free_slot (devs w ! i) \<Longrightarrow> cfg_type (env_cfg (e :: dev_env)) \<noteq> Map_Custom \<Longrightarrow>
   uni_hid_device_set_ready_complete (env_gap e) accept i w = Some (w', ok) \<Longrightarrow> \<not> virtual_enabled w'"
  using dev_step_inv [of G w e "Dv_Ready_Complete i accept"]
  by (auto simp: dev_event_ok_def dev_step_def dev_inv_def)

text \<open>With virtual devices off the touch pad has no device, and the world is that of any other pad.\<close>

lemma ds4_setup_world:
  assumes "dev_inv G w" "i < 4" "\<not> free_slot (devs w ! i)" "cfg_type (env_cfg (e :: dev_env)) \<noteq> Map_Custom"
  shows "uni_hid_parser_ds4_setup (env_gap e) accept accept_mouse i w =
    map_option (\<lambda>w'. (w', ds4_start)) (dev_step e (Dv_Ready_Complete i accept) w)"
proof (cases "uni_hid_device_set_ready_complete (env_gap e) accept i w")
  case None
  then show ?thesis by (simp add: uni_hid_parser_ds4_setup_def dev_step_def)
next
  case (Some r)
  obtain w1 ok where r: "r = (w1, ok)" by (cases r)
  then have "\<not> virtual_enabled w1" using ready_complete_virtual [OF assms] Some by blast
  then show ?thesis
    using Some r by (simp add: uni_hid_parser_ds4_setup_def dev_step_def ds4_start_def create_virtual_off Let_def)
qed

section \<open>The touch pad\<close>

text \<open>A frame in which the finger is on the pad.\<close>

definition touching :: "u8 list \<Rightarrow> bool" where
  "touching r \<longleftrightarrow> \<not> r ! 32 < 1 \<and> r ! 34 AND 0x80 = 0"

lemma touch_frame:
  assumes "touching r"
  shows "prev_touch_active (ds4_parse_mouse r t)" "x_prev (ds4_parse_mouse r t) = touch_x r 34"
    "y_prev (ds4_parse_mouse r t) = touch_y r 34"
    "prev_touch_active t \<Longrightarrow> \<exists>m. mouse_log (ds4_parse_mouse r t) = mouse_log t @ [m] \<and> delta_x m = touch_x r 34 - x_prev t \<and>
       delta_y m = touch_y r 34 - y_prev t"
  using assms by (simp_all add: ds4_parse_mouse_def touching_def parse_touch_def Let_def)

lemma touch_run:
  assumes "list_all touching rs" "prev_touch_active t"
  shows "\<exists>ms. mouse_log (fold ds4_parse_mouse rs t) = mouse_log t @ ms \<and>
    x_prev (fold ds4_parse_mouse rs t) = x_prev t + sum_list (map delta_x ms) \<and>
    y_prev (fold ds4_parse_mouse rs t) = y_prev t + sum_list (map delta_y ms)"
  using assms
proof (induction rs arbitrary: t)
  case (Cons r rs)
  then have r: "touching r" by simp
  note f = touch_frame [OF r, of t]
  obtain m where m: "mouse_log (ds4_parse_mouse r t) = mouse_log t @ [m]"
    "delta_x m = touch_x r 34 - x_prev t" "delta_y m = touch_y r 34 - y_prev t" using f(4) Cons.prems(2) by blast
  obtain ms where ms: "mouse_log (fold ds4_parse_mouse rs (ds4_parse_mouse r t)) = mouse_log (ds4_parse_mouse r t) @ ms"
    "x_prev (fold ds4_parse_mouse rs (ds4_parse_mouse r t)) = x_prev (ds4_parse_mouse r t) + sum_list (map delta_x ms)"
    "y_prev (fold ds4_parse_mouse rs (ds4_parse_mouse r t)) = y_prev (ds4_parse_mouse r t) + sum_list (map delta_y ms)"
    using Cons.IH [of "ds4_parse_mouse r t"] Cons.prems(1) f(1) by auto
  then show ?case using m f(2,3) by (intro exI [of _ "m # ms"]) simp
qed simp

section \<open>Reports\<close>

lemma ds4_report_ok:
  assumes "ds4_inv s" "unat len \<le> length r" "r \<noteq> []"
  shows "\<exists>c' t'. ds4_report s r len c t = Some (c', t') \<and> pad_ok (gamepad c')"
  using assms
  by (auto simp: ds4_report_def ds4_init_report_def uni_hid_parser_ds4_parse_input_report_def read_at_def
      ds4_inv_def calibrate_three ds4_parse_input_report_11_def ds4_parse_input_report_01_def
      ds4_pad_ok pad_ok_motion pad_ok_zero)

lemma ds4_full_report:
  assumes "ds4_inv s" "length body = 75"
  shows "ds4_report s ([0x11, a, b] @ body) 78 c t =
    Some (c\<lparr>klass := Class_Gamepad,
        gamepad := (ds4_pad body 0 gamepad_zero)\<lparr>gyro := map2 scaled (ds4_gyro s) (three16 body 12),
          accel := map2 scaled (ds4_accel s) (three16 body 18)\<rparr>,
        battery := sony_battery (body ! 29)\<rparr>,
      map_option (\<lambda>d. ds4_parse_mouse body (d\<lparr>mouse := mouse_zero\<rparr>)) t)"
  using assms
  by (simp add: ds4_report_def ds4_init_report_def uni_hid_parser_ds4_parse_input_report_def read_at_def
      ds4_inv_def calibrate_three ds4_parse_input_report_11_def option.map_comp o_def)

lemma ds4_short_report:
  assumes "length body = 9"
  shows "ds4_report s (0x01 # body) 10 c t =
    Some (c\<lparr>klass := Class_Gamepad, gamepad := ds4_pad body 0 gamepad_zero, battery := 0\<rparr>,
      map_option (\<lambda>d. d\<lparr>mouse := mouse_zero\<rparr>) t)"
  using assms
  by (simp add: ds4_report_def ds4_init_report_def uni_hid_parser_ds4_parse_input_report_def read_at_def
      ds4_parse_input_report_01_def)

lemma pad_prefix: "take 9 xs = take 9 ys \<Longrightarrow> 9 \<le> length xs \<Longrightarrow> 9 \<le> length ys \<Longrightarrow> ds4_pad xs 0 gp = ds4_pad ys 0 gp"
proof -
  assume a: "take 9 xs = take 9 ys" "9 \<le> length xs" "9 \<le> length ys"
  have "xs ! i = ys ! i" if "i < 9" for i
    using arg_cong [OF a(1), of "\<lambda>l. l ! i"] that by simp
  then show ?thesis by (simp add: ds4_pad_def eval_nat_numeral)
qed

section \<open>Properties\<close>



text \<open>
  The exact requests on which the DualShock 4 driver aborts the firmware, in any
  reachable state: a stop that arrives while a delayed rumble is pending, and the end of the delay
  of a rumble of duration zero, for both of which the driver asserts that the motors run.  The timer
  that ends a rumble never aborts and always leaves the motors off.
\<close>

theorem ds4_rumble_abort:
  assumes "ds4_reach s"
  shows "(uni_hid_parser_ds4_play_dual_rumble delay dur mags s = None \<longleftrightarrow>
      delay = 0 \<and> dur = 0 \<and> rumble_state s = Rumble_Delayed) \<and>
    (timer_delayed_start s \<noteq> None \<longrightarrow> (on_ds4_set_rumble_on s = None \<longleftrightarrow> rumble_duration_ms s = 0)) \<and>
    (timer_duration s \<noteq> None \<longrightarrow>
      (\<exists>s'. on_ds4_set_rumble_off s = Some s' \<and> rumble_state s' = Rumble_Disabled))"
proof -
  have inv: "ds4_inv s" by (rule ds4_reach_inv [OF assms])
  show ?thesis
    using ds4_play_effect(1) [OF inv, of delay dur mags] ds4_on_effect(1) [OF inv] ds4_off_effect [OF inv]
    by (intro conjI impI) (assumption | blast)+
qed

theorem ds4_rumble_abort_witness:
  "\<exists>s. uni_hid_parser_ds4_play_dual_rumble 100 500 (9, 9) ds4_start = Some s \<and>
     uni_hid_parser_ds4_play_dual_rumble 0 0 (0, 0) s = None"
proof -
  obtain s where s: "uni_hid_parser_ds4_play_dual_rumble 100 500 (9, 9) ds4_start = Some s"
    "rumble_state s = Rumble_Delayed"
    by (simp add: uni_hid_parser_ds4_play_dual_rumble_def add_delayed_def remove_timers_def ds4_start_def
        ds4_request_calibration_report_def ds4_request_def ds4_send_enable_lightbar_report_def
        ds4_send_output_report_def ds4_zero_def)
  have "ds4_reach s" using ds4_event [OF ds4_setup, of "Ds4_Play 100 500 (9, 9)"] s(1) by (simp add: ds4_step_def)
  from ds4_rumble_abort [OF this, of 0 0 "(0, 0)"] s show ?thesis by blast
qed

text \<open>
  C25: The short report of pads that do not stream is a subset of the full one: in any
  reachable state, when the nine bytes of the sticks and buttons agree, both reports give the same
  gamepad but for the motion sensors, which the short one leaves at zero, and the full one's motion
  values are the raw ones times numerator over denominator of the calibration, truncated once.
\<close>

theorem ds4_reports_agree:
  assumes "ds4_reach s" "length long = 75" "length short = 9" "take 9 long = short"
  shows "\<exists>c1 t1 c2 t2. ds4_report s ([0x11, a, b] @ long) 78 c t = Some (c1, t1) \<and>
    ds4_report s (0x01 # short) 10 c t = Some (c2, t2) \<and>
    gamepad c2 = (gamepad c1)\<lparr>gyro := [0, 0, 0], accel := [0, 0, 0]\<rparr> \<and>
    gyro (gamepad c1) = map2 scaled (ds4_gyro s) (three16 long 12) \<and>
    accel (gamepad c1) = map2 scaled (ds4_accel s) (three16 long 18)"
proof -
  have "ds4_pad long 0 gamepad_zero = ds4_pad short 0 gamepad_zero"
    using assms(2-4) by (intro pad_prefix) simp_all
  moreover have "(ds4_pad short 0 gamepad_zero)\<lparr>gyro := [0, 0, 0], accel := [0, 0, 0]\<rparr> = ds4_pad short 0 gamepad_zero"
    by (simp add: ds4_pad_def gamepad_zero_def)
  ultimately show ?thesis
    using ds4_full_report [OF ds4_reach_inv [OF assms(1)] assms(2), of a b c t] ds4_short_report [OF assms(3), of s c t]
    by simp
qed

theorem ds4_reports_agree_witness:
  "\<exists>c1 t1. ds4_report ds4_start ([0x11, 0, 0] @ replicate 75 0x7f) 78 (ctl device_zero) None = Some (c1, t1) \<and>
     axis_x (gamepad c1) = 0"
proof -
  obtain c1 t1 c2 t2 where "ds4_report ds4_start ([0x11, 0, 0] @ replicate 75 0x7f) 78 (ctl device_zero) None = Some (c1, t1)"
    "ds4_report ds4_start (0x01 # replicate 9 0x7f) 10 (ctl device_zero) None = Some (c2, t2)"
    "gamepad c2 = (gamepad c1)\<lparr>gyro := [0, 0, 0], accel := [0, 0, 0]\<rparr>"
    using ds4_reports_agree [OF ds4_setup, of "replicate 75 0x7f" "replicate 9 0x7f" 0 0 "ctl device_zero" None] by auto
  moreover have "axis_x (gamepad c2) = 0" if "ds4_report ds4_start (0x01 # replicate 9 0x7f) 10 (ctl device_zero) None = Some (c2, t2)"
    using that by (simp add: ds4_short_report) (auto simp: ds4_pad_def)
  ultimately show ?thesis by auto
qed

text \<open>
  A bias common to the three axes of the gyroscope cancels in the calibration of
  yaw and roll but not in that of pitch, where the code adds it twice: from the same end readings
  pitch gets another sensitivity, and so another rate for the same motion.
\<close>

theorem pitch_calibration:
  assumes "s16 r 1 = bias" "s16 r 3 = bias" "s16 r 5 = bias" "s16 r 7 = hi" "s16 r 9 = hi" "s16 r 11 = hi"
    "s16 r 13 = lo" "s16 r 15 = lo" "s16 r 17 = lo" "lo < bias" "bias < hi" "lo + bias < 0"
  shows "map sens_denom (ds4_gyro (ds4_calibration r s)) = [hi - lo - 2 * bias, hi - lo, hi - lo]"
  using assms
  by (simp add: ds4_calibration_def Let_def gyro_calib_def pitch_denom_def gyro_denom_def)

theorem pitch_calibration_witness:
  "map sens_denom (ds4_gyro (ds4_calibration
     ([2, 100, 0, 100, 0, 100, 0] @ [0x10, 0x27, 0x10, 0x27, 0x10, 0x27] @
      [0xf0, 0xd8, 0xf0, 0xd8, 0xf0, 0xd8] @ replicate 20 0) ds4_zero)) = [19800, 20000, 20000]"
proof -
  let ?r = "[2, 100, 0, 100, 0, 100, 0] @ [0x10, 0x27, 0x10, 0x27, 0x10, 0x27] @
      [0xf0, 0xd8, 0xf0, 0xd8, 0xf0, 0xd8] @ replicate 20 0 :: u8 list"
  have "s16 ?r 1 = 100" "s16 ?r 3 = 100" "s16 ?r 5 = 100" "s16 ?r 7 = 10000" "s16 ?r 9 = 10000" "s16 ?r 11 = 10000"
    "s16 ?r 13 = - 10000" "s16 ?r 15 = - 10000" "s16 ?r 17 = - 10000"
    by code_simp+
  from pitch_calibration [OF this] show ?thesis by simp
qed

text \<open>
  While a finger stays on the touch pad, the mouse movements the driver reports add
  up exactly to the way the finger went, whatever the frames, and each frame is reported once.
\<close>

theorem touch_follows:
  assumes "touching r" "list_all touching rs" "rs \<noteq> []"
  shows "\<exists>ms. mouse_log (fold ds4_parse_mouse (r # rs) t) = mouse_log (ds4_parse_mouse r t) @ ms \<and>
    sum_list (map delta_x ms) = touch_x (last rs) 34 - touch_x r 34 \<and>
    sum_list (map delta_y ms) = touch_y (last rs) 34 - touch_y r 34"
proof -
  let ?t = "ds4_parse_mouse r t"
  note f = touch_frame [OF assms(1), of t]
  obtain ms where ms: "mouse_log (fold ds4_parse_mouse rs ?t) = mouse_log ?t @ ms"
    "x_prev (fold ds4_parse_mouse rs ?t) = x_prev ?t + sum_list (map delta_x ms)"
    "y_prev (fold ds4_parse_mouse rs ?t) = y_prev ?t + sum_list (map delta_y ms)"
    using touch_run [OF assms(2) f(1)] by blast
  have "x_prev (fold ds4_parse_mouse rs ?t) = touch_x (last rs) 34 \<and>
      y_prev (fold ds4_parse_mouse rs ?t) = touch_y (last rs) 34"
    using assms(2,3) by (cases rs rule: rev_cases)
      (simp_all add: ds4_parse_mouse_def touching_def parse_touch_def Let_def)
  then show ?thesis using ms f(2,3) by auto
qed

theorem touch_follows_witness:
  "\<exists>ms. mouse_log (fold ds4_parse_mouse [replicate 75 1, replicate 75 2] touch_zero) =
      mouse_log (ds4_parse_mouse (replicate 75 1) touch_zero) @ ms \<and>
    sum_list (map delta_x ms) = 257"
proof -
  have "touching (replicate 75 1)" "touching (replicate 75 2)" by (simp_all add: touching_def)
  moreover have "touch_x (replicate 75 2) 34 - touch_x (replicate 75 1) 34 = 257" by (simp add: touch_x_def)
  ultimately show ?thesis
    using touch_follows [of "replicate 75 1" "[replicate 75 2]" touch_zero] by auto
qed

end
