(* ===== verification/Dualsense.thy ===== *)
theory Dualsense
  imports Dualshock
begin

text \<open>
  The DualSense driver, parser/uni_hid_parser_ds5.c.  Its set-up is a handshake: three feature
  reports are requested one after the other, each from the handler of the one before, and input
  reports are ignored until the last has arrived.  Output reports carry a running number.  The
  conventions are those of theory \<open>Dualshock\<close>; the fields of the output report that are never set
  are zero bytes.
\<close>

section \<open>The driver's data\<close>

datatype ds5_state =
    Ds5_Initial
  | Ds5_Pairing_Info_Request
  | Ds5_Firmware_Version_Request
  | Ds5_Calibration_Request
  | Ds5_Ready

record ds5_instance = rumble +
  ds5_weak :: u16
  ds5_strong :: u16
  output_seq :: u8
  ds5_state :: ds5_state
  ds5_hw :: u32
  ds5_fw :: u32
  update_version :: u16
  use_vibration2 :: bool
  ds5_gyro :: "ds_calib list"
  ds5_accel :: "ds_calib list"
  ds5_log :: "ds_msg list"

definition ds5_zero :: ds5_instance where
  "ds5_zero = \<lparr>rumble_state = Rumble_Disabled, timer_delayed_start = None, timer_duration = None,
     rumble_duration_ms = 0, ds5_weak = 0, ds5_strong = 0, output_seq = 0, ds5_state = Ds5_Initial,
     ds5_hw = 0, ds5_fw = 0, update_version = 0, use_vibration2 = False,
     ds5_gyro = replicate 3 gyro_default, ds5_accel = replicate 3 accel_default, ds5_log = []\<rparr>"

definition le32 :: "u8 list \<Rightarrow> nat \<Rightarrow> u32" where
  "le32 m i = ucast (m ! i) OR push_bit 8 (ucast (m ! (i + 1))) OR push_bit 16 (ucast (m ! (i + 2))) OR
     push_bit 24 (ucast (m ! (i + 3)))"

section \<open>Output reports\<close>

definition DS5_FLAG0_COMPATIBLE_VIBRATION :: u8 where "DS5_FLAG0_COMPATIBLE_VIBRATION = 1"
definition DS5_FLAG0_HAPTICS_SELECT :: u8 where "DS5_FLAG0_HAPTICS_SELECT = 2"
definition DS5_FLAG0_FFB_RIGHT :: u8 where "DS5_FLAG0_FFB_RIGHT = 4"
definition DS5_FLAG0_FFB_LEFT :: u8 where "DS5_FLAG0_FFB_LEFT = 8"
definition DS5_FLAG1_LIGHTBAR_CONTROL_ENABLE :: u8 where "DS5_FLAG1_LIGHTBAR_CONTROL_ENABLE = 4"
definition DS5_FLAG1_PLAYER_LED_CONTROL_ENABLE :: u8 where "DS5_FLAG1_PLAYER_LED_CONTROL_ENABLE = 16"
definition DS5_FLAG2_LIGHTBAR_SETUP_CONTROL_ENABLE :: u8 where "DS5_FLAG2_LIGHTBAR_SETUP_CONTROL_ENABLE = 2"
definition DS5_FLAG2_COMPATIBLE_VIBRATION2 :: u8 where "DS5_FLAG2_COMPATIBLE_VIBRATION2 = 4"
definition DS5_LIGHTBAR_SETUP_LIGHT_OUT :: u8 where "DS5_LIGHTBAR_SETUP_LIGHT_OUT = 2"

record ds5_output =
  valid_flag0 :: u8
  valid_flag1 :: u8
  motor_right :: u8
  motor_left :: u8
  right_trigger_ffb :: "u8 list"
  left_trigger_ffb :: "u8 list"
  valid_flag2 :: u8
  lightbar_setup :: u8
  player_leds :: u8
  lightbar_rgb :: "u8 \<times> u8 \<times> u8"

definition ds5_output_zero :: ds5_output where
  "ds5_output_zero = \<lparr>valid_flag0 = 0, valid_flag1 = 0, motor_right = 0, motor_left = 0,
     right_trigger_ffb = replicate 11 0, left_trigger_ffb = replicate 11 0, valid_flag2 = 0,
     lightbar_setup = 0, player_leds = 0, lightbar_rgb = (0, 0, 0)\<rparr>"

definition ds5_output_report :: "u8 \<Rightarrow> ds5_output \<Rightarrow> u8 list" where
  "ds5_output_report seq_tag p =
     [HID_OUTPUT_REPORT, 0x31, seq_tag, 0x10, valid_flag0 p, valid_flag1 p, motor_right p, motor_left p] @
     replicate 6 0 @ right_trigger_ffb p @ left_trigger_ffb p @ replicate 6 0 @
     [valid_flag2 p, 0, 0, lightbar_setup p, 0, player_leds p, fst (lightbar_rgb p),
      fst (snd (lightbar_rgb p)), snd (snd (lightbar_rgb p))] @ replicate 24 0"

definition ds5_send_output_report :: "ds5_output \<Rightarrow> ds5_instance \<Rightarrow> ds5_instance" where
  "ds5_send_output_report p s =
     (let out = ds5_output_report (push_bit 4 (output_seq s)) p in
      s\<lparr>output_seq := (if output_seq s + 1 = 15 then 0 else output_seq s + 1),
        ds5_log := ds5_log s @ [Ds_Intr (out @ le_bytes (NOT (uni_crc32_le 0xffffffff out)))]\<rparr>)"

definition led_values :: "u8 list" where
  "led_values = [0, 4, 2 OR 8, 1 OR 4 OR 16, 1 OR 2 OR 8 OR 16]"

definition uni_hid_parser_ds5_set_player_leds :: "u8 \<Rightarrow> ds5_instance \<Rightarrow> ds5_instance" where
  "uni_hid_parser_ds5_set_player_leds v =
     ds5_send_output_report (ds5_output_zero\<lparr>player_leds := led_values ! (unat v mod length led_values),
       valid_flag1 := DS5_FLAG1_PLAYER_LED_CONTROL_ENABLE\<rparr>)"

definition uni_hid_parser_ds5_set_lightbar_color :: "u8 \<Rightarrow> u8 \<Rightarrow> u8 \<Rightarrow> ds5_instance \<Rightarrow> ds5_instance" where
  "uni_hid_parser_ds5_set_lightbar_color r g b =
     ds5_send_output_report (ds5_output_zero\<lparr>lightbar_rgb := (r, g, b),
       valid_flag1 := DS5_FLAG1_LIGHTBAR_CONTROL_ENABLE\<rparr>)"

section \<open>Adaptive triggers\<close>

text \<open>An invalid effect has only its tag; the data bytes are not initialised.\<close>

datatype trigger_effect = Effect_Invalid | Effect u8 "u8 list"

definition ds5_new_adaptive_trigger_effect_off :: trigger_effect where
  "ds5_new_adaptive_trigger_effect_off = Effect 0x05 (replicate 10 0)"

text \<open>The loop over the zones from a position on: three bits of force and one of activity each.\<close>

definition trigger_zones :: "u8 \<Rightarrow> u8 \<Rightarrow> u32 \<times> u16" where
  "trigger_zones position force =
     fold (\<lambda>i (f, a). (f OR push_bit (i * 3) (ucast force), a OR push_bit i 1)) [unat position..<10] (0, 0)"

definition zone_bytes :: "u32 \<times> u16 \<Rightarrow> u8 list" where
  "zone_bytes z = [ucast (snd z), ucast (drop_bit 8 (snd z)), ucast (fst z), ucast (drop_bit 8 (fst z)),
     ucast (drop_bit 16 (fst z)), ucast (drop_bit 24 (fst z))]"

definition ds5_new_adaptive_trigger_effect_feedback :: "u8 \<Rightarrow> u8 \<Rightarrow> trigger_effect" where
  "ds5_new_adaptive_trigger_effect_feedback position strength =
     (if 9 < position \<or> 8 < strength then Effect_Invalid
      else Effect 0x21 (zone_bytes (trigger_zones position ((strength - 1) AND 7)) @ replicate 4 0))"

definition ds5_new_adaptive_trigger_effect_weapon :: "u8 \<Rightarrow> u8 \<Rightarrow> u8 \<Rightarrow> trigger_effect" where
  "ds5_new_adaptive_trigger_effect_weapon start_position end_position strength =
     (if start_position < 2 \<or> 7 < start_position \<or> end_position \<le> start_position \<or> 8 < end_position \<or> 8 < strength
      then Effect_Invalid
      else
        let z = push_bit (unat start_position) 1 OR push_bit (unat end_position) 1 :: u16
        in Effect 0x25 ([ucast z, ucast (drop_bit 8 z), strength - 1] @ replicate 7 0))"

definition ds5_new_adaptive_trigger_effect_vibration :: "u8 \<Rightarrow> u8 \<Rightarrow> u8 \<Rightarrow> trigger_effect" where
  "ds5_new_adaptive_trigger_effect_vibration position amplitude frequency =
     (if 9 < position \<or> 8 < amplitude then Effect_Invalid
      else Effect 0x26 (zone_bytes (trigger_zones position ((amplitude - 1) AND 7)) @ [0, 0, frequency, 0]))"

text \<open>Values other than the two triggers are refused.\<close>

datatype trigger_type = Trigger_Left | Trigger_Right | Trigger_Other

definition ds5_set_adaptive_trigger_effect :: "trigger_type \<Rightarrow> trigger_effect \<Rightarrow> ds5_instance \<Rightarrow> ds5_instance" where
  "ds5_set_adaptive_trigger_effect ty e s = (case e of
     Effect_Invalid \<Rightarrow> s
   | Effect tag bytes \<Rightarrow> (case ty of
       Trigger_Left \<Rightarrow> ds5_send_output_report
         (ds5_output_zero\<lparr>valid_flag0 := DS5_FLAG0_FFB_LEFT, left_trigger_ffb := tag # bytes\<rparr>) s
     | Trigger_Right \<Rightarrow> ds5_send_output_report
         (ds5_output_zero\<lparr>valid_flag0 := DS5_FLAG0_FFB_RIGHT, right_trigger_ffb := tag # bytes\<rparr>) s
     | Trigger_Other \<Rightarrow> s))"

section \<open>Rumble\<close>

definition ds5_vibration :: "ds5_instance \<Rightarrow> ds5_output \<Rightarrow> ds5_output" where
  "ds5_vibration s p =
     (if use_vibration2 s then p\<lparr>valid_flag2 := valid_flag2 p OR DS5_FLAG2_COMPATIBLE_VIBRATION2\<rparr>
      else p\<lparr>valid_flag0 := valid_flag0 p OR DS5_FLAG0_COMPATIBLE_VIBRATION\<rparr>)"

definition ds5_stop_rumble_now :: "ds5_instance \<Rightarrow> ds5_instance option" where
  "ds5_stop_rumble_now s =
     (if rumble_state s = Rumble_Disabled then None
      else Some (ds5_send_output_report (ds5_vibration s (ds5_output_zero\<lparr>valid_flag0 := DS5_FLAG0_HAPTICS_SELECT\<rparr>))
        (s\<lparr>rumble_state := Rumble_Disabled\<rparr>)))"

definition ds5_play_dual_rumble_now :: "u16 \<Rightarrow> u8 \<times> u8 \<Rightarrow> ds5_instance \<Rightarrow> ds5_instance option" where
  "ds5_play_dual_rumble_now duration_ms mags s =
     (if duration_ms = 0 then
        (if rumble_state s \<noteq> Rumble_Disabled then ds5_stop_rumble_now s else Some s)
      else add_duration duration_ms (ds5_send_output_report (ds5_vibration s (ds5_output_zero
        \<lparr>valid_flag0 := DS5_FLAG0_HAPTICS_SELECT, motor_right := fst mags, motor_left := snd mags\<rparr>)) s))"

definition uni_hid_parser_ds5_play_dual_rumble ::
  "u16 \<Rightarrow> u16 \<Rightarrow> u8 \<times> u8 \<Rightarrow> ds5_instance \<Rightarrow> ds5_instance option" where
  "uni_hid_parser_ds5_play_dual_rumble start_delay_ms duration_ms mags s =
     (let s = remove_timers s in
      if start_delay_ms = 0 then ds5_play_dual_rumble_now duration_ms mags s
      else add_delayed start_delay_ms (s\<lparr>rumble_duration_ms := duration_ms,
        ds5_strong := ucast (snd mags), ds5_weak := ucast (fst mags)\<rparr>))"

definition on_ds5_set_rumble_on :: "ds5_instance \<Rightarrow> ds5_instance option" where
  "on_ds5_set_rumble_on s =
     ds5_play_dual_rumble_now (rumble_duration_ms s) (ucast (ds5_weak s), ucast (ds5_strong s))
       (s\<lparr>timer_delayed_start := None\<rparr>)"

definition on_ds5_set_rumble_off :: "ds5_instance \<Rightarrow> ds5_instance option" where
  "on_ds5_set_rumble_off s = ds5_stop_rumble_now (s\<lparr>timer_duration := None\<rparr>)"

section \<open>The handshake\<close>

definition DS5_FEATURE_REPORT_CALIBRATION :: u8 where "DS5_FEATURE_REPORT_CALIBRATION = 0x05"
definition DS5_FEATURE_REPORT_PAIRING_INFO :: u8 where "DS5_FEATURE_REPORT_PAIRING_INFO = 0x09"
definition DS5_FEATURE_REPORT_FIRMWARE_VERSION :: u8 where "DS5_FEATURE_REPORT_FIRMWARE_VERSION = 0x20"
definition DS5_EDGE_PID :: u16 where "DS5_EDGE_PID = 0x0df2"

definition DS5_FEATURE_VERSION :: "u16 \<Rightarrow> u16 \<Rightarrow> u16" where
  "DS5_FEATURE_VERSION major minor = push_bit 8 (major AND 0xff) OR (minor AND 0xff)"

definition ds5_request :: "ds5_state \<Rightarrow> u8 \<Rightarrow> ds5_instance \<Rightarrow> ds5_instance" where
  "ds5_request st feature s =
     s\<lparr>ds5_state := st, ds5_log := ds5_log s @ [Ds_Ctrl [HID_GET_FEATURE_REPORT, feature]]\<rparr>"

definition ds5_request_pairing_info_report :: "ds5_instance \<Rightarrow> ds5_instance" where
  "ds5_request_pairing_info_report = ds5_request Ds5_Pairing_Info_Request DS5_FEATURE_REPORT_PAIRING_INFO"

definition ds5_request_firmware_version_report :: "ds5_instance \<Rightarrow> ds5_instance" where
  "ds5_request_firmware_version_report =
     ds5_request Ds5_Firmware_Version_Request DS5_FEATURE_REPORT_FIRMWARE_VERSION"

definition ds5_request_calibration_report :: "ds5_instance \<Rightarrow> ds5_instance" where
  "ds5_request_calibration_report = ds5_request Ds5_Calibration_Request DS5_FEATURE_REPORT_CALIBRATION"

definition uni_hid_parser_ds5_setup :: ds5_instance where
  "uni_hid_parser_ds5_setup = ds5_request_pairing_info_report ds5_zero"

text \<open>The order of the fields of the calibration differs from the DualShock 4's.\<close>

definition ds5_calibration :: "u8 list \<Rightarrow> ds5_instance \<Rightarrow> ds5_instance" where
  "ds5_calibration r s =
     (let speed_2x = s16 r 19 + s16 r 21 in
      s\<lparr>ds5_gyro := [gyro_calib speed_2x (pitch_denom (s16 r 1) (s16 r 7) (s16 r 9)),
                      gyro_calib speed_2x (gyro_denom (s16 r 3) (s16 r 11) (s16 r 13)),
                      gyro_calib speed_2x (gyro_denom (s16 r 5) (s16 r 15) (s16 r 17))],
        ds5_accel := [accel_calib (s16 r 23) (s16 r 25), accel_calib (s16 r 27) (s16 r 29),
                       accel_calib (s16 r 31) (s16 r 33)]\<rparr>)"

definition ds5_enable_lightbar :: "ds5_instance \<Rightarrow> ds5_instance" where
  "ds5_enable_lightbar s = (ds5_send_output_report (ds5_output_zero\<lparr>lightbar_rgb := (0, 0, 255),
     valid_flag1 := DS5_FLAG1_LIGHTBAR_CONTROL_ENABLE, valid_flag2 := DS5_FLAG2_LIGHTBAR_SETUP_CONTROL_ENABLE,
     lightbar_setup := DS5_LIGHTBAR_SETUP_LIGHT_OUT\<rparr>) s)\<lparr>ds5_state := Ds5_Ready\<rparr>"

text \<open>
  The driver's part of a feature report; the flag says that the set-up is to be completed.  A report
  of unexpected length is only logged.
\<close>

definition ds5_feature :: "u16 \<Rightarrow> u8 list \<Rightarrow> ds5_instance \<Rightarrow> (ds5_instance \<times> bool) option" where
  "ds5_feature pid r s = do {
     id \<leftarrow> read_at r 0;
     if id = DS5_FEATURE_REPORT_PAIRING_INFO then Some (ds5_request_firmware_version_report s, False)
     else if id = DS5_FEATURE_REPORT_FIRMWARE_VERSION then
       (if length r < 46 then None
        else Some (ds5_request_calibration_report (s\<lparr>ds5_hw := le32 r 24, ds5_fw := le32 r 28,
          update_version := le16 r 44,
          use_vibration2 := (pid = DS5_EDGE_PID \<or> DS5_FEATURE_VERSION 2 21 \<le> le16 r 44)\<rparr>), False))
     else if id = DS5_FEATURE_REPORT_CALIBRATION then
       (if length r < 35 then None else Some (ds5_enable_lightbar (ds5_calibration r s), True))
     else Some (s, False)
   }"

text \<open>The whole handler, with the completion of the set-up on the device table.\<close>

definition ds5_send_enable_lightbar_report ::
  "(u16 \<Rightarrow> gap_type) \<Rightarrow> bool \<Rightarrow> bool \<Rightarrow> nat \<Rightarrow> bt_world \<Rightarrow> bt_world option" where
  "ds5_send_enable_lightbar_report gap accept accept_mouse i w = do {
     (w1, ok) \<leftarrow> uni_hid_device_set_ready_complete gap accept i w;
     if \<not> ok then Some w1 else sony_create_mouse gap accept_mouse i w1
   }"

definition uni_hid_parser_ds5_parse_feature_report ::
  "(u16 \<Rightarrow> gap_type) \<Rightarrow> bool \<Rightarrow> bool \<Rightarrow> nat \<Rightarrow> u8 list \<Rightarrow> u16 \<Rightarrow> bt_world \<times> ds5_instance \<Rightarrow>
     (bt_world \<times> ds5_instance) option" where
  "uni_hid_parser_ds5_parse_feature_report gap accept accept_mouse i r len ws = do {
     (s, complete) \<leftarrow> ds5_feature (product_id (devs (fst ws) ! i)) r (snd ws);
     w \<leftarrow> (if complete then ds5_send_enable_lightbar_report gap accept accept_mouse i (fst ws) else Some (fst ws));
     Some (w, s)
   }"

section \<open>Input reports\<close>

definition ds5_pad :: "u8 list \<Rightarrow> uni_gamepad \<Rightarrow> uni_gamepad" where
  "ds5_pad r gp = gp\<lparr>axis_x := (uint (r ! 0) - 127) * 4, axis_y := (uint (r ! 1) - 127) * 4,
     axis_rx := (uint (r ! 2) - 127) * 4, axis_ry := (uint (r ! 3) - 127) * 4,
     brake := uint (r ! 4) * 4, gp_throttle := uint (r ! 5) * 4,
     dpad := sony_hat (r ! 7), buttons := buttons gp OR sony_buttons (r ! 7) (r ! 8),
     misc_buttons := misc_buttons gp OR sony_misc (r ! 8) (r ! 9) OR flag_if (r ! 9) 4 MISC_BUTTON_CAPTURE\<rparr>"

definition ds5_parse_mouse :: "u8 list \<Rightarrow> touch_dev \<Rightarrow> touch_dev" where
  "ds5_parse_mouse r = parse_touch r 32 (r ! 9)"

definition uni_hid_parser_ds5_parse_input_report ::
  "ds5_instance \<Rightarrow> u8 list \<Rightarrow> u16 \<Rightarrow> controller \<Rightarrow> touch_dev option \<Rightarrow> (controller \<times> touch_dev option) option" where
  "uni_hid_parser_ds5_parse_input_report s report len c t =
     (if length report < unat len then None
      else if ds5_state s \<noteq> Ds5_Ready then Some (c, t)
      else do {
        id \<leftarrow> read_at report 0;
        if id \<noteq> 0x31 \<or> len \<noteq> 78 then Some (c, t)
        else do {
          let r = drop 2 report;
          g \<leftarrow> calibrate (ds5_gyro s) (three16 r 15);
          a \<leftarrow> calibrate (ds5_accel s) (three16 r 21);
          Some (c\<lparr>gamepad := (ds5_pad r (gamepad c))\<lparr>gyro := g, accel := a\<rparr>, battery := sony_battery (r ! 52)\<rparr>,
            map_option (ds5_parse_mouse r) t)
        }
      })"

definition ds5_report ::
  "ds5_instance \<Rightarrow> u8 list \<Rightarrow> u16 \<Rightarrow> controller \<Rightarrow> touch_dev option \<Rightarrow> (controller \<times> touch_dev option) option" where
  "ds5_report s report len c t =
     (let (c1, t1) = ds4_init_report c t in uni_hid_parser_ds5_parse_input_report s report len c1 t1)"

section \<open>Framing and numbering\<close>

definition intr_frames :: "ds_msg list \<Rightarrow> u8 list list" where
  "intr_frames l = concat (map (\<lambda>m. case m of Ds_Intr b \<Rightarrow> [b] | Ds_Ctrl _ \<Rightarrow> []) l)"

definition requests :: "ds_msg list \<Rightarrow> u8 list list" where
  "requests l = concat (map (\<lambda>m. case m of Ds_Intr _ \<Rightarrow> [] | Ds_Ctrl b \<Rightarrow> [b]) l)"

lemma frames_simps [simp]:
  "intr_frames [] = []" "intr_frames (xs @ [Ds_Intr b]) = intr_frames xs @ [b]"
  "intr_frames (xs @ [Ds_Ctrl c]) = intr_frames xs"
  "requests [] = []" "requests (xs @ [Ds_Intr b]) = requests xs" "requests (xs @ [Ds_Ctrl c]) = requests xs @ [c]"
  by (simp_all add: intr_frames_def requests_def)

text \<open>The running number is that of the frames sent so far, modulo fifteen.\<close>

definition numbered :: "ds_msg list \<Rightarrow> bool" where
  "numbered l \<longleftrightarrow> (\<forall>k < length (intr_frames l). intr_frames l ! k ! 2 = push_bit 4 (word_of_nat (k mod 15)))"

definition ds5_parts :: "ds5_instance \<Rightarrow> bool" where
  "ds5_parts s \<longleftrightarrow> calibs_ok (ds5_gyro s) \<and> calibs_ok (ds5_accel s) \<and> list_all (msg_ok 0x31) (ds5_log s) \<and>
     numbered (ds5_log s) \<and> output_seq s = word_of_nat (length (intr_frames (ds5_log s)) mod 15)"

definition ds5_inv :: "ds5_instance \<Rightarrow> bool" where
  "ds5_inv s \<longleftrightarrow> ds5_parts s \<and> timers_live s"

definition output_ok :: "ds5_output \<Rightarrow> bool" where
  "output_ok p \<longleftrightarrow> length (right_trigger_ffb p) = 11 \<and> length (left_trigger_ffb p) = 11"

lemma ds5_output_shape:
  assumes "output_ok p"
  shows "length (ds5_output_report q p) = 75" "ds5_output_report q p ! 0 = 0xa2"
    "ds5_output_report q p ! 1 = 0x31" "ds5_output_report q p ! 2 = q"
  using assms by (simp_all add: ds5_output_report_def HID_OUTPUT_REPORT_def output_ok_def)

lemma next_seq:
  "(if (word_of_nat (n mod 15) :: u8) + 1 = 15 then 0 else word_of_nat (n mod 15) + 1) =
    (word_of_nat (Suc n mod 15) :: u8)"
proof -
  have "\<forall>k \<in> set [0..<15]. (if (word_of_nat k :: u8) + 1 = 15 then 0 else word_of_nat k + 1) =
      (word_of_nat (if Suc k = 15 then 0 else Suc k) :: u8)" by code_simp
  from bspec [OF this, of "n mod 15"] show ?thesis unfolding mod_Suc by simp
qed

lemma numbered_snoc:
  assumes "numbered l" "b ! 2 = push_bit 4 (word_of_nat (length (intr_frames l) mod 15))"
  shows "numbered (l @ [Ds_Intr b])"
  using assms by (auto simp: numbered_def nth_append less_Suc_eq)

lemma numbered_ctrl: "numbered l \<Longrightarrow> numbered (l @ [Ds_Ctrl b])"
  by (simp add: numbered_def)

lemma ds5_parts_send:
  assumes "ds5_parts s" "output_ok p"
  shows "ds5_parts (ds5_send_output_report p s)"
proof -
  define out where "out = ds5_output_report (push_bit 4 (output_seq s)) p"
  define f where "f = out @ le_bytes (NOT (uni_crc32_le 0xffffffff out))"
  define q where "q = (if output_seq s + 1 = 15 then 0 else output_seq s + 1)"
  have eq: "ds5_send_output_report p s = s\<lparr>output_seq := q, ds5_log := ds5_log s @ [Ds_Intr f]\<rparr>"
    by (simp add: ds5_send_output_report_def Let_def f_def out_def q_def)
  have q: "q = word_of_nat (Suc (length (intr_frames (ds5_log s))) mod 15)"
    using next_seq [of "length (intr_frames (ds5_log s))"] assms(1) unfolding q_def ds5_parts_def by metis
  have out: "length out = 75" "out ! 0 = 0xa2" "out ! 1 = 0x31" "out ! 2 = push_bit 4 (output_seq s)"
    using ds5_output_shape [OF assms(2)] by (simp_all add: out_def)
  have "msg_ok 0x31 (Ds_Intr f)" unfolding f_def by (rule framed_ok [OF out(1-3)])
  moreover have "f ! 2 = push_bit 4 (output_seq s)" using out by (simp add: f_def nth_append)
  then have "numbered (ds5_log s @ [Ds_Intr f])"
    using assms(1) by (intro numbered_snoc) (simp_all add: ds5_parts_def)
  ultimately show ?thesis using assms(1) q by (simp add: eq ds5_parts_def)
qed

lemma ds5_live_send: "timers_live (ds5_send_output_report p s) = timers_live s"
  by (simp add: timers_live_def ds5_send_output_report_def Let_def)

lemma ds5_inv_send: "ds5_inv s \<Longrightarrow> output_ok p \<Longrightarrow> ds5_inv (ds5_send_output_report p s)"
  by (simp add: ds5_inv_def ds5_parts_send ds5_live_send)

lemma output_ok_updates [simp]:
  "output_ok ds5_output_zero" "output_ok (p\<lparr>valid_flag0 := a\<rparr>) = output_ok p"
  "output_ok (p\<lparr>valid_flag1 := a\<rparr>) = output_ok p" "output_ok (p\<lparr>valid_flag2 := a\<rparr>) = output_ok p"
  "output_ok (p\<lparr>motor_right := a\<rparr>) = output_ok p" "output_ok (p\<lparr>motor_left := a\<rparr>) = output_ok p"
  "output_ok (p\<lparr>lightbar_setup := a\<rparr>) = output_ok p" "output_ok (p\<lparr>player_leds := a\<rparr>) = output_ok p"
  "output_ok (p\<lparr>lightbar_rgb := c\<rparr>) = output_ok p"
  by (simp_all add: output_ok_def ds5_output_zero_def)

lemma output_ok_vibration [simp]: "output_ok (ds5_vibration s p) = output_ok p"
  by (simp add: ds5_vibration_def)

section \<open>The rumble machine\<close>

lemma ds5_truncate:
  "rumble.truncate (ds5_send_output_report p s) = rumble.truncate s"
  "rumble.truncate (s\<lparr>ds5_strong := m\<rparr>) = rumble.truncate s"
  "rumble.truncate (s\<lparr>ds5_weak := m\<rparr>) = rumble.truncate s"
  by (simp_all add: rumble.truncate_def ds5_send_output_report_def Let_def)

lemma ds5_stop: "map_option rumble.truncate (ds5_stop_rumble_now s) =
    rumble_stop_now ERROR_CODE_SUCCESS (rumble.truncate s)"
  by (simp add: ds5_stop_rumble_now_def rumble_stop_now_def rumble_truncate ds5_truncate)

lemma ds5_play: "map_option rumble.truncate (ds5_play_dual_rumble_now dur mags s) =
    rumble_play_now ERROR_CODE_SUCCESS dur (rumble.truncate s)"
  by (simp add: ds5_play_dual_rumble_now_def rumble_play_now_def truncate_add ds5_stop rumble_truncate ds5_truncate)

interpretation ds5: rumble_driver "\<lambda>delay dur mags st. uni_hid_parser_ds5_play_dual_rumble delay dur mags"
  "\<lambda>st. on_ds5_set_rumble_on" "\<lambda>st. on_ds5_set_rumble_off" rumble.truncate "\<lambda>s st. ERROR_CODE_SUCCESS"
proof unfold_locales
  show "map_option rumble.truncate (uni_hid_parser_ds5_play_dual_rumble delay dur mags s) =
      rumble_play ERROR_CODE_SUCCESS delay dur (rumble.truncate s)" for delay dur mags s
    by (simp add: uni_hid_parser_ds5_play_dual_rumble_def rumble_play_def Let_def truncate_add
        ds5_play truncate_remove rumble_truncate ds5_truncate del: ERROR_CODE_SUCCESS_def)
  show "map_option rumble.truncate (on_ds5_set_rumble_on s) = rumble_on ERROR_CODE_SUCCESS (rumble.truncate s)" for s
    by (simp add: on_ds5_set_rumble_on_def rumble_on_def ds5_play rumble_truncate del: ERROR_CODE_SUCCESS_def)
  show "map_option rumble.truncate (on_ds5_set_rumble_off s) = rumble_off ERROR_CODE_SUCCESS (rumble.truncate s)" for s
    by (simp add: on_ds5_set_rumble_off_def rumble_off_def ds5_stop rumble_truncate del: ERROR_CODE_SUCCESS_def)
qed (simp add: soft_status_def)

text \<open>Rumble keeps the rest of the invariant: at most it sends a report.\<close>

lemma ds5_parts_timers:
  "ds5_parts (s\<lparr>rumble_state := a\<rparr>) = ds5_parts s" "ds5_parts (s\<lparr>timer_duration := b\<rparr>) = ds5_parts s"
  "ds5_parts (s\<lparr>timer_delayed_start := b\<rparr>) = ds5_parts s" "ds5_parts (s\<lparr>rumble_duration_ms := d\<rparr>) = ds5_parts s"
  "ds5_parts (s\<lparr>ds5_strong := m\<rparr>) = ds5_parts s" "ds5_parts (s\<lparr>ds5_weak := m\<rparr>) = ds5_parts s"
  by (simp_all add: ds5_parts_def)

lemma ds5_parts_add:
  "add_duration ms s = Some s' \<Longrightarrow> ds5_parts s' = ds5_parts s"
  "add_delayed ms s = Some s' \<Longrightarrow> ds5_parts s' = ds5_parts s"
  by (auto simp: add_duration_def add_delayed_def ds5_parts_timers split: if_splits)

lemma ds5_parts_remove: "ds5_parts (remove_timers s) = ds5_parts s"
  by (cases "rumble_state s") (simp_all add: remove_timers_def ds5_parts_timers)

lemma ds5_parts_stop: "ds5_parts s \<Longrightarrow> ds5_stop_rumble_now s = Some s' \<Longrightarrow> ds5_parts s'"
  by (auto simp: ds5_stop_rumble_now_def ds5_parts_timers split: if_splits intro!: ds5_parts_send)

lemma ds5_parts_play_now: "ds5_parts s \<Longrightarrow> ds5_play_dual_rumble_now dur mags s = Some s' \<Longrightarrow> ds5_parts s'"
  by (auto simp: ds5_play_dual_rumble_now_def ds5_parts_add split: if_splits intro!: ds5_parts_send intro: ds5_parts_stop)

lemma ds5_parts_play: "ds5_parts s \<Longrightarrow> uni_hid_parser_ds5_play_dual_rumble delay dur mags s = Some s' \<Longrightarrow> ds5_parts s'"
  by (auto simp: uni_hid_parser_ds5_play_dual_rumble_def Let_def ds5_parts_add ds5_parts_timers ds5_parts_remove
      split: if_splits intro: ds5_parts_play_now [of "remove_timers s"])

lemma ds5_parts_on: "ds5_parts s \<Longrightarrow> on_ds5_set_rumble_on s = Some s' \<Longrightarrow> ds5_parts s'"
  unfolding on_ds5_set_rumble_on_def by (erule ds5_parts_play_now [rotated]) (simp add: ds5_parts_timers)

lemma ds5_parts_off: "ds5_parts s \<Longrightarrow> on_ds5_set_rumble_off s = Some s' \<Longrightarrow> ds5_parts s'"
  unfolding on_ds5_set_rumble_off_def by (erule ds5_parts_stop [rotated]) (simp add: ds5_parts_timers)

section \<open>The handshake\<close>

lemma ds5_inv_request: "ds5_inv s \<Longrightarrow> ds5_inv (ds5_request st f s)"
  by (simp add: ds5_inv_def ds5_parts_def ds5_request_def timers_live_def numbered_ctrl msg_ok_def
      HID_GET_FEATURE_REPORT_def)

lemma ds5_inv_zero: "ds5_inv ds5_zero"
  by (simp add: ds5_inv_def ds5_parts_def ds5_zero_def calibs_default timers_live_def numbered_def)

lemma ds5_inv_setup: "ds5_inv uni_hid_parser_ds5_setup"
  by (simp add: uni_hid_parser_ds5_setup_def ds5_request_pairing_info_report_def ds5_inv_request ds5_inv_zero)

lemma ds5_inv_calibration: "ds5_inv s \<Longrightarrow> ds5_inv (ds5_calibration r s)"
  by (simp add: ds5_inv_def ds5_parts_def ds5_calibration_def calibs_read Let_def timers_live_def)

lemma ds5_inv_enable: "ds5_inv s \<Longrightarrow> ds5_inv (ds5_enable_lightbar s)"
proof -
  have "ds5_inv (s\<lparr>ds5_state := st\<rparr>) = ds5_inv s" for s st
    by (simp add: ds5_inv_def ds5_parts_def timers_live_def)
  then show "ds5_inv s \<Longrightarrow> ds5_inv (ds5_enable_lightbar s)"
    by (simp add: ds5_enable_lightbar_def ds5_inv_send)
qed

lemma ds5_inv_feature:
  assumes "ds5_inv s" "ds5_feature pid r s = Some (s', b)"
  shows "ds5_inv s'"
proof -
  have "ds5_inv (s\<lparr>ds5_hw := h, ds5_fw := f, update_version := u, use_vibration2 := v\<rparr>)" for h f u v
    using assms(1) by (simp add: ds5_inv_def ds5_parts_def timers_live_def)
  then show ?thesis
    using assms ds5_inv_enable [OF ds5_inv_calibration [OF assms(1)], of r]
    by (auto simp: ds5_feature_def bind_eq_Some_conv ds5_request_firmware_version_report_def
        ds5_request_calibration_report_def ds5_inv_request split: if_splits)
qed

section \<open>Runs of the driver\<close>

definition effect_ok :: "trigger_effect \<Rightarrow> bool" where
  "effect_ok e = (case e of Effect_Invalid \<Rightarrow> True | Effect t d \<Rightarrow> length d = 10)"

lemma effects_ok:
  "effect_ok ds5_new_adaptive_trigger_effect_off"
  "effect_ok (ds5_new_adaptive_trigger_effect_feedback p k)"
  "effect_ok (ds5_new_adaptive_trigger_effect_weapon a b k)"
  "effect_ok (ds5_new_adaptive_trigger_effect_vibration p k q)"
  by (simp_all add: effect_ok_def ds5_new_adaptive_trigger_effect_off_def Let_def zone_bytes_def
      ds5_new_adaptive_trigger_effect_feedback_def ds5_new_adaptive_trigger_effect_weapon_def
      ds5_new_adaptive_trigger_effect_vibration_def)

datatype ds5_event =
    Ds5_Feature u16 "u8 list"
  | Ds5_Leds u8
  | Ds5_Lightbar u8 u8 u8
  | Ds5_Trigger trigger_type trigger_effect
  | Ds5_Rumble "(u8 \<times> u8) rumble_event"

definition ds5_step :: "ds5_event \<Rightarrow> ds5_instance \<Rightarrow> ds5_instance option" where
  "ds5_step e s = (case e of
     Ds5_Feature pid r \<Rightarrow> map_option fst (ds5_feature pid r s)
   | Ds5_Leds v \<Rightarrow> Some (uni_hid_parser_ds5_set_player_leds v s)
   | Ds5_Lightbar r g b \<Rightarrow> Some (uni_hid_parser_ds5_set_lightbar_color r g b s)
   | Ds5_Trigger ty eff \<Rightarrow> Some (ds5_set_adaptive_trigger_effect ty eff s)
   | Ds5_Rumble ev \<Rightarrow> if ds5.enabled ev s then ds5.step ev s else Some s)"

inductive ds5_reach :: "ds5_instance \<Rightarrow> bool" where
  ds5_setup: "ds5_reach uni_hid_parser_ds5_setup"
| ds5_event: "ds5_reach s \<Longrightarrow> (\<forall>ty eff. e = Ds5_Trigger ty eff \<longrightarrow> effect_ok eff) \<Longrightarrow> ds5_step e s = Some s' \<Longrightarrow>
    ds5_reach s'"

lemma ds5_inv_rumble:
  assumes "ds5_inv s" "ds5.enabled ev s" "ds5.step ev s = Some s'"
  shows "ds5_inv s'"
proof -
  define ev' where "ev' = (case ev of Play d k m st \<Rightarrow> Play d k m 0 | Fire_On st \<Rightarrow> Fire_On 0 | Fire_Off st \<Rightarrow> Fire_Off 0)"
  have "ds5.enabled ev' s" "ds5.step ev' s = Some s'"
    using assms(2,3) by (cases ev; simp add: ev'_def ds5.enabled_def ds5.step_def)+
  moreover have "ds5.soft ev'" by (cases ev) (simp_all add: ev'_def ds5.soft_def soft_status_def)
  ultimately have "timers_live s'"
    using ds5.step_live [of s ev' s'] assms(1) by (simp add: ds5_inv_def timers_truncate)
  moreover have "ds5_parts s"  using assms(1) by (simp add: ds5_inv_def)
  then have "ds5_parts s'"
    using assms(3) unfolding ds5.step_def
    by (cases ev) (simp_all, (erule (1) ds5_parts_play ds5_parts_on ds5_parts_off)+)
  ultimately show ?thesis by (simp add: ds5_inv_def)
qed

lemma ds5_step_inv:
  assumes "ds5_inv s" "\<forall>ty eff. e = Ds5_Trigger ty eff \<longrightarrow> effect_ok eff" "ds5_step e s = Some s'"
  shows "ds5_inv s'"
proof (cases e)
  case (Ds5_Feature pid r)
  then show ?thesis using assms(3) ds5_inv_feature [OF assms(1)] by (auto simp: ds5_step_def)
next
  case (Ds5_Leds v)
  then show ?thesis using assms by (auto simp: ds5_step_def uni_hid_parser_ds5_set_player_leds_def ds5_inv_send)
next
  case (Ds5_Lightbar r g b)
  then show ?thesis using assms by (auto simp: ds5_step_def uni_hid_parser_ds5_set_lightbar_color_def ds5_inv_send)
next
  case (Ds5_Trigger ty eff)
  have "output_ok (ds5_output_zero\<lparr>valid_flag0 := f, left_trigger_ffb := l\<rparr>)"
    "output_ok (ds5_output_zero\<lparr>valid_flag0 := f, right_trigger_ffb := l\<rparr>)" if "length l = 11" for f l
    using that by (simp_all add: output_ok_def ds5_output_zero_def)
  then show ?thesis using assms Ds5_Trigger
    by (auto simp: ds5_step_def ds5_set_adaptive_trigger_effect_def ds5_inv_send effect_ok_def
        split: trigger_effect.splits trigger_type.splits)
next
  case (Ds5_Rumble ev)
  then show ?thesis using assms ds5_inv_rumble [OF assms(1)] by (auto simp: ds5_step_def split: if_splits)
qed

lemma ds5_reach_inv: "ds5_reach s \<Longrightarrow> ds5_inv s"
  by (induction rule: ds5_reach.induct) (auto intro: ds5_inv_setup ds5_step_inv)

section \<open>Reports\<close>

lemma ds5_pad_ok: "pad_ok (ds5_pad r gamepad_zero)"
  by (simp add: ds5_pad_def pad_ok_def gamepad_ok_def bits_ok_def sony_stick_dist sony_bits gamepad_zero_def
      bit.conj_disj_distrib2 flag_if_and)

lemma ds5_report_ok:
  assumes "ds5_inv s" "unat len \<le> length r" "r \<noteq> []"
  shows "\<exists>c' t'. ds5_report s r len c t = Some (c', t') \<and> pad_ok (gamepad c')"
  using assms
  by (auto simp: ds5_report_def ds4_init_report_def uni_hid_parser_ds5_parse_input_report_def read_at_def
      ds5_inv_def ds5_parts_def calibrate_three ds5_pad_ok pad_ok_motion pad_ok_zero Let_def)

text \<open>Both drivers read the same hand the same way.\<close>

lemma pads_agree:
  assumes "map ((!) r4) [0, 1, 2, 3, 4, 5, 6, 7, 8] = map ((!) r5) [0, 1, 2, 3, 7, 8, 9, 4, 5]" "r5 ! 9 AND 4 = 0"
  shows "ds5_pad r5 gp = ds4_pad r4 0 gp"
  using assms by (simp add: ds5_pad_def ds4_pad_def flag_if_def eval_nat_numeral)

text \<open>Only the handshake moves the state of the set-up.\<close>

lemma ds5_keep_send [simp]: "ds5_state (ds5_send_output_report p s) = ds5_state s"
  by (simp add: ds5_send_output_report_def Let_def)

lemma ds5_keep_add:
  "add_duration ms s = Some s' \<Longrightarrow> ds5_state s' = ds5_state s"
  "add_delayed ms s = Some s' \<Longrightarrow> ds5_state s' = ds5_state s"
  by (auto simp: add_duration_def add_delayed_def split: if_splits)

lemma ds5_keep_remove [simp]: "ds5_state (remove_timers s) = ds5_state s"
  by (cases "rumble_state s") (simp_all add: remove_timers_def)

lemma ds5_keep_stop: "ds5_stop_rumble_now s = Some s' \<Longrightarrow> ds5_state s' = ds5_state s"
  by (auto simp: ds5_stop_rumble_now_def split: if_splits)

lemma ds5_keep_play_now: "ds5_play_dual_rumble_now dur mags s = Some s' \<Longrightarrow> ds5_state s' = ds5_state s"
  by (auto simp: ds5_play_dual_rumble_now_def ds5_keep_stop dest: ds5_keep_add split: if_splits)

lemma ds5_keep_rumble: "ds5.step ev s = Some s' \<Longrightarrow> ds5_state s' = ds5_state s"
proof (cases ev)
  case (Play delay dur mags st)
  assume "ds5.step ev s = Some s'"
  then show ?thesis
    by (auto simp: Play ds5.step_def uni_hid_parser_ds5_play_dual_rumble_def Let_def
        dest: ds5_keep_add ds5_keep_play_now split: if_splits)
next
  case (Fire_On st)
  assume "ds5.step ev s = Some s'"
  then show ?thesis by (auto simp: Fire_On ds5.step_def on_ds5_set_rumble_on_def dest: ds5_keep_play_now)
next
  case (Fire_Off st)
  assume "ds5.step ev s = Some s'"
  then show ?thesis by (auto simp: Fire_Off ds5.step_def on_ds5_set_rumble_off_def dest: ds5_keep_stop)
qed

lemma ds5_made_ready:
  assumes "ds5_step e s = Some s'" "ds5_state s' = Ds5_Ready" "ds5_state s \<noteq> Ds5_Ready"
  shows "\<exists>pid r. e = Ds5_Feature pid r \<and> r ! 0 = DS5_FEATURE_REPORT_CALIBRATION \<and> 35 \<le> length r"
proof (cases e)
  case (Ds5_Feature pid r)
  then show ?thesis using assms
    by (auto simp: ds5_step_def ds5_feature_def bind_eq_Some_conv ds5_request_def
        ds5_request_firmware_version_report_def ds5_request_calibration_report_def split: if_splits)
next
  case (Ds5_Trigger ty eff)
  then show ?thesis using assms
    by (auto simp: ds5_step_def ds5_set_adaptive_trigger_effect_def split: trigger_effect.splits trigger_type.splits)
next
  case (Ds5_Rumble ev)
  then show ?thesis using assms ds5_keep_rumble [of ev s s'] by (auto simp: ds5_step_def split: if_splits)
qed (use assms in \<open>auto simp: ds5_step_def uni_hid_parser_ds5_set_player_leds_def
  uni_hid_parser_ds5_set_lightbar_color_def\<close>)

section \<open>Zones of an adaptive trigger\<close>

definition zone_active :: "u8 list \<Rightarrow> nat \<Rightarrow> bool" where
  "zone_active d i \<longleftrightarrow> bit (d ! (i div 8)) (i mod 8)"

definition zone_force :: "u8 list \<Rightarrow> nat \<Rightarrow> u32" where
  "zone_force d i = drop_bit (3 * i) (le32 d 2) AND 7"

definition zone_step :: "u8 \<Rightarrow> nat \<Rightarrow> u32 \<times> u16 \<Rightarrow> u32 \<times> u16" where
  "zone_step force = (\<lambda>i (f, a). (f OR push_bit (i * 3) (ucast force), a OR push_bit i 1))"

lemma zones_fold:
  assumes "\<And>k. bit force k \<Longrightarrow> k < 3" "q \<le> 10"
  shows "bit (fst (fold (zone_step force) [p..<q] (0, 0))) n \<longleftrightarrow> p \<le> n div 3 \<and> n div 3 < q \<and> bit force (n mod 3)"
    and "bit (snd (fold (zone_step force) [p..<q] (0, 0))) n \<longleftrightarrow> p \<le> n \<and> n < q"
proof -
  let ?F = "\<lambda>q. fold (zone_step force) [p..<q] (0, 0)"
  have "(bit (fst (?F q)) n \<longleftrightarrow> p \<le> n div 3 \<and> n div 3 < q \<and> bit force (n mod 3)) \<and>
      (bit (snd (?F q)) n \<longleftrightarrow> p \<le> n \<and> n < q)"
    using assms(2)
  proof (induction q)
    case (Suc q)
    show ?case
    proof (cases "p \<le> q")
      case True
      obtain f a where F: "?F q = (f, a)" by (cases "?F q")
      have step: "?F (Suc q) = (f OR push_bit (q * 3) (ucast force), a OR push_bit q 1)"
        using True F by (simp add: zone_step_def)
      have shift: "(q * 3 \<le> n \<and> n < 32 \<and> bit force (n - q * 3)) \<longleftrightarrow> n div 3 = q \<and> bit force (n mod 3)"
      proof
        assume "q * 3 \<le> n \<and> n < 32 \<and> bit force (n - q * 3)"
        moreover from this have "n - q * 3 < 3" using assms(1) by blast
        ultimately have d: "n div 3 = q" "bit force (n - q * 3)" by auto
        then have "n mod 3 = n - q * 3" by (simp add: modulo_nat_def)
        with d show "n div 3 = q \<and> bit force (n mod 3)" by simp
      next
        assume "n div 3 = q \<and> bit force (n mod 3)"
        then show "q * 3 \<le> n \<and> n < 32 \<and> bit force (n - q * 3)"
          using Suc.prems by (auto simp: modulo_nat_def)
      qed
      have len: "bit (ucast force :: u32) k = bit force k" for k
        using assms(1) [of k] by (auto simp: bit_ucast_iff)
      have "bit (f OR push_bit (q * 3) (ucast force)) n \<longleftrightarrow> bit f n \<or> (q * 3 \<le> n \<and> n < 32 \<and> bit force (n - q * 3))"
        by (auto simp: bit_or_iff bit_push_bit_iff len)
      moreover have "bit (push_bit q (1 :: u16)) n \<longleftrightarrow> n = q"
        using Suc.prems by (simp only: bit_push_bit_iff bit_1_iff) auto
      then have "bit (a OR push_bit q 1) n \<longleftrightarrow> bit a n \<or> n = q" by (simp only: bit_or_iff)
      moreover have "bit f n \<longleftrightarrow> p \<le> n div 3 \<and> n div 3 < q \<and> bit force (n mod 3)"
        "bit a n \<longleftrightarrow> p \<le> n \<and> n < q" using Suc F by simp_all
      moreover have "p \<le> m \<and> m < q \<and> B \<or> m = q \<and> B \<longleftrightarrow> p \<le> m \<and> m < Suc q \<and> B" for m B
        using True by auto
      from this [of "n div 3" "bit force (n mod 3)"] this [of n True]
      have "p \<le> n div 3 \<and> n div 3 < q \<and> bit force (n mod 3) \<or> n div 3 = q \<and> bit force (n mod 3) \<longleftrightarrow>
          p \<le> n div 3 \<and> n div 3 < Suc q \<and> bit force (n mod 3)"
        "p \<le> n \<and> n < q \<or> n = q \<longleftrightarrow> p \<le> n \<and> n < Suc q" by blast+
      ultimately show ?thesis unfolding step fst_conv snd_conv shift by argo
    next
      case False
      then show ?thesis using Suc by auto
    qed
  qed simp
  then show "bit (fst (?F q)) n \<longleftrightarrow> p \<le> n div 3 \<and> n div 3 < q \<and> bit force (n mod 3)"
    "bit (snd (?F q)) n \<longleftrightarrow> p \<le> n \<and> n < q" by blast+
qed

lemma le32_bytes: "le32 (x # y # le_bytes w @ r) 2 = w"
proof (rule bit_word_eqI)
  fix n
  assume "n < LENGTH(32)"
  then have n: "n < 8 \<or> (8 \<le> n \<and> n < 16) \<or> (16 \<le> n \<and> n < 24) \<or> (24 \<le> n \<and> n < 32)" by auto
  have part: "bit (push_bit k (ucast (ucast (drop_bit k w) :: u8)) :: u32) n \<longleftrightarrow> k \<le> n \<and> n < k + 8 \<and> bit w n" for k
    using bit_imp_le_length [of w n] by (auto simp: bit_push_bit_iff bit_ucast_iff bit_drop_bit_eq)
  have "le32 (x # y # le_bytes w @ r) 2 = push_bit 0 (ucast (ucast (drop_bit 0 w) :: u8)) OR
      push_bit 8 (ucast (ucast (drop_bit 8 w) :: u8)) OR
      push_bit 16 (ucast (ucast (drop_bit 16 w) :: u8)) OR push_bit 24 (ucast (ucast (drop_bit 24 w) :: u8))"
    by (simp add: le32_def le_bytes_def)
  then show "bit (le32 (x # y # le_bytes w @ r) 2) n = bit w n"
    using n by (elim disjE) (simp_all only: bit_or_iff part, simp_all)
qed

lemma zone_bytes_le: "zone_bytes z = ucast (snd z) # ucast (drop_bit 8 (snd z)) # le_bytes (fst z)"
  by (simp add: zone_bytes_def le_bytes_def)

lemma seven_mask: "(7 :: u32) = mask 3" "(7 :: u8) = mask 3"
  by (simp_all add: mask_eq_exp_minus_1)

lemma zones_read_back:
  assumes "\<And>k. bit force k \<Longrightarrow> k < 3" "i < 10"
  shows "zone_active (zone_bytes (trigger_zones position force) @ r) i \<longleftrightarrow> unat position \<le> i"
    and "zone_force (zone_bytes (trigger_zones position force) @ r) i = (if unat position \<le> i then ucast force else 0)"
proof -
  define z where "z = trigger_zones position force"
  have z: "z = fold (zone_step force) [unat position..<10] (0, 0)"
    by (simp add: z_def trigger_zones_def zone_step_def)
  have "zone_active (zone_bytes z @ r) i \<longleftrightarrow> bit (snd z) i"
  proof (cases "i < 8")
    case True
    then show ?thesis by (simp add: zone_active_def zone_bytes_le bit_ucast_iff)
  next
    case False
    then have "i = 8 \<or> i = 9" using assms(2) by auto
    then show ?thesis by (elim disjE) (simp_all add: zone_active_def zone_bytes_le bit_ucast_iff bit_drop_bit_eq)
  qed
  then show "zone_active (zone_bytes (trigger_zones position force) @ r) i \<longleftrightarrow> unat position \<le> i"
    using zones_fold(2) [of force 10 "unat position" i] assms by (simp add: z z_def [symmetric])
  have "zone_force (zone_bytes z @ r) i = drop_bit (3 * i) (fst z) AND 7"
    by (simp add: zone_force_def zone_bytes_le le32_bytes)
  also have "\<dots> = (if unat position \<le> i then ucast force else 0)"
  proof (rule bit_word_eqI)
    fix n
    assume "n < LENGTH(32)"
    have "bit (7 :: u32) n \<longleftrightarrow> n < 3" by (auto simp: seven_mask(1) bit_mask_iff)
    moreover have "n < 3 \<Longrightarrow> (3 * i + n) div 3 = i \<and> (3 * i + n) mod 3 = n" by auto
    ultimately show "bit (drop_bit (3 * i) (fst z) AND 7) n = bit (if unat position \<le> i then ucast force else 0 :: u32) n"
      using zones_fold(1) [of force 10 "unat position" "3 * i + n"] assms
      by (auto simp: z bit_and_iff bit_drop_bit_eq bit_ucast_iff)
  qed
  finally show "zone_force (zone_bytes (trigger_zones position force) @ r) i = (if unat position \<le> i then ucast force else 0)"
    by (simp add: z_def)
qed

lemma force_bits:
  assumes "strength \<le> (8 :: u8)"
  shows "bit ((strength - 1) AND 7) k \<Longrightarrow> k < 3"
    and "(ucast ((strength - 1) AND 7) :: u32) = (if strength = 0 then 7 else ucast strength - 1)"
proof -
  show "bit ((strength - 1) AND 7) k \<Longrightarrow> k < 3" by (simp add: bit_and_iff seven_mask(2) bit_mask_iff)
  have "list_all (\<lambda>k. (ucast ((word_of_nat k - 1 :: u8) AND 7) :: u32) =
      (if (word_of_nat k :: u8) = 0 then 7 else ucast (word_of_nat k :: u8) - 1)) [0..<9]"
    by (simp add: upt_rec)
  moreover have "unat strength < 9" using assms by (simp add: word_le_nat_alt)
  ultimately show "(ucast ((strength - 1) AND 7) :: u32) = (if strength = 0 then 7 else ucast strength - 1)"
    by (auto simp: list_all_iff dest!: bspec [where x = "unat strength"])
qed

section \<open>Properties\<close>



text \<open>
  C23: Every output report of a reachable DualSense driver has the size, header and CRC the
  pad checks, and the \<open>k\<close>-th one carries the number \<open>k\<close> modulo fifteen in its upper four bits: two
  successive reports never have the same number.
\<close>

theorem ds5_frames:
  assumes "ds5_reach s" "k < length (intr_frames (ds5_log s))"
  shows "length (intr_frames (ds5_log s) ! k) = 79 \<and> intr_frames (ds5_log s) ! k ! 0 = 0xa2 \<and>
    intr_frames (ds5_log s) ! k ! 1 = 0x31 \<and> intr_frames (ds5_log s) ! k ! 2 = push_bit 4 (word_of_nat (k mod 15)) \<and>
    uni_crc32_le 0xffffffff (intr_frames (ds5_log s) ! k) = CRC_RESIDUE"
proof -
  have inv: "ds5_parts s" using ds5_reach_inv [OF assms(1)] by (simp add: ds5_inv_def)
  have "intr_frames (ds5_log s) ! k \<in> set (intr_frames (ds5_log s))" using assms(2) by simp
  then have "Ds_Intr (intr_frames (ds5_log s) ! k) \<in> set (ds5_log s)"
    by (auto simp: intr_frames_def split: ds_msg.splits)
  then have "msg_ok 0x31 (Ds_Intr (intr_frames (ds5_log s) ! k))"
    using inv by (simp add: ds5_parts_def list_all_iff)
  then show ?thesis using inv assms(2) by (simp add: msg_ok_def ds5_parts_def numbered_def)
qed

theorem ds5_frames_witness:
  "\<exists>s. ds5_reach s \<and> intr_frames (ds5_log s) ! 0 ! 2 = 0"
proof -
  define s where "s = uni_hid_parser_ds5_set_lightbar_color 1 2 3 uni_hid_parser_ds5_setup"
  have r: "ds5_reach s"
    by (rule ds5_event [OF ds5_setup, of "Ds5_Lightbar 1 2 3"]) (simp_all add: ds5_step_def s_def)
  have "ds5_log uni_hid_parser_ds5_setup = [] @ [Ds_Ctrl [HID_GET_FEATURE_REPORT, DS5_FEATURE_REPORT_PAIRING_INFO]]"
    by (simp add: uni_hid_parser_ds5_setup_def ds5_request_pairing_info_report_def ds5_request_def ds5_zero_def)
  then have "intr_frames (ds5_log uni_hid_parser_ds5_setup) = []" by (simp only: frames_simps)
  then have "0 < length (intr_frames (ds5_log s))"
    by (simp add: s_def uni_hid_parser_ds5_set_lightbar_color_def ds5_send_output_report_def Let_def)
  with ds5_frames [OF r this] r show ?thesis by auto
qed

text \<open>
  The set-up of a DualSense.  When the pad answers each request, the driver asks for
  the pairing information, the firmware version and the calibration, in this order and for nothing
  else, and after the third answer it is ready, has the calibration of that report, and knows from
  the second how to drive the motors.
\<close>

theorem ds5_handshake:
  assumes "p ! 0 = DS5_FEATURE_REPORT_PAIRING_INFO" "p \<noteq> []"
    "f ! 0 = DS5_FEATURE_REPORT_FIRMWARE_VERSION" "46 \<le> length f"
    "r ! 0 = DS5_FEATURE_REPORT_CALIBRATION" "35 \<le> length r"
  shows "\<exists>s1 s2 s3. ds5_feature pid p uni_hid_parser_ds5_setup = Some (s1, False) \<and>
    ds5_feature pid f s1 = Some (s2, False) \<and> ds5_feature pid r s2 = Some (s3, True) \<and>
    requests (ds5_log s3) = [[0x43, 0x09], [0x43, 0x20], [0x43, 0x05]] \<and> length (intr_frames (ds5_log s3)) = 1 \<and>
    ds5_state s3 = Ds5_Ready \<and> ds5_gyro s3 = ds5_gyro (ds5_calibration r s2) \<and>
    use_vibration2 s3 = (pid = DS5_EDGE_PID \<or> 0x215 \<le> le16 f 44)"
proof -
  let ?s1 = "ds5_request_firmware_version_report uni_hid_parser_ds5_setup"
  let ?s2 = "ds5_request_calibration_report (?s1\<lparr>ds5_hw := le32 f 24, ds5_fw := le32 f 28,
    update_version := le16 f 44, use_vibration2 := (pid = DS5_EDGE_PID \<or> DS5_FEATURE_VERSION 2 21 \<le> le16 f 44)\<rparr>)"
  let ?s3 = "ds5_enable_lightbar (ds5_calibration r ?s2)"
  let ?l = "[Ds_Ctrl [HID_GET_FEATURE_REPORT, DS5_FEATURE_REPORT_PAIRING_INFO],
    Ds_Ctrl [HID_GET_FEATURE_REPORT, DS5_FEATURE_REPORT_FIRMWARE_VERSION],
    Ds_Ctrl [HID_GET_FEATURE_REPORT, DS5_FEATURE_REPORT_CALIBRATION]]"
  have "ds5_feature pid p uni_hid_parser_ds5_setup = Some (?s1, False)"
    using assms(1,2) by (simp add: ds5_feature_def read_at_def)
  moreover have "ds5_feature pid f ?s1 = Some (?s2, False)"
    using assms(3,4) by (auto simp: ds5_feature_def read_at_def DS5_FEATURE_REPORT_PAIRING_INFO_def
        DS5_FEATURE_REPORT_FIRMWARE_VERSION_def)
  moreover have "ds5_feature pid r ?s2 = Some (?s3, True)"
    using assms(5,6) by (auto simp: ds5_feature_def read_at_def DS5_FEATURE_REPORT_PAIRING_INFO_def
        DS5_FEATURE_REPORT_FIRMWARE_VERSION_def DS5_FEATURE_REPORT_CALIBRATION_def)
  moreover have "ds5_log (ds5_calibration r ?s2) = ?l"
    by (simp add: ds5_calibration_def Let_def ds5_request_calibration_report_def ds5_request_def
        ds5_request_firmware_version_report_def uni_hid_parser_ds5_setup_def ds5_request_pairing_info_report_def ds5_zero_def)
  then have "\<exists>b. ds5_log ?s3 = ?l @ [Ds_Intr b]"
    by (simp add: ds5_enable_lightbar_def ds5_send_output_report_def Let_def)
  then have "requests (ds5_log ?s3) = [[0x43, 0x09], [0x43, 0x20], [0x43, 0x05]]" "length (intr_frames (ds5_log ?s3)) = 1"
    by (auto simp: requests_def intr_frames_def HID_GET_FEATURE_REPORT_def DS5_FEATURE_REPORT_PAIRING_INFO_def
        DS5_FEATURE_REPORT_FIRMWARE_VERSION_def DS5_FEATURE_REPORT_CALIBRATION_def push_bit_eq_mult)
  moreover have "ds5_state ?s3 = Ds5_Ready" "ds5_gyro ?s3 = ds5_gyro (ds5_calibration r ?s2)"
    by (simp_all add: ds5_enable_lightbar_def ds5_send_output_report_def Let_def)
  moreover have "DS5_FEATURE_VERSION 2 21 = 0x215" by (simp add: DS5_FEATURE_VERSION_def push_bit_eq_mult)
  then have "use_vibration2 ?s3 = (pid = DS5_EDGE_PID \<or> 0x215 \<le> le16 f 44)"
    by (simp add: ds5_enable_lightbar_def ds5_send_output_report_def Let_def ds5_calibration_def
        ds5_request_calibration_report_def ds5_request_def)
  ultimately show ?thesis by blast
qed

theorem ds5_handshake_witness:
  "\<exists>s1 s2 s3. ds5_feature DS5_EDGE_PID [9] uni_hid_parser_ds5_setup = Some (s1, False) \<and>
     ds5_feature DS5_EDGE_PID (0x20 # replicate 63 0) s1 = Some (s2, False) \<and>
     ds5_feature DS5_EDGE_PID (5 # replicate 40 0) s2 = Some (s3, True) \<and> use_vibration2 s3"
  using ds5_handshake [of "[9]" "0x20 # replicate 63 0" "5 # replicate 40 0" DS5_EDGE_PID]
  by (auto simp: DS5_FEATURE_REPORT_PAIRING_INFO_def DS5_FEATURE_REPORT_FIRMWARE_VERSION_def
      DS5_FEATURE_REPORT_CALIBRATION_def)

text \<open>
  Until the handshake is over a DualSense has no say: in any state that is not ready, an
  input report of any content leaves the cleared gamepad, and a step that makes the driver ready is
  the arrival of a calibration report.
\<close>

theorem ds5_gate:
  assumes "ds5_state s \<noteq> Ds5_Ready" "unat len \<le> length i" "ds5_step e s = Some s'" "ds5_state s' = Ds5_Ready"
  shows "ds5_report s i len c t = Some (ds4_init_report c t) \<and>
    (\<exists>pid r. e = Ds5_Feature pid r \<and> r ! 0 = DS5_FEATURE_REPORT_CALIBRATION \<and> 35 \<le> length r)"
  using assms(1,2) ds5_made_ready [OF assms(3,4,1)]
  by (simp add: ds5_report_def uni_hid_parser_ds5_parse_input_report_def split: prod.splits)

theorem ds5_gate_witness:
  "ds5_report uni_hid_parser_ds5_setup (0x31 # replicate 77 0) 78 (ctl device_zero) None =
    Some (ds4_init_report (ctl device_zero) None)"
proof -
  let ?r = "5 # replicate 40 0 :: u8 list"
  have s: "ds5_step (Ds5_Feature 0 ?r) uni_hid_parser_ds5_setup =
      Some (ds5_enable_lightbar (ds5_calibration ?r uni_hid_parser_ds5_setup))"
    by (simp add: ds5_step_def ds5_feature_def read_at_def DS5_FEATURE_REPORT_PAIRING_INFO_def
        DS5_FEATURE_REPORT_FIRMWARE_VERSION_def DS5_FEATURE_REPORT_CALIBRATION_def)
  have i: "ds5_state uni_hid_parser_ds5_setup \<noteq> Ds5_Ready"
    by (simp add: uni_hid_parser_ds5_setup_def ds5_request_pairing_info_report_def ds5_request_def)
  show ?thesis using ds5_gate [OF i _ s, of 78 "0x31 # replicate 77 0"] by (simp add: ds5_enable_lightbar_def)
qed

text \<open>
  The force feedback effect for an adaptive trigger, read back zone by zone: for
  every admitted position and strength, exactly the zones from the position on are active, each with
  the strength less one in its three bits.  Strength zero, which is admitted as the weakest, is
  encoded as the strongest.
\<close>

theorem trigger_zones_exact:
  assumes "position \<le> 9" "strength \<le> 8"
  shows "\<exists>d. ds5_new_adaptive_trigger_effect_feedback position strength = Effect 0x21 d \<and> length d = 10 \<and>
    (\<forall>i < 10. (zone_active d i \<longleftrightarrow> unat position \<le> i) \<and>
      zone_force d i = (if unat position \<le> i then (if strength = 0 then 7 else ucast strength - 1) else 0))"
proof -
  let ?f = "(strength - 1) AND 7"
  let ?d = "zone_bytes (trigger_zones position ?f) @ replicate 4 0"
  have "ds5_new_adaptive_trigger_effect_feedback position strength = Effect 0x21 ?d" "length ?d = 10"
    using assms by (simp_all add: ds5_new_adaptive_trigger_effect_feedback_def zone_bytes_def not_less)
  moreover have "zone_active ?d i \<longleftrightarrow> unat position \<le> i"
    "zone_force ?d i = (if unat position \<le> i then (if strength = 0 then 7 else ucast strength - 1) else 0)"
    if "i < 10" for i
    using zones_read_back [OF force_bits(1) [OF assms(2)] that, where position = position and r = "replicate 4 0"] force_bits(2) [OF assms(2)]
    by simp_all
  ultimately show ?thesis by blast
qed

theorem trigger_zones_exact_witness:
  "\<exists>d. ds5_new_adaptive_trigger_effect_feedback 4 0 = Effect 0x21 d \<and> zone_force d 5 = 7 \<and> \<not> zone_active d 3"
  using trigger_zones_exact [of 4 0] by auto

end
