(* ===== verification/Raw_Pads.thy ===== *)
theory Raw_Pads
  imports Dualshock
begin

text \<open>
  Three more drivers that read raw reports: the Atari joystick (parser/uni_hid_parser_atari.c), the
  DualShock 3 (uni_hid_parser_ds3.c) and the PlayStation Move (uni_hid_parser_psmove.c).  The
  conventions are those of theory \<open>Dualshock\<close>.  The last two share a rumble machine that differs from
  that of theory \<open>Rumble\<close>: a stop is obeyed only while the motors run.  The locale \<open>quiet_driver\<close>
  states it and what follows from it, good and bad.
\<close>

definition clear_pad :: "controller \<Rightarrow> controller" where
  "clear_pad c = c\<lparr>klass := Class_Gamepad, gamepad := gamepad_zero, battery := 0\<rparr>"

section \<open>The rumble machine\<close>

definition quiet_stop_now :: "'a rumble_scheme \<Rightarrow> 'a rumble_scheme option" where
  "quiet_stop_now r = (if rumble_state r \<noteq> Rumble_In_Progress then None else Some (r\<lparr>rumble_state := Rumble_Disabled\<rparr>))"

definition quiet_play_now :: "u16 \<Rightarrow> 'a rumble_scheme \<Rightarrow> 'a rumble_scheme option" where
  "quiet_play_now dur r =
     (if dur = 0 then (if rumble_state r = Rumble_In_Progress then quiet_stop_now r else Some r)
      else add_duration dur r)"

definition quiet_play :: "u16 \<Rightarrow> u16 \<Rightarrow> 'a rumble_scheme \<Rightarrow> 'a rumble_scheme option" where
  "quiet_play delay dur r =
     (if delay = 0 then quiet_play_now dur (remove_timers r)
      else add_delayed delay ((remove_timers r)\<lparr>rumble_duration_ms := dur\<rparr>))"

definition quiet_on :: "'a rumble_scheme \<Rightarrow> 'a rumble_scheme option" where
  "quiet_on r = quiet_play_now (rumble_duration_ms r) (r\<lparr>timer_delayed_start := None\<rparr>)"

definition quiet_off :: "'a rumble_scheme \<Rightarrow> 'a rumble_scheme option" where
  "quiet_off r = quiet_stop_now (r\<lparr>timer_duration := None\<rparr>)"

lemmas quiet_defs = quiet_play_def quiet_on_def quiet_off_def quiet_play_now_def quiet_stop_now_def
  add_delayed_def add_duration_def remove_timers_def

text \<open>The timer that stops the motors is armed exactly while the machine says they run.\<close>

definition timers_quiet :: "'a rumble_scheme \<Rightarrow> bool" where
  "timers_quiet r \<longleftrightarrow> (timer_delayed_start r \<noteq> None \<longrightarrow> rumble_state r = Rumble_Delayed) \<and>
     (timer_duration r \<noteq> None \<longleftrightarrow> rumble_state r = Rumble_In_Progress)"

lemma quiet_play_ok: "timers_quiet r \<Longrightarrow> \<exists>r'. quiet_play delay dur r = Some r' \<and> timers_quiet r'"
  by (cases "rumble_state r") (auto simp: quiet_defs timers_quiet_def)

lemma quiet_on_ok: "timers_quiet r \<Longrightarrow> timer_delayed_start r \<noteq> None \<Longrightarrow> \<exists>r'. quiet_on r = Some r' \<and> timers_quiet r'"
  by (auto simp: quiet_defs timers_quiet_def)

lemma quiet_off_ok: "timers_quiet r \<Longrightarrow> timer_duration r \<noteq> None \<Longrightarrow> \<exists>r'. quiet_off r = Some r' \<and> timers_quiet r'"
  by (auto simp: quiet_defs timers_quiet_def)

locale quiet_driver =
  fixes play :: "u16 \<Rightarrow> u16 \<Rightarrow> 'arg \<Rightarrow> 's \<Rightarrow> 's option"
    and on :: "'s \<Rightarrow> 's option"
    and off :: "'s \<Rightarrow> 's option"
    and timers :: "'s \<Rightarrow> rumble"
    and sent :: "'s \<Rightarrow> 'm list"
  assumes play_refines: "map_option timers (play delay dur arg s) = quiet_play delay dur (timers s)"
    and on_refines: "map_option timers (on s) = quiet_on (timers s)"
    and off_refines: "map_option timers (off s) = quiet_off (timers s)"
    and delay_silent: "delay \<noteq> 0 \<Longrightarrow> play delay dur arg s = Some s' \<Longrightarrow> sent s' = sent s"
    and stop_silent: "rumble_state (timers s) \<noteq> Rumble_In_Progress \<Longrightarrow> play 0 0 arg s = Some s' \<Longrightarrow> sent s' = sent s"
begin

lemma play_ok: "timers_quiet (timers s) \<Longrightarrow> \<exists>s'. play delay dur arg s = Some s' \<and> timers_quiet (timers s')"
  using quiet_play_ok [of "timers s" delay dur] play_refines [of delay dur arg s] by auto

lemma on_ok:
  "timers_quiet (timers s) \<Longrightarrow> timer_delayed_start (timers s) \<noteq> None \<Longrightarrow> \<exists>s'. on s = Some s' \<and> timers_quiet (timers s')"
  using quiet_on_ok [of "timers s"] on_refines [of s] by auto

lemma off_ok:
  "timers_quiet (timers s) \<Longrightarrow> timer_duration (timers s) \<noteq> None \<Longrightarrow> \<exists>s'. off s = Some s' \<and> timers_quiet (timers s')"
  using quiet_off_ok [of "timers s"] off_refines [of s] by auto

text \<open>
  Motors that run when a delayed rumble is asked for are not stopped by a stop before the delay is
  over: nothing is sent, and no timer is left that would.
\<close>

lemma stop_ignored:
  assumes "timers_quiet (timers s)" "delay \<noteq> 0"
  shows "\<exists>s1 s2. play delay dur arg s = Some s1 \<and> play 0 0 arg' s1 = Some s2 \<and> sent s2 = sent s \<and>
    timer_delayed_start (timers s2) = None \<and> timer_duration (timers s2) = None"
proof -
  obtain s1 where s1: "play delay dur arg s = Some s1" "timers_quiet (timers s1)"
    using play_ok [OF assms(1)] by blast
  have d: "rumble_state (timers s1) = Rumble_Delayed"
    using play_refines [of delay dur arg s] s1(1) assms(2) by (auto simp: quiet_play_def add_delayed_def split: if_splits)
  obtain s2 where s2: "play 0 0 arg' s1 = Some s2" "timers_quiet (timers s2)"
    using play_ok [OF s1(2)] by blast
  have t: "timer_delayed_start (timers s2) = None" "timer_duration (timers s2) = None"
    using play_refines [of 0 0 arg' s1] s2(1) s1(2) d
    by (auto simp: quiet_play_def quiet_play_now_def remove_timers_def timers_quiet_def)
  show ?thesis
    using s1(1) s2(1) t delay_silent [OF assms(2) s1(1)] stop_silent [of s1 arg' s2] d by auto
qed

end

section \<open>Atari\<close>

definition dpad_map :: "u8 list" where
  "dpad_map = [0, DPAD_UP, DPAD_UP OR DPAD_RIGHT, DPAD_RIGHT, DPAD_DOWN OR DPAD_RIGHT, DPAD_DOWN,
     DPAD_DOWN OR DPAD_LEFT, DPAD_LEFT, DPAD_UP OR DPAD_LEFT]"

definition atari_parse_report_id_01 :: "u8 list \<Rightarrow> u16 \<Rightarrow> controller \<Rightarrow> controller option" where
  "atari_parse_report_id_01 r len c =
     (if len \<noteq> 5 then Some c
      else do {
        d \<leftarrow> read_at dpad_map (unat (drop_bit 4 (r ! 2)));
        let gp = gamepad c;
        Some (c\<lparr>gamepad := gp\<lparr>
          buttons := buttons gp OR flag_if (r ! 1) 1 BUTTON_A OR flag_if (r ! 1) 2 BUTTON_B,
          misc_buttons := misc_buttons gp OR flag_if (r ! 2) 1 MISC_BUTTON_SYSTEM OR
            flag_if (r ! 2) 2 MISC_BUTTON_SELECT OR flag_if (r ! 2) 4 MISC_BUTTON_START,
          dpad := d, gp_throttle := uint (le16 r 3 AND 0x3ff)\<rparr>\<rparr>)
      })"

text \<open>The reports 2 and 3 are only logged.\<close>

definition uni_hid_parser_atari_parse_input_report :: "u8 list \<Rightarrow> u16 \<Rightarrow> controller \<Rightarrow> controller option" where
  "uni_hid_parser_atari_parse_input_report report len c =
     (if length report < unat len then None
      else do {
        id \<leftarrow> read_at report 0;
        if id = 0x01 then atari_parse_report_id_01 report len c else Some c
      })"

definition uni_hid_parser_atari_setup :: "(u16 \<Rightarrow> gap_type) \<Rightarrow> bool \<Rightarrow> nat \<Rightarrow> bt_world \<Rightarrow> (bt_world \<times> bool) option" where
  "uni_hid_parser_atari_setup gap accept i w = uni_hid_device_set_ready_complete gap accept i w"

section \<open>DualShock 3\<close>

definition DUALSHOCK3_VID :: u16 where "DUALSHOCK3_VID = 0x054c"
definition DUALSHOCK3_PID :: u16 where "DUALSHOCK3_PID = 0x0268"

datatype ds3_fsm = Ds3_Fsm_0 | Ds3_Requires_Led_Update | Ds3_Led_Updated

record ds3_instance = rumble +
  ds3_state :: ds3_fsm
  ds3_player_leds :: u8
  clone_controller :: bool
  ds3_weak :: u16
  ds3_strong :: u16
  ds3_log :: "ds_msg list"

text \<open>The parser data of a new device: the set-up does not clear it again.\<close>

definition ds3_zero :: ds3_instance where
  "ds3_zero = \<lparr>rumble_state = Rumble_Disabled, timer_delayed_start = None, timer_duration = None,
     rumble_duration_ms = 0, ds3_state = Ds3_Fsm_0, ds3_player_leds = 0, clone_controller = False,
     ds3_weak = 0, ds3_strong = 0, ds3_log = []\<rparr>"

text \<open>The report: whether the small motor runs, the force of the big one, the LEDs.\<close>

definition ds3_led_config :: "u8 list" where
  "ds3_led_config = concat (replicate 4 [0xff, 0x27, 0x10, 0x00, 0x32])"

definition ds3_output_report :: "u8 \<Rightarrow> u8 \<Rightarrow> u8 \<Rightarrow> u8 \<Rightarrow> u8 \<Rightarrow> u8 list" where
  "ds3_output_report right_duration right_enabled left_duration left_force leds =
     [0x52, 0x01, 0, right_duration, right_enabled, left_duration, left_force, 0, 0, 0, 0, leds] @ ds3_led_config @
     replicate 5 0"

definition ds3_send_output_report :: "u8 list \<Rightarrow> ds3_instance \<Rightarrow> ds3_instance" where
  "ds3_send_output_report out s = s\<lparr>ds3_log := ds3_log s @ Ds_Ctrl out #
     (if clone_controller s then [Ds_Intr out] else [])\<rparr>"

definition ds3_update_led :: "u8 \<Rightarrow> ds3_instance \<Rightarrow> ds3_instance" where
  "ds3_update_led leds s =
     ds3_send_output_report (ds3_output_report 0 0 0 0 (push_bit 1 leds)) (s\<lparr>ds3_state := Ds3_Led_Updated\<rparr>)"

definition uni_hid_parser_ds3_set_player_leds :: "u8 \<Rightarrow> ds3_instance \<Rightarrow> ds3_instance" where
  "uni_hid_parser_ds3_set_player_leds leds s =
     (let s = s\<lparr>ds3_player_leds := leds\<rparr> in
      if ds3_state s \<noteq> Ds3_Led_Updated then s\<lparr>ds3_state := Ds3_Requires_Led_Update\<rparr>
      else ds3_update_led leds s)"

definition ds3_stop_rumble_now :: "ds3_instance \<Rightarrow> ds3_instance option" where
  "ds3_stop_rumble_now s =
     (if rumble_state s \<noteq> Rumble_In_Progress then None
      else Some (ds3_send_output_report (ds3_output_report 0 0 0 0 (push_bit 1 (ds3_player_leds s)))
        (s\<lparr>rumble_state := Rumble_Disabled\<rparr>)))"

definition ds3_play_dual_rumble_now :: "u16 \<Rightarrow> u8 \<times> u8 \<Rightarrow> ds3_instance \<Rightarrow> ds3_instance option" where
  "ds3_play_dual_rumble_now duration_ms mags s =
     (if duration_ms = 0 then
        (if rumble_state s = Rumble_In_Progress then ds3_stop_rumble_now s else Some s)
      else add_duration duration_ms (ds3_send_output_report
        (ds3_output_report 0xff (if fst mags \<noteq> 0 then 1 else 0) 0xff (snd mags) (push_bit 1 (ds3_player_leds s))) s))"

definition uni_hid_parser_ds3_play_dual_rumble ::
  "u16 \<Rightarrow> u16 \<Rightarrow> u8 \<times> u8 \<Rightarrow> ds3_instance \<Rightarrow> ds3_instance option" where
  "uni_hid_parser_ds3_play_dual_rumble start_delay_ms duration_ms mags s =
     (let s = remove_timers s in
      if start_delay_ms = 0 then ds3_play_dual_rumble_now duration_ms mags s
      else add_delayed start_delay_ms (s\<lparr>rumble_duration_ms := duration_ms,
        ds3_strong := ucast (snd mags), ds3_weak := ucast (fst mags)\<rparr>))"

definition on_ds3_set_rumble_on :: "ds3_instance \<Rightarrow> ds3_instance option" where
  "on_ds3_set_rumble_on s =
     ds3_play_dual_rumble_now (rumble_duration_ms s) (ucast (ds3_weak s), ucast (ds3_strong s))
       (s\<lparr>timer_delayed_start := None\<rparr>)"

definition on_ds3_set_rumble_off :: "ds3_instance \<Rightarrow> ds3_instance option" where
  "on_ds3_set_rumble_off s = ds3_stop_rumble_now (s\<lparr>timer_duration := None\<rparr>)"

definition uni_hid_parser_ds3_setup ::
  "(u16 \<Rightarrow> gap_type) \<Rightarrow> bool \<Rightarrow> nat \<Rightarrow> bt_world \<times> ds3_instance \<Rightarrow> (bt_world \<times> ds3_instance) option" where
  "uni_hid_parser_ds3_setup gap accept i ws = do {
     let s = (snd ws)\<lparr>ds3_log := ds3_log (snd ws) @ [Ds_Ctrl [0x53, 0xf4, 0x42, 0x03, 0, 0]]\<rparr>;
     (w, ok) \<leftarrow> uni_hid_device_set_ready_complete gap accept i (fst ws);
     Some (w, s)
   }"

text \<open>A name that is not the original's but begins like it marks a clone.\<close>

definition uni_hid_parser_ds3_does_name_match :: "string \<Rightarrow> hid_device \<times> ds3_instance \<Rightarrow> (hid_device \<times> ds3_instance) option" where
  "uni_hid_parser_ds3_does_name_match name ds =
     (let matched = (\<lambda>s. Some (uni_hid_device_set_product_id DUALSHOCK3_PID (uni_hid_device_set_vendor_id DUALSHOCK3_VID (fst ds)), s)) in
      if name = ''Navigation Controller'' then matched (snd ds)
      else if take 15 name = ''PLAYSTATION(R)3'' then
        matched (if name \<noteq> ''PLAYSTATION(R)3 Controller'' then (snd ds)\<lparr>clone_controller := True\<rparr> else snd ds)
      else None)"

text \<open>The battery keeps the cleared value when the status is none of these.\<close>

definition ds3_battery :: "u8 \<Rightarrow> u8" where
  "ds3_battery b = (if b = 1 then 0 else if b = 2 then 64 else if b = 3 then 128 else if b = 4 then 192
     else if b = 5 \<or> b = 0xEE then 255 else 0)"

definition ds3_buttons :: "u8 \<Rightarrow> u8 \<Rightarrow> u16" where
  "ds3_buttons b0 b1 = flag_if b0 0x02 BUTTON_THUMB_L OR flag_if b0 0x04 BUTTON_THUMB_R OR
     flag_if b1 0x01 BUTTON_TRIGGER_L OR flag_if b1 0x02 BUTTON_TRIGGER_R OR flag_if b1 0x04 BUTTON_SHOULDER_L OR
     flag_if b1 0x08 BUTTON_SHOULDER_R OR flag_if b1 0x10 BUTTON_Y OR flag_if b1 0x20 BUTTON_B OR
     flag_if b1 0x40 BUTTON_A OR flag_if b1 0x80 BUTTON_X"

definition ds3_dpad :: "u8 \<Rightarrow> u8" where
  "ds3_dpad b0 = flag_if b0 0x10 DPAD_UP OR flag_if b0 0x20 DPAD_RIGHT OR flag_if b0 0x40 DPAD_DOWN OR
     flag_if b0 0x80 DPAD_LEFT"

definition ds3_misc :: "u8 \<Rightarrow> u8 \<Rightarrow> u8" where
  "ds3_misc b0 b2 = flag_if b0 0x01 MISC_BUTTON_SELECT OR flag_if b0 0x08 MISC_BUTTON_START OR
     flag_if b2 0x01 MISC_BUTTON_SYSTEM"

definition ds3_pad :: "u8 list \<Rightarrow> controller \<Rightarrow> controller option" where
  "ds3_pad r c = do {
     b \<leftarrow> read_at r 30;
     let gp = gamepad c;
     Some (c\<lparr>gamepad := gp\<lparr>axis_x := (uint (r ! 6) - 127) * 4, axis_y := (uint (r ! 7) - 127) * 4,
         axis_rx := (uint (r ! 8) - 127) * 4, axis_ry := (uint (r ! 9) - 127) * 4,
         brake := uint (r ! 18) * 4, gp_throttle := uint (r ! 19) * 4,
         buttons := buttons gp OR ds3_buttons (r ! 2) (r ! 3), dpad := dpad gp OR ds3_dpad (r ! 2),
         misc_buttons := misc_buttons gp OR ds3_misc (r ! 2) (r ! 4)\<rparr>,
       battery := (if ds3_battery b = 0 \<and> b \<noteq> 1 then battery c else ds3_battery b)\<rparr>)
   }"

definition uni_hid_parser_ds3_parse_input_report ::
  "u8 list \<Rightarrow> u16 \<Rightarrow> controller \<times> ds3_instance \<Rightarrow> (controller \<times> ds3_instance) option" where
  "uni_hid_parser_ds3_parse_input_report report len cs =
     (if length report < unat len then None
      else
        let s = (if ds3_state (snd cs) = Ds3_Requires_Led_Update
          then ds3_update_led (ds3_player_leds (snd cs)) (snd cs) else snd cs) in
        if len < 30 then Some (fst cs, s)
        else if report ! 0 \<noteq> 0x01 then Some (fst cs, s)
        else map_option (\<lambda>c. (c, s)) (ds3_pad report (fst cs)))"

section \<open>PlayStation Move\<close>

definition ZCM1_PID :: u16 where "ZCM1_PID = 0x03d5"
definition ZCM2_PID :: u16 where "ZCM2_PID = 0x0c5e"

datatype psmove_model = Psmove_Unk | Psmove_Zcm1 | Psmove_Zcm2

record psmove_instance = rumble +
  psmove_model :: psmove_model
  led_rgb :: "u8 \<times> u8 \<times> u8"
  rumble_magnitude :: u16
  psmove_log :: "u8 list list"

text \<open>The log is of the interrupt channel; the state of the LED is never used.\<close>

definition psmove_zero :: psmove_instance where
  "psmove_zero = \<lparr>rumble_state = Rumble_Disabled, timer_delayed_start = None, timer_duration = None,
     rumble_duration_ms = 0, psmove_model = Psmove_Unk, led_rgb = (0, 0, 0), rumble_magnitude = 0, psmove_log = []\<rparr>"

definition psmove_send_output_report :: "u8 \<times> u8 \<times> u8 \<Rightarrow> u8 \<Rightarrow> psmove_instance \<Rightarrow> psmove_instance" where
  "psmove_send_output_report led motor s = s\<lparr>psmove_log := psmove_log s @
     [[HID_OUTPUT_REPORT, 0x06, 0, fst led, fst (snd led), snd (snd led), 0, motor, 0, 0]]\<rparr>"

definition uni_hid_parser_psmove_set_lightbar_color :: "u8 \<Rightarrow> u8 \<Rightarrow> u8 \<Rightarrow> psmove_instance \<Rightarrow> psmove_instance" where
  "uni_hid_parser_psmove_set_lightbar_color r g b s =
     psmove_send_output_report (r, g, b) (ucast (rumble_magnitude s)) (s\<lparr>led_rgb := (r, g, b)\<rparr>)"

definition psmove_stop_rumble_now :: "psmove_instance \<Rightarrow> psmove_instance option" where
  "psmove_stop_rumble_now s =
     (if rumble_state s \<noteq> Rumble_In_Progress then None
      else Some (psmove_send_output_report (led_rgb s) 0 (s\<lparr>rumble_state := Rumble_Disabled, rumble_magnitude := 0\<rparr>)))"

definition psmove_play_dual_rumble_now :: "u16 \<Rightarrow> u8 \<Rightarrow> psmove_instance \<Rightarrow> psmove_instance option" where
  "psmove_play_dual_rumble_now duration_ms magnitude s =
     (if duration_ms = 0 then
        (if rumble_state s = Rumble_In_Progress then psmove_stop_rumble_now s else Some s)
      else add_duration duration_ms (psmove_send_output_report (led_rgb s) magnitude
        (s\<lparr>rumble_magnitude := ucast magnitude\<rparr>)))"

definition uni_hid_parser_psmove_play_dual_rumble ::
  "u16 \<Rightarrow> u16 \<Rightarrow> u8 \<times> u8 \<Rightarrow> psmove_instance \<Rightarrow> psmove_instance option" where
  "uni_hid_parser_psmove_play_dual_rumble start_delay_ms duration_ms mags s =
     (let magnitude = max (fst mags) (snd mags); s = remove_timers s in
      if start_delay_ms = 0 then psmove_play_dual_rumble_now duration_ms magnitude s
      else add_delayed start_delay_ms (s\<lparr>rumble_duration_ms := duration_ms, rumble_magnitude := ucast magnitude\<rparr>))"

definition on_psmove_set_rumble_on :: "psmove_instance \<Rightarrow> psmove_instance option" where
  "on_psmove_set_rumble_on s =
     psmove_play_dual_rumble_now (rumble_duration_ms s) (ucast (rumble_magnitude s)) (s\<lparr>timer_delayed_start := None\<rparr>)"

definition on_psmove_set_rumble_off :: "psmove_instance \<Rightarrow> psmove_instance option" where
  "on_psmove_set_rumble_off s = psmove_stop_rumble_now (s\<lparr>timer_duration := None\<rparr>)"

definition uni_hid_parser_psmove_setup ::
  "(u16 \<Rightarrow> gap_type) \<Rightarrow> bool \<Rightarrow> nat \<Rightarrow> bt_world \<Rightarrow> (bt_world \<times> psmove_instance) option" where
  "uni_hid_parser_psmove_setup gap accept i w =
     map_option (\<lambda>(w1, ok). (w1, psmove_zero\<lparr>psmove_model :=
         (if product_id (devs w ! i) = ZCM2_PID then Psmove_Zcm2 else Psmove_Zcm1)\<rparr>))
       (uni_hid_device_set_ready_complete gap accept i w)"

definition psmove_buttons :: "u8 \<Rightarrow> u8 \<Rightarrow> u16" where
  "psmove_buttons b1 b2 = flag_if b1 0x01 BUTTON_TRIGGER_L OR flag_if b1 0x02 BUTTON_TRIGGER_R OR
     flag_if b1 0x04 BUTTON_SHOULDER_L OR flag_if b1 0x08 BUTTON_SHOULDER_R OR flag_if b1 0x10 BUTTON_Y OR
     flag_if b1 0x20 BUTTON_B OR flag_if b1 0x40 BUTTON_A OR flag_if b1 0x80 BUTTON_X OR
     flag_if b2 0x08 BUTTON_THUMB_R OR flag_if b2 0x10 BUTTON_TRIGGER_R"

text \<open>The motion values are stored without a sign.\<close>

definition psmove_pad :: "u8 list \<Rightarrow> controller \<Rightarrow> controller" where
  "psmove_pad r c = (let gp = gamepad c in c\<lparr>gamepad := gp\<lparr>
       buttons := buttons gp OR psmove_buttons (r ! 2) (r ! 3),
       misc_buttons := misc_buttons gp OR ds3_misc (r ! 1) (r ! 3), gp_throttle := uint (r ! 5) * 4,
       accel := [uint (le16 r 13), uint (le16 r 15), uint (le16 r 17)],
       gyro := [uint (le16 r 25), uint (le16 r 27), uint (le16 r 29)]\<rparr>,
     battery := (if r ! 12 \<le> 5 then r ! 12 * 51 else battery c)\<rparr>)"

definition uni_hid_parser_psmove_parse_input_report :: "u8 list \<Rightarrow> u16 \<Rightarrow> controller \<Rightarrow> controller option" where
  "uni_hid_parser_psmove_parse_input_report report len c =
     (if length report < unat len then None
      else if len < 39 then Some c
      else if report ! 0 \<noteq> 0x01 then Some c
      else Some (psmove_pad report c))"

text \<open>What \<open>uni_hid_parse_input_report\<close> does with a pad of these drivers.\<close>

definition atari_report :: "u8 list \<Rightarrow> u16 \<Rightarrow> controller \<Rightarrow> controller option" where
  "atari_report r len c = uni_hid_parser_atari_parse_input_report r len (clear_pad c)"

definition ds3_report :: "u8 list \<Rightarrow> u16 \<Rightarrow> controller \<times> ds3_instance \<Rightarrow> (controller \<times> ds3_instance) option" where
  "ds3_report r len cs = uni_hid_parser_ds3_parse_input_report r len (clear_pad (fst cs), snd cs)"

definition psmove_report :: "u8 list \<Rightarrow> u16 \<Rightarrow> controller \<Rightarrow> controller option" where
  "psmove_report r len c = uni_hid_parser_psmove_parse_input_report r len (clear_pad c)"

section \<open>The drivers refine the machine\<close>

lemma ds3_truncate [simp]:
  "rumble.truncate (s\<lparr>ds3_log := l\<rparr>) = rumble.truncate s" "rumble.truncate (s\<lparr>ds3_weak := m\<rparr>) = rumble.truncate s"
  "rumble.truncate (s\<lparr>ds3_strong := m\<rparr>) = rumble.truncate s" "rumble.truncate (s\<lparr>ds3_state := f\<rparr>) = rumble.truncate s"
  "rumble.truncate (s\<lparr>ds3_player_leds := k\<rparr>) = rumble.truncate s"
  "rumble.truncate (ds3_send_output_report out s) = rumble.truncate s"
  by (simp_all add: rumble.truncate_def ds3_send_output_report_def)

lemma psmove_truncate [simp]:
  "rumble.truncate (s\<lparr>psmove_log := l\<rparr>) = rumble.truncate s" "rumble.truncate (s\<lparr>rumble_magnitude := m\<rparr>) = rumble.truncate s"
  "rumble.truncate (s\<lparr>led_rgb := k\<rparr>) = rumble.truncate s"
  "rumble.truncate (psmove_send_output_report led f s) = rumble.truncate s"
  by (simp_all add: rumble.truncate_def psmove_send_output_report_def)

lemma ds3_stop: "map_option rumble.truncate (ds3_stop_rumble_now s) = quiet_stop_now (rumble.truncate s)"
  by (simp add: ds3_stop_rumble_now_def quiet_stop_now_def rumble_truncate)

lemma ds3_play: "map_option rumble.truncate (ds3_play_dual_rumble_now dur mags s) = quiet_play_now dur (rumble.truncate s)"
  by (simp add: ds3_play_dual_rumble_now_def quiet_play_now_def truncate_add ds3_stop rumble_truncate)

lemma psmove_stop: "map_option rumble.truncate (psmove_stop_rumble_now s) = quiet_stop_now (rumble.truncate s)"
  by (simp add: psmove_stop_rumble_now_def quiet_stop_now_def rumble_truncate)

lemma psmove_play: "map_option rumble.truncate (psmove_play_dual_rumble_now dur m s) = quiet_play_now dur (rumble.truncate s)"
  by (simp add: psmove_play_dual_rumble_now_def quiet_play_now_def truncate_add psmove_stop rumble_truncate)

lemma remove_keeps [simp]:
  "ds3_log (remove_timers s) = ds3_log s" "rumble_state (remove_timers r) = rumble_state r"
  "psmove_log (remove_timers p) = psmove_log p" "ds3_player_leds (remove_timers s) = ds3_player_leds s"
  "clone_controller (remove_timers s) = clone_controller s"
  by (simp_all add: remove_timers_def split: rumble_state.splits)

lemma add_keeps:
  "add_delayed ms s = Some s' \<Longrightarrow> ds3_log s' = ds3_log s" "add_duration ms s = Some s' \<Longrightarrow> ds3_log s' = ds3_log s"
  "add_delayed ms p = Some p' \<Longrightarrow> psmove_log p' = psmove_log p" "add_duration ms p = Some p' \<Longrightarrow> psmove_log p' = psmove_log p"
  "add_delayed ms r = Some r' \<Longrightarrow> rumble_state r' = Rumble_Delayed"
  "add_duration ms r = Some r' \<Longrightarrow> rumble_state r' = Rumble_In_Progress"
  by (auto simp: add_delayed_def add_duration_def split: if_splits)

interpretation ds3: quiet_driver uni_hid_parser_ds3_play_dual_rumble on_ds3_set_rumble_on on_ds3_set_rumble_off
  rumble.truncate ds3_log
proof unfold_locales
  show "map_option rumble.truncate (uni_hid_parser_ds3_play_dual_rumble delay dur mags s) =
      quiet_play delay dur (rumble.truncate s)" for delay dur mags s
    by (simp add: uni_hid_parser_ds3_play_dual_rumble_def quiet_play_def Let_def truncate_add ds3_play truncate_remove
        rumble_truncate)
  show "map_option rumble.truncate (on_ds3_set_rumble_on s) = quiet_on (rumble.truncate s)" for s
    by (simp add: on_ds3_set_rumble_on_def quiet_on_def ds3_play rumble_truncate)
  show "map_option rumble.truncate (on_ds3_set_rumble_off s) = quiet_off (rumble.truncate s)" for s
    by (simp add: on_ds3_set_rumble_off_def quiet_off_def ds3_stop rumble_truncate)
qed (auto simp: uni_hid_parser_ds3_play_dual_rumble_def Let_def ds3_play_dual_rumble_now_def rumble_truncate
    dest: add_keeps(1))

interpretation psmove: quiet_driver uni_hid_parser_psmove_play_dual_rumble on_psmove_set_rumble_on
  on_psmove_set_rumble_off rumble.truncate psmove_log
proof unfold_locales
  show "map_option rumble.truncate (uni_hid_parser_psmove_play_dual_rumble delay dur mags s) =
      quiet_play delay dur (rumble.truncate s)" for delay dur mags s
    by (simp add: uni_hid_parser_psmove_play_dual_rumble_def quiet_play_def Let_def truncate_add psmove_play
        truncate_remove rumble_truncate)
  show "map_option rumble.truncate (on_psmove_set_rumble_on s) = quiet_on (rumble.truncate s)" for s
    by (simp add: on_psmove_set_rumble_on_def quiet_on_def psmove_play rumble_truncate)
  show "map_option rumble.truncate (on_psmove_set_rumble_off s) = quiet_off (rumble.truncate s)" for s
    by (simp add: on_psmove_set_rumble_off_def quiet_off_def psmove_stop rumble_truncate)
qed (auto simp: uni_hid_parser_psmove_play_dual_rumble_def Let_def psmove_play_dual_rumble_now_def rumble_truncate
    dest: add_keeps(3))

lemma quiet_truncate: "timers_quiet (rumble.truncate s) = timers_quiet s"
  by (simp add: timers_quiet_def rumble_truncate)

section \<open>Runs of the drivers\<close>

datatype ds3_event = Ds3_Leds u8 | Ds3_Report "u8 list" u16 | Ds3_Play u16 u16 "u8 \<times> u8" | Ds3_On | Ds3_Off

definition ds3_step :: "ds3_event \<Rightarrow> ds3_instance \<Rightarrow> ds3_instance option" where
  "ds3_step e s = (case e of
     Ds3_Leds k \<Rightarrow> Some (uni_hid_parser_ds3_set_player_leds k s)
   | Ds3_Report r len \<Rightarrow> map_option snd (ds3_report r len (ctl device_zero, s))
   | Ds3_Play delay dur mags \<Rightarrow> uni_hid_parser_ds3_play_dual_rumble delay dur mags s
   | Ds3_On \<Rightarrow> if timer_delayed_start s = None then Some s else on_ds3_set_rumble_on s
   | Ds3_Off \<Rightarrow> if timer_duration s = None then Some s else on_ds3_set_rumble_off s)"

definition ds3_start :: "bool \<Rightarrow> ds3_instance" where
  "ds3_start clone = ds3_zero\<lparr>clone_controller := clone, ds3_log := [Ds_Ctrl [0x53, 0xf4, 0x42, 0x03, 0, 0]]\<rparr>"

inductive ds3_reach :: "ds3_instance \<Rightarrow> bool" where
  ds3_setup: "ds3_reach (ds3_start clone)"
| ds3_event: "ds3_reach s \<Longrightarrow> ds3_step e s = Some s' \<Longrightarrow> ds3_reach s'"

text \<open>Whether the last message on the wire lets a motor run.\<close>

definition motors_on :: "ds_msg \<Rightarrow> bool" where
  "motors_on m = (case m of Ds_Ctrl f \<Rightarrow> f ! 0 = 0x52 \<and> (f ! 4 \<noteq> 0 \<or> f ! 6 \<noteq> 0)
     | Ds_Intr f \<Rightarrow> f ! 0 = 0x52 \<and> (f ! 4 \<noteq> 0 \<or> f ! 6 \<noteq> 0))"

definition ds3_motors :: "ds3_instance \<Rightarrow> bool" where
  "ds3_motors s \<longleftrightarrow> ds3_log s \<noteq> [] \<and> motors_on (last (ds3_log s))"

lemma ds3_motors_send:
  "ds3_motors (ds3_send_output_report (ds3_output_report a b c d leds) s) \<longleftrightarrow> b \<noteq> 0 \<or> d \<noteq> 0"
  by (simp add: ds3_motors_def ds3_send_output_report_def motors_on_def ds3_output_report_def)

definition ds3_inv :: "ds3_instance \<Rightarrow> bool" where
  "ds3_inv s \<longleftrightarrow> timers_quiet s \<and> (ds3_motors s \<longrightarrow> rumble_state s \<noteq> Rumble_Disabled)"

lemma ds3_motors_same: "ds3_log s' = ds3_log s \<Longrightarrow> ds3_motors s' = ds3_motors s"
  by (simp add: ds3_motors_def)

lemma ds3_play_motors:
  assumes "ds3_play_dual_rumble_now dur mags s = Some s'" "ds3_motors s \<longrightarrow> rumble_state s \<noteq> Rumble_Disabled"
  shows "ds3_motors s' \<longrightarrow> rumble_state s' \<noteq> Rumble_Disabled"
  using assms
  by (auto simp: ds3_play_dual_rumble_now_def ds3_stop_rumble_now_def ds3_motors_send dest: add_keeps(6) split: if_splits)

lemma ds3_step_inv:
  assumes "ds3_inv s" "ds3_step e s = Some s'"
  shows "ds3_inv s'"
proof -
  have q: "timers_quiet (rumble.truncate s)" using assms(1) by (simp add: ds3_inv_def quiet_truncate)
  have led: "ds3_inv (ds3_update_led k s)" "ds3_inv (s\<lparr>ds3_player_leds := k, ds3_state := f\<rparr>)"
    "ds3_inv (ds3_update_led k (s\<lparr>ds3_player_leds := k\<rparr>))" for k f
    using assms(1)
    by (auto simp: ds3_inv_def ds3_update_led_def ds3_motors_send timers_quiet_def ds3_send_output_report_def ds3_motors_def
        motors_on_def ds3_output_report_def)
  show ?thesis
  proof (cases e)
    case (Ds3_Leds k)
    then show ?thesis using assms(2) led
      by (auto simp: ds3_step_def uni_hid_parser_ds3_set_player_leds_def Let_def)
  next
    case (Ds3_Report r len)
    then show ?thesis using assms led(1)
      by (auto simp: ds3_step_def ds3_report_def uni_hid_parser_ds3_parse_input_report_def Let_def split: if_splits)
  next
    case (Ds3_Play delay dur mags)
    then have p: "uni_hid_parser_ds3_play_dual_rumble delay dur mags s = Some s'" using assms(2) by (simp add: ds3_step_def)
    have m: "ds3_motors (remove_timers s) \<longrightarrow> rumble_state (remove_timers s) \<noteq> Rumble_Disabled"
      using assms(1) by (simp add: ds3_inv_def ds3_motors_def)
    have "ds3_motors s' \<longrightarrow> rumble_state s' \<noteq> Rumble_Disabled"
      using p ds3_play_motors [OF _ m]
      by (auto simp: uni_hid_parser_ds3_play_dual_rumble_def Let_def dest: add_keeps(5) split: if_splits)
    then show ?thesis using ds3.play_ok [OF q, of delay dur mags] p by (auto simp: ds3_inv_def quiet_truncate)
  next
    case Ds3_On
    show ?thesis
    proof (cases "timer_delayed_start s")
      case None
      then show ?thesis using Ds3_On assms by (simp add: ds3_step_def)
    next
      case (Some ms)
      then have p: "on_ds3_set_rumble_on s = Some s'" using Ds3_On assms(2) by (simp add: ds3_step_def)
      have "ds3_motors s' \<longrightarrow> rumble_state s' \<noteq> Rumble_Disabled"
        using p assms(1) unfolding on_ds3_set_rumble_on_def
        by (elim ds3_play_motors) (simp add: ds3_inv_def ds3_motors_def)
      then show ?thesis using ds3.on_ok [OF q] p Some by (auto simp: ds3_inv_def quiet_truncate rumble_truncate)
    qed
  next
    case Ds3_Off
    show ?thesis
    proof (cases "timer_duration s")
      case None
      then show ?thesis using Ds3_Off assms by (simp add: ds3_step_def)
    next
      case (Some ms)
      then have p: "on_ds3_set_rumble_off s = Some s'" using Ds3_Off assms(2) by (simp add: ds3_step_def)
      then have "\<not> ds3_motors s'"
        by (auto simp: on_ds3_set_rumble_off_def ds3_stop_rumble_now_def ds3_motors_send split: if_splits)
      then show ?thesis using ds3.off_ok [OF q] p Some by (auto simp: ds3_inv_def quiet_truncate rumble_truncate)
    qed
  qed
qed

lemma ds3_reach_inv: "ds3_reach s \<Longrightarrow> ds3_inv s"
proof (induction rule: ds3_reach.induct)
  case (ds3_setup clone)
  then show ?case by (simp add: ds3_inv_def ds3_start_def ds3_zero_def timers_quiet_def ds3_motors_def motors_on_def)
qed (rule ds3_step_inv)

text \<open>The motor byte of the last message.\<close>

definition psmove_motor :: "psmove_instance \<Rightarrow> u8" where
  "psmove_motor s = (if psmove_log s = [] then 0 else last (psmove_log s) ! 7)"

section \<open>Reports\<close>

lemma clear_gamepad [simp]: "gamepad (clear_pad c) = gamepad_zero" "battery (clear_pad c) = 0"
  by (simp_all add: clear_pad_def)

lemma dpad_map_ok: "read_at dpad_map i = Some d \<Longrightarrow> d AND 0xF0 = 0" "read_at dpad_map i = None \<longleftrightarrow> 9 \<le> i"
proof -
  have "list_all (\<lambda>d. d AND 0xF0 = 0) dpad_map" by (simp add: dpad_map_def bit.conj_disj_distrib2)
  then show "read_at dpad_map i = Some d \<Longrightarrow> d AND 0xF0 = 0" by (auto simp: list_all_length)
  show "read_at dpad_map i = None \<longleftrightarrow> 9 \<le> i" by (simp add: dpad_map_def eval_nat_numeral)
qed

lemma raw_bits:
  "ds3_buttons b0 b1 AND 0xFC00 = 0" "ds3_dpad b0 AND 0xF0 = 0" "ds3_misc b0 b2 AND 0xF0 = 0"
  "psmove_buttons b1 b2 AND 0xFC00 = 0"
  by (simp_all add: ds3_buttons_def ds3_dpad_def ds3_misc_def psmove_buttons_def bit.conj_disj_distrib2 flag_if_and)

lemma pad_zero: "pad_ok gamepad_zero"
  by (simp add: pad_ok_def gamepad_ok_def bits_ok_def gamepad_zero_def stick_ok_def)

lemma atari_report_ok:
  assumes "atari_report r len c = Some c'"
  shows "pad_ok (gamepad c')"
  using assms pad_zero
  by (auto simp: atari_report_def uni_hid_parser_atari_parse_input_report_def atari_parse_report_id_01_def Let_def
      bind_eq_Some_conv pad_ok_def gamepad_ok_def bits_ok_def gamepad_zero_def bit.conj_disj_distrib2 flag_if_and
      simp del: read_at_Some dest: dpad_map_ok(1) split: if_splits)

lemma ds3_report_ok:
  assumes "ds3_report r len (c, s) = Some (c', s')"
  shows "pad_ok (gamepad c')"
  using assms pad_zero
  by (auto simp: ds3_report_def uni_hid_parser_ds3_parse_input_report_def ds3_pad_def Let_def
      bind_eq_Some_conv pad_ok_def gamepad_ok_def bits_ok_def gamepad_zero_def raw_bits sony_stick_dist split: if_splits)

lemma psmove_report_ok:
  assumes "psmove_report r len c = Some c'"
  shows "pad_ok (gamepad c')"
  using assms pad_zero
  by (auto simp: psmove_report_def uni_hid_parser_psmove_parse_input_report_def psmove_pad_def Let_def
      pad_ok_def gamepad_ok_def bits_ok_def gamepad_zero_def raw_bits split: if_splits)

section \<open>Properties\<close>

text \<open>
  The reports of an Atari joystick, any bytes at all, that the parser reads out of the
  bounds of its direction table: exactly the five byte ones whose direction is 9 or more, which the
  device decides.  Every other report gives a gamepad the flight code admits.
\<close>

theorem atari_dpad_overrun:
  assumes "unat len \<le> length r" "r \<noteq> []"
  shows "(atari_report r len c = None \<longleftrightarrow> r ! 0 = 1 \<and> len = 5 \<and> 9 \<le> unat (drop_bit 4 (r ! 2))) \<and>
    (\<forall>c'. atari_report r len c = Some c' \<longrightarrow> bits_ok (gamepad c') \<and> event_ok (Ev_Data (gamepad c')))"
proof -
  have "atari_report r len c = None \<longleftrightarrow> r ! 0 = 1 \<and> len = 5 \<and> 9 \<le> unat (drop_bit 4 (r ! 2))"
    using assms
    by (simp add: atari_report_def uni_hid_parser_atari_parse_input_report_def atari_parse_report_id_01_def read_at_def
        dpad_map_ok(2) [unfolded read_at_def] dpad_map_def Let_def not_less)
  then show ?thesis using atari_report_ok [of r len c] by (auto simp: pad_ok_def event_ok_def)
qed

theorem atari_dpad_overrun_witness:
  "atari_report [1, 0, 0x90, 0xff, 3] 5 (ctl device_zero) = None"
  using atari_dpad_overrun [of 5 "[1, 0, 0x90, 0xff, 3]" "ctl device_zero"] by simp

text \<open>
  The length check of the DualShock 3 is one byte short of what the parser reads: a
  report of exactly 30 bytes is read beyond its end, for the battery, and no other report is.  All
  others give a gamepad the flight code admits.
\<close>

theorem ds3_short_report:
  assumes "unat len = length r"
  shows "(ds3_report r len (c, s) = None \<longleftrightarrow> length r = 30 \<and> r ! 0 = 1) \<and>
    (\<forall>c' s'. ds3_report r len (c, s) = Some (c', s') \<longrightarrow> bits_ok (gamepad c') \<and> event_ok (Ev_Data (gamepad c')))"
proof -
  have "len < 30 \<longleftrightarrow> length r < 30" using assms by (simp add: word_less_nat_alt)
  then have "ds3_report r len (c, s) = None \<longleftrightarrow> length r = 30 \<and> r ! 0 = 1"
    using assms
    by (auto simp: ds3_report_def uni_hid_parser_ds3_parse_input_report_def ds3_pad_def Let_def read_at_def)
  then show ?thesis using ds3_report_ok [of r len c s] by (auto simp: pad_ok_def event_ok_def)
qed

theorem ds3_short_report_witness:
  "ds3_report (1 # replicate 29 0) 30 (ctl device_zero, ds3_zero) = None"
  using ds3_short_report [of 30 "1 # replicate 29 0" "ctl device_zero" ds3_zero] by simp

text \<open>
  In every state a DualShock 3 driver reaches, whatever it is asked and whatever the pad
  sends, no request and no timer fails an assertion or arms a timer twice, and motors that the last
  message lets run have their stop timer armed, or a delayed rumble has been asked for since.
\<close>

theorem ds3_motors_timed:
  assumes "ds3_reach s"
  shows "(\<exists>s'. uni_hid_parser_ds3_play_dual_rumble delay dur mags s = Some s') \<and>
    (timer_delayed_start s \<noteq> None \<longrightarrow> (\<exists>s'. on_ds3_set_rumble_on s = Some s')) \<and>
    (timer_duration s \<noteq> None \<longrightarrow> (\<exists>s'. on_ds3_set_rumble_off s = Some s' \<and> \<not> ds3_motors s')) \<and>
    (ds3_motors s \<longrightarrow> timer_duration s \<noteq> None \<or> rumble_state s = Rumble_Delayed)"
proof -
  have i: "ds3_inv s" by (rule ds3_reach_inv [OF assms])
  then have q: "timers_quiet (rumble.truncate s)" by (simp add: ds3_inv_def quiet_truncate)
  have "\<not> ds3_motors s'" if "on_ds3_set_rumble_off s = Some s'" for s'
    using that by (auto simp: on_ds3_set_rumble_off_def ds3_stop_rumble_now_def ds3_motors_send split: if_splits)
  then show ?thesis
    using ds3.play_ok [OF q, of delay dur mags] ds3.on_ok [OF q] ds3.off_ok [OF q] i
    by (cases "rumble_state s") (auto simp: rumble_truncate ds3_inv_def timers_quiet_def)
qed

theorem ds3_motors_timed_witness:
  "\<exists>s. ds3_reach s \<and> ds3_motors s \<and> timer_duration s = Some 500 \<and> (\<exists>s'. on_ds3_set_rumble_off s = Some s' \<and> \<not> ds3_motors s')"
proof -
  obtain s where s: "uni_hid_parser_ds3_play_dual_rumble 0 500 (9, 9) (ds3_start False) = Some s"
    "timer_duration s = Some 500" "ds3_motors s"
    by (simp add: uni_hid_parser_ds3_play_dual_rumble_def ds3_play_dual_rumble_now_def remove_timers_def add_duration_def
        ds3_start_def ds3_zero_def ds3_send_output_report_def ds3_motors_def motors_on_def ds3_output_report_def)
  have r: "ds3_reach s" using ds3_event [OF ds3_setup, of "Ds3_Play 0 500 (9, 9)"] s(1) by (simp add: ds3_step_def)
  with ds3_motors_timed [OF this] s show ?thesis by auto
qed

text \<open>
  A DualShock 3 whose motors run cannot always be stopped.  If a delayed rumble is asked
  for and then, before the delay is over, a stop, nothing is sent and both timers are gone: the
  motors of a reachable state run on, and only a new request will stop them.
\<close>

theorem ds3_stop_ignored:
  assumes "ds3_reach s" "ds3_motors s" "delay \<noteq> 0"
  shows "\<exists>s1 s2. uni_hid_parser_ds3_play_dual_rumble delay dur mags s = Some s1 \<and>
    uni_hid_parser_ds3_play_dual_rumble 0 0 (0, 0) s1 = Some s2 \<and> ds3_reach s2 \<and> ds3_motors s2 \<and>
    timer_delayed_start s2 = None \<and> timer_duration s2 = None \<and>
    (\<forall>e s3. e = Ds3_On \<or> e = Ds3_Off \<longrightarrow> ds3_step e s2 = Some s3 \<longrightarrow> s3 = s2)"
proof -
  have q: "timers_quiet (rumble.truncate s)" using ds3_reach_inv [OF assms(1)] by (simp add: ds3_inv_def quiet_truncate)
  obtain s1 s2 where s: "uni_hid_parser_ds3_play_dual_rumble delay dur mags s = Some s1"
    "uni_hid_parser_ds3_play_dual_rumble 0 0 (0, 0) s1 = Some s2" "ds3_log s2 = ds3_log s"
    "timer_delayed_start s2 = None" "timer_duration s2 = None"
    using ds3.stop_ignored [OF q assms(3), of dur mags "(0, 0)"] by (auto simp: rumble_truncate)
  have "ds3_reach s2"
    using ds3_event [OF ds3_event [OF assms(1), of "Ds3_Play delay dur mags"], of s1 "Ds3_Play 0 0 (0, 0)" s2] s(1,2)
    by (simp add: ds3_step_def)
  with s assms(2) show ?thesis by (auto simp: ds3_motors_def ds3_step_def)
qed

theorem ds3_stop_ignored_witness:
  "\<exists>s. ds3_reach s \<and> ds3_motors s \<and> timer_delayed_start s = None \<and> timer_duration s = None"
proof -
  obtain s where s: "uni_hid_parser_ds3_play_dual_rumble 0 500 (9, 9) (ds3_start False) = Some s" "ds3_motors s"
    by (simp add: uni_hid_parser_ds3_play_dual_rumble_def ds3_play_dual_rumble_now_def remove_timers_def add_duration_def
        ds3_start_def ds3_zero_def ds3_send_output_report_def ds3_motors_def motors_on_def ds3_output_report_def)
  have r: "ds3_reach s" using ds3_event [OF ds3_setup, of "Ds3_Play 0 500 (9, 9)"] s(1) by (simp add: ds3_step_def)
  have "(100 :: u16) \<noteq> 0" by simp
  from ds3_stop_ignored [OF r s(2) this, of 500 "(9, 9)"] show ?thesis by blast
qed

text \<open>
  Setting the light of a PlayStation Move while a delayed rumble is pending starts
  its motor at once, at the strength meant for later; a stop that follows sends nothing and leaves no
  timer, so the motor runs on.
\<close>

theorem psmove_light_runs_motor:
  assumes "timers_quiet s" "delay \<noteq> 0"
  shows "\<exists>s1 s3. uni_hid_parser_psmove_play_dual_rumble delay dur mags s = Some s1 \<and> psmove_log s1 = psmove_log s \<and>
    psmove_motor (uni_hid_parser_psmove_set_lightbar_color r g b s1) = max (fst mags) (snd mags) \<and>
    uni_hid_parser_psmove_play_dual_rumble 0 0 (0, 0) (uni_hid_parser_psmove_set_lightbar_color r g b s1) = Some s3 \<and>
    psmove_motor s3 = max (fst mags) (snd mags) \<and> timer_delayed_start s3 = None \<and> timer_duration s3 = None"
proof -
  have q: "timers_quiet (rumble.truncate s)" using assms(1) by (simp add: quiet_truncate)
  obtain s1 where s1: "uni_hid_parser_psmove_play_dual_rumble delay dur mags s = Some s1" "timers_quiet (rumble.truncate s1)"
    using psmove.play_ok [OF q] by blast
  have d: "rumble_state s1 = Rumble_Delayed" "rumble_magnitude s1 = ucast (max (fst mags) (snd mags))"
    using s1(1) assms(2) by (auto simp: uni_hid_parser_psmove_play_dual_rumble_def Let_def add_delayed_def split: if_splits)
  let ?l = "uni_hid_parser_psmove_set_lightbar_color r g b s1"
  have l: "rumble.truncate ?l = rumble.truncate s1" by (simp add: uni_hid_parser_psmove_set_lightbar_color_def)
  have m: "psmove_motor ?l = max (fst mags) (snd mags)"
    using d(2)
    by (simp add: psmove_motor_def uni_hid_parser_psmove_set_lightbar_color_def psmove_send_output_report_def ucast_u8_u16)
  obtain s3 where s3: "uni_hid_parser_psmove_play_dual_rumble 0 0 (0, 0) ?l = Some s3" "timers_quiet (rumble.truncate s3)"
    using psmove.play_ok [of ?l 0 0 "(0, 0)"] s1(2) l by auto
  have "rumble_state ?l = Rumble_Delayed" using d(1) l by (metis rumble_truncate(1))
  then have "psmove_log s3 = psmove_log ?l" "timer_delayed_start s3 = None" "rumble_state s3 = Rumble_Delayed"
    using s3(1)
    by (auto simp: uni_hid_parser_psmove_play_dual_rumble_def psmove_play_dual_rumble_now_def remove_timers_def Let_def)
  moreover from this have "timer_duration s3 = None" using s3(2) by (simp add: timers_quiet_def rumble_truncate)
  ultimately show ?thesis
    using s1(1) s3(1) m psmove.delay_silent [OF assms(2) s1(1)] by (auto simp: psmove_motor_def)
qed

theorem psmove_light_runs_motor_witness:
  "\<exists>s1 s3. uni_hid_parser_psmove_play_dual_rumble 1000 500 (0, 200) psmove_zero = Some s1 \<and>
     uni_hid_parser_psmove_play_dual_rumble 0 0 (0, 0) (uni_hid_parser_psmove_set_lightbar_color 1 2 3 s1) = Some s3 \<and>
     psmove_motor s3 = 200 \<and> timer_duration s3 = None"
proof -
  have "timers_quiet psmove_zero" by (simp add: timers_quiet_def psmove_zero_def)
  moreover have "(1000 :: u16) \<noteq> 0" by simp
  ultimately show ?thesis
    using psmove_light_runs_motor [of psmove_zero 1000 500 "(0, 200)" 1 2 3] by (auto simp: max_def)
qed

end
