(* ===== verification/Switch_Rumble.thy ===== *)
theory Switch_Rumble
  imports Raw_Pads
begin

text \<open>
  How the Nintendo Switch driver, parser/uni_hid_parser_switch.c, encodes a rumble: the two tables of
  frequencies and amplitudes, the search in them, and the four bytes a motor gets.  What is shown: the
  search is the look-up of the first entry that is large enough, and no byte loses what it packs.
\<close>

text \<open>High word, low byte, frequency in hertz; high byte, low word, amplitude.\<close>

type_synonym rumble_freq_data = "u16 \<times> u8 \<times> u16"
type_synonym rumble_amp_data = "u8 \<times> u16 \<times> u16"

definition rumble_freqs :: "rumble_freq_data list" where
  "rumble_freqs =
    [(0x0000, 0x01, 41), (0x0000, 0x02, 42), (0x0000, 0x03, 43), (0x0000, 0x04, 44), (0x0000, 0x05, 45),
     (0x0000, 0x06, 46), (0x0000, 0x07, 47), (0x0000, 0x08, 48), (0x0000, 0x09, 49), (0x0000, 0x0a, 50),
     (0x0000, 0x0b, 51), (0x0000, 0x0c, 52), (0x0000, 0x0d, 53), (0x0000, 0x0e, 54), (0x0000, 0x0f, 55),
     (0x0000, 0x10, 57), (0x0000, 0x11, 58), (0x0000, 0x12, 59), (0x0000, 0x13, 60), (0x0000, 0x14, 62),
     (0x0000, 0x15, 63), (0x0000, 0x16, 64), (0x0000, 0x17, 66), (0x0000, 0x18, 67), (0x0000, 0x19, 69),
     (0x0000, 0x1a, 70), (0x0000, 0x1b, 72), (0x0000, 0x1c, 73), (0x0000, 0x1d, 75), (0x0000, 0x1e, 77),
     (0x0000, 0x1f, 78), (0x0000, 0x20, 80), (0x0400, 0x21, 82), (0x0800, 0x22, 84), (0x0c00, 0x23, 85),
     (0x1000, 0x24, 87), (0x1400, 0x25, 89), (0x1800, 0x26, 91), (0x1c00, 0x27, 93), (0x2000, 0x28, 95),
     (0x2400, 0x29, 97), (0x2800, 0x2a, 99), (0x2c00, 0x2b, 102), (0x3000, 0x2c, 104), (0x3400, 0x2d, 106),
     (0x3800, 0x2e, 108), (0x3c00, 0x2f, 111), (0x4000, 0x30, 113), (0x4400, 0x31, 116), (0x4800, 0x32, 118),
     (0x4c00, 0x33, 121), (0x5000, 0x34, 123), (0x5400, 0x35, 126), (0x5800, 0x36, 129), (0x5c00, 0x37, 132),
     (0x6000, 0x38, 135), (0x6400, 0x39, 137), (0x6800, 0x3a, 141), (0x6c00, 0x3b, 144), (0x7000, 0x3c, 147),
     (0x7400, 0x3d, 150), (0x7800, 0x3e, 153), (0x7c00, 0x3f, 157), (0x8000, 0x40, 160), (0x8400, 0x41, 164),
     (0x8800, 0x42, 167), (0x8c00, 0x43, 171), (0x9000, 0x44, 174), (0x9400, 0x45, 178), (0x9800, 0x46, 182),
     (0x9c00, 0x47, 186), (0xa000, 0x48, 190), (0xa400, 0x49, 194), (0xa800, 0x4a, 199), (0xac00, 0x4b, 203),
     (0xb000, 0x4c, 207), (0xb400, 0x4d, 212), (0xb800, 0x4e, 217), (0xbc00, 0x4f, 221), (0xc000, 0x50, 226),
     (0xc400, 0x51, 231), (0xc800, 0x52, 236), (0xcc00, 0x53, 241), (0xd000, 0x54, 247), (0xd400, 0x55, 252),
     (0xd800, 0x56, 258), (0xdc00, 0x57, 263), (0xe000, 0x58, 269), (0xe400, 0x59, 275), (0xe800, 0x5a, 281),
     (0xec00, 0x5b, 287), (0xf000, 0x5c, 293), (0xf400, 0x5d, 300), (0xf800, 0x5e, 306), (0xfc00, 0x5f, 313),
     (0x0001, 0x60, 320), (0x0401, 0x61, 327), (0x0801, 0x62, 334), (0x0c01, 0x63, 341), (0x1001, 0x64, 349),
     (0x1401, 0x65, 357), (0x1801, 0x66, 364), (0x1c01, 0x67, 372), (0x2001, 0x68, 381), (0x2401, 0x69, 389),
     (0x2801, 0x6a, 397), (0x2c01, 0x6b, 406), (0x3001, 0x6c, 415), (0x3401, 0x6d, 424), (0x3801, 0x6e, 433),
     (0x3c01, 0x6f, 443), (0x4001, 0x70, 453), (0x4401, 0x71, 462), (0x4801, 0x72, 473), (0x4c01, 0x73, 483),
     (0x5001, 0x74, 494), (0x5401, 0x75, 504), (0x5801, 0x76, 515), (0x5c01, 0x77, 527), (0x6001, 0x78, 538),
     (0x6401, 0x79, 550), (0x6801, 0x7a, 562), (0x6c01, 0x7b, 574), (0x7001, 0x7c, 587), (0x7401, 0x7d, 600),
     (0x7801, 0x7e, 613), (0x7c01, 0x7f, 626), (0x8001, 0x00, 640), (0x8401, 0x00, 654), (0x8801, 0x00, 668),
     (0x8c01, 0x00, 683), (0x9001, 0x00, 698), (0x9401, 0x00, 713), (0x9801, 0x00, 729), (0x9c01, 0x00, 745),
     (0xa001, 0x00, 761), (0xa401, 0x00, 778), (0xa801, 0x00, 795), (0xac01, 0x00, 812), (0xb001, 0x00, 830),
     (0xb401, 0x00, 848), (0xb801, 0x00, 867), (0xbc01, 0x00, 886), (0xc001, 0x00, 905), (0xc401, 0x00, 925),
     (0xc801, 0x00, 945), (0xcc01, 0x00, 966), (0xd001, 0x00, 987), (0xd401, 0x00, 1009), (0xd801, 0x00, 1031),
     (0xdc01, 0x00, 1053), (0xe001, 0x00, 1076), (0xe401, 0x00, 1100), (0xe801, 0x00, 1124),
     (0xec01, 0x00, 1149), (0xf001, 0x00, 1174), (0xf401, 0x00, 1199), (0xf801, 0x00, 1226),
     (0xfc01, 0x00, 1253)]"

definition rumble_amps :: "rumble_amp_data list" where
  "rumble_amps =
    [(0x00, 0x0040, 0), (0x02, 0x8040, 10), (0x04, 0x0041, 12), (0x06, 0x8041, 14), (0x08, 0x0042, 17),
     (0x0a, 0x8042, 20), (0x0c, 0x0043, 24), (0x0e, 0x8043, 28), (0x10, 0x0044, 33), (0x12, 0x8044, 40),
     (0x14, 0x0045, 47), (0x16, 0x8045, 56), (0x18, 0x0046, 67), (0x1a, 0x8046, 80), (0x1c, 0x0047, 95),
     (0x1e, 0x8047, 112), (0x20, 0x0048, 117), (0x22, 0x8048, 123), (0x24, 0x0049, 128), (0x26, 0x8049, 134),
     (0x28, 0x004a, 140), (0x2a, 0x804a, 146), (0x2c, 0x004b, 152), (0x2e, 0x804b, 159), (0x30, 0x004c, 166),
     (0x32, 0x804c, 173), (0x34, 0x004d, 181), (0x36, 0x804d, 189), (0x38, 0x004e, 198), (0x3a, 0x804e, 206),
     (0x3c, 0x004f, 215), (0x3e, 0x804f, 225), (0x40, 0x0050, 230), (0x42, 0x8050, 235), (0x44, 0x0051, 240),
     (0x46, 0x8051, 245), (0x48, 0x0052, 251), (0x4a, 0x8052, 256), (0x4c, 0x0053, 262), (0x4e, 0x8053, 268),
     (0x50, 0x0054, 273), (0x52, 0x8054, 279), (0x54, 0x0055, 286), (0x56, 0x8055, 292), (0x58, 0x0056, 298),
     (0x5a, 0x8056, 305), (0x5c, 0x0057, 311), (0x5e, 0x8057, 318), (0x60, 0x0058, 325), (0x62, 0x8058, 332),
     (0x64, 0x0059, 340), (0x66, 0x8059, 347), (0x68, 0x005a, 355), (0x6a, 0x805a, 362), (0x6c, 0x005b, 370),
     (0x6e, 0x805b, 378), (0x70, 0x005c, 387), (0x72, 0x805c, 395), (0x74, 0x005d, 404), (0x76, 0x805d, 413),
     (0x78, 0x005e, 422), (0x7a, 0x805e, 431), (0x7c, 0x005f, 440), (0x7e, 0x805f, 450), (0x80, 0x0060, 460),
     (0x82, 0x8060, 470), (0x84, 0x0061, 480), (0x86, 0x8061, 491), (0x88, 0x0062, 501), (0x8a, 0x8062, 512),
     (0x8c, 0x0063, 524), (0x8e, 0x8063, 535), (0x90, 0x0064, 547), (0x92, 0x8064, 559), (0x94, 0x0065, 571),
     (0x96, 0x8065, 584), (0x98, 0x0066, 596), (0x9a, 0x8066, 609), (0x9c, 0x0067, 623), (0x9e, 0x8067, 636),
     (0xa0, 0x0068, 650), (0xa2, 0x8068, 665), (0xa4, 0x0069, 679), (0xa6, 0x8069, 694), (0xa8, 0x006a, 709),
     (0xaa, 0x806a, 725), (0xac, 0x006b, 741), (0xae, 0x806b, 757), (0xb0, 0x006c, 773), (0xb2, 0x806c, 790),
     (0xb4, 0x006d, 808), (0xb6, 0x806d, 825), (0xb8, 0x006e, 843), (0xba, 0x806e, 862), (0xbc, 0x006f, 881),
     (0xbe, 0x806f, 900), (0xc0, 0x0070, 920), (0xc2, 0x8070, 940), (0xc4, 0x0071, 960), (0xc6, 0x8071, 981),
     (0xc8, 0x0072, 1003)]"

text \<open>The loop of both searches, over the column \<open>snd \<circ> snd\<close>; it stops at the last entry.\<close>

function find_loop :: "u16 \<Rightarrow> ('a \<times> 'b \<times> u16) list \<Rightarrow> nat \<Rightarrow> nat" where
  "find_loop x t i =
     (if i < length t - 1 then
        (if snd (snd (t ! (i - 1))) < x \<and> x \<le> snd (snd (t ! i)) then i else find_loop x t (Suc i))
      else i)"
  by pat_completeness auto
termination
  by (relation "measure (\<lambda>(x, t, i). length t - i)") auto

declare find_loop.simps [simp del]

definition find_entry :: "u16 \<Rightarrow> ('a \<times> 'b \<times> u16) list \<Rightarrow> 'a \<times> 'b \<times> u16" where
  "find_entry x t = t ! (if snd (snd (t ! 0)) < x then find_loop x t 1 else 0)"

definition find_rumble_freq :: "u16 \<Rightarrow> rumble_freq_data" where
  "find_rumble_freq freq = find_entry freq rumble_freqs"

definition find_rumble_amp :: "u16 \<Rightarrow> rumble_amp_data" where
  "find_rumble_amp amp = find_entry amp rumble_amps"

text \<open>Sums of bytes are stored in bytes.\<close>

definition switch_encode_rumble :: "u16 \<Rightarrow> u16 \<Rightarrow> u16 \<Rightarrow> u8 list" where
  "switch_encode_rumble freq_low freq_high amp =
     (let low = find_rumble_freq freq_low; high = find_rumble_freq freq_high; a = find_rumble_amp amp in
      [ucast (drop_bit 8 (fst high)), ucast (fst high AND 0xFF) + fst a,
       fst (snd low) + ucast (drop_bit 8 (fst (snd a)) AND 0xFF), ucast (fst (snd a) AND 0xFF)])"

section \<open>The search is a look-up\<close>

text \<open>The first entry that is not below \<open>x\<close>, or the last one.\<close>

definition entry_above :: "u16 \<Rightarrow> ('a \<times> 'b \<times> u16) list \<Rightarrow> 'a \<times> 'b \<times> u16" where
  "entry_above x t = (case dropWhile (\<lambda>e. snd (snd e) < x) t of [] \<Rightarrow> last t | e # _ \<Rightarrow> e)"

lemma entry_above_nth:
  assumes "i < length t" "\<And>j. j < i \<Longrightarrow> snd (snd (t ! j)) < x" "x \<le> snd (snd (t ! i)) \<or> i = length t - 1"
  shows "entry_above x t = t ! i"
proof -
  have split: "t = take i t @ t ! i # drop (Suc i) t" using assms(1) by (rule id_take_nth_drop)
  have below: "\<forall>e \<in> set (take i t). snd (snd e) < x" using assms(1,2) by (auto simp: in_set_conv_nth) (metis snd_conv)
  have "dropWhile (\<lambda>e. snd (snd e) < x) t = dropWhile (\<lambda>e. snd (snd e) < x) (t ! i # drop (Suc i) t)"
    by (subst split, rule dropWhile_append2) (use below in auto)
  then show ?thesis
    using assms(1,3) last_conv_nth [of t] by (cases "t = []") (auto simp: entry_above_def not_less split: if_splits)
qed

lemma find_loop_spec:
  assumes "i < length t" "0 < i" "\<And>j. j < i \<Longrightarrow> snd (snd (t ! j)) < x"
  shows "find_loop x t i < length t \<and> (\<forall>j < find_loop x t i. snd (snd (t ! j)) < x) \<and>
    (x \<le> snd (snd (t ! find_loop x t i)) \<or> find_loop x t i = length t - 1)"
  using assms
proof (induction x t i rule: find_loop.induct)
  case (1 x t i)
  show ?case
  proof (cases "i < length t - 1 \<and> snd (snd (t ! i)) < x")
    case True
    then have "find_loop x t i = find_loop x t (Suc i)" by (subst find_loop.simps) auto
    moreover have "snd (snd (t ! j)) < x" if "j < Suc i" for j
      using that True 1(4) by (cases "j = i") auto
    ultimately show ?thesis using 1(1) True 1(2) by (simp add: not_le)
  next
    case False
    then have "find_loop x t i = i" using 1(3,4) by (subst find_loop.simps) (auto simp: not_less)
    then show ?thesis using False 1(2,4) by (auto simp: not_less)
  qed
qed

lemma find_entry_above:
  assumes "2 \<le> length t"
  shows "find_entry x t = entry_above x t"
proof (cases "snd (snd (t ! 0)) < x")
  case True
  have "find_loop x t 1 < length t \<and> (\<forall>j < find_loop x t 1. snd (snd (t ! j)) < x) \<and>
    (x \<le> snd (snd (t ! find_loop x t 1)) \<or> find_loop x t 1 = length t - 1)"
    by (rule find_loop_spec) (use assms True in auto)
  then show ?thesis using entry_above_nth [of "find_loop x t 1" t x] True by (simp add: find_entry_def)
next
  case False
  then have "entry_above x t = t ! 0" using assms by (intro entry_above_nth) (auto simp: not_less)
  then show ?thesis using False by (simp add: find_entry_def)
qed

lemma tables_long: "2 \<le> length rumble_freqs" "2 \<le> length rumble_amps"
  by (simp_all add: rumble_freqs_def rumble_amps_def)

lemma entry_above_in: "t \<noteq> [] \<Longrightarrow> entry_above x t \<in> set t"
  by (auto simp: entry_above_def split: list.splits dest: set_dropWhileD) (metis list.set_intros(1) set_dropWhileD)

text \<open>What keeps the packed parts apart.\<close>

definition freq_fits :: "rumble_freq_data \<Rightarrow> bool" where
  "freq_fits e \<longleftrightarrow> fst e AND 0xFE = 0 \<and> fst (snd e) AND 0x80 = 0"

definition amp_fits :: "rumble_amp_data \<Rightarrow> bool" where
  "amp_fits e \<longleftrightarrow> fst e AND 1 = 0 \<and> fst (snd e) AND 0x7F00 = 0"

lemma tables_fit: "list_all freq_fits rumble_freqs" "list_all amp_fits rumble_amps"
  by (simp_all add: rumble_freqs_def rumble_amps_def freq_fits_def amp_fits_def)


lemma found_fit:
  "find_rumble_freq f = entry_above f rumble_freqs" "find_rumble_amp a = entry_above a rumble_amps"
  "freq_fits (find_rumble_freq f)" "amp_fits (find_rumble_amp a)"
proof -
  show f: "find_rumble_freq f = entry_above f rumble_freqs"
    by (simp add: find_rumble_freq_def find_entry_above tables_long)
  show a: "find_rumble_amp a = entry_above a rumble_amps"
    by (simp add: find_rumble_amp_def find_entry_above tables_long)
  have "rumble_freqs \<noteq> []" "rumble_amps \<noteq> []" using tables_long by auto
  then show "freq_fits (find_rumble_freq f)" "amp_fits (find_rumble_amp a)"
    using tables_fit entry_above_in [of rumble_freqs f] entry_above_in [of rumble_amps a]
    by (auto simp: f a list_all_iff)
qed

text \<open>The reverse of the packing.\<close>

definition decode_rumble :: "u8 list \<Rightarrow> u16 \<times> u8 \<times> u8 \<times> u16" where
  "decode_rumble b = (push_bit 8 (ucast (b ! 0)) OR ucast (b ! 1 AND 1), b ! 2 AND 0x7F, b ! 1 AND 0xFE,
     push_bit 8 (ucast (b ! 2 AND 0x80)) OR ucast (b ! 3))"

lemma split_sum:
  fixes x y m :: "'w :: len word"
  assumes "x AND m = 0" "y AND NOT m = 0"
  shows "(x + y) AND m = y" "(x + y) AND NOT m = x"
proof -
  have b: "\<not> (bit x n \<and> bit m n)" "bit y n \<Longrightarrow> n < LENGTH('w) \<Longrightarrow> bit m n" for n
    using arg_cong [OF assms(1), of "\<lambda>w. bit w n"] arg_cong [OF assms(2), of "\<lambda>w. bit w n"] by (auto simp: bit_simps)
  have "x AND y = 0" by (rule bit_word_eqI) (use b in \<open>auto simp: bit_simps\<close>)
  then have s: "x + y = x OR y" by (rule disjunctive_add_eq_or)
  show "(x + y) AND m = y" "(x + y) AND NOT m = x"
    unfolding s by (rule bit_word_eqI; use b in \<open>auto simp: bit_simps\<close>)+
qed

lemma word_halves: "push_bit 8 (ucast (ucast (drop_bit 8 w) :: u8)) OR ucast (ucast w :: u8) = w" for w :: u16
  by (rule bit_word_eqI, simp only: bit_or_iff bit_push_bit_iff bit_ucast_iff bit_drop_bit_eq comp_apply)
    (auto simp: not_le)

lemma low_byte: "ucast (w AND 0xFF) = (ucast w :: u8)" for w :: u16
proof -
  have m: "(0xFF :: u16) = mask 8" by (simp add: mask_eq_exp_minus_1)
  show ?thesis unfolding m
    by (rule bit_word_eqI, simp only: bit_and_iff bit_mask_iff bit_ucast_iff) auto
qed


lemma byte_and: "ucast (w AND k) = (ucast w AND ucast k :: u8)" for w k :: u16
  by (rule bit_word_eqI) (auto simp: bit_simps)

text \<open>The four bytes, and what each of the two sums still holds.\<close>

lemma encoded:
  fixes lo hi a
  defines "H \<equiv> fst (find_rumble_freq hi)" and "L \<equiv> fst (snd (find_rumble_freq lo))"
    and "A \<equiv> fst (find_rumble_amp a)" and "W \<equiv> fst (snd (find_rumble_amp a))"
  shows "switch_encode_rumble lo hi a = [ucast (drop_bit 8 H), A + ucast H, L + ucast (drop_bit 8 W), ucast W]"
    and "(A + ucast H) AND 1 = ucast H" and "(A + ucast H) AND 0xFE = A"
    and "(L + ucast (drop_bit 8 W)) AND 0x80 = ucast (drop_bit 8 W)" and "(L + ucast (drop_bit 8 W)) AND 0x7F = L"
proof -
  have fit: "H AND 0xFE = 0" "L AND 0x80 = 0" "A AND 1 = 0" "W AND 0x7F00 = 0"
    using found_fit(3) [where f = hi] found_fit(3) [where f = lo] found_fit(4) [where a = a]
    by (simp_all add: H_def L_def A_def W_def freq_fits_def amp_fits_def)
  have m: "NOT (1 :: u8) = 0xFE" "NOT (0x80 :: u8) = 0x7F" by simp_all
  have "ucast (H AND 0xFE) = (0 :: u8)" "ucast (drop_bit 8 (W AND 0x7F00)) = (0 :: u8)" by (simp_all add: fit)
  then have "ucast H AND (0xFE :: u8) = 0" "ucast (drop_bit 8 W) AND (0x7F :: u8) = 0"
    by (simp_all add: byte_and drop_bit_and)
  then have z: "ucast H AND NOT (1 :: u8) = 0" "ucast (drop_bit 8 W) AND NOT (0x80 :: u8) = 0"
    by (simp_all only: m)
  show "(A + ucast H) AND 1 = ucast H" "(A + ucast H) AND 0xFE = A"
    "(L + ucast (drop_bit 8 W)) AND 0x80 = ucast (drop_bit 8 W)" "(L + ucast (drop_bit 8 W)) AND 0x7F = L"
    using split_sum [OF fit(3) z(1)] split_sum [OF fit(2) z(2)] by (simp_all only: m)
  show "switch_encode_rumble lo hi a = [ucast (drop_bit 8 H), A + ucast H, L + ucast (drop_bit 8 W), ucast W]"
    by (simp only: switch_encode_rumble_def Let_def low_byte H_def L_def A_def W_def add.commute)
qed

text \<open>
  The driver asks for the amplitude 500 whatever the magnitude, and passes the magnitude as the
  frequency: a rumble of magnitude zero shakes the motor as hard as one of the full magnitude.
\<close>

lemma amplitude_500: "find_rumble_amp 500 = (0x88, 0x0062, 501)"
  by (simp add: found_fit(2) entry_above_def rumble_amps_def)

lemma encode_fixed_amplitude:
  "length (switch_encode_rumble lo hi 500) = 4" "switch_encode_rumble lo hi 500 ! 3 = 0x62"
  "switch_encode_rumble lo hi 500 ! 1 AND 0xFE = 0x88"
  using encoded(3) [of 500 hi] by (simp_all add: encoded(1) amplitude_500)

section \<open>Properties\<close>

text \<open>
  The linear searches of the rumble tables, whatever is asked for, give the first
  entry that is not below it, or the last entry when there is none.
\<close>

theorem switch_rumble_lookup:
  "find_rumble_freq f = entry_above f rumble_freqs \<and> find_rumble_amp a = entry_above a rumble_amps"
  by (simp add: found_fit)

text \<open>
  Nothing is lost in the four bytes of a motor: the sums of the encoder never carry,
  and the high and low frequency and the amplitude that were looked up can be read back.
\<close>

theorem switch_rumble_encoding:
  "length (switch_encode_rumble lo hi a) = 4 \<and>
   decode_rumble (switch_encode_rumble lo hi a) =
     (fst (find_rumble_freq hi), fst (snd (find_rumble_freq lo)), fst (find_rumble_amp a), fst (snd (find_rumble_amp a)))"
  unfolding encoded(1) decode_rumble_def
  by (simp only: nth_Cons_0 nth_Cons_Suc numeral_2_eq_2 numeral_3_eq_3 One_nat_def encoded(2-5) word_halves) simp

end
