(* ===== verification/Switch_Pad.thy ===== *)
theory Switch_Pad
  imports Switch_Rumble
begin

text \<open>
  The Nintendo Switch driver, parser/uni_hid_parser_switch.c: the set-up conversation with the pad, the
  calibration it reads from the flash of the pad, the input reports of the Pro Controller, the two
  Joy-Cons and the SNES controller, player LEDs and rumble.  The conventions are those of theory
  \<open>Dualshock\<close>; a report is read where the code reads it, and beyond its end is \<open>None\<close>.  The dump of
  the flash is compiled out, and the motion sensors are compiled in, as in the source.
\<close>

section \<open>Data\<close>

definition NINTENDO_VID :: u16 where "NINTENDO_VID = 0x057e"
definition SWITCH_JOYCON_L_PID :: u16 where "SWITCH_JOYCON_L_PID = 0x2006"
definition SWITCH_JOYCON_R_PID :: u16 where "SWITCH_JOYCON_R_PID = 0x2007"
definition SWITCH_PRO_CONTROLLER_PID :: u16 where "SWITCH_PRO_CONTROLLER_PID = 0x2009"
definition SWITCH_ONLINE_SNES_CONTROLLER_PID :: u16 where "SWITCH_ONLINE_SNES_CONTROLLER_PID = 0x2017"

definition SWITCH_FACTORY_STICK_CAL_DATA_SIZE :: u8 where [simp]: "SWITCH_FACTORY_STICK_CAL_DATA_SIZE = 9"
definition SWITCH_FACTORY_STICK_CAL_DATA_ADDR_LEFT :: u16 where "SWITCH_FACTORY_STICK_CAL_DATA_ADDR_LEFT = 0x603d"
definition SWITCH_FACTORY_STICK_CAL_DATA_ADDR_RIGHT :: u16 where "SWITCH_FACTORY_STICK_CAL_DATA_ADDR_RIGHT = 0x6046"
definition SWITCH_USER_STICK_CAL_DATA_SIZE :: u8 where [simp]: "SWITCH_USER_STICK_CAL_DATA_SIZE = 11"
definition SWITCH_USER_STICK_CAL_CHECK_0 :: u8 where [simp]: "SWITCH_USER_STICK_CAL_CHECK_0 = 0xB2"
definition SWITCH_USER_STICK_CAL_CHECK_1 :: u8 where [simp]: "SWITCH_USER_STICK_CAL_CHECK_1 = 0xA1"
definition SWITCH_USER_STICK_CAL_DATA_ADDR_LEFT :: u16 where "SWITCH_USER_STICK_CAL_DATA_ADDR_LEFT = 0x8010"
definition SWITCH_USER_STICK_CAL_DATA_ADDR_RIGHT :: u16 where "SWITCH_USER_STICK_CAL_DATA_ADDR_RIGHT = 0x801B"
definition SWITCH_FACTORY_IMU_CAL_DATA_SIZE :: u8 where [simp]: "SWITCH_FACTORY_IMU_CAL_DATA_SIZE = 24"
definition SWITCH_FACTORY_IMU_CAL_DATA_ADDR :: u16 where "SWITCH_FACTORY_IMU_CAL_DATA_ADDR = 0x6020"

definition DEFAULT_ACCEL_OFFSET :: int where [simp]: "DEFAULT_ACCEL_OFFSET = 0"
definition DEFAULT_ACCEL_SCALE :: int where [simp]: "DEFAULT_ACCEL_SCALE = 16384"
definition DEFAULT_GYRO_OFFSET :: int where [simp]: "DEFAULT_GYRO_OFFSET = 0"
definition DEFAULT_GYRO_SCALE :: int where [simp]: "DEFAULT_GYRO_SCALE = 13371"
definition SWITCH_IMU_PREC_RANGE_SCALE :: int where [simp]: "SWITCH_IMU_PREC_RANGE_SCALE = 1000"

datatype switch_state = State_Uninit | State_Setup | State_Req_Dev_Info | State_Read_Factory_Stick_Calibration
  | State_Read_User_Stick_Calibration | State_Read_Factory_Imu_Calibration | State_Set_Full_Report
  | State_Enable_Imu | State_Dump_Flash | State_Update_Led | State_Ready

datatype switch_flags = Mode_None | Mode_Normal | Mode_Imu

definition SWITCH_INPUT_SUBCMD_REPLY :: u8 where [simp]: "SWITCH_INPUT_SUBCMD_REPLY = 0x21"
definition SWITCH_INPUT_IMU_DATA :: u8 where [simp]: "SWITCH_INPUT_IMU_DATA = 0x30"
definition SWITCH_INPUT_BUTTON_EVENT :: u8 where [simp]: "SWITCH_INPUT_BUTTON_EVENT = 0x3F"

definition SWITCH_CONTROLLER_TYPE_JCL :: u8 where [simp]: "SWITCH_CONTROLLER_TYPE_JCL = 0x01"
definition SWITCH_CONTROLLER_TYPE_JCR :: u8 where [simp]: "SWITCH_CONTROLLER_TYPE_JCR = 0x02"
definition SWITCH_CONTROLLER_TYPE_PRO :: u8 where [simp]: "SWITCH_CONTROLLER_TYPE_PRO = 0x03"
definition SWITCH_CONTROLLER_TYPE_SNES :: u8 where [simp]: "SWITCH_CONTROLLER_TYPE_SNES = 0x0b"

definition OUTPUT_RUMBLE_AND_SUBCMD :: u8 where [simp]: "OUTPUT_RUMBLE_AND_SUBCMD = 0x01"
definition OUTPUT_RUMBLE_ONLY :: u8 where [simp]: "OUTPUT_RUMBLE_ONLY = 0x10"

definition SUBCMD_REQ_DEV_INFO :: u8 where [simp]: "SUBCMD_REQ_DEV_INFO = 0x02"
definition SUBCMD_SET_REPORT_MODE :: u8 where [simp]: "SUBCMD_SET_REPORT_MODE = 0x03"
definition SUBCMD_SPI_FLASH_READ :: u8 where [simp]: "SUBCMD_SPI_FLASH_READ = 0x10"
definition SUBCMD_SET_PLAYER_LEDS :: u8 where [simp]: "SUBCMD_SET_PLAYER_LEDS = 0x30"
definition SUBCMD_ENABLE_IMU :: u8 where [simp]: "SUBCMD_ENABLE_IMU = 0x40"

record switch_cal_stick =
  cal_min :: int
  cal_center :: int
  cal_max :: int

text \<open>One axis of a motion sensor, with the divisor the code keeps beside it.\<close>

record switch_cal_imu =
  imu_offset :: int
  imu_scale :: int
  imu_divisor :: int

text \<open>
  The type of the pad is what the pad says it is, any byte.  The number of the next packet is a
  static variable of the driver: a set-up does not reset it.  The log is of the interrupt channel.
\<close>

record switch_instance = rumble +
  setup_timer :: bool
  sw_weak :: u16
  sw_strong :: u16
  sw_state :: switch_state
  sw_mode :: switch_flags
  firmware_version_hi :: u8
  firmware_version_lo :: u8
  controller_type :: u8
  gamepad_seat :: u8
  cal_x :: switch_cal_stick
  cal_y :: switch_cal_stick
  cal_rx :: switch_cal_stick
  cal_ry :: switch_cal_stick
  cal_accel :: "switch_cal_imu list"
  cal_gyro :: "switch_cal_imu list"
  packet_num :: u8
  switch_log :: "u8 list list"

definition cal_zero :: switch_cal_stick where "cal_zero = \<lparr>cal_min = 0, cal_center = 0, cal_max = 0\<rparr>"
definition cal_default :: switch_cal_stick where "cal_default = \<lparr>cal_min = 512, cal_center = 2048, cal_max = 3583\<rparr>"

definition imu_cal :: "int \<Rightarrow> int \<Rightarrow> switch_cal_imu" where
  "imu_cal offset scale = \<lparr>imu_offset = offset, imu_scale = scale, imu_divisor = scale - offset\<rparr>"

definition switch_zero :: "u8 \<Rightarrow> u8 list list \<Rightarrow> switch_instance" where
  "switch_zero num msgs = \<lparr>rumble_state = Rumble_Disabled, timer_delayed_start = None, timer_duration = None,
     rumble_duration_ms = 0, setup_timer = False, sw_weak = 0, sw_strong = 0, sw_state = State_Uninit,
     sw_mode = Mode_None, firmware_version_hi = 0, firmware_version_lo = 0, controller_type = 0, gamepad_seat = 0,
     cal_x = cal_zero, cal_y = cal_zero, cal_rx = cal_zero, cal_ry = cal_zero,
     cal_accel = replicate 3 (imu_cal 0 0), cal_gyro = replicate 3 (imu_cal 0 0), packet_num = num, switch_log = msgs\<rparr>"

section \<open>Messages\<close>

text \<open>The report number, and what follows the packet number.\<close>

definition send_subcmd :: "u8 \<Rightarrow> u8 list \<Rightarrow> switch_instance \<Rightarrow> switch_instance" where
  "send_subcmd rid rest s =
     s\<lparr>switch_log := switch_log s @ [HID_OUTPUT_REPORT # rid # packet_num s # rest],
       packet_num := (if 0x0f < packet_num s + 1 then 0 else packet_num s + 1)\<rparr>"

definition subcmd :: "u8 \<Rightarrow> u8 list \<Rightarrow> switch_instance \<Rightarrow> switch_instance" where
  "subcmd subcmd_id data = send_subcmd OUTPUT_RUMBLE_AND_SUBCMD (replicate 8 0 @ subcmd_id # data)"

definition spi_read :: "u16 \<Rightarrow> u8 \<Rightarrow> switch_instance \<Rightarrow> switch_instance" where
  "spi_read addr sz =
     subcmd SUBCMD_SPI_FLASH_READ [ucast (addr AND 0xff), ucast (drop_bit 8 addr AND 0xff), 0, 0, sz]"

definition set_led :: "u8 \<Rightarrow> switch_instance \<Rightarrow> switch_instance" where
  "set_led leds s = subcmd SUBCMD_SET_PLAYER_LEDS [leds AND 0x0f] (s\<lparr>gamepad_seat := leds\<rparr>)"

definition uni_hid_parser_switch_set_player_leds :: "u8 \<Rightarrow> switch_instance \<Rightarrow> switch_instance" where
  "uni_hid_parser_switch_set_player_leds leds s =
     (let s = s\<lparr>gamepad_seat := leds\<rparr> in if sw_state s \<noteq> State_Ready then s else set_led leds s)"


section \<open>Calibration\<close>

text \<open>Twelve bits from the first byte and half of the second, twelve from the other half and the third.\<close>

definition low12 :: "u8 list \<Rightarrow> nat \<Rightarrow> int" where
  "low12 d i = uint (ucast (d ! i) OR push_bit 8 (ucast (d ! Suc i AND 0x0f)) :: u32)"

definition high12 :: "u8 list \<Rightarrow> nat \<Rightarrow> int" where
  "high12 d i = uint (ucast (drop_bit 4 (d ! Suc i)) OR push_bit 4 (ucast (d ! (i + 2))) :: u32)"

definition cal_from :: "int \<Rightarrow> int \<Rightarrow> int \<Rightarrow> switch_cal_stick" where
  "cal_from mn center mx = \<lparr>cal_min = center - mn, cal_center = center, cal_max = center + mx\<rparr>"

definition parse_stick_calibration :: "u8 list \<Rightarrow> bool \<Rightarrow> switch_cal_stick \<times> switch_cal_stick" where
  "parse_stick_calibration d is_left =
     (if is_left
      then (cal_from (low12 d 6) (low12 d 3) (low12 d 0), cal_from (high12 d 6) (high12 d 3) (high12 d 0))
      else (cal_from (low12 d 3) (low12 d 0) (low12 d 6), cal_from (high12 d 3) (high12 d 0) (high12 d 6)))"

definition set_left :: "switch_cal_stick \<times> switch_cal_stick \<Rightarrow> switch_instance \<Rightarrow> switch_instance" where
  "set_left xy s = s\<lparr>cal_x := fst xy, cal_y := snd xy\<rparr>"

definition set_right :: "switch_cal_stick \<times> switch_cal_stick \<Rightarrow> switch_instance \<Rightarrow> switch_instance" where
  "set_right xy s = s\<lparr>cal_rx := fst xy, cal_ry := snd xy\<rparr>"

text \<open>The bytes from an offset, if the report has that many.\<close>

definition read_bytes :: "u8 list \<Rightarrow> nat \<Rightarrow> nat \<Rightarrow> u8 list option" where
  "read_bytes r k n = (if k + n \<le> length r then Some (take n (drop k r)) else None)"

text \<open>
  The replies to a read of the flash.  \<open>r\<close> is the payload, \<open>len\<close> the length the pad claims it has;
  what lies behind the report is not part of the list.  A claimed length that is too short is dumped
  to the console, all the bytes it claims.
\<close>

definition hexdump :: "u8 list \<Rightarrow> u8 \<Rightarrow> 's \<Rightarrow> 's option" where
  "hexdump r len s = map_option (\<lambda>_. s) (read_bytes r 0 (unat len))"

definition process_reply_read_spi_factory_stick_calibration ::
  "u8 list \<Rightarrow> u8 \<Rightarrow> switch_instance \<Rightarrow> switch_instance option" where
  "process_reply_read_spi_factory_stick_calibration r len s =
     (if controller_type s = SWITCH_CONTROLLER_TYPE_PRO then
        (if len < SWITCH_FACTORY_STICK_CAL_DATA_SIZE * 2 then hexdump r len s
         else do {
           d \<leftarrow> read_bytes r 0 18;
           Some (set_right (parse_stick_calibration (drop 9 d) False) (set_left (parse_stick_calibration d True) s))
         })
      else if len < SWITCH_FACTORY_STICK_CAL_DATA_SIZE then hexdump r len s
      else do {
        d \<leftarrow> read_bytes r 0 9;
        Some (if controller_type s = SWITCH_CONTROLLER_TYPE_JCL
              then set_left (parse_stick_calibration d True) s else set_right (parse_stick_calibration d False) s)
      })"

definition user_magic :: "u8 list \<Rightarrow> nat \<Rightarrow> bool option" where
  "user_magic r k = do {
     a \<leftarrow> read_at r k;
     if a \<noteq> SWITCH_USER_STICK_CAL_CHECK_0 then Some False
     else map_option (\<lambda>b. b = SWITCH_USER_STICK_CAL_CHECK_1) (read_at r (Suc k))
   }"

text \<open>The two bytes of the magic are logged before any length is checked.\<close>

definition process_reply_read_spi_user_stick_calibration ::
  "u8 list \<Rightarrow> u8 \<Rightarrow> switch_instance \<Rightarrow> switch_instance option" where
  "process_reply_read_spi_user_stick_calibration r len s = do {
     m \<leftarrow> read_bytes r 0 2;
     let pro = (controller_type s = SWITCH_CONTROLLER_TYPE_PRO);
     if len < (if pro then SWITCH_FACTORY_STICK_CAL_DATA_SIZE * 2 else SWITCH_FACTORY_STICK_CAL_DATA_SIZE) then hexdump r len s
     else do {
       first \<leftarrow> user_magic r 0;
       second \<leftarrow> (if pro then user_magic r 11 else Some False);
       let left = (first \<and> (pro \<or> controller_type s = SWITCH_CONTROLLER_TYPE_JCL));
       let right = (if pro then second else first \<and> controller_type s \<noteq> SWITCH_CONTROLLER_TYPE_JCL);
       s1 \<leftarrow> (if left then map_option (\<lambda>d. set_left (parse_stick_calibration d True) s) (read_bytes r 2 9) else Some s);
       if right
       then map_option (\<lambda>d. set_right (parse_stick_calibration d False) s1) (read_bytes r (if pro then 13 else 2) 9)
       else Some s1
     }
   }"

definition read_imu_cal :: "u8 list \<Rightarrow> nat \<Rightarrow> switch_cal_imu list" where
  "read_imu_cal d k = map (\<lambda>i. imu_cal (s16 d (k + 2 * i)) (s16 d (k + 6 + 2 * i))) [0, 1, 2]"

definition process_reply_read_spi_factory_imu_calibration ::
  "u8 list \<Rightarrow> u8 \<Rightarrow> switch_instance \<Rightarrow> switch_instance option" where
  "process_reply_read_spi_factory_imu_calibration r len s =
     (if len \<noteq> SWITCH_FACTORY_IMU_CAL_DATA_SIZE then Some s
      else map_option (\<lambda>d. s\<lparr>cal_accel := read_imu_cal d 0, cal_gyro := read_imu_cal d 12\<rparr>) (read_bytes r 0 24))"

section \<open>Replies\<close>

text \<open>\<open>r\<close> is the whole report; its data start at byte 15.  The length is compared as an unsigned number.\<close>

definition process_reply_req_dev_info :: "u8 list \<Rightarrow> switch_instance \<Rightarrow> switch_instance option" where
  "process_reply_req_dev_info r s = do {
     d \<leftarrow> read_bytes r 15 3;
     let mode = (if sw_state s \<notin> {State_Uninit, State_Setup} \<and> sw_mode s = Mode_None then Mode_Imu else sw_mode s);
     Some (s\<lparr>sw_mode := mode, firmware_version_hi := d ! 0, firmware_version_lo := d ! 1, controller_type := d ! 2\<rparr>)
   }"

definition process_reply_spi_flash_read :: "u8 list \<Rightarrow> u16 \<Rightarrow> switch_instance \<Rightarrow> switch_instance option" where
  "process_reply_spi_flash_read r len s =
     (if len < 15 + 5 then Some s
      else do {
        d \<leftarrow> read_bytes r 15 5;
        let mem_len = d ! 4;
        let payload = drop 20 r;
        case sw_state s of
          State_Read_Factory_Stick_Calibration \<Rightarrow> process_reply_read_spi_factory_stick_calibration payload mem_len s
        | State_Read_User_Stick_Calibration \<Rightarrow> process_reply_read_spi_user_stick_calibration payload mem_len s
        | State_Read_Factory_Imu_Calibration \<Rightarrow> process_reply_read_spi_factory_imu_calibration payload mem_len s
        | _ \<Rightarrow> Some s
      })"

definition switch_battery :: "u8 \<Rightarrow> controller \<Rightarrow> controller" where
  "switch_battery bat_con c = (let b = drop_bit 5 bat_con in
     if b = 0 then c\<lparr>battery := 1\<rparr> else if b = 1 then c\<lparr>battery := 64\<rparr> else if b = 2 then c\<lparr>battery := 128\<rparr>
     else if b = 3 then c\<lparr>battery := 192\<rparr> else if b = 4 then c\<lparr>battery := 255\<rparr> else c)"

definition reply_handler :: "u8 list \<Rightarrow> u16 \<Rightarrow> switch_instance \<Rightarrow> switch_instance option" where
  "reply_handler r len s =
     (if r ! 14 = SUBCMD_REQ_DEV_INFO then process_reply_req_dev_info r s
      else if r ! 14 = SUBCMD_SPI_FLASH_READ then process_reply_spi_flash_read r len s
      else Some s)"

text \<open>
  What a reply does before the set-up goes on.  The acknowledgement, byte 13, is read, but a refusal
  by the pad is only logged.
\<close>

definition subcmd_reply :: "u8 list \<Rightarrow> u16 \<Rightarrow> controller \<times> switch_instance \<Rightarrow> (controller \<times> switch_instance) option" where
  "subcmd_reply r len cs =
     (if length r < 15 then None
      else map_option (\<lambda>s. (switch_battery (r ! 2) (fst cs), s)) (reply_handler r len (snd cs)))"

section \<open>The set-up conversation\<close>

definition fsm_request_device_info :: "switch_instance \<Rightarrow> switch_instance" where
  "fsm_request_device_info s = subcmd SUBCMD_REQ_DEV_INFO [] (s\<lparr>sw_state := State_Req_Dev_Info\<rparr>)"

definition fsm_read_factory_stick_calibration :: "switch_instance \<Rightarrow> switch_instance" where
  "fsm_read_factory_stick_calibration s =
     spi_read (if controller_type s = SWITCH_CONTROLLER_TYPE_JCR then SWITCH_FACTORY_STICK_CAL_DATA_ADDR_RIGHT
               else SWITCH_FACTORY_STICK_CAL_DATA_ADDR_LEFT)
       (if controller_type s = SWITCH_CONTROLLER_TYPE_PRO then SWITCH_FACTORY_STICK_CAL_DATA_SIZE * 2
        else SWITCH_FACTORY_STICK_CAL_DATA_SIZE)
       (s\<lparr>sw_state := State_Read_Factory_Stick_Calibration\<rparr>)"

definition fsm_read_user_stick_calibration :: "switch_instance \<Rightarrow> switch_instance" where
  "fsm_read_user_stick_calibration s =
     spi_read (if controller_type s = SWITCH_CONTROLLER_TYPE_JCR then SWITCH_USER_STICK_CAL_DATA_ADDR_RIGHT
               else SWITCH_USER_STICK_CAL_DATA_ADDR_LEFT)
       (if controller_type s = SWITCH_CONTROLLER_TYPE_PRO then SWITCH_USER_STICK_CAL_DATA_SIZE * 2
        else SWITCH_USER_STICK_CAL_DATA_SIZE)
       (s\<lparr>sw_state := State_Read_User_Stick_Calibration\<rparr>)"

definition fsm_read_factory_imu_calibration :: "switch_instance \<Rightarrow> switch_instance" where
  "fsm_read_factory_imu_calibration s =
     spi_read SWITCH_FACTORY_IMU_CAL_DATA_ADDR SWITCH_FACTORY_IMU_CAL_DATA_SIZE
       (s\<lparr>sw_state := State_Read_Factory_Imu_Calibration\<rparr>)"

definition fsm_set_full_report :: "switch_instance \<Rightarrow> switch_instance" where
  "fsm_set_full_report s = subcmd SUBCMD_SET_REPORT_MODE [0x30] (s\<lparr>sw_state := State_Set_Full_Report\<rparr>)"

definition fsm_enable_imu :: "switch_instance \<Rightarrow> switch_instance" where
  "fsm_enable_imu s =
     subcmd SUBCMD_ENABLE_IMU [if sw_mode s = Mode_Imu then 1 else 0] (s\<lparr>sw_state := State_Enable_Imu\<rparr>)"

definition fsm_update_led :: "switch_instance \<Rightarrow> switch_instance" where
  "fsm_update_led s = set_led (gamepad_seat s) (s\<lparr>sw_state := State_Update_Led\<rparr>)"

text \<open>
  \<open>process_fsm\<close> with its two tail calls of itself, from \<open>fsm_dump_rom\<close> and from \<open>fsm_ready\<close>.
  When the platform refuses the pad its slot is cleared under the driver, which goes on with a
  cleared instance.
\<close>

fun fsm_rank :: "switch_state \<Rightarrow> nat" where
  "fsm_rank State_Enable_Imu = 1"
| "fsm_rank State_Update_Led = 1"
| "fsm_rank _ = 0"

function process_fsm ::
  "(u16 \<Rightarrow> gap_type) \<Rightarrow> bool \<Rightarrow> nat \<Rightarrow> bt_world \<times> switch_instance \<Rightarrow> (bt_world \<times> switch_instance) option" where
  "process_fsm gap accept i (w, s) =
     (case sw_state s of
        State_Setup \<Rightarrow>
          if setup_timer s then None else Some (w, fsm_request_device_info (s\<lparr>setup_timer := True\<rparr>))
      | State_Req_Dev_Info \<Rightarrow> Some (w, fsm_read_factory_stick_calibration s)
      | State_Read_Factory_Stick_Calibration \<Rightarrow> Some (w, fsm_read_user_stick_calibration s)
      | State_Read_User_Stick_Calibration \<Rightarrow> Some (w, fsm_read_factory_imu_calibration s)
      | State_Read_Factory_Imu_Calibration \<Rightarrow> Some (w, fsm_set_full_report s)
      | State_Set_Full_Report \<Rightarrow> Some (w, fsm_enable_imu s)
      | State_Enable_Imu \<Rightarrow>
          process_fsm gap accept i (w, s\<lparr>sw_state := State_Dump_Flash, setup_timer := False\<rparr>)
      | State_Dump_Flash \<Rightarrow> Some (w, fsm_update_led s)
      | State_Update_Led \<Rightarrow>
          (case uni_hid_device_set_ready_complete gap accept i w of
             None \<Rightarrow> None
           | Some (w', ok) \<Rightarrow>
               process_fsm gap accept i
                 (w', if free_slot (devs w' ! i) then switch_zero (packet_num s) (switch_log s)
                      else s\<lparr>sw_state := State_Ready\<rparr>))
      | State_Ready \<Rightarrow> Some (w, s\<lparr>setup_timer := False\<rparr>)
      | State_Uninit \<Rightarrow> Some (w, s))"
  by pat_completeness auto
termination
  by (relation "measure (\<lambda>(gap, accept, i, w, s). fsm_rank (sw_state s))") (auto simp: switch_zero_def)

declare process_fsm.simps [simp del]

text \<open>The set-up clears the controller too.\<close>

definition switch_start :: "switch_instance \<Rightarrow> switch_instance" where
  "switch_start s = (switch_zero (packet_num s) (switch_log s))\<lparr>sw_state := State_Setup, sw_mode := Mode_None,
     controller_type := SWITCH_CONTROLLER_TYPE_PRO, cal_x := cal_default, cal_y := cal_default, cal_rx := cal_default,
     cal_ry := cal_default, cal_accel := replicate 3 (imu_cal DEFAULT_ACCEL_OFFSET DEFAULT_ACCEL_SCALE),
     cal_gyro := replicate 3 (imu_cal DEFAULT_GYRO_OFFSET DEFAULT_GYRO_SCALE)\<rparr>"

type_synonym switch_world = "bt_world \<times> controller \<times> switch_instance"

definition uni_hid_parser_switch_setup ::
  "(u16 \<Rightarrow> gap_type) \<Rightarrow> bool \<Rightarrow> nat \<Rightarrow> switch_world \<Rightarrow> switch_world option" where
  "uni_hid_parser_switch_setup gap accept i = (\<lambda>(w, c, s).
     map_option (\<lambda>(w', s'). (w', clear_pad c, s')) (process_fsm gap accept i (w, switch_start s)))"

definition switch_setup_timeout_callback ::
  "(u16 \<Rightarrow> gap_type) \<Rightarrow> bool \<Rightarrow> nat \<Rightarrow> switch_world \<Rightarrow> switch_world option" where
  "switch_setup_timeout_callback gap accept i = (\<lambda>(w, c, s).
     map_option (\<lambda>(w', s'). (w', c, s')) (process_fsm gap accept i (w, s\<lparr>setup_timer := False\<rparr>)))"

definition process_input_subcmd_reply ::
  "(u16 \<Rightarrow> gap_type) \<Rightarrow> bool \<Rightarrow> nat \<Rightarrow> u8 list \<Rightarrow> u16 \<Rightarrow> switch_world \<Rightarrow> switch_world option" where
  "process_input_subcmd_reply gap accept i r len = (\<lambda>(w, cs). do {
     (c, s) \<leftarrow> subcmd_reply r len cs;
     (w', s') \<leftarrow> process_fsm gap accept i (w, s);
     Some (w', c, s')
   })"


section \<open>Input reports\<close>

definition calibrate_axis :: "int \<Rightarrow> switch_cal_stick \<Rightarrow> int option" where
  "calibrate_axis v cal = do {
     q \<leftarrow> (if cal_center cal < v then do {
             p \<leftarrow> i32 ((v - cal_center cal) * AXIS_NORMALIZE_RANGE);
             c_div (c_quot p 2) (cal_max cal - cal_center cal)
           } else do {
             p \<leftarrow> i32 ((cal_center cal - v) * - AXIS_NORMALIZE_RANGE);
             c_div (c_quot p 2) (cal_center cal - cal_min cal)
           });
     let q = (if AXIS_NORMALIZE_RANGE div 2 < q then AXIS_NORMALIZE_RANGE div 2 else q);
     Some (if q < c_quot (- AXIS_NORMALIZE_RANGE) 2 then c_quot (- AXIS_NORMALIZE_RANGE) 2 else q)
   }"

text \<open>\<open>d\<close> holds the three readings of the accelerometer and the three of the gyroscope.\<close>

definition imu_accel :: "switch_cal_imu \<Rightarrow> int \<Rightarrow> int option" where
  "imu_accel cal raw = (if imu_divisor cal = 0 then Some raw
     else Option.bind (i32 (raw * imu_scale cal)) (\<lambda>p. c_div p (imu_divisor cal)))"

definition imu_gyro :: "switch_cal_imu \<Rightarrow> int \<Rightarrow> int option" where
  "imu_gyro cal raw = do {
     p \<leftarrow> i32 (SWITCH_IMU_PREC_RANGE_SCALE * (raw - imu_offset cal));
     x \<leftarrow> mult_frac p (imu_scale cal) (imu_divisor cal);
     Some (sint (word_of_int x :: u32))
   }"

definition negate_yz :: "int list \<Rightarrow> int list option" where
  "negate_yz v = do { y \<leftarrow> i32 (- (v ! 1)); z \<leftarrow> i32 (- (v ! 2)); Some [v ! 0, y, z] }"

definition parse_imu :: "switch_instance \<Rightarrow> u8 list \<Rightarrow> uni_gamepad \<Rightarrow> uni_gamepad option" where
  "parse_imu s d gp = do {
     a0 \<leftarrow> imu_accel (cal_accel s ! 0) (s16 d 0);
     g0 \<leftarrow> imu_gyro (cal_gyro s ! 0) (s16 d 6);
     a1 \<leftarrow> imu_accel (cal_accel s ! 1) (s16 d 2);
     g1 \<leftarrow> imu_gyro (cal_gyro s ! 1) (s16 d 8);
     a2 \<leftarrow> imu_accel (cal_accel s ! 2) (s16 d 4);
     g2 \<leftarrow> imu_gyro (cal_gyro s ! 2) (s16 d 10);
     let jcr = (controller_type s = SWITCH_CONTROLLER_TYPE_JCR);
     a \<leftarrow> (if jcr then negate_yz [a0, a1, a2] else Some [a0, a1, a2]);
     g \<leftarrow> (if jcr then negate_yz [g0, g1, g2] else Some [g0, g1, g2]);
     Some (gp\<lparr>accel := a, gyro := g\<rparr>)
   }"

text \<open>The bytes of the buttons are right, misc and left.\<close>

definition pro_buttons :: "u8 \<Rightarrow> u8 \<Rightarrow> u16" where
  "pro_buttons right left = flag_if right 1 BUTTON_X OR flag_if right 2 BUTTON_Y OR flag_if right 4 BUTTON_A OR
     flag_if right 8 BUTTON_B OR flag_if right 0x40 BUTTON_SHOULDER_R OR flag_if right 0x80 BUTTON_TRIGGER_R OR
     flag_if left 0x40 BUTTON_SHOULDER_L OR flag_if left 0x80 BUTTON_TRIGGER_L"

definition pro_dpad :: "u8 \<Rightarrow> u8" where
  "pro_dpad left = flag_if left 1 DPAD_DOWN OR flag_if left 2 DPAD_UP OR flag_if left 4 DPAD_RIGHT OR flag_if left 8 DPAD_LEFT"

definition pro_misc :: "u8 \<Rightarrow> u8" where
  "pro_misc misc = flag_if misc 1 MISC_BUTTON_SELECT OR flag_if misc 2 MISC_BUTTON_START OR
     flag_if misc 0x10 MISC_BUTTON_SYSTEM OR flag_if misc 0x20 MISC_BUTTON_CAPTURE"

definition parse_report_30_pro_controller :: "switch_instance \<Rightarrow> u8 list \<Rightarrow> uni_gamepad \<Rightarrow> uni_gamepad option" where
  "parse_report_30_pro_controller s r gp = (
     let gp = gp\<lparr>buttons := buttons gp OR pro_buttons (r ! 3) (r ! 5), dpad := dpad gp OR pro_dpad (r ! 5),
       misc_buttons := misc_buttons gp OR pro_misc (r ! 4)\<rparr> in
     if controller_type s \<noteq> SWITCH_CONTROLLER_TYPE_PRO then Some gp
     else do {
       x \<leftarrow> calibrate_axis (low12 r 6) (cal_x s);
       y \<leftarrow> calibrate_axis (high12 r 6) (cal_y s);
       rx \<leftarrow> calibrate_axis (low12 r 9) (cal_rx s);
       ry \<leftarrow> calibrate_axis (high12 r 9) (cal_ry s);
       Some (gp\<lparr>buttons := buttons gp OR flag_if (r ! 4) 4 BUTTON_THUMB_R OR flag_if (r ! 4) 8 BUTTON_THUMB_L,
         axis_x := x, axis_y := - y, axis_rx := rx, axis_ry := - ry\<rparr>)
     })"

definition parse_report_30_joycon_left :: "switch_instance \<Rightarrow> u8 list \<Rightarrow> uni_gamepad \<Rightarrow> uni_gamepad option" where
  "parse_report_30_joycon_left s r gp = do {
     x \<leftarrow> calibrate_axis (low12 r 6) (cal_x s);
     y \<leftarrow> calibrate_axis (high12 r 6) (cal_y s);
     let left = r ! 5;
     let misc = r ! 4;
     Some (gp\<lparr>axis_y := - x, axis_x := - y,
       buttons := buttons gp OR flag_if left 1 BUTTON_B OR flag_if left 2 BUTTON_X OR flag_if left 4 BUTTON_Y OR
         flag_if left 8 BUTTON_A OR flag_if left 0x10 BUTTON_SHOULDER_R OR flag_if left 0x20 BUTTON_SHOULDER_L OR
         flag_if left 0x40 BUTTON_TRIGGER_L OR flag_if left 0x80 BUTTON_TRIGGER_R OR flag_if misc 8 BUTTON_THUMB_L,
       misc_buttons := misc_buttons gp OR flag_if misc 1 MISC_BUTTON_SELECT OR flag_if misc 0x20 MISC_BUTTON_START\<rparr>)
   }"

definition parse_report_30_joycon_right :: "switch_instance \<Rightarrow> u8 list \<Rightarrow> uni_gamepad \<Rightarrow> uni_gamepad option" where
  "parse_report_30_joycon_right s r gp = do {
     x \<leftarrow> calibrate_axis (low12 r 9) (cal_rx s);
     y \<leftarrow> calibrate_axis (high12 r 9) (cal_ry s);
     let right = r ! 3;
     let misc = r ! 4;
     Some (gp\<lparr>axis_y := x, axis_x := y,
       buttons := buttons gp OR flag_if right 1 BUTTON_Y OR flag_if right 2 BUTTON_B OR flag_if right 4 BUTTON_X OR
         flag_if right 8 BUTTON_A OR flag_if right 0x10 BUTTON_SHOULDER_R OR flag_if right 0x20 BUTTON_SHOULDER_L OR
         flag_if right 0x40 BUTTON_TRIGGER_L OR flag_if right 0x80 BUTTON_TRIGGER_R OR flag_if misc 4 BUTTON_THUMB_L,
       misc_buttons := misc_buttons gp OR flag_if misc 0x10 MISC_BUTTON_SELECT OR flag_if misc 2 MISC_BUTTON_START\<rparr>)
   }"

definition report_30_pad :: "switch_instance \<Rightarrow> u8 list \<Rightarrow> uni_gamepad option" where
  "report_30_pad s r = (let ty = controller_type s in
     if ty = SWITCH_CONTROLLER_TYPE_JCL then parse_report_30_joycon_left s r gamepad_zero
     else if ty = SWITCH_CONTROLLER_TYPE_JCR then parse_report_30_joycon_right s r gamepad_zero
     else if ty = SWITCH_CONTROLLER_TYPE_PRO \<or> ty = SWITCH_CONTROLLER_TYPE_SNES
     then parse_report_30_pro_controller s r gamepad_zero
     else Some gamepad_zero)"

text \<open>The last of the three samples of the motion sensors.\<close>

definition parse_report_30 :: "u8 list \<Rightarrow> controller \<times> switch_instance \<Rightarrow> (controller \<times> switch_instance) option" where
  "parse_report_30 r = (\<lambda>(c, s). do {
     gp \<leftarrow> report_30_pad s r;
     gp \<leftarrow> (if sw_mode s = Mode_Imu then Option.bind (read_bytes r 37 12) (\<lambda>d. parse_imu s d gp) else Some gp);
     Some (c\<lparr>gamepad := gp\<rparr>, s)
   })"

definition axis_3f :: "u8 list \<Rightarrow> nat \<Rightarrow> int" where
  "axis_3f r i = c_quot (uint (le16 r i) * AXIS_NORMALIZE_RANGE) 65536 - c_quot AXIS_NORMALIZE_RANGE 2"

definition parse_report_3f :: "u8 list \<Rightarrow> controller \<Rightarrow> controller" where
  "parse_report_3f r c = (let main = r ! 1; aux = r ! 2 in c\<lparr>gamepad := gamepad_zero\<lparr>
     buttons := flag_if main 1 BUTTON_A OR flag_if main 2 BUTTON_B OR flag_if main 4 BUTTON_X OR flag_if main 8 BUTTON_Y OR
       flag_if main 0x10 BUTTON_SHOULDER_L OR flag_if main 0x20 BUTTON_SHOULDER_R OR flag_if main 0x40 BUTTON_TRIGGER_L OR
       flag_if main 0x80 BUTTON_TRIGGER_R OR flag_if aux 4 BUTTON_THUMB_L OR flag_if aux 8 BUTTON_THUMB_R,
     misc_buttons := flag_if aux 1 MISC_BUTTON_SELECT OR flag_if aux 2 MISC_BUTTON_START OR
       flag_if aux 0x10 MISC_BUTTON_SYSTEM OR flag_if aux 0x20 MISC_BUTTON_CAPTURE,
     dpad := uni_hid_parser_hat_to_dpad (r ! 3),
     axis_x := axis_3f r 4, axis_y := axis_3f r 6, axis_rx := axis_3f r 8, axis_ry := axis_3f r 10\<rparr>\<rparr>)"

definition uni_hid_parser_switch_parse_input_report ::
  "(u16 \<Rightarrow> gap_type) \<Rightarrow> bool \<Rightarrow> nat \<Rightarrow> u8 list \<Rightarrow> u16 \<Rightarrow> switch_world \<Rightarrow> switch_world option" where
  "uni_hid_parser_switch_parse_input_report gap accept i r len = (\<lambda>(w, c, s).
     if length r < unat len then None
     else if len < 12 then Some (w, c, s)
     else if r ! 0 = SWITCH_INPUT_SUBCMD_REPLY then process_input_subcmd_reply gap accept i r len (w, c, s)
     else if r ! 0 = SWITCH_INPUT_IMU_DATA then map_option (\<lambda>cs. (w, cs)) (parse_report_30 r (c, s))
     else if r ! 0 = SWITCH_INPUT_BUTTON_EVENT then Some (w, parse_report_3f r c, s)
     else Some (w, c, s))"

section \<open>Rumble\<close>

definition switch_stop_rumble_now :: "switch_instance \<Rightarrow> switch_instance option" where
  "switch_stop_rumble_now s =
     (if rumble_state s \<noteq> Rumble_In_Progress then None
      else Some (send_subcmd OUTPUT_RUMBLE_ONLY [0x00, 0x01, 0x40, 0x40, 0x00, 0x01, 0x40, 0x40]
        (s\<lparr>rumble_state := Rumble_Disabled\<rparr>)))"

definition switch_rumble :: "u8 \<times> u8 \<Rightarrow> u8 list" where
  "switch_rumble mags = (let side = (\<lambda>m. switch_encode_rumble (push_bit 2 (ucast (m :: u8))) (ucast m) 500) in
     side (fst mags) @ side (snd mags))"

definition switch_play_dual_rumble_now :: "u16 \<Rightarrow> u8 \<times> u8 \<Rightarrow> switch_instance \<Rightarrow> switch_instance option" where
  "switch_play_dual_rumble_now duration_ms mags s =
     (if duration_ms = 0 then
        (if rumble_state s \<noteq> Rumble_Disabled then switch_stop_rumble_now s else Some s)
      else add_duration duration_ms (send_subcmd OUTPUT_RUMBLE_ONLY (switch_rumble mags) s))"

definition uni_hid_parser_switch_play_dual_rumble ::
  "u16 \<Rightarrow> u16 \<Rightarrow> u8 \<times> u8 \<Rightarrow> switch_instance \<Rightarrow> switch_instance option" where
  "uni_hid_parser_switch_play_dual_rumble start_delay_ms duration_ms mags s =
     (let s = remove_timers s in
      if start_delay_ms = 0 then switch_play_dual_rumble_now duration_ms mags s
      else add_delayed start_delay_ms (s\<lparr>rumble_duration_ms := duration_ms,
        sw_strong := ucast (snd mags), sw_weak := ucast (fst mags)\<rparr>))"

definition on_switch_set_rumble_on :: "switch_instance \<Rightarrow> switch_instance option" where
  "on_switch_set_rumble_on s =
     switch_play_dual_rumble_now (rumble_duration_ms s) (ucast (sw_weak s), ucast (sw_strong s))
       (s\<lparr>timer_delayed_start := None\<rparr>)"

definition on_switch_set_rumble_off :: "switch_instance \<Rightarrow> switch_instance option" where
  "on_switch_set_rumble_off s = switch_stop_rumble_now (s\<lparr>timer_duration := None\<rparr>)"

section \<open>Names\<close>

text \<open>Clones are known by their name only.\<close>

definition switch_devices :: "(string \<times> u16 \<times> u16) list" where
  "switch_devices = [(''Pro Controller'', NINTENDO_VID, SWITCH_PRO_CONTROLLER_PID),
     (''Joy-Con (L)'', NINTENDO_VID, SWITCH_JOYCON_L_PID), (''Joy-Con (R)'', NINTENDO_VID, SWITCH_JOYCON_R_PID),
     (''SNES Controller'', NINTENDO_VID, SWITCH_ONLINE_SNES_CONTROLLER_PID)]"

definition uni_hid_parser_switch_does_name_match :: "string \<Rightarrow> hid_device \<Rightarrow> hid_device option" where
  "uni_hid_parser_switch_does_name_match nm d =
     map_option (\<lambda>(vid, pid). uni_hid_device_set_product_id pid (uni_hid_device_set_vendor_id vid d))
       (map_of switch_devices nm)"

section \<open>Twelve bit packing\<close>

definition pack12 :: "12 word \<Rightarrow> 12 word \<Rightarrow> u8 list" where
  "pack12 a b = [ucast a, ucast (drop_bit 8 a) OR push_bit 4 (ucast b), ucast (drop_bit 4 b)]"

lemma nibble: "(0x0f :: u8) = mask 4"
  by (simp add: mask_eq_exp_minus_1)

lemma unpack_low: "ucast (ucast a :: u8) OR push_bit 8 (ucast ((ucast (drop_bit 8 a) OR push_bit 4 (ucast b)) AND 0x0f :: u8)) =
    (ucast a :: u32)" for a b :: "12 word"
  unfolding nibble
  by (rule bit_word_eqI, simp only: bit_or_iff bit_push_bit_iff bit_ucast_iff bit_drop_bit_eq bit_and_iff bit_mask_iff comp_apply)
    (auto simp: not_le dest: bit_imp_le_length)

lemma unpack_high: "ucast (drop_bit 4 (ucast (drop_bit 8 a) OR push_bit 4 (ucast b) :: u8)) OR push_bit 4 (ucast (ucast (drop_bit 4 b) :: u8)) =
    (ucast b :: u32)" for a b :: "12 word"
  by (rule bit_word_eqI, simp only: bit_or_iff bit_push_bit_iff bit_ucast_iff bit_drop_bit_eq bit_and_iff comp_apply)
    (auto simp: not_le dest: bit_imp_le_length)

lemma uint_up12: "uint (ucast w :: u32) = uint w" for w :: "12 word"
  by (simp add: uint_up_ucast is_up)

lemma pack12_read:
  assumes "i + 2 < length d" "take 3 (drop i d) = pack12 a b"
  shows "low12 d i = uint a" "high12 d i = uint b"
proof -
  have "take 3 (drop i d) ! k = d ! (i + k)" if "k < 3" for k using assms(1) that by simp
  from this [of 0] this [of 1] this [of 2] have "d ! i = ucast a" "d ! Suc i = ucast (drop_bit 8 a) OR push_bit 4 (ucast b)"
    "d ! (i + 2) = ucast (drop_bit 4 b)" by (simp_all only: assms(2) pack12_def) simp_all
  then show "low12 d i = uint a" "high12 d i = uint b"
    by (simp_all only: low12_def high12_def unpack_low unpack_high uint_up12)
qed

lemma ranges12: "0 \<le> low12 d i" "low12 d i \<le> 4095" "0 \<le> high12 d i" "high12 d i \<le> 4095"
proof -
  have "(ucast x OR push_bit 8 (ucast (y AND 0x0f)) :: u32) = take_bit 12 (ucast x OR push_bit 8 (ucast (y AND 0x0f)))" for x y :: u8
    unfolding nibble
    by (rule bit_word_eqI, simp only: bit_or_iff bit_push_bit_iff bit_ucast_iff bit_and_iff bit_mask_iff bit_take_bit_iff)
      (auto dest: bit_imp_le_length)
  then have a: "low12 d i = uint (take_bit 12 (ucast (d ! i) OR push_bit 8 (ucast (d ! Suc i AND 0x0f))) :: u32)"
    unfolding low12_def by metis
  have "(ucast (drop_bit 4 x) OR push_bit 4 (ucast y) :: u32) = take_bit 12 (ucast (drop_bit 4 x) OR push_bit 4 (ucast y))" for x y :: u8
    by (rule bit_word_eqI, simp only: bit_or_iff bit_push_bit_iff bit_ucast_iff bit_drop_bit_eq bit_take_bit_iff comp_apply)
      (auto dest: bit_imp_le_length)
  then have b: "high12 d i = uint (take_bit 12 (ucast (drop_bit 4 (d ! Suc i)) OR push_bit 4 (ucast (d ! (i + 2)))) :: u32)"
    unfolding high12_def by metis
  have "uint (take_bit 12 w) \<le> 4095" for w :: u32
    using take_bit_int_less_exp [of 12 "uint w"] by (simp add: unsigned_take_bit_eq)
  then show "low12 d i \<le> 4095" "high12 d i \<le> 4095" unfolding a b by blast+
  show "0 \<le> low12 d i" "0 \<le> high12 d i" unfolding low12_def high12_def by simp_all
qed

section \<open>Stick axes\<close>

text \<open>What calibration data from the pad can be, and what is needed to use it.\<close>

definition cal_ok :: "switch_cal_stick \<Rightarrow> bool" where
  "cal_ok cal \<longleftrightarrow> 0 \<le> cal_center cal \<and> cal_center cal \<le> 4095 \<and>
     0 \<le> cal_max cal - cal_center cal \<and> cal_max cal - cal_center cal \<le> 4095 \<and>
     0 \<le> cal_center cal - cal_min cal \<and> cal_center cal - cal_min cal \<le> 4095"

definition cal_sane :: "switch_cal_stick \<Rightarrow> bool" where
  "cal_sane cal \<longleftrightarrow> cal_ok cal \<and> cal_min cal < cal_center cal \<and> cal_center cal < cal_max cal"

definition axis_value :: "int \<Rightarrow> switch_cal_stick \<Rightarrow> int" where
  "axis_value v cal =
     (if cal_center cal < v then min 512 ((v - cal_center cal) * 512 div (cal_max cal - cal_center cal))
      else - min 512 ((cal_center cal - v) * 512 div (cal_center cal - cal_min cal)))"

lemma half_range: "0 \<le> x \<Longrightarrow> c_quot (x * 1024) 2 = x * 512" "0 \<le> x \<Longrightarrow> c_quot (x * - 1024) 2 = - (x * 512)"
proof -
  assume x: "0 \<le> x"
  show "c_quot (x * 1024) 2 = x * 512" using x by (simp add: c_quot_nonneg)
  show "c_quot (x * - 1024) 2 = - (x * 512)"
    using x by (cases "x = 0") (simp_all add: c_quot_neg c_quot_def)
qed

lemma c_div_axis:
  assumes "0 \<le> x" "x \<le> 4095" "0 < h" "h \<le> 4095"
  shows "c_div (x * 512) h = Some (x * 512 div h)" "c_div (- (x * 512)) h = Some (- (x * 512 div h))"
    "0 \<le> x * 512 div h"
proof -
  have "x * 512 div h \<le> x * 512 div 1" using assms by (intro zdiv_mono2) auto
  moreover show "0 \<le> x * 512 div h" using assms by (simp add: pos_imp_zdiv_nonneg_iff)
  ultimately have ok: "int32_ok (x * 512 div h)" "int32_ok (- (x * 512 div h))" using assms by (auto simp: int32_ok_def)
  then show "c_div (x * 512) h = Some (x * 512 div h)"
    using assms by (simp add: c_div_def c_quot_nonneg)
  have "c_quot (- (x * 512)) h = - (x * 512 div h)"
    using assms by (cases "x = 0") (simp_all add: c_quot_neg c_quot_def)
  then show "c_div (- (x * 512)) h = Some (- (x * 512 div h))" using assms ok by (simp add: c_div_def)
qed

lemma low_clamp: "c_quot (- AXIS_NORMALIZE_RANGE) 2 = - 512"
  by (simp add: c_quot_def)

lemma calibrate_axis_clamp:
  "calibrate_axis v cal = map_option (\<lambda>q. max (- 512) (min 512 q))
     (if cal_center cal < v
      then Option.bind (i32 ((v - cal_center cal) * 1024)) (\<lambda>p. c_div (c_quot p 2) (cal_max cal - cal_center cal))
      else Option.bind (i32 ((cal_center cal - v) * - 1024)) (\<lambda>p. c_div (c_quot p 2) (cal_center cal - cal_min cal)))"
  unfolding calibrate_axis_def Let_def low_clamp AXIS_NORMALIZE_RANGE_def map_conv_bind_option
  by (rule arg_cong2 [where f = Option.bind]) (auto simp: max_def min_def comp_def c_quot_def)

lemma calibrate_axis_exact:
  assumes "cal_ok cal" "0 \<le> v" "v \<le> 4095"
  shows "calibrate_axis v cal =
    (if cal_center cal < v \<and> cal_max cal = cal_center cal \<or> v \<le> cal_center cal \<and> cal_min cal = cal_center cal
     then None else Some (axis_value v cal))"
proof (cases "cal_center cal < v")
  case True
  let ?x = "v - cal_center cal" and ?h = "cal_max cal - cal_center cal"
  have x: "0 \<le> ?x" "?x \<le> 4095" using assms True by (auto simp: cal_ok_def)
  then have "int32_ok (?x * 1024)" by (simp add: int32_ok_def)
  then have eq: "calibrate_axis v cal = Option.bind (c_div (?x * 512) ?h) (\<lambda>q. Some (max (- 512) (min 512 q)))"
    using True half_range(1) [OF x(1)] unfolding calibrate_axis_clamp i32_def by (simp add: map_conv_bind_option comp_def del: left_diff_distrib_numeral)
  show ?thesis
  proof (cases "?h = 0")
    case True
    with eq \<open>cal_center cal < v\<close> show ?thesis by (simp add: c_div_def)
  next
    case False
    with assms(1) have "0 < ?h" "?h \<le> 4095" by (auto simp: cal_ok_def)
    from c_div_axis [OF x this] eq True False show ?thesis by (simp add: axis_value_def min_def)
  qed
next
  case False
  let ?x = "cal_center cal - v" and ?h = "cal_center cal - cal_min cal"
  have x: "0 \<le> ?x" "?x \<le> 4095" using assms False by (auto simp: cal_ok_def)
  then have "int32_ok (?x * - 1024)" by (simp add: int32_ok_def)
  then have eq: "calibrate_axis v cal = Option.bind (c_div (- (?x * 512)) ?h) (\<lambda>q. Some (max (- 512) (min 512 q)))"
    using False half_range(2) [OF x(1)] unfolding calibrate_axis_clamp i32_def by (simp add: map_conv_bind_option comp_def del: left_diff_distrib_numeral)
  show ?thesis
  proof (cases "?h = 0")
    case True
    with eq False show ?thesis by (simp add: c_div_def)
  next
    case h: False
    with assms(1) have "0 < ?h" "?h \<le> 4095" by (auto simp: cal_ok_def)
    from c_div_axis [OF x this] eq h False show ?thesis by (simp add: axis_value_def min_def)
  qed
qed

lemma full_deflection:
  assumes "0 < h"
  shows "512 \<le> x * 512 div h \<longleftrightarrow> h \<le> (x :: int)"
proof
  assume "512 \<le> x * 512 div h"
  then have "512 * h \<le> x * 512 div h * h" using assms by simp
  also have "\<dots> \<le> x * 512" using assms div_mult_mod_eq [of "x * 512" h] pos_mod_sign [of h "x * 512"] by linarith
  finally show "h \<le> x" by simp
next
  assume "h \<le> x"
  then have "512 * h div h \<le> x * 512 div h" using assms by (intro zdiv_mono1) auto
  then show "512 \<le> x * 512 div h" using assms by simp
qed

lemma axis_in_range: "calibrate_axis v cal = Some q \<Longrightarrow> stick_ok q \<and> stick_ok (- q)"
  by (auto simp: calibrate_axis_clamp stick_ok_def)

section \<open>Events\<close>

datatype sw_event = Sw_Report "u8 list" u16 | Sw_Setup_Timeout | Sw_Leds u8 | Sw_Play u16 u16 "u8 \<times> u8" | Sw_On | Sw_Off

definition sw_step :: "(u16 \<Rightarrow> gap_type) \<Rightarrow> bool \<Rightarrow> nat \<Rightarrow> sw_event \<Rightarrow> switch_world \<Rightarrow> switch_world option" where
  "sw_step gap accept i e = (\<lambda>(w, c, s). case e of
     Sw_Report r len \<Rightarrow> uni_hid_parser_switch_parse_input_report gap accept i r len (w, c, s)
   | Sw_Setup_Timeout \<Rightarrow>
       if setup_timer s then switch_setup_timeout_callback gap accept i (w, c, s) else Some (w, c, s)
   | Sw_Leds leds \<Rightarrow> Some (w, c, uni_hid_parser_switch_set_player_leds leds s)
   | Sw_Play delay dur mags \<Rightarrow> map_option (\<lambda>s'. (w, c, s')) (uni_hid_parser_switch_play_dual_rumble delay dur mags s)
   | Sw_On \<Rightarrow> if timer_delayed_start s = None then Some (w, c, s)
       else map_option (\<lambda>s'. (w, c, s')) (on_switch_set_rumble_on s)
   | Sw_Off \<Rightarrow> if timer_duration s = None then Some (w, c, s)
       else map_option (\<lambda>s'. (w, c, s')) (on_switch_set_rumble_off s))"

fun sw_run :: "(u16 \<Rightarrow> gap_type) \<Rightarrow> bool \<Rightarrow> nat \<Rightarrow> sw_event list \<Rightarrow> switch_world \<Rightarrow> switch_world option" where
  "sw_run gap accept i [] x = Some x"
| "sw_run gap accept i (e # es) x = Option.bind (sw_step gap accept i e x) (sw_run gap accept i es)"

text \<open>The instance as a set-up leaves it.\<close>

definition switch_begun :: switch_instance where
  "switch_begun = fsm_request_device_info ((switch_start (switch_zero 0 []))\<lparr>setup_timer := True\<rparr>)"

lemma setup_begins:
  "uni_hid_parser_switch_setup gap accept i (w, c, switch_zero 0 []) = Some (w, clear_pad c, switch_begun)"
  by (simp add: uni_hid_parser_switch_setup_def process_fsm.simps switch_start_def switch_begun_def switch_zero_def)

section \<open>The invariant\<close>

subsection \<open>Messages\<close>

definition message_ok :: "nat \<Rightarrow> u8 list \<Rightarrow> bool" where
  "message_ok k m \<longleftrightarrow> 11 \<le> length m \<and> m ! 0 = 0xa2 \<and> (m ! 1 = 1 \<or> m ! 1 = 0x10) \<and> m ! 2 = of_nat (k mod 16)"

definition log_ok :: "switch_instance \<Rightarrow> bool" where
  "log_ok s \<longleftrightarrow> packet_num s = of_nat (length (switch_log s) mod 16) \<and>
     (\<forall>k < length (switch_log s). message_ok k (switch_log s ! k))"

definition subcmds :: "switch_instance \<Rightarrow> u8 list" where
  "subcmds s = map (\<lambda>m. m ! 11) (filter (\<lambda>m. m ! 1 = OUTPUT_RUMBLE_AND_SUBCMD) (switch_log s))"

lemma next_packet: "(if 0x0f < of_nat (n mod 16) + (1 :: u8) then 0 else of_nat (n mod 16) + 1) = (of_nat (Suc n mod 16) :: u8)"
proof -
  have "(if 0x0f < of_nat k + (1 :: u8) then 0 else of_nat k + 1) = (of_nat (if Suc k = 16 then 0 else Suc k) :: u8)"
    if "k < 16" for k
  proof -
    from that have "k \<in> set [0..<16]" by simp
    then show ?thesis by (simp add: upt_rec) (elim disjE; simp)
  qed
  from this [of "n mod 16"] show ?thesis by (simp add: mod_Suc)
qed

lemma send_fields [simp]:
  "rumble_state (send_subcmd rid m s) = rumble_state s" "timer_delayed_start (send_subcmd rid m s) = timer_delayed_start s"
  "timer_duration (send_subcmd rid m s) = timer_duration s" "rumble_duration_ms (send_subcmd rid m s) = rumble_duration_ms s"
  "setup_timer (send_subcmd rid m s) = setup_timer s" "sw_state (send_subcmd rid m s) = sw_state s"
  "sw_mode (send_subcmd rid m s) = sw_mode s" "controller_type (send_subcmd rid m s) = controller_type s"
  "cal_x (send_subcmd rid m s) = cal_x s" "cal_y (send_subcmd rid m s) = cal_y s" "cal_rx (send_subcmd rid m s) = cal_rx s"
  "cal_ry (send_subcmd rid m s) = cal_ry s" "cal_accel (send_subcmd rid m s) = cal_accel s"
  "cal_gyro (send_subcmd rid m s) = cal_gyro s" "gamepad_seat (send_subcmd rid m s) = gamepad_seat s"
  by (simp_all add: send_subcmd_def)

lemma send_log_ok:
  assumes "log_ok s" "rid = 1 \<or> rid = 0x10" "8 \<le> length m"
  shows "log_ok (send_subcmd rid m s)"
  using assms next_packet [of "length (switch_log s)"]
  by (auto simp: log_ok_def send_subcmd_def message_ok_def nth_append HID_OUTPUT_REPORT_def less_Suc_eq)

lemma subcmd_ids: "subcmds (subcmd k d s) = subcmds s @ [k]"
  by (simp add: subcmds_def subcmd_def send_subcmd_def nth_append)

lemma rumble_ids: "subcmds (send_subcmd OUTPUT_RUMBLE_ONLY m s) = subcmds s"
  by (simp add: subcmds_def send_subcmd_def)

text \<open>Requests of the conversation, in order; then nothing but player LEDs.\<close>

definition conversation :: "u8 list" where
  "conversation = [SUBCMD_REQ_DEV_INFO, SUBCMD_SPI_FLASH_READ, SUBCMD_SPI_FLASH_READ, SUBCMD_SPI_FLASH_READ,
     SUBCMD_SET_REPORT_MODE, SUBCMD_ENABLE_IMU, SUBCMD_SET_PLAYER_LEDS]"

fun setup_left :: "switch_state \<Rightarrow> nat" where
  "setup_left State_Setup = 8"
| "setup_left State_Req_Dev_Info = 7"
| "setup_left State_Read_Factory_Stick_Calibration = 6"
| "setup_left State_Read_User_Stick_Calibration = 5"
| "setup_left State_Read_Factory_Imu_Calibration = 4"
| "setup_left State_Set_Full_Report = 3"
| "setup_left State_Enable_Imu = 2"
| "setup_left State_Dump_Flash = 2"
| "setup_left State_Update_Led = 1"
| "setup_left State_Ready = 0"
| "setup_left State_Uninit = 0"

definition talk_ok :: "switch_instance \<Rightarrow> bool" where
  "talk_ok s \<longleftrightarrow> sw_state s \<noteq> State_Setup \<and> sw_state s \<noteq> State_Dump_Flash \<and>
     (setup_timer s \<longrightarrow> 2 \<le> setup_left (sw_state s)) \<and>
     (\<exists>n. subcmds s = take (8 - setup_left (sw_state s)) conversation @ replicate n SUBCMD_SET_PLAYER_LEDS \<and>
       (sw_state s \<noteq> State_Ready \<longrightarrow> n = 0))"

subsection \<open>Calibration\<close>

definition imu_ok :: "switch_cal_imu \<Rightarrow> bool" where
  "imu_ok c \<longleftrightarrow> - 32768 \<le> imu_offset c \<and> imu_offset c \<le> 32767 \<and> - 32768 \<le> imu_scale c \<and> imu_scale c \<le> 32767 \<and>
     imu_divisor c = imu_scale c - imu_offset c"

definition cals_ok :: "switch_instance \<Rightarrow> bool" where
  "cals_ok s \<longleftrightarrow> cal_ok (cal_x s) \<and> cal_ok (cal_y s) \<and> cal_ok (cal_rx s) \<and> cal_ok (cal_ry s) \<and>
     length (cal_accel s) = 3 \<and> length (cal_gyro s) = 3 \<and> list_all imu_ok (cal_accel s) \<and> list_all imu_ok (cal_gyro s)"

definition sw_inv :: "switch_instance \<Rightarrow> bool" where
  "sw_inv s \<longleftrightarrow> log_ok s \<and> talk_ok s \<and> cals_ok s \<and> timers_live s"

lemma cal_from_ok: "cal_ok (fst (parse_stick_calibration d l)) \<and> cal_ok (snd (parse_stick_calibration d l))"
  using ranges12 [of d] by (simp add: parse_stick_calibration_def cal_from_def cal_ok_def)

lemma read_imu_ok: "list_all imu_ok (read_imu_cal d k)" "length (read_imu_cal d k) = 3"
  using s16_bounds by (simp_all add: read_imu_cal_def imu_cal_def imu_ok_def)

lemma log_ok_zero: "log_ok (switch_zero (packet_num s) (switch_log s)) = log_ok s" "subcmds (switch_zero p (switch_log s)) = subcmds s"
  by (simp_all add: log_ok_def subcmds_def switch_zero_def)

lemma zero_parts: "cals_ok (switch_zero p l)" "timers_live (switch_zero p l)" "sw_state (switch_zero p l) = State_Uninit"
  "\<not> setup_timer (switch_zero p l)"
  by (simp_all add: cals_ok_def cal_ok_def cal_zero_def imu_ok_def imu_cal_def timers_live_def switch_zero_def list_all_length)

lemma begun_inv: "sw_inv switch_begun"
proof -
  have "log_ok (switch_zero 0 [])" by (simp add: log_ok_def switch_zero_def)
  then have "log_ok switch_begun"
    unfolding switch_begun_def fsm_request_device_info_def subcmd_def
    by (intro send_log_ok) (simp_all add: log_ok_def switch_start_def switch_zero_def)
  moreover have "subcmds switch_begun = [SUBCMD_REQ_DEV_INFO]" "sw_state switch_begun = State_Req_Dev_Info"
    unfolding switch_begun_def fsm_request_device_info_def subcmd_ids
    by (simp_all add: subcmds_def switch_start_def switch_zero_def subcmd_def)
  moreover have "cals_ok switch_begun" "timers_live switch_begun"
    by (simp_all add: switch_begun_def fsm_request_device_info_def subcmd_def cals_ok_def switch_start_def switch_zero_def
        cal_ok_def cal_default_def imu_ok_def imu_cal_def timers_live_def list_all_length)
  ultimately show ?thesis by (simp add: sw_inv_def talk_ok_def conversation_def exI [of _ 0])
qed

subsection \<open>The conversation\<close>

lemma fields_ok:
  "log_ok (s\<lparr>sw_state := st\<rparr>) = log_ok s" "log_ok (s\<lparr>setup_timer := b\<rparr>) = log_ok s" "log_ok (s\<lparr>gamepad_seat := x\<rparr>) = log_ok s"
  "subcmds (s\<lparr>sw_state := st\<rparr>) = subcmds s" "subcmds (s\<lparr>setup_timer := b\<rparr>) = subcmds s"
  "subcmds (s\<lparr>gamepad_seat := x\<rparr>) = subcmds s"
  "cals_ok (s\<lparr>sw_state := st\<rparr>) = cals_ok s" "cals_ok (s\<lparr>setup_timer := b\<rparr>) = cals_ok s" "cals_ok (s\<lparr>gamepad_seat := x\<rparr>) = cals_ok s"
  "timers_live (s\<lparr>sw_state := st\<rparr>) = timers_live s" "timers_live (s\<lparr>setup_timer := b\<rparr>) = timers_live s"
  "timers_live (s\<lparr>gamepad_seat := x\<rparr>) = timers_live s"
  "cals_ok (send_subcmd rid m s) = cals_ok s" "timers_live (send_subcmd rid m s) = timers_live s"
  by (simp_all add: log_ok_def subcmds_def cals_ok_def timers_live_def)

lemma subcmd_keeps:
  "log_ok s \<Longrightarrow> log_ok (subcmd k d s)" "cals_ok (subcmd k d s) = cals_ok s" "timers_live (subcmd k d s) = timers_live s"
  "sw_state (subcmd k d s) = sw_state s" "setup_timer (subcmd k d s) = setup_timer s"
  by (simp_all add: subcmd_def fields_ok send_log_ok)

lemma talk_next:
  assumes "talk_ok s" "setup_left (sw_state s) = Suc n" "1 \<le> n" "subcmds s1 = subcmds s" "setup_left (sw_state s1) = n"
    "sw_state s1 \<noteq> State_Dump_Flash" "setup_timer s1 \<longrightarrow> 2 \<le> n" "k = conversation ! (7 - n)"
  shows "talk_ok (subcmd k d s1)"
proof -
  have n: "n \<le> 7" using assms(2) by (cases "sw_state s") auto
  have "sw_state s \<noteq> State_Ready" using assms(2) by auto
  then have "subcmds s = take (7 - n) conversation" using assms(1,2) by (auto simp: talk_ok_def)
  moreover have "take (8 - n) conversation = take (7 - n) conversation @ [conversation ! (7 - n)]"
  proof -
    have "7 - n < length conversation" "8 - n = Suc (7 - n)" using n assms(3) by (simp_all add: conversation_def)
    then show ?thesis by (simp only: take_Suc_conv_app_nth)
  qed
  moreover have "sw_state s1 \<noteq> State_Setup"
  proof
    assume "sw_state s1 = State_Setup"
    with assms(5) have "n = 8" by simp
    with n show False by simp
  qed
  moreover have "sw_state s1 \<noteq> State_Ready" using assms(3,5) by auto
  ultimately show ?thesis
    using assms(4-8) by (simp add: talk_ok_def subcmd_ids subcmd_keeps exI [of _ 0])
qed

lemma inv_next:
  assumes "sw_inv s" "setup_left (sw_state s) = Suc n" "1 \<le> n" "setup_left st = n" "st \<noteq> State_Dump_Flash"
    "b \<longrightarrow> 2 \<le> n" "k = conversation ! (7 - n)"
  shows "sw_inv (subcmd k d (s\<lparr>sw_state := st, setup_timer := b, gamepad_seat := x\<rparr>))"
  using assms talk_next [of s n "s\<lparr>sw_state := st, setup_timer := b, gamepad_seat := x\<rparr>" k d]
  by (simp add: sw_inv_def fields_ok subcmd_keeps)

lemma field_order: "s\<lparr>setup_timer := b, sw_state := st\<rparr> = s\<lparr>sw_state := st, setup_timer := b\<rparr>" for s :: switch_instance
  by simp

lemma timer_left: "sw_inv s \<Longrightarrow> setup_timer s \<Longrightarrow> 2 \<le> setup_left (sw_state s)"
  by (simp add: sw_inv_def talk_ok_def)

text \<open>One step of the machine: the invariant holds, and a pad that is not refused is one step closer.\<close>

lemma fsm_plain_inv:
  assumes "sw_inv s" "sw_state s \<noteq> State_Update_Led" "process_fsm gap accept i (w, s) = Some (w', s')"
  shows "w' = w \<and> sw_inv s' \<and> setup_left (sw_state s') = setup_left (sw_state s) - 1 \<and>
    (setup_timer s' \<longrightarrow> setup_timer s) \<and> (sw_state s' = State_Uninit \<longleftrightarrow> sw_state s = State_Uninit)"
proof (cases "sw_state s")
  case State_Req_Dev_Info
  with assms show ?thesis
    using inv_next [OF assms(1), of 6 State_Read_Factory_Stick_Calibration "setup_timer s" SUBCMD_SPI_FLASH_READ _ "gamepad_seat s"]
    by (auto simp: process_fsm.simps fsm_read_factory_stick_calibration_def spi_read_def conversation_def subcmd_keeps)
next
  case State_Read_Factory_Stick_Calibration
  with assms show ?thesis
    using inv_next [OF assms(1), of 5 State_Read_User_Stick_Calibration "setup_timer s" SUBCMD_SPI_FLASH_READ _ "gamepad_seat s"]
    by (auto simp: process_fsm.simps fsm_read_user_stick_calibration_def spi_read_def conversation_def subcmd_keeps)
next
  case State_Read_User_Stick_Calibration
  with assms show ?thesis
    using inv_next [OF assms(1), of 4 State_Read_Factory_Imu_Calibration "setup_timer s" SUBCMD_SPI_FLASH_READ _ "gamepad_seat s"]
    by (auto simp: process_fsm.simps fsm_read_factory_imu_calibration_def spi_read_def conversation_def subcmd_keeps)
next
  case State_Read_Factory_Imu_Calibration
  with assms show ?thesis
    using inv_next [OF assms(1), of 3 State_Set_Full_Report "setup_timer s" SUBCMD_SET_REPORT_MODE _ "gamepad_seat s"]
    by (auto simp: process_fsm.simps fsm_set_full_report_def conversation_def subcmd_keeps)
next
  case State_Set_Full_Report
  with assms show ?thesis
    using inv_next [OF assms(1), of 2 State_Enable_Imu "setup_timer s" SUBCMD_ENABLE_IMU _ "gamepad_seat s"]
    by (auto simp: process_fsm.simps fsm_enable_imu_def conversation_def subcmd_keeps)
next
  case State_Enable_Imu
  with assms show ?thesis
    using inv_next [OF assms(1), of 1 State_Update_Led False SUBCMD_SET_PLAYER_LEDS _ "gamepad_seat s"]
    by (auto simp: process_fsm.simps fsm_update_led_def set_led_def conversation_def subcmd_keeps field_order)
next
  case State_Ready
  with assms show ?thesis
    by (auto simp: process_fsm.simps sw_inv_def talk_ok_def fields_ok)
next
  case State_Uninit
  with assms show ?thesis by (auto simp: process_fsm.simps)
qed (use assms in \<open>auto simp: sw_inv_def talk_ok_def\<close>)

text \<open>The last step hands the pad to the platform.\<close>

lemma fsm_last_inv:
  assumes "sw_inv s" "sw_state s = State_Update_Led" "process_fsm gap accept i (w, s) = Some (w', s')"
  shows "\<exists>ok. uni_hid_device_set_ready_complete gap accept i w = Some (w', ok) \<and> sw_inv s' \<and> \<not> setup_timer s' \<and>
    sw_state s' = (if free_slot (devs w' ! i) then State_Uninit else State_Ready)"
proof -
  obtain ok where r: "uni_hid_device_set_ready_complete gap accept i w = Some (w', ok)"
    and s': "s' = (if free_slot (devs w' ! i) then switch_zero (packet_num s) (switch_log s)
      else s\<lparr>sw_state := State_Ready, setup_timer := False\<rparr>)"
    using assms(2,3)
    by (auto simp: process_fsm.simps [of gap accept i w s] process_fsm.simps [of gap accept i w' s'] split: option.splits if_splits)
       (auto simp: process_fsm.simps zero_parts split: if_splits)
  have "subcmds s = take 7 conversation" "log_ok s" using assms(1,2) by (auto simp: sw_inv_def talk_ok_def)
  then have "sw_inv s'"
    using assms(1) by (auto simp: s' sw_inv_def talk_ok_def fields_ok zero_parts log_ok_zero conversation_def)
  then show ?thesis using r by (auto simp: s' zero_parts)
qed

subsection \<open>Replies\<close>

text \<open>A reply changes the calibration and what the driver knows of the pad, nothing else.\<close>

definition same_core :: "switch_instance \<Rightarrow> switch_instance \<Rightarrow> bool" where
  "same_core s s' \<longleftrightarrow> sw_state s' = sw_state s \<and> setup_timer s' = setup_timer s \<and> switch_log s' = switch_log s \<and>
     packet_num s' = packet_num s \<and> rumble.truncate s' = rumble.truncate s"

lemma same_core_inv: "sw_inv s \<Longrightarrow> same_core s s' \<Longrightarrow> cals_ok s' \<Longrightarrow> sw_inv s'"
  by (auto simp: sw_inv_def same_core_def log_ok_def talk_ok_def subcmds_def timers_live_def rumble.truncate_def)

lemma set_core: "same_core s (set_left xy s)" "same_core s (set_right xy s)" "same_core s s"
  "same_core s s' \<Longrightarrow> same_core s (set_right xy s')"
  by (simp_all add: same_core_def set_left_def set_right_def rumble.truncate_def)

lemma set_cals: "cals_ok s \<Longrightarrow> cals_ok (set_left (parse_stick_calibration d l) s)"
  "cals_ok s \<Longrightarrow> cals_ok (set_right (parse_stick_calibration d l) s)"
  using cal_from_ok [of d l] by (simp_all add: cals_ok_def set_left_def set_right_def)

lemma factory_keeps:
  "process_reply_read_spi_factory_stick_calibration r len s = Some s' \<Longrightarrow> cals_ok s \<Longrightarrow> same_core s s' \<and> cals_ok s'"
  by (auto simp: process_reply_read_spi_factory_stick_calibration_def hexdump_def bind_eq_Some_conv set_core set_cals
      split: if_splits)

lemma user_keeps:
  "process_reply_read_spi_user_stick_calibration r len s = Some s' \<Longrightarrow> cals_ok s \<Longrightarrow> same_core s s' \<and> cals_ok s'"
  by (auto simp: process_reply_read_spi_user_stick_calibration_def hexdump_def bind_eq_Some_conv Let_def set_core set_cals
      split: if_splits)

lemma imu_keeps:
  "process_reply_read_spi_factory_imu_calibration r len s = Some s' \<Longrightarrow> cals_ok s \<Longrightarrow> same_core s s' \<and> cals_ok s'"
  by (auto simp: process_reply_read_spi_factory_imu_calibration_def cals_ok_def read_imu_ok same_core_def rumble.truncate_def
      split: if_splits)

lemma info_keeps: "process_reply_req_dev_info r s = Some s' \<Longrightarrow> cals_ok s \<Longrightarrow> same_core s s' \<and> cals_ok s'"
  by (auto simp: process_reply_req_dev_info_def bind_eq_Some_conv Let_def same_core_def rumble.truncate_def cals_ok_def)

lemma spi_cases:
  "process_reply_spi_flash_read r len s = Some s' \<Longrightarrow> s' = s \<or>
     (\<exists>n. process_reply_read_spi_factory_stick_calibration (drop 20 r) n s = Some s') \<or>
     (\<exists>n. process_reply_read_spi_user_stick_calibration (drop 20 r) n s = Some s') \<or>
     (\<exists>n. process_reply_read_spi_factory_imu_calibration (drop 20 r) n s = Some s')"
  unfolding process_reply_spi_flash_read_def Let_def
  by (cases "sw_state s"; cases "len < 15 + 5"; cases "read_bytes r 15 5"; simp only: if_True if_False
      switch_state.case Option.bind.simps option.distinct option.inject; blast)

lemma spi_keeps: "process_reply_spi_flash_read r len s = Some s' \<Longrightarrow> cals_ok s \<Longrightarrow> same_core s s' \<and> cals_ok s'"
  using spi_cases [of r len s s'] factory_keeps user_keeps imu_keeps set_core(3) by metis

lemma reply_keeps:
  assumes "subcmd_reply r len (c, s) = Some (c', s')" "cals_ok s"
  shows "same_core s s' \<and> cals_ok s' \<and> gamepad c' = gamepad c"
proof -
  have h: "reply_handler r len s = Some s'" "c' = switch_battery (r ! 2) c"
    using assms(1) by (auto simp: subcmd_reply_def split: if_splits)
  then show ?thesis
    using assms(2) info_keeps spi_keeps set_core(3)
    by (auto simp: reply_handler_def switch_battery_def Let_def split: if_splits)
qed

subsection \<open>Rumble\<close>

text \<open>
  The machine of the drivers that assert in every stop that the motors run, this one and that of
  theory \<open>Dualshock\<close>.
\<close>

definition strict_stop_now :: "'a rumble_scheme \<Rightarrow> 'a rumble_scheme option" where
  "strict_stop_now r = (if rumble_state r \<noteq> Rumble_In_Progress then None else Some (r\<lparr>rumble_state := Rumble_Disabled\<rparr>))"

definition strict_play_now :: "u16 \<Rightarrow> 'a rumble_scheme \<Rightarrow> 'a rumble_scheme option" where
  "strict_play_now dur r =
     (if dur = 0 then (if rumble_state r \<noteq> Rumble_Disabled then strict_stop_now r else Some r) else add_duration dur r)"

definition strict_play :: "u16 \<Rightarrow> u16 \<Rightarrow> 'a rumble_scheme \<Rightarrow> 'a rumble_scheme option" where
  "strict_play delay dur r =
     (if delay = 0 then strict_play_now dur (remove_timers r)
      else add_delayed delay ((remove_timers r)\<lparr>rumble_duration_ms := dur\<rparr>))"

definition strict_on :: "'a rumble_scheme \<Rightarrow> 'a rumble_scheme option" where
  "strict_on r = strict_play_now (rumble_duration_ms r) (r\<lparr>timer_delayed_start := None\<rparr>)"

definition strict_off :: "'a rumble_scheme \<Rightarrow> 'a rumble_scheme option" where
  "strict_off r = strict_stop_now (r\<lparr>timer_duration := None\<rparr>)"

lemmas strict_defs = strict_play_def strict_on_def strict_off_def strict_play_now_def strict_stop_now_def
  add_delayed_def add_duration_def remove_timers_def timers_live_def

locale strict_driver =
  fixes play :: "u16 \<Rightarrow> u16 \<Rightarrow> 'arg \<Rightarrow> 's \<Rightarrow> 's option"
    and on :: "'s \<Rightarrow> 's option"
    and off :: "'s \<Rightarrow> 's option"
    and timers :: "'s \<Rightarrow> rumble"
  assumes play_refines: "map_option timers (play delay dur arg s) = strict_play delay dur (timers s)"
    and on_refines: "map_option timers (on s) = strict_on (timers s)"
    and off_refines: "map_option timers (off s) = strict_off (timers s)"
begin

lemma play_fails:
  assumes "timers_live (timers s)"
  shows "play delay dur arg s = None \<longleftrightarrow> delay = 0 \<and> dur = 0 \<and> rumble_state (timers s) = Rumble_Delayed"
proof -
  have "play delay dur arg s = None \<longleftrightarrow> strict_play delay dur (timers s) = None"
    using play_refines [of delay dur arg s] by (metis option.map_disc_iff)
  then show ?thesis using assms by (cases "rumble_state (timers s)") (auto simp: strict_defs)
qed

lemma play_live: "timers_live (timers s) \<Longrightarrow> play delay dur arg s = Some s' \<Longrightarrow> timers_live (timers s')"
  using play_refines [of delay dur arg s]
  by (cases "rumble_state (timers s)") (auto simp: strict_defs split: if_splits)

lemma on_fails:
  assumes "timers_live (timers s)" "timer_delayed_start (timers s) \<noteq> None"
  shows "on s = None \<longleftrightarrow> rumble_duration_ms (timers s) = 0"
proof -
  have "on s = None \<longleftrightarrow> strict_on (timers s) = None" using on_refines [of s] by (metis option.map_disc_iff)
  then show ?thesis using assms by (auto simp: strict_defs)
qed

lemma on_live:
  "timers_live (timers s) \<Longrightarrow> timer_delayed_start (timers s) \<noteq> None \<Longrightarrow> on s = Some s' \<Longrightarrow> timers_live (timers s')"
  using on_refines [of s] by (auto simp: strict_defs split: if_splits)

lemma off_live:
  "timers_live (timers s) \<Longrightarrow> timer_duration (timers s) \<noteq> None \<Longrightarrow>
   \<exists>s'. off s = Some s' \<and> timers_live (timers s') \<and> rumble_state (timers s') = Rumble_Disabled"
  using off_refines [of s] by (auto simp: strict_defs split: if_splits)

text \<open>A stop while a delayed rumble is pending fails the assertion, and so does a delayed rumble of no duration.\<close>

lemma stop_aborts:
  assumes "timers_live (timers s)" "delay \<noteq> 0"
  shows "\<exists>s1. play delay dur arg s = Some s1 \<and> play 0 0 arg' s1 = None \<and> (dur = 0 \<longrightarrow> on s1 = None)"
proof -
  obtain s1 where s1: "play delay dur arg s = Some s1" using play_fails [OF assms(1)] assms(2) by (metis not_None_eq)
  have "rumble_state (timers s1) = Rumble_Delayed \<and> rumble_duration_ms (timers s1) = dur \<and> timer_delayed_start (timers s1) = Some delay"
    using play_refines [of delay dur arg s] s1 assms by (auto simp: strict_defs split: if_splits)
  with play_live [OF assms(1) s1] s1 play_fails [of s1 0 0 arg'] on_fails [of s1] show ?thesis by auto
qed

end


lemma switch_truncate [simp]:
  "rumble.truncate (send_subcmd rid m s) = rumble.truncate s"
  "rumble.truncate (s\<lparr>sw_strong := a\<rparr>) = rumble.truncate s" "rumble.truncate (s\<lparr>sw_weak := a\<rparr>) = rumble.truncate s"
  by (simp_all add: rumble.truncate_def send_subcmd_def)

lemma switch_stop: "map_option rumble.truncate (switch_stop_rumble_now s) = strict_stop_now (rumble.truncate s)"
  by (simp add: switch_stop_rumble_now_def strict_stop_now_def rumble_truncate)

lemma switch_play: "map_option rumble.truncate (switch_play_dual_rumble_now dur m s) = strict_play_now dur (rumble.truncate s)"
  by (simp add: switch_play_dual_rumble_now_def strict_play_now_def truncate_add switch_stop rumble_truncate)

interpretation switch: strict_driver uni_hid_parser_switch_play_dual_rumble on_switch_set_rumble_on
  on_switch_set_rumble_off rumble.truncate
proof unfold_locales
  show "map_option rumble.truncate (uni_hid_parser_switch_play_dual_rumble delay dur mags s) =
      strict_play delay dur (rumble.truncate s)" for delay dur mags s
    by (simp add: uni_hid_parser_switch_play_dual_rumble_def strict_play_def Let_def truncate_add switch_play truncate_remove
        rumble_truncate)
  show "map_option rumble.truncate (on_switch_set_rumble_on s) = strict_on (rumble.truncate s)" for s
    by (simp add: on_switch_set_rumble_on_def strict_on_def switch_play rumble_truncate)
  show "map_option rumble.truncate (on_switch_set_rumble_off s) = strict_off (rumble.truncate s)" for s
    by (simp add: on_switch_set_rumble_off_def strict_off_def switch_stop rumble_truncate)
qed

lemma ds4_truncate [simp]:
  "rumble.truncate (ds4_send_output_report m s) = rumble.truncate s" "rumble.truncate (s\<lparr>prev_rumble := p\<rparr>) = rumble.truncate s"
  "rumble.truncate (s\<lparr>ds4_strong := a\<rparr>) = rumble.truncate s" "rumble.truncate (s\<lparr>ds4_weak := a\<rparr>) = rumble.truncate s"
  by (simp_all add: rumble.truncate_def ds4_send_output_report_def)

lemma ds4_stop: "map_option rumble.truncate (ds4_stop_rumble_now s) = strict_stop_now (rumble.truncate s)"
  by (simp add: ds4_stop_rumble_now_def strict_stop_now_def rumble_truncate Let_def)

lemma ds4_play: "map_option rumble.truncate (ds4_play_dual_rumble_now dur m s) = strict_play_now dur (rumble.truncate s)"
  by (simp add: ds4_play_dual_rumble_now_def strict_play_now_def truncate_add ds4_stop rumble_truncate Let_def)

interpretation ds4: strict_driver uni_hid_parser_ds4_play_dual_rumble on_ds4_set_rumble_on
  on_ds4_set_rumble_off rumble.truncate
proof unfold_locales
  show "map_option rumble.truncate (uni_hid_parser_ds4_play_dual_rumble delay dur mags s) =
      strict_play delay dur (rumble.truncate s)" for delay dur mags s
    by (simp add: uni_hid_parser_ds4_play_dual_rumble_def strict_play_def Let_def truncate_add ds4_play truncate_remove
        rumble_truncate)
  show "map_option rumble.truncate (on_ds4_set_rumble_on s) = strict_on (rumble.truncate s)" for s
    by (simp add: on_ds4_set_rumble_on_def strict_on_def ds4_play rumble_truncate)
  show "map_option rumble.truncate (on_ds4_set_rumble_off s) = strict_off (rumble.truncate s)" for s
    by (simp add: on_ds4_set_rumble_off_def strict_off_def ds4_stop rumble_truncate)
qed

text \<open>What a rumble request or a timer leaves alone.\<close>

definition rumble_only :: "switch_instance \<Rightarrow> switch_instance \<Rightarrow> bool" where
  "rumble_only s s' \<longleftrightarrow> (log_ok s \<longrightarrow> log_ok s') \<and> subcmds s' = subcmds s \<and> sw_state s' = sw_state s \<and>
     setup_timer s' = setup_timer s \<and> cals_ok s' = cals_ok s"

lemma rumble_only_updates [simp]:
  "rumble_only s (s'\<lparr>rumble_state := a\<rparr>) = rumble_only s s'" "rumble_only s (s'\<lparr>timer_duration := b\<rparr>) = rumble_only s s'"
  "rumble_only s (s'\<lparr>timer_delayed_start := b\<rparr>) = rumble_only s s'" "rumble_only s (s'\<lparr>rumble_duration_ms := d\<rparr>) = rumble_only s s'"
  "rumble_only s (s'\<lparr>sw_strong := e\<rparr>) = rumble_only s s'" "rumble_only s (s'\<lparr>sw_weak := e\<rparr>) = rumble_only s s'"
  "rumble_only s s"
  by (simp_all add: rumble_only_def log_ok_def subcmds_def cals_ok_def)

lemma rumble_only_timers:
  "rumble_only s (remove_timers s') = rumble_only s s'"
  "add_delayed ms s' = Some s'' \<Longrightarrow> rumble_only s s'' = rumble_only s s'"
  "add_duration ms s' = Some s'' \<Longrightarrow> rumble_only s s'' = rumble_only s s'"
  by (auto simp: remove_timers_def add_delayed_def add_duration_def split: rumble_state.splits if_splits)

lemma rumble_only_send: "rumble_only s s' \<Longrightarrow> 8 \<le> length m \<Longrightarrow> rumble_only s (send_subcmd 0x10 m s')"
  using rumble_ids [of m s'] by (simp add: rumble_only_def send_log_ok fields_ok)

lemma switch_rumble_length: "length (switch_rumble mags) = 8"
  by (simp add: switch_rumble_def Let_def encode_fixed_amplitude(1))

lemma play_now_only: "switch_play_dual_rumble_now dur mags s = Some s' \<Longrightarrow> rumble_only s s'"
  by (auto simp: switch_play_dual_rumble_now_def switch_stop_rumble_now_def rumble_only_send switch_rumble_length
      rumble_only_timers split: if_splits)

lemma rumble_only_trans: "rumble_only s s1 \<Longrightarrow> rumble_only s1 s2 \<Longrightarrow> rumble_only s s2"
  by (simp add: rumble_only_def)

lemma play_only: "uni_hid_parser_switch_play_dual_rumble delay dur mags s = Some s' \<Longrightarrow> rumble_only s s'"
  using rumble_only_trans [of s "remove_timers s" s']
  by (auto simp: uni_hid_parser_switch_play_dual_rumble_def Let_def rumble_only_timers dest: play_now_only split: if_splits)

lemma on_only: "on_switch_set_rumble_on s = Some s' \<Longrightarrow> rumble_only s s'"
  using rumble_only_trans [of s "s\<lparr>timer_delayed_start := None\<rparr>" s']
  by (auto simp: on_switch_set_rumble_on_def dest: play_now_only)

lemma off_only: "on_switch_set_rumble_off s = Some s' \<Longrightarrow> rumble_only s s'"
  by (auto simp: on_switch_set_rumble_off_def switch_stop_rumble_now_def rumble_only_send split: if_splits)

lemma rumble_only_inv: "sw_inv s \<Longrightarrow> rumble_only s s' \<Longrightarrow> timers_live (rumble.truncate s') \<Longrightarrow> sw_inv s'"
  by (auto simp: sw_inv_def rumble_only_def talk_ok_def timers_live_def rumble_truncate)

lemma inv_live: "sw_inv s \<Longrightarrow> timers_live (rumble.truncate s)"
  by (auto simp: sw_inv_def timers_live_def rumble_truncate)

subsection \<open>Input reports\<close>

lemma flag_bits [simp]: "flag_if b m w AND k = (if b AND m \<noteq> 0 then w AND k else 0)"
  by (simp add: flag_if_def)

lemma stick_zero [simp]: "stick_ok 0"
  by (simp add: stick_ok_def)

lemma pro_pad:
  assumes "parse_report_30_pro_controller s r gamepad_zero = Some gp"
  shows "pad_ok gp"
  using assms
  by (auto simp: parse_report_30_pro_controller_def bind_eq_Some_conv Let_def pad_ok_def gamepad_ok_def bits_ok_def
      gamepad_zero_def bit.conj_disj_distrib2 pro_buttons_def pro_dpad_def pro_misc_def 
      dest: axis_in_range split: if_splits)

lemma joycon_pad:
  "parse_report_30_joycon_left s r gamepad_zero = Some gp \<Longrightarrow> pad_ok gp"
  "parse_report_30_joycon_right s r gamepad_zero = Some gp \<Longrightarrow> pad_ok gp"
  by (auto simp: parse_report_30_joycon_left_def parse_report_30_joycon_right_def bind_eq_Some_conv Let_def pad_ok_def
      gamepad_ok_def bits_ok_def gamepad_zero_def bit.conj_disj_distrib2  dest: axis_in_range)

lemma motion_pad: "parse_imu s d gp = Some gp' \<Longrightarrow> pad_ok gp' = pad_ok gp"
  by (auto simp: parse_imu_def bind_eq_Some_conv Let_def pad_ok_def gamepad_ok_def bits_ok_def)


lemma axis_3f_ok: "stick_ok (axis_3f r i)"
proof -
  define u where "u = uint (le16 r i)"
  have u: "0 \<le> u" "u < 65536" using unsigned_less [of "le16 r i"] by (simp_all add: u_def)
  then have "axis_3f r i = u * 1024 div 65536 - 512" by (simp add: axis_3f_def u_def c_quot_nonneg)
  moreover have "0 \<le> u * 1024 div 65536" "u * 1024 div 65536 \<le> 1024" using u by auto
  ultimately show ?thesis by (simp add: stick_ok_def)
qed

lemma hat_bits: "uni_hid_parser_hat_to_dpad h AND 0xF0 = 0"
  by (simp add: uni_hid_parser_hat_to_dpad_def)

lemma pad_3f: "pad_ok (gamepad (parse_report_3f r c))"
proof -
  let ?gp = "gamepad (parse_report_3f r c)"
  have "gamepad_ok ?gp" by (simp add: parse_report_3f_def Let_def gamepad_ok_def axis_3f_ok)
  moreover have "dpad ?gp AND 0xF0 = 0" by (simp add: parse_report_3f_def Let_def hat_bits)
  moreover have "buttons ?gp AND 0xFC00 = 0" by (simp add: parse_report_3f_def Let_def bit.conj_disj_distrib2)
  moreover have "misc_buttons ?gp AND 0xF0 = 0" by (simp add: parse_report_3f_def Let_def bit.conj_disj_distrib2)
  ultimately show ?thesis by (simp add: pad_ok_def bits_ok_def)
qed

lemma report_30_pad_ok: "report_30_pad s r = Some gp \<Longrightarrow> pad_ok gp"
  by (auto simp: report_30_pad_def Let_def pad_zero dest: pro_pad joycon_pad split: if_splits)

lemma pad_30: "parse_report_30 r (c, s) = Some (c', s') \<Longrightarrow> s' = s \<and> pad_ok (gamepad c')"
  by (auto simp: parse_report_30_def bind_eq_Some_conv motion_pad dest: report_30_pad_ok split: if_splits)

text \<open>The motion sensors: only the gyroscope divides without a look at its divisor.\<close>

lemma gyro_fails:
  assumes "imu_ok c" "- 32768 \<le> raw" "raw \<le> 32767"
  shows "imu_gyro c raw = None \<longleftrightarrow> imu_divisor c = 0"
proof -
  have i: "int32_ok (1000 * (raw - imu_offset c))" "int32_ok (imu_scale c)" using assms by (auto simp: imu_ok_def int32_ok_def)
  have z: "mult_frac x m 0 = None" for x m by (simp add: mult_frac_def c_div64_def)
  have e: "imu_gyro c raw = map_option (\<lambda>x. sint (word_of_int x :: u32))
      (mult_frac (1000 * (raw - imu_offset c)) (imu_scale c) (imu_divisor c))"
    using i(1) by (simp add: imu_gyro_def i32_def map_conv_bind_option comp_def)
  show ?thesis
    unfolding e using mult_frac_value [OF i, of "imu_divisor c"] z by (cases "imu_divisor c = 0") simp_all
qed

lemma accel_works:
  assumes "imu_ok c" "- 32768 \<le> raw" "raw \<le> 32767"
  shows "\<exists>a. imu_accel c raw = Some a"
proof (cases "imu_divisor c = 0")
  case False
  have "\<bar>raw * imu_scale c\<bar> \<le> 32768 * 32768"
    unfolding abs_mult using assms by (intro mult_mono) (auto simp: imu_ok_def)
  moreover have "\<bar>c_quot (raw * imu_scale c) (imu_divisor c)\<bar> \<le> \<bar>raw * imu_scale c\<bar>" by (rule c_quot_abs)
  ultimately have "int32_ok (raw * imu_scale c)" "int32_ok (c_quot (raw * imu_scale c) (imu_divisor c))"
    by (auto simp: int32_ok_def)
  then show ?thesis using False by (simp add: imu_accel_def i32_def c_div_def)
qed (simp add: imu_accel_def)

lemma motion_fails:
  assumes "cals_ok s" "controller_type s \<noteq> SWITCH_CONTROLLER_TYPE_JCR"
  shows "parse_imu s d gp = None \<longleftrightarrow> (\<exists>g \<in> set (cal_gyro s). imu_divisor g = 0)"
proof -
  obtain a0 a1 a2 g0 g1 g2 where c: "cal_accel s = [a0, a1, a2]" "cal_gyro s = [g0, g1, g2]"
    using assms(1) by (auto simp: cals_ok_def numeral_3_eq_3 length_Suc_conv)
  then have ok: "imu_ok a0" "imu_ok a1" "imu_ok a2" "imu_ok g0" "imu_ok g1" "imu_ok g2" using assms(1) by (auto simp: cals_ok_def)
  obtain x0 x1 x2 where a: "imu_accel a0 (s16 d 0) = Some x0" "imu_accel a1 (s16 d 2) = Some x1" "imu_accel a2 (s16 d 4) = Some x2"
    using accel_works [OF ok(1) s16_bounds, of d 0] accel_works [OF ok(2) s16_bounds, of d 2] accel_works [OF ok(3) s16_bounds, of d 4] by blast
  note g = gyro_fails [OF ok(4) s16_bounds, of d 6] gyro_fails [OF ok(5) s16_bounds, of d 8] gyro_fails [OF ok(6) s16_bounds, of d 10]
  show ?thesis
    using g assms(2)
    by (cases "imu_gyro g0 (s16 d 6)"; cases "imu_gyro g1 (s16 d 8)"; cases "imu_gyro g2 (s16 d 10)")
      (simp_all add: parse_imu_def c a Let_def)
qed

subsection \<open>Steps\<close>

definition is_reply :: "sw_event \<Rightarrow> bool" where
  "is_reply e \<longleftrightarrow> (case e of Sw_Report r len \<Rightarrow> 12 \<le> len \<and> r ! 0 = SWITCH_INPUT_SUBCMD_REPLY | _ \<Rightarrow> False)"

definition fires :: "sw_event \<Rightarrow> switch_instance \<Rightarrow> bool" where
  "fires e s \<longleftrightarrow> e = Sw_Setup_Timeout \<and> setup_timer s"

lemma play_inv:
  "sw_inv s \<Longrightarrow> uni_hid_parser_switch_play_dual_rumble delay dur mags s = Some s' \<Longrightarrow>
    sw_inv s' \<and> sw_state s' = sw_state s \<and> setup_timer s' = setup_timer s"
  using switch.play_live [OF inv_live] play_only rumble_only_inv by (metis rumble_only_def)

lemma on_inv:
  "sw_inv s \<Longrightarrow> timer_delayed_start s \<noteq> None \<Longrightarrow> on_switch_set_rumble_on s = Some s' \<Longrightarrow>
    sw_inv s' \<and> sw_state s' = sw_state s \<and> setup_timer s' = setup_timer s"
  using switch.on_live [OF inv_live] on_only rumble_only_inv by (metis rumble_only_def rumble_truncate(2))

lemma off_inv:
  "sw_inv s \<Longrightarrow> timer_duration s \<noteq> None \<Longrightarrow> on_switch_set_rumble_off s = Some s' \<Longrightarrow>
    sw_inv s' \<and> sw_state s' = sw_state s \<and> setup_timer s' = setup_timer s"
  using switch.off_live [OF inv_live] off_only rumble_only_inv
  by (metis rumble_only_def rumble_truncate(3) option.inject)

lemma leds_inv:
  assumes "sw_inv s"
  shows "sw_inv (uni_hid_parser_switch_set_player_leds l s)"
    "sw_state (uni_hid_parser_switch_set_player_leds l s) = sw_state s"
    "setup_timer (uni_hid_parser_switch_set_player_leds l s) = setup_timer s"
proof -
  show "sw_inv (uni_hid_parser_switch_set_player_leds l s)"
  proof (cases "sw_state s = State_Ready")
    case True
    then obtain n where "subcmds s = conversation @ replicate n SUBCMD_SET_PLAYER_LEDS"
      using assms by (auto simp: sw_inv_def talk_ok_def conversation_def)
    then have "subcmds (set_led l (s\<lparr>gamepad_seat := l\<rparr>)) = conversation @ replicate (Suc n) SUBCMD_SET_PLAYER_LEDS"
      by (simp add: set_led_def subcmd_ids fields_ok replicate_append_same)
    then show ?thesis
      using True assms
      by (simp add: uni_hid_parser_switch_set_player_leds_def Let_def sw_inv_def talk_ok_def set_led_def subcmd_keeps fields_ok
          conversation_def exI [of _ "Suc n"])
  next
    case False
    then show ?thesis
      using assms by (simp add: uni_hid_parser_switch_set_player_leds_def sw_inv_def fields_ok talk_ok_def)
  qed
qed (simp_all add: uni_hid_parser_switch_set_player_leds_def Let_def set_led_def subcmd_keeps)

text \<open>An event either makes the set-up machine take one step, or leaves the set-up where it is.\<close>

lemma sw_step_cases:
  assumes "sw_inv s" "sw_step gap accept i e (w, c, s) = Some (w', c', s')"
  shows "(is_reply e \<or> fires e s) \<and>
      (\<exists>s1. sw_inv s1 \<and> sw_state s1 = sw_state s \<and> (setup_timer s1 \<longleftrightarrow> setup_timer s \<and> \<not> fires e s) \<and> gamepad c' = gamepad c \<and>
        process_fsm gap accept i (w, s1) = Some (w', s')) \<or>
    \<not> is_reply e \<and> \<not> fires e s \<and> w' = w \<and> sw_inv s' \<and> sw_state s' = sw_state s \<and> setup_timer s' = setup_timer s \<and>
      (pad_ok (gamepad c) \<longrightarrow> pad_ok (gamepad c'))"
proof (cases e)
  case (Sw_Report r len)
  show ?thesis
  proof (cases "is_reply e")
    case True
    then have "process_input_subcmd_reply gap accept i r len (w, c, s) = Some (w', c', s')"
      using assms(2) Sw_Report
      by (auto simp: sw_step_def uni_hid_parser_switch_parse_input_report_def is_reply_def not_less [symmetric] split: if_splits)
    then obtain s1 where "subcmd_reply r len (c, s) = Some (c', s1)" "process_fsm gap accept i (w, s1) = Some (w', s')"
      by (auto simp: process_input_subcmd_reply_def bind_eq_Some_conv)
    moreover from this(1) assms(1) have "same_core s s1" "cals_ok s1" "gamepad c' = gamepad c"
      using reply_keeps by (auto simp: sw_inv_def)
    ultimately show ?thesis
      using True same_core_inv [OF assms(1)] Sw_Report by (auto simp: fires_def same_core_def)
  next
    case False
    then show ?thesis
      using assms Sw_Report pad_3f [of r c] pad_30 [of r c s]
      by (auto simp: sw_step_def uni_hid_parser_switch_parse_input_report_def is_reply_def fires_def not_less split: if_splits)
  qed
next
  case Sw_Setup_Timeout
  then show ?thesis
    using assms
    by (auto simp: sw_step_def switch_setup_timeout_callback_def is_reply_def fires_def sw_inv_def fields_ok talk_ok_def
        intro!: exI [of _ "s\<lparr>setup_timer := False\<rparr>"] split: if_splits)
next
  case (Sw_Leds l)
  then show ?thesis using assms leds_inv [OF assms(1)] by (auto simp: sw_step_def is_reply_def fires_def)
next
  case (Sw_Play delay dur mags)
  then show ?thesis using assms play_inv [OF assms(1), of delay dur mags s'] by (auto simp: sw_step_def is_reply_def fires_def)
next
  case Sw_On
  then show ?thesis using assms on_inv [OF assms(1)] by (auto simp: sw_step_def is_reply_def fires_def split: if_splits)
next
  case Sw_Off
  then show ?thesis using assms off_inv [OF assms(1)] by (auto simp: sw_step_def is_reply_def fires_def split: if_splits)
qed

lemma sw_step_inv:
  assumes "sw_inv s" "pad_ok (gamepad c)" "sw_step gap accept i e (w, c, s) = Some (w', c', s')"
  shows "sw_inv s' \<and> pad_ok (gamepad c')"
proof -
  consider (fsm) s1 where "sw_inv s1" "process_fsm gap accept i (w, s1) = Some (w', s')" "gamepad c' = gamepad c"
    | (quiet) "sw_inv s'" "pad_ok (gamepad c) \<longrightarrow> pad_ok (gamepad c')"
    using sw_step_cases [OF assms(1,3)] by blast
  then show ?thesis
  proof cases
    case fsm
    then have "sw_inv s'" using fsm_plain_inv [OF fsm(1) _ fsm(2)] fsm_last_inv [OF fsm(1) _ fsm(2)] by blast
    then show ?thesis using fsm(3) assms(2) by simp
  qed (use assms(2) in simp)
qed

section \<open>A calibration of zeros\<close>

definition zero_calibration :: "sw_event list" where
  "zero_calibration = [Sw_Report (0x21 # replicate 13 0 @ [0x02, 3, 0x48, 3]) 18,
     Sw_Report (0x21 # replicate 13 0 @ [0x10, 0x3d, 0x60, 0, 0, 18] @ replicate 18 0) 38]"

lemma zero_range_fails: "0 \<le> v \<Longrightarrow> v \<le> 4095 \<Longrightarrow> calibrate_axis v (cal_from 0 0 0) = None"
  using calibrate_axis_exact [of "cal_from 0 0 0" v] by (auto simp: cal_ok_def cal_from_def)

lemma zeros12: "i + 2 < n \<Longrightarrow> low12 (replicate n 0) i = 0" "i + 2 < n \<Longrightarrow> high12 (replicate n 0) i = 0"
  by (simp_all add: low12_def high12_def)

lemma zero_calibration_run:
  "\<exists>w' c' s'. sw_run gap accept i zero_calibration (w, c, switch_begun) = Some (w', c', s') \<and>
    controller_type s' = 3 \<and> cal_x s' = cal_from 0 0 0"
proof -
  have b: "sw_state switch_begun = State_Req_Dev_Info"
    by (simp add: switch_begun_def fsm_request_device_info_def subcmd_def)
  define s1 where "s1 = switch_begun\<lparr>sw_mode := (if sw_mode switch_begun = Mode_None then Mode_Imu else sw_mode switch_begun),
    firmware_version_hi := 3, firmware_version_lo := 0x48, controller_type := 3\<rparr>"
  have r1: "reply_handler (0x21 # replicate 13 0 @ [0x02, 3, 0x48, 3]) 18 switch_begun = Some s1"
    by (simp add: reply_handler_def nth_append process_reply_req_dev_info_def read_bytes_def b s1_def numeral_eq_Suc)
  have s1: "sw_state s1 = State_Req_Dev_Info" "controller_type s1 = 3" by (simp_all add: s1_def b)
  define s2 where "s2 = fsm_read_factory_stick_calibration s1"
  have s2: "sw_state s2 = State_Read_Factory_Stick_Calibration" "controller_type s2 = 3"
    by (simp_all add: s2_def fsm_read_factory_stick_calibration_def spi_read_def subcmd_def s1)
  define s3 where "s3 = set_right (parse_stick_calibration (drop 9 (replicate 18 0)) False)
      (set_left (parse_stick_calibration (replicate 18 0) True) s2)"
  let ?r2 = "0x21 # replicate 13 0 @ [0x10, 0x3d, 0x60, 0, 0, 18] @ replicate 18 0 :: u8 list"
  have d: "drop 20 ?r2 = replicate 18 0" "take 5 (drop 15 ?r2) ! 4 = 18" by (simp_all add: nth_append)
  have r2: "reply_handler ?r2 38 s2 = Some s3"
    using s2 d
    by (simp add: reply_handler_def nth_append process_reply_spi_flash_read_def read_bytes_def Let_def
        process_reply_read_spi_factory_stick_calibration_def s3_def)
  have s3: "sw_state s3 = State_Read_Factory_Stick_Calibration" "controller_type s3 = 3" "cal_x s3 = cal_from 0 0 0"
    using s2 by (simp_all add: s3_def set_left_def set_right_def parse_stick_calibration_def zeros12)
  have "sw_run gap accept i zero_calibration (w, c, switch_begun) =
      Some (w, switch_battery 0 (switch_battery 0 c), fsm_read_user_stick_calibration s3)"
    using r1 r2 s1 s3(1)
    by (simp add: zero_calibration_def sw_step_def uni_hid_parser_switch_parse_input_report_def
        process_input_subcmd_reply_def subcmd_reply_def process_fsm.simps b s2_def) (simp add: nth_append)
  then show ?thesis using s3 by (simp add: fsm_read_user_stick_calibration_def spi_read_def subcmd_def)
qed

section \<open>Runs\<close>

definition replies :: "sw_event list \<Rightarrow> nat" where
  "replies es = length (filter is_reply es)"

text \<open>The device slot is in use, and the platform has been told of it if and only if the set-up is over.\<close>

definition slot_view :: "nat \<Rightarrow> plat_event list \<Rightarrow> bt_world \<Rightarrow> switch_instance \<Rightarrow> bool" where
  "slot_view i told w s \<longleftrightarrow> \<not> free_slot (devs w ! i) \<and> i < length (devs w) \<and> sw_state s \<noteq> State_Uninit \<and>
     (if sw_state s = State_Ready then plat w = told @ [P_Ready i]
      else plat w = told \<and> conn_state (conn (devs w ! i)) \<noteq> Cs_Ready)"

lemma ready_accepted:
  assumes "\<not> free_slot (devs w ! i)" "i < length (devs w)" "conn_state (conn (devs w ! i)) \<noteq> Cs_Ready"
    "uni_hid_device_set_ready_complete gap True i w = Some (w', ok)"
  shows "\<not> free_slot (devs w' ! i) \<and> i < length (devs w') \<and> plat w' = plat w @ [P_Ready i]"
  using assms
  by (auto simp: uni_hid_device_set_ready_complete_def Let_def upd_def emit_def remove_timer_def free_slot_def
      uni_bt_conn_set_state_def)

lemma fsm_accepted:
  assumes "sw_inv s" "slot_view i told w s" "process_fsm gap True i (w, s) = Some (w', s')"
  shows "slot_view i told w' s' \<and> setup_left (sw_state s') = setup_left (sw_state s) - 1 \<and> sw_inv s' \<and>
    (setup_timer s' \<longrightarrow> setup_timer s)"
proof (cases "sw_state s = State_Update_Led")
  case True
  obtain ok where "uni_hid_device_set_ready_complete gap True i w = Some (w', ok)" "sw_inv s'" "\<not> setup_timer s'"
    "sw_state s' = (if free_slot (devs w' ! i) then State_Uninit else State_Ready)"
    using fsm_last_inv [OF assms(1) True assms(3)] by blast
  with ready_accepted [of w i gap w' ok] assms(2) True show ?thesis by (auto simp: slot_view_def)
next
  case False
  note p = fsm_plain_inv [OF assms(1) False assms(3)]
  have "sw_state s' \<noteq> State_Uninit \<and> (sw_state s' = State_Ready \<longleftrightarrow> sw_state s = State_Ready)"
    using p assms(1,2) False by (cases "sw_state s"; cases "sw_state s'") (auto simp: slot_view_def sw_inv_def talk_ok_def)
  then show ?thesis using p assms(2) by (auto simp: slot_view_def)
qed

definition on_course :: "nat \<Rightarrow> bool \<Rightarrow> switch_instance \<Rightarrow> bool" where
  "on_course n late s \<longleftrightarrow> sw_inv s \<and> (late \<longrightarrow> \<not> setup_timer s) \<and>
     setup_left (sw_state s) = 7 - n - of_bool late"

lemma run_course:
  assumes "on_course n late s" "slot_view i told w s" "sw_run gap True i es (w, c, s) = Some (w', c', s')"
  shows "\<exists>late'. on_course (n + replies es) late' s' \<and> (late \<longrightarrow> late') \<and> slot_view i told w' s' \<and>
    (late' \<longrightarrow> late \<or> Sw_Setup_Timeout \<in> set es)"
  using assms
proof (induction es arbitrary: n late w c s)
  case Nil
  then show ?case by (auto simp: replies_def)
next
  case (Cons e es)
  obtain w1 c1 s1 where st: "sw_step gap True i e (w, c, s) = Some (w1, c1, s1)"
    and r: "sw_run gap True i es (w1, c1, s1) = Some (w', c', s')"
    using Cons.prems(3) by (auto simp: bind_eq_Some_conv)
  have inv: "sw_inv s" using Cons.prems(1) by (simp add: on_course_def)
  have more: "n + replies (e # es) = (n + of_bool (is_reply e)) + replies es" by (simp add: replies_def)
  consider (fsm) s0 where "is_reply e \<or> fires e s" "sw_inv s0" "sw_state s0 = sw_state s"
      "setup_timer s0 \<longleftrightarrow> setup_timer s \<and> \<not> fires e s" "process_fsm gap True i (w, s0) = Some (w1, s1)"
    | (quiet) "\<not> is_reply e" "\<not> fires e s" "w1 = w" "sw_inv s1" "sw_state s1 = sw_state s" "setup_timer s1 = setup_timer s"
    using sw_step_cases [OF inv st] by blast
  then show ?case
  proof cases
    case fsm
    have "slot_view i told w s0" using Cons.prems(2) fsm(3) by (simp add: slot_view_def)
    note f = fsm_accepted [OF fsm(2) this fsm(5)]
    have x: "\<not> (is_reply e \<and> fires e s)" by (auto simp: is_reply_def fires_def)
    have "on_course (n + of_bool (is_reply e)) (late \<or> fires e s) s1"
      using Cons.prems(1) fsm(1,3,4) f x by (auto simp: on_course_def fires_def)
    from Cons.IH [OF this _ r] f obtain late' where
      "on_course (n + of_bool (is_reply e) + replies es) late' s'" "late \<or> fires e s \<longrightarrow> late'" "slot_view i told w' s'"
      "late' \<longrightarrow> (late \<or> fires e s) \<or> Sw_Setup_Timeout \<in> set es" by blast
    then show ?thesis unfolding more by (auto simp: fires_def)
  next
    case quiet
    have "on_course n late s1" using Cons.prems(1) quiet by (simp add: on_course_def)
    moreover have "slot_view i told w1 s1" using Cons.prems(2) quiet by (simp add: slot_view_def)
    ultimately obtain late' where "on_course (n + replies es) late' s'" "late \<longrightarrow> late'" "slot_view i told w' s'"
      "late' \<longrightarrow> late \<or> Sw_Setup_Timeout \<in> set es" using Cons.IH [OF _ _ r] by blast
    then show ?thesis unfolding more using quiet(1) by auto
  qed
qed

lemma begun_course: "on_course 0 False switch_begun"
proof -
  have "sw_state switch_begun = State_Req_Dev_Info"
    by (simp add: switch_begun_def fsm_request_device_info_def subcmd_def)
  then show ?thesis using begun_inv by (simp add: on_course_def)
qed

text \<open>The machine itself never fails, so a run of replies that only acknowledge does not either.\<close>

lemma fsm_total: "sw_inv s \<Longrightarrow> \<exists>w' s'. process_fsm gap True i (w, s) = Some (w', s')"
  by (cases "sw_state s")
    (auto simp: process_fsm.simps uni_hid_device_set_ready_complete_def Let_def zero_parts sw_inv_def talk_ok_def)

definition plain_ack :: sw_event where
  "plain_ack = Sw_Report (0x21 # replicate 13 0 @ [SUBCMD_SET_REPORT_MODE]) 15"

lemma ack_run:
  assumes "sw_inv s"
  shows "\<exists>x. sw_run gap True i (replicate n plain_ack) (w, c, s) = Some x"
  using assms
proof (induction n arbitrary: w c s)
  case (Suc n)
  obtain w1 s1 where f: "process_fsm gap True i (w, s) = Some (w1, s1)" using fsm_total [OF Suc.prems] by blast
  have st: "sw_step gap True i plain_ack (w, c, s) = Some (w1, switch_battery 0 c, s1)"
    using f by (simp add: sw_step_def plain_ack_def uni_hid_parser_switch_parse_input_report_def
        process_input_subcmd_reply_def subcmd_reply_def reply_handler_def nth_append)
  have "sw_inv s1" using fsm_plain_inv [OF Suc.prems _ f] fsm_last_inv [OF Suc.prems _ f] by blast
  with Suc.IH st show ?case by simp
qed simp

inductive sw_reach :: "(u16 \<Rightarrow> gap_type) \<Rightarrow> bool \<Rightarrow> nat \<Rightarrow> switch_world \<Rightarrow> bool" for gap accept i where
  sw_setup: "uni_hid_parser_switch_setup gap accept i (w, c, switch_zero 0 []) = Some x \<Longrightarrow> sw_reach gap accept i x"
| sw_event: "sw_reach gap accept i x \<Longrightarrow> sw_step gap accept i e x = Some x' \<Longrightarrow> sw_reach gap accept i x'"

lemma sw_reach_inv: "sw_reach gap accept i x \<Longrightarrow> sw_inv (snd (snd x)) \<and> pad_ok (gamepad (fst (snd x)))"
proof (induction rule: sw_reach.induct)
  case (sw_setup w c x)
  then show ?case using begun_inv by (auto simp: setup_begins pad_zero)
next
  case (sw_event x e x')
  obtain w c s w' c' s' where "x = (w, c, s)" "x' = (w', c', s')" by (metis prod_cases3)
  then show ?case using sw_event sw_step_inv [of s c gap accept i e w w' c' s'] by simp
qed

section \<open>Properties\<close>

text \<open>
  C26: The set-up of a Switch pad that the platform accepts.  Whatever else happens, each reply
  of the pad moves it one step on, and so does the setup timer, but at most once in a whole set-up: after seven replies
  the pad is ready and the platform has been told, once; with five or fewer it is not, however long one waits.
\<close>

theorem switch_handshake:
  assumes "uni_hid_parser_switch_setup gap True i (w, c, switch_zero 0 []) = Some x" "sw_run gap True i es x = Some (w', c', s')"
    "\<not> free_slot (devs w ! i)" "i < length (devs w)" "conn_state (conn (devs w ! i)) \<noteq> Cs_Ready"
  shows "(setup_left (sw_state s') = 7 - replies es \<or>
      Sw_Setup_Timeout \<in> set es \<and> setup_left (sw_state s') = 6 - replies es) \<and>
    (7 \<le> replies es \<longrightarrow> sw_state s' = State_Ready \<and> \<not> setup_timer s' \<and> plat w' = plat w @ [P_Ready i]) \<and>
    (replies es \<le> 5 \<longrightarrow> sw_state s' \<noteq> State_Ready \<and> plat w' = plat w)"
proof -
  have x: "x = (w, clear_pad c, switch_begun)" using assms(1) by (simp add: setup_begins)
  have "sw_state switch_begun = State_Req_Dev_Info"
    by (simp add: switch_begun_def fsm_request_device_info_def subcmd_def)
  then have "slot_view i (plat w) w switch_begun" using assms(3-5) by (simp add: slot_view_def)
  from run_course [OF begun_course this assms(2) [unfolded x]] obtain late' where
    o: "on_course (replies es) late' s'" "slot_view i (plat w) w' s'" "late' \<longrightarrow> Sw_Setup_Timeout \<in> set es" by auto
  have left: "setup_left (sw_state s') = 7 - replies es - of_bool late'" using o(1) by (simp add: on_course_def)
  have z: "setup_left (sw_state s') = 0 \<longleftrightarrow> sw_state s' = State_Ready"
    using o(2) by (cases "sw_state s'") (auto simp: slot_view_def)
  have "7 \<le> replies es \<longrightarrow> sw_state s' = State_Ready" "replies es \<le> 5 \<longrightarrow> sw_state s' \<noteq> State_Ready"
    using left z by (cases late'; auto)+
  moreover have "sw_state s' = State_Ready \<longrightarrow> \<not> setup_timer s'"
    using o(1) by (auto simp: on_course_def sw_inv_def talk_ok_def)
  ultimately show ?thesis using o(2,3) left by (auto simp: slot_view_def)
qed


theorem switch_handshake_witness:
  "\<exists>(w :: bt_world) c s. sw_state s = State_Ready \<and> plat w = [P_Ready 0] \<and>
     sw_run (\<lambda>_. Gap_Acl) True 0 (replicate 7 plain_ack)
       (upd 0 (\<lambda>d. d\<lparr>conn := (conn d)\<lparr>btaddr := [1, 2, 3, 4, 5, 6]\<rparr>\<rparr>) world_start, clear_pad (ctl device_zero), switch_begun) =
       Some (w, c, s)"
proof -
  let ?w = "upd 0 (\<lambda>d. d\<lparr>conn := (conn d)\<lparr>btaddr := [1, 2, 3, 4, 5, 6]\<rparr>\<rparr>) world_start"
  let ?x = "(?w, clear_pad (ctl device_zero), switch_begun)"
  obtain x where x: "sw_run (\<lambda>_. Gap_Acl) True 0 (replicate 7 plain_ack) ?x = Some x"
    using ack_run [OF begun_inv] by blast
  obtain w c s where "x = (w, c, s)" by (cases x)
  note r = x [unfolded this]
  have n: "replies (replicate 7 plain_ack) = 7" by (simp add: replies_def is_reply_def plain_ack_def)
  have d: "\<not> free_slot (devs ?w ! 0)" "0 < length (devs ?w)" "conn_state (conn (devs ?w ! 0)) \<noteq> Cs_Ready" "plat ?w = []"
    by (simp_all add: upd_def world_start_def free_slot_def zero_addr_def device_fresh_def uni_bt_conn_init_def conn_zero_def
        eval_nat_numeral)
  have "sw_state s = State_Ready \<and> plat w = plat ?w @ [P_Ready 0]"
    using switch_handshake [OF setup_begins r d(1-3)] by (simp add: n)
  then have "sw_state s = State_Ready \<and> plat w = [P_Ready 0]" by (simp only: d(4) append_Nil)
  with r show ?thesis by (intro exI [of _ w] exI [of _ c] exI [of _ s] conjI) (simp_all only:)
qed

text \<open>
  In every state the Switch driver reaches, refused or not, its messages carry the packet numbers
  0 to 15 in turn, and the commands among them are a prefix of the set-up conversation as long as the
  state says, followed, once the pad is ready, by nothing but player LEDs.
\<close>

theorem switch_conversation:
  assumes "sw_reach gap accept i (w, c, s)"
  shows "(\<forall>k < length (switch_log s). message_ok k (switch_log s ! k)) \<and>
    (\<exists>n. subcmds s = take (8 - setup_left (sw_state s)) conversation @ replicate n SUBCMD_SET_PLAYER_LEDS \<and>
      (sw_state s \<noteq> State_Ready \<longrightarrow> n = 0)) \<and>
    (setup_timer s \<longrightarrow> 2 \<le> setup_left (sw_state s))"
  using sw_reach_inv [OF assms] by (simp add: sw_inv_def log_ok_def talk_ok_def)

theorem switch_conversation_witness:
  "\<exists>s. sw_reach (\<lambda>_. Gap_Acl) True 0 (world_start, clear_pad (ctl device_zero), s) \<and> subcmds s = [SUBCMD_REQ_DEV_INFO]"
proof -
  have r: "sw_reach (\<lambda>_. Gap_Acl) True 0 (world_start, clear_pad (ctl device_zero), switch_begun)"
    by (rule sw_setup [OF setup_begins])
  have "sw_state switch_begun = State_Req_Dev_Info"
    by (simp add: switch_begun_def fsm_request_device_info_def subcmd_def)
  with switch_conversation [OF r] r show ?thesis by (auto simp: conversation_def)
qed

text \<open>
  The stick calibration of a pad, six values of twelve bits in nine bytes, is read
  back exactly, in the two orders the left and the right stick store it.
\<close>

theorem switch_calibration_packed:
  "parse_stick_calibration (pack12 maxx maxy @ pack12 cx cy @ pack12 minx miny) True =
     (cal_from (uint minx) (uint cx) (uint maxx), cal_from (uint miny) (uint cy) (uint maxy)) \<and>
   parse_stick_calibration (pack12 cx cy @ pack12 minx miny @ pack12 maxx maxy) False =
     (cal_from (uint minx) (uint cx) (uint maxx), cal_from (uint miny) (uint cy) (uint maxy))"
proof -
  have l: "length (pack12 a b) = 3" for a b by (simp add: pack12_def)
  have r: "low12 (pack12 a b @ pack12 p q @ pack12 u v) 0 = uint a" "high12 (pack12 a b @ pack12 p q @ pack12 u v) 0 = uint b"
    "low12 (pack12 a b @ pack12 p q @ pack12 u v) 3 = uint p" "high12 (pack12 a b @ pack12 p q @ pack12 u v) 3 = uint q"
    "low12 (pack12 a b @ pack12 p q @ pack12 u v) 6 = uint u" "high12 (pack12 a b @ pack12 p q @ pack12 u v) 6 = uint v"
    for a b p q u v
    using pack12_read [of 0 "pack12 a b @ pack12 p q @ pack12 u v" a b] pack12_read [of 3 "pack12 a b @ pack12 p q @ pack12 u v" p q]
      pack12_read [of 6 "pack12 a b @ pack12 p q @ pack12 u v" u v]
    by (simp_all add: l)
  show ?thesis by (simp add: parse_stick_calibration_def r)
qed

text \<open>
  C28: What the calibration makes of a stick: nothing at all, a division by zero, exactly when the range on the side
  of the reading is empty, which the pad's own data decide; otherwise the reading scaled by that
  range, -512 to 512, full deflection from the ends of the range on and 0 in the centre.
\<close>

theorem switch_axis_exact:
  assumes "cal_ok cal" "0 \<le> v" "v \<le> 4095"
  shows "(calibrate_axis v cal = None \<longleftrightarrow> cal_max cal = cal_center cal \<and> cal_center cal < v \<or>
      cal_min cal = cal_center cal \<and> v \<le> cal_center cal) \<and>
    (\<forall>q. calibrate_axis v cal = Some q \<longrightarrow> q = axis_value v cal \<and> - 512 \<le> q \<and> q \<le> 512 \<and>
      (q = 512 \<longleftrightarrow> cal_max cal \<le> v \<and> cal_center cal < v) \<and> (q = - 512 \<longleftrightarrow> v \<le> cal_min cal) \<and> (v = cal_center cal \<longrightarrow> q = 0))"
proof (intro conjI allI impI)
  show "calibrate_axis v cal = None \<longleftrightarrow> cal_max cal = cal_center cal \<and> cal_center cal < v \<or>
      cal_min cal = cal_center cal \<and> v \<le> cal_center cal"
    by (auto simp: calibrate_axis_exact [OF assms])
  fix q assume q: "calibrate_axis v cal = Some q"
  then show v: "q = axis_value v cal" by (simp add: calibrate_axis_exact [OF assms] split: if_splits)
  show "- 512 \<le> q" "q \<le> 512" using axis_in_range [OF q] by (auto simp: stick_ok_def)
  have up: "0 < cal_max cal - cal_center cal" if "cal_center cal < v"
    using q that assms(1) by (auto simp: calibrate_axis_exact [OF assms] cal_ok_def split: if_splits)
  have down: "0 < cal_center cal - cal_min cal" "0 \<le> (cal_center cal - v) * 512 div (cal_center cal - cal_min cal)"
    if "v \<le> cal_center cal"
  proof -
    show "0 < cal_center cal - cal_min cal"
      using q that assms(1) by (auto simp: calibrate_axis_exact [OF assms] cal_ok_def split: if_splits)
    then show "0 \<le> (cal_center cal - v) * 512 div (cal_center cal - cal_min cal)"
      using that by (simp add: pos_imp_zdiv_nonneg_iff)
  qed
  have low: "0 \<le> (v - cal_center cal) * 512 div (cal_max cal - cal_center cal)" if "cal_center cal < v"
    using up that by (simp add: pos_imp_zdiv_nonneg_iff)
  show "q = 512 \<longleftrightarrow> cal_max cal \<le> v \<and> cal_center cal < v"
    using full_deflection [OF up, of "v - cal_center cal"] down(2) by (auto simp: v axis_value_def min_def)
  show "q = - 512 \<longleftrightarrow> v \<le> cal_min cal"
    using full_deflection [OF down(1), of "cal_center cal - v"] low down(1) assms(1)
    by (cases "v \<le> cal_center cal") (auto simp: v axis_value_def min_def cal_ok_def)
  show "v = cal_center cal \<Longrightarrow> q = 0" using v by (simp add: axis_value_def)
qed

theorem switch_axis_exact_witness:
  "calibrate_axis 3583 cal_default = Some 512 \<and> calibrate_axis 2048 cal_default = Some 0 \<and>
   calibrate_axis 7 (cal_from 0 0 0) = None"
proof -
  have ok: "cal_ok cal_default" "cal_ok (cal_from 0 0 0)" by (simp_all add: cal_ok_def cal_default_def cal_from_def)
  have "calibrate_axis 3583 cal_default \<noteq> None" "calibrate_axis 2048 cal_default \<noteq> None" "calibrate_axis 7 (cal_from 0 0 0) = None"
    using switch_axis_exact [OF ok(1), of 3583] switch_axis_exact [OF ok(1), of 2048] switch_axis_exact [OF ok(2), of 7]
    by (simp_all add: cal_default_def cal_from_def)
  moreover from this have "calibrate_axis 3583 cal_default = Some 512" "calibrate_axis 2048 cal_default = Some 0"
    using switch_axis_exact [OF ok(1), of 3583] switch_axis_exact [OF ok(1), of 2048]
    by (auto simp: cal_default_def)
  ultimately show ?thesis by blast
qed



text \<open>
  The length of a flash reply is taken from the reply.  Waiting for the factory calibration, a
  driver of a Pro Controller reads as many bytes as the pad claims to send, up to eighteen, whether the
  report holds them or not: beyond its end exactly when it is that much shorter, and also when it is
  too short for the header of a reply.
\<close>

theorem switch_reply_overread:
  assumes "sw_inv s" "sw_state s = State_Read_Factory_Stick_Calibration" "controller_type s = SWITCH_CONTROLLER_TYPE_PRO"
    "12 \<le> len" "unat len = length r" "r ! 0 = SWITCH_INPUT_SUBCMD_REPLY" "r ! 14 = SUBCMD_SPI_FLASH_READ"
  shows "uni_hid_parser_switch_parse_input_report gap True i r len (w, c, s) = None \<longleftrightarrow>
    length r < 15 \<or> 20 \<le> length r \<and> length r < 20 + min 18 (unat (r ! 19))"
proof -
  have l: "\<not> len < 12" "len < 20 \<longleftrightarrow> length r < 20"
    using assms(4,5) by (auto simp: word_less_nat_alt not_less word_le_nat_alt)
  have reply: "subcmd_reply r len (c, s) = None \<longleftrightarrow>
      length r < 15 \<or> 20 \<le> length r \<and> length r < 20 + min 18 (unat (r ! 19))"
    using assms(2,3,7) l(2)
    by (auto simp: subcmd_reply_def reply_handler_def process_reply_spi_flash_read_def read_bytes_def hexdump_def
        process_reply_read_spi_factory_stick_calibration_def word_less_nat_alt min_def Let_def split: if_splits)
  have state: "sw_state s1 = State_Read_Factory_Stick_Calibration" if "subcmd_reply r len (c, s) = Some (c1, s1)" for c1 s1
    using reply_keeps [OF that] assms(1,2) by (simp add: sw_inv_def same_core_def)
  have "uni_hid_parser_switch_parse_input_report gap True i r len (w, c, s) = None \<longleftrightarrow> subcmd_reply r len (c, s) = None"
  proof (cases "subcmd_reply r len (c, s)")
    case None
    then show ?thesis
      using assms(5,6) l(1) by (simp add: uni_hid_parser_switch_parse_input_report_def process_input_subcmd_reply_def)
  next
    case (Some cs)
    obtain c1 s1 where cs: "cs = (c1, s1)" by (cases cs)
    then have "sw_state s1 = State_Read_Factory_Stick_Calibration" using state Some by blast
    then show ?thesis
      using assms(5,6) l(1) Some cs
      by (simp add: uni_hid_parser_switch_parse_input_report_def process_input_subcmd_reply_def process_fsm.simps)
  qed
  then show ?thesis by (simp only: reply)
qed

theorem switch_reply_overread_witness:
  "uni_hid_parser_switch_parse_input_report (\<lambda>_. Gap_Acl) True 0 (0x21 # replicate 13 0 @ [0x10] @ replicate 4 0 @ [18]) 20
     (world_start, ctl device_zero, fsm_read_factory_stick_calibration switch_begun) = None"
proof -
  have b: "sw_state switch_begun = State_Req_Dev_Info" "controller_type switch_begun = 3"
    by (simp_all add: switch_begun_def fsm_request_device_info_def subcmd_def switch_start_def switch_zero_def)
  have f: "process_fsm (\<lambda>_. Gap_Acl) True 0 (world_start, switch_begun) =
      Some (world_start, fsm_read_factory_stick_calibration switch_begun)"
    by (simp add: process_fsm.simps b)
  have i: "sw_inv (fsm_read_factory_stick_calibration switch_begun)"
    using fsm_plain_inv [OF begun_inv _ f] b(1) by simp
  have s: "sw_state (fsm_read_factory_stick_calibration switch_begun) = State_Read_Factory_Stick_Calibration"
    "controller_type (fsm_read_factory_stick_calibration switch_begun) = 3"
    by (simp_all add: fsm_read_factory_stick_calibration_def spi_read_def subcmd_def b)
  show ?thesis
    using switch_reply_overread [OF i s(1), of 20 "0x21 # replicate 13 0 @ [0x10] @ replicate 4 0 @ [18]"]
    by (simp add: s(2) nth_append nth_Cons')
qed

text \<open>
  A pad that calls itself a Pro Controller and sends a factory calibration of
  zeros, which the driver accepts: from then on every full report divides by zero.
\<close>

theorem switch_zero_calibration:
  "\<exists>x. sw_run gap accept i zero_calibration (w, c, switch_begun) = Some x \<and>
    (\<forall>r len. 12 \<le> len \<and> unat len \<le> length r \<and> r ! 0 = SWITCH_INPUT_IMU_DATA \<longrightarrow>
      sw_step gap accept i (Sw_Report r len) x = None)"
proof -
  obtain w' c' s' where x: "sw_run gap accept i zero_calibration (w, c, switch_begun) = Some (w', c', s')"
    "controller_type s' = 3" "cal_x s' = cal_from 0 0 0"
    using zero_calibration_run by blast
  have "sw_step gap accept i (Sw_Report r len) (w', c', s') = None"
    if "12 \<le> len" "unat len \<le> length r" "r ! 0 = SWITCH_INPUT_IMU_DATA" for r len
    using that zero_range_fails [of "low12 r 6"] ranges12 [of r 6] x(2,3)
    by (simp add: sw_step_def uni_hid_parser_switch_parse_input_report_def parse_report_30_def report_30_pad_def Let_def
        parse_report_30_pro_controller_def not_less)
  with x(1) show ?thesis by blast
qed

theorem switch_zero_calibration_witness:
  "\<exists>x. sw_run (\<lambda>_. Gap_Acl) True 0 zero_calibration (world_start, ctl device_zero, switch_begun) = Some x \<and>
    sw_step (\<lambda>_. Gap_Acl) True 0 (Sw_Report (0x30 # replicate 48 0) 49) x = None"
proof -
  obtain x where x: "sw_run (\<lambda>_. Gap_Acl) True 0 zero_calibration (world_start, ctl device_zero, switch_begun) = Some x"
    "\<forall>r len. 12 \<le> len \<and> unat len \<le> length r \<and> r ! 0 = SWITCH_INPUT_IMU_DATA \<longrightarrow>
      sw_step (\<lambda>_. Gap_Acl) True 0 (Sw_Report r len) x = None"
    using switch_zero_calibration [of "\<lambda>_. Gap_Acl" True 0 world_start "ctl device_zero"] by blast
  have "sw_step (\<lambda>_. Gap_Acl) True 0 (Sw_Report (0x30 # replicate 48 0) 49) x = None"
    using x(2) [rule_format, of 49 "0x30 # replicate 48 0"] by simp
  with x(1) show ?thesis by blast
qed

text \<open>
  Stopping a Switch pad while a delayed rumble is pending fails an assertion, and so
  does a delayed rumble of no duration when its time comes; and the strength asked for has no effect: the
  amplitude of both motors is the same for every magnitude, zero included.
\<close>

theorem switch_rumble_abort:
  assumes "sw_reach gap accept i (w, c, s)" "delay \<noteq> 0"
  shows "(\<exists>s1. uni_hid_parser_switch_play_dual_rumble delay dur mags s = Some s1 \<and>
      uni_hid_parser_switch_play_dual_rumble 0 0 mags' s1 = None \<and> (dur = 0 \<longrightarrow> on_switch_set_rumble_on s1 = None)) \<and>
    switch_rumble mags ! 1 AND 0xFE = 0x88 \<and> switch_rumble mags ! 3 = 0x62 \<and>
      switch_rumble mags ! 5 AND 0xFE = 0x88 \<and> switch_rumble mags ! 7 = 0x62"
proof -
  have "timers_live (rumble.truncate s)" using sw_reach_inv [OF assms(1)] by (simp add: inv_live)
  note stop = switch.stop_aborts [OF this assms(2), of dur mags mags']
  have "switch_rumble mags ! 1 AND 0xFE = 0x88 \<and> switch_rumble mags ! 3 = 0x62 \<and>
      switch_rumble mags ! 5 AND 0xFE = 0x88 \<and> switch_rumble mags ! 7 = 0x62"
    by (simp add: switch_rumble_def Let_def nth_append encode_fixed_amplitude encode_fixed_amplitude [unfolded One_nat_def])
  with stop show ?thesis by blast
qed

theorem switch_rumble_abort_witness:
  "\<exists>s1. uni_hid_parser_switch_play_dual_rumble 100 500 (9, 9) switch_begun = Some s1 \<and>
      uni_hid_parser_switch_play_dual_rumble 0 0 (0, 0) s1 = None"
proof -
  have r: "sw_reach (\<lambda>_. Gap_Acl) True 0 (world_start, clear_pad (ctl device_zero), switch_begun)"
    by (rule sw_setup [OF setup_begins])
  have "(100 :: u16) \<noteq> 0" by simp
  from switch_rumble_abort [OF r this, of 500 "(9, 9)" "(0, 0)"] show ?thesis by blast
qed

end
