(* ===== verification/Wii_Pad.thy ===== *)
theory Wii_Pad
  imports Switch_Pad
begin

text \<open>
  The Nintendo Wii driver, parser/uni_hid_parser_wii.c: the conversation that finds out what remote and
  what extension is there, the input reports of the remote, the Nunchuk, the uDraw tablet, the Classic
  Controller, the Wii U Pro Controller and the Balance Board, player LEDs and rumble.  The conventions
  are those of theory \<open>Dualshock\<close>.  The dump of the EEPROM is compiled out, as in the source.
\<close>

section \<open>Data\<close>

definition WIIPROTO_REQ_RUMBLE :: u8 where [simp]: "WIIPROTO_REQ_RUMBLE = 0x10"
definition WIIPROTO_REQ_LED :: u8 where [simp]: "WIIPROTO_REQ_LED = 0x11"
definition WIIPROTO_REQ_DRM :: u8 where [simp]: "WIIPROTO_REQ_DRM = 0x12"
definition WIIPROTO_REQ_SREQ :: u8 where [simp]: "WIIPROTO_REQ_SREQ = 0x15"
definition WIIPROTO_REQ_WMEM :: u8 where [simp]: "WIIPROTO_REQ_WMEM = 0x16"
definition WIIPROTO_REQ_RMEM :: u8 where [simp]: "WIIPROTO_REQ_RMEM = 0x17"
definition WIIPROTO_REQ_STATUS :: u8 where [simp]: "WIIPROTO_REQ_STATUS = 0x20"
definition WIIPROTO_REQ_DATA :: u8 where [simp]: "WIIPROTO_REQ_DATA = 0x21"
definition WIIPROTO_REQ_RETURN :: u8 where [simp]: "WIIPROTO_REQ_RETURN = 0x22"

definition WII_REPORT_TYPE_K :: u8 where [simp]: "WII_REPORT_TYPE_K = 0x30"
definition WII_REPORT_TYPE_KA :: u8 where [simp]: "WII_REPORT_TYPE_KA = 0x31"
definition WII_REPORT_TYPE_KE :: u8 where [simp]: "WII_REPORT_TYPE_KE = 0x32"
definition WII_REPORT_TYPE_KEE :: u8 where [simp]: "WII_REPORT_TYPE_KEE = 0x34"
definition WII_REPORT_TYPE_KAE :: u8 where [simp]: "WII_REPORT_TYPE_KAE = 0x35"
definition WII_REPORT_TYPE_E :: u8 where [simp]: "WII_REPORT_TYPE_E = 0x3d"

datatype wii_devtype = Devtype_Unk | Devtype_Pro_Controller | Devtype_Remote | Devtype_Remote_Mp

datatype wii_exttype = Ext_None | Ext_Unk | Ext_Nunchuk | Ext_Classic_Controller | Ext_U_Pro_Controller
  | Ext_Balance_Board | Ext_Udraw_Tablet

datatype wii_fsm = Fsm_Uninit | Fsm_Setup | Fsm_Dump_Eeprom_In_Progress | Fsm_Dump_Eeprom_Finished
  | Fsm_Did_Req_Status | Fsm_Dev_Unk | Fsm_Ext_Unk | Fsm_Ext_Did_Init | Fsm_Ext_Did_No_Encryption
  | Fsm_Ext_Did_Read_Register | Fsm_Read_Calibration | Fsm_Read_Calibration2 | Fsm_Did_Read_Calibration
  | Fsm_Did_Read_Calibration2 | Fsm_Dev_Guessed | Fsm_Dev_Assigned | Fsm_Led_Updated

datatype wii_mode = Wii_Horizontal | Wii_Vertical | Wii_Accel

datatype wii_read_type = Read_From_Mem | Read_From_Registers

datatype controller_subtype = Subtype_None | Subtype_Wiimote_Horizontal | Subtype_Wiimote_Vertical
  | Subtype_Wiimote_Accel | Subtype_Wiimote_Nunchuk | Subtype_Wiimote_Nunchuk_Accel | Subtype_Wii_Classic
  | Subtype_Wiiupro | Subtype_Wii_Balance_Board | Subtype_Wiimote_Udraw_Tablet

record nunchuk =
  n_sx :: int
  n_sy :: int
  n_ax :: int
  n_ay :: int
  n_az :: int
  n_bc :: bool
  n_bz :: bool

record balance_board =
  bb_tr :: u16
  bb_br :: u16
  bb_tl :: u16
  bb_bl :: u16
  bb_temperature :: int
  bb_battery :: u8

record udraw_tablet =
  u_x :: u16
  u_y :: u16
  u_pressure :: u16
  u_lower :: bool
  u_upper :: bool

text \<open>The subtype is a field of the device.  The log is of the interrupt channel.\<close>

record wii_instance = rumble +
  wii_state :: wii_fsm
  register_address :: u8
  wii_mode :: wii_mode
  dev_type :: wii_devtype
  ext_type :: wii_exttype
  wii_seat :: u8
  kg0 :: balance_board
  kg17 :: balance_board
  kg34 :: balance_board
  wii_subtype :: controller_subtype
  wii_log :: "u8 list list"

definition board_zero :: balance_board where
  "board_zero = \<lparr>bb_tr = 0, bb_br = 0, bb_tl = 0, bb_bl = 0, bb_temperature = 0, bb_battery = 0\<rparr>"

definition wii_zero :: "controller_subtype \<Rightarrow> u8 list list \<Rightarrow> wii_instance" where
  "wii_zero sub msgs = \<lparr>rumble_state = Rumble_Disabled, timer_delayed_start = None, timer_duration = None,
     rumble_duration_ms = 0, wii_state = Fsm_Uninit, register_address = 0, wii_mode = Wii_Horizontal,
     dev_type = Devtype_Unk, ext_type = Ext_None, wii_seat = 0, kg0 = board_zero, kg17 = board_zero,
     kg34 = board_zero, wii_subtype = sub, wii_log = msgs\<rparr>"

section \<open>Messages\<close>

definition wii_send :: "u8 list \<Rightarrow> wii_instance \<Rightarrow> wii_instance" where
  "wii_send m s = s\<lparr>wii_log := wii_log s @ [m]\<rparr>"

definition wii_read_code :: "wii_read_type \<Rightarrow> u8" where
  "wii_read_code t = (case t of Read_From_Mem \<Rightarrow> 0 | Read_From_Registers \<Rightarrow> 0x04)"

definition wii_read_mem :: "wii_read_type \<Rightarrow> u32 \<Rightarrow> u16 \<Rightarrow> wii_instance \<Rightarrow> wii_instance" where
  "wii_read_mem t offset sz = wii_send [0xa2, WIIPROTO_REQ_RMEM, wii_read_code t,
     ucast (drop_bit 16 (offset AND 0xff0000)), ucast (drop_bit 8 (offset AND 0xff00)), ucast (offset AND 0xff),
     ucast (drop_bit 8 (sz AND 0xff00)), ucast (sz AND 0xff)]"

definition uni_hid_parser_wii_request_report_type :: "u8 \<Rightarrow> wii_instance \<Rightarrow> wii_instance" where
  "uni_hid_parser_wii_request_report_type report_type = wii_send [0xa2, WIIPROTO_REQ_DRM, 0x00, report_type]"

definition wii_set_led :: "u8 \<Rightarrow> wii_instance \<Rightarrow> wii_instance" where
  "wii_set_led seat s = wii_send [0xa2, WIIPROTO_REQ_LED, push_bit 4 seat OR
     (if wii_mode s = Wii_Vertical then 0x80 else 0) OR (if wii_mode s = Wii_Accel then 0x40 else 0) OR
     (if rumble_state s = Rumble_In_Progress then 0x01 else 0)] s"

definition uni_hid_parser_wii_set_player_leds :: "u8 \<Rightarrow> wii_instance \<Rightarrow> wii_instance" where
  "uni_hid_parser_wii_set_player_leds leds s =
     (let s = s\<lparr>wii_seat := leds\<rparr> in if wii_state s \<noteq> Fsm_Led_Updated then s else wii_set_led leds s)"

definition uni_hid_parser_wii_set_mode :: "wii_mode \<Rightarrow> wii_instance \<Rightarrow> wii_instance" where
  "uni_hid_parser_wii_set_mode m s = (let s = s\<lparr>wii_mode := m\<rparr> in
     case m of
       Wii_Horizontal \<Rightarrow> s\<lparr>wii_subtype := Subtype_Wiimote_Horizontal\<rparr>
     | Wii_Vertical \<Rightarrow> s\<lparr>wii_subtype := Subtype_Wiimote_Vertical\<rparr>
     | Wii_Accel \<Rightarrow> if ext_type s = Ext_None then s\<lparr>wii_subtype := Subtype_Wiimote_Accel\<rparr>
         else if ext_type s = Ext_Nunchuk then s\<lparr>wii_subtype := Subtype_Wiimote_Nunchuk_Accel\<rparr> else s)"

section \<open>The set-up conversation\<close>

definition wii_fsm_req_status :: "wii_instance \<Rightarrow> wii_instance" where
  "wii_fsm_req_status s = wii_send [0xa2, WIIPROTO_REQ_SREQ, 0x00] (s\<lparr>wii_state := Fsm_Did_Req_Status\<rparr>)"

definition wii_fsm_ext_init :: "wii_instance \<Rightarrow> wii_instance" where
  "wii_fsm_ext_init s = wii_send ([0xa2, WIIPROTO_REQ_WMEM, 0x04, register_address s, 0x00, 0xf0, 0x01, 0x55] @
     replicate 15 0) (s\<lparr>wii_state := Fsm_Ext_Did_Init\<rparr>)"

definition wii_fsm_ext_encrypt_off :: "wii_instance \<Rightarrow> wii_instance" where
  "wii_fsm_ext_encrypt_off s = wii_send ([0xa2, WIIPROTO_REQ_WMEM, 0x04, register_address s, 0x00, 0xfb, 0x01, 0x00] @
     replicate 15 0) (s\<lparr>wii_state := Fsm_Ext_Did_No_Encryption\<rparr>)"

definition wii_fsm_ext_read_register :: "wii_instance \<Rightarrow> wii_instance" where
  "wii_fsm_ext_read_register s = wii_read_mem Read_From_Registers
     (0x0000fa OR push_bit 16 (ucast (register_address s))) 6 (s\<lparr>wii_state := Fsm_Ext_Did_Read_Register\<rparr>)"

definition wii_fsm_balance_board_read_calibration :: "wii_instance \<Rightarrow> wii_instance" where
  "wii_fsm_balance_board_read_calibration s = wii_read_mem Read_From_Registers
     (0x000024 OR push_bit 16 (ucast (register_address s))) 16 (s\<lparr>wii_state := Fsm_Did_Read_Calibration\<rparr>)"

definition wii_fsm_balance_board_read_calibration2 :: "wii_instance \<Rightarrow> wii_instance" where
  "wii_fsm_balance_board_read_calibration2 s = wii_read_mem Read_From_Registers
     (0x000034 OR push_bit 16 (ucast (register_address s))) 8 (s\<lparr>wii_state := Fsm_Did_Read_Calibration2\<rparr>)"

text \<open>The report a remote is asked for, and the subtype that goes with it.\<close>

definition remote_report :: "wii_exttype \<Rightarrow> wii_mode \<Rightarrow> u8 \<times> controller_subtype" where
  "remote_report ext mode =
     (if ext = Ext_Nunchuk then
        (if mode = Wii_Accel then (WII_REPORT_TYPE_KAE, Subtype_Wiimote_Nunchuk_Accel)
         else (WII_REPORT_TYPE_KE, Subtype_Wiimote_Nunchuk))
      else if ext = Ext_Classic_Controller then (WII_REPORT_TYPE_E, Subtype_Wii_Classic)
      else if ext = Ext_Balance_Board then (WII_REPORT_TYPE_KEE, Subtype_Wii_Balance_Board)
      else if ext = Ext_Udraw_Tablet then (WII_REPORT_TYPE_KE, Subtype_Wiimote_Udraw_Tablet)
      else if mode = Wii_Accel then (WII_REPORT_TYPE_KA, Subtype_Wiimote_Accel)
      else (WII_REPORT_TYPE_K, if mode = Wii_Vertical then Subtype_Wiimote_Vertical else Subtype_Wiimote_Horizontal))"

definition wii_fsm_assign_device :: "wii_instance \<Rightarrow> wii_instance" where
  "wii_fsm_assign_device s =
     (let (ty, sub) = (if dev_type s = Devtype_Pro_Controller then (WII_REPORT_TYPE_KEE, Subtype_Wiiupro)
                       else remote_report (ext_type s) (wii_mode s)) in
      (uni_hid_parser_wii_request_report_type ty (s\<lparr>wii_subtype := sub\<rparr>))\<lparr>wii_state := Fsm_Dev_Assigned\<rparr>)"

definition wii_fsm_update_led :: "wii_instance \<Rightarrow> wii_instance" where
  "wii_fsm_update_led s = (wii_set_led (wii_seat s) s)\<lparr>wii_state := Fsm_Led_Updated\<rparr>"

text \<open>
  \<open>wii_process_fsm\<close> with the calls of itself from \<open>wii_fsm_dump_eeprom\<close>, \<open>wii_fsm_assign_device\<close> and
  \<open>wii_fsm_update_led\<close>; the last tells the device table that the pad is ready, after the call.  When
  the platform refuses the pad its slot is cleared under the driver.
\<close>

fun wii_rank :: "wii_fsm \<Rightarrow> nat" where
  "wii_rank Fsm_Setup = 1"
| "wii_rank Fsm_Dump_Eeprom_In_Progress = 1"
| "wii_rank Fsm_Dev_Guessed = 2"
| "wii_rank Fsm_Dev_Assigned = 1"
| "wii_rank _ = 0"

lemma assigned_state [simp]: "wii_state (wii_fsm_assign_device s) = Fsm_Dev_Assigned"
  by (simp add: wii_fsm_assign_device_def Let_def split: prod.splits)

lemma updated_state [simp]: "wii_state (wii_fsm_update_led s) = Fsm_Led_Updated"
  by (simp add: wii_fsm_update_led_def)

function wii_process_fsm ::
  "(u16 \<Rightarrow> gap_type) \<Rightarrow> bool \<Rightarrow> nat \<Rightarrow> bt_world \<times> wii_instance \<Rightarrow> (bt_world \<times> wii_instance) option" where
  "wii_process_fsm gap accept i (w, s) =
     (case wii_state s of
        Fsm_Setup \<Rightarrow> wii_process_fsm gap accept i (w, s\<lparr>wii_state := Fsm_Dump_Eeprom_Finished\<rparr>)
      | Fsm_Dump_Eeprom_In_Progress \<Rightarrow> wii_process_fsm gap accept i (w, s\<lparr>wii_state := Fsm_Dump_Eeprom_Finished\<rparr>)
      | Fsm_Dump_Eeprom_Finished \<Rightarrow> Some (w, wii_fsm_req_status s)
      | Fsm_Did_Req_Status \<Rightarrow> Some (w, s)
      | Fsm_Dev_Unk \<Rightarrow> Some (w, wii_fsm_ext_init s)
      | Fsm_Ext_Unk \<Rightarrow> Some (w, wii_fsm_ext_init s)
      | Fsm_Ext_Did_Init \<Rightarrow> Some (w, wii_fsm_ext_encrypt_off s)
      | Fsm_Ext_Did_No_Encryption \<Rightarrow> Some (w, wii_fsm_ext_read_register s)
      | Fsm_Ext_Did_Read_Register \<Rightarrow> Some (w, s)
      | Fsm_Dev_Guessed \<Rightarrow> wii_process_fsm gap accept i (w, wii_fsm_assign_device s)
      | Fsm_Read_Calibration \<Rightarrow> Some (w, wii_fsm_balance_board_read_calibration s)
      | Fsm_Read_Calibration2 \<Rightarrow> Some (w, wii_fsm_balance_board_read_calibration2 s)
      | Fsm_Did_Read_Calibration \<Rightarrow> Some (w, s)
      | Fsm_Did_Read_Calibration2 \<Rightarrow> Some (w, s)
      | Fsm_Dev_Assigned \<Rightarrow> do {
          (w1, s1) \<leftarrow> wii_process_fsm gap accept i (w, wii_fsm_update_led s);
          (w2, ok) \<leftarrow> uni_hid_device_set_ready_complete gap accept i w1;
          Some (w2, if free_slot (devs w2 ! i) then wii_zero Subtype_None (wii_log s1) else s1)
        }
      | Fsm_Led_Updated \<Rightarrow> Some (w, s)
      | Fsm_Uninit \<Rightarrow> Some (w, s))"
  by pat_completeness auto
termination
  by (relation "measure (\<lambda>(gap, accept, i, w, s). wii_rank (wii_state s))") auto

declare wii_process_fsm.simps [simp del]

type_synonym wii_world = "bt_world \<times> controller \<times> wii_instance"

definition wii_continue ::
  "(u16 \<Rightarrow> gap_type) \<Rightarrow> bool \<Rightarrow> nat \<Rightarrow> wii_instance \<Rightarrow> wii_world \<Rightarrow> wii_world option" where
  "wii_continue gap accept i s = (\<lambda>(w, c, _). map_option (\<lambda>(w', s'). (w', c, s')) (wii_process_fsm gap accept i (w, s)))"

definition wii_start :: "wii_instance \<Rightarrow> wii_instance" where
  "wii_start s = (wii_zero (wii_subtype s) (wii_log s))\<lparr>wii_mode := Wii_Horizontal, wii_state := Fsm_Setup,
     register_address := 0xa4\<rparr>"

definition uni_hid_parser_wii_setup ::
  "(u16 \<Rightarrow> gap_type) \<Rightarrow> bool \<Rightarrow> nat \<Rightarrow> wii_world \<Rightarrow> wii_world option" where
  "uni_hid_parser_wii_setup gap accept i x = wii_continue gap accept i (wii_start (snd (snd x))) x"

section \<open>Replies\<close>

text \<open>What a status report says of the device, of the extension, and of the buttons that are held.\<close>

definition status_device :: "u16 \<Rightarrow> u8 \<Rightarrow> wii_instance \<Rightarrow> wii_instance" where
  "status_device pid lf s =
     (if pid = 0x0306 then s\<lparr>wii_state := Fsm_Dev_Guessed, dev_type := Devtype_Remote\<rparr>
      else if pid = 0x0330 then
        (if lf AND 0x02 = 0 then s\<lparr>wii_state := Fsm_Dev_Guessed, dev_type := Devtype_Remote_Mp\<rparr>
         else s\<lparr>wii_state := Fsm_Dev_Unk\<rparr>)
      else s)"

definition status_extension :: "u8 \<Rightarrow> wii_instance \<Rightarrow> wii_instance" where
  "status_extension lf s =
     (if lf AND 0x02 \<noteq> 0 then s\<lparr>wii_state := Fsm_Ext_Unk, ext_type := Ext_Unk\<rparr> else s\<lparr>ext_type := Ext_None\<rparr>)"

definition status_mode :: "u8 list \<Rightarrow> wii_instance \<Rightarrow> wii_instance" where
  "status_mode r s =
     (if r ! 2 AND 0x08 \<noteq> 0 then s\<lparr>wii_mode := Wii_Accel\<rparr>
      else if r ! 1 AND 0x10 \<noteq> 0 then s\<lparr>wii_mode := Wii_Vertical\<rparr> else s)"

definition process_req_status ::
  "(u16 \<Rightarrow> gap_type) \<Rightarrow> bool \<Rightarrow> nat \<Rightarrow> u8 list \<Rightarrow> u16 \<Rightarrow> wii_world \<Rightarrow> wii_world option" where
  "process_req_status gap accept i r len = (\<lambda>(w, c, s).
     if len < 7 then Some (w, c, s)
     else let lf = r ! 3 AND 0x0f in
       if wii_state s = Fsm_Did_Req_Status then
         wii_continue gap accept i
           (status_mode r (status_extension lf (status_device (product_id (devs w ! i)) lf s))) (w, c, s)
       else Some (w, c, s))"

definition guess_device :: "u16 \<Rightarrow> u8 list \<Rightarrow> wii_instance \<Rightarrow> wii_instance" where
  "guess_device pid r s =
     (if r ! 10 = 0x01 \<and> r ! 11 = 0x20 then s\<lparr>dev_type := Devtype_Pro_Controller, ext_type := Ext_U_Pro_Controller\<rparr>
      else if dev_type s = Devtype_Unk then
        (if pid = 0x0330 then s\<lparr>dev_type := Devtype_Remote_Mp\<rparr>
         else if pid = 0x0306 then s\<lparr>dev_type := Devtype_Remote\<rparr> else s)
      else s)"

definition guess_extension :: "u8 list \<Rightarrow> wii_instance \<Rightarrow> wii_instance" where
  "guess_extension r s =
     (if ext_type s = Ext_Unk then
        (if r ! 10 = 0x00 \<and> r ! 11 = 0x00 then s\<lparr>ext_type := Ext_Nunchuk, wii_mode := Wii_Vertical\<rparr>
         else if r ! 10 = 0x04 \<and> r ! 11 = 0x02 then s\<lparr>ext_type := Ext_Balance_Board\<rparr>
         else if r ! 10 = 0x01 \<and> r ! 11 = 0x01 then s\<lparr>ext_type := Ext_Classic_Controller\<rparr>
         else if r ! 10 = 0x01 \<and> r ! 11 = 0x12 then s\<lparr>ext_type := Ext_Udraw_Tablet, wii_mode := Wii_Vertical\<rparr>
         else s)
      else s)"

text \<open>The byte 3 holds the size of the data less one, and an error; the bytes 4 and 5 the address.\<close>

definition data_header :: "u8 list \<Rightarrow> u8 \<Rightarrow> u8 \<Rightarrow> bool" where
  "data_header r sz lo \<longleftrightarrow> drop_bit 4 (r ! 3) = sz \<and> r ! 4 = 0x00 \<and> r ! 5 = lo"

definition process_req_data_read_register ::
  "(u16 \<Rightarrow> gap_type) \<Rightarrow> bool \<Rightarrow> nat \<Rightarrow> u8 list \<Rightarrow> wii_world \<Rightarrow> wii_world option" where
  "process_req_data_read_register gap accept i r = (\<lambda>(w, c, s).
     if r ! 3 AND 0x0f \<noteq> 0 then Some (w, c, s)
     else if data_header r 5 0xfa then
       let s1 = guess_extension r (guess_device (product_id (devs w ! i)) r s) in
       wii_continue gap accept i
         (s1\<lparr>wii_state := (if ext_type s1 = Ext_Balance_Board then Fsm_Read_Calibration else Fsm_Dev_Guessed)\<rparr>) (w, c, s)
     else Some (w, c, s))"

definition board_word :: "u8 list \<Rightarrow> nat \<Rightarrow> u16" where
  "board_word r k = push_bit 8 (ucast (r ! k)) + ucast (r ! (k + 1))"

definition board_at :: "u8 list \<Rightarrow> nat \<Rightarrow> balance_board \<Rightarrow> balance_board" where
  "board_at r k b = b\<lparr>bb_tr := board_word r k, bb_br := board_word r (k + 2), bb_tl := board_word r (k + 4), bb_bl := board_word r (k + 6)\<rparr>"

definition process_req_data_read_calibration_data ::
  "(u16 \<Rightarrow> gap_type) \<Rightarrow> bool \<Rightarrow> nat \<Rightarrow> u8 list \<Rightarrow> wii_world \<Rightarrow> wii_world option" where
  "process_req_data_read_calibration_data gap accept i r = (\<lambda>(w, c, s).
     if r ! 3 AND 0x0f \<noteq> 0 then Some (w, c, s)
     else let s1 = (if data_header r 15 0x24
                    then s\<lparr>kg0 := board_at r 6 (kg0 s), kg17 := board_at r 14 (kg17 s)\<rparr> else s) in
       wii_continue gap accept i (s1\<lparr>wii_state := Fsm_Read_Calibration2\<rparr>) (w, c, s))"

definition process_req_data_read_calibration_data2 ::
  "(u16 \<Rightarrow> gap_type) \<Rightarrow> bool \<Rightarrow> nat \<Rightarrow> u8 list \<Rightarrow> wii_world \<Rightarrow> wii_world option" where
  "process_req_data_read_calibration_data2 gap accept i r = (\<lambda>(w, c, s).
     if r ! 3 AND 0x0f \<noteq> 0 then Some (w, c, s)
     else let s1 = (if data_header r 7 0x34 then s\<lparr>kg34 := board_at r 6 (kg34 s)\<rparr> else s) in
       wii_continue gap accept i (s1\<lparr>wii_state := Fsm_Dev_Guessed\<rparr>) (w, c, s))"

definition process_req_data ::
  "(u16 \<Rightarrow> gap_type) \<Rightarrow> bool \<Rightarrow> nat \<Rightarrow> u8 list \<Rightarrow> u16 \<Rightarrow> wii_world \<Rightarrow> wii_world option" where
  "process_req_data gap accept i r len = (\<lambda>(w, c, s).
     if len < 22 then Some (w, c, s)
     else case wii_state s of
       Fsm_Ext_Did_Read_Register \<Rightarrow> process_req_data_read_register gap accept i r (w, c, s)
     | Fsm_Did_Read_Calibration \<Rightarrow> process_req_data_read_calibration_data gap accept i r (w, c, s)
     | Fsm_Did_Read_Calibration2 \<Rightarrow> process_req_data_read_calibration_data2 gap accept i r (w, c, s)
     | Fsm_Dump_Eeprom_In_Progress \<Rightarrow> wii_continue gap accept i s (w, c, s)
     | _ \<Rightarrow> Some (w, c, s))"

text \<open>A short acknowledgement is logged, and then read like the others.\<close>

definition process_req_return ::
  "(u16 \<Rightarrow> gap_type) \<Rightarrow> bool \<Rightarrow> nat \<Rightarrow> u8 list \<Rightarrow> wii_world \<Rightarrow> wii_world option" where
  "process_req_return gap accept i r = (\<lambda>(w, c, s). do {
     cmd \<leftarrow> read_at r 3;
     if cmd \<noteq> WIIPROTO_REQ_WMEM then Some (w, c, s)
     else do {
       e \<leftarrow> read_at r 4;
       wii_continue gap accept i
         (if e = 0 then s
          else if register_address s = 0xa6 then s\<lparr>wii_state := Fsm_Setup\<rparr>
          else s\<lparr>wii_state := Fsm_Dev_Unk, register_address := 0xa6\<rparr>) (w, c, s)
     }
   })"

section \<open>Input reports\<close>

text \<open>Bits that mean a button is up.\<close>

definition flag_not :: "u8 \<Rightarrow> u8 \<Rightarrow> ('w :: len) word \<Rightarrow> 'w word" where
  "flag_not b m w = (if b AND m = 0 then w else 0)"

definition process_drm_k_horizontal :: "u8 \<Rightarrow> u8 \<Rightarrow> uni_gamepad \<Rightarrow> uni_gamepad" where
  "process_drm_k_horizontal b0 b1 gp = gp\<lparr>
     dpad := dpad gp OR flag_if b0 1 DPAD_DOWN OR flag_if b0 2 DPAD_UP OR flag_if b0 4 DPAD_RIGHT OR flag_if b0 8 DPAD_LEFT,
     buttons := buttons gp OR flag_if b1 4 BUTTON_Y OR flag_if b1 8 BUTTON_X OR flag_if b1 2 BUTTON_A OR
       flag_if b1 1 BUTTON_B\<rparr>"

definition process_drm_k_vertical :: "u8 \<Rightarrow> u8 \<Rightarrow> uni_gamepad \<Rightarrow> uni_gamepad" where
  "process_drm_k_vertical b0 b1 gp = gp\<lparr>
     dpad := dpad gp OR flag_if b0 1 DPAD_LEFT OR flag_if b0 2 DPAD_RIGHT OR flag_if b0 4 DPAD_DOWN OR flag_if b0 8 DPAD_UP,
     buttons := buttons gp OR flag_if b1 4 BUTTON_A OR flag_if b1 8 BUTTON_B OR flag_if b1 2 BUTTON_X OR
       flag_if b1 1 BUTTON_Y\<rparr>"

definition wii_misc :: "u8 \<Rightarrow> u8 \<Rightarrow> u8" where
  "wii_misc b0 b1 = flag_if b1 0x80 MISC_BUTTON_SYSTEM OR flag_if b0 0x10 MISC_BUTTON_START OR
     flag_if b1 0x10 MISC_BUTTON_SELECT"

definition process_drm_k :: "wii_mode \<Rightarrow> u8 list \<Rightarrow> u16 \<Rightarrow> uni_gamepad \<Rightarrow> uni_gamepad" where
  "process_drm_k mode r len gp =
     (if len < 3 then gp
      else let gp = (case mode of
             Wii_Horizontal \<Rightarrow> process_drm_k_horizontal (r ! 1) (r ! 2) gp
           | Wii_Vertical \<Rightarrow> process_drm_k_vertical (r ! 1) (r ! 2) gp
           | Wii_Accel \<Rightarrow> gp) in
        gp\<lparr>misc_buttons := misc_buttons gp OR wii_misc (r ! 1) (r ! 2)\<rparr>)"

text \<open>Ten bits of acceleration, less the middle; only one of the two low bits of y and z is sent.\<close>

definition wii_accel :: "u8 \<Rightarrow> u8 \<Rightarrow> int" where
  "wii_accel hi lo = sint (word_of_int (uint (push_bit 2 (ucast hi) OR ucast lo :: u16) - 0x200) :: u16)"

definition process_drm_ka :: "u8 list \<Rightarrow> u16 \<Rightarrow> uni_gamepad \<Rightarrow> uni_gamepad" where
  "process_drm_ka r len gp =
     (if len < 6 then gp
      else gp\<lparr>
        accel := [wii_accel (r ! 3) (drop_bit 5 (r ! 1) AND 0x3), wii_accel (r ! 4) (drop_bit 4 (r ! 2) AND 0x2),
          wii_accel (r ! 5) (drop_bit 5 (r ! 2) AND 0x2)],
        dpad := dpad gp OR flag_if (r ! 1) 1 DPAD_DOWN OR flag_if (r ! 1) 2 DPAD_UP OR
          flag_if (r ! 1) 4 DPAD_RIGHT OR flag_if (r ! 1) 8 DPAD_LEFT,
        buttons := buttons gp OR flag_if (r ! 2) 2 BUTTON_A OR flag_if (r ! 2) 1 BUTTON_B OR
          flag_if (r ! 2) 8 BUTTON_X OR flag_if (r ! 2) 4 BUTTON_Y,
        misc_buttons := misc_buttons gp OR wii_misc (r ! 1) (r ! 2)\<rparr>)"

definition nunchuk_zero :: nunchuk where
  "nunchuk_zero = \<lparr>n_sx = 0, n_sy = 0, n_ax = 0, n_ay = 0, n_az = 0, n_bc = False, n_bz = False\<rparr>"

definition nunchuk_accel :: "u8 \<Rightarrow> u8 \<Rightarrow> int" where
  "nunchuk_accel hi lo = uint (push_bit 2 (ucast hi) OR ucast lo :: u32) - AXIS_NORMALIZE_RANGE div 2"

definition process_nunchuk :: "u8 list \<Rightarrow> u16 \<Rightarrow> nunchuk" where
  "process_nunchuk e len =
     (if len < 6 then nunchuk_zero
      else \<lparr>n_sx = uint (e ! 0) - 0x80, n_sy = - (uint (e ! 1) - 0x80),
        n_ax = nunchuk_accel (e ! 2) (drop_bit 2 (e ! 5 AND 0x0c)),
        n_ay = nunchuk_accel (e ! 3) (drop_bit 4 (e ! 5 AND 0x30)),
        n_az = nunchuk_accel (e ! 4) (drop_bit 6 (e ! 5 AND 0xc0)),
        n_bc = (e ! 5 AND 2 = 0), n_bz = (e ! 5 AND 1 = 0)\<rparr>)"

definition udraw_zero :: udraw_tablet where
  "udraw_zero = \<lparr>u_x = 0, u_y = 0, u_pressure = 0, u_lower = False, u_upper = False\<rparr>"

definition process_udraw_tablet :: "u8 list \<Rightarrow> u16 \<Rightarrow> udraw_tablet" where
  "process_udraw_tablet e len =
     (if len < 6 then udraw_zero
      else \<lparr>u_x = ucast (e ! 0) + push_bit 8 (ucast (e ! 2 AND 0x0f)),
        u_y = ucast (e ! 1) + push_bit 4 (ucast (e ! 2 AND 0xf0)),
        u_pressure = ucast (e ! 3) + push_bit 5 (ucast (e ! 5 AND 0x04)),
        u_lower = (e ! 5 AND 2 = 0), u_upper = (e ! 5 AND 1 = 0)\<rparr>)"

definition udraw_axis :: "u16 \<Rightarrow> int \<Rightarrow> int \<Rightarrow> int" where
  "udraw_axis v lo hi =
     (if v < 2000 then c_quot ((uint v - lo) * AXIS_NORMALIZE_RANGE) hi - AXIS_NORMALIZE_RANGE div 2 else 0)"

definition ke_extension :: "wii_exttype \<Rightarrow> u8 list \<Rightarrow> u16 \<Rightarrow> uni_gamepad \<Rightarrow> uni_gamepad" where
  "ke_extension ext r len gp =
     (if ext = Ext_Nunchuk then
        let n = process_nunchuk (drop 3 r) (len - 3); factor = AXIS_NORMALIZE_RANGE div 2 div 128 in
        gp\<lparr>axis_rx := n_sx n * factor, axis_ry := n_sy n * factor,
          buttons := buttons gp OR (if n_bc n then BUTTON_X else 0) OR (if n_bz n then BUTTON_Y else 0)\<rparr>
      else
        let n = process_udraw_tablet (drop 3 r) (len - 3) in
        gp\<lparr>axis_rx := udraw_axis (u_x n) 90 1955, axis_ry := udraw_axis (u_y n) 80 1450,
          gp_throttle := c_quot ((uint (u_pressure n) - 8) * AXIS_NORMALIZE_RANGE) 380,
          buttons := buttons gp OR (if u_upper n then BUTTON_X else 0) OR (if u_lower n then BUTTON_Y else 0)\<rparr>)"

definition process_drm_ke :: "wii_instance \<Rightarrow> u8 list \<Rightarrow> u16 \<Rightarrow> uni_gamepad \<Rightarrow> uni_gamepad" where
  "process_drm_ke s r len gp =
     (if len < 11 \<or> ext_type s \<noteq> Ext_Nunchuk \<and> ext_type s \<noteq> Ext_Udraw_Tablet \<or> wii_mode s \<noteq> Wii_Vertical then gp
      else let gp = ke_extension (ext_type s) r len gp in
        gp\<lparr>dpad := dpad gp OR flag_if (r ! 1) 1 DPAD_LEFT OR flag_if (r ! 1) 2 DPAD_RIGHT OR
            flag_if (r ! 1) 4 DPAD_DOWN OR flag_if (r ! 1) 8 DPAD_UP,
          buttons := buttons gp OR flag_if (r ! 2) 4 BUTTON_A OR flag_if (r ! 2) 8 BUTTON_B OR
            flag_if (r ! 2) 2 BUTTON_SHOULDER_L OR flag_if (r ! 2) 1 BUTTON_SHOULDER_R,
          misc_buttons := misc_buttons gp OR wii_misc (r ! 1) (r ! 2)\<rparr>)"

text \<open>Grams, from four readings of a sensor of the Balance Board.\<close>

definition balance_interpolate :: "u16 \<Rightarrow> u16 \<Rightarrow> u16 \<Rightarrow> u16 \<Rightarrow> int option" where
  "balance_interpolate val v0 v17 v34 =
     (let weight =
        (if val < v0 then 0
         else if val < v17 then
           f32_of_int 17 * f32_of_int (uint val - uint v0) / f32_of_int (uint v17 - uint v0)
         else f32_of_int 17 +
           f32_of_int 17 * f32_of_int (uint val - uint v17) / f32_of_int (uint v34 - uint v17)) in
      Option.bind (trunc_int (weight * f32_of_int 1000)) i32)"

definition board_battery :: "u8 \<Rightarrow> u8" where
  "board_battery b = (if 0x82 \<le> b then 255 else if 0x7d \<le> b then 192 else if 0x78 \<le> b then 128
     else if 0x6a \<le> b then 64 else 0)"

definition process_balance_board :: "wii_instance \<Rightarrow> u8 list \<Rightarrow> u16 \<Rightarrow> balance_board option" where
  "process_balance_board s e len =
     (if len < 11 then Some board_zero
      else do {
        d \<leftarrow> read_bytes e 0 11;
        let b = (board_at d 0 board_zero)\<lparr>bb_temperature := uint (d ! 8), bb_battery := board_battery (d ! 10)\<rparr>;
        tr \<leftarrow> balance_interpolate (bb_tr b) (bb_tr (kg0 s)) (bb_tr (kg17 s)) (bb_tr (kg34 s));
        br \<leftarrow> balance_interpolate (bb_br b) (bb_br (kg0 s)) (bb_br (kg17 s)) (bb_br (kg34 s));
        tl \<leftarrow> balance_interpolate (bb_tl b) (bb_tl (kg0 s)) (bb_tl (kg17 s)) (bb_tl (kg34 s));
        bl \<leftarrow> balance_interpolate (bb_bl b) (bb_bl (kg0 s)) (bb_bl (kg17 s)) (bb_bl (kg34 s));
        Some (b\<lparr>bb_tr := word_of_int tr, bb_br := word_of_int br, bb_tl := word_of_int tl, bb_bl := word_of_int bl\<rparr>)
      })"

text \<open>
  The data of a controller are a union.  Seen as a gamepad, the four weights, two bytes each, and the
  temperature, four bytes, of a board lie where the direction pad, the first stick axis and the
  second stick axis are, on this little-endian machine; what follows was cleared.
\<close>

definition board_view :: "balance_board \<Rightarrow> uni_gamepad \<Rightarrow> uni_gamepad" where
  "board_view b gp = gp\<lparr>dpad := ucast (bb_tr b),
     axis_x := sint (ucast (bb_tl b) OR push_bit 16 (ucast (bb_bl b)) :: u32), axis_y := bb_temperature b\<rparr>"

definition drm_kee_board :: "wii_instance \<Rightarrow> u8 list \<Rightarrow> u16 \<Rightarrow> controller \<Rightarrow> controller option" where
  "drm_kee_board s r len c = do {
     b \<leftarrow> process_balance_board s (drop 3 r) (len - 3);
     Some (c\<lparr>gamepad := board_view b (gamepad c), klass := Class_Balance_Board,
       battery := (if bb_battery b < 1 then 1 else bb_battery b)\<rparr>)
   }"

definition pro_axis :: "u8 \<Rightarrow> u8 \<Rightarrow> int" where
  "pro_axis lo hi = c_quot (sint (word_of_int (uint lo + uint (push_bit 8 (ucast (hi AND 0x0f)) :: u32) - 0x800) :: u16) * 512) 1280"

definition kee_buttons :: "u8 \<Rightarrow> u8 \<Rightarrow> u8 \<Rightarrow> u16" where
  "kee_buttons b8 b9 b10 = flag_not b9 0x10 BUTTON_B OR flag_not b9 0x40 BUTTON_A OR flag_not b9 0x08 BUTTON_Y OR
     flag_not b9 0x20 BUTTON_X OR flag_not b9 0x80 BUTTON_TRIGGER_L OR flag_not b9 0x04 BUTTON_TRIGGER_R OR
     flag_not b8 0x20 BUTTON_SHOULDER_L OR flag_not b8 0x02 BUTTON_SHOULDER_R OR flag_not b10 0x02 BUTTON_THUMB_L OR
     flag_not b10 0x01 BUTTON_THUMB_R"

definition kee_battery :: "u8 \<Rightarrow> u8" where
  "kee_battery b = (let bat = uint (b AND 0x70) * 4 - 1 in
     word_of_int (if bat < 1 then 1 else if 255 < bat then 255 else bat))"

definition drm_kee_pro :: "u8 list \<Rightarrow> controller \<Rightarrow> controller" where
  "drm_kee_pro d c = (let gp = gamepad c in
     c\<lparr>gamepad := gp\<lparr>axis_x := pro_axis (d ! 0) (d ! 1), axis_y := - pro_axis (d ! 4) (d ! 5),
         axis_rx := pro_axis (d ! 2) (d ! 3), axis_ry := - pro_axis (d ! 6) (d ! 7),
         dpad := dpad gp OR flag_not (d ! 8) 0x80 DPAD_RIGHT OR flag_not (d ! 8) 0x40 DPAD_DOWN OR
           flag_not (d ! 9) 0x02 DPAD_LEFT OR flag_not (d ! 9) 0x01 DPAD_UP,
         buttons := buttons gp OR kee_buttons (d ! 8) (d ! 9) (d ! 10),
         misc_buttons := misc_buttons gp OR flag_not (d ! 8) 0x08 MISC_BUTTON_SYSTEM OR
           flag_not (d ! 8) 0x04 MISC_BUTTON_START OR flag_not (d ! 8) 0x10 MISC_BUTTON_SELECT\<rparr>,
       battery := kee_battery (d ! 10)\<rparr>)"

text \<open>The length of the board's data is computed before it is known that the report has three bytes.\<close>

definition process_drm_kee :: "wii_instance \<Rightarrow> u8 list \<Rightarrow> u16 \<Rightarrow> controller \<Rightarrow> controller option" where
  "process_drm_kee s r len c =
     (if ext_type s = Ext_Balance_Board then drm_kee_board s r len c
      else if ext_type s \<noteq> Ext_U_Pro_Controller \<or> len < 14 then Some c
      else Some (drm_kee_pro (drop 3 r) c))"

text \<open>The lowest bit of the right stick's x is in byte 2 of the data, bit 7; the code takes it from byte 0.\<close>

definition classic_rx :: "u8 list \<Rightarrow> u8" where
  "classic_rx d = drop_bit 3 (d ! 0 AND 0xc0) OR drop_bit 5 (d ! 1 AND 0xc0) OR drop_bit 7 (d ! 0 AND 0x80)"

definition classic_buttons :: "u8 \<Rightarrow> u8 \<Rightarrow> u16" where
  "classic_buttons b4 b5 = flag_not b5 0x40 BUTTON_A OR flag_not b5 0x10 BUTTON_B OR flag_not b5 0x20 BUTTON_X OR
     flag_not b5 0x08 BUTTON_Y OR flag_not b4 0x20 BUTTON_SHOULDER_L OR flag_not b4 0x02 BUTTON_SHOULDER_R OR
     flag_not b5 0x80 BUTTON_TRIGGER_L OR flag_not b5 0x04 BUTTON_TRIGGER_R"

definition process_drm_e :: "wii_instance \<Rightarrow> u8 list \<Rightarrow> u16 \<Rightarrow> uni_gamepad \<Rightarrow> uni_gamepad" where
  "process_drm_e s r len gp =
     (if len < 22 \<or> ext_type s \<noteq> Ext_Classic_Controller then gp
      else let d = drop 1 r; range = AXIS_NORMALIZE_RANGE in
        gp\<lparr>axis_x := (uint (d ! 0 AND 0x3f) - 32) * (range div 2 div 32),
          axis_y := - ((uint (d ! 1 AND 0x3f) - 32) * (range div 2 div 32)),
          axis_rx := (uint (classic_rx d) - 16) * (range div 2 div 16),
          axis_ry := - ((uint (d ! 2 AND 0x1f) - 16) * (range div 2 div 16)),
          brake := uint (drop_bit 2 (d ! 2 AND 0x60) OR drop_bit 5 (d ! 3 AND 0xe0)) * (range div 32),
          gp_throttle := uint (d ! 3 AND 0x1f) * (range div 32),
          dpad := dpad gp OR flag_not (d ! 4) 0x80 DPAD_RIGHT OR flag_not (d ! 4) 0x40 DPAD_DOWN OR
            flag_not (d ! 5) 0x01 DPAD_UP OR flag_not (d ! 5) 0x02 DPAD_LEFT,
          buttons := buttons gp OR classic_buttons (d ! 4) (d ! 5),
          misc_buttons := misc_buttons gp OR flag_not (d ! 4) 0x08 MISC_BUTTON_SYSTEM OR
            flag_not (d ! 4) 0x04 MISC_BUTTON_START OR flag_not (d ! 4) 0x10 MISC_BUTTON_SELECT\<rparr>)"

definition on_pad :: "(uni_gamepad \<Rightarrow> uni_gamepad) \<Rightarrow> wii_world \<Rightarrow> wii_world" where
  "on_pad f = (\<lambda>(w, c, s). (w, c\<lparr>gamepad := f (gamepad c)\<rparr>, s))"

definition uni_hid_parser_wii_parse_input_report ::
  "(u16 \<Rightarrow> gap_type) \<Rightarrow> bool \<Rightarrow> nat \<Rightarrow> u8 list \<Rightarrow> u16 \<Rightarrow> wii_world \<Rightarrow> wii_world option" where
  "uni_hid_parser_wii_parse_input_report gap accept i r len = (\<lambda>(w, c, s).
     if length r < unat len then None
     else if len = 0 then Some (w, c, s)
     else if r ! 0 = WIIPROTO_REQ_STATUS then process_req_status gap accept i r len (w, c, s)
     else if r ! 0 = WII_REPORT_TYPE_K then Some (on_pad (process_drm_k (wii_mode s) r len) (w, c, s))
     else if r ! 0 = WII_REPORT_TYPE_KA then Some (on_pad (process_drm_ka r len) (w, c, s))
     else if r ! 0 = WII_REPORT_TYPE_KE then Some (on_pad (process_drm_ke s r len) (w, c, s))
     else if r ! 0 = WII_REPORT_TYPE_KAE then Some (w, c, s)
     else if r ! 0 = WII_REPORT_TYPE_KEE then map_option (\<lambda>c'. (w, c', s)) (process_drm_kee s r len c)
     else if r ! 0 = WII_REPORT_TYPE_E then Some (on_pad (process_drm_e s r len) (w, c, s))
     else if r ! 0 = WIIPROTO_REQ_DATA then process_req_data gap accept i r len (w, c, s)
     else if r ! 0 = WIIPROTO_REQ_RETURN then process_req_return gap accept i r (w, c, s)
     else Some (w, c, s))"

text \<open>What \<open>uni_hid_parse_input_report\<close> does with a pad of this driver.\<close>

definition wii_report ::
  "(u16 \<Rightarrow> gap_type) \<Rightarrow> bool \<Rightarrow> nat \<Rightarrow> u8 list \<Rightarrow> u16 \<Rightarrow> wii_world \<Rightarrow> wii_world option" where
  "wii_report gap accept i r len = (\<lambda>(w, c, s). uni_hid_parser_wii_parse_input_report gap accept i r len (w, clear_pad c, s))"

section \<open>Rumble\<close>

definition wii_stop_rumble_now :: "wii_instance \<Rightarrow> wii_instance option" where
  "wii_stop_rumble_now s =
     (if rumble_state s \<noteq> Rumble_In_Progress then None
      else Some (wii_send [0xa2, WIIPROTO_REQ_RUMBLE, 0x00] (s\<lparr>rumble_state := Rumble_Disabled\<rparr>)))"

definition wii_play_dual_rumble_now :: "u16 \<Rightarrow> wii_instance \<Rightarrow> wii_instance option" where
  "wii_play_dual_rumble_now duration_ms s =
     (if duration_ms = 0 then (if rumble_state s = Rumble_In_Progress then wii_stop_rumble_now s else Some s)
      else add_duration duration_ms (wii_send [0xa2, WIIPROTO_REQ_RUMBLE, 0x01] s))"

text \<open>The request as a ready pad handles it; the magnitudes are not used.\<close>

definition wii_rumble :: "u16 \<Rightarrow> u16 \<Rightarrow> u8 \<times> u8 \<Rightarrow> wii_instance \<Rightarrow> wii_instance option" where
  "wii_rumble start_delay_ms duration_ms mags s =
     (let s = remove_timers s in
      if start_delay_ms = 0 then wii_play_dual_rumble_now duration_ms s
      else add_delayed start_delay_ms (s\<lparr>rumble_duration_ms := duration_ms\<rparr>))"

definition uni_hid_parser_wii_play_dual_rumble ::
  "u16 \<Rightarrow> u16 \<Rightarrow> u8 \<times> u8 \<Rightarrow> wii_instance \<Rightarrow> wii_instance option" where
  "uni_hid_parser_wii_play_dual_rumble start_delay_ms duration_ms mags s =
     (if wii_state s \<noteq> Fsm_Led_Updated then Some s else wii_rumble start_delay_ms duration_ms mags s)"

definition on_wii_set_rumble_on :: "wii_instance \<Rightarrow> wii_instance option" where
  "on_wii_set_rumble_on s = wii_play_dual_rumble_now (rumble_duration_ms s) (s\<lparr>timer_delayed_start := None\<rparr>)"

definition on_wii_set_rumble_off :: "wii_instance \<Rightarrow> wii_instance option" where
  "on_wii_set_rumble_off s = wii_stop_rumble_now (s\<lparr>timer_duration := None\<rparr>)"

section \<open>The rumble machine\<close>

lemma wii_truncate [simp]:
  "rumble.truncate (wii_send m s) = rumble.truncate s" "rumble.truncate (s\<lparr>wii_log := l\<rparr>) = rumble.truncate s"
  by (simp_all add: rumble.truncate_def wii_send_def)

lemma wii_stop: "map_option rumble.truncate (wii_stop_rumble_now s) = quiet_stop_now (rumble.truncate s)"
  by (simp add: wii_stop_rumble_now_def quiet_stop_now_def rumble_truncate)

lemma wii_play: "map_option rumble.truncate (wii_play_dual_rumble_now dur s) = quiet_play_now dur (rumble.truncate s)"
  by (simp add: wii_play_dual_rumble_now_def quiet_play_now_def truncate_add wii_stop rumble_truncate)

lemma wii_timers_log [simp]: "wii_log (remove_timers s) = wii_log s"
  by (simp add: remove_timers_def split: rumble_state.splits)

lemma wii_add_log:
  "add_delayed ms s = Some s' \<Longrightarrow> wii_log s' = wii_log s" "add_duration ms s = Some s' \<Longrightarrow> wii_log s' = wii_log s"
  by (auto simp: add_delayed_def add_duration_def split: if_splits)

interpretation wii: quiet_driver wii_rumble on_wii_set_rumble_on on_wii_set_rumble_off rumble.truncate wii_log
proof unfold_locales
  show "map_option rumble.truncate (wii_rumble delay dur mags s) = quiet_play delay dur (rumble.truncate s)" for delay dur mags s
    by (simp add: wii_rumble_def quiet_play_def Let_def truncate_add wii_play truncate_remove rumble_truncate)
  show "map_option rumble.truncate (on_wii_set_rumble_on s) = quiet_on (rumble.truncate s)" for s
    by (simp add: on_wii_set_rumble_on_def quiet_on_def wii_play rumble_truncate)
  show "map_option rumble.truncate (on_wii_set_rumble_off s) = quiet_off (rumble.truncate s)" for s
    by (simp add: on_wii_set_rumble_off_def quiet_off_def wii_stop rumble_truncate)
qed (auto simp: wii_rumble_def Let_def wii_play_dual_rumble_now_def rumble_truncate dest: wii_add_log(1))

section \<open>Events\<close>

datatype wii_event = Wii_Report "u8 list" u16 | Wii_Leds u8 | Wii_Mode wii_mode | Wii_Play u16 u16 "u8 \<times> u8" | Wii_On | Wii_Off

definition wii_step :: "(u16 \<Rightarrow> gap_type) \<Rightarrow> bool \<Rightarrow> nat \<Rightarrow> wii_event \<Rightarrow> wii_world \<Rightarrow> wii_world option" where
  "wii_step gap accept i e = (\<lambda>(w, c, s). case e of
     Wii_Report r len \<Rightarrow> wii_report gap accept i r len (w, c, s)
   | Wii_Leds leds \<Rightarrow> Some (w, c, uni_hid_parser_wii_set_player_leds leds s)
   | Wii_Mode m \<Rightarrow> Some (w, c, uni_hid_parser_wii_set_mode m s)
   | Wii_Play delay dur mags \<Rightarrow> map_option (\<lambda>s'. (w, c, s')) (uni_hid_parser_wii_play_dual_rumble delay dur mags s)
   | Wii_On \<Rightarrow> if timer_delayed_start s = None then Some (w, c, s)
       else map_option (\<lambda>s'. (w, c, s')) (on_wii_set_rumble_on s)
   | Wii_Off \<Rightarrow> if timer_duration s = None then Some (w, c, s)
       else map_option (\<lambda>s'. (w, c, s')) (on_wii_set_rumble_off s))"

inductive wii_reach :: "(u16 \<Rightarrow> gap_type) \<Rightarrow> bool \<Rightarrow> nat \<Rightarrow> wii_world \<Rightarrow> bool" for gap accept i where
  wii_setup: "uni_hid_parser_wii_setup gap accept i (w, c, wii_zero Subtype_None []) = Some x \<Longrightarrow> wii_reach gap accept i x"
| wii_event: "wii_reach gap accept i x \<Longrightarrow> wii_step gap accept i e x = Some x' \<Longrightarrow> wii_reach gap accept i x'"

section \<open>The invariant\<close>

text \<open>Memory is addressed through one of the two registers; every message has the length of its kind.\<close>

definition wii_msg_ok :: "u8 list \<Rightarrow> bool" where
  "wii_msg_ok m \<longleftrightarrow> m \<noteq> [] \<and> m ! 0 = 0xa2 \<and>
     (length m = 3 \<and> m ! 1 \<in> {WIIPROTO_REQ_RUMBLE, WIIPROTO_REQ_LED, WIIPROTO_REQ_SREQ} \<or>
      length m = 4 \<and> m ! 1 = WIIPROTO_REQ_DRM \<and> m ! 3 \<in> {0x30, 0x31, 0x32, 0x34, 0x35, 0x3d} \<or>
      length m = 23 \<and> m ! 1 = WIIPROTO_REQ_WMEM \<and> m ! 3 \<in> {0xa4, 0xa6} \<or>
      length m = 8 \<and> m ! 1 = WIIPROTO_REQ_RMEM \<and> m ! 3 \<in> {0xa4, 0xa6})"

text \<open>The states in which the machine waits for the pad.\<close>

definition wii_resting :: "wii_fsm \<Rightarrow> bool" where
  "wii_resting st \<longleftrightarrow> st \<in> {Fsm_Uninit, Fsm_Did_Req_Status, Fsm_Ext_Did_Init, Fsm_Ext_Did_No_Encryption,
     Fsm_Ext_Did_Read_Register, Fsm_Did_Read_Calibration, Fsm_Did_Read_Calibration2, Fsm_Led_Updated}"

definition wii_core :: "wii_instance \<Rightarrow> bool" where
  "wii_core s \<longleftrightarrow> (wii_state s = Fsm_Uninit \<or> register_address s \<in> {0xa4, 0xa6}) \<and> list_all wii_msg_ok (wii_log s) \<and>
     timers_quiet s"

definition wii_inv :: "wii_instance \<Rightarrow> bool" where
  "wii_inv s \<longleftrightarrow> wii_core s \<and> wii_resting (wii_state s)"

lemma wii_send_fields [simp]:
  "wii_state (wii_send m s) = wii_state s" "register_address (wii_send m s) = register_address s"
  "wii_log (wii_send m s) = wii_log s @ [m]" "rumble_state (wii_send m s) = rumble_state s"
  "timer_delayed_start (wii_send m s) = timer_delayed_start s" "timer_duration (wii_send m s) = timer_duration s"
  "ext_type (wii_send m s) = ext_type s" "dev_type (wii_send m s) = dev_type s" "wii_mode (wii_send m s) = wii_mode s"
  "wii_seat (wii_send m s) = wii_seat s"
  by (simp_all add: wii_send_def)

lemma core_send: "wii_core (wii_send m s) \<longleftrightarrow> wii_core s \<and> wii_msg_ok m"
  by (auto simp: wii_core_def timers_quiet_def)

lemma core_state: "wii_core s \<Longrightarrow> register_address s \<in> {0xa4, 0xa6} \<Longrightarrow> wii_core (s\<lparr>wii_state := st\<rparr>)"
  by (auto simp: wii_core_def timers_quiet_def)

text \<open>The messages that read memory, with their bytes.\<close>

lemma read_messages:
  assumes "register_address s \<in> {0xa4, 0xa6}"
  shows "wii_fsm_ext_read_register s = wii_send [0xa2, 0x17, 4, register_address s, 0, 0xfa, 0, 6]
      (s\<lparr>wii_state := Fsm_Ext_Did_Read_Register\<rparr>)"
    "wii_fsm_balance_board_read_calibration s = wii_send [0xa2, 0x17, 4, register_address s, 0, 0x24, 0, 16]
      (s\<lparr>wii_state := Fsm_Did_Read_Calibration\<rparr>)"
    "wii_fsm_balance_board_read_calibration2 s = wii_send [0xa2, 0x17, 4, register_address s, 0, 0x34, 0, 8]
      (s\<lparr>wii_state := Fsm_Did_Read_Calibration2\<rparr>)"
  using assms
  by (auto simp: wii_fsm_ext_read_register_def wii_fsm_balance_board_read_calibration_def
      wii_fsm_balance_board_read_calibration2_def wii_read_mem_def wii_read_code_def)

text \<open>What the machine sends and where it goes, from a state it does not rest in.\<close>

lemma wii_msgs_ok [simp]:
  "wii_msg_ok [0xa2, 0x10, a]" "wii_msg_ok [0xa2, 0x11, a]" "wii_msg_ok [0xa2, 0x15, a]"
  "wii_msg_ok [0xa2, 0x12, a, b] \<longleftrightarrow> b \<in> {0x30, 0x31, 0x32, 0x34, 0x35, 0x3d}"
  "wii_msg_ok (0xa2 # 0x16 # a # b # c # d # e # f # replicate 15 0) \<longleftrightarrow> b \<in> {0xa4, 0xa6}"
  "wii_msg_ok [0xa2, 0x17, a, b, c, d, e, f] \<longleftrightarrow> b \<in> {0xa4, 0xa6}"
  by (simp_all add: wii_msg_ok_def)

lemma core_set_led: "wii_core s \<Longrightarrow> wii_core (wii_set_led seat s)"
  by (simp add: wii_set_led_def core_send)

lemma set_led_fields [simp]:
  "wii_state (wii_set_led seat s) = wii_state s" "register_address (wii_set_led seat s) = register_address s"
  "ext_type (wii_set_led seat s) = ext_type s" "dev_type (wii_set_led seat s) = dev_type s"
  by (simp_all add: wii_set_led_def)

lemma assign_fields [simp]:
  "register_address (wii_fsm_assign_device s) = register_address s" "ext_type (wii_fsm_assign_device s) = ext_type s"
  "dev_type (wii_fsm_assign_device s) = dev_type s" "wii_seat (wii_fsm_assign_device s) = wii_seat s"
  by (simp_all add: wii_fsm_assign_device_def uni_hid_parser_wii_request_report_type_def Let_def split: prod.splits)

lemma core_assign: "wii_core s \<Longrightarrow> register_address s \<in> {0xa4, 0xa6} \<Longrightarrow> wii_core (wii_fsm_assign_device s)"
  by (auto simp: wii_fsm_assign_device_def uni_hid_parser_wii_request_report_type_def remote_report_def Let_def
      core_send wii_core_def timers_quiet_def split: prod.splits if_splits)

lemma core_update_led: "wii_core s \<Longrightarrow> register_address s \<in> {0xa4, 0xa6} \<Longrightarrow> wii_core (wii_fsm_update_led s)"
  unfolding wii_fsm_update_led_def by (rule core_state [OF core_set_led]) simp_all

lemma core_zero: "list_all wii_msg_ok l \<Longrightarrow> wii_inv (wii_zero sub l)"
  by (simp add: wii_inv_def wii_core_def wii_resting_def wii_zero_def timers_quiet_def)

lemma fsm_rests: "wii_resting (wii_state s) \<Longrightarrow> wii_state s \<notin> {Fsm_Ext_Did_Init, Fsm_Ext_Did_No_Encryption} \<Longrightarrow>
    wii_process_fsm gap accept i (w, s) = Some (w, s)"
  by (auto simp: wii_resting_def wii_process_fsm.simps)

text \<open>The last steps of the set-up, in one.\<close>

definition wii_finish :: "(u16 \<Rightarrow> gap_type) \<Rightarrow> bool \<Rightarrow> nat \<Rightarrow> bt_world \<times> wii_instance \<Rightarrow> (bt_world \<times> wii_instance) option" where
  "wii_finish gap accept i = (\<lambda>(w, s). map_option (\<lambda>(w', ok).
     (w', if free_slot (devs w' ! i) then wii_zero Subtype_None (wii_log s) else s))
     (uni_hid_device_set_ready_complete gap accept i w))"

lemma fsm_assigned: "wii_state s = Fsm_Dev_Assigned \<Longrightarrow>
    wii_process_fsm gap accept i (w, s) = wii_finish gap accept i (w, wii_fsm_update_led s)"
  by (cases "uni_hid_device_set_ready_complete gap accept i w")
    (simp_all add: wii_process_fsm.simps [of _ _ _ w s] fsm_rests wii_resting_def wii_finish_def case_prod_beta)

lemma fsm_guessed: "wii_state s = Fsm_Dev_Guessed \<Longrightarrow>
    wii_process_fsm gap accept i (w, s) = wii_finish gap accept i (w, wii_fsm_update_led (wii_fsm_assign_device s))"
  by (simp add: wii_process_fsm.simps [of _ _ _ w s] fsm_assigned)

lemma finish_inv:
  assumes "wii_finish gap accept i (w, s) = Some (w', s')" "wii_core s" "wii_state s = Fsm_Led_Updated"
  shows "wii_inv s'"
proof -
  have "list_all wii_msg_ok (wii_log s)" using assms(2) by (simp add: wii_core_def)
  then have "s' = s \<or> wii_inv s'" using assms(1) core_zero by (auto simp: wii_finish_def split: if_splits)
  then show ?thesis using assms(2,3) by (auto simp: wii_inv_def wii_resting_def)
qed

lemma fsm_inv:
  assumes "wii_process_fsm gap accept i (w, s) = Some (w', s')" "wii_core s"
  shows "wii_inv s'"
proof (cases "wii_state s = Fsm_Uninit")
  case True
  then show ?thesis using assms by (auto simp: wii_process_fsm.simps wii_inv_def wii_resting_def)
next
  case False
  then have r: "register_address s \<in> {0xa4, 0xa6}" using assms(2) by (auto simp: wii_core_def)
  note c = core_state [OF assms(2) r]
  show ?thesis
  proof (cases "wii_state s")
    case Fsm_Dev_Guessed
    show ?thesis
      by (rule finish_inv [OF assms(1) [unfolded fsm_guessed [OF Fsm_Dev_Guessed]]])
        (use core_update_led [OF core_assign [OF assms(2) r]] r in simp_all)
  next
    case Fsm_Dev_Assigned
    show ?thesis
      by (rule finish_inv [OF assms(1) [unfolded fsm_assigned [OF Fsm_Dev_Assigned]]])
        (use core_update_led [OF assms(2) r] in simp_all)
  qed (use assms False r c in \<open>auto simp: wii_process_fsm.simps wii_inv_def wii_resting_def core_send read_messages
      wii_fsm_req_status_def wii_fsm_ext_init_def wii_fsm_ext_encrypt_off_def\<close>)
qed

lemma wii_fsm_total: "\<exists>w' s'. wii_process_fsm gap True i (w, s) = Some (w', s')"
proof -
  have f: "\<exists>w' s'. wii_finish gap True i (w, s) = Some (w', s')" for s
    by (cases "conn_state (conn (devs w ! i)) = Cs_Ready")
      (simp_all add: wii_finish_def uni_hid_device_set_ready_complete_def Let_def)
  show ?thesis
    using f by (cases "wii_state s") (auto simp: fsm_guessed fsm_assigned, auto simp: wii_process_fsm.simps)
qed

lemma core_fields [simp]:
  "wii_core (s\<lparr>dev_type := a\<rparr>) = wii_core s" "wii_core (s\<lparr>ext_type := b\<rparr>) = wii_core s"
  "wii_core (s\<lparr>wii_mode := d\<rparr>) = wii_core s" "wii_core (s\<lparr>wii_seat := e\<rparr>) = wii_core s"
  "wii_core (s\<lparr>kg0 := k\<rparr>) = wii_core s" "wii_core (s\<lparr>kg17 := k\<rparr>) = wii_core s" "wii_core (s\<lparr>kg34 := k\<rparr>) = wii_core s"
  "wii_core (s\<lparr>wii_subtype := u\<rparr>) = wii_core s"
  by (simp_all add: wii_core_def timers_quiet_def)

lemma continue_inv:
  assumes "wii_continue gap accept i s (w, c, z) = Some (w', c', s')" "wii_core s"
  shows "wii_inv s' \<and> c' = c"
  using assms fsm_inv [of gap accept i w s w' s'] by (auto simp: wii_continue_def)

lemma core_register: "wii_core s \<Longrightarrow> wii_state s \<noteq> Fsm_Uninit \<Longrightarrow> register_address s = 0xa4 \<or> register_address s = 0xa6"
  by (auto simp: wii_core_def)

lemma core_wait:
  assumes "wii_core s" "wii_state s \<noteq> Fsm_Uninit" "wii_core t = wii_core s" "register_address t = register_address s"
  shows "wii_core (t\<lparr>wii_state := st\<rparr>)"
  by (rule core_state) (use assms in \<open>auto simp: wii_core_def\<close>)

lemma status_core:
  assumes "wii_core s" "wii_state s = Fsm_Did_Req_Status"
  shows "wii_core (status_mode r (status_extension lf (status_device pid lf s)))"
proof -
  have "wii_core (s\<lparr>wii_state := st\<rparr>)" for st by (rule core_wait) (use assms in simp_all)
  then have "wii_core (status_device pid lf s) \<and> (\<forall>st. wii_core ((status_device pid lf s)\<lparr>wii_state := st\<rparr>))"
    using assms(1) core_wait [OF assms(1)] assms(2) by (auto simp: status_device_def)
  then show ?thesis by (auto simp: status_mode_def status_extension_def)
qed

lemma guess_core:
  "wii_core (guess_extension r (guess_device pid r s)) = wii_core s"
  "register_address (guess_extension r (guess_device pid r s)) = register_address s"
  by (auto simp: guess_extension_def guess_device_def)

lemma replies_inv:
  assumes "wii_inv s"
  shows "process_req_status gap accept i r len (w, c, s) = Some (w', c', s') \<Longrightarrow> wii_inv s' \<and> c' = c"
    "process_req_data gap accept i r len (w, c, s) = Some (w', c', s') \<Longrightarrow> wii_inv s' \<and> c' = c"
    "process_req_return gap accept i r (w, c, s) = Some (w', c', s') \<Longrightarrow> wii_inv s' \<and> c' = c"
proof -
  have c: "wii_core s" using assms by (simp add: wii_inv_def)
  show "wii_inv s' \<and> c' = c" if "process_req_status gap accept i r len (w, c, s) = Some (w', c', s')"
    using that assms continue_inv [OF _ status_core [OF c]]
    by (auto simp: process_req_status_def Let_def split: if_splits)
  have k: "wii_core (t\<lparr>wii_state := st\<rparr>)"
    if "wii_state s \<noteq> Fsm_Uninit" "wii_core t = wii_core s" "register_address t = register_address s" for t st
    using core_wait [OF c that] .
  show "wii_inv s' \<and> c' = c" if "process_req_data gap accept i r len (w, c, s) = Some (w', c', s')"
    using that assms continue_inv [OF _ k] c
    by (cases "wii_state s")
      (auto simp: process_req_data_def process_req_data_read_register_def process_req_data_read_calibration_data_def
        process_req_data_read_calibration_data2_def Let_def guess_core wii_inv_def wii_resting_def split: if_splits)
  have e: "wii_core (s\<lparr>wii_state := Fsm_Dev_Unk, register_address := 0xa6\<rparr>)" using c by (auto simp: wii_core_def timers_quiet_def)
  have f: "wii_core (s\<lparr>wii_state := Fsm_Setup\<rparr>)" if "register_address s = 0xa6"
    using c that by (auto simp: wii_core_def timers_quiet_def)
  show "wii_inv s' \<and> c' = c" if "process_req_return gap accept i r (w, c, s) = Some (w', c', s')"
    using that assms continue_inv [OF _ c] continue_inv [OF _ e] continue_inv [OF _ f]
    by (auto simp: process_req_return_def bind_eq_Some_conv split: if_splits)
qed

section \<open>What the reports give\<close>

lemma flag_not_bits [simp]: "flag_not b m w AND k = (if b AND m = 0 then w AND k else 0)"
  by (simp add: flag_not_def)

lemma uint_and_bound: "uint (x AND m) \<le> uint (m :: 'a :: len word)"
  by (simp add: unsigned_and_eq)

lemma classic_rx_bound: "uint (classic_rx d) \<le> 31"
proof -
  have b: "uint (drop_bit k (x :: u8)) < 2 ^ 5" if "3 \<le> k" for k x
  proof -
    have "uint (drop_bit k x) = uint x div 2 ^ k" by (simp only: unsigned_drop_bit_eq) (use uint_bounds_u8 [of x] in \<open>simp add: drop_bit_eq_div take_bit_eq_mod\<close>)
    also have "\<dots> \<le> uint x div 2 ^ 3" using power_increasing [OF that, of "2 :: int"] by (intro zdiv_mono2) auto
    finally show ?thesis using uint_bounds_u8 [of x] by auto
  qed
  have "uint (classic_rx d) < 2 ^ 5"
    unfolding classic_rx_def unsigned_or_eq by (intro OR_upper b) simp_all
  then show ?thesis by simp
qed

lemma udraw_axis_bounds:
  "- 559 \<le> udraw_axis v 90 1955 \<and> udraw_axis v 90 1955 \<le> 487"
  "- 568 \<le> udraw_axis v 80 1450 \<and> udraw_axis v 80 1450 \<le> 843"
proof -
  have q: "- (lo * 1024 div hi) - 512 \<le> udraw_axis v lo hi \<and> udraw_axis v lo hi \<le> (1999 - lo) * 1024 div hi - 512"
    if "0 \<le> lo" "lo \<le> 1000" "0 < hi" "hi \<le> 1955" "v < 2000" for lo hi
  proof -
    have v: "0 \<le> uint v" "uint v \<le> 1999" using \<open>v < 2000\<close> by (simp_all add: word_less_def)
    show ?thesis
    proof (cases "lo \<le> uint v")
      case True
      have "(uint v - lo) * 1024 div hi \<le> (1999 - lo) * 1024 div hi" using v that by (intro zdiv_mono1) auto
      moreover have "0 \<le> (uint v - lo) * 1024 div hi" "0 \<le> lo * 1024 div hi"
        using True that by (simp_all add: pos_imp_zdiv_nonneg_iff)
      ultimately show ?thesis using True that by (simp add: udraw_axis_def c_quot_nonneg)
    next
      case False
      have "(lo - uint v) * 1024 div hi \<le> lo * 1024 div hi" using v that by (intro zdiv_mono1) auto
      moreover have "0 \<le> (lo - uint v) * 1024 div hi" "0 \<le> (1999 - lo) * 1024 div hi"
        using False that by (simp_all add: pos_imp_zdiv_nonneg_iff)
      moreover have "c_quot ((uint v - lo) * 1024) hi = - ((lo - uint v) * 1024 div hi)"
        using False that by (simp add: c_quot_neg)
      ultimately show ?thesis using that by (simp add: udraw_axis_def)
    qed
  qed
  show "- 559 \<le> udraw_axis v 90 1955 \<and> udraw_axis v 90 1955 \<le> 487"
    "- 568 \<le> udraw_axis v 80 1450 \<and> udraw_axis v 80 1450 \<le> 843"
    using q [of 90 1955] q [of 80 1450] by (cases "v < 2000"; simp add: udraw_axis_def)+
qed

text \<open>The twelve bits of a Pro Controller's axis, less the middle, scaled as if their range were 1280.\<close>

lemma pro_axis_value:
  "pro_axis lo hi = c_quot ((uint lo + 256 * uint (hi AND 0x0f) - 2048) * 512) 1280"
  "0 \<le> uint lo + 256 * uint (hi AND 0x0f)" "uint lo + 256 * uint (hi AND 0x0f) \<le> 4095"
proof -
  have h: "uint (hi AND 0x0f) \<le> 15" "uint lo \<le> 255" using uint_and_bound [of hi "0x0f"] uint_bounds_u8 [of lo] by simp_all
  then show "0 \<le> uint lo + 256 * uint (hi AND 0x0f)" "uint lo + 256 * uint (hi AND 0x0f) \<le> 4095" by simp_all
  have "uint (push_bit 8 (ucast (hi AND 0x0f)) :: u32) = take_bit 32 (push_bit 8 (uint (hi AND 0x0f)))"
    by (simp only: unsigned_push_bit_eq) (simp add: uint_up_ucast is_up push_bit_eq_mult)
  also have "\<dots> = 256 * uint (hi AND 0x0f)"
    using h by (simp add: push_bit_eq_mult take_bit_eq_mod)
  finally have p: "uint (push_bit 8 (ucast (hi AND 0x0f)) :: u32) = 256 * uint (hi AND 0x0f)" .
  define v where "v = uint lo + 256 * uint (hi AND 0x0f) - 2048"
  have "sint (word_of_int v :: u16) = v"
    using h by (simp only: sint_sbintrunc' v_def) (simp add: signed_take_bit_int_eq_self)
  then show "pro_axis lo hi = c_quot ((uint lo + 256 * uint (hi AND 0x0f) - 2048) * 512) 1280"
    unfolding pro_axis_def p v_def by simp
qed

lemma pro_axis_bounds: "- 819 \<le> pro_axis lo hi \<and> pro_axis lo hi \<le> 818"
proof -
  define v where "v = uint lo + 256 * uint (hi AND 0x0f) - 2048"
  have v: "- 2048 \<le> v" "v \<le> 2047" using pro_axis_value(2,3) [of lo hi] by (simp_all add: v_def)
  have "- 819 \<le> c_quot (v * 512) 1280 \<and> c_quot (v * 512) 1280 \<le> 818"
  proof (cases "0 \<le> v")
    case True
    have "v * 512 div 1280 \<le> 2047 * 512 div 1280" using v by (intro zdiv_mono1) auto
    then show ?thesis using True by (simp add: c_quot_nonneg pos_imp_zdiv_nonneg_iff)
  next
    case False
    have "- v * 512 div 1280 \<le> 2048 * 512 div 1280" using v by (intro zdiv_mono1) auto
    moreover have "0 \<le> - v * 512 div 1280" using False by (simp add: pos_imp_zdiv_nonneg_iff)
    ultimately show ?thesis using False by (simp add: c_quot_neg)
  qed
  then show ?thesis by (simp add: pro_axis_value(1) v_def)
qed

lemma pro_axis_abs: "\<bar>pro_axis lo hi\<bar> \<le> 819" "\<bar>pro_axis lo hi\<bar> \<le> 843"
  using pro_axis_bounds [of lo hi] by auto

lemma udraw_axis_abs: "\<bar>udraw_axis v 90 1955\<bar> \<le> 819" "\<bar>udraw_axis v 80 1450\<bar> \<le> 843"
  using udraw_axis_bounds [of v] by auto

text \<open>A pad whose bits are in their masks and whose sticks go no further than those of the drivers here.\<close>

definition wide_ok :: "uni_gamepad \<Rightarrow> bool" where
  "wide_ok gp \<longleftrightarrow> bits_ok gp \<and> \<bar>axis_x gp\<bar> \<le> 819 \<and> \<bar>axis_y gp\<bar> \<le> 819 \<and> \<bar>axis_rx gp\<bar> \<le> 819 \<and> \<bar>axis_ry gp\<bar> \<le> 843"

lemma wide_pad: "pad_ok gp \<Longrightarrow> wide_ok gp"
  by (simp add: pad_ok_def wide_ok_def gamepad_ok_def stick_ok_def)

lemmas pad_simps = pad_ok_def gamepad_ok_def bits_ok_def gamepad_zero_def bit.conj_disj_distrib2 Let_def

lemma misc_bits [simp]: "wii_misc b0 b1 AND 0xF0 = 0"
  by (simp add: wii_misc_def bit.conj_disj_distrib2)

lemma core_pad:
  "pad_ok (process_drm_k m r len gamepad_zero)" "pad_ok (process_drm_ka r len gamepad_zero)"
  by (cases m; simp add: process_drm_k_def process_drm_k_horizontal_def process_drm_k_vertical_def pad_simps)
    (simp add: process_drm_ka_def pad_simps)

lemma classic_sticks:
  "stick_ok (uint (x AND 0x3f :: u8) * 16 - 512)" "stick_ok (512 - uint (x AND 0x3f :: u8) * 16)"
  "stick_ok (uint (classic_rx d) * 32 - 512)" "stick_ok (512 - uint (x AND 0x1f :: u8) * 32)"
  using uint_and_bound [of x "0x3f"] uint_and_bound [of x "0x1f"] classic_rx_bound [of d]
  by (simp_all add: stick_ok_def abs_le_iff)

lemma classic_pad: "pad_ok (process_drm_e s r len gamepad_zero)"
  using classic_sticks(1) [of "drop 1 r ! 0"] classic_sticks(2) [of "drop 1 r ! 1"] classic_sticks(3) [of "drop 1 r"]
    classic_sticks(4) [of "drop 1 r ! 2"]
  by (simp add: process_drm_e_def pad_simps classic_buttons_def)

lemma nunchuk_sticks: "stick_ok (n_sx (process_nunchuk e len) * 4)" "stick_ok (n_sy (process_nunchuk e len) * 4)"
  using uint_bounds_u8 [of "e ! 0"] uint_bounds_u8 [of "e ! 1"]
  by (simp_all add: process_nunchuk_def nunchuk_zero_def stick_ok_def abs_le_iff)

lemma ke_pad:
  "ext_type s \<noteq> Ext_Udraw_Tablet \<Longrightarrow> pad_ok (process_drm_ke s r len gamepad_zero)"
  "wide_ok (process_drm_ke s r len gamepad_zero)"
proof -
  show p: "pad_ok (process_drm_ke s r len gamepad_zero)" if "ext_type s \<noteq> Ext_Udraw_Tablet" for s
    using that nunchuk_sticks [of "drop 3 r" "len - 3"] by (simp add: process_drm_ke_def ke_extension_def pad_simps)
  show "wide_ok (process_drm_ke s r len gamepad_zero)"
  proof (cases "ext_type s = Ext_Udraw_Tablet")
    case True
    then show ?thesis
      by (simp add: process_drm_ke_def ke_extension_def wide_ok_def pad_simps udraw_axis_abs)
  qed (simp add: p wide_pad)
qed

lemma pro_pad_wide: "gamepad c = gamepad_zero \<Longrightarrow> wide_ok (gamepad (drm_kee_pro d c))"
  by (simp add: drm_kee_pro_def wide_ok_def pad_simps kee_buttons_def pro_axis_abs)

text \<open>The extensions whose pads stay in the range of the sticks.\<close>

definition narrow_ext :: "wii_exttype \<Rightarrow> bool" where
  "narrow_ext x \<longleftrightarrow> x \<notin> {Ext_U_Pro_Controller, Ext_Udraw_Tablet, Ext_Balance_Board}"

lemma kee_pad:
  assumes "process_drm_kee s r len c = Some c'" "gamepad c = gamepad_zero" "klass c = Class_Gamepad"
  shows "ext_type s = Ext_Balance_Board \<and> klass c' = Class_Balance_Board \<or>
    wide_ok (gamepad c') \<and> klass c' = Class_Gamepad \<and> (narrow_ext (ext_type s) \<longrightarrow> pad_ok (gamepad c'))"
  using assms pro_pad_wide [of c "drop 3 r"] pad_zero wide_pad [OF pad_zero]
  by (auto simp: process_drm_kee_def narrow_ext_def drm_kee_board_def bind_eq_Some_conv drm_kee_pro_def Let_def split: if_splits)

lemma wii_report_inv:
  assumes "wii_report gap accept i r len (w, c, s) = Some (w', c', s')" "wii_inv s"
  shows "wii_inv s' \<and> (ext_type s = Ext_Balance_Board \<and> klass c' = Class_Balance_Board \<or>
    wide_ok (gamepad c') \<and> klass c' = Class_Gamepad \<and> (narrow_ext (ext_type s) \<longrightarrow> pad_ok (gamepad c')))"
  using assms kee_pad [of s r len "clear_pad c" c'] wide_pad [OF pad_zero] core_pad classic_pad [of s r len] ke_pad [of s r len] pad_zero
  by (auto simp: wii_report_def uni_hid_parser_wii_parse_input_report_def on_pad_def clear_pad_def wide_pad narrow_ext_def
      dest!: replies_inv [OF assms(2)] split: if_splits)

section \<open>Every event keeps the invariant\<close>

text \<open>What a rumble request changes beside the rumble machine: messages are added.\<close>

definition wii_same :: "wii_instance \<Rightarrow> wii_instance \<Rightarrow> bool" where
  "wii_same s s' \<longleftrightarrow> wii_state s' = wii_state s \<and> register_address s' = register_address s \<and> ext_type s' = ext_type s \<and>
     (\<exists>l. wii_log s' = wii_log s @ l \<and> list_all wii_msg_ok l)"

lemma wii_same_updates [simp]:
  "wii_same s (s'\<lparr>rumble_state := a\<rparr>) = wii_same s s'" "wii_same s (s'\<lparr>timer_duration := b\<rparr>) = wii_same s s'"
  "wii_same s (s'\<lparr>timer_delayed_start := b\<rparr>) = wii_same s s'" "wii_same s (s'\<lparr>rumble_duration_ms := d\<rparr>) = wii_same s s'"
  "wii_same s s"
  by (simp_all add: wii_same_def)

lemma wii_same_send: "wii_same s s' \<Longrightarrow> wii_msg_ok m \<Longrightarrow> wii_same s (wii_send m s')"
  by (auto simp: wii_same_def)

lemma wii_same_timers:
  "wii_same s (remove_timers s') = wii_same s s'" "add_delayed ms s' = Some s'' \<Longrightarrow> wii_same s s'' = wii_same s s'"
  "add_duration ms s' = Some s'' \<Longrightarrow> wii_same s s'' = wii_same s s'"
  by (auto simp: remove_timers_def add_delayed_def add_duration_def split: rumble_state.splits if_splits)

lemma play_now_same: "wii_play_dual_rumble_now dur s' = Some s'' \<Longrightarrow> wii_same s s' \<Longrightarrow> wii_same s s''"
  by (auto simp: wii_play_dual_rumble_now_def wii_stop_rumble_now_def wii_same_send wii_same_timers split: if_splits)

lemma rumble_same:
  "wii_rumble delay dur mags s = Some s' \<Longrightarrow> wii_same s s'"
  "on_wii_set_rumble_on s = Some s' \<Longrightarrow> wii_same s s'"
  "on_wii_set_rumble_off s = Some s' \<Longrightarrow> wii_same s s'"
  by (auto simp: wii_rumble_def Let_def wii_same_timers on_wii_set_rumble_on_def on_wii_set_rumble_off_def
      wii_stop_rumble_now_def wii_same_send elim!: play_now_same split: if_splits)

lemma same_inv: "wii_inv s \<Longrightarrow> wii_same s s' \<Longrightarrow> timers_quiet (rumble.truncate s') \<Longrightarrow> wii_inv s'"
  by (auto simp: wii_inv_def wii_core_def wii_same_def quiet_truncate)

lemma inv_quiet: "wii_inv s \<Longrightarrow> timers_quiet (rumble.truncate s)"
  by (simp add: wii_inv_def wii_core_def quiet_truncate)

lemma requests_inv:
  assumes "wii_inv s"
  shows "wii_inv (uni_hid_parser_wii_set_player_leds k s)" "wii_inv (uni_hid_parser_wii_set_mode m s)"
    "uni_hid_parser_wii_play_dual_rumble delay dur mags s = Some s' \<Longrightarrow> wii_inv s'"
    "timer_delayed_start s \<noteq> None \<Longrightarrow> on_wii_set_rumble_on s = Some s' \<Longrightarrow> wii_inv s'"
    "timer_duration s \<noteq> None \<Longrightarrow> on_wii_set_rumble_off s = Some s' \<Longrightarrow> wii_inv s'"
proof -
  have c: "wii_core (s\<lparr>wii_seat := k\<rparr>)" using assms by (simp add: wii_inv_def)
  show "wii_inv (uni_hid_parser_wii_set_player_leds k s)"
    using assms core_set_led [OF c, of k]
    by (auto simp: uni_hid_parser_wii_set_player_leds_def wii_inv_def wii_resting_def Let_def)
  show "wii_inv (uni_hid_parser_wii_set_mode m s)"
    using assms by (cases m) (simp_all add: uni_hid_parser_wii_set_mode_def wii_inv_def Let_def)
  note q = inv_quiet [OF assms]
  show "wii_inv s'" if "uni_hid_parser_wii_play_dual_rumble delay dur mags s = Some s'"
    using that assms wii.play_ok [OF q, of delay dur mags] same_inv [OF assms rumble_same(1)]
    by (auto simp: uni_hid_parser_wii_play_dual_rumble_def split: if_splits)
  show "wii_inv s'" if "timer_delayed_start s \<noteq> None" "on_wii_set_rumble_on s = Some s'"
    using that wii.on_ok [OF q] same_inv [OF assms rumble_same(2)] by (auto simp: rumble_truncate)
  show "wii_inv s'" if "timer_duration s \<noteq> None" "on_wii_set_rumble_off s = Some s'"
    using that wii.off_ok [OF q] same_inv [OF assms rumble_same(3)] by (auto simp: rumble_truncate)
qed

lemma wii_step_inv:
  assumes "wii_step gap accept i e (w, c, s) = Some (w', c', s')" "wii_inv s"
  shows "wii_inv s'"
  using assms wii_report_inv [of gap accept i _ _ w c s w' c' s'] requests_inv [OF assms(2)]
  by (cases e) (auto simp: wii_step_def split: if_splits)

lemma start_core: "wii_core (wii_start (wii_zero Subtype_None []))"
  by (simp add: wii_core_def wii_start_def wii_zero_def timers_quiet_def)

lemma wii_reach_inv: "wii_reach gap accept i x \<Longrightarrow> wii_inv (snd (snd x))"
proof (induction rule: wii_reach.induct)
  case (wii_setup w c x)
  then show ?case
    using continue_inv [OF _ start_core] by (cases x) (auto simp: uni_hid_parser_wii_setup_def)
next
  case (wii_event x e x')
  then show ?case using wii_step_inv by (cases x; cases x') auto
qed

section \<open>A pad that answers\<close>

text \<open>
  What a remote does, as the protocol is documented: it answers a status request with its status, a
  write with an acknowledgement, an error if the address is not the one its extension listens on, and
  a read with the identification or the calibration of the extension.
\<close>

record wii_peer =
  peer_status :: "u8 list"
  peer_reg :: u8
  peer_id :: "u8 \<times> u8"
  peer_cal :: "u8 list"

definition peer_ok :: "wii_peer \<Rightarrow> bool" where
  "peer_ok p \<longleftrightarrow> length (peer_status p) = 7 \<and> peer_status p ! 0 = 0x20 \<and> peer_reg p \<in> {0xa4, 0xa6} \<and>
     length (peer_cal p) = 24"

definition peer_extended :: "wii_peer \<Rightarrow> bool" where
  "peer_extended p \<longleftrightarrow> peer_status p ! 3 AND 0x02 \<noteq> 0"

definition peer_memory :: "wii_peer \<Rightarrow> u8 \<Rightarrow> u8 list" where
  "peer_memory p lo = (if lo = 0xfa then [0, 0, 0xa4, 0x20, fst (peer_id p), snd (peer_id p)] @ replicate 10 0
     else if lo = 0x24 then take 16 (peer_cal p) else drop 16 (peer_cal p) @ replicate 8 0)"

definition wii_answer :: "wii_peer \<Rightarrow> u8 list \<Rightarrow> u8 list" where
  "wii_answer p m =
     (if m ! 1 = WIIPROTO_REQ_SREQ then peer_status p
      else if m ! 1 = WIIPROTO_REQ_WMEM then [0x22, 0, 0, 0x16, if m ! 3 = peer_reg p then 0 else 7]
      else if m ! 1 = WIIPROTO_REQ_RMEM then
        [0x21, 0, 0, push_bit 4 (m ! 7 - 1), m ! 4, m ! 5] @ peer_memory p (m ! 5)
      else [])"

text \<open>The pad answers the last message, \<open>n\<close> times.\<close>

fun wii_talk :: "(u16 \<Rightarrow> gap_type) \<Rightarrow> nat \<Rightarrow> wii_peer \<Rightarrow> nat \<Rightarrow> wii_world \<Rightarrow> wii_world option" where
  "wii_talk gap i p 0 x = Some x"
| "wii_talk gap i p (Suc n) x =
     (let a = wii_answer p (last (wii_log (snd (snd x)))) in
      Option.bind (wii_report gap True i a (of_nat (length a)) x) (wii_talk gap i p n))"

definition peer_ext :: "u8 \<times> u8 \<Rightarrow> wii_exttype" where
  "peer_ext d = (if d = (0x01, 0x20) then Ext_U_Pro_Controller else if d = (0x00, 0x00) then Ext_Nunchuk
     else if d = (0x04, 0x02) then Ext_Balance_Board else if d = (0x01, 0x01) then Ext_Classic_Controller
     else if d = (0x01, 0x12) then Ext_Udraw_Tablet else Ext_Unk)"

text \<open>The pad is ready, the platform was told once, and the last requests were for the right reports and the LEDs.\<close>

definition wii_ready :: "nat \<Rightarrow> bt_world \<Rightarrow> wii_exttype \<Rightarrow> wii_world \<Rightarrow> bool" where
  "wii_ready i w ext = (\<lambda>(w', c, s). wii_state s = Fsm_Led_Updated \<and> plat w' = plat w @ [P_Ready i] \<and>
     conn_state (conn (devs w' ! i)) = Cs_Ready \<and> ext_type s = ext \<and>
     (\<exists>l led. wii_log s = l @ [[0xa2, 0x12, 0x00, if ext = Ext_U_Pro_Controller then 0x34
        else fst (remote_report ext (wii_mode s))], [0xa2, 0x11, led]]))"

definition ready_within ::
  "(u16 \<Rightarrow> gap_type) \<Rightarrow> nat \<Rightarrow> wii_peer \<Rightarrow> bt_world \<Rightarrow> wii_exttype \<Rightarrow> nat \<Rightarrow> wii_world \<Rightarrow> bool" where
  "ready_within gap i p w ext k x \<longleftrightarrow> (\<exists>n \<le> k. \<exists>y. wii_talk gap i p n x = Some y \<and> wii_ready i w ext y)"

lemma within_step:
  assumes "last (wii_log (snd (snd x))) = m"
    "wii_report gap True i (wii_answer p m) (of_nat (length (wii_answer p m))) x = Some y" "ready_within gap i p w ext k y"
  shows "ready_within gap i p w ext (Suc k) x"
proof -
  from assms(3) obtain n z where n: "n \<le> k" "wii_talk gap i p n y = Some z" "wii_ready i w ext z"
    by (auto simp: ready_within_def)
  then have "wii_talk gap i p (Suc n) x = Some z" using assms(1,2) by (simp add: Let_def)
  with n show ?thesis unfolding ready_within_def by (intro exI [of _ "Suc n"]) auto
qed

lemma within_mono: "ready_within gap i p w ext k x \<Longrightarrow> k \<le> k' \<Longrightarrow> ready_within gap i p w ext k' x"
  unfolding ready_within_def by (meson order_trans)

text \<open>A slot that can become ready.\<close>

definition slot_waits :: "nat \<Rightarrow> bt_world \<Rightarrow> bool" where
  "slot_waits i w \<longleftrightarrow> \<not> free_slot (devs w ! i) \<and> i < length (devs w) \<and> conn_state (conn (devs w ! i)) \<noteq> Cs_Ready"

lemma finish_ready:
  assumes "slot_waits i w" "dev_type s = Devtype_Pro_Controller \<longleftrightarrow> ext_type s = Ext_U_Pro_Controller"
  shows "\<exists>w'. wii_finish gap True i (w, wii_fsm_update_led (wii_fsm_assign_device s)) =
      Some (w', wii_fsm_update_led (wii_fsm_assign_device s)) \<and>
    wii_ready i w (ext_type s) (w', c, wii_fsm_update_led (wii_fsm_assign_device s))"
proof -
  let ?w1 = "emit (P_Ready i) (remove_timer T_Connection i w)"
  let ?w = "upd i (\<lambda>d. d\<lparr>conn := uni_bt_conn_set_state Cs_Ready (conn d)\<rparr>) ?w1"
  have d: "devs ?w ! i = (devs w ! i)\<lparr>conn := uni_bt_conn_set_state Cs_Ready (conn (devs w ! i))\<rparr>"
    using assms(1) by (simp add: slot_waits_def)
  have f: "wii_finish gap True i (w, t) = Some (?w, t)" for t
    using assms(1) d by (simp add: wii_finish_def uni_hid_device_set_ready_complete_def slot_waits_def Let_def free_slot_def
      uni_bt_conn_set_state_def)
  have "wii_ready i w (ext_type s) (?w, c, wii_fsm_update_led (wii_fsm_assign_device s))"
    using assms(2) d
    by (auto simp: wii_ready_def wii_fsm_update_led_def wii_set_led_def wii_fsm_assign_device_def Let_def
      uni_hid_parser_wii_request_report_type_def uni_bt_conn_set_state_def split: prod.splits if_splits)
  with f show ?thesis by blast
qed

lemma finish_within:
  assumes "slot_waits i w" "wii_state s = Fsm_Dev_Guessed" "dev_type s = Devtype_Pro_Controller \<longleftrightarrow> ext_type s = Ext_U_Pro_Controller"
  shows "\<exists>y. wii_continue gap True i s (w, c, z) = Some y \<and> ready_within gap i p w (ext_type s) 0 y"
proof -
  obtain w' where w: "wii_finish gap True i (w, wii_fsm_update_led (wii_fsm_assign_device s)) =
      Some (w', wii_fsm_update_led (wii_fsm_assign_device s))"
    "wii_ready i w (ext_type s) (w', c, wii_fsm_update_led (wii_fsm_assign_device s))"
    using finish_ready [OF assms(1,3)] by blast
  then show ?thesis by (simp add: wii_continue_def fsm_guessed [OF assms(2)] ready_within_def)
qed

lemma reply_reports:
  "length d = 16 \<Longrightarrow> wii_report gap True i ([0x21, 0, 0, sz, hi, lo] @ d) 22 (w, c, s) =
     process_req_data gap True i ([0x21, 0, 0, sz, hi, lo] @ d) 22 (w, clear_pad c, s)"
  "wii_report gap True i [0x22, 0, 0, 0x16, e] 5 (w, c, s) = process_req_return gap True i [0x22, 0, 0, 0x16, e] (w, clear_pad c, s)"
  "length r = 7 \<Longrightarrow> r ! 0 = 0x20 \<Longrightarrow> wii_report gap True i r 7 (w, c, s) = process_req_status gap True i r 7 (w, clear_pad c, s)"
  by (simp_all add: wii_report_def uni_hid_parser_wii_parse_input_report_def)

lemma peer_memory_length: "peer_ok p \<Longrightarrow> length (peer_memory p lo) = 16"
  by (simp add: peer_memory_def peer_ok_def)

lemma read_answer: "wii_answer p [0xa2, 0x17, 4, a, 0, lo, 0, k] = [0x21, 0, 0, push_bit 4 (k - 1), 0, lo] @ peer_memory p lo"
  by (simp add: wii_answer_def)

text \<open>The steps of the conversation, from the last one back.\<close>

lemma step_calibration2:
  assumes "peer_ok p" "slot_waits i w" "wii_state s = Fsm_Did_Read_Calibration2"
    "last (wii_log s) = [0xa2, 0x17, 4, a, 0, 0x34, 0, 8]" "dev_type s = Devtype_Pro_Controller \<longleftrightarrow> ext_type s = Ext_U_Pro_Controller"
  shows "ready_within gap i p w (ext_type s) 1 (w, c, s)"
proof -
  let ?r = "[0x21, 0, 0, 0x70, 0, 0x34] @ peer_memory p 0x34"
  let ?s = "s\<lparr>kg34 := board_at ?r 6 (kg34 s), wii_state := Fsm_Dev_Guessed\<rparr>"
  obtain y where y: "wii_continue gap True i ?s (w, clear_pad c, s) = Some y" "ready_within gap i p w (ext_type s) 0 y"
    using finish_within [OF assms(2), where s = ?s and p = p and gap = gap and c = "clear_pad c" and z = s] assms(5)
    by (simp del: split_paired_Ex) blast
  have l: "length ?r = 22" by (simp add: peer_memory_length [OF assms(1)])
  have "wii_report gap True i ?r 22 (w, c, s) = Some y"
    unfolding reply_reports(1) [OF peer_memory_length [OF assms(1)]] using y(1)
    by (simp add: process_req_data_def assms(3) process_req_data_read_calibration_data2_def data_header_def)
  then show ?thesis
    using within_step [OF _ _ y(2), where x = "(w, c, s)"] assms(4) l by (simp add: read_answer)
qed

lemma step_calibration:
  assumes "peer_ok p" "slot_waits i w" "wii_state s = Fsm_Did_Read_Calibration" "register_address s \<in> {0xa4, 0xa6}"
    "last (wii_log s) = [0xa2, 0x17, 4, a, 0, 0x24, 0, 16]" "dev_type s = Devtype_Pro_Controller \<longleftrightarrow> ext_type s = Ext_U_Pro_Controller"
  shows "ready_within gap i p w (ext_type s) 2 (w, c, s)"
proof -
  let ?r = "[0x21, 0, 0, 0xf0, 0, 0x24] @ peer_memory p 0x24"
  let ?s = "s\<lparr>kg0 := board_at ?r 6 (kg0 s), kg17 := board_at ?r 14 (kg17 s), wii_state := Fsm_Read_Calibration2\<rparr>"
  let ?t = "wii_fsm_balance_board_read_calibration2 ?s"
  have c: "wii_continue gap True i ?s (w, clear_pad c, s) = Some (w, clear_pad c, ?t)"
    by (simp add: wii_continue_def wii_process_fsm.simps)
  have y: "ready_within gap i p w (ext_type s) 1 (w, clear_pad c, ?t)"
    using step_calibration2 [OF assms(1,2), of ?t "register_address s" gap "clear_pad c"] assms(4,6)
      read_messages(3) [of ?s] by auto
  have l: "length ?r = 22" by (simp add: peer_memory_length [OF assms(1)])
  have "wii_report gap True i ?r 22 (w, c, s) = Some (w, clear_pad c, ?t)"
    unfolding reply_reports(1) [OF peer_memory_length [OF assms(1)]] using c
    by (simp add: process_req_data_def assms(3) process_req_data_read_calibration_data_def data_header_def)
  then show ?thesis
    using within_step [OF _ _ y, where x = "(w, c, s)"] assms(5) l by (simp add: read_answer numeral_2_eq_2)
qed

lemma step_register:
  assumes "peer_ok p" "slot_waits i w" "wii_state s = Fsm_Ext_Did_Read_Register" "register_address s \<in> {0xa4, 0xa6}"
    "last (wii_log s) = [0xa2, 0x17, 4, a, 0, 0xfa, 0, 6]" "ext_type s = Ext_Unk" "dev_type s \<noteq> Devtype_Pro_Controller"
  shows "ready_within gap i p w (peer_ext (peer_id p)) 3 (w, c, s)"
proof -
  let ?r = "[0x21, 0, 0, 0x50, 0, 0xfa] @ peer_memory p 0xfa"
  let ?g = "guess_extension ?r (guess_device (product_id (devs w ! i)) ?r s)"
  have d: "?r ! 10 = fst (peer_id p)" "?r ! 11 = snd (peer_id p)" by (simp_all add: peer_memory_def)
  have g: "ext_type ?g = peer_ext (peer_id p)" "dev_type ?g = Devtype_Pro_Controller \<longleftrightarrow> peer_ext (peer_id p) = Ext_U_Pro_Controller"
    "register_address ?g = register_address s"
    using assms(6,7) unfolding guess_extension_def guess_device_def d peer_ext_def by (auto simp: prod_eq_iff)
  have l: "length ?r = 22" by (simp add: peer_memory_length [OF assms(1)])
  let ?s = "?g\<lparr>wii_state := (if ext_type ?g = Ext_Balance_Board then Fsm_Read_Calibration else Fsm_Dev_Guessed)\<rparr>"
  have "wii_report gap True i ?r 22 (w, c, s) = wii_continue gap True i ?s (w, clear_pad c, s)"
    unfolding reply_reports(1) [OF peer_memory_length [OF assms(1)]]
    by (simp add: process_req_data_def assms(3) process_req_data_read_register_def data_header_def Let_def)
  moreover have "\<exists>y. wii_continue gap True i ?s (w, clear_pad c, s) = Some y \<and> ready_within gap i p w (peer_ext (peer_id p)) 2 y"
  proof (cases "ext_type ?g = Ext_Balance_Board")
    case True
    let ?t = "wii_fsm_balance_board_read_calibration (?g\<lparr>wii_state := Fsm_Read_Calibration\<rparr>)"
    have "wii_continue gap True i ?s (w, clear_pad c, s) = Some (w, clear_pad c, ?t)"
      using True by (simp add: wii_continue_def wii_process_fsm.simps)
    moreover have "ready_within gap i p w (peer_ext (peer_id p)) 2 (w, clear_pad c, ?t)"
      using step_calibration [OF assms(1,2), of ?t "register_address s" gap "clear_pad c"] assms(4) g True
        read_messages(2) [of "?g\<lparr>wii_state := Fsm_Read_Calibration\<rparr>"] by auto
    ultimately show ?thesis by blast
  next
    case False
    obtain y where "wii_continue gap True i ?s (w, clear_pad c, s) = Some y" "ready_within gap i p w (ext_type ?s) 0 y"
      using finish_within [OF assms(2), where s = ?s and p = p and gap = gap and c = "clear_pad c" and z = s] g False
      by (simp del: split_paired_Ex) blast
    then show ?thesis using within_mono [of gap i p w _ 0 y 2] g(1) by auto
  qed
  ultimately obtain y where "wii_report gap True i ?r 22 (w, c, s) = Some y" "ready_within gap i p w (peer_ext (peer_id p)) 2 y"
    by auto
  then show ?thesis
    using within_step [where x = "(w, c, s)" and y = y and k = 2] assms(5) l by (simp add: read_answer numeral_3_eq_3)
qed

text \<open>The message of a write to a register.\<close>

abbreviation wmem :: "u8 \<Rightarrow> u8 \<Rightarrow> u8 \<Rightarrow> u8 list" where
  "wmem a lo v \<equiv> [0xa2, 0x16, 0x04, a, 0x00, lo, 0x01, v] @ replicate 15 0"

lemma write_answer: "wii_answer p (wmem a lo v) = [0x22, 0, 0, 0x16, if a = peer_reg p then 0 else 7]"
  by (simp add: wii_answer_def)

lemma acknowledged:
  "process_req_return gap True i [0x22, 0, 0, 0x16, 0] (w, c, s) = wii_continue gap True i s (w, c, s)"
  "register_address s = 0xa4 \<Longrightarrow> process_req_return gap True i [0x22, 0, 0, 0x16, 7] (w, c, s) =
     wii_continue gap True i (s\<lparr>wii_state := Fsm_Dev_Unk, register_address := 0xa6\<rparr>) (w, c, s)"
  by (simp_all add: process_req_return_def read_at_def)

lemma step_encryption:
  assumes "peer_ok p" "slot_waits i w" "wii_state s = Fsm_Ext_Did_No_Encryption" "register_address s = peer_reg p"
    "last (wii_log s) = wmem (peer_reg p) 0xfb 0" "ext_type s = Ext_Unk" "dev_type s \<noteq> Devtype_Pro_Controller"
  shows "ready_within gap i p w (peer_ext (peer_id p)) 4 (w, c, s)"
proof -
  let ?t = "wii_fsm_ext_read_register s"
  have r: "register_address s \<in> {0xa4, 0xa6}" using assms(1,4) by (simp add: peer_ok_def)
  have c: "wii_continue gap True i s (w, clear_pad c, s) = Some (w, clear_pad c, ?t)"
    by (simp add: wii_continue_def wii_process_fsm.simps assms(3))
  have y: "ready_within gap i p w (peer_ext (peer_id p)) 3 (w, clear_pad c, ?t)"
    by (rule step_register [OF assms(1,2), where a = "register_address s"])
      (use r assms(6,7) in \<open>simp_all add: read_messages(1) [OF r]\<close>)
  have "ready_within gap i p w (peer_ext (peer_id p)) (Suc 3) (w, c, s)"
    by (rule within_step [where m = "wmem (peer_reg p) 0xfb 0", OF _ _ y]) (use assms(5) c in \<open>simp_all add: write_answer [simplified] reply_reports(2) acknowledged\<close>)
  then show ?thesis by simp
qed

lemma step_init:
  assumes "peer_ok p" "slot_waits i w" "wii_state s = Fsm_Ext_Did_Init" "register_address s = peer_reg p"
    "last (wii_log s) = wmem (peer_reg p) 0xf0 0x55" "ext_type s = Ext_Unk" "dev_type s \<noteq> Devtype_Pro_Controller"
  shows "ready_within gap i p w (peer_ext (peer_id p)) 5 (w, c, s)"
proof -
  let ?t = "wii_fsm_ext_encrypt_off s"
  have c: "wii_continue gap True i s (w, clear_pad c, s) = Some (w, clear_pad c, ?t)"
    by (simp add: wii_continue_def wii_process_fsm.simps assms(3))
  have y: "ready_within gap i p w (peer_ext (peer_id p)) 4 (w, clear_pad c, ?t)"
    by (rule step_encryption [OF assms(1,2)]) (use assms(4,6,7) in \<open>simp_all add: wii_fsm_ext_encrypt_off_def\<close>)
  have "ready_within gap i p w (peer_ext (peer_id p)) (Suc 4) (w, c, s)"
    by (rule within_step [where m = "wmem (peer_reg p) 0xf0 0x55", OF _ _ y]) (use assms(5) c in \<open>simp_all add: write_answer [simplified] reply_reports(2) acknowledged\<close>)
  then show ?thesis by simp
qed

lemma step_init_any:
  assumes "peer_ok p" "slot_waits i w" "wii_state s = Fsm_Ext_Did_Init" "register_address s = 0xa4"
    "last (wii_log s) = wmem 0xa4 0xf0 0x55" "ext_type s = Ext_Unk" "dev_type s \<noteq> Devtype_Pro_Controller"
  shows "ready_within gap i p w (peer_ext (peer_id p)) 6 (w, c, s)"
proof (cases "peer_reg p = 0xa4")
  case True
  then show ?thesis
    using step_init [OF assms(1-3), of gap c] assms(4-7) within_mono [of gap i p w _ 5 "(w, c, s)" 6] by simp
next
  case False
  then have r: "peer_reg p = 0xa6" using assms(1) by (auto simp: peer_ok_def)
  let ?s = "s\<lparr>wii_state := Fsm_Dev_Unk, register_address := 0xa6\<rparr>"
  let ?t = "wii_fsm_ext_init ?s"
  have c: "wii_continue gap True i ?s (w, clear_pad c, s) = Some (w, clear_pad c, ?t)"
    by (simp add: wii_continue_def wii_process_fsm.simps)
  have y: "ready_within gap i p w (peer_ext (peer_id p)) 5 (w, clear_pad c, ?t)"
    by (rule step_init [OF assms(1,2)]) (use assms(6,7) r in \<open>simp_all add: wii_fsm_ext_init_def\<close>)
  have "ready_within gap i p w (peer_ext (peer_id p)) (Suc 5) (w, c, s)"
    by (rule within_step [where m = "wmem 0xa4 0xf0 0x55", OF _ _ y]) (use assms(5) c in \<open>simp_all add: write_answer [simplified] r assms(4) reply_reports(2) acknowledged\<close>)
  then show ?thesis by simp
qed

lemma step_status:
  assumes "peer_ok p" "slot_waits i w" "wii_state s = Fsm_Did_Req_Status" "register_address s = 0xa4"
    "last (wii_log s) = [0xa2, 0x15, 0x00]" "dev_type s = Devtype_Unk"
    "product_id (devs w ! i) \<in> {0x0306, 0x0330} \<or> peer_extended p"
  shows "ready_within gap i p w (if peer_extended p then peer_ext (peer_id p) else Ext_None) 7 (w, c, s)"
proof -
  let ?r = "peer_status p"
  let ?lf = "?r ! 3 AND 0x0f"
  let ?s = "status_mode ?r (status_extension ?lf (status_device (product_id (devs w ! i)) ?lf s))"
  have lf: "?lf AND 0x02 \<noteq> 0 \<longleftrightarrow> peer_extended p" by (simp add: peer_extended_def and.assoc)
  have r: "length ?r = 7" "?r ! 0 = 0x20" using assms(1) by (auto simp: peer_ok_def)
  have rep: "wii_report gap True i ?r 7 (w, c, s) = wii_continue gap True i ?s (w, clear_pad c, s)"
    unfolding reply_reports(3) [OF r] by (simp add: process_req_status_def assms(3) Let_def)
  have f: "register_address ?s = 0xa4" "dev_type ?s \<noteq> Devtype_Pro_Controller"
    "ext_type ?s = (if peer_extended p then Ext_Unk else Ext_None)"
    "wii_state ?s = (if peer_extended p then Fsm_Ext_Unk else Fsm_Dev_Guessed)"
    unfolding status_mode_def status_extension_def using lf assms(4,6,7) by (auto simp: status_device_def)
  have "\<exists>y. wii_continue gap True i ?s (w, clear_pad c, s) = Some y \<and>
      ready_within gap i p w (if peer_extended p then peer_ext (peer_id p) else Ext_None) 6 y"
  proof (cases "peer_extended p")
    case True
    let ?t = "wii_fsm_ext_init ?s"
    have "wii_continue gap True i ?s (w, clear_pad c, s) = Some (w, clear_pad c, ?t)"
      using f(4) True by (simp add: wii_continue_def wii_process_fsm.simps)
    moreover have "ready_within gap i p w (peer_ext (peer_id p)) 6 (w, clear_pad c, ?t)"
      by (rule step_init_any [OF assms(1,2)]) (use f True in \<open>simp_all add: wii_fsm_ext_init_def\<close>)
    ultimately show ?thesis using True by (simp del: split_paired_Ex)
  next
    case False
    obtain y where "wii_continue gap True i ?s (w, clear_pad c, s) = Some y" "ready_within gap i p w (ext_type ?s) 0 y"
      using finish_within [OF assms(2), where s = ?s and p = p and gap = gap and c = "clear_pad c" and z = s] f False
      by (simp del: split_paired_Ex) blast
    then show ?thesis using within_mono [of gap i p w Ext_None 0 y 6] f(3) False by (simp del: split_paired_Ex)
  qed
  then obtain y where y: "wii_report gap True i ?r 7 (w, c, s) = Some y"
      "ready_within gap i p w (if peer_extended p then peer_ext (peer_id p) else Ext_None) 6 y"
    unfolding rep by blast
  have a: "wii_answer p [0xa2, 0x15, 0x00] = ?r" by (simp add: wii_answer_def)
  have "ready_within gap i p w (if peer_extended p then peer_ext (peer_id p) else Ext_None) (Suc 6) (w, c, s)"
    by (rule within_step [where m = "[0xa2, 0x15, 0x00]", OF _ _ y(2)]) (use assms(5) y(1) in \<open>simp_all only: a r(1) snd_conv\<close>, simp)
  then show ?thesis by simp
qed

section \<open>Properties\<close>

lemma setup_asks:
  "uni_hid_parser_wii_setup gap accept i (w, c, wii_zero Subtype_None []) =
     Some (w, c, wii_fsm_req_status ((wii_start (wii_zero Subtype_None []))\<lparr>wii_state := Fsm_Dump_Eeprom_Finished\<rparr>))"
  by (simp add: uni_hid_parser_wii_setup_def wii_continue_def wii_process_fsm.simps wii_start_def)

text \<open>
  C29: The set-up of a Wii remote.  A pad that answers as documented, whatever its extension and whichever of the
  two registers that listens on, is ready after at most seven answers: the platform has been told
  once, the extension is known for what it is, and the last requests are for its reports and the LEDs.
\<close>

theorem wii_handshake:
  assumes "peer_ok p" "slot_waits i w" "product_id (devs w ! i) \<in> {0x0306, 0x0330} \<or> peer_extended p"
    "uni_hid_parser_wii_setup gap True i (w, c, wii_zero Subtype_None []) = Some x"
  shows "\<exists>n \<le> 7. \<exists>w' c' s' l led. wii_talk gap i p n x = Some (w', c', s') \<and> wii_state s' = Fsm_Led_Updated \<and>
    plat w' = plat w @ [P_Ready i] \<and> ext_type s' = (if peer_extended p then peer_ext (peer_id p) else Ext_None) \<and>
    wii_log s' = l @ [[0xa2, 0x12, 0x00, if ext_type s' = Ext_U_Pro_Controller then 0x34
      else fst (remote_report (ext_type s') (wii_mode s'))], [0xa2, 0x11, led]]"
proof -
  let ?s = "wii_fsm_req_status ((wii_start (wii_zero Subtype_None []))\<lparr>wii_state := Fsm_Dump_Eeprom_Finished\<rparr>)"
  have x: "x = (w, c, ?s)" using assms(4) by (simp add: setup_asks)
  have "ready_within gap i p w (if peer_extended p then peer_ext (peer_id p) else Ext_None) 7 (w, c, ?s)"
    by (rule step_status [OF assms(1,2)]) (use assms(3) in \<open>simp_all add: wii_fsm_req_status_def wii_start_def wii_zero_def\<close>)
  then obtain n w' c' s' where n: "n \<le> 7" "wii_talk gap i p n x = Some (w', c', s')"
    "wii_ready i w (if peer_extended p then peer_ext (peer_id p) else Ext_None) (w', c', s')"
    unfolding ready_within_def x by auto
  then obtain l led where "wii_state s' = Fsm_Led_Updated" "plat w' = plat w @ [P_Ready i]"
    "ext_type s' = (if peer_extended p then peer_ext (peer_id p) else Ext_None)"
    "wii_log s' = l @ [[0xa2, 0x12, 0x00, if ext_type s' = Ext_U_Pro_Controller then 0x34
      else fst (remote_report (ext_type s') (wii_mode s'))], [0xa2, 0x11, led]]"
    unfolding wii_ready_def by auto
  with n(1,2) show ?thesis
    by (intro exI [of _ n] conjI exI [of _ w'] exI [of _ c'] exI [of _ s'] exI [of _ l] exI [of _ led])
qed

definition board_peer :: wii_peer where
  "board_peer = \<lparr>peer_status = [0x20, 0, 0, 2, 0, 0, 0], peer_reg = 0xa6, peer_id = (4, 2), peer_cal = replicate 24 1\<rparr>"

theorem wii_handshake_witness:
  "\<exists>n (w' :: bt_world) c' s'. n \<le> 7 \<and> wii_talk (\<lambda>_. Gap_Acl) 0 board_peer n
     (upd 0 (\<lambda>d. d\<lparr>conn := (conn d)\<lparr>btaddr := [1, 2, 3, 4, 5, 6]\<rparr>\<rparr>) world_start, ctl device_zero,
      wii_fsm_req_status ((wii_start (wii_zero Subtype_None []))\<lparr>wii_state := Fsm_Dump_Eeprom_Finished\<rparr>)) = Some (w', c', s') \<and>
     wii_state s' = Fsm_Led_Updated \<and> ext_type s' = Ext_Balance_Board"
proof -
  let ?w = "upd 0 (\<lambda>d. d\<lparr>conn := (conn d)\<lparr>btaddr := [1, 2, 3, 4, 5, 6]\<rparr>\<rparr>) world_start"
  have p: "peer_ok board_peer" "peer_extended board_peer" "peer_ext (peer_id board_peer) = Ext_Balance_Board"
    by (simp_all add: peer_ok_def peer_extended_def peer_ext_def board_peer_def)
  have w: "slot_waits 0 ?w"
    by (simp add: slot_waits_def upd_def world_start_def free_slot_def zero_addr_def device_fresh_def uni_bt_conn_init_def
        conn_zero_def eval_nat_numeral)
  have "product_id (devs ?w ! 0) \<in> {0x0306, 0x0330} \<or> peer_extended board_peer" using p(2) by blast
  from wii_handshake [OF p(1) w this setup_asks, where gap = "\<lambda>_. Gap_Acl" and c = "ctl device_zero"] show ?thesis
    unfolding p(3) if_P [OF p(2)] by blast
qed

text \<open>Runs of events.\<close>

fun wii_run :: "(u16 \<Rightarrow> gap_type) \<Rightarrow> bool \<Rightarrow> nat \<Rightarrow> wii_event list \<Rightarrow> wii_world \<Rightarrow> wii_world option" where
  "wii_run gap accept i [] x = Some x"
| "wii_run gap accept i (e # es) x = Option.bind (wii_step gap accept i e x) (wii_run gap accept i es)"

lemma wii_run_append: "wii_run gap accept i (es @ es') x = Option.bind (wii_run gap accept i es x) (wii_run gap accept i es')"
  by (induction es arbitrary: x) (auto split: bind_splits)

definition refusal :: "u8 list \<Rightarrow> wii_event list" where
  "refusal st = [Wii_Report [0x22, 0, 0, 0x16, 7] 5, Wii_Report st 7]"

lemma refusal_turns:
  assumes "wii_state s = Fsm_Ext_Did_Init" "register_address s = 0xa6" "length st = 7" "st ! 0 = 0x20" "st ! 3 AND 0x02 \<noteq> 0"
  shows "\<exists>s'. wii_run gap True i (refusal st) (w, c, s) = Some (w, clear_pad c, s') \<and> wii_state s' = Fsm_Ext_Did_Init \<and>
    register_address s' = 0xa6 \<and> wii_log s' = wii_log s @ [[0xa2, 0x15, 0], wmem 0xa6 0xf0 0x55]"
proof -
  let ?s = "wii_fsm_req_status (s\<lparr>wii_state := Fsm_Dump_Eeprom_Finished\<rparr>)"
  let ?lf = "st ! 3 AND 0x0f"
  let ?t = "status_mode st (status_extension ?lf (status_device (product_id (devs w ! i)) ?lf ?s))"
  have lf: "?lf AND 0x02 \<noteq> 0" using assms(5) by (simp add: and.assoc)
  have c: "clear_pad (clear_pad c) = clear_pad c" by (simp add: clear_pad_def)
  have a: "wii_step gap True i (Wii_Report [0x22, 0, 0, 0x16, 7] 5) (w, c, s) = Some (w, clear_pad c, ?s)"
    by (simp add: wii_step_def reply_reports(2) process_req_return_def read_at_def assms(1,2) wii_continue_def
        wii_process_fsm.simps)
  have t: "wii_state ?t = Fsm_Ext_Unk" "register_address ?t = 0xa6" "wii_log ?t = wii_log s @ [[0xa2, 0x15, 0]]"
    using lf assms(2) by (auto simp: status_mode_def status_extension_def status_device_def wii_fsm_req_status_def)
  have st: "wii_state ?s = Fsm_Did_Req_Status" by (simp add: wii_fsm_req_status_def)
  have b: "wii_step gap True i (Wii_Report st 7) (w, clear_pad c, ?s) = Some (w, clear_pad c, wii_fsm_ext_init ?t)"
    by (simp add: wii_step_def reply_reports(3) [OF assms(3,4)] process_req_status_def st Let_def wii_continue_def
        wii_process_fsm.simps t(1) c)
  show ?thesis using a b t by (simp add: refusal_def wii_fsm_ext_init_def)
qed

text \<open>
  A pad that refuses the extension on both registers is asked again for ever: from the
  second register on, every refusal starts the conversation anew, without going back to the first register, and
  the pad never becomes ready, however often it is asked.
\<close>

theorem wii_refusal_loops:
  assumes "wii_state s = Fsm_Ext_Did_Init" "register_address s = 0xa6" "length st = 7" "st ! 0 = 0x20" "st ! 3 AND 0x02 \<noteq> 0"
  shows "\<exists>c' s'. wii_run gap True i (concat (replicate n (refusal st))) (w, c, s) = Some (w, c', s') \<and>
    wii_state s' = Fsm_Ext_Did_Init \<and> register_address s' = 0xa6 \<and>
    wii_log s' = wii_log s @ concat (replicate n [[0xa2, 0x15, 0], wmem 0xa6 0xf0 0x55])"
  using assms
proof (induction n arbitrary: c s)
  case (Suc n)
  obtain s1 where s1: "wii_run gap True i (refusal st) (w, c, s) = Some (w, clear_pad c, s1)" "wii_state s1 = Fsm_Ext_Did_Init"
    "register_address s1 = 0xa6" "wii_log s1 = wii_log s @ [[0xa2, 0x15, 0], wmem 0xa6 0xf0 0x55]"
    using refusal_turns [OF Suc.prems] by blast
  obtain c' s' where "wii_run gap True i (concat (replicate n (refusal st))) (w, clear_pad c, s1) = Some (w, c', s')"
    "wii_state s' = Fsm_Ext_Did_Init" "register_address s' = 0xa6"
    "wii_log s' = wii_log s1 @ concat (replicate n [[0xa2, 0x15, 0], wmem 0xa6 0xf0 0x55])"
    using Suc.IH [OF s1(2,3) Suc.prems(3-5)] by blast
  with s1 show ?case by (simp add: wii_run_append)
qed simp

theorem wii_refusal_loops_witness:
  "\<exists>c' s'. wii_run (\<lambda>_. Gap_Acl) True 0 (concat (replicate 9 (refusal [0x20, 0, 0, 2, 0, 0, 0])))
     (world_start, ctl device_zero, (wii_zero Subtype_None [])\<lparr>wii_state := Fsm_Ext_Did_Init, register_address := 0xa6\<rparr>) =
     Some (world_start, c', s') \<and> wii_state s' = Fsm_Ext_Did_Init"
proof -
  let ?s = "(wii_zero Subtype_None [])\<lparr>wii_state := Fsm_Ext_Did_Init, register_address := 0xa6\<rparr>"
  have "wii_state ?s = Fsm_Ext_Did_Init" "register_address ?s = 0xa6" "length [0x20, 0, 0, 2, 0, 0, 0 :: u8] = 7"
    "[0x20, 0, 0, 2, 0, 0, 0 :: u8] ! 0 = 0x20" "[0x20, 0, 0, 2, 0, 0, 0 :: u8] ! 3 AND 0x02 \<noteq> 0" by simp_all
  from wii_refusal_loops [OF this, of "\<lambda>_. Gap_Acl" 0 9 world_start "ctl device_zero"] show ?thesis by blast
qed

end
