(* ===== verification/Wii_Board.thy ===== *)
theory Wii_Board
  imports Wii_Pad
begin

text \<open>
  The Balance Board of the Wii driver of theory \<open>Wii_Pad\<close>: what the interpolation of a sensor computes in
  binary32, where it is undefined, and with it which reports of a Wii pad the driver reads without
  undefined behaviour.
\<close>

section \<open>Weights\<close>

definition board_grams :: "u16 \<Rightarrow> u16 \<Rightarrow> u16 \<Rightarrow> u16 \<Rightarrow> fp" where
  "board_grams val v0 v17 v34 =
     (if val < v0 then 0
      else if val < v17 then f32_of_int 17 * f32_of_int (uint val - uint v0) / f32_of_int (uint v17 - uint v0)
      else f32_of_int 17 + f32_of_int 17 * f32_of_int (uint val - uint v17) / f32_of_int (uint v34 - uint v17)) *
     f32_of_int 1000"

lemma interpolate_grams: "balance_interpolate val v0 v17 v34 = Option.bind (trunc_int (board_grams val v0 v17 v34)) i32"
  by (simp add: balance_interpolate_def board_grams_def Let_def)

definition round32 :: "rat \<Rightarrow> rat" where
  "round32 x = round_val binary32 x"

lemma round32_mono: "x \<le> y \<Longrightarrow> round32 x \<le> round32 y"
  by (simp add: round32_def round_val_mono)

lemma round32_int: "\<bar>m\<bar> < 2 ^ 24 \<Longrightarrow> round32 (of_int m) = of_int m"
  by (simp add: round32_def round_val_exact fits32_int)

lemma round32_bound: "\<bar>x\<bar> \<le> of_int m \<Longrightarrow> \<bar>m\<bar> < 2 ^ 24 \<Longrightarrow> \<bar>round32 x\<bar> \<le> of_int m"
  using round32_mono [of x "of_int m"] round32_mono [of "- of_int m" x] round32_int [of m] round32_int [of "- m"] by (auto simp: abs_le_iff)

lemma small_moderate: "\<bar>x\<bar> \<le> 2 ^ 31 \<Longrightarrow> moderate x"
  by (simp add: moderate_def)

text \<open>Seventeen times the fraction, and the weight in kilograms, as the rounded operations give them.\<close>

definition part17 :: "int \<Rightarrow> int \<Rightarrow> rat" where
  "part17 a b = round32 (of_int (17 * a) / of_int b)"

definition board_weight :: "u16 \<Rightarrow> u16 \<Rightarrow> u16 \<Rightarrow> u16 \<Rightarrow> rat" where
  "board_weight val v0 v17 v34 =
     (if val < v0 then 0
      else if val < v17 then part17 (uint val - uint v0) (uint v17 - uint v0)
      else round32 (17 + part17 (uint val - uint v17) (uint v34 - uint v17)))"

lemma scaled_bound: "\<bar>of_int (17 * a) / of_int b :: rat\<bar> \<le> of_int 1114095" if "\<bar>a\<bar> \<le> 65535" "b \<noteq> 0" for a b :: int
proof -
  have "1 \<le> \<bar>b\<bar>" using that(2) by simp
  then have "(of_int 1 :: rat) \<le> of_int \<bar>b\<bar>" by (simp only: of_int_le_iff)
  then have "\<bar>of_int (17 * a) :: rat\<bar> / \<bar>of_int b\<bar> \<le> \<bar>of_int (17 * a)\<bar> / 1"
    by (intro divide_left_mono) auto
  also have "\<dots> = of_int \<bar>17 * a\<bar>" by simp
  also have "\<dots> \<le> of_int 1114095" unfolding of_int_le_iff using that(1) by auto
  finally show ?thesis by (simp add: abs_divide)
qed

lemma part17_value:
  assumes "\<bar>a\<bar> \<le> 65535" "\<bar>b\<bar> \<le> 65535" "b \<noteq> 0"
  shows "is_finite (f32_of_int 17 * f32_of_int a / f32_of_int b)"
    "fvalue (f32_of_int 17 * f32_of_int a / f32_of_int b) = part17 a b" "\<bar>part17 a b\<bar> \<le> 1114095"
proof -
  have s: "is_finite (f32_of_int 17)" "fvalue (f32_of_int 17) = of_int 17" "is_finite (f32_of_int a)" "fvalue (f32_of_int a) = of_int a"
    "is_finite (f32_of_int b)" "fvalue (f32_of_int b) = of_int b"
    using f32_of_int_exact [of 17] f32_of_int_exact [of a] f32_of_int_exact [of b] assms by simp_all
  have m: "\<bar>17 * a\<bar> < 2 ^ 24" using assms(1) by simp
  have "\<bar>of_int (17 * a) :: rat\<bar> \<le> of_int (2 ^ 24)" using m unfolding of_int_abs [symmetric] of_int_le_iff by simp
  then have "moderate (fvalue (f32_of_int 17) * fvalue (f32_of_int a))" using s by (simp add: moderate_def)
  then have p: "is_finite (f32_of_int 17 * f32_of_int a)" "fvalue (f32_of_int 17 * f32_of_int a) = of_int (17 * a)"
    using fin_mult [OF s(1,3)] s(2,4) round32_int [OF m] by (simp_all add: round32_def)
  have b: "\<bar>of_int (17 * a) / of_int b :: rat\<bar> \<le> of_int 1114095" by (rule scaled_bound [OF assms(1,3)])
  have mo: "moderate (fvalue (f32_of_int 17 * f32_of_int a) / fvalue (f32_of_int b))"
    unfolding p(2) s(6) by (rule small_moderate, rule order_trans [OF b]) simp
  have nz: "fvalue (f32_of_int b) \<noteq> 0" using assms(3) s(6) by simp
  show "is_finite (f32_of_int 17 * f32_of_int a / f32_of_int b)"
    "fvalue (f32_of_int 17 * f32_of_int a / f32_of_int b) = part17 a b"
    using fin_div [OF p(1) s(5) nz mo] unfolding part17_def round32_def p(2) s(6) by blast+
  show "\<bar>part17 a b\<bar> \<le> 1114095" unfolding part17_def using round32_bound [OF b] by simp
qed

lemma u16_range: "0 \<le> uint (v :: u16)" "uint v \<le> 65535"
  using uint_lt2p [of v] by simp_all

lemma u16_diff: "\<bar>uint (a :: u16) - uint (b :: u16)\<bar> \<le> 65535"
  using u16_range [of a] u16_range [of b] by linarith

lemma grams_value:
  assumes "\<not> (v0 \<le> val \<and> v17 \<le> val \<and> v34 = v17)"
  shows "is_finite (board_grams val v0 v17 v34)" "\<bar>board_weight val v0 v17 v34\<bar> \<le> of_int 1114112"
    "fvalue (board_grams val v0 v17 v34) = round32 (board_weight val v0 v17 v34 * 1000)"
proof -
  let ?k = "if val < v0 then 0
      else if val < v17 then f32_of_int 17 * f32_of_int (uint val - uint v0) / f32_of_int (uint v17 - uint v0)
      else f32_of_int 17 + f32_of_int 17 * f32_of_int (uint val - uint v17) / f32_of_int (uint v34 - uint v17)"
  have s: "is_finite (f32_of_int 17)" "fvalue (f32_of_int 17) = 17" "is_finite (f32_of_int 1000)" "fvalue (f32_of_int 1000) = 1000"
    using f32_of_int_exact [of 17] f32_of_int_exact [of 1000] by simp_all
  have k: "is_finite ?k \<and> fvalue ?k = board_weight val v0 v17 v34 \<and> \<bar>board_weight val v0 v17 v34\<bar> \<le> of_int 1114112"
  proof -
    consider "val < v0" | "\<not> val < v0" "val < v17" | "\<not> val < v0" "\<not> val < v17" by blast
    then show ?thesis
    proof cases
      case 2
      then have "v0 < v17" by (simp add: not_less)
      then have "uint v17 - uint v0 \<noteq> 0" by (simp add: word_less_def)
      from part17_value [OF u16_diff u16_diff this, of val v0] 2 show ?thesis by (simp add: board_weight_def)
    next
      case 3
      then have "v34 \<noteq> v17" using assms by (simp add: not_less)
      then have n: "uint v34 - uint v17 \<noteq> 0" by (simp add: word_uint_eq_iff)
      let ?p = "part17 (uint val - uint v17) (uint v34 - uint v17)"
      note p = part17_value [OF u16_diff u16_diff n, of val v17]
      have b: "\<bar>17 + ?p\<bar> \<le> of_int 1114112" using p(3) by simp
      then have "moderate (17 + ?p)" by (intro small_moderate) simp
      with fin_add [OF s(1) p(1)] p(2) s(2) 3 round32_bound [OF b] show ?thesis
        by (simp add: board_weight_def round32_def)
    qed (simp add: board_weight_def)
  qed
  then show "\<bar>board_weight val v0 v17 v34\<bar> \<le> of_int 1114112" by blast
  have "moderate (fvalue ?k * fvalue (f32_of_int 1000))"
    using k s(4) by (intro small_moderate) (simp add: abs_mult)
  from fin_mult [OF conjunct1 [OF k] s(3) this] k s(4)
  show "is_finite (board_grams val v0 v17 v34)" "fvalue (board_grams val v0 v17 v34) = round32 (board_weight val v0 v17 v34 * 1000)"
    unfolding board_grams_def round32_def by simp_all
qed

definition c_trunc :: "rat \<Rightarrow> int" where
  "c_trunc v = (if v < 0 then - \<lfloor>- v\<rfloor> else \<lfloor>v\<rfloor>)"

lemma trunc_finite: "is_finite a \<Longrightarrow> trunc_int a = Some (c_trunc (fvalue a))"
  by (cases a) (simp_all add: Let_def c_trunc_def)

lemma c_trunc_mono: "x \<le> y \<Longrightarrow> c_trunc x \<le> c_trunc y"
  by (auto simp: c_trunc_def floor_mono intro: order_trans [of _ 0])

lemma c_trunc_int [simp]: "c_trunc (of_int m) = m"
  by (simp add: c_trunc_def)

lemma big_fits: "round32 1114112000 = 1114112000" "round32 (- 1114112000) = - 1114112000"
proof -
  have "representable binary32 1114112000" unfolding representable_def
    by (intro exI [of _ 2125] exI [of _ 19]) (simp add: binary32_def)
  moreover have "(1114112000 :: rat) < 2 ^ 128" by (rule less_le_trans [of _ "2 ^ 31"]) (simp, rule power_increasing, auto)
  ultimately have "fits binary32 1114112000" by (simp add: fits_def)
  then show "round32 1114112000 = 1114112000" by (simp add: round32_def round_val_exact)
  then show "round32 (- 1114112000) = - 1114112000" by (simp add: round32_def)
qed

lemma interpolate_value:
  assumes "\<not> (v0 \<le> val \<and> v17 \<le> val \<and> v34 = v17)"
  shows "balance_interpolate val v0 v17 v34 = Some (c_trunc (round32 (board_weight val v0 v17 v34 * 1000)))"
proof -
  note g = grams_value [OF assms]
  have "\<bar>board_weight val v0 v17 v34 * 1000\<bar> \<le> 1114112000" using g(2) by (simp add: abs_mult)
  then have "board_weight val v0 v17 v34 * 1000 \<le> 1114112000" "- 1114112000 \<le> board_weight val v0 v17 v34 * 1000" by linarith+
  from c_trunc_mono [OF round32_mono [OF this(1)]] c_trunc_mono [OF round32_mono [OF this(2)]]
  have "int32_ok (c_trunc (round32 (board_weight val v0 v17 v34 * 1000)))"
    using c_trunc_int [of 1114112000] c_trunc_int [of "- 1114112000"] by (simp add: big_fits int32_ok_def)
  then show ?thesis using g(1,3) by (simp add: interpolate_grams trunc_finite i32_def)
qed

lemma interpolate_undefined:
  assumes "v0 \<le> val" "v17 \<le> val"
  shows "balance_interpolate val v0 v17 v17 = None"
proof -
  have z: "f32_of_int 0 = FFin False 0" by (simp add: f32_of_int_def fround_def)
  obtain s m where p: "f32_of_int 17 * f32_of_int (uint val - uint v17) = FFin s m \<or>
      f32_of_int 17 * f32_of_int (uint val - uint v17) = FNaN \<or> f32_of_int 17 * f32_of_int (uint val - uint v17) = FInf s"
    by (metis fp.exhaust)
  obtain t n where k: "f32_of_int 17 = FFin t n" using f32_of_int_exact [of 17] by (cases "f32_of_int 17") auto
  obtain u r where h: "f32_of_int 1000 = FFin u r" "r \<noteq> 0" using f32_of_int_exact [of 1000] by (cases "f32_of_int 1000") (auto split: if_splits)
  have "trunc_int (board_grams val v0 v17 v17) = None"
    using assms p unfolding board_grams_def
    by (auto simp: not_less z k h divide_fp_def plus_fp_def times_fp_def)
  then show ?thesis by (simp add: interpolate_grams)
qed

text \<open>A sensor that was calibrated.\<close>

lemma part17_ends: "b \<noteq> 0 \<Longrightarrow> part17 b b = 17" "part17 0 b = 0"
  using round32_int [of 17] round32_int [of 0] by (simp_all add: part17_def)

lemma part17_mono: "0 < b \<Longrightarrow> a \<le> a' \<Longrightarrow> part17 a b \<le> part17 a' b"
  unfolding part17_def by (intro round32_mono divide_right_mono) simp_all

lemma board_weight_mono:
  assumes "v0 < v17" "v17 < v34" "val \<le> val'"
  shows "board_weight val v0 v17 v34 \<le> board_weight val' v0 v17 v34"
proof -
  have d: "0 < uint v17 - uint v0" "0 < uint v34 - uint v17" "uint val \<le> uint val'"
    using assms by (simp_all add: word_less_def word_le_def)
  have lo: "0 \<le> part17 (uint v - uint v0) (uint v17 - uint v0)" if "\<not> v < v0" for v
    using part17_mono [OF d(1), of 0 "uint v - uint v0"] that by (simp add: part17_ends word_less_def)
  have mid: "part17 (uint v - uint v0) (uint v17 - uint v0) \<le> 17" if "v < v17" for v
    using part17_mono [OF d(1), of "uint v - uint v0" "uint v17 - uint v0"] that d(1) by (simp add: part17_ends word_less_def)
  have hi: "17 \<le> round32 (17 + part17 (uint v - uint v17) (uint v34 - uint v17))" if "\<not> v < v17" for v
    using part17_mono [OF d(2), of 0 "uint v - uint v17"] that round32_int [of 17]
      round32_mono [of 17 "17 + part17 (uint v - uint v17) (uint v34 - uint v17)"]
    by (simp add: part17_ends word_less_def)
  have up: "round32 (17 + part17 (uint val - uint v17) (uint v34 - uint v17)) \<le>
      round32 (17 + part17 (uint val' - uint v17) (uint v34 - uint v17))"
    using part17_mono [OF d(2), of "uint val - uint v17" "uint val' - uint v17"] d(3) by (intro round32_mono) simp
  have low: "part17 (uint val - uint v0) (uint v17 - uint v0) \<le> part17 (uint val' - uint v0) (uint v17 - uint v0)"
    using part17_mono [OF d(1), of "uint val - uint v0" "uint val' - uint v0"] d(3) by simp
  have o: "val' < v0 \<Longrightarrow> val < v0" "val' < v17 \<Longrightarrow> val < v17" using assms(3) by (auto intro: le_less_trans)
  show ?thesis
    using o lo [of val'] hi [of val'] mid [of val] low up by (auto simp: board_weight_def intro: order_trans)
qed

lemma board_weight_ends:
  assumes "v0 < v17" "v17 < v34"
  shows "board_weight v0 v0 v17 v34 = 0" "board_weight v17 v0 v17 v34 = 17" "board_weight v34 v0 v17 v34 = 34"
proof -
  have d: "uint v17 - uint v0 \<noteq> 0" "uint v34 - uint v17 \<noteq> 0" "\<not> v34 < v0" "\<not> v34 < v17" "\<not> v17 < v0"
    using assms by (auto simp: word_less_def)
  show "board_weight v0 v0 v17 v34 = 0" "board_weight v17 v0 v17 v34 = 17" "board_weight v34 v0 v17 v34 = 34"
    using d assms(1) round32_int [of 17] round32_int [of 34] by (simp_all add: board_weight_def part17_ends)
qed

section \<open>Properties\<close>

text \<open>A sensor that shows no less than its calibration at 17 kg and was told the same for 34 kg.\<close>

definition sensor_undefined :: "u16 \<Rightarrow> u16 \<Rightarrow> u16 \<Rightarrow> u16 \<Rightarrow> bool" where
  "sensor_undefined val v0 v17 v34 \<longleftrightarrow> v0 \<le> val \<and> v17 \<le> val \<and> v34 = v17"

lemma interpolate_None: "balance_interpolate val v0 v17 v34 = None \<longleftrightarrow> sensor_undefined val v0 v17 v34"
proof (cases "sensor_undefined val v0 v17 v34")
  case True
  then show ?thesis using interpolate_undefined [of v0 val v17] by (simp add: sensor_undefined_def)
next
  case False
  then have "\<not> (v0 \<le> val \<and> v17 \<le> val \<and> v34 = v17)" by (simp add: sensor_undefined_def)
  from interpolate_value [OF this] False show ?thesis by simp
qed

text \<open>
  The weight a sensor of a calibrated Balance Board gives, computed in binary32 and cut to whole grams,
  never overflows, is 0, 17 kg and 34 kg exactly at the three points of the calibration, and never falls when the reading rises.
\<close>

theorem board_weight_exact:
  assumes "v0 < v17" "v17 < v34"
  shows "\<exists>g. balance_interpolate val v0 v17 v34 = Some g \<and> 0 \<le> g \<and> (val \<le> v0 \<longrightarrow> g = 0) \<and> (val = v17 \<longrightarrow> g = 17000) \<and>
    (val = v34 \<longrightarrow> g = 34000) \<and> (val \<le> v34 \<longrightarrow> g \<le> 34000) \<and>
    (\<forall>val' g'. val \<le> val' \<and> balance_interpolate val' v0 v17 v34 = Some g' \<longrightarrow> g \<le> g')"
proof -
  have "\<not> (v0 \<le> v \<and> v17 \<le> v \<and> v34 = v17)" for v using assms(2) by auto
  note val = interpolate_value [OF this]
  have mono: "c_trunc (round32 (board_weight v v0 v17 v34 * 1000)) \<le> c_trunc (round32 (board_weight v' v0 v17 v34 * 1000))"
    if "v \<le> v'" for v v'
    using board_weight_mono [OF assms that] by (intro c_trunc_mono round32_mono) simp
  have ends: "c_trunc (round32 (board_weight v0 v0 v17 v34 * 1000)) = 0" "c_trunc (round32 (board_weight v17 v0 v17 v34 * 1000)) = 17000"
    "c_trunc (round32 (board_weight v34 v0 v17 v34 * 1000)) = 34000"
    using round32_int [of 0] round32_int [of 17000] round32_int [of 34000] c_trunc_int [of 17000] c_trunc_int [of 34000] c_trunc_int [of 0]
    by (simp_all add: board_weight_ends [OF assms])
  have "c_trunc (round32 (board_weight 0 v0 v17 v34 * 1000)) = 0"
  proof (cases "v0 = 0")
    case False
    then have "0 < v0" by (simp add: word_neq_0_conv)
    then show ?thesis using round32_int [of 0] c_trunc_int [of 0] by (simp add: board_weight_def)
  qed (use ends(1) in simp)
  with mono [of 0] have nonneg: "0 \<le> c_trunc (round32 (board_weight v v0 v17 v34 * 1000))" for v by simp
  show ?thesis
    using mono [of val v0] mono [of val v34] nonneg [of val] ends mono [of val] by (auto simp: val)
qed

theorem board_weight_exact_witness:
  "balance_interpolate 5000 2000 5000 8000 = Some 17000 \<and> balance_interpolate 1000 2000 5000 8000 = Some 0"
proof -
  have c: "(2000 :: u16) < 5000" "(5000 :: u16) < 8000" by simp_all
  show ?thesis using board_weight_exact [OF c, of 5000] board_weight_exact [OF c, of 1000] by auto
qed

text \<open>The readings in a report of a board, which start at its byte 3.\<close>

definition board_undefined :: "wii_instance \<Rightarrow> u8 list \<Rightarrow> bool" where
  "board_undefined s r \<longleftrightarrow>
     sensor_undefined (board_word r 3) (bb_tr (kg0 s)) (bb_tr (kg17 s)) (bb_tr (kg34 s)) \<or>
     sensor_undefined (board_word r 5) (bb_br (kg0 s)) (bb_br (kg17 s)) (bb_br (kg34 s)) \<or>
     sensor_undefined (board_word r 7) (bb_tl (kg0 s)) (bb_tl (kg17 s)) (bb_tl (kg34 s)) \<or>
     sensor_undefined (board_word r 9) (bb_bl (kg0 s)) (bb_bl (kg17 s)) (bb_bl (kg34 s))"

lemma board_word_taken: "k + 1 < 11 \<Longrightarrow> 14 \<le> length r \<Longrightarrow> board_word (take 11 (drop 3 r)) k = board_word r (k + 3)"
  by (simp add: board_word_def add.commute)

lemma board_fails:
  assumes "14 \<le> length r" "\<not> len < 11"
  shows "process_balance_board s (drop 3 r) len = None \<longleftrightarrow> board_undefined s r"
proof -
  let ?d = "take 11 (drop 3 r)"
  have b: "board_word ?d 0 = board_word r 3" "board_word ?d 2 = board_word r 5" "board_word ?d 4 = board_word r 7" "board_word ?d 6 = board_word r 9"
    using board_word_taken [OF _ assms(1), of 0] board_word_taken [OF _ assms(1), of 2] board_word_taken [OF _ assms(1), of 4]
      board_word_taken [OF _ assms(1), of 6] by simp_all
  have "read_bytes (drop 3 r) 0 11 = Some ?d" using assms(1) by (simp add: read_bytes_def)
  then show ?thesis
    using assms(2) by (simp add: process_balance_board_def board_at_def b b(2) [unfolded numeral_2_eq_2] board_undefined_def interpolate_None [symmetric] bind_eq_None_conv)
qed

lemma kee_fails:
  assumes "unat len = length r" "r \<noteq> []"
  shows "process_drm_kee s r len c = None \<longleftrightarrow>
    ext_type s = Ext_Balance_Board \<and> (length r < 3 \<or> 14 \<le> length r \<and> board_undefined s r)"
proof (cases "ext_type s = Ext_Balance_Board")
  case True
  have len: "len = of_nat (length r)" "length r < 65536" using assms(1) unsigned_less [of len] by (simp_all flip: assms(1))
  have f: "process_drm_kee s r len c = None \<longleftrightarrow> process_balance_board s (drop 3 r) (len - 3) = None"
    using True by (cases "process_balance_board s (drop 3 r) (len - 3)") (simp_all add: process_drm_kee_def drm_kee_board_def)
  consider "length r < 3" | "3 \<le> length r" "length r < 14" | "14 \<le> length r" by linarith
  then show ?thesis
  proof cases
    case 1
    moreover have "length r \<noteq> 0" using assms(2) by simp
    ultimately have "length r = 1 \<or> length r = 2" by linarith
    then have "\<not> len - 3 < 11" using len(1) by (elim disjE) simp_all
    then show ?thesis using True 1 f by (simp add: process_balance_board_def read_bytes_def)
  next
    case 2
    then have "unat (len - 3) = length r - 3" using assms(1) by (simp add: unat_sub word_le_nat_alt)
    moreover have "length r - 3 < 11" using 2 by linarith
    ultimately have "len - 3 < 11" by (simp add: word_less_nat_alt)
    then show ?thesis using True 2 f by (simp add: process_balance_board_def)
  next
    case 3
    then have "unat (len - 3) = length r - 3" using assms(1) by (simp add: unat_sub word_le_nat_alt)
    then have "\<not> len - 3 < 11" using 3 by (simp add: word_less_nat_alt)
    from board_fails [OF 3 this] show ?thesis using True 3 f by simp
  qed
qed (simp add: process_drm_kee_def)

lemma continue_total: "\<exists>y. wii_continue gap True i s (w, c, z) = Some y"
  using wii_fsm_total [of gap i w s] by (auto simp: wii_continue_def)

lemma replies_total:
  "\<exists>y. process_req_status gap True i r len (w, c, s) = Some y" "\<exists>y. process_req_data gap True i r len (w, c, s) = Some y"
  "process_req_return gap True i r (w, c, s) = None \<longleftrightarrow> length r < 4 \<or> length r = 4 \<and> r ! 3 = 0x16"
proof -
  have c: "\<exists>y. wii_continue gap True i s (w, c, z) = Some y" for s z by (rule continue_total)
  show "\<exists>y. process_req_status gap True i r len (w, c, s) = Some y"
    using c by (simp add: process_req_status_def Let_def)
  show "\<exists>y. process_req_data gap True i r len (w, c, s) = Some y"
    using c by (cases "wii_state s") (simp_all add: process_req_data_def process_req_data_read_register_def
      process_req_data_read_calibration_data_def process_req_data_read_calibration_data2_def Let_def)
  have "wii_continue gap True i t (w, c, s) \<noteq> None" for t using c [of t s] by auto
  then show "process_req_return gap True i r (w, c, s) = None \<longleftrightarrow> length r < 4 \<or> length r = 4 \<and> r ! 3 = 0x16"
    by (auto simp: process_req_return_def read_at_def bind_eq_None_conv)
qed



text \<open>A reply to a read that is neither an error nor what was asked for.\<close>

definition stray_data :: "u8 list \<Rightarrow> bool" where
  "stray_data r \<longleftrightarrow> length r = 22 \<and> r ! 0 = 0x21 \<and> r ! 3 AND 0x0f = 0 \<and> \<not> data_header r 15 0x24 \<and> \<not> data_header r 7 0x34"

lemma stray_report: "stray_data r \<Longrightarrow> wii_report gap True i r 22 (w, c, s) = process_req_data gap True i r 22 (w, clear_pad c, s)"
  by (simp add: stray_data_def wii_report_def uni_hid_parser_wii_parse_input_report_def)

text \<open>
  The driver takes any data for the calibration of a Balance Board.  If the two replies are
  not the ones it asked for, the board is ready all the same, without a calibration, and then every full report
  of it, whatever it weighs, is converted from an infinity or a NaN to an integer.
\<close>

theorem board_uncalibrated:
  assumes "slot_waits i w" "wii_state s = Fsm_Did_Read_Calibration" "ext_type s = Ext_Balance_Board"
    "dev_type s \<noteq> Devtype_Pro_Controller" "kg0 s = board_zero" "kg17 s = board_zero" "kg34 s = board_zero"
    "stray_data d1" "stray_data d2"
  shows "\<exists>w' c' s'. wii_run gap True i [Wii_Report d1 22, Wii_Report d2 22] (w, c, s) = Some (w', c', s') \<and>
    wii_state s' = Fsm_Led_Updated \<and> plat w' = plat w @ [P_Ready i] \<and>
    (\<forall>r len. 14 \<le> length r \<and> unat len = length r \<and> r ! 0 = WII_REPORT_TYPE_KEE \<longrightarrow>
      wii_report gap True i r len (w', c', s') = None)"
proof -
  let ?s = "wii_fsm_balance_board_read_calibration2 (s\<lparr>wii_state := Fsm_Read_Calibration2\<rparr>)"
  let ?t = "?s\<lparr>wii_state := Fsm_Dev_Guessed\<rparr>"
  let ?f = "wii_fsm_update_led (wii_fsm_assign_device ?t)"
  have a: "wii_report gap True i d1 22 (w, c, s) = Some (w, clear_pad c, ?s)"
    using assms(8) unfolding stray_report [OF assms(8)] stray_data_def
    by (simp add: process_req_data_def assms(2) process_req_data_read_calibration_data_def wii_continue_def wii_process_fsm.simps)
  have st: "wii_state ?s = Fsm_Did_Read_Calibration2" "ext_type ?s = Ext_Balance_Board" "dev_type ?s \<noteq> Devtype_Pro_Controller"
    "kg0 ?s = board_zero" "kg17 ?s = board_zero" "kg34 ?s = board_zero"
    using assms(3-7) by (simp_all add: wii_fsm_balance_board_read_calibration2_def wii_read_mem_def wii_send_def)
  have "dev_type ?t = Devtype_Pro_Controller \<longleftrightarrow> ext_type ?t = Ext_U_Pro_Controller" using st by simp
  from finish_ready [OF assms(1) this, of gap "clear_pad (clear_pad c)"] obtain w' where
    w: "wii_finish gap True i (w, ?f) = Some (w', ?f)" "wii_ready i w (ext_type ?t) (w', clear_pad (clear_pad c), ?f)" by blast
  have "wii_report gap True i d2 22 (w, clear_pad c, ?s) = wii_continue gap True i ?t (w, clear_pad (clear_pad c), ?s)"
    using assms(9) unfolding stray_report [OF assms(9)] stray_data_def
    by (simp add: process_req_data_def st(1) process_req_data_read_calibration_data2_def)
  then have b: "wii_report gap True i d2 22 (w, clear_pad c, ?s) = Some (w', clear_pad (clear_pad c), ?f)"
    using w(1) by (simp add: wii_continue_def fsm_guessed)
  have k: "ext_type ?f = Ext_Balance_Board" "kg0 ?f = board_zero" "kg17 ?f = board_zero" "kg34 ?f = board_zero"
    using st by (simp_all add: wii_fsm_update_led_def wii_set_led_def wii_fsm_assign_device_def Let_def wii_send_def
      uni_hid_parser_wii_request_report_type_def split: prod.splits)
  have "wii_report gap True i r len (w', clear_pad (clear_pad c), ?f) = None"
    if "14 \<le> length r" "unat len = length r" "r ! 0 = WII_REPORT_TYPE_KEE" for r len
  proof -
    have "board_undefined ?f r" by (simp add: board_undefined_def k sensor_undefined_def board_zero_def)
    moreover have "r \<noteq> []" "len \<noteq> 0" using that(1,2) by auto
    ultimately show ?thesis
      using that kee_fails [OF that(2), of ?f] k(1) by (simp add: wii_report_def uni_hid_parser_wii_parse_input_report_def)
  qed
  moreover have "wii_run gap True i [Wii_Report d1 22, Wii_Report d2 22] (w, c, s) = Some (w', clear_pad (clear_pad c), ?f)"
    using a b by (simp add: wii_step_def)
  moreover have "plat w' = plat w @ [P_Ready i]" using w(2) by (simp add: wii_ready_def)
  ultimately show ?thesis by (intro exI [of _ w'] exI [of _ "clear_pad (clear_pad c)"] exI [of _ ?f]) simp
qed

theorem board_uncalibrated_witness:
  "\<exists>w' c' s'. wii_run (\<lambda>_. Gap_Acl) True 0 (replicate 2 (Wii_Report (0x21 # replicate 21 0) 22))
     (upd 0 (\<lambda>d. d\<lparr>conn := (conn d)\<lparr>btaddr := [1, 2, 3, 4, 5, 6]\<rparr>\<rparr>) world_start, ctl device_zero,
      (wii_zero Subtype_None [])\<lparr>wii_state := Fsm_Did_Read_Calibration, ext_type := Ext_Balance_Board\<rparr>) = Some (w', c', s') \<and>
     wii_report (\<lambda>_. Gap_Acl) True 0 (0x34 # replicate 21 7) 22 (w', c', s') = None"
proof -
  let ?w = "upd 0 (\<lambda>d. d\<lparr>conn := (conn d)\<lparr>btaddr := [1, 2, 3, 4, 5, 6]\<rparr>\<rparr>) world_start"
  let ?s = "(wii_zero Subtype_None [])\<lparr>wii_state := Fsm_Did_Read_Calibration, ext_type := Ext_Balance_Board\<rparr>"
  let ?d = "0x21 # replicate 21 0 :: u8 list"
  have w: "slot_waits 0 ?w"
    by (simp add: slot_waits_def upd_def world_start_def free_slot_def zero_addr_def device_fresh_def uni_bt_conn_init_def
        conn_zero_def eval_nat_numeral)
  have s: "wii_state ?s = Fsm_Did_Read_Calibration" "ext_type ?s = Ext_Balance_Board" "dev_type ?s \<noteq> Devtype_Pro_Controller"
    "kg0 ?s = board_zero" "kg17 ?s = board_zero" "kg34 ?s = board_zero" by (simp_all add: wii_zero_def)
  have d: "stray_data ?d" by (simp add: stray_data_def data_header_def)
  obtain w' c' s' where r: "wii_run (\<lambda>_. Gap_Acl) True 0 [Wii_Report ?d 22, Wii_Report ?d 22] (?w, ctl device_zero, ?s) = Some (w', c', s')"
    "\<forall>r len. 14 \<le> length r \<and> unat len = length r \<and> r ! 0 = WII_REPORT_TYPE_KEE \<longrightarrow> wii_report (\<lambda>_. Gap_Acl) True 0 r len (w', c', s') = None"
    using board_uncalibrated [OF w s d d, of "\<lambda>_. Gap_Acl" "ctl device_zero"] by blast
  have e: "replicate 2 (Wii_Report ?d 22) = [Wii_Report ?d 22, Wii_Report ?d 22]" by (simp only: numeral_2_eq_2 replicate.simps)
  have "wii_report (\<lambda>_. Gap_Acl) True 0 (0x34 # replicate 21 7) 22 (w', c', s') = None"
    by (rule r(2) [rule_format]) simp
  with r(1) show ?thesis unfolding e by blast
qed

end
