(* ===== verification/Keyboard_Mouse.thy ===== *)
theory Keyboard_Mouse
  imports Dualshock Machine_Float
begin

text \<open>
  uni_hid_parser_keyboard.c, with the JX-05 ring it also serves, and uni_hid_parser_mouse.c.  Both work on
  the fields of a report like the parsers of \<open>Usage_Parsers\<close>, but fill a keyboard or a mouse, which
  share the bytes of a controller with the gamepad: \<open>keyboard_view\<close> and \<open>mouse_view\<close> are these bytes
  read as a gamepad.  A store behind the array of pressed keys is undefined.
\<close>

section \<open>Usages\<close>

definition HID_USAGE_PAGE_DIGITIZER :: u16 where [simp]: "HID_USAGE_PAGE_DIGITIZER = 0x0d"
definition HID_USAGE_WHEEL :: u16 where [simp]: "HID_USAGE_WHEEL = 0x38"
definition HID_USAGE_TIP_SWITCH :: u16 where [simp]: "HID_USAGE_TIP_SWITCH = 0x42"
definition HID_USAGE_CONTACT_COUNT :: u16 where [simp]: "HID_USAGE_CONTACT_COUNT = 0x54"
definition HID_USAGE_POWER :: u16 where [simp]: "HID_USAGE_POWER = 0x30"
definition HID_USAGE_SCAN_NEXT_TRACK :: u16 where [simp]: "HID_USAGE_SCAN_NEXT_TRACK = 0xb5"
definition HID_USAGE_SCAN_PREVIOUS_TRACK :: u16 where [simp]: "HID_USAGE_SCAN_PREVIOUS_TRACK = 0xb6"
definition HID_USAGE_AC_SCROLL_UP :: u16 where [simp]: "HID_USAGE_AC_SCROLL_UP = 0x233"
definition HID_USAGE_AC_SCROLL_DOWN :: u16 where [simp]: "HID_USAGE_AC_SCROLL_DOWN = 0x234"
definition HID_USAGE_KB_SPACEBAR :: u16 where [simp]: "HID_USAGE_KB_SPACEBAR = 0x2c"
definition HID_USAGE_KB_PAUSE :: u16 where [simp]: "HID_USAGE_KB_PAUSE = 0x48"
definition HID_USAGE_KB_HOME :: u16 where [simp]: "HID_USAGE_KB_HOME = 0x4a"
definition HID_USAGE_KB_PAGE_UP :: u16 where [simp]: "HID_USAGE_KB_PAGE_UP = 0x4b"
definition HID_USAGE_KB_PAGE_DOWN :: u16 where [simp]: "HID_USAGE_KB_PAGE_DOWN = 0x4e"
definition HID_USAGE_KB_VOLUME_UP :: u16 where [simp]: "HID_USAGE_KB_VOLUME_UP = 0x80"
definition HID_USAGE_KB_VOLUME_DOWN :: u16 where [simp]: "HID_USAGE_KB_VOLUME_DOWN = 0x81"

section \<open>The keyboard\<close>

definition JX_05_VID :: u16 where [simp]: "JX_05_VID = 0x05ac"
definition JX_05_PID :: u16 where [simp]: "JX_05_PID = 0x022c"
definition UNI_KEYBOARD_PRESSED_KEYS_MAX :: nat where [simp]: "UNI_KEYBOARD_PRESSED_KEYS_MAX = 10"

record uni_keyboard =
  modifiers :: u8
  pressed_keys :: "u8 list"

record jx_05 =
  jx_x :: int
  jx_y :: int
  ready_to_process :: bool
  last_report :: bool
  is_down_or_button :: bool

record keyboard_instance =
  pressed_key_index :: nat
  using_jx_05 :: bool
  jx05 :: jx_05

definition keyboard_zero :: uni_keyboard where
  "keyboard_zero = \<lparr>modifiers = 0, pressed_keys = replicate UNI_KEYBOARD_PRESSED_KEYS_MAX 0\<rparr>"

definition jx_zero :: jx_05 where
  "jx_zero = \<lparr>jx_x = 0, jx_y = 0, ready_to_process = False, last_report = False, is_down_or_button = False\<rparr>"

definition keyboard_instance_zero :: keyboard_instance where
  "keyboard_instance_zero = \<lparr>pressed_key_index = 0, using_jx_05 = False, jx05 = jx_zero\<rparr>"

type_synonym kb_state = "keyboard_instance \<times> uni_keyboard"

text \<open>\<open>pressed_keys[idx] = key\<close>.\<close>

definition store_key :: "nat \<Rightarrow> u16 \<Rightarrow> uni_keyboard \<Rightarrow> uni_keyboard option" where
  "store_key idx key kb =
     (if idx < length (pressed_keys kb) then Some (kb\<lparr>pressed_keys := (pressed_keys kb)[idx := ucast key]\<rparr>) else None)"

section \<open>The JX-05 ring\<close>

text \<open>
  A movement of the ring arrives as a series of touches; the first touch tells which.  One that starts like
  the button is decided by the next touch.
\<close>

definition jx_settle :: "int \<Rightarrow> int \<Rightarrow> kb_state \<Rightarrow> (nat \<times> kb_state) option" where
  "jx_settle x y = (\<lambda>(ins, kb). let idx = pressed_key_index ins in
     if is_down_or_button (jx05 ins) then do {
       kb' \<leftarrow> store_key idx (if x = - 260 \<and> y = 145 then HID_USAGE_KB_SPACEBAR else HID_USAGE_KB_DOWN_ARROW) kb;
       Some (idx + 1, ins\<lparr>jx05 := (jx05 ins)\<lparr>is_down_or_button := False\<rparr>\<rparr>, kb')
     }
     else Some (idx, ins, kb))"

definition jx_done :: "nat \<Rightarrow> keyboard_instance \<Rightarrow> keyboard_instance" where
  "jx_done idx ins = ins\<lparr>pressed_key_index := idx, jx05 := (jx05 ins)\<lparr>ready_to_process := False\<rparr>\<rparr>"

definition jx_first :: "int \<Rightarrow> int \<Rightarrow> nat \<Rightarrow> kb_state \<Rightarrow> kb_state option" where
  "jx_first x y idx = (\<lambda>(ins, kb).
     if \<not> ready_to_process (jx05 ins) then Some (ins, kb)
     else if x = - 260 \<and> y = - 222 then
       map_option (Pair (jx_done (idx + 1) ins)) (store_key idx HID_USAGE_KB_UP_ARROW kb)
     else if x = - 260 \<and> y = 145 then
       Some (jx_done idx (ins\<lparr>jx05 := (jx05 ins)\<lparr>is_down_or_button := True\<rparr>\<rparr>), kb)
     else if x = - 387 \<and> y = 251 then
       map_option (Pair (jx_done (idx + 1) ins)) (store_key idx HID_USAGE_KB_LEFT_ARROW kb)
     else if x = - 48 \<and> y = 251 then
       map_option (Pair (jx_done (idx + 1) ins)) (store_key idx HID_USAGE_KB_RIGHT_ARROW kb)
     else Some (ins, kb))"

definition jx_05_parse_usage :: "hid_globals \<Rightarrow> u16 \<Rightarrow> u16 \<Rightarrow> u32 \<Rightarrow> kb_state \<Rightarrow> kb_state option" where
  "jx_05_parse_usage g page us v = (\<lambda>(ins, kb). let j = jx05 ins in
     if page = HID_USAGE_PAGE_GENERIC_DESKTOP then
       (if us = HID_USAGE_AXIS_X then
          map_option (\<lambda>x. (ins\<lparr>jx05 := j\<lparr>jx_x := x\<rparr>\<rparr>, kb)) (uni_hid_parser_process_axis g v)
        else if us = HID_USAGE_AXIS_Y then
          map_option (\<lambda>y. (ins\<lparr>jx05 := j\<lparr>jx_y := y\<rparr>\<rparr>, kb)) (uni_hid_parser_process_axis g v)
        else Some (ins, kb))
     else if page = HID_USAGE_PAGE_DIGITIZER then
       (if us = HID_USAGE_TIP_SWITCH then
          Some (ins\<lparr>jx05 := j\<lparr>ready_to_process := ready_to_process j \<or> v \<noteq> 0 \<and> last_report j, last_report := (v = 0)\<rparr>\<rparr>, kb)
        else if us = HID_USAGE_CONTACT_COUNT then do {
          (idx, s) \<leftarrow> jx_settle (jx_x j) (jx_y j) (ins, kb);
          jx_first (jx_x j) (jx_y j) idx s
        }
        else Some (ins, kb))
     else Some (ins, kb))"

section \<open>Reports of a keyboard\<close>

text \<open>The keys of the consumer page that have a place on a keyboard.\<close>

definition consumer_keys :: "(u16 \<times> u16) list" where
  "consumer_keys =
     [(HID_USAGE_POWER, HID_USAGE_KB_POWER), (HID_USAGE_VOLUME_UP, HID_USAGE_KB_VOLUME_UP),
      (HID_USAGE_VOLUME_DOWN, HID_USAGE_KB_VOLUME_DOWN), (HID_USAGE_AC_HOME, HID_USAGE_KB_HOME),
      (HID_USAGE_AC_SCROLL_UP, HID_USAGE_KB_PAGE_UP), (HID_USAGE_AC_SCROLL_DOWN, HID_USAGE_KB_PAGE_DOWN),
      (HID_USAGE_SCAN_NEXT_TRACK, HID_USAGE_KB_RIGHT_ARROW),
      (HID_USAGE_SCAN_PREVIOUS_TRACK, HID_USAGE_KB_LEFT_ARROW), (HID_USAGE_PLAY_PAUSE, HID_USAGE_KB_PAUSE)]"

definition keypad_usage :: "u16 \<Rightarrow> kb_state \<Rightarrow> kb_state option" where
  "keypad_usage us = (\<lambda>(ins, kb). let idx = pressed_key_index ins in
     if us < HID_USAGE_KB_LEFT_CONTROL then
       (if UNI_KEYBOARD_PRESSED_KEYS_MAX \<le> idx then Some (ins, kb)
        else map_option (Pair (ins\<lparr>pressed_key_index := idx + 1\<rparr>)) (store_key idx us kb))
     else if us \<le> HID_USAGE_KB_RIGHT_GUI then
       Some (ins, kb\<lparr>modifiers := modifiers kb OR push_bit (unat (us - HID_USAGE_KB_LEFT_CONTROL)) 1\<rparr>)
     else Some (ins, kb))"

definition consumer_usage :: "u16 \<Rightarrow> kb_state \<Rightarrow> kb_state option" where
  "consumer_usage us = (\<lambda>(ins, kb). let idx = pressed_key_index ins in
     (case map_of consumer_keys us of
        None \<Rightarrow> Some (ins, kb)
      | Some key \<Rightarrow> map_option (Pair (ins\<lparr>pressed_key_index := idx + 1\<rparr>)) (store_key idx key kb)))"

definition uni_hid_parser_keyboard_parse_usage :: "field \<Rightarrow> kb_state \<Rightarrow> kb_state option" where
  "uni_hid_parser_keyboard_parse_usage = (\<lambda>(g, page, us, v) s. do {
     s' \<leftarrow> (if using_jx_05 (fst s) then jx_05_parse_usage g page us v s else Some s);
     if page = HID_USAGE_PAGE_KEYBOARD_KEYPAD \<and> v \<noteq> 0 then keypad_usage us s'
     else if page = HID_USAGE_PAGE_CONSUMER \<and> v \<noteq> 0 then consumer_usage us s'
     else Some s'
   })"

definition uni_hid_parser_keyboard_init_report :: "kb_state \<Rightarrow> kb_state" where
  "uni_hid_parser_keyboard_init_report = (\<lambda>(ins, kb). (ins\<lparr>pressed_key_index := 0\<rparr>, keyboard_zero))"

text \<open>\<open>uni_hid_parse_input_report\<close>, with the fields the descriptor walk finds.\<close>

fun keyboard_fields :: "field list \<Rightarrow> kb_state \<Rightarrow> kb_state option" where
  "keyboard_fields [] s = Some s"
| "keyboard_fields (f # fs) s = Option.bind (uni_hid_parser_keyboard_parse_usage f s) (keyboard_fields fs)"

definition keyboard_report :: "field list \<Rightarrow> kb_state \<Rightarrow> kb_state option" where
  "keyboard_report fs s = keyboard_fields fs (uni_hid_parser_keyboard_init_report s)"

text \<open>
  The set-up tells the platform that the keyboard is ready before it prepares the parser's data; of a
  keyboard the platform refused the slot is cleared, its ids included.
\<close>

definition uni_hid_parser_keyboard_setup ::
  "(u16 \<Rightarrow> gap_type) \<Rightarrow> bool \<Rightarrow> nat \<Rightarrow> bt_world \<Rightarrow> (bt_world \<times> keyboard_instance) option" where
  "uni_hid_parser_keyboard_setup gap accept i w = do {
     (w', ok) \<leftarrow> uni_hid_device_set_ready_complete gap accept i w;
     let jx = (vendor_id (devs w' ! i) = JX_05_VID \<and> product_id (devs w' ! i) = JX_05_PID);
     Some (w', keyboard_instance_zero\<lparr>using_jx_05 := jx, jx05 := jx_zero\<lparr>ready_to_process := jx\<rparr>\<rparr>)
   }"

text \<open>The report written: the client id, the report id, the type and the data.\<close>

definition uni_hid_parser_keyboard_set_leds ::
  "(u16 \<Rightarrow> gap_type) \<Rightarrow> nat \<Rightarrow> u8 \<Rightarrow> bt_world \<Rightarrow> (u16 \<times> u8 \<times> u8 list) option" where
  "uni_hid_parser_keyboard_set_leds gap i leds w =
     (if gap (handle (conn (devs w ! i))) = Gap_Le then Some (hids_cid (devs w ! i), 1, [leds]) else None)"

definition le32_at :: "u8 list \<Rightarrow> int" where
  "le32_at b = sint (ucast (b ! 0) OR push_bit 8 (ucast (b ! 1)) OR push_bit 16 (ucast (b ! 2)) OR push_bit 24 (ucast (b ! 3)) :: u32)"

definition keyboard_view :: "uni_keyboard \<Rightarrow> uni_gamepad" where
  "keyboard_view kb = (let b = modifiers kb # pressed_keys kb @ replicate 16 0 in
     gamepad_zero\<lparr>dpad := b ! 0, axis_x := le32_at (drop 4 b), axis_y := le32_at (drop 8 b)\<rparr>)"

section \<open>Which reports of a keyboard are read\<close>

text \<open>The keys a report names, in order; the flag tells the keys of the consumer page.\<close>

definition field_key :: "field \<Rightarrow> (bool \<times> u16) option" where
  "field_key = (\<lambda>(g, page, us, v).
     if v = 0 then None
     else if page = HID_USAGE_PAGE_KEYBOARD_KEYPAD then (if us < HID_USAGE_KB_LEFT_CONTROL then Some (False, us) else None)
     else if page = HID_USAGE_PAGE_CONSUMER then map_option (Pair True) (map_of consumer_keys us)
     else None)"

definition keys_of :: "field list \<Rightarrow> (bool \<times> u16) list" where
  "keys_of = List.map_filter field_key"

definition field_modifier :: "field \<Rightarrow> u8" where
  "field_modifier = (\<lambda>(g, page, us, v).
     if v \<noteq> 0 \<and> page = HID_USAGE_PAGE_KEYBOARD_KEYPAD \<and> HID_USAGE_KB_LEFT_CONTROL \<le> us \<and> us \<le> HID_USAGE_KB_RIGHT_GUI
     then push_bit (unat (us - HID_USAGE_KB_LEFT_CONTROL)) 1 else 0)"

definition modifiers_of :: "field list \<Rightarrow> u8" where
  "modifiers_of fs = fold (\<lambda>f m. m OR field_modifier f) fs 0"

text \<open>A consumer key that comes after ten others.\<close>

definition overrun :: "(bool \<times> u16) list \<Rightarrow> bool" where
  "overrun ks \<longleftrightarrow> (\<exists>k \<in> set (drop UNI_KEYBOARD_PRESSED_KEYS_MAX ks). fst k)"

definition keys_shown :: "(bool \<times> u16) list \<Rightarrow> u8 list" where
  "keys_shown ks = take UNI_KEYBOARD_PRESSED_KEYS_MAX (map (ucast \<circ> snd) ks @ replicate UNI_KEYBOARD_PRESSED_KEYS_MAX 0)"

text \<open>The parser after fields that name the keys \<open>ks\<close>.\<close>

definition kb_after :: "keyboard_instance \<Rightarrow> (bool \<times> u16) list \<Rightarrow> u8 \<Rightarrow> kb_state" where
  "kb_after ins ks m = (ins\<lparr>pressed_key_index := min UNI_KEYBOARD_PRESSED_KEYS_MAX (length ks)\<rparr>,
     \<lparr>modifiers = m, pressed_keys = keys_shown ks\<rparr>)"

lemma keys_shown_length [simp]: "length (keys_shown ks) = 10"
  by (simp add: keys_shown_def)

lemma keys_shown_full: "10 \<le> length ks \<Longrightarrow> keys_shown (ks @ [k]) = keys_shown ks"
  by (simp add: keys_shown_def)

lemma keys_shown_snoc: "length ks < 10 \<Longrightarrow> keys_shown (ks @ [k]) = (keys_shown ks)[length ks := ucast (snd k)]"
  by (intro nth_equalityI) (auto simp: keys_shown_def nth_append nth_list_update)

lemma overrun_simps [simp]: "\<not> overrun []"
  "overrun (ks @ [k]) \<longleftrightarrow> overrun ks \<or> 10 \<le> length ks \<and> fst k"
  by (cases "10 \<le> length ks"; auto simp: overrun_def)+

lemma overrun_append: "overrun ks \<Longrightarrow> overrun (ks @ ls)"
  by (auto simp: overrun_def)

lemma keys_of_simps [simp]: "keys_of [] = []"
  "keys_of (f # fs) = (case field_key f of None \<Rightarrow> keys_of fs | Some k \<Rightarrow> k # keys_of fs)"
  by (simp_all add: keys_of_def List.map_filter_simps split: option.splits)

text \<open>One field.\<close>

lemma keyboard_field:
  assumes "\<not> using_jx_05 ins"
  shows "uni_hid_parser_keyboard_parse_usage f (kb_after ins ks m) =
    (case field_key f of None \<Rightarrow> Some (kb_after ins ks (m OR field_modifier f))
     | Some k \<Rightarrow> if 10 \<le> length ks \<and> fst k then None else Some (kb_after ins (ks @ [k]) (m OR field_modifier f)))"
proof -
  obtain g page us v where f: "f = (g, page, us, v)" by (cases f) auto
  show ?thesis
    using assms
    by (cases "length ks < 10")
      (auto simp: f uni_hid_parser_keyboard_parse_usage_def kb_after_def field_key_def field_modifier_def keypad_usage_def
        consumer_usage_def store_key_def keys_shown_snoc keys_shown_full Let_def not_less min_def split: option.splits)
qed

lemma keyboard_fields_exact:
  assumes "\<not> using_jx_05 ins" "\<not> overrun ks"
  shows "keyboard_fields fs (kb_after ins ks m) =
    (if overrun (ks @ keys_of fs) then None
     else Some (kb_after ins (ks @ keys_of fs) (fold (\<lambda>f m. m OR field_modifier f) fs m)))"
  using assms(2)
proof (induction fs arbitrary: ks m)
  case (Cons f fs)
  show ?case
  proof (cases "field_key f")
    case None
    then show ?thesis using Cons keyboard_field [OF assms(1), of f ks m] by simp
  next
    case (Some k)
    have o: "overrun (ks @ k # keys_of fs)" if "10 \<le> length ks \<and> fst k"
      using overrun_append [of "ks @ [k]" "keys_of fs"] that by simp
    show ?thesis
      using Some Cons.IH [of "ks @ [k]"] Cons.prems keyboard_field [OF assms(1), of f ks m] o by auto
  qed
qed simp

lemma keys_of_replicate: "field_key f = Some k \<Longrightarrow> keys_of (replicate n f) = replicate n k"
  by (induction n) simp_all

lemma no_modifiers: "field_modifier f = 0 \<Longrightarrow> modifiers_of (replicate n f) = 0"
  unfolding modifiers_of_def by (induction n) simp_all

text \<open>
  C31: What a keyboard report does, JX-05 aside.  The parser has a meaning exactly if no key of the consumer
  page comes after ten other keys: such a key is stored behind the array.  Otherwise the first ten keys
  named are shown in order, whatever was held before, and the modifiers are exactly those named.
\<close>

theorem keyboard_exact:
  assumes "\<not> using_jx_05 ins"
  shows "keyboard_report fs (ins, kb) =
    (if overrun (keys_of fs) then None else Some (kb_after ins (keys_of fs) (modifiers_of fs)))"
proof -
  have "uni_hid_parser_keyboard_init_report (ins, kb) = kb_after ins [] 0"
    by (simp add: uni_hid_parser_keyboard_init_report_def kb_after_def keyboard_zero_def keys_shown_def)
  then show ?thesis
    using keyboard_fields_exact [OF assms, of "[]" fs 0] by (simp add: keyboard_report_def modifiers_of_def)
qed

theorem keyboard_exact_witness:
  "keyboard_report (replicate 11 (byte_axis, 0x0c, 0xe9, 1)) (keyboard_instance_zero, keyboard_zero) = None \<and>
   keyboard_report (replicate 11 (byte_axis, 0x07, 4, 1)) (keyboard_instance_zero, keyboard_zero) =
     Some (keyboard_instance_zero\<lparr>pressed_key_index := 10\<rparr>, \<lparr>modifiers = 0, pressed_keys = replicate 10 4\<rparr>)"
proof -
  let ?c = "(byte_axis, 0x0c, 0xe9, 1) :: field" and ?k = "(byte_axis, 0x07, 4, 1) :: field"
  have z: "\<not> using_jx_05 keyboard_instance_zero" by (simp add: keyboard_instance_zero_def)
  have c: "keys_of (replicate 11 ?c) = replicate 11 (True, 0x80)"
    by (rule keys_of_replicate) (simp add: field_key_def consumer_keys_def)
  have k: "keys_of (replicate 11 ?k) = replicate 11 (False, 4)" "modifiers_of (replicate 11 ?k) = 0"
    by (rule keys_of_replicate, simp add: field_key_def) (rule no_modifiers, simp add: field_modifier_def)
  have "overrun (replicate 11 (True, 0x80))" "\<not> overrun (replicate 11 (False, 4))"
    "keys_shown (replicate 11 (False, 4)) = replicate 10 4"
    by (simp_all add: overrun_def keys_shown_def)
  then show ?thesis
    using keyboard_exact [OF z, of "replicate 11 ?c" keyboard_zero] keyboard_exact [OF z, of "replicate 11 ?k" keyboard_zero]
    by (simp add: c k kb_after_def)
qed

section \<open>The movements of the ring\<close>

text \<open>A touch: the raw coordinates and the tip switch, and the fields of its report, the contact count last.\<close>

type_synonym touch = "u32 \<times> u32 \<times> bool"

definition touch_fields :: "hid_globals \<Rightarrow> touch \<Rightarrow> field list" where
  "touch_fields g = (\<lambda>(vx, vy, tip).
     [(g, HID_USAGE_PAGE_DIGITIZER, HID_USAGE_TIP_SWITCH, if tip then 1 else 0),
      (g, HID_USAGE_PAGE_GENERIC_DESKTOP, HID_USAGE_AXIS_X, vx), (g, HID_USAGE_PAGE_GENERIC_DESKTOP, HID_USAGE_AXIS_Y, vy),
      (g, HID_USAGE_PAGE_DIGITIZER, HID_USAGE_CONTACT_COUNT, 1)])"

definition touch_at :: "hid_globals \<Rightarrow> touch \<Rightarrow> (int \<times> int) option" where
  "touch_at g = (\<lambda>(vx, vy, tip). do {
     x \<leftarrow> uni_hid_parser_process_axis g vx;
     y \<leftarrow> uni_hid_parser_process_axis g vy;
     Some (x, y)
   })"

text \<open>The keys shown for each of a series of touches, and the state of the parser after them.\<close>

fun touch_run :: "hid_globals \<Rightarrow> touch list \<Rightarrow> kb_state \<Rightarrow> (u8 list list \<times> kb_state) option" where
  "touch_run g [] s = Some ([], s)"
| "touch_run g (t # ts) s = do {
     s1 \<leftarrow> keyboard_report (touch_fields g t) s;
     (kss, s2) \<leftarrow> touch_run g ts s1;
     Some (filter (\<lambda>k. k \<noteq> 0) (pressed_keys (snd s1)) # kss, s2)
   }"

text \<open>The key a movement stands for, by its first two touches; the source documents them.\<close>

definition movement_key :: "int \<times> int \<Rightarrow> int \<times> int \<Rightarrow> u8 option" where
  "movement_key a b =
     (if a = (- 260, - 222) then Some 0x52
      else if a = (- 260, 145) then Some (if b = (- 260, 145) then 0x2c else 0x51)
      else if a = (- 387, 251) then Some 0x50
      else if a = (- 48, 251) then Some 0x4f
      else None)"

text \<open>Between two movements.\<close>

definition ring_rests :: "kb_state \<Rightarrow> bool" where
  "ring_rests s \<longleftrightarrow> using_jx_05 (fst s) \<and> \<not> is_down_or_button (jx05 (fst s)) \<and>
     (ready_to_process (jx05 (fst s)) \<or> last_report (jx05 (fst s)))"

definition ring_busy :: "bool \<Rightarrow> kb_state \<Rightarrow> bool" where
  "ring_busy down s \<longleftrightarrow> using_jx_05 (fst s) \<and> is_down_or_button (jx05 (fst s)) = down \<and>
     \<not> ready_to_process (jx05 (fst s)) \<and> \<not> last_report (jx05 (fst s))"

text \<open>A touch settles the last one, and may be the first of a movement.\<close>

definition touched :: "int \<Rightarrow> int \<Rightarrow> bool \<Rightarrow> keyboard_instance \<Rightarrow> keyboard_instance" where
  "touched x y tip ins = (let j = jx05 ins in ins\<lparr>pressed_key_index := 0, jx05 := \<lparr>jx_x = x, jx_y = y,
     ready_to_process = ready_to_process j \<or> tip \<and> last_report j, last_report = \<not> tip, is_down_or_button = is_down_or_button j\<rparr>\<rparr>)"

lemma keyboard_fields_Nil: "keyboard_fields [] = Some"
  by (rule ext) simp

lemma touch_report:
  assumes "using_jx_05 ins" "touch_at g (vx, vy, tip) = Some (x, y)"
  shows "keyboard_report (touch_fields g (vx, vy, tip)) (ins, kb) =
    Option.bind (jx_settle x y (touched x y tip ins, keyboard_zero)) (\<lambda>(idx, s). jx_first x y idx s)"
proof -
  have p: "uni_hid_parser_process_axis g vx = Some x" "uni_hid_parser_process_axis g vy = Some y"
    using assms(2) by (auto simp: touch_at_def bind_eq_Some_conv)
  show ?thesis
    using assms(1) p
    by (cases "jx05 ins") (auto simp: keyboard_report_def touch_fields_def uni_hid_parser_keyboard_init_report_def
        uni_hid_parser_keyboard_parse_usage_def jx_05_parse_usage_def touched_def Let_def keyboard_fields_Nil split_def)
qed

lemma store_first: "store_key 0 k keyboard_zero = Some \<lparr>modifiers = 0, pressed_keys = ucast k # replicate 9 0\<rparr>"
  by (simp add: store_key_def keyboard_zero_def numeral_eq_Suc)

lemmas touch_defs = jx_settle_def jx_first_def jx_done_def touched_def store_first ring_rests_def ring_busy_def Let_def

lemma no_keys: "filter (\<lambda>k. k \<noteq> 0) (pressed_keys keyboard_zero) = []"
  by (simp add: keyboard_zero_def)

lemma touch_first:
  assumes "ring_rests s" "touch_at g (vx, vy, True) = Some a" "movement_key a b = Some key"
  obtains s1 where "keyboard_report (touch_fields g (vx, vy, True)) s = Some s1" "ring_busy (a = (- 260, 145)) s1"
    "filter (\<lambda>k. k \<noteq> 0) (pressed_keys (snd s1)) = (if a = (- 260, 145) then [] else [key])"
proof -
  obtain ins kb where s: "s = (ins, kb)" by (cases s)
  obtain x y where a: "a = (x, y)" by (cases a)
  have u: "using_jx_05 ins" using assms(1) by (simp add: s ring_rests_def)
  note r = touch_report [OF u assms(2) [unfolded a], of kb]
  show ?thesis
    using assms(1,3) that [unfolded s r]
    by (auto simp: s a movement_key_def touch_defs no_keys split: if_splits)
qed

lemma touch_middle:
  assumes "ring_busy down s" "touch_at g (vx, vy, True) = Some a"
  obtains s1 where "keyboard_report (touch_fields g (vx, vy, True)) s = Some s1" "ring_busy False s1"
    "filter (\<lambda>k. k \<noteq> 0) (pressed_keys (snd s1)) = (if down then [if a = (- 260, 145) then 0x2c else 0x51] else [])"
proof -
  obtain ins kb where s: "s = (ins, kb)" by (cases s)
  obtain x y where a: "a = (x, y)" by (cases a)
  have u: "using_jx_05 ins" using assms(1) by (simp add: s ring_busy_def)
  note r = touch_report [OF u assms(2) [unfolded a], of kb]
  show ?thesis
    using assms(1) that [unfolded s r]
    by (cases down) (auto simp: s a touch_defs no_keys split: if_splits)
qed

lemma touch_last:
  assumes "ring_busy down s" "touch_at g (vx, vy, False) = Some a"
  obtains s1 where "keyboard_report (touch_fields g (vx, vy, False)) s = Some s1" "ring_rests s1"
    "filter (\<lambda>k. k \<noteq> 0) (pressed_keys (snd s1)) = (if down then [if a = (- 260, 145) then 0x2c else 0x51] else [])"
proof -
  obtain ins kb where s: "s = (ins, kb)" by (cases s)
  obtain x y where a: "a = (x, y)" by (cases a)
  have u: "using_jx_05 ins" using assms(1) by (simp add: s ring_busy_def)
  note r = touch_report [OF u assms(2) [unfolded a], of kb]
  show ?thesis
    using assms(1) that [unfolded s r]
    by (cases down) (auto simp: s a touch_defs no_keys split: if_splits)
qed

lemma touch_rest:
  assumes "ring_busy False s" "\<forall>t \<in> set ts. touch_at g t \<noteq> None \<and> snd (snd t)" "touch_at g e \<noteq> None" "\<not> snd (snd e)"
  shows "\<exists>kss s'. touch_run g (ts @ [e]) s = Some (kss, s') \<and> concat kss = [] \<and> ring_rests s'"
  using assms(1,2)
proof (induction ts arbitrary: s)
  case Nil
  obtain vx vy a where e: "e = (vx, vy, False)" "touch_at g (vx, vy, False) = Some a" using assms(3,4) by (cases e) auto
  obtain s1 where s1: "keyboard_report (touch_fields g (vx, vy, False)) s = Some s1" "ring_rests s1"
    "filter (\<lambda>k. k \<noteq> 0) (pressed_keys (snd s1)) = []"
    using touch_last [OF Nil(1) e(2)] by auto
  then show ?case by (simp add: e(1))
next
  case (Cons t ts)
  obtain vx vy a where t: "t = (vx, vy, True)" "touch_at g (vx, vy, True) = Some a" using Cons.prems(2) by (cases t) auto
  obtain s1 where s1: "keyboard_report (touch_fields g (vx, vy, True)) s = Some s1" "ring_busy False s1"
    "filter (\<lambda>k. k \<noteq> 0) (pressed_keys (snd s1)) = []"
    using touch_middle [OF Cons.prems(1) t(2)] by auto
  show ?case using Cons.IH [OF s1(2)] Cons.prems(2) by (auto simp: t s1(1,3))
qed

text \<open>
  Every movement of the JX-05 ring is shown as one key, once.  Of a series of touches that begins like a
  documented movement and ends with the tip switch up, whatever the touches between, the reports show
  exactly the key that stands for it: up, left and right at the first touch, down and the button, which begin alike, at
  the second.  After it the parser is ready for the next movement.
\<close>

theorem ring_movements:
  assumes "ring_rests s" "touch_at g (vx, vy, True) = Some a" "touch_at g (hd (ts @ [e])) = Some b" "movement_key a b = Some key"
    "\<forall>t \<in> set ts. touch_at g t \<noteq> None \<and> snd (snd t)" "touch_at g e \<noteq> None" "\<not> snd (snd e)"
  shows "\<exists>kss s'. touch_run g ((vx, vy, True) # ts @ [e]) s = Some (kss, s') \<and> concat kss = [key] \<and> ring_rests s'"
proof -
  obtain s1 where s1: "keyboard_report (touch_fields g (vx, vy, True)) s = Some s1" "ring_busy (a = (- 260, 145)) s1"
    "filter (\<lambda>k. k \<noteq> 0) (pressed_keys (snd s1)) = (if a = (- 260, 145) then [] else [key])"
    using touch_first [OF assms(1,2,4)] by blast
  have two: "\<exists>kss s'. touch_run g (ts @ [e]) s1 = Some (kss, s') \<and> concat kss = [key] \<and> ring_rests s'" if a: "a = (- 260, 145)"
  proof (cases ts)
    case Nil
    obtain wx wy where e: "e = (wx, wy, False)" using assms(7) by (cases e) auto
    obtain s2 where "keyboard_report (touch_fields g (wx, wy, False)) s1 = Some s2" "ring_rests s2"
      "filter (\<lambda>k. k \<noteq> 0) (pressed_keys (snd s2)) = [key]"
      using touch_last [OF s1(2), of g wx wy b] assms(3,4) by (auto simp: Nil e a movement_key_def split: if_splits)
    then show ?thesis by (simp add: Nil e)
  next
    case (Cons t us)
    obtain wx wy where t: "t = (wx, wy, True)" using assms(5) by (cases t) (auto simp: Cons)
    obtain s2 where s2: "keyboard_report (touch_fields g (wx, wy, True)) s1 = Some s2" "ring_busy False s2"
      "filter (\<lambda>k. k \<noteq> 0) (pressed_keys (snd s2)) = [key]"
      using touch_middle [OF s1(2), of g wx wy b] assms(3,4) by (auto simp: Cons t a movement_key_def split: if_splits)
    show ?thesis
      using touch_rest [OF s2(2) _ assms(6,7), of us] assms(5) by (auto simp: Cons t s2(1,3))
  qed
  show ?thesis
  proof (cases "a = (- 260, 145)")
    case True
    then show ?thesis using two s1 by auto
  next
    case False
    then show ?thesis using touch_rest [OF _ assms(5-7), of s1] s1 by auto
  qed
qed

theorem ring_movements_witness:
  "\<exists>kss s'. touch_run \<lparr>logical_minimum = 0, logical_maximum = 1023, usage_page = 1, report_size = 16, report_count = 1, report_id = 1\<rparr>
     [(252, 657, True), (252, 600, True), (252, 58, False)]
     (keyboard_instance_zero\<lparr>using_jx_05 := True, jx05 := jx_zero\<lparr>ready_to_process := True\<rparr>\<rparr>, keyboard_zero) = Some (kss, s') \<and>
     concat kss = [0x51]"
proof -
  let ?g = "\<lparr>logical_minimum = 0, logical_maximum = 1023, usage_page = 1, report_size = 16, report_count = 1, report_id = 1\<rparr>"
  have at: "touch_at ?g (252, 657, t) = Some (- 260, 145)" "touch_at ?g (252, 600, t) = Some (- 260, 88)"
    "touch_at ?g (252, 58, t) = Some (- 260, - 454)" for t
    by (simp_all add: touch_at_def uni_hid_parser_process_axis_def hid_range_def hid_max_def i32_def int32_ok_def c_div_def
        c_quot_def Let_def)
  let ?s = "(keyboard_instance_zero\<lparr>using_jx_05 := True, jx05 := jx_zero\<lparr>ready_to_process := True\<rparr>\<rparr>, keyboard_zero)"
  have r: "ring_rests ?s" by (simp add: ring_rests_def keyboard_instance_zero_def jx_zero_def)
  have h: "touch_at ?g (hd ([(252, 600, True)] @ [(252, 58, False)])) = Some (- 260, 88)"
    "movement_key (- 260, 145) (- 260, 88) = Some 0x51" "\<forall>t \<in> set [(252, 600, True)]. touch_at ?g t \<noteq> None \<and> snd (snd t)"
    "touch_at ?g (252, 58, False) \<noteq> None" "\<not> snd (snd (252 :: u32, 58 :: u32, False))"
    by (simp_all add: at movement_key_def)
  show ?thesis using ring_movements [OF r at(1) h] by (simp del: touch_run.simps) blast
qed

section \<open>The mouse\<close>

text \<open>The mouse of the theory \<open>Dualshock\<close>, with the wheel, and the battery of the controller.\<close>

record full_mouse = uni_mouse +
  scroll_wheel :: u8
  mouse_battery :: u8

definition full_mouse_zero :: full_mouse where
  "full_mouse_zero = \<lparr>delta_x = 0, delta_y = 0, ms_buttons = 0, scroll_wheel = 0, mouse_battery = 0\<rparr>"

text \<open>Vendor, product, name unless it does not matter, and scale, a \<open>double\<close> constant stored as a \<open>float\<close>.\<close>

definition resolutions :: "(u16 \<times> u16 \<times> string option \<times> rat) list" where
  "resolutions =
     [(0x05ac, 0x030d, None, 2 / 10), (0x05ac, 0x0269, None, 2 / 10), (0x004c, 0x0269, None, 2 / 10),
      (0x05ac, 0x030e, None, 47 / 100), (0x0a5c, 0x4503, Some ''BM30X mouse'', 3334 / 10000),
      (0x0a5c, 0x4503, Some ''Adesso Bluetooth 3.0 Mouse'', 5 / 10), (0x0a5c, 0x0001, Some ''BORND Bluetooth Mouse'', 6667 / 10000),
      (0x046d, 0xb016, Some ''Bluetooth Mouse M336/M337/M535'', 3334 / 10000),
      (0x046d, 0xb007, Some ''Logitech MX Revolution Mouse'', 3334 / 10000), (0xae24, 0x8618, Some ''BT3.0 Mouse'', 2 / 10),
      (0xae24, 0x8618, Some ''BM20X-3.0'', 2 / 10), (0x03f0, 0x084c, Some ''HP Bluetooth Mouse Z5000'', 5 / 10),
      (0x046d, 0xb016, Some ''ID0078A'', 3334 / 10000), (0x248a, 0x8266, None, 75 / 100)]"

definition scale_constant :: "rat \<Rightarrow> fp" where
  "scale_constant q = fconvert binary32 (fround binary64 False q)"

definition mouse_scale :: "u16 \<Rightarrow> u16 \<Rightarrow> string \<Rightarrow> fp" where
  "mouse_scale vid pid name =
     (case find (\<lambda>(v, p, n, _). v = vid \<and> p = pid \<and> (n = None \<or> n = Some name)) resolutions of
        None \<Rightarrow> f32_of_int 1
      | Some (_, _, _, q) \<Rightarrow> scale_constant q)"

definition uni_hid_parser_mouse_setup ::
  "(u16 \<Rightarrow> gap_type) \<Rightarrow> bool \<Rightarrow> nat \<Rightarrow> bt_world \<Rightarrow> (bt_world \<times> fp) option" where
  "uni_hid_parser_mouse_setup gap accept i w =
     (let d = devs w ! i; scale = mouse_scale (vendor_id d) (product_id d) (dev_name d) in do {
        (w', ok) \<leftarrow> uni_hid_device_set_ready_complete gap accept i w;
        Some (w', if free_slot (devs w' ! i) then 0 else scale)
      })"

text \<open>\<open>roundf\<close>: to the nearest integer, halves away from zero.\<close>

fun roundf :: "fp \<Rightarrow> fp" where
  "roundf (FFin s m) = FFin s (of_int \<lfloor>m + 1 / 2\<rfloor>)"
| "roundf a = a"

definition process_mouse_delta :: "fp \<Rightarrow> int \<Rightarrow> int option" where
  "process_mouse_delta scale v =
     (if v = 0 then Some 0
      else do {
        let ret = f32_of_int v * scale;
        let ret = (if ret < f32_of_int (- 127) then f32_of_int (- 127) else ret);
        let ret = (if f32_of_int 127 < ret then f32_of_int 127 else ret);
        r \<leftarrow> Option.bind (trunc_int (roundf ret)) i32;
        Some (if r = 0 then (if v < 0 then - 1 else 1) else r)
      })"

text \<open>The buttons 9 to 16 and the usages ignored by name change nothing, like those only logged.\<close>

definition mouse_button :: "u16 \<Rightarrow> u16" where
  "mouse_button us = (if 1 \<le> us \<and> us \<le> 8 then push_bit (unat (us - 1)) 1 else 0)"

definition uni_hid_parser_mouse_parse_usage :: "fp \<Rightarrow> field \<Rightarrow> full_mouse \<Rightarrow> full_mouse option" where
  "uni_hid_parser_mouse_parse_usage scale = (\<lambda>(g, page, us, v) m.
     if page = HID_USAGE_PAGE_GENERIC_DESKTOP then
       (if us = HID_USAGE_AXIS_X then map_option (\<lambda>x. m\<lparr>delta_x := x\<rparr>) (process_mouse_delta scale (sint v))
        else if us = HID_USAGE_AXIS_Y then map_option (\<lambda>y. m\<lparr>delta_y := y\<rparr>) (process_mouse_delta scale (sint v))
        else if us = HID_USAGE_WHEEL then Some (m\<lparr>scroll_wheel := ucast v\<rparr>)
        else Some m)
     else if page = HID_USAGE_PAGE_BUTTON then
       Some (if v \<noteq> 0 then m\<lparr>ms_buttons := ms_buttons m OR mouse_button us\<rparr> else m)
     else if page = HID_USAGE_PAGE_GENERIC_DEVICE_CONTROLS \<and> us = HID_USAGE_BATTERY_STRENGTH then
       Some (m\<lparr>mouse_battery := ucast v\<rparr>)
     else Some m)"

fun mouse_fields :: "fp \<Rightarrow> field list \<Rightarrow> full_mouse \<Rightarrow> full_mouse option" where
  "mouse_fields scale [] m = Some m"
| "mouse_fields scale (f # fs) m = Option.bind (uni_hid_parser_mouse_parse_usage scale f m) (mouse_fields scale fs)"

definition mouse_report :: "fp \<Rightarrow> field list \<Rightarrow> full_mouse option" where
  "mouse_report scale fs = mouse_fields scale fs full_mouse_zero"

text \<open>The bytes of a mouse, read as a gamepad.  The misc buttons of a mouse are never set.\<close>

definition mouse_view :: "full_mouse \<Rightarrow> uni_gamepad" where
  "mouse_view m = gamepad_zero\<lparr>dpad := word_of_int (delta_x m), axis_x := delta_y m,
     axis_y := sint (ucast (ms_buttons m) OR push_bit 16 (ucast (scroll_wheel m)) :: u32)\<rparr>"

section \<open>What a movement of the mouse becomes\<close>

text \<open>The value in terms of rationals, with the two roundings of binary32.\<close>

definition scaled_delta :: "rat \<Rightarrow> int \<Rightarrow> rat" where
  "scaled_delta q v = round_val binary32 (round_val binary32 (of_int v) * q)"

definition nearest :: "rat \<Rightarrow> int" where
  "nearest x = (if x < 0 then - \<lfloor>- x + 1 / 2\<rfloor> else \<lfloor>x + 1 / 2\<rfloor>)"

definition mouse_step :: "rat \<Rightarrow> int \<Rightarrow> int" where
  "mouse_step q v = (let r = nearest (max (- 127) (min 127 (scaled_delta q v))) in if r = 0 then sgn v else r)"

lemma floor_half: "\<lfloor>1 / 2 :: rat\<rfloor> = 0" "\<lfloor>255 / 2 :: rat\<rfloor> = 127"
  by (simp_all add: floor_eq_iff)

lemma nearest_minus [simp]: "nearest (- x) = - nearest x"
  by (auto simp: nearest_def floor_half)

lemma nearest_nonneg: "0 \<le> x \<Longrightarrow> 0 \<le> nearest x"
  by (simp add: nearest_def)

lemma nearest_mono:
  assumes "x \<le> y"
  shows "nearest x \<le> nearest y"
proof (cases "0 \<le> x \<or> y < 0")
  case True
  then show ?thesis using assms by (auto simp: nearest_def intro!: floor_mono)
next
  case False
  then show ?thesis using nearest_nonneg [of "- x"] nearest_nonneg [of y] by simp
qed

lemma nearest_127: "nearest 127 = 127"
  by (simp add: nearest_def floor_half)

lemma mouse_step_odd: "mouse_step q (- v) = - mouse_step q v"
proof -
  have "max (- 127) (min 127 (- x)) = - max (- 127) (min 127 x)" for x :: rat by (auto simp: max_def min_def)
  then show ?thesis by (simp add: mouse_step_def scaled_delta_def Let_def)
qed

lemma scaled_mono: "0 < q \<Longrightarrow> v \<le> v' \<Longrightarrow> scaled_delta q v \<le> scaled_delta q v'"
  by (simp add: scaled_delta_def round_val_mono mult_right_mono)

lemma scaled_sign: "0 < q \<Longrightarrow> 0 \<le> v \<Longrightarrow> 0 \<le> scaled_delta q v" "0 < q \<Longrightarrow> v \<le> 0 \<Longrightarrow> scaled_delta q v \<le> 0"
  using scaled_mono [of q 0 v] scaled_mono [of q v 0] by (simp_all add: scaled_delta_def)

lemma mouse_step_nonneg:
  assumes "0 < q" "0 < v"
  shows "1 \<le> mouse_step q v \<and> mouse_step q v \<le> 127"
proof -
  let ?x = "max (- 127) (min 127 (scaled_delta q v))"
  have "0 \<le> ?x" "?x \<le> 127" using scaled_sign(1) [OF assms(1), of v] assms(2) by auto
  then have "0 \<le> nearest ?x" "nearest ?x \<le> 127" using nearest_nonneg nearest_mono [of ?x 127] by (simp_all add: nearest_127)
  then show ?thesis using assms(2) by (auto simp: mouse_step_def Let_def)
qed

lemma mouse_step_sgn:
  assumes "0 < q"
  shows "sgn (mouse_step q v) = sgn v \<and> \<bar>mouse_step q v\<bar> \<le> 127"
proof (cases "0 < v")
  case True
  then show ?thesis using mouse_step_nonneg [OF assms True] by simp
next
  case False
  show ?thesis
  proof (cases "v = 0")
    case True
    then show ?thesis by (simp add: mouse_step_def scaled_delta_def nearest_def floor_half)
  next
    case v: False
    then show ?thesis using mouse_step_nonneg [OF assms, of "- v"] False by (auto simp: mouse_step_odd)
  qed
qed

lemma mouse_step_mono_pos:
  assumes "0 < q" "0 < v" "v \<le> v'"
  shows "mouse_step q v \<le> mouse_step q v'"
proof -
  have "nearest (max (- 127) (min 127 (scaled_delta q v))) \<le> nearest (max (- 127) (min 127 (scaled_delta q v')))"
    by (rule nearest_mono) (use scaled_mono [OF assms(1,3)] in auto)
  then show ?thesis
    using mouse_step_nonneg [OF assms(1,2)] mouse_step_nonneg [OF assms(1), of v'] assms(2,3)
    by (auto simp: mouse_step_def Let_def split: if_splits)
qed

lemma mouse_step_mono:
  assumes "0 < q" "v \<le> v'"
  shows "mouse_step q v \<le> mouse_step q v'"
proof -
  consider "0 < v" | "v' < 0" | "v \<le> 0" "0 \<le> v'" using assms(2) by linarith
  then show ?thesis
  proof cases
    case 1
    then show ?thesis using mouse_step_mono_pos assms by simp
  next
    case 2
    then show ?thesis using mouse_step_mono_pos [of q "- v'" "- v"] assms by (simp add: mouse_step_odd)
  next
    case 3
    then show ?thesis using mouse_step_sgn [OF assms(1), of v] mouse_step_sgn [OF assms(1), of v'] by (auto simp: sgn_if split: if_splits)
  qed
qed

lemma fits_eighth: "fits binary32 (1 / 8)" "fits binary64 (1 / 8)" "fits binary32 1" "fits binary64 1"
proof -
  show "fits binary32 (1 / 8)" "fits binary32 1" using fits32_dyadic [of "1 / 8" 1 3] fits32_int [of 1] by simp_all
  show "fits binary64 (1 / 8)" unfolding fits_def representable_def
    by (intro conjI exI [of _ 1] exI [of _ "- 3"]) (auto simp: binary64_def power_int_minus intro: less_le_trans [of _ 1])
  show "fits binary64 1" unfolding fits_def representable_def
    by (intro conjI exI [of _ 1] exI [of _ 0]) (auto simp: binary64_def)
qed

text \<open>The scales are floats in (0, 1].\<close>

definition scale_ok :: "fp \<Rightarrow> bool" where
  "scale_ok s \<longleftrightarrow> is_finite s \<and> 0 < fvalue s \<and> fvalue s \<le> 1"

lemma scale_constant_ok:
  assumes "1 / 8 \<le> q" "q \<le> 1"
  shows "scale_ok (scale_constant q)"
proof -
  have p: "1 \<le> fprec binary64" "femax binary64 = 1024" by (simp_all add: binary64_def)
  let ?r = "round_val binary64 q"
  have r: "1 / 8 \<le> ?r" "?r \<le> 1"
    using round_val_lower [OF p(1) fits_eighth(2) assms(1)] round_val_upper [OF p(1) fits_eighth(4) assms(2)] by simp_all
  have "(1 :: rat) < 2 powi 1024" by simp
  then have f: "is_finite (fround binary64 False q)" using r unfolding is_finite_fround p(2) by linarith
  then obtain s m where s: "fround binary64 False q = FFin s m" by (cases "fround binary64 False q") auto
  then have v: "fvalue (FFin s m) = ?r" using fvalue_fround [of binary64 False q] f by simp
  have m: "moderate ?r" using r by (auto simp: moderate_def)
  have "1 / 8 \<le> round_val binary32 ?r" "round_val binary32 ?r \<le> 1"
    using round_val_lower [OF _ fits_eighth(1) r(1)] round_val_upper [OF _ fits_eighth(3) r(2)] by simp_all
  then show ?thesis
    using fround32_moderate(1,2) [OF m] v by (simp add: scale_ok_def scale_constant_def s)
qed

lemma mouse_scale_ok: "scale_ok (mouse_scale vid pid name)"
proof (cases "find (\<lambda>(v, p, n, _). v = vid \<and> p = pid \<and> (n = None \<or> n = Some name)) resolutions")
  case None
  then show ?thesis using f32_of_int_exact [of 1] by (simp add: mouse_scale_def scale_ok_def)
next
  case (Some e)
  have "\<forall>(v, p, n, q) \<in> set resolutions. 1 / 8 \<le> q \<and> q \<le> 1" by (simp add: resolutions_def)
  moreover have "e \<in> set resolutions" using Some unfolding find_Some_iff by (metis nth_mem)
  ultimately show ?thesis using Some scale_constant_ok by (cases e) (auto simp: mouse_scale_def)
qed

lemma trunc_roundf:
  assumes "is_finite a" "fp_wf a"
  shows "trunc_int (roundf a) = Some (nearest (fvalue a))"
  using assms
  by (cases a) (auto simp: nearest_def Let_def floor_half add.commute)

lemma delta_value:
  assumes "scale_ok s" "fp_wf s" "\<bar>v\<bar> \<le> 2 ^ 31"
  shows "process_mouse_delta s v = Some (mouse_step (fvalue s) v)"
proof -
  have "\<bar>of_int v :: rat\<bar> \<le> of_int (2 ^ 31)" using assms(3) by (metis of_int_abs of_int_le_iff)
  then have "\<bar>of_int v :: rat\<bar> \<le> 2 ^ 31" by simp
  note r = round_val_within [OF this]
  have i: "is_finite (f32_of_int v)" "fvalue (f32_of_int v) = round_val binary32 (of_int v)"
    "\<bar>fvalue (f32_of_int v)\<bar> \<le> 2 ^ 31"
    using fround32_moderate [OF r(1)] r(2) by (simp_all add: f32_of_int_def)
  have "\<bar>fvalue (f32_of_int v) * fvalue s\<bar> \<le> 2 ^ 31 * 1"
    unfolding abs_mult using assms(1) i(3) by (intro mult_mono) (auto simp: scale_ok_def)
  then have m: "moderate (fvalue (f32_of_int v) * fvalue s)" by (simp add: moderate_def)
  let ?p = "f32_of_int v * s"
  have p: "is_finite ?p" "fvalue ?p = scaled_delta (fvalue s) v"
    using fin_mult [OF i(1) _ m] assms(1) by (simp_all add: scale_ok_def scaled_delta_def i(2))
  note c = f32_of_int_exact [of 127] f32_of_int_exact [of "- 127"]
  define a where "a = (if ?p < f32_of_int (- 127) then f32_of_int (- 127) else ?p)"
  define b where "b = (if f32_of_int 127 < a then f32_of_int 127 else a)"
  have w: "is_finite b" "fp_wf b" "fvalue b = max (- 127) (min 127 (scaled_delta (fvalue s) v))"
    using p c assms(2) by (auto simp: b_def a_def fin_less)
  have "\<bar>nearest (fvalue b)\<bar> \<le> 127"
    using nearest_mono [of "fvalue b" 127] nearest_mono [of "- 127" "fvalue b"] nearest_minus [of 127] by (simp add: w(3) nearest_127)
  then have "int32_ok (nearest (fvalue b))" unfolding int32_ok_def by (simp add: abs_le_iff)
  then have "Option.bind (trunc_int (roundf b)) i32 = Some (nearest (fvalue b))"
    by (simp add: trunc_roundf [OF w(1,2)] i32_def)
  moreover have "process_mouse_delta s v = Option.bind (Option.bind (trunc_int (roundf b)) i32)
      (\<lambda>r. Some (if r = 0 then (if v < 0 then - 1 else 1) else r))" if "v \<noteq> 0"
    using that by (simp only: process_mouse_delta_def Let_def a_def b_def if_False)
  moreover have "process_mouse_delta s 0 = Some (mouse_step (fvalue s) 0)"
    using mouse_step_sgn [of "fvalue s" 0] assms(1) by (simp add: process_mouse_delta_def scale_ok_def sgn_eq_0_iff)
  ultimately show ?thesis
    by (cases "v = 0") (simp_all add: mouse_step_def Let_def w(3) sgn_if)
qed

lemma scale_constant_wf: "fp_wf (mouse_scale vid pid name)"
  by (auto simp: mouse_scale_def scale_constant_def split: option.splits) (metis fconvert.elims fp_wf.simps(2,3) fp_wf_fround fround_def)

text \<open>
  What the parser makes of a movement, for every mouse of its table and every reported value.  The
  computation in binary32 has a meaning, the result is between -127 and 127, has the sign of the
  movement, so that no movement is lost however the mouse is scaled, is odd, and never decreases when the reported value grows.
\<close>

theorem mouse_movement:
  assumes "v \<le> v'" "\<bar>v\<bar> \<le> 2 ^ 31" "\<bar>v'\<bar> \<le> 2 ^ 31"
  shows "\<exists>d d'. process_mouse_delta (mouse_scale vid pid name) v = Some d \<and> process_mouse_delta (mouse_scale vid pid name) v' = Some d' \<and>
    process_mouse_delta (mouse_scale vid pid name) (- v) = Some (- d) \<and> d \<le> d' \<and> sgn d = sgn v \<and> \<bar>d\<bar> \<le> 127"
proof -
  let ?s = "mouse_scale vid pid name"
  have q: "0 < fvalue ?s" using mouse_scale_ok [of vid pid name] by (simp add: scale_ok_def)
  note d = delta_value [OF mouse_scale_ok scale_constant_wf]
  show ?thesis
    using d [OF assms(2), of vid pid name] d [OF assms(3), of vid pid name] d [of "- v" vid pid name] assms(1,2)
      mouse_step_mono [OF q] mouse_step_sgn [OF q] mouse_step_odd
    by auto
qed

theorem mouse_movement_witness:
  "\<exists>d. process_mouse_delta (mouse_scale 0x05ac 0x030d []) 1 = Some d \<and> 1 \<le> d"
  using mouse_movement [of 1 1 "0x05ac" "0x030d" "[]"] by (auto simp: sgn_if split: if_splits)

end
