(* ===== verification/Kept_Pads.thy ===== *)
theory Kept_Pads
  imports Dualshock
begin

text \<open>
  Two drivers that keep their controller from report to report, where the others start each from zero.
  uni_hid_parser_icade.c serves cabinets that present themselves as keyboards, with a key for every
  switch being pressed and another for its release; its gamepad is read here as the set of switches held.
  uni_hid_parser_steam.c prepares a Steam controller in a conversation over GATT, whose state is
  static and not one of the device, and reads reports that hold some sections of the state only.

  Because the device table stores the remapped gamepad back, what these drivers keep is remapped again
  with every report (\<open>kept_buttons_flip\<close>).
\<close>

section \<open>The keys of an iCade\<close>

definition HID_USAGE_KB_A :: u16 where [simp]: "HID_USAGE_KB_A = 0x04"
definition HID_USAGE_KB_L :: u16 where [simp]: "HID_USAGE_KB_L = 0x0f"
definition HID_USAGE_KB_P :: u16 where [simp]: "HID_USAGE_KB_P = 0x13"
definition HID_USAGE_KB_Q :: u16 where [simp]: "HID_USAGE_KB_Q = 0x14"
definition HID_USAGE_KB_R :: u16 where [simp]: "HID_USAGE_KB_R = 0x15"
definition HID_USAGE_KB_T :: u16 where [simp]: "HID_USAGE_KB_T = 0x17"
definition HID_USAGE_KB_U :: u16 where [simp]: "HID_USAGE_KB_U = 0x18"
definition HID_USAGE_KB_V :: u16 where [simp]: "HID_USAGE_KB_V = 0x19"
definition HID_USAGE_KB_W :: u16 where [simp]: "HID_USAGE_KB_W = 0x1a"
definition HID_USAGE_KB_X :: u16 where [simp]: "HID_USAGE_KB_X = 0x1b"
definition HID_USAGE_KB_Y :: u16 where [simp]: "HID_USAGE_KB_Y = 0x1c"
definition HID_USAGE_KB_Z :: u16 where [simp]: "HID_USAGE_KB_Z = 0x1d"

datatype icade_model = Icade_Cabinet | Icade_8bitty

text \<open>A bit of the gamepad that a switch is shown in.\<close>

datatype pad_bit = B_Dpad u8 | B_Button u16 | B_Misc u8

text \<open>The usage, whether it presses or releases, and the bit on a cabinet and on an 8-Bitty.\<close>

definition icade_table :: "(u16 \<times> bool \<times> pad_bit \<times> pad_bit) list" where
  "icade_table =
     [(HID_USAGE_KB_W, True, B_Dpad DPAD_UP, B_Dpad DPAD_UP), (HID_USAGE_KB_E, False, B_Dpad DPAD_UP, B_Dpad DPAD_UP),
      (HID_USAGE_KB_D, True, B_Dpad DPAD_RIGHT, B_Dpad DPAD_RIGHT), (HID_USAGE_KB_C, False, B_Dpad DPAD_RIGHT, B_Dpad DPAD_RIGHT),
      (HID_USAGE_KB_X, True, B_Dpad DPAD_DOWN, B_Dpad DPAD_DOWN), (HID_USAGE_KB_Z, False, B_Dpad DPAD_DOWN, B_Dpad DPAD_DOWN),
      (HID_USAGE_KB_A, True, B_Dpad DPAD_LEFT, B_Dpad DPAD_LEFT), (HID_USAGE_KB_Q, False, B_Dpad DPAD_LEFT, B_Dpad DPAD_LEFT),
      (HID_USAGE_KB_Y, True, B_Button BUTTON_A, B_Misc MISC_BUTTON_SYSTEM),
      (HID_USAGE_KB_T, False, B_Button BUTTON_A, B_Misc MISC_BUTTON_SYSTEM),
      (HID_USAGE_KB_H, True, B_Button BUTTON_B, B_Button BUTTON_SHOULDER_L),
      (HID_USAGE_KB_R, False, B_Button BUTTON_B, B_Button BUTTON_SHOULDER_L),
      (HID_USAGE_KB_U, True, B_Button BUTTON_X, B_Misc MISC_BUTTON_START),
      (HID_USAGE_KB_F, False, B_Button BUTTON_X, B_Misc MISC_BUTTON_START),
      (HID_USAGE_KB_J, True, B_Button BUTTON_Y, B_Button BUTTON_SHOULDER_R),
      (HID_USAGE_KB_N, False, B_Button BUTTON_Y, B_Button BUTTON_SHOULDER_R),
      (HID_USAGE_KB_O, True, B_Misc MISC_BUTTON_SYSTEM, B_Button BUTTON_Y),
      (HID_USAGE_KB_G, False, B_Misc MISC_BUTTON_SYSTEM, B_Button BUTTON_Y),
      (HID_USAGE_KB_I, True, B_Misc MISC_BUTTON_START, B_Button BUTTON_X),
      (HID_USAGE_KB_M, False, B_Misc MISC_BUTTON_START, B_Button BUTTON_X),
      (HID_USAGE_KB_K, True, B_Button BUTTON_SHOULDER_L, B_Button BUTTON_A),
      (HID_USAGE_KB_P, False, B_Button BUTTON_SHOULDER_L, B_Button BUTTON_A),
      (HID_USAGE_KB_L, True, B_Button BUTTON_SHOULDER_R, B_Button BUTTON_B),
      (HID_USAGE_KB_V, False, B_Button BUTTON_SHOULDER_R, B_Button BUTTON_B)]"

definition icade_key :: "icade_model \<Rightarrow> field \<Rightarrow> (bool \<times> pad_bit) option" where
  "icade_key m = (\<lambda>(g, page, us, v).
     if page \<noteq> HID_USAGE_PAGE_KEYBOARD_KEYPAD then None
     else map_option (\<lambda>(on, cab, bitty). (on, if m = Icade_Cabinet then cab else bitty)) (map_of icade_table us))"

definition put_bit :: "bool \<Rightarrow> pad_bit \<Rightarrow> uni_gamepad \<Rightarrow> uni_gamepad" where
  "put_bit on b gp = (case b of
     B_Dpad m \<Rightarrow> gp\<lparr>dpad := put_flag on m (dpad gp)\<rparr>
   | B_Button m \<Rightarrow> gp\<lparr>buttons := put_flag on m (buttons gp)\<rparr>
   | B_Misc m \<Rightarrow> gp\<lparr>misc_buttons := put_flag on m (misc_buttons gp)\<rparr>)"

section \<open>The iCade driver\<close>

definition uni_hid_parser_icade_parse_usage :: "icade_model \<Rightarrow> field \<Rightarrow> controller \<Rightarrow> controller" where
  "uni_hid_parser_icade_parse_usage m f c = (let c = c\<lparr>klass := Class_Gamepad, battery := 0\<rparr> in
     (case icade_key m f of
        None \<Rightarrow> c
      | Some (on, b) \<Rightarrow> c\<lparr>gamepad := put_bit on b (gamepad c)\<rparr>))"

text \<open>\<open>uni_hid_parse_input_report\<close>, with the fields the descriptor walk finds.\<close>

definition icade_report :: "icade_model \<Rightarrow> field list \<Rightarrow> controller \<Rightarrow> controller" where
  "icade_report m fs c = fold (uni_hid_parser_icade_parse_usage m) fs c"

text \<open>Any product of the first vendor is a cabinet; an unknown device keeps the model it had.\<close>

definition icade_model_of :: "u16 \<Rightarrow> u16 \<Rightarrow> icade_model \<Rightarrow> icade_model" where
  "icade_model_of vid pid m =
     (if vid = 0x15e4 \<and> pid \<noteq> 0 then Icade_Cabinet else if vid = 0x0a5c \<and> pid = 0x8502 then Icade_8bitty else m)"

definition uni_hid_parser_icade_setup ::
  "(u16 \<Rightarrow> gap_type) \<Rightarrow> bool \<Rightarrow> nat \<Rightarrow> bt_world \<times> icade_model \<Rightarrow> (bt_world \<times> icade_model) option" where
  "uni_hid_parser_icade_setup gap accept i = (\<lambda>(w, m). do {
     let m' = icade_model_of (vendor_id (devs w ! i)) (product_id (devs w ! i)) m;
     (w', ok) \<leftarrow> uni_hid_device_set_ready_complete gap accept i w;
     Some (w', if free_slot (devs w' ! i) then Icade_Cabinet else m')
   })"

section \<open>The switches that are held\<close>

definition pad_bits :: "pad_bit list" where
  "pad_bits = [B_Dpad DPAD_UP, B_Dpad DPAD_RIGHT, B_Dpad DPAD_DOWN, B_Dpad DPAD_LEFT, B_Button BUTTON_A, B_Button BUTTON_B,
     B_Button BUTTON_X, B_Button BUTTON_Y, B_Misc MISC_BUTTON_SYSTEM, B_Misc MISC_BUTTON_START, B_Button BUTTON_SHOULDER_L,
     B_Button BUTTON_SHOULDER_R]"

fun bit_on :: "uni_gamepad \<Rightarrow> pad_bit \<Rightarrow> bool" where
  "bit_on gp (B_Dpad m) \<longleftrightarrow> dpad gp AND m \<noteq> 0"
| "bit_on gp (B_Button m) \<longleftrightarrow> buttons gp AND m \<noteq> 0"
| "bit_on gp (B_Misc m) \<longleftrightarrow> misc_buttons gp AND m \<noteq> 0"

definition held :: "uni_gamepad \<Rightarrow> pad_bit set" where
  "held gp = {b \<in> set pad_bits. bit_on gp b}"

text \<open>The specification: a press enters the set, a release leaves it, other fields change nothing.\<close>

definition hold :: "(bool \<times> pad_bit) option \<Rightarrow> pad_bit set \<Rightarrow> pad_bit set" where
  "hold k H = (case k of None \<Rightarrow> H | Some (on, b) \<Rightarrow> if on then insert b H else H - {b})"

fun bits_apart :: "pad_bit \<Rightarrow> pad_bit \<Rightarrow> bool" where
  "bits_apart (B_Dpad a) (B_Dpad b) \<longleftrightarrow> a AND b = 0"
| "bits_apart (B_Button a) (B_Button b) \<longleftrightarrow> a AND b = 0"
| "bits_apart (B_Misc a) (B_Misc b) \<longleftrightarrow> a AND b = 0"
| "bits_apart _ _ \<longleftrightarrow> True"

fun mask_zero :: "pad_bit \<Rightarrow> bool" where
  "mask_zero (B_Dpad a) \<longleftrightarrow> a = 0"
| "mask_zero (B_Button a) \<longleftrightarrow> a = 0"
| "mask_zero (B_Misc a) \<longleftrightarrow> a = 0"

lemma pad_bits_apart: "b \<in> set pad_bits \<Longrightarrow> b' \<in> set pad_bits \<Longrightarrow> b \<noteq> b' \<Longrightarrow> bits_apart b b'"
  and pad_bits_masks: "b \<in> set pad_bits \<Longrightarrow> \<not> mask_zero b"
  by (auto simp: pad_bits_def)

lemma flag_kept: "a AND b = (0 :: 'w :: len word) \<Longrightarrow> put_flag on a w AND b = w AND b"
  by (cases on) (auto simp: put_flag_def bit_eq_iff bit_simps)

lemma flag_put: "put_flag on a w AND a = (if on then a else (0 :: 'w :: len word))"
  by (cases on) (auto simp: put_flag_def bit_eq_iff bit_simps)

lemma bit_on_put:
  assumes "b \<in> set pad_bits" "b' \<in> set pad_bits"
  shows "bit_on (put_bit on b gp) b' \<longleftrightarrow> (if b = b' then on else bit_on gp b')"
  using pad_bits_apart [OF assms] pad_bits_masks [OF assms(1)]
  by (cases b; cases b') (auto simp: put_bit_def flag_put flag_kept)

lemma icade_key_bits: "icade_key m f = Some (on, b) \<Longrightarrow> b \<in> set pad_bits"
proof -
  assume "icade_key m f = Some (on, b)"
  then obtain us cab bitty where "map_of icade_table us = Some (on, cab, bitty)" "b = cab \<or> b = bitty"
    by (cases f) (auto simp: icade_key_def split: if_splits)
  moreover have "\<forall>(us, on, cab, bitty) \<in> set icade_table. cab \<in> set pad_bits \<and> bitty \<in> set pad_bits"
    by (simp add: icade_table_def pad_bits_def)
  ultimately show ?thesis by (auto dest!: map_of_SomeD)
qed

lemma held_put: "b \<in> set pad_bits \<Longrightarrow> held (put_bit on b gp) = hold (Some (on, b)) (held gp)"
  by (auto simp: held_def hold_def bit_on_put split: if_splits)

lemma usage_held: "held (gamepad (uni_hid_parser_icade_parse_usage m f c)) = hold (icade_key m f) (held (gamepad c))"
proof (cases "icade_key m f")
  case None
  then show ?thesis by (simp add: uni_hid_parser_icade_parse_usage_def hold_def)
next
  case (Some k)
  then show ?thesis
    using icade_key_bits [of m f "fst k" "snd k"]
    by (cases k) (simp add: uni_hid_parser_icade_parse_usage_def held_put)
qed

lemma usage_sticks:
  "axis_x (gamepad (uni_hid_parser_icade_parse_usage m f c)) = axis_x (gamepad c)"
  "axis_y (gamepad (uni_hid_parser_icade_parse_usage m f c)) = axis_y (gamepad c)"
  "axis_rx (gamepad (uni_hid_parser_icade_parse_usage m f c)) = axis_rx (gamepad c)"
  "axis_ry (gamepad (uni_hid_parser_icade_parse_usage m f c)) = axis_ry (gamepad c)"
  by (auto simp: uni_hid_parser_icade_parse_usage_def Let_def put_bit_def split: option.splits pad_bit.splits)

lemma flag_masked: "w AND k = (0 :: 'w :: len word) \<Longrightarrow> a AND k = 0 \<Longrightarrow> put_flag on a w AND k = 0"
  by (rule put_flag_masked)

lemma put_bit_ok: "b \<in> set pad_bits \<Longrightarrow> pad_ok gp \<Longrightarrow> pad_ok (put_bit on b gp)"
  by (auto simp: pad_bits_def pad_ok_def bits_ok_def gamepad_ok_def put_bit_def flag_masked)

lemma usage_pad: "pad_ok (gamepad c) \<Longrightarrow> pad_ok (gamepad (uni_hid_parser_icade_parse_usage m f c))"
  by (auto simp: uni_hid_parser_icade_parse_usage_def Let_def put_bit_ok icade_key_bits split: option.splits)

lemma icade_pad_ok: "pad_ok (gamepad c) \<Longrightarrow> pad_ok (gamepad (icade_report m fs c))"
  unfolding icade_report_def by (induction fs arbitrary: c) (auto simp: usage_pad)

section \<open>The Steam controller\<close>

datatype steam_query_state =
  STATE_QUERY_SERVICE | STATE_QUERY_CHARACTERISTIC_REPORT | STATE_QUERY_CLEAR_MAPPINGS | STATE_QUERY_DISABLE_LIZARD |
  STATE_QUERY_FORCEFEEDBACK | STATE_QUERY_END

definition STEAM_CONTROLLER_FLAG_BUTTONS :: u16 where [simp]: "STEAM_CONTROLLER_FLAG_BUTTONS = 0x0010"
definition STEAM_CONTROLLER_FLAG_TRIGGERS :: u16 where [simp]: "STEAM_CONTROLLER_FLAG_TRIGGERS = 0x0020"
definition STEAM_CONTROLLER_FLAG_THUMBSTICK :: u16 where [simp]: "STEAM_CONTROLLER_FLAG_THUMBSTICK = 0x0080"
definition STEAM_CONTROLLER_FLAG_LEFT_PAD :: u16 where [simp]: "STEAM_CONTROLLER_FLAG_LEFT_PAD = 0x0100"
definition STEAM_CONTROLLER_FLAG_RIGHT_PAD :: u16 where [simp]: "STEAM_CONTROLLER_FLAG_RIGHT_PAD = 0x0200"

definition le_steam_service_uuid :: "u8 list" where
  "le_steam_service_uuid = [0x10, 0x0f, 0x6c, 0x32, 0x17, 0x35, 0x43, 0x13, 0xb4, 0x02, 0x38, 0x56, 0x71, 0x31, 0xe5, 0xf3]"

definition le_steam_characteristic_report_uuid :: "u8 list" where
  "le_steam_characteristic_report_uuid =
     [0x10, 0x0f, 0x6c, 0x34, 0x17, 0x35, 0x43, 0x13, 0xb4, 0x02, 0x38, 0x56, 0x71, 0x31, 0xe5, 0xf3]"

definition STEAM_CMD_CLEAR_MAPPINGS :: u8 where [simp]: "STEAM_CMD_CLEAR_MAPPINGS = 0x81"
definition STEAM_CMD_WRITE_REGISTER :: u8 where [simp]: "STEAM_CMD_WRITE_REGISTER = 0x87"
definition STEAM_REG_LPAD_MODE :: u8 where [simp]: "STEAM_REG_LPAD_MODE = 0x07"
definition STEAM_REG_RPAD_MODE :: u8 where [simp]: "STEAM_REG_RPAD_MODE = 0x08"
definition STEAM_REG_RPAD_MARGIN :: u8 where [simp]: "STEAM_REG_RPAD_MARGIN = 0x18"
definition STEAM_REG_LED :: u8 where [simp]: "STEAM_REG_LED = 0x2d"
definition STEAM_REG_GYRO_MODE :: u8 where [simp]: "STEAM_REG_GYRO_MODE = 0x30"

definition cmd_clear_mappings :: "u8 list" where
  "cmd_clear_mappings = [0xc0, STEAM_CMD_CLEAR_MAPPINGS, 0x01]"

definition cmd_disable_lizard :: "u8 list" where
  "cmd_disable_lizard = [0xc0, STEAM_CMD_WRITE_REGISTER, 0x0f, STEAM_REG_GYRO_MODE, 0x00, 0x00, STEAM_REG_LPAD_MODE, 0x07, 0x00,
     STEAM_REG_RPAD_MODE, 0x07, 0x00, STEAM_REG_RPAD_MARGIN, 0x00, 0x00, STEAM_REG_LED, 0x64, 0x00]"

text \<open>
  What the GATT client of BTstack reports, as its accessors read it from the packet: a service by its first and last handle, a
  characteristic by the handle of its value, and the ATT status at the end of a query.  The calls the driver makes of it are a log.
\<close>

datatype gatt_event =
  Not_Hci_Event | Service_Query_Result "u16 \<times> u16" | Characteristic_Query_Result u16 | Query_Complete u8 | Other_Gatt_Event

datatype gatt_request =
  Discover_Services u16 "u8 list" | Discover_Characteristics u16 "u16 \<times> u16" "u8 list" | Write_Value u16 u16 "u8 list"

definition ATT_ERROR_SUCCESS :: u8 where [simp]: "ATT_ERROR_SUCCESS = 0"

text \<open>The variables of the file, of which there is one set for all controllers.\<close>

record steam =
  query_state :: steam_query_state
  connection_handle :: u16
  steam_device :: "nat option"
  le_steam_service :: "u16 \<times> u16"
  report_value_handle :: u16
  gatt_log :: "gatt_request list"

definition gatt_call :: "gatt_request \<Rightarrow> steam \<Rightarrow> steam" where
  "gatt_call g s = s\<lparr>gatt_log := gatt_log s @ [g]\<rparr>"

text \<open>A failed query ends in no transition at all; neither does an event that a state has no case for.\<close>

definition uni_steam_handle_gatt_client_event ::
  "(u16 \<Rightarrow> gap_type) \<Rightarrow> bool \<Rightarrow> gatt_event \<Rightarrow> bt_world \<times> steam \<Rightarrow> (bt_world \<times> steam) option" where
  "uni_steam_handle_gatt_client_event gap accept ev = (\<lambda>(w, s).
     (case query_state s of
        STATE_QUERY_SERVICE \<Rightarrow>
          (case ev of
             Service_Query_Result v \<Rightarrow> Some (w, s\<lparr>le_steam_service := v\<rparr>)
           | Query_Complete st \<Rightarrow>
               if st \<noteq> ATT_ERROR_SUCCESS then Some (w, s)
               else Some (w, gatt_call (Discover_Characteristics (connection_handle s) (le_steam_service s)
                 le_steam_characteristic_report_uuid) (s\<lparr>query_state := STATE_QUERY_CHARACTERISTIC_REPORT\<rparr>))
           | _ \<Rightarrow> Some (w, s))
      | STATE_QUERY_CHARACTERISTIC_REPORT \<Rightarrow>
          (case ev of
             Query_Complete st \<Rightarrow>
               if st \<noteq> ATT_ERROR_SUCCESS then Some (w, s)
               else Some (w, (gatt_call (Write_Value (connection_handle s) (report_value_handle s) cmd_clear_mappings) s)
                 \<lparr>query_state := STATE_QUERY_CLEAR_MAPPINGS\<rparr>)
           | Characteristic_Query_Result v \<Rightarrow> Some (w, s\<lparr>report_value_handle := v\<rparr>)
           | _ \<Rightarrow> Some (w, s))
      | STATE_QUERY_CLEAR_MAPPINGS \<Rightarrow>
          (case ev of
             Query_Complete st \<Rightarrow>
               if st \<noteq> ATT_ERROR_SUCCESS then Some (w, s)
               else Some (w, (gatt_call (Write_Value (connection_handle s) (report_value_handle s) cmd_disable_lizard) s)
                 \<lparr>query_state := STATE_QUERY_DISABLE_LIZARD\<rparr>)
           | _ \<Rightarrow> Some (w, s))
      | STATE_QUERY_DISABLE_LIZARD \<Rightarrow>
          (case ev of
             Query_Complete st \<Rightarrow>
               if st \<noteq> ATT_ERROR_SUCCESS then Some (w, s)
               else do {
                 i \<leftarrow> steam_device s;
                 (w', ok) \<leftarrow> uni_hid_device_set_ready_complete gap accept i w;
                 Some (w', s\<lparr>query_state := STATE_QUERY_END\<rparr>)
               }
           | _ \<Rightarrow> Some (w, s))
      | _ \<Rightarrow> Some (w, s)))"

definition uni_hid_parser_steam_setup :: "nat \<Rightarrow> bt_world \<times> steam \<Rightarrow> bt_world \<times> steam" where
  "uni_hid_parser_steam_setup i = (\<lambda>(w, s).
     (upd i (\<lambda>d. d\<lparr>ctl := (ctl d)\<lparr>klass := Class_Gamepad\<rparr>\<rparr>) w,
      gatt_call (Discover_Services (handle (conn (devs w ! i))) le_steam_service_uuid)
        (s\<lparr>steam_device := Some i, connection_handle := handle (conn (devs w ! i)), query_state := STATE_QUERY_SERVICE\<rparr>)))"

section \<open>Steam reports\<close>

definition steam_pick :: "(u32 \<times> ('w :: len) word) list \<Rightarrow> u32 \<Rightarrow> 'w word" where
  "steam_pick t b = fold (\<lambda>(m, k) w. set_if (b AND m \<noteq> 0) k w) t 0"

definition steam_button_table :: "(u32 \<times> u16) list" where
  "steam_button_table = [(0x01, BUTTON_TRIGGER_R), (0x02, BUTTON_TRIGGER_L), (0x04, BUTTON_SHOULDER_R), (0x08, BUTTON_SHOULDER_L),
     (0x10, BUTTON_Y), (0x20, BUTTON_B), (0x40, BUTTON_X), (0x80, BUTTON_A), (0x8000, BUTTON_A), (0x10000, BUTTON_X),
     (0x400000, BUTTON_THUMB_L)]"

definition steam_dpad_table :: "(u32 \<times> u8) list" where
  "steam_dpad_table = [(0x0100, DPAD_UP), (0x0200, DPAD_RIGHT), (0x0400, DPAD_LEFT), (0x0800, DPAD_DOWN)]"

definition steam_misc_table :: "(u32 \<times> u8) list" where
  "steam_misc_table = [(0x1000, MISC_BUTTON_SELECT), (0x2000, MISC_BUTTON_SYSTEM), (0x4000, MISC_BUTTON_START)]"

text \<open>Each of the four takes the report and the offset of its data.\<close>

definition steam_parse_buttons :: "u8 list \<Rightarrow> nat \<Rightarrow> uni_gamepad \<Rightarrow> uni_gamepad" where
  "steam_parse_buttons r k gp =
     (let b = ucast (r ! k) OR push_bit 8 (ucast (r ! (k + 1))) OR push_bit 16 (ucast (r ! (k + 2))) in
      gp\<lparr>dpad := steam_pick steam_dpad_table b, buttons := steam_pick steam_button_table b,
        misc_buttons := steam_pick steam_misc_table b\<rparr>)"

text \<open>The negated value goes back into 16 bits, and the shift of a negative number is arithmetic.\<close>

definition flipped :: "u8 list \<Rightarrow> nat \<Rightarrow> int" where
  "flipped r k = sint (- le16 r k)"

definition steam_parse_thumbstick :: "u8 list \<Rightarrow> nat \<Rightarrow> uni_gamepad \<Rightarrow> uni_gamepad" where
  "steam_parse_thumbstick r k gp = gp\<lparr>axis_x := s16 r k div 64, axis_y := flipped r (k + 2) div 64\<rparr>"

definition steam_parse_triggers :: "u8 list \<Rightarrow> nat \<Rightarrow> uni_gamepad \<Rightarrow> uni_gamepad" where
  "steam_parse_triggers r k gp = gp\<lparr>brake := uint (r ! k) * 4, gp_throttle := uint (r ! (k + 1)) * 4\<rparr>"

definition steam_parse_right_pad :: "u8 list \<Rightarrow> nat \<Rightarrow> uni_gamepad \<Rightarrow> uni_gamepad" where
  "steam_parse_right_pad r k gp = gp\<lparr>axis_rx := s16 r k div 64, axis_ry := flipped r (k + 2) div 64\<rparr>"

text \<open>Only the left pad moves the offset: the sections before it are all read at the same place.\<close>

definition steam_sections :: "u8 list \<Rightarrow> uni_gamepad \<Rightarrow> uni_gamepad" where
  "steam_sections r gp =
     (let fl = ucast (r ! 2 AND 0xf0) + push_bit 8 (ucast (r ! 3)) :: u16;
          gp = (if fl AND STEAM_CONTROLLER_FLAG_BUTTONS \<noteq> 0 then steam_parse_buttons r 4 gp else gp);
          gp = (if fl AND STEAM_CONTROLLER_FLAG_TRIGGERS \<noteq> 0 then steam_parse_triggers r 4 gp else gp);
          gp = (if fl AND STEAM_CONTROLLER_FLAG_THUMBSTICK \<noteq> 0 then steam_parse_thumbstick r 4 gp else gp);
          idx = (if fl AND STEAM_CONTROLLER_FLAG_LEFT_PAD \<noteq> 0 then 8 else 4)
      in if fl AND STEAM_CONTROLLER_FLAG_RIGHT_PAD \<noteq> 0 then steam_parse_right_pad r idx gp else gp)"

definition uni_hid_parser_steam_parse_input_report :: "u8 list \<Rightarrow> u16 \<Rightarrow> controller \<Rightarrow> controller option" where
  "uni_hid_parser_steam_parse_input_report r len c =
     (if length r < unat len then None
      else if len \<noteq> 20 then Some c
      else if r ! 0 \<noteq> 0x03 then Some c
      else if r ! 1 \<noteq> 0xc0 then Some c
      else if r ! 2 AND 0x0f \<noteq> 0x04 then Some c
      else Some (c\<lparr>gamepad := steam_sections r (gamepad c)\<rparr>))"
section \<open>The conversation with a Steam controller\<close>

text \<open>Any series of events of the GATT client.\<close>

fun steam_run :: "(u16 \<Rightarrow> gap_type) \<Rightarrow> bool \<Rightarrow> gatt_event list \<Rightarrow> bt_world \<times> steam \<Rightarrow> (bt_world \<times> steam) option" where
  "steam_run gap accept [] x = Some x"
| "steam_run gap accept (ev # evs) x = Option.bind (uni_steam_handle_gatt_client_event gap accept ev x) (steam_run gap accept evs)"

text \<open>
  The specification.  Only queries that succeed count; the service is the last one seen before the first of them, the
  handle the last one seen between the first and the second.
\<close>

definition good :: "gatt_event \<Rightarrow> bool" where
  "good ev \<longleftrightarrow> ev = Query_Complete ATT_ERROR_SUCCESS"

definition successes :: "gatt_event list \<Rightarrow> nat" where
  "successes evs = length (filter good evs)"

fun service_found :: "u16 \<times> u16 \<Rightarrow> gatt_event list \<Rightarrow> u16 \<times> u16" where
  "service_found v [] = v"
| "service_found v (ev # evs) =
     (if good ev then v else service_found (case ev of Service_Query_Result u \<Rightarrow> u | _ \<Rightarrow> v) evs)"

fun handle_found :: "u16 \<Rightarrow> gatt_event list \<Rightarrow> u16" where
  "handle_found v [] = v"
| "handle_found v (ev # evs) =
     (if good ev then v else handle_found (case ev of Characteristic_Query_Result u \<Rightarrow> u | _ \<Rightarrow> v) evs)"

definition after_success :: "gatt_event list \<Rightarrow> gatt_event list" where
  "after_success evs = tl (dropWhile (\<lambda>ev. \<not> good ev) evs)"

definition steam_stage :: "nat \<Rightarrow> steam_query_state" where
  "steam_stage n = (if n = 0 then STATE_QUERY_SERVICE else if n = 1 then STATE_QUERY_CHARACTERISTIC_REPORT
     else if n = 2 then STATE_QUERY_CLEAR_MAPPINGS else if n = 3 then STATE_QUERY_DISABLE_LIZARD else STATE_QUERY_END)"

definition steam_calls :: "u16 \<Rightarrow> u16 \<times> u16 \<Rightarrow> u16 \<Rightarrow> gatt_request list" where
  "steam_calls h v k = [Discover_Services h le_steam_service_uuid,
     Discover_Characteristics h v le_steam_characteristic_report_uuid, Write_Value h k cmd_clear_mappings,
     Write_Value h k cmd_disable_lizard]"

lemmas steam_handler = uni_steam_handle_gatt_client_event_def gatt_call_def

lemma good_iff: "good (Query_Complete st) \<longleftrightarrow> st = 0"
  and not_good: "\<not> good Not_Hci_Event" "\<not> good (Service_Query_Result v)" "\<not> good (Characteristic_Query_Result k)"
    "\<not> good Other_Gatt_Event"
  by (simp_all add: good_def)

lemma successes_simps: "successes [] = 0" "successes (ev # evs) = (if good ev then Suc (successes evs) else successes evs)"
  by (simp_all add: successes_def)

lemma after_simps: "after_success [] = []" "after_success (ev # evs) = (if good ev then evs else after_success evs)"
  by (simp_all add: after_success_def)

lemma steam_over: "query_state s = STATE_QUERY_END \<Longrightarrow> steam_run gap accept evs (w, s) = Some (w, s)"
  by (induction evs) (simp_all add: steam_handler)

lemma steam_last:
  "query_state s = STATE_QUERY_DISABLE_LIZARD \<Longrightarrow> steam_device s = Some i \<Longrightarrow>
   steam_run gap accept evs (w, s) =
     (if successes evs = 0 then Some (w, s)
      else map_option (\<lambda>(w', _). (w', s\<lparr>query_state := STATE_QUERY_END\<rparr>)) (uni_hid_device_set_ready_complete gap accept i w))"
proof (induction evs)
  case (Cons ev evs)
  then show ?case
    by (cases ev; cases "uni_hid_device_set_ready_complete gap accept i w")
      (auto simp: steam_handler successes_simps good_iff not_good steam_over)
qed (simp add: successes_simps)

lemma steam_cleared:
  "query_state s = STATE_QUERY_CLEAR_MAPPINGS \<Longrightarrow>
   steam_run gap accept evs (w, s) =
     (if successes evs = 0 then Some (w, s)
      else steam_run gap accept (after_success evs)
        (w, (gatt_call (Write_Value (connection_handle s) (report_value_handle s) cmd_disable_lizard) s)
          \<lparr>query_state := STATE_QUERY_DISABLE_LIZARD\<rparr>))"
proof (induction evs)
  case (Cons ev evs)
  then show ?case
    by (cases ev) (simp_all add: steam_handler successes_simps after_simps good_iff not_good Let_def)
qed (simp add: successes_simps)

lemma steam_characteristic:
  "query_state s = STATE_QUERY_CHARACTERISTIC_REPORT \<Longrightarrow>
   steam_run gap accept evs (w, s) =
     (let s1 = s\<lparr>report_value_handle := handle_found (report_value_handle s) evs\<rparr> in
      if successes evs = 0 then Some (w, s1)
      else steam_run gap accept (after_success evs)
        (w, (gatt_call (Write_Value (connection_handle s) (report_value_handle s1) cmd_clear_mappings) s1)
          \<lparr>query_state := STATE_QUERY_CLEAR_MAPPINGS\<rparr>))"
proof (induction evs arbitrary: s)
  case (Cons ev evs)
  then show ?case
    by (cases ev) (simp_all add: steam_handler successes_simps after_simps good_iff not_good Let_def)
qed (simp add: successes_simps)

lemma steam_service:
  "query_state s = STATE_QUERY_SERVICE \<Longrightarrow>
   steam_run gap accept evs (w, s) =
     (let s1 = s\<lparr>le_steam_service := service_found (le_steam_service s) evs\<rparr> in
      if successes evs = 0 then Some (w, s1)
      else steam_run gap accept (after_success evs)
        (w, gatt_call (Discover_Characteristics (connection_handle s) (le_steam_service s1) le_steam_characteristic_report_uuid)
          (s1\<lparr>query_state := STATE_QUERY_CHARACTERISTIC_REPORT\<rparr>)))"
proof (induction evs arbitrary: s)
  case (Cons ev evs)
  then show ?case
    by (cases ev) (simp_all add: steam_handler successes_simps after_simps good_iff not_good Let_def)
qed (simp add: successes_simps)

lemma successes_after: "successes evs \<noteq> 0 \<Longrightarrow> successes (after_success evs) = successes evs - 1"
  by (induction evs) (auto simp: successes_simps after_simps)

text \<open>What the variables are after \<open>n\<close> queries succeeded.\<close>

definition steam_after :: "nat \<Rightarrow> u16 \<Rightarrow> gatt_event list \<Rightarrow> steam \<Rightarrow> steam" where
  "steam_after i h evs s =
     (let n = successes evs; v = service_found (le_steam_service s) evs;
          k = (if n = 0 then report_value_handle s else handle_found (report_value_handle s) (after_success evs))
      in \<lparr>query_state = steam_stage n, connection_handle = h, steam_device = Some i, le_steam_service = v,
          report_value_handle = k, gatt_log = gatt_log s @ take (Suc n) (steam_calls h v k)\<rparr>)"
section \<open>What a Steam report shows\<close>

lemma pick_masked: "list_all (\<lambda>(m, k). k AND M = 0) t \<Longrightarrow> steam_pick t b AND M = 0"
proof -
  assume "list_all (\<lambda>(m, k). k AND M = 0) t"
  then have "w AND M = 0 \<Longrightarrow> fold (\<lambda>(m, k) w. set_if (b AND m \<noteq> 0) k w) t w AND M = 0" for w
    by (induction t arbitrary: w) (auto simp: set_if_def or_masked split: prod.splits)
  then show ?thesis by (simp add: steam_pick_def)
qed

lemma pick_bit: "bit (steam_pick t b) n \<longleftrightarrow> (\<exists>(m, k) \<in> set t. b AND m \<noteq> 0 \<and> bit k n)"
proof -
  have "bit (fold (\<lambda>(m, k) w. set_if (b AND m \<noteq> 0) k w) t w) n \<longleftrightarrow> bit w n \<or> (\<exists>(m, k) \<in> set t. b AND m \<noteq> 0 \<and> bit k n)" for w
    by (induction t arbitrary: w) auto
  then show ?thesis by (simp add: steam_pick_def)
qed

lemma half_stick: "- 32768 \<le> u \<Longrightarrow> u \<le> 32767 \<Longrightarrow> stick_ok (u div 64)"
  by (auto simp: stick_ok_def abs_le_iff)

lemma steam_sticks: "stick_ok (s16 r k div 64)" "stick_ok (flipped r k div 64)"
  using sint_greater_eq [of "le16 r k"] sint_less [of "le16 r k"] sint_greater_eq [of "- le16 r k"] sint_less [of "- le16 r k"]
  by (auto intro!: half_stick simp: s16_def flipped_def)

lemma sections_ok: "pad_ok gp \<Longrightarrow> pad_ok (steam_sections r gp)"
proof -
  have b: "pad_ok (steam_parse_buttons r k gp)" if "pad_ok gp" for k gp
    using that
    by (simp add: pad_ok_def bits_ok_def gamepad_ok_def steam_parse_buttons_def Let_def pick_masked steam_dpad_table_def
        steam_button_table_def steam_misc_table_def)
  have t: "pad_ok (steam_parse_triggers r k gp)" if "pad_ok gp" for k gp
    using that by (simp add: pad_ok_def bits_ok_def gamepad_ok_def steam_parse_triggers_def)
  have s: "pad_ok (steam_parse_thumbstick r k gp)" "pad_ok (steam_parse_right_pad r k gp)" if "pad_ok gp" for k gp
    using that by (simp_all add: pad_ok_def bits_ok_def gamepad_ok_def steam_parse_thumbstick_def steam_parse_right_pad_def
        steam_sticks)
  show "pad_ok gp \<Longrightarrow> pad_ok (steam_sections r gp)" by (simp add: steam_sections_def Let_def b t s)
qed

lemma steam_pad_ok:
  "uni_hid_parser_steam_parse_input_report r len c = Some c' \<Longrightarrow> pad_ok (gamepad c) \<Longrightarrow> pad_ok (gamepad c')"
  by (auto simp: uni_hid_parser_steam_parse_input_report_def sections_ok split: if_splits)

text \<open>A pushed stick reads lower the further it is pushed; all the way it reads as pulled all the way.\<close>

lemma flipped_full: "le16 r k = 0x8000 \<Longrightarrow> flipped r k div 64 = - 512"
  "le16 r k = 0x8001 \<Longrightarrow> flipped r k div 64 = 511"
  by (simp_all add: flipped_def)

text \<open>
  The thumbstick is read where the buttons are: the inner button on the left is button A, and pushes the stick to the left.
\<close>

lemma sections_overlap:
  assumes "r ! 2 = 0x94" "r ! 3 = 0" "bit (r ! 5) 7"
  shows "buttons (steam_sections r gp) AND BUTTON_A \<noteq> 0" "axis_x (steam_sections r gp) < 0"
proof -
  let ?b = "ucast (r ! 4) OR push_bit 8 (ucast (r ! 5)) OR push_bit 16 (ucast (r ! 6)) :: u32"
  have fl: "(ucast (r ! 2 AND 0xf0) + push_bit 8 (ucast (r ! 3)) :: u16) = 0x90" by (simp add: assms)
  have "bit ?b 15" using assms(3) by (simp add: bit_simps)
  then have "bit (?b AND 0x8000) 15" by (simp add: bit_simps)
  then have "?b AND 0x8000 \<noteq> 0" by (metis bit_0_eq bot_apply bot_bool_def)
  then have "bit (steam_pick steam_button_table ?b) 0" by (simp add: pick_bit steam_button_table_def)
  then have "bit (buttons (steam_sections r gp)) 0"
    unfolding steam_sections_def fl by (simp add: steam_parse_buttons_def steam_parse_thumbstick_def Let_def)
  then have "bit (buttons (steam_sections r gp) AND 1) 0" by (simp add: bit_simps)
  then show "buttons (steam_sections r gp) AND BUTTON_A \<noteq> 0" by auto
  have "bit (le16 r 4) 15" using assms(3) by (simp add: le16_def bit_simps)
  then have "sint (le16 r 4) < 0" using bit_last_iff [of "le16 r 4"] by simp
  then show "axis_x (steam_sections r gp) < 0"
    unfolding steam_sections_def fl by (simp add: steam_parse_buttons_def steam_parse_thumbstick_def s16_def Let_def)
qed

section \<open>The stored controller\<close>

text \<open>Nothing but a report changes the controller of a slot, other than a reset of the slot.\<close>

definition ctl_kept :: "bt_world \<Rightarrow> bt_world \<Rightarrow> bool" where
  "ctl_kept w w' \<longleftrightarrow> length (devs w') = length (devs w) \<and>
     (\<forall>j < length (devs w). ctl (devs w' ! j) = ctl (devs w ! j) \<or> ctl (devs w' ! j) = ctl device_zero)"

lemma kept_refl [simp]: "ctl_kept w w"
  by (simp add: ctl_kept_def)

lemma kept_trans: "ctl_kept w w1 \<Longrightarrow> ctl_kept w1 w2 \<Longrightarrow> ctl_kept w w2"
  unfolding ctl_kept_def by (metis (no_types))

lemma kept_same_devs: "devs w' = devs w \<Longrightarrow> ctl_kept w w'"
  by (simp add: ctl_kept_def)

lemma nth_put: "j < length xs \<Longrightarrow> xs[i := y] ! j = (if i = j then y else xs ! j)"
  by (cases "i = j") simp_all

lemma kept_upd: "(\<And>d. ctl (f d) = ctl d) \<Longrightarrow> ctl_kept w (upd i f w)"
  unfolding ctl_kept_def upd_def by (simp add: nth_put)

lemma kept_overwrite: "overwrite i d w = Some w' \<Longrightarrow> ctl d = ctl device_zero \<Longrightarrow> ctl_kept w w'"
  unfolding ctl_kept_def overwrite_def
  by (auto simp: nth_put split: if_splits)

lemma kept_add: "add_timer t i w = Some w' \<Longrightarrow> ctl_kept w w'"
  by (auto simp: add_timer_def kept_same_devs split: if_splits)

lemma kept_emit_upd: "ctl_kept w (upd i f (emit e w'))" if "\<And>d. ctl (f d) = ctl d" "ctl_kept w w'"
  by (rule kept_trans [OF that(2) kept_trans [OF kept_same_devs kept_upd]]) (simp_all add: that(1))

lemma kept_emit: "ctl_kept w w' \<Longrightarrow> ctl_kept w (emit e w')"
  by (erule kept_trans) (simp add: kept_same_devs)

lemma kept_remove: "ctl_kept w w' \<Longrightarrow> ctl_kept w (remove_timer t i w')"
  by (erule kept_trans) (simp add: kept_same_devs)

lemma kept_drop_link: "ctl_kept w (drop_link gap i w)"
  by (auto simp: drop_link_def hog_disconnect_def uni_bt_bredr_disconnect_def Let_def kept_emit kept_emit_upd split: option.splits)

lemma kept_init: "uni_hid_device_init i w = Some w' \<Longrightarrow> ctl_kept w w'"
  unfolding uni_hid_device_init_def by (erule kept_overwrite) simp

lemma kept_disconnect: "uni_hid_device_disconnect n gap i w = Some w' \<Longrightarrow> ctl_kept w w'"
proof (induction n gap i w arbitrary: w' rule: uni_hid_device_disconnect.induct)
  case (2 n gap i w)
  obtain w1 where w1: "(case child (devs w ! i) of None \<Rightarrow> Some w | Some c \<Rightarrow> uni_hid_device_disconnect n gap c w) = Some w1"
    using 2(2) by (auto simp: bind_eq_Some_conv)
  have k: "ctl_kept w w1" using w1 2(1) by (auto split: option.splits)
  have "ctl_kept w (if uni_hid_device_is_virtual_device (devs w1 ! i) then w1 else drop_link gap i w1)"
    using kept_trans [OF k kept_drop_link] k by simp
  then have "ctl_kept w (upd i (\<lambda>d. d\<lparr>conn := uni_bt_conn_disconnect (conn d)\<rparr>)
      (if uni_hid_device_is_virtual_device (devs w1 ! i) then w1 else drop_link gap i w1))"
    by (rule kept_trans) (simp add: kept_upd)
  then show ?case
    using 2(2) by (auto simp: w1 Let_def uni_hid_device_on_connected_def kept_emit kept_remove)
qed simp

lemma kept_delete: "uni_hid_device_delete n i w = Some w' \<Longrightarrow> ctl_kept w w'"
proof (induction n i w arbitrary: w' rule: uni_hid_device_delete.induct)
  case (2 n i w)
  obtain w1 where w1: "(case child (devs w ! i) of None \<Rightarrow> Some w | Some c \<Rightarrow> uni_hid_device_delete n c w) = Some w1"
    using 2(2) by (auto simp: bind_eq_Some_conv)
  have "ctl_kept w w1" using w1 2(1) by (auto split: option.splits)
  from kept_trans [OF kept_remove [OF this] kept_init] show ?case
    using 2(2) by (auto simp: w1)
qed simp

lemma kept_drop: "drop_device gap i w = Some w' \<Longrightarrow> ctl_kept w w'"
  by (auto simp: drop_device_def bind_eq_Some_conv intro: kept_trans kept_disconnect kept_delete)

lemma kept_complete: "uni_hid_device_set_ready_complete gap accept i w = Some (w', ok) \<Longrightarrow> ctl_kept w w'"
proof -
  assume h: "uni_hid_device_set_ready_complete gap accept i w = Some (w', ok)"
  have k: "ctl_kept w (emit (P_Ready i) (remove_timer T_Connection i w))" by (simp add: kept_emit kept_remove)
  show ?thesis
    using h by (auto simp: uni_hid_device_set_ready_complete_def Let_def intro: kept_trans [OF k kept_drop] kept_trans [OF k kept_upd]
        split: if_splits)
qed

lemma descriptor_ctl: "uni_hid_device_set_hid_descriptor xs n d = Some d' \<Longrightarrow> ctl d' = ctl d"
  by (auto simp: uni_hid_device_set_hid_descriptor_def Let_def split: if_splits)

lemma guess_ctl: "uni_hid_device_guess_controller_type_from_pid_vid desc d = Some d' \<Longrightarrow> ctl d' = ctl d"
  by (auto simp: uni_hid_device_guess_controller_type_from_pid_vid_def fallback_type_def uni_hid_parser_xboxone_does_name_match_def
      uni_hid_device_set_product_id_def uni_hid_device_set_vendor_id_def bind_eq_Some_conv Let_def
      dest!: descriptor_ctl split: if_splits)

lemma kept_guess: "guess_at i desc w = Some w' \<Longrightarrow> ctl_kept w w'"
  by (cases "i < length (devs w)")
    (auto simp: guess_at_def ctl_kept_def upd_def nth_list_update list_update_beyond dest: guess_ctl)

lemma kept_step:
  assumes "dev_step e ev w = Some w'" "\<forall>i c. ev \<noteq> Dv_Report i c"
  shows "ctl_kept w w'"
proof (cases ev)
  case (Dv_Create a)
  then show ?thesis
    using assms(1)
    by (auto simp: dev_step_def uni_hid_device_create_def bind_eq_Some_conv intro: kept_trans [OF kept_overwrite kept_add] split: option.splits)
next
  case (Dv_Set_Ready i accept)
  have u: "ctl_kept w (upd i (\<lambda>d. d\<lparr>conn := uni_bt_conn_set_state Cs_Pending_Ready (conn d)\<rparr>) w)" by (simp add: kept_upd)
  show ?thesis
    using assms(1) u kept_trans [OF u kept_complete]
    by (auto simp: Dv_Set_Ready dev_step_def uni_hid_device_set_ready_def Let_def split: if_splits option.splits)
next
  case (Dv_Timeout i)
  have "ctl_kept w (emit (P_Dump i) (remove_timer T_Connection i w))" by (simp add: kept_emit kept_remove)
  from kept_trans [OF this kept_drop] show ?thesis
    using assms(1) by (auto simp: Dv_Timeout dev_step_def device_connection_timeout_def kept_remove split: if_splits)
next
  case (Dv_Misc_Timer i)
  have "ctl_kept w (misc_button_enable_callback i (remove_timer T_Misc i w))"
    unfolding misc_button_enable_callback_def by (rule kept_trans [OF kept_remove kept_upd]) simp_all
  then show ?thesis using assms(1) by (auto simp: Dv_Misc_Timer dev_step_def split: if_splits)
next
  case (Dv_Connect i)
  then show ?thesis
    using assms(1) kept_emit [OF kept_upd [of "\<lambda>d. d\<lparr>conn := uni_bt_conn_set_connected True (conn d)\<rparr>"]]
    by (auto simp: dev_step_def uni_hid_device_connect_def uni_hid_device_on_connected_def split: if_splits)
next
  case (Dv_Report i c)
  then show ?thesis using assms(2) by simp
qed (use assms(1) in \<open>auto simp: dev_step_def uni_hid_device_connect_def uni_hid_device_on_connected_def
  intro: kept_upd kept_emit kept_guess kept_add kept_drop kept_complete\<close>)

lemma remap_pad: "remap_with cfg gp = Some gp' \<Longrightarrow> cfg_type cfg \<noteq> Map_Custom \<Longrightarrow> pad_ok gp \<Longrightarrow> pad_ok gp'"
proof -
  assume h: "remap_with cfg gp = Some gp'" "cfg_type cfg \<noteq> Map_Custom" "pad_ok gp"
  have "buttons (remap_switch gp) AND 0xFC00 = 0"
    using h(3) by (simp add: pad_ok_def bits_ok_def remap_switch_def Let_def set_if_def bit.conj_disj_distrib2 and_masked and.assoc)
  then show ?thesis
    using h by (cases "cfg_type cfg")
      (auto simp: remap_with_def uni_gamepad_remap_def pad_ok_def bits_ok_def gamepad_ok_def remap_switch_def Let_def)
qed

definition pads_stored :: "bt_world \<Rightarrow> bool" where
  "pads_stored w \<longleftrightarrow> (\<forall>j < length (devs w). pad_ok (gamepad (ctl (devs w ! j))))"

lemma stored_kept: "ctl_kept w w' \<Longrightarrow> pads_stored w \<Longrightarrow> pads_stored w'"
  unfolding ctl_kept_def pads_stored_def using pad_ok_zero by (auto simp: device_zero_def)

lemma stored_report:
  assumes "uni_hid_device_process_controller cfg i (upd i (\<lambda>d. d\<lparr>ctl := c\<rparr>) w) = Some w'" "cfg_type cfg \<noteq> Map_Custom"
    "pads_stored w" "pad_ok (gamepad c)" "i < length (devs w)"
  shows "pads_stored w'"
proof -
  let ?u = "upd i (\<lambda>d. d\<lparr>ctl := c\<rparr>) w"
  have put: "pads_stored (upd i (\<lambda>d. d\<lparr>ctl := k\<rparr>) x)" if "pads_stored x" "pad_ok (gamepad k)" for k x
    unfolding pads_stored_def upd_def
    using that [unfolded pads_stored_def] by (simp add: nth_put)
  have u: "pads_stored ?u" by (rule put [OF assms(3,4)])
  have sys: "ctl_kept x x'" if s: "process_misc_button_system i x = Some x'" for x x'
  proof -
    let ?e = "emit (P_Oob i) (upd i (\<lambda>d. d\<lparr>misc_button_wait_release := misc_button_wait_release d OR 1\<rparr>) x)"
    have a: "ctl_kept x ?e" by (intro kept_emit kept_upd) simp
    have b: "ctl_kept x (upd i (\<lambda>d. d\<lparr>misc_button_wait_delay := misc_button_wait_delay d OR 1\<rparr>) ?e)"
      by (intro kept_emit_upd kept_upd) simp_all
    show ?thesis
      using s by (auto simp: process_misc_button_system_def Let_def intro!: kept_upd a dest: kept_trans [OF b kept_add] split: if_splits)
  qed
  have home: "ctl_kept x (process_misc_button_home i x)" for x
    by (auto simp: process_misc_button_home_def intro!: kept_upd)
  show ?thesis
  proof (cases "conn_state (conn (devs ?u ! i)) = Cs_Ready")
    case False
    then show ?thesis using assms(1) u by (simp add: uni_hid_device_process_controller_def)
  next
    case True
    have ctl: "ctl (devs ?u ! i) = c" using assms(5) by simp
    obtain c' w2 where c': "platform_view cfg c = Some c'"
      "process_misc_button_system i (emit (P_Data i c') (upd i (\<lambda>d. d\<lparr>ctl := c'\<rparr>) ?u)) = Some w2"
      "w' = process_misc_button_home i w2"
      using assms(1) True unfolding uni_hid_device_process_controller_def ctl platform_view_def [symmetric]
      by (auto simp: bind_eq_Some_conv Let_def ctl)
    have "pad_ok (gamepad c')"
      using c'(1) assms(2,4) remap_pad by (auto simp: platform_view_def split: if_splits)
    then have "pads_stored (emit (P_Data i c') (upd i (\<lambda>d. d\<lparr>ctl := c'\<rparr>) ?u))"
      using put [OF u] by (simp add: pads_stored_def)
    from stored_kept [OF home stored_kept [OF sys [OF c'(2)] this]] show ?thesis by (simp add: c'(3))
  qed
qed


lemma stored_start: "pads_stored world_start"
  using pad_ok_zero by (simp add: pads_stored_def world_start_def device_fresh_def device_zero_def)

text \<open>
  The table keeps what the mapping made of the gamepad.  Under the layout of the Switch, a driver that keeps its controller
  finds the buttons it wrote itself swapped, and with the next report they are swapped back.
\<close>

lemma kept_buttons_flip:
  assumes "uni_hid_device_process_controller cfg i (upd i (\<lambda>d. d\<lparr>ctl := c\<rparr>) w) = Some w'" "cfg_type cfg = Map_Switch"
    "klass c = Class_Gamepad" "conn_state (conn (devs w ! i)) = Cs_Ready" "i < length (devs w)"
  shows "gamepad (ctl (devs w' ! i)) = remap_switch (gamepad c)"
proof -
  let ?u = "upd i (\<lambda>d. d\<lparr>ctl := c\<rparr>) w"
  let ?c = "c\<lparr>gamepad := remap_switch (gamepad c)\<rparr>"
  obtain w2 where w2: "process_misc_button_system i (emit (P_Data i ?c) (upd i (\<lambda>d. d\<lparr>ctl := ?c\<rparr>) ?u)) = Some w2"
    "w' = process_misc_button_home i w2"
    using assms
    by (auto simp: uni_hid_device_process_controller_def bind_eq_Some_conv Let_def remap_with_def uni_gamepad_remap_def
        split: if_splits)
  have s: "ctl (devs x' ! i) = ctl (devs x ! i) \<and> length (devs x') = length (devs x)"
    if "process_misc_button_system i x = Some x'" "i < length (devs x)" for x x'
    using that
    by (auto simp: process_misc_button_system_def Let_def upd_def emit_def add_timer_def split: if_splits)
  have h: "ctl (devs (process_misc_button_home i x) ! i) = ctl (devs x ! i)" if "i < length (devs x)" for x
    using that by (simp add: process_misc_button_home_def upd_def)
  show ?thesis using s [OF w2(1)] h assms(5) w2(2) by simp
qed




end
