(* ===== verification/Sdp_Data.thy ===== *)
theory Sdp_Data
  imports Hid_Device
begin

text \<open>
  The data elements of the Service Discovery Protocol, as far as bt/uni_bt_sdp.c reads them: the accessors and the iterator of
  btstack/src/classic/sdp_util.c over the buffer an attribute is collected in, and the two nested loops that look for the
  report descriptor.  The sizes in the elements are what the remote device sent and nothing checks them.  \<open>None\<close> is undefined
  behaviour, a read outside of the buffer or an iterator that was never set, or a loop that does not end.
\<close>

section \<open>Data elements\<close>

definition MAX_ATTRIBUTE_VALUE_SIZE :: nat where [simp]: "MAX_ATTRIBUTE_VALUE_SIZE = 512"

definition DE_NIL :: u8 where [simp]: "DE_NIL = 0"
definition DE_STRING :: u8 where [simp]: "DE_STRING = 4"
definition DE_DES :: u8 where [simp]: "DE_DES = 6"
definition DE_SIZE_16 :: u8 where [simp]: "DE_SIZE_16 = 1"
definition DE_SIZE_128 :: u8 where [simp]: "DE_SIZE_128 = 4"
definition DE_SIZE_VAR_8 :: u8 where [simp]: "DE_SIZE_VAR_8 = 5"
definition DE_SIZE_VAR_16 :: u8 where [simp]: "DE_SIZE_VAR_16 = 6"
definition DE_SIZE_VAR_32 :: u8 where [simp]: "DE_SIZE_VAR_32 = 7"

definition big_endian_read_16 :: "u8 list \<Rightarrow> nat \<Rightarrow> u16 option" where
  "big_endian_read_16 m p = do {
     hi \<leftarrow> read_at m p;
     lo \<leftarrow> read_at m (p + 1);
     Some (ucast lo OR push_bit 8 (ucast hi))
   }"

definition big_endian_read_32 :: "u8 list \<Rightarrow> nat \<Rightarrow> u32 option" where
  "big_endian_read_32 m p = do {
     b3 \<leftarrow> read_at m p;
     b2 \<leftarrow> read_at m (p + 1);
     b1 \<leftarrow> read_at m (p + 2);
     b0 \<leftarrow> read_at m (p + 3);
     Some (ucast b0 OR push_bit 8 (ucast b1) OR push_bit 16 (ucast b2) OR push_bit 24 (ucast b3))
   }"

text \<open>An element is the offset of its first byte.\<close>

definition de_get_size_type :: "u8 \<Rightarrow> u8" where
  "de_get_size_type h = h AND 7"

definition de_get_element_type :: "u8 \<Rightarrow> u8" where
  "de_get_element_type h = drop_bit 3 h"

definition de_get_header_size :: "u8 \<Rightarrow> nat" where
  "de_get_header_size h = (let s = de_get_size_type h in
     if s \<le> DE_SIZE_128 then 1 else 1 + 2 ^ unat (s - DE_SIZE_VAR_8))"

definition de_get_data_size :: "u8 list \<Rightarrow> nat \<Rightarrow> u32 option" where
  "de_get_data_size m p = do {
     h \<leftarrow> read_at m p;
     let s = de_get_size_type h;
     if s = DE_SIZE_VAR_8 then map_option ucast (read_at m (p + 1))
     else if s = DE_SIZE_VAR_16 then map_option ucast (big_endian_read_16 m (p + 1))
     else if s = DE_SIZE_VAR_32 then big_endian_read_32 m (p + 1)
     else Some (if de_get_element_type h = DE_NIL then 0 else push_bit (unat s) 1)
   }"

definition de_get_len :: "u8 list \<Rightarrow> nat \<Rightarrow> u32 option" where
  "de_get_len m p = do {
     h \<leftarrow> read_at m p;
     n \<leftarrow> de_get_data_size m p;
     Some (of_nat (de_get_header_size h) + n)
   }"

text \<open>Inside, whether there was a value of this size.\<close>

definition de_element_get_uint16 :: "u8 list \<Rightarrow> nat \<Rightarrow> u16 option option" where
  "de_element_get_uint16 m p = do {
     h \<leftarrow> read_at m p;
     if de_get_size_type h \<noteq> DE_SIZE_16 then Some None
     else map_option Some (big_endian_read_16 m (p + de_get_header_size h))
   }"

section \<open>The iterator\<close>

record des_iterator =
  it_element :: nat
  it_pos :: u16
  it_length :: u16

definition des_iterator_init :: "u8 list \<Rightarrow> nat \<Rightarrow> des_iterator option option" where
  "des_iterator_init m p = do {
     h \<leftarrow> read_at m p;
     if de_get_element_type h \<noteq> DE_DES then Some None
     else do {
       n \<leftarrow> de_get_len m p;
       Some (Some \<lparr>it_element = p, it_pos = of_nat (de_get_header_size h), it_length = ucast n\<rparr>)
     }
   }"

definition des_iterator_has_more :: "des_iterator \<Rightarrow> bool" where
  "des_iterator_has_more it \<longleftrightarrow> it_pos it < it_length it"

definition des_iterator_get_element :: "des_iterator \<Rightarrow> nat" where
  "des_iterator_get_element it = it_element it + unat (it_pos it)"

definition des_iterator_next :: "u8 list \<Rightarrow> des_iterator \<Rightarrow> des_iterator option" where
  "des_iterator_next m it = do {
     n \<leftarrow> de_get_len m (des_iterator_get_element it);
     Some (it\<lparr>it_pos := it_pos it + ucast n\<rparr>)
   }"

section \<open>The report descriptor\<close>

definition descriptor_string :: "u8 list \<Rightarrow> nat \<Rightarrow> hid_device \<Rightarrow> hid_device option" where
  "descriptor_string m p d = do {
     h \<leftarrow> read_at m p;
     n \<leftarrow> de_get_data_size m p;
     uni_hid_device_set_hid_descriptor (drop (p + de_get_header_size h) m) (sint n) d
   }"

partial_function (option) strings_loop :: "u8 list \<Rightarrow> des_iterator \<Rightarrow> hid_device \<Rightarrow> hid_device option" where
  "strings_loop m it d =
     (if \<not> des_iterator_has_more it then Some d
      else do {
        h \<leftarrow> read_at m (des_iterator_get_element it);
        d1 \<leftarrow> (if de_get_element_type h \<noteq> DE_STRING then Some d else descriptor_string m (des_iterator_get_element it) d);
        it1 \<leftarrow> des_iterator_next m it;
        strings_loop m it1 d1
      })"

partial_function (option) descriptors_loop :: "u8 list \<Rightarrow> des_iterator \<Rightarrow> hid_device \<Rightarrow> hid_device option" where
  "descriptors_loop m it d =
     (if \<not> des_iterator_has_more it then Some d
      else do {
        h \<leftarrow> read_at m (des_iterator_get_element it);
        d1 \<leftarrow> (if de_get_element_type h \<noteq> DE_DES then Some d
               else do { i \<leftarrow> des_iterator_init m (des_iterator_get_element it); it' \<leftarrow> i; strings_loop m it' d });
        it1 \<leftarrow> des_iterator_next m it;
        descriptors_loop m it1 d1
      })"

text \<open>The result of the first \<open>des_iterator_init\<close> is ignored; if it fails the iterator has no value.\<close>

definition hid_descriptor_list :: "u8 list \<Rightarrow> hid_device \<Rightarrow> hid_device option" where
  "hid_descriptor_list m d = do {
     i \<leftarrow> des_iterator_init m 0;
     it \<leftarrow> i;
     descriptors_loop m it d
   }"

text \<open>A byte of an attribute: its length, the offset and the byte; whether it was the last.\<close>

definition attribute_byte :: "u16 \<Rightarrow> u16 \<Rightarrow> u8 \<Rightarrow> u8 list \<Rightarrow> (u8 list \<times> bool) option" where
  "attribute_byte len off b m =
     (if MAX_ATTRIBUTE_VALUE_SIZE < unat len then Some (m, False)
      else if length m \<le> unat off then None
      else Some (m[unat off := b], off + 1 = len))"

section \<open>A descriptor as it is sent\<close>

definition wire16 :: "nat \<Rightarrow> u8 list" where
  "wire16 n = [of_nat (n div 256), of_nat (n mod 256)]"

text \<open>A list of one descriptor, its class and its text, each with a size of 16 bits.\<close>

definition descriptor_wire :: "u8 list \<Rightarrow> u8 list" where
  "descriptor_wire desc = [0x36] @ wire16 (length desc + 8) @ [0x36] @ wire16 (length desc + 5) @ [0x08, 0x22, 0x26] @ wire16 (length desc) @ desc"

lemma read_at_nth [simp]: "i < length xs \<Longrightarrow> read_at xs i = Some (xs ! i)"
  by (simp add: read_at_def)

lemma wire16_word: "ucast (of_nat (n mod 256) :: u8) OR push_bit 8 (ucast (of_nat (n div 256) :: u8)) = (of_nat n :: u16)"
proof (rule bit_word_eqI)
  fix k
  assume "k < LENGTH(16)"
  have "n mod 256 = take_bit 8 n" "n div 256 = drop_bit 8 n" by (simp_all add: take_bit_eq_mod drop_bit_eq_div)
  then show "bit (ucast (of_nat (n mod 256) :: u8) OR push_bit 8 (ucast (of_nat (n div 256) :: u8)) :: u16) k = bit (of_nat n :: u16) k"
    using \<open>k < LENGTH(16)\<close> by (auto simp: bit_simps)
qed

lemma wire16_read: "p + 1 < length m \<Longrightarrow> m ! p = of_nat (n div 256) \<Longrightarrow> m ! (p + 1) = of_nat (n mod 256) \<Longrightarrow>
    big_endian_read_16 m p = Some (of_nat n)"
  by (simp add: big_endian_read_16_def wire16_word)

lemma header_bytes:
  "de_get_size_type 0x36 = 6" "de_get_element_type 0x36 = 6" "de_get_header_size 0x36 = 3"
  "de_get_size_type 0x08 = 0" "de_get_element_type 0x08 = 1" "de_get_header_size 0x08 = 1"
  "de_get_size_type 0x26 = 6" "de_get_element_type 0x26 = 4" "de_get_header_size 0x26 = 3"
  by (simp_all add: de_get_size_type_def de_get_element_type_def de_get_header_size_def Let_def)

lemma sized_element:
  assumes "p + 2 < length m" "m ! p = h" "de_get_size_type h = 6" "m ! (p + 1) = of_nat (n div 256)" "m ! (p + 2) = of_nat (n mod 256)"
    "n < 65530"
  shows "de_get_data_size m p = Some (of_nat n)" "de_get_len m p = Some (of_nat (n + 3))"
proof -
  have h: "de_get_header_size h = 3" using assms(3) by (simp add: de_get_header_size_def)
  have "ucast (of_nat n :: u16) = (of_nat n :: u32)"
    using assms(6) by (simp add: unsigned_of_nat take_bit_nat_eq_self)
  then show s: "de_get_data_size m p = Some (of_nat n)"
    using assms wire16_read [of "p + 1" m n] by (simp add: de_get_data_size_def)
  show "de_get_len m p = Some (of_nat (n + 3))"
    using assms(1,2) h by (simp add: de_get_len_def s)
qed

lemma wire_bytes:
  assumes "take (length desc + 11) m = descriptor_wire desc"
  shows "length desc + 11 \<le> length m" "m ! 0 = 0x36" "m ! 1 = of_nat ((length desc + 8) div 256)" "m ! 2 = of_nat ((length desc + 8) mod 256)"
    "m ! 3 = 0x36" "m ! 4 = of_nat ((length desc + 5) div 256)" "m ! 5 = of_nat ((length desc + 5) mod 256)"
    "m ! 6 = 0x08" "m ! 8 = 0x26" "m ! 9 = of_nat (length desc div 256)" "m ! 10 = of_nat (length desc mod 256)"
    "take (length desc) (drop 11 m) = desc"
proof -
  have l: "length (descriptor_wire desc) = length desc + 11" by (simp add: descriptor_wire_def wire16_def)
  show len: "length desc + 11 \<le> length m" using arg_cong [OF assms, of length] l by simp
  have "m ! k = descriptor_wire desc ! k" if "k < 11" for k
    using that assms [symmetric] by simp
  then have n: "m ! 0 = descriptor_wire desc ! 0 \<and> m ! 1 = descriptor_wire desc ! 1 \<and> m ! 2 = descriptor_wire desc ! 2 \<and>
      m ! 3 = descriptor_wire desc ! 3 \<and> m ! 4 = descriptor_wire desc ! 4 \<and> m ! 5 = descriptor_wire desc ! 5 \<and>
      m ! 6 = descriptor_wire desc ! 6 \<and> m ! 8 = descriptor_wire desc ! 8 \<and> m ! 9 = descriptor_wire desc ! 9 \<and>
      m ! 10 = descriptor_wire desc ! 10" by simp
  show "m ! 0 = 0x36" "m ! 1 = of_nat ((length desc + 8) div 256)" "m ! 2 = of_nat ((length desc + 8) mod 256)"
    "m ! 3 = 0x36" "m ! 4 = of_nat ((length desc + 5) div 256)" "m ! 5 = of_nat ((length desc + 5) mod 256)"
    "m ! 6 = 0x08" "m ! 8 = 0x26" "m ! 9 = of_nat (length desc div 256)" "m ! 10 = of_nat (length desc mod 256)"
    using n by (simp_all add: descriptor_wire_def wire16_def)
  have "drop 11 (take (length desc + 11) m) = desc" unfolding assms by (simp add: descriptor_wire_def wire16_def)
  then show "take (length desc) (drop 11 m) = desc" by (simp add: drop_take)
qed

lemma it_advance: "a + b < 65536 \<Longrightarrow> (of_nat a :: u16) + ucast (of_nat b :: u32) = of_nat (a + b)"
  by (simp add: unsigned_of_nat take_bit_nat_eq_self)

lemma it_end: "\<not> des_iterator_has_more \<lparr>it_element = p, it_pos = of_nat n, it_length = of_nat n\<rparr>"
  by (simp add: des_iterator_has_more_def)

lemma it_more: "a < b \<Longrightarrow> b < 65536 \<Longrightarrow> des_iterator_has_more \<lparr>it_element = p, it_pos = of_nat a, it_length = of_nat b\<rparr>"
  by (simp add: des_iterator_has_more_def word_less_nat_alt unat_of_nat)

lemma it_at: "a < 65536 \<Longrightarrow> des_iterator_get_element \<lparr>it_element = p, it_pos = of_nat a, it_length = l\<rparr> = p + a"
  by (simp add: des_iterator_get_element_def unat_of_nat)

lemma it_next: "de_get_len m (p + a) = Some (of_nat b) \<Longrightarrow> a + b < 65536 \<Longrightarrow>
    des_iterator_next m \<lparr>it_element = p, it_pos = of_nat a, it_length = l\<rparr> = Some \<lparr>it_element = p, it_pos = of_nat (a + b), it_length = l\<rparr>"
  using it_advance [of a b] by (simp add: des_iterator_next_def it_at)

lemma strings_end: "\<not> des_iterator_has_more it \<Longrightarrow> strings_loop m it = Some"
  by (rule ext, subst strings_loop.simps) simp

lemma strings_step:
  "des_iterator_has_more it \<Longrightarrow> des_iterator_get_element it = p \<Longrightarrow> p < length m \<Longrightarrow> des_iterator_next m it = Some it1 \<Longrightarrow>
   strings_loop m it d = Option.bind (if de_get_element_type (m ! p) \<noteq> DE_STRING then Some d else descriptor_string m p d) (strings_loop m it1)"
  by (subst strings_loop.simps) simp

lemma descriptors_end: "\<not> des_iterator_has_more it \<Longrightarrow> descriptors_loop m it = Some"
  by (rule ext, subst descriptors_loop.simps) simp

lemma descriptors_step:
  "des_iterator_has_more it \<Longrightarrow> des_iterator_get_element it = p \<Longrightarrow> p < length m \<Longrightarrow> des_iterator_next m it = Some it1 \<Longrightarrow>
   descriptors_loop m it d = Option.bind (if de_get_element_type (m ! p) \<noteq> DE_DES then Some d
     else do { i \<leftarrow> des_iterator_init m p; it' \<leftarrow> i; strings_loop m it' d }) (descriptors_loop m it1)"
  by (subst descriptors_loop.simps) simp

lemma wire_strings:
  assumes "take (length desc + 11) m = descriptor_wire desc" "length desc \<le> 501"
  shows "strings_loop m \<lparr>it_element = 3, it_pos = of_nat 3, it_length = of_nat (length desc + 8)\<rparr> d =
    uni_hid_device_set_hid_descriptor (drop 11 m) (int (length desc)) d"
proof -
  let ?n = "length desc"
  note w = wire_bytes [OF assms(1)]
  have l1: "de_get_len m (3 + 3) = Some (of_nat 2)"
    using w(1,8) by (simp add: de_get_len_def de_get_data_size_def header_bytes)
  have s: "de_get_data_size m 8 = Some (of_nat ?n)" "de_get_len m (3 + 5) = Some (of_nat (?n + 3))"
    using sized_element [where p = 8 and m = m and h = "0x26" and n = "?n"] w(1,9,10,11) assms(2) by (simp_all add: header_bytes)
  have i: "sint (of_nat ?n :: u32) = int ?n"
    using assms(2) by (simp add: sint_uint unsigned_of_nat take_bit_nat_eq_self signed_take_bit_int_eq_self)
  have str: "descriptor_string m 8 d = uni_hid_device_set_hid_descriptor (drop 11 m) (int ?n) d"
    using w(1,9) i by (simp add: descriptor_string_def s header_bytes)
  have e: "\<not> des_iterator_has_more \<lparr>it_element = 3, it_pos = of_nat (5 + (?n + 3)), it_length = of_nat (?n + 8)\<rparr>"
    using it_end [of 3 "?n + 8"] by (simp add: add.commute)
  have nx: "des_iterator_next m \<lparr>it_element = 3, it_pos = of_nat 3, it_length = of_nat (?n + 8)\<rparr> =
      Some \<lparr>it_element = 3, it_pos = of_nat (3 + 2), it_length = of_nat (?n + 8)\<rparr>"
    "des_iterator_next m \<lparr>it_element = 3, it_pos = of_nat (3 + 2), it_length = of_nat (?n + 8)\<rparr> =
      Some \<lparr>it_element = 3, it_pos = of_nat (5 + (?n + 3)), it_length = of_nat (?n + 8)\<rparr>"
    using it_next [OF l1] it_next [of m 3 "3 + 2" "?n + 3"] s(2) assms(2) by simp_all
  have more: "des_iterator_has_more \<lparr>it_element = 3, it_pos = of_nat 3, it_length = of_nat (?n + 8)\<rparr>"
    "des_iterator_has_more \<lparr>it_element = 3, it_pos = of_nat (3 + 2), it_length = of_nat (?n + 8)\<rparr>"
    using assms(2) by (intro it_more; simp)+
  have at: "des_iterator_get_element \<lparr>it_element = 3, it_pos = of_nat 3, it_length = of_nat (?n + 8)\<rparr> = 6"
    "des_iterator_get_element \<lparr>it_element = 3, it_pos = of_nat (3 + 2), it_length = of_nat (?n + 8)\<rparr> = 8"
    by (subst it_at; simp)+
  have "strings_loop m \<lparr>it_element = 3, it_pos = of_nat 3, it_length = of_nat (?n + 8)\<rparr> d =
      strings_loop m \<lparr>it_element = 3, it_pos = of_nat (3 + 2), it_length = of_nat (?n + 8)\<rparr> d"
    using w(1,8) by (subst strings_step [OF more(1) at(1) _ nx(1)]) (simp_all add: header_bytes del: of_nat_add of_nat_numeral)
  also have "\<dots> = uni_hid_device_set_hid_descriptor (drop 11 m) (int ?n) d"
    using w(1,9) str strings_end [OF e, of m]
    by (subst strings_step [OF more(2) at(2) _ nx(2)])
      (simp_all add: header_bytes bind_eq_Some_conv del: of_nat_add of_nat_numeral split: option.split)
  finally show ?thesis .
qed

lemma descriptor_found:
  assumes "take (length desc + 11) m = descriptor_wire desc" "length desc \<le> 501"
  shows "hid_descriptor_list m d = uni_hid_device_set_hid_descriptor (drop 11 m) (int (length desc)) d"
proof -
  let ?n = "length desc"
  note w = wire_bytes [OF assms(1)]
  have nz: "m \<noteq> []" using w(1) by auto
  have o: "de_get_len m 0 = Some (of_nat (?n + 11))"
    using sized_element [where p = 0 and m = m and h = "0x36" and n = "?n + 8"] w(1-4) assms(2) by (simp add: header_bytes numeral_2_eq_2)
  have l: "de_get_len m (0 + 3) = Some (of_nat (?n + 8))"
    using sized_element [where p = 3 and m = m and h = "0x36" and n = "?n + 5"] w(1,5-7) assms(2) by (simp add: header_bytes)
  have c: "ucast (of_nat (?n + 11) :: u32) = (of_nat (?n + 11) :: u16)" "ucast (of_nat (?n + 8) :: u32) = (of_nat (?n + 8) :: u16)"
    using assms(2) by (simp_all add: unsigned_of_nat take_bit_nat_eq_self del: of_nat_add)
  have i0: "des_iterator_init m 0 = Some (Some \<lparr>it_element = 0, it_pos = of_nat 3, it_length = of_nat (?n + 11)\<rparr>)"
    using nz w(1,2) by (simp add: des_iterator_init_def header_bytes o c del: of_nat_add)
  have i3: "des_iterator_init m 3 = Some (Some \<lparr>it_element = 3, it_pos = of_nat 3, it_length = of_nat (?n + 8)\<rparr>)"
    using w(1,5) l by (simp add: des_iterator_init_def header_bytes c del: of_nat_add)
  have nx: "des_iterator_next m \<lparr>it_element = 0, it_pos = of_nat 3, it_length = of_nat (?n + 11)\<rparr> =
      Some \<lparr>it_element = 0, it_pos = of_nat (3 + (?n + 8)), it_length = of_nat (?n + 11)\<rparr>"
    using it_next [OF l] assms(2) by simp
  have e: "\<not> des_iterator_has_more \<lparr>it_element = 0, it_pos = of_nat (3 + (?n + 8)), it_length = of_nat (?n + 11)\<rparr>"
    using it_end [of 0 "?n + 11"] by (simp add: add.commute)
  have more: "des_iterator_has_more \<lparr>it_element = 0, it_pos = of_nat 3, it_length = of_nat (?n + 11)\<rparr>"
    using assms(2) by (intro it_more; simp)
  have at: "des_iterator_get_element \<lparr>it_element = 0, it_pos = of_nat 3, it_length = of_nat (?n + 11)\<rparr> = 3"
    by (subst it_at; simp)
  show ?thesis
    unfolding hid_descriptor_list_def i0 Option.bind.simps
    using w(1,5) wire_strings [OF assms, of d] descriptors_end [OF e, of m]
    by (subst descriptors_step [OF more at _ nx]) (simp_all add: i3 header_bytes del: of_nat_add of_nat_numeral)
qed

section \<open>Hostile answers\<close>

text \<open>
  An element whose size makes its length zero, four bytes of size and five of header, stops the iterator where it is: the
  loop never ends.
\<close>

lemma strings_loop_stuck:
  assumes "des_iterator_has_more it" "des_iterator_next m it = Some it" "read_at m (des_iterator_get_element it) = Some h"
    "de_get_element_type h \<noteq> DE_STRING"
  shows "strings_loop m it d = None"
proof (rule ccontr)
  assume "strings_loop m it d \<noteq> None"
  then obtain y where "strings_loop m it d = Some y" by auto
  then have "\<not> (m = m \<and> it = it)"
  proof (rule strings_loop.raw_induct [where P = "\<lambda>m' x e y. \<not> (m' = m \<and> x = it)", rotated])
    fix f m' x e y
    assume ih: "\<And>m' x e y. f m' x e = Some y \<Longrightarrow> \<not> (m' = m \<and> x = it)"
      and s: "(if \<not> des_iterator_has_more x then Some e else do {
        h \<leftarrow> read_at m' (des_iterator_get_element x);
        d1 \<leftarrow> (if de_get_element_type h \<noteq> DE_STRING then Some e else descriptor_string m' (des_iterator_get_element x) e);
        it1 \<leftarrow> des_iterator_next m' x;
        f m' it1 d1
      }) = Some y"
    show "\<not> (m' = m \<and> x = it)"
    proof
      assume "m' = m \<and> x = it"
      with s have "f m it e = Some y" using assms by simp
      then show False using ih by blast
    qed
  qed
  then show False by simp
qed

text \<open>
  Nine bytes hang the task that runs the Bluetooth stack, and twelve overrun the descriptor of the device.
\<close>

definition hanging_answer :: "u8 list" where
  "hanging_answer = [0x35, 0x07, 0x35, 0x05, 0x0f, 0xff, 0xff, 0xff, 0xfb]"

definition overrunning_answer :: "u8 list" where
  "overrunning_answer = [0x35, 0x0a, 0x35, 0x08, 0x26, 0xff, 0xff, 0, 0, 0, 0, 0]"

lemma short_bytes: "de_get_size_type 0x35 = 5" "de_get_element_type 0x35 = 6" "de_get_header_size 0x35 = 2"
  "de_get_size_type 0x0f = 7" "de_get_element_type 0x0f = 1" "de_get_header_size 0x0f = 5"
  by (simp_all add: de_get_size_type_def de_get_element_type_def de_get_header_size_def Let_def)

lemma prefix_read: "take (length a) m = a \<Longrightarrow> k < length a \<Longrightarrow> read_at m k = Some (a ! k)"
proof -
  assume a: "take (length a) m = a" "k < length a"
  have "length a \<le> length m" using arg_cong [OF a(1), of length] by simp
  moreover have "m ! k = a ! k" using a nth_take [of k "length a" m] by simp
  ultimately show ?thesis using a(2) by simp
qed

lemma short_sequence:
  assumes "read_at m p = Some 0x35" "read_at m (p + 1) = Some a"
  shows "des_iterator_init m p = Some (Some \<lparr>it_element = p, it_pos = 2, it_length = ucast (2 + ucast a :: u32)\<rparr>)"
  using assms by (simp only: des_iterator_init_def de_get_len_def de_get_data_size_def short_bytes Option.bind.simps Let_def
      DE_SIZE_VAR_8_def DE_DES_def if_True if_False option.map simp_thms) simp

lemma descriptors_fail:
  assumes "des_iterator_has_more it" "des_iterator_get_element it = p" "read_at m p = Some h" "de_get_element_type h = DE_DES"
    "des_iterator_init m p = Some (Some i)" "strings_loop m i d = None"
  shows "descriptors_loop m it d = None"
  using assms by (subst descriptors_loop.simps) (simp del: read_at_Some)

lemma get_element_at: "des_iterator_get_element \<lparr>it_element = 0, it_pos = 2, it_length = l\<rparr> = 2"
  by (simp add: des_iterator_get_element_def)

text \<open>The memory behind the answer does not matter.\<close>

theorem sdp_answer_hangs:
  assumes "take 9 m = hanging_answer"
  shows "hid_descriptor_list m d = None"
proof -
  have "take (length hanging_answer) m = hanging_answer" using assms by (simp add: hanging_answer_def eval_nat_numeral)
  note r = prefix_read [OF this, unfolded hanging_answer_def, simplified]
  have m: "read_at m 0 = Some 0x35" "read_at m 1 = Some 7" "read_at m 2 = Some 0x35" "read_at m 3 = Some 5" "read_at m 4 = Some 0x0f"
    "read_at m 5 = Some 0xff" "read_at m 6 = Some 0xff" "read_at m 7 = Some 0xff" "read_at m 8 = Some 0xfb"
    using r [of 0] r [of 1] r [of 2] r [of 3] r [of 4] r [of 5] r [of 6] r [of 7] r [of 8] by simp_all
  let ?o = "\<lparr>it_element = 0, it_pos = 2, it_length = 9\<rparr>" and ?i = "\<lparr>it_element = 2, it_pos = 2, it_length = 7\<rparr>"
  have i: "des_iterator_init m 0 = Some (Some ?o)" "des_iterator_init m 2 = Some (Some ?i)"
    using short_sequence [of m 0 7] short_sequence [of m 2 5] m by simp_all
  have b: "big_endian_read_32 m 5 = Some 0xfffffffb" using m by (simp add: big_endian_read_32_def)
  have n: "de_get_len m 4 = Some 0" using m(5) b by (simp add: de_get_len_def de_get_data_size_def short_bytes)
  have s: "strings_loop m ?i d = None"
    using n m(5) by (intro strings_loop_stuck [where h = "0x0f"])
      (simp_all add: des_iterator_has_more_def des_iterator_next_def des_iterator_get_element_def short_bytes del: read_at_Some)
  show ?thesis
    unfolding hid_descriptor_list_def i(1) Option.bind.simps
    by (rule descriptors_fail [OF _ get_element_at m(3) _ i(2)]) (simp_all add: s des_iterator_has_more_def short_bytes)
qed

theorem sdp_answer_overruns:
  assumes "take 7 m = take 7 overrunning_answer"
  shows "hid_descriptor_list m d = None"
proof -
  have "take (length (take 7 overrunning_answer)) m = take 7 overrunning_answer" using assms by (simp add: overrunning_answer_def eval_nat_numeral)
  note r = prefix_read [OF this, unfolded overrunning_answer_def, simplified]
  have m: "read_at m 0 = Some 0x35" "read_at m 1 = Some 0x0a" "read_at m 2 = Some 0x35" "read_at m 3 = Some 8" "read_at m 4 = Some 0x26"
    "read_at m 5 = Some 0xff" "read_at m 6 = Some 0xff"
    using r [of 0] r [of 1] r [of 2] r [of 3] r [of 4] r [of 5] r [of 6] by simp_all
  let ?o = "\<lparr>it_element = 0, it_pos = 2, it_length = 12\<rparr>" and ?i = "\<lparr>it_element = 2, it_pos = 2, it_length = 10\<rparr>"
  have i: "des_iterator_init m 0 = Some (Some ?o)" "des_iterator_init m 2 = Some (Some ?i)"
    using short_sequence [of m 0 "0x0a"] short_sequence [of m 2 8] m by simp_all
  have n: "de_get_data_size m 4 = Some 0xffff"
    using m(5-7) by (simp add: de_get_data_size_def big_endian_read_16_def header_bytes del: read_at_Some)
  have "descriptor_string m 4 d = None"
    using m(5) n by (simp add: descriptor_string_def uni_hid_device_set_hid_descriptor_def del: read_at_Some)
  then have s: "strings_loop m ?i d = None"
    using m(5) by (subst strings_loop.simps)
      (simp add: des_iterator_has_more_def des_iterator_get_element_def header_bytes del: read_at_Some)
  show ?thesis
    unfolding hid_descriptor_list_def i(1) Option.bind.simps
    by (rule descriptors_fail [OF _ get_element_at m(3) _ i(2)]) (simp_all add: s des_iterator_has_more_def short_bytes)
qed

end
