(* ===== verification/Bredr.thy ===== *)
theory Bredr
  imports Sdp_Data Raw_Pads Switch_Pad
begin

text \<open>
  How a BR/EDR controller gets connected: bt/uni_bt_bredr.c and bt/uni_bt_sdp.c, with the dispatch of bt/uni_bt.c.  A device goes
  from discovery or an incoming connection over its name, the two L2CAP channels and the two SDP queries, in an order that
  depends on it, to \<open>uni_hid_device_set_ready\<close>.  The events are those of \<open>uni_bt_packet_handler\<close>, with what BTstack's accessors
  read from the packets, and the timers; the calls into BTstack are a log, and its answers come with each event.  \<open>None\<close> is a
  crash as in \<open>Hid_Device\<close>, a loop that does not end, or undefined behaviour.

  There is one SDP query at a time, for the device in \<open>sdp_device\<close>, a pointer that is not reset when the device is deleted.
\<close>

section \<open>State\<close>

datatype uni_sdp_query_type = SDP_QUERY_AFTER_CONNECT | SDP_QUERY_BEFORE_CONNECT | SDP_QUERY_NOT_NEEDED

text \<open>The members of a device that only these modules use.\<close>

record conn_extra =
  sdp_query_type :: uni_sdp_query_type
  page_scan_repetition_mode :: u8
  clock_offset :: u16
  rssi :: u8

definition extra_zero :: conn_extra where
  "extra_zero = \<lparr>sdp_query_type = SDP_QUERY_AFTER_CONNECT, page_scan_repetition_mode = 0, clock_offset = 0, rssi = 0\<rparr>"

datatype bredr_call =
    Remote_Name_Request bd_addr u8 u16
  | Create_Channel bd_addr u16
  | Accept_Connection u16
  | Decline_Connection u16
  | Sdp_Query bd_addr u16
  | Drop_Link_Key bd_addr
  | Pin_Code_Response bd_addr "u8 list"

record bredr =
  bt :: bt_world
  extra :: "conn_extra list"
  sdp_device :: "nat option"
  sdp_query_timer :: "nat option"
  sdp_attribute_value :: "u8 list"
  calls :: "bredr_call list"

text \<open>
  The environment: the connection types, the set-up functions of the drivers, the answer of the platform, the descriptor the
  Xbox driver fakes, the allowlist, whether incoming connections are allowed, the mappings, and what the drivers make of input
  and feature reports.
\<close>

record bredr_env =
  be_gap :: "u16 \<Rightarrow> gap_type"
  be_setup :: "driver \<Rightarrow> nat \<Rightarrow> bt_world \<Rightarrow> bt_world option"
  be_accept :: bool
  be_xbox :: "u8 list"
  be_allow :: allowlist
  be_incoming :: bool
  be_cfg :: gamepad_cfg
  be_input :: "nat \<Rightarrow> u8 list \<Rightarrow> bt_world \<Rightarrow> bt_world option"
  be_feature :: "nat \<Rightarrow> u8 list \<Rightarrow> bt_world \<Rightarrow> bt_world option"

text \<open>What BTstack answers within an event: status and local channel aid of \<open>l2cap_create_channel\<close>, status of the SDP query.\<close>

record stack_answer =
  an_channel :: "u8 \<times> u16"
  an_sdp :: u8

definition PSM_HID_CONTROL :: u16 where [simp]: "PSM_HID_CONTROL = 0x11"
definition PSM_HID_INTERRUPT :: u16 where [simp]: "PSM_HID_INTERRUPT = 0x13"
definition SERVICE_PNP_INFORMATION :: u16 where [simp]: "SERVICE_PNP_INFORMATION = 0x1200"
definition SERVICE_HID :: u16 where [simp]: "SERVICE_HID = 0x1124"
definition ATTRIBUTE_VENDOR_ID :: u16 where [simp]: "ATTRIBUTE_VENDOR_ID = 0x0201"
definition ATTRIBUTE_PRODUCT_ID :: u16 where [simp]: "ATTRIBUTE_PRODUCT_ID = 0x0202"
definition ATTRIBUTE_HID_DESCRIPTOR_LIST :: u16 where [simp]: "ATTRIBUTE_HID_DESCRIPTOR_LIST = 0x0206"
definition UNI_BT_CLOCK_OFFSET_VALID :: u16 where [simp]: "UNI_BT_CLOCK_OFFSET_VALID = 0x8000"
definition UNI_BT_COD_MINOR_KEYBOARD_AND_MICE :: u32 where [simp]: "UNI_BT_COD_MINOR_KEYBOARD_AND_MICE = 0xc0"
definition HID_MAX_NAME_LEN :: nat where [simp]: "HID_MAX_NAME_LEN = 240"
definition FAKE_NAME :: string where "FAKE_NAME = ''Controller without name''"

section \<open>Small steps\<close>

definition dev :: "nat \<Rightarrow> bredr \<Rightarrow> hid_device" where
  "dev i s = devs (bt s) ! i"

definition on_dev :: "nat \<Rightarrow> (hid_device \<Rightarrow> hid_device) \<Rightarrow> bredr \<Rightarrow> bredr" where
  "on_dev i f s = s\<lparr>bt := upd i f (bt s)\<rparr>"

definition on_conn :: "nat \<Rightarrow> (uni_bt_conn \<Rightarrow> uni_bt_conn) \<Rightarrow> bredr \<Rightarrow> bredr" where
  "on_conn i f = on_dev i (\<lambda>d. d\<lparr>conn := f (conn d)\<rparr>)"

definition on_extra :: "nat \<Rightarrow> (conn_extra \<Rightarrow> conn_extra) \<Rightarrow> bredr \<Rightarrow> bredr" where
  "on_extra i f s = s\<lparr>extra := (extra s)[i := f (extra s ! i)]\<rparr>"

definition call :: "bredr_call \<Rightarrow> bredr \<Rightarrow> bredr" where
  "call c s = s\<lparr>calls := calls s @ [c]\<rparr>"

definition addr_of :: "nat \<Rightarrow> bredr \<Rightarrow> bd_addr" where
  "addr_of i s = btaddr (conn (dev i s))"

text \<open>\<open>uni_hid_device_disconnect\<close> and \<open>uni_hid_device_delete\<close>, which clears all of the slot.\<close>

definition drop_dev :: "bredr_env \<Rightarrow> nat \<Rightarrow> bredr \<Rightarrow> bredr option" where
  "drop_dev e i s = map_option (\<lambda>w. s\<lparr>bt := w, extra := (extra s)[i := extra_zero]\<rparr>) (drop_device (be_gap e) i (bt s))"

text \<open>An operation that may delete the device, when the platform refuses it or it has timed out.\<close>

definition swept :: "nat \<Rightarrow> bredr \<Rightarrow> bt_world \<Rightarrow> bredr" where
  "swept i s w = s\<lparr>bt := w, extra := (if free_slot (devs w ! i) then (extra s)[i := extra_zero] else extra s)\<rparr>"

definition set_ready :: "bredr_env \<Rightarrow> nat \<Rightarrow> bredr \<Rightarrow> bredr option" where
  "set_ready e i s = map_option (swept i s) (uni_hid_device_set_ready (be_setup e) (be_gap e) (be_accept e) i (bt s))"

definition create :: "bd_addr \<Rightarrow> bredr \<Rightarrow> (bredr \<times> nat option) option" where
  "create a s = map_option (\<lambda>(w, r). (s\<lparr>bt := w, extra := (case r of None \<Rightarrow> extra s | Some i \<Rightarrow> (extra s)[i := extra_zero])\<rparr>, r))
     (uni_hid_device_create a (bt s))"

definition l2cap_create_control_connection :: "stack_answer \<Rightarrow> nat \<Rightarrow> bredr \<Rightarrow> bredr" where
  "l2cap_create_control_connection a i s =
     (let s1 = call (Create_Channel (addr_of i s) PSM_HID_CONTROL) s in
      if fst (an_channel a) \<noteq> 0 then s1
      else on_conn i (uni_bt_conn_set_state Cs_L2cap_Control_Connection_Requested)
        (on_conn i (\<lambda>c. c\<lparr>control_cid := snd (an_channel a)\<rparr>) s1))"

definition l2cap_create_interrupt_connection :: "stack_answer \<Rightarrow> nat \<Rightarrow> bredr \<Rightarrow> bredr" where
  "l2cap_create_interrupt_connection a i s =
     (let s1 = call (Create_Channel (addr_of i s) PSM_HID_INTERRUPT) s in
      if fst (an_channel a) \<noteq> 0 then s1
      else on_conn i (uni_bt_conn_set_state Cs_L2cap_Interrupt_Connection_Requested)
        (on_conn i (\<lambda>c. c\<lparr>interrupt_cid := snd (an_channel a)\<rparr>) s1))"

text \<open>The clone flag of the DualShock 3 is data of its driver.\<close>

definition uni_hid_device_guess_controller_type_from_name :: "u8 list \<Rightarrow> string \<Rightarrow> hid_device \<Rightarrow> (hid_device \<times> bool) option" where
  "uni_hid_device_guess_controller_type_from_name xbox name d =
     (case (case uni_hid_parser_ds3_does_name_match name (d, ds3_zero) of
              Some (d1, _) \<Rightarrow> Some d1
            | None \<Rightarrow> uni_hid_parser_switch_does_name_match name d) of
        None \<Rightarrow> Some (d, False)
      | Some d1 \<Rightarrow> map_option (\<lambda>d2. (d2, True)) (uni_hid_device_guess_controller_type_from_pid_vid xbox d1))"

section \<open>The queries and the state machine\<close>

definition uni_bt_sdp_query_start_vid_pid :: "bredr_env \<Rightarrow> stack_answer \<Rightarrow> nat \<Rightarrow> bredr \<Rightarrow> bredr option" where
  "uni_bt_sdp_query_start_vid_pid e a i s =
     (let s1 = call (Sdp_Query (addr_of i s) SERVICE_PNP_INFORMATION) (on_conn i (uni_bt_conn_set_state Cs_Sdp_Vendor_Requested) s) in
      if an_sdp a \<noteq> 0 then drop_dev e i s1 else Some s1)"

text \<open>A second query ends the device that wants it.\<close>

definition uni_bt_sdp_query_start :: "bredr_env \<Rightarrow> stack_answer \<Rightarrow> nat \<Rightarrow> bredr \<Rightarrow> bredr option" where
  "uni_bt_sdp_query_start e a i s =
     (if sdp_device s \<noteq> None then drop_dev e i s
      else if sdp_query_timer s \<noteq> None then None
      else uni_bt_sdp_query_start_vid_pid e a i (s\<lparr>sdp_device := Some i, sdp_query_timer := Some i\<rparr>))"

text \<open>The part of the state machine for a device whose descriptor was fetched.\<close>

definition fsm_descriptor_fetched :: "bredr_env \<Rightarrow> stack_answer \<Rightarrow> nat \<Rightarrow> bredr \<Rightarrow> bredr option" where
  "fsm_descriptor_fetched e a i s =
     (if incoming (conn (dev i s)) then set_ready e i s
      else if sdp_query_type (extra s ! i) = SDP_QUERY_BEFORE_CONNECT then Some (l2cap_create_control_connection a i s)
      else set_ready e i s)"

definition uni_bt_sdp_query_end :: "bredr_env \<Rightarrow> stack_answer \<Rightarrow> nat \<Rightarrow> bredr \<Rightarrow> bredr option" where
  "uni_bt_sdp_query_end e a i s =
     fsm_descriptor_fetched e a i ((on_conn i (uni_bt_conn_set_state Cs_Sdp_Hid_Descriptor_Fetched) s)
       \<lparr>sdp_device := None, sdp_query_timer := None\<rparr>)"

definition uni_bt_sdp_query_start_hid_descriptor :: "bredr_env \<Rightarrow> stack_answer \<Rightarrow> nat \<Rightarrow> bredr \<Rightarrow> bredr option" where
  "uni_bt_sdp_query_start_hid_descriptor e a i s =
     (if \<not> uni_hid_device_does_require_hid_descriptor (dev i s) then uni_bt_sdp_query_end e a i s
      else if sdp_device s = None then Some s
      else
        let s1 = call (Sdp_Query (addr_of i s) SERVICE_HID) (on_conn i (uni_bt_conn_set_state Cs_Sdp_Hid_Descriptor_Requested) s) in
        if an_sdp a \<noteq> 0 then drop_dev e i (s1\<lparr>sdp_query_timer := None\<rparr>) else Some s1)"

definition fsm_request_name :: "nat \<Rightarrow> bredr \<Rightarrow> bredr option" where
  "fsm_request_name i s =
     (let x = extra s ! i;
          s1 = call (if clock_offset x AND UNI_BT_CLOCK_OFFSET_VALID \<noteq> 0
                then Remote_Name_Request (addr_of i s) (page_scan_repetition_mode x) (clock_offset x)
                else Remote_Name_Request (addr_of i s) 0x02 0) s;
          s2 = on_conn i (uni_bt_conn_set_state Cs_Remote_Name_Inquired) s1
      in map_option (\<lambda>w. s2\<lparr>bt := w\<rparr>) (add_timer T_Inquiry i (bt s2)))"

definition fsm_name_fetched :: "bredr_env \<Rightarrow> stack_answer \<Rightarrow> nat \<Rightarrow> bredr \<Rightarrow> bredr option" where
  "fsm_name_fetched e a i s =
     (if dev_name (dev i s) = ''Wireless Controller'' then
        uni_bt_sdp_query_start e a i (on_extra i (\<lambda>x. x\<lparr>sdp_query_type := SDP_QUERY_BEFORE_CONNECT\<rparr>) s)
      else do {
        (d, known) \<leftarrow> uni_hid_device_guess_controller_type_from_name (be_xbox e) (dev_name (dev i s)) (dev i s);
        let s1 = on_dev i (\<lambda>_. d) s;
        let s2 = (if known then on_conn i (uni_bt_conn_set_state Cs_Sdp_Hid_Descriptor_Fetched)
            (on_extra i (\<lambda>x. x\<lparr>sdp_query_type := SDP_QUERY_NOT_NEEDED\<rparr>) s1) else s1);
        if incoming (conn (dev i s2)) then
          (if sdp_query_type (extra s2 ! i) = SDP_QUERY_NOT_NEEDED then set_ready e i s2 else uni_bt_sdp_query_start e a i s2)
        else Some (l2cap_create_control_connection a i s2)
      })"

definition uni_bt_bredr_process_fsm :: "bredr_env \<Rightarrow> stack_answer \<Rightarrow> nat \<Rightarrow> bredr \<Rightarrow> bredr option" where
  "uni_bt_bredr_process_fsm e a i s =
     (let d = dev i s; st = conn_state (conn d) in
      if \<not> uni_hid_device_has_name d \<and> (st = Cs_Discovered \<or> st = Cs_L2cap_Interrupt_Connected) then fsm_request_name i s
      else if st = Cs_Remote_Name_Fetched then fsm_name_fetched e a i s
      else if st = Cs_Sdp_Vendor_Fetched then uni_bt_sdp_query_start_hid_descriptor e a i s
      else if st = Cs_Sdp_Hid_Descriptor_Fetched then fsm_descriptor_fetched e a i s
      else if incoming (conn d) then Some s
      else if st = Cs_L2cap_Control_Connected then Some (l2cap_create_interrupt_connection a i s)
      else if st = Cs_L2cap_Interrupt_Connected then
        (if sdp_query_type (extra s ! i) = SDP_QUERY_AFTER_CONNECT then uni_bt_sdp_query_start e a i s else set_ready e i s)
      else Some s)"

section \<open>Events\<close>

definition find_addr :: "bd_addr \<Rightarrow> bredr \<Rightarrow> nat option" where
  "find_addr a s = uni_hid_device_get_instance_for_address a (bt s)"

definition find_cid :: "u16 \<Rightarrow> bredr \<Rightarrow> nat option" where
  "find_cid c s = uni_hid_device_get_instance_for_cid c (bt s)"

definition uni_bt_bredr_on_l2cap_incoming_connection ::
  "bredr_env \<Rightarrow> u16 \<Rightarrow> u16 \<Rightarrow> u16 \<Rightarrow> bd_addr \<Rightarrow> bredr \<Rightarrow> bredr option" where
  "uni_bt_bredr_on_l2cap_incoming_connection e channel psm h addr s =
     (if \<not> be_incoming e then Some (call (Decline_Connection channel) s)
      else if \<not> uni_bt_allowlist_is_allowed_addr addr (be_allow e) then Some (call (Decline_Connection channel) s)
      else do {
        (s1, device) \<leftarrow> (case find_addr addr s of
            Some i \<Rightarrow> if conn_state (conn (dev i s)) = Cs_Ready then map_option (\<lambda>s1. (s1, None)) (drop_dev e i s) else Some (s, Some i)
          | None \<Rightarrow> Some (s, None));
        if psm = PSM_HID_CONTROL then do {
          (s2, device) \<leftarrow> (case device of Some i \<Rightarrow> Some (s1, Some i) | None \<Rightarrow> create addr s1);
          Some (case device of
              None \<Rightarrow> call (Decline_Connection channel) s2
            | Some i \<Rightarrow> on_dev i (uni_hid_device_set_incoming True) (on_conn i (\<lambda>c. c\<lparr>control_cid := channel\<rparr>)
                (on_dev i (uni_hid_device_set_connection_handle h) (call (Accept_Connection channel) s2))))
        }
        else if psm = PSM_HID_INTERRUPT then
          Some (case device of
              None \<Rightarrow> call (Decline_Connection channel) s1
            | Some i \<Rightarrow> call (Accept_Connection channel) (on_conn i (\<lambda>c. c\<lparr>interrupt_cid := channel\<rparr>) s1))
        else Some s1
      })"

definition uni_bt_bredr_on_l2cap_channel_opened ::
  "bredr_env \<Rightarrow> stack_answer \<Rightarrow> u8 \<Rightarrow> u16 \<Rightarrow> bd_addr \<Rightarrow> u16 \<Rightarrow> bredr \<Rightarrow> bredr option" where
  "uni_bt_bredr_on_l2cap_channel_opened e a status psm addr cid s =
     (case find_addr addr s of
        None \<Rightarrow> Some s
      | Some i \<Rightarrow>
          if status \<noteq> 0 then drop_dev e i (call (Drop_Link_Key (addr_of i s)) s)
          else uni_bt_bredr_process_fsm e a i
            (if psm = PSM_HID_CONTROL then
               on_conn i (uni_bt_conn_set_state Cs_L2cap_Control_Connected) (on_conn i (\<lambda>c. c\<lparr>control_cid := cid\<rparr>) s)
             else if psm = PSM_HID_INTERRUPT then
               (let s1 = on_conn i (uni_bt_conn_set_state Cs_L2cap_Interrupt_Connected) (on_conn i (\<lambda>c. c\<lparr>interrupt_cid := cid\<rparr>) s)
                in s1\<lparr>bt := uni_hid_device_connect i (bt s1)\<rparr>)
             else s))"

definition uni_bt_bredr_on_l2cap_channel_closed :: "bredr_env \<Rightarrow> u16 \<Rightarrow> bredr \<Rightarrow> bredr option" where
  "uni_bt_bredr_on_l2cap_channel_closed e cid s = (case find_cid cid s of None \<Rightarrow> Some s | Some i \<Rightarrow> drop_dev e i s)"

text \<open>Without a name the length is 0.  Names are the texts without the NUL that ends them.\<close>

definition uni_bt_bredr_on_gap_inquiry_result ::
  "bredr_env \<Rightarrow> stack_answer \<Rightarrow> bd_addr \<Rightarrow> u8 \<Rightarrow> u16 \<Rightarrow> u32 \<Rightarrow> u8 \<Rightarrow> string \<Rightarrow> bredr \<Rightarrow> bredr option" where
  "uni_bt_bredr_on_gap_inquiry_result e a addr psrm clock c r name s =
     (if HID_MAX_NAME_LEN < length name then None
      else if uni_hid_device_on_device_discovered addr (ucast c) r (be_allow e) \<noteq> UNI_ERROR_SUCCESS then Some s
      else (case find_addr addr s of
          Some i \<Rightarrow> if conn_state (conn (dev i s)) = Cs_Ready then Some s else uni_bt_bredr_process_fsm e a i s
        | None \<Rightarrow> do {
            (s1, device) \<leftarrow> create addr s;
            (case device of
               None \<Rightarrow> Some s1
             | Some i \<Rightarrow>
                 let s2 = on_extra i (\<lambda>x. x\<lparr>page_scan_repetition_mode := psrm, clock_offset := clock OR UNI_BT_CLOCK_OFFSET_VALID, rssi := r\<rparr>)
                       (on_dev i (uni_hid_device_set_cod c) (on_conn i (uni_bt_conn_set_state Cs_Discovered) s1));
                     s3 = (if name \<noteq> [] \<and> \<not> uni_hid_device_has_name (dev i s2)
                       then on_conn i (uni_bt_conn_set_state Cs_Remote_Name_Fetched) (on_dev i (uni_hid_device_set_name (Some name)) s2)
                       else s2)
                 in uni_bt_bredr_process_fsm e a i s3)
          }))"

definition uni_bt_bredr_on_hci_connection_request :: "bd_addr \<Rightarrow> u32 \<Rightarrow> bredr \<Rightarrow> bredr option" where
  "uni_bt_bredr_on_hci_connection_request addr c s = do {
     (s1, device) \<leftarrow> (case find_addr addr s of Some i \<Rightarrow> Some (s, Some i) | None \<Rightarrow> create addr s);
     Some (case device of
         None \<Rightarrow> s1
       | Some i \<Rightarrow> on_dev i (uni_hid_device_set_incoming True) (on_dev i (uni_hid_device_set_cod c) s1))
   }"

text \<open>This configuration has a GAP security level, so nothing is requested here.\<close>

definition uni_bt_bredr_on_hci_connection_complete :: "bd_addr \<Rightarrow> u8 \<Rightarrow> u16 \<Rightarrow> bredr \<Rightarrow> bredr" where
  "uni_bt_bredr_on_hci_connection_complete addr status h s =
     (if status \<noteq> 0 then s
      else (case find_addr addr s of None \<Rightarrow> s | Some i \<Rightarrow> on_dev i (uni_hid_device_set_connection_handle h) s))"

definition on_hci_disconnection_complete :: "bredr_env \<Rightarrow> u16 \<Rightarrow> bredr \<Rightarrow> bredr option" where
  "on_hci_disconnection_complete e h s =
     (case uni_hid_device_get_instance_for_connection_handle h (bt s) of None \<Rightarrow> Some s | Some i \<Rightarrow> drop_dev e i s)"

definition uni_bt_bredr_on_hci_pin_code_request :: "bd_addr \<Rightarrow> bd_addr \<Rightarrow> bredr \<Rightarrow> bredr" where
  "uni_bt_bredr_on_hci_pin_code_request addr local s =
     (let mouse_or_keyboard = (case find_addr addr s of
            None \<Rightarrow> False
          | Some i \<Rightarrow> cod (dev i s) AND UNI_BT_COD_MAJOR_MASK = UNI_BT_COD_MAJOR_PERIPHERAL \<and>
              cod (dev i s) AND UNI_BT_COD_MINOR_KEYBOARD_AND_MICE \<noteq> 0)
      in call (Pin_Code_Response addr (if mouse_or_keyboard then [0x30, 0x30, 0x30, 0x30] else rev local)) s)"

definition inquiry_remote_name_timeout_callback :: "bredr_env \<Rightarrow> stack_answer \<Rightarrow> nat \<Rightarrow> bredr \<Rightarrow> bredr option" where
  "inquiry_remote_name_timeout_callback e a i s =
     uni_bt_bredr_process_fsm e a i (on_conn i (uni_bt_conn_set_state Cs_Remote_Name_Fetched)
       (on_dev i (uni_hid_device_set_name (Some FAKE_NAME)) s))"

definition uni_bt_bredr_on_hci_remote_name_request_complete ::
  "bredr_env \<Rightarrow> stack_answer \<Rightarrow> bd_addr \<Rightarrow> u8 \<Rightarrow> string \<Rightarrow> bredr \<Rightarrow> bredr option" where
  "uni_bt_bredr_on_hci_remote_name_request_complete e a addr status name s =
     (case find_addr addr s of
        None \<Rightarrow> Some s
      | Some i \<Rightarrow> do {
          let s1 = on_dev i (uni_hid_device_set_name (Some (if status \<noteq> 0 then FAKE_NAME else name))) s;
          s2 \<leftarrow> (if conn_state (conn (dev i s1)) \<notin> {Cs_Pending_Ready, Cs_Ready}
                 then uni_bt_bredr_process_fsm e a i (on_conn i (uni_bt_conn_set_state Cs_Remote_Name_Fetched) s1)
                 else Some s1);
          Some (s2\<lparr>bt := remove_timer T_Inquiry i (bt s2)\<rparr>)
        })"

definition sdp_query_timeout :: "nat \<Rightarrow> bredr \<Rightarrow> bredr" where
  "sdp_query_timeout i s = (if sdp_device s = Some i then s\<lparr>sdp_device := None\<rparr> else s)"

text \<open>A byte of an attribute, \<open>aid\<close>, of the answer to the first query, and to the second.\<close>

definition sdp_pid_byte :: "u16 \<Rightarrow> u16 \<Rightarrow> u16 \<Rightarrow> u8 \<Rightarrow> bredr \<Rightarrow> bredr option" where
  "sdp_pid_byte aid len off b s =
     (case sdp_device s of
        None \<Rightarrow> Some s
      | Some i \<Rightarrow> do {
          (m, full) \<leftarrow> attribute_byte len off b (sdp_attribute_value s);
          let s1 = s\<lparr>sdp_attribute_value := m\<rparr>;
          if full \<and> (aid = ATTRIBUTE_VENDOR_ID \<or> aid = ATTRIBUTE_PRODUCT_ID) then do {
            v \<leftarrow> de_element_get_uint16 m 0;
            Some (case v of
                None \<Rightarrow> s1
              | Some n \<Rightarrow> on_dev i (if aid = ATTRIBUTE_VENDOR_ID then uni_hid_device_set_vendor_id n else uni_hid_device_set_product_id n) s1)
          }
          else Some s1
        })"

definition sdp_hid_byte :: "u16 \<Rightarrow> u16 \<Rightarrow> u16 \<Rightarrow> u8 \<Rightarrow> bredr \<Rightarrow> bredr option" where
  "sdp_hid_byte aid len off b s =
     (case sdp_device s of
        None \<Rightarrow> Some s
      | Some i \<Rightarrow> do {
          (m, full) \<leftarrow> attribute_byte len off b (sdp_attribute_value s);
          let s1 = s\<lparr>sdp_attribute_value := m\<rparr>;
          if full \<and> aid = ATTRIBUTE_HID_DESCRIPTOR_LIST then map_option (\<lambda>d. on_dev i (\<lambda>_. d) s1) (hid_descriptor_list m (dev i s1))
          else Some s1
        })"

text \<open>The status of a completed query is not looked at.\<close>

definition sdp_pid_complete :: "bredr_env \<Rightarrow> stack_answer \<Rightarrow> bredr \<Rightarrow> bredr option" where
  "sdp_pid_complete e a s =
     (case sdp_device s of
        None \<Rightarrow> Some s
      | Some i \<Rightarrow> do {
          d \<leftarrow> uni_hid_device_guess_controller_type_from_pid_vid (be_xbox e) (dev i s);
          uni_bt_bredr_process_fsm e a i (on_conn i (uni_bt_conn_set_state Cs_Sdp_Vendor_Fetched) (on_dev i (\<lambda>_. d) s))
        })"

definition sdp_hid_complete :: "bredr_env \<Rightarrow> stack_answer \<Rightarrow> bredr \<Rightarrow> bredr option" where
  "sdp_hid_complete e a s = (case sdp_device s of None \<Rightarrow> Some s | Some i \<Rightarrow> uni_bt_sdp_query_end e a i s)"

definition uni_bt_bredr_on_l2cap_data_packet :: "bredr_env \<Rightarrow> u16 \<Rightarrow> u8 list \<Rightarrow> bredr \<Rightarrow> bredr option" where
  "uni_bt_bredr_on_l2cap_data_packet e channel packet s =
     (case find_cid channel s of
        None \<Rightarrow> Some s
      | Some i \<Rightarrow>
          if length packet < 2 then Some s
          else if channel = control_cid (conn (dev i s)) then map_option (swept i s)
            (if rp_parse_feature_report (report_parser (dev i s)) = None then Some (bt s) else be_feature e i (tl packet) (bt s))
          else if channel \<noteq> interrupt_cid (conn (dev i s)) then Some s
          else if hd packet \<noteq> 0xa1 then Some s
          else do {
            w \<leftarrow> be_input e i (tl packet) (bt s);
            w' \<leftarrow> uni_hid_device_process_controller (be_cfg e) i w;
            Some (swept i s w')
          })"

datatype bredr_event =
    Incoming_Connection u16 u16 u16 bd_addr
  | Channel_Opened u8 u16 bd_addr u16
  | Channel_Closed u16
  | Inquiry_Result bd_addr u8 u16 u32 u8 string
  | Connection_Request bd_addr u32
  | Connection_Complete bd_addr u8 u16
  | Disconnection_Complete u16
  | Pin_Code_Request bd_addr bd_addr
  | Remote_Name_Complete bd_addr u8 string
  | Rssi_Measurement u16 u8
  | Name_Timeout nat
  | Connection_Timeout nat
  | Sdp_Timeout
  | Sdp_Pid_Byte u16 u16 u16 u8
  | Sdp_Pid_Complete
  | Sdp_Hid_Byte u16 u16 u16 u8
  | Sdp_Hid_Complete
  | Data_Packet u16 "u8 list"

text \<open>
  The dispatch once the set-up of the module is done.  Left out are the events of the LE module, those that are only logged, and
  the permission to send, which goes to the queue of \<open>Report_Sender\<close>.  A timer that fires has left the run loop.
\<close>

definition bredr_step :: "bredr_env \<Rightarrow> stack_answer \<Rightarrow> bredr_event \<Rightarrow> bredr \<Rightarrow> bredr option" where
  "bredr_step e a ev s = (case ev of
     Incoming_Connection channel psm h addr \<Rightarrow> uni_bt_bredr_on_l2cap_incoming_connection e channel psm h addr s
   | Channel_Opened status psm addr cid \<Rightarrow> uni_bt_bredr_on_l2cap_channel_opened e a status psm addr cid s
   | Channel_Closed cid \<Rightarrow> uni_bt_bredr_on_l2cap_channel_closed e cid s
   | Inquiry_Result addr psrm clock c r name \<Rightarrow> uni_bt_bredr_on_gap_inquiry_result e a addr psrm clock c r name s
   | Connection_Request addr c \<Rightarrow> uni_bt_bredr_on_hci_connection_request addr c s
   | Connection_Complete addr status h \<Rightarrow> Some (uni_bt_bredr_on_hci_connection_complete addr status h s)
   | Disconnection_Complete h \<Rightarrow> on_hci_disconnection_complete e h s
   | Pin_Code_Request addr local \<Rightarrow> Some (uni_bt_bredr_on_hci_pin_code_request addr local s)
   | Remote_Name_Complete addr status name \<Rightarrow> uni_bt_bredr_on_hci_remote_name_request_complete e a addr status name s
   | Rssi_Measurement h r \<Rightarrow> Some (case uni_hid_device_get_instance_for_connection_handle h (bt s) of
       None \<Rightarrow> s | Some i \<Rightarrow> on_extra i (\<lambda>x. x\<lparr>rssi := r\<rparr>) s)
   | Name_Timeout i \<Rightarrow> if (T_Inquiry, i) \<in> set (timers (bt s))
       then inquiry_remote_name_timeout_callback e a i (s\<lparr>bt := remove_timer T_Inquiry i (bt s)\<rparr>) else Some s
   | Connection_Timeout i \<Rightarrow> if (T_Connection, i) \<in> set (timers (bt s))
       then map_option (swept i s) (device_connection_timeout (be_gap e) i (remove_timer T_Connection i (bt s))) else Some s
   | Sdp_Timeout \<Rightarrow> Some (case sdp_query_timer s of None \<Rightarrow> s | Some i \<Rightarrow> sdp_query_timeout i (s\<lparr>sdp_query_timer := None\<rparr>))
   | Sdp_Pid_Byte aid len off b \<Rightarrow> sdp_pid_byte aid len off b s
   | Sdp_Pid_Complete \<Rightarrow> sdp_pid_complete e a s
   | Sdp_Hid_Byte aid len off b \<Rightarrow> sdp_hid_byte aid len off b s
   | Sdp_Hid_Complete \<Rightarrow> sdp_hid_complete e a s
   | Data_Packet channel packet \<Rightarrow> uni_bt_bredr_on_l2cap_data_packet e channel packet s)"

fun bredr_run :: "bredr_env \<Rightarrow> (bredr_event \<times> stack_answer) list \<Rightarrow> bredr \<Rightarrow> bredr option" where
  "bredr_run e [] s = Some s"
| "bredr_run e ((ev, a) # evs) s = Option.bind (bredr_step e a ev s) (bredr_run e evs)"

definition bredr_start :: bredr where
  "bredr_start = \<lparr>bt = world_start, extra = replicate 4 extra_zero, sdp_device = None, sdp_query_timer = None,
     sdp_attribute_value = replicate MAX_ATTRIBUTE_VALUE_SIZE 0, calls = []\<rparr>"


end
