(* ===== verification/Bredr_Law.thy ===== *)
theory Bredr_Law
  imports Bredr
begin

text \<open>
  What the handlers of \<open>Bredr\<close> keep.  \<open>table\<close> is a property of the connections in the device table, \<open>link_law\<close> the interface of
  such a property: the changes of a connection it must allow, what it says of the calls and of the running query.  Every handler
  and every run keeps it; \<open>Bredr_Connect\<close> interprets it.
\<close>

section \<open>What every step keeps\<close>

lemma bredr_simps [simp]:
  "dev j (call c s) = dev j s" "dev j (on_extra i g s) = dev j s" "dev j (s\<lparr>sdp_device := q\<rparr>) = dev j s"
  "dev j (s\<lparr>sdp_query_timer := t\<rparr>) = dev j s" "dev j (s\<lparr>sdp_attribute_value := m\<rparr>) = dev j s" "dev j (s\<lparr>extra := x\<rparr>) = dev j s"
  "addr_of j (call c s) = addr_of j s"
  "bt (call c s) = bt s" "bt (on_extra i g s) = bt s" "bt (on_dev i f s) = upd i f (bt s)"
  "extra (call c s) = extra s" "extra (on_dev i f s) = extra s"
  "sdp_device (call c s) = sdp_device s" "sdp_device (on_extra i g s) = sdp_device s" "sdp_device (on_dev i f s) = sdp_device s"
  "sdp_query_timer (call c s) = sdp_query_timer s" "sdp_query_timer (on_extra i g s) = sdp_query_timer s"
  "sdp_query_timer (on_dev i f s) = sdp_query_timer s"
  "calls (on_extra i g s) = calls s" "calls (on_dev i f s) = calls s" "calls (call c s) = calls s @ [c]"
  "sdp_attribute_value (call c s) = sdp_attribute_value s" "sdp_attribute_value (on_dev i f s) = sdp_attribute_value s"
  "sdp_attribute_value (on_extra i g s) = sdp_attribute_value s"
  by (simp_all add: dev_def call_def on_extra_def on_dev_def addr_of_def)

lemma dev_on_dev [simp]: "i < length (devs (bt s)) \<Longrightarrow> dev i (on_dev i f s) = f (dev i s)"
  by (simp add: dev_def)

text \<open>The table: four slots without relatives, whose timers are those of a slot, and whose connections satisfy \<open>Q\<close>.\<close>

definition table :: "(uni_bt_conn \<Rightarrow> bool) \<Rightarrow> bt_world \<Rightarrow> bool" where
  "table Q w \<longleftrightarrow> length (devs w) = 4 \<and> (\<forall>x \<in> set (timers w). snd x < 4) \<and>
     (\<forall>i < 4. child (devs w ! i) = None \<and> parent (devs w ! i) = None \<and> Q (conn (devs w ! i)))"

text \<open>What a driver may do to a connection: nothing, mark it ready, or delete the device.\<close>

definition driver_conn :: "uni_bt_conn \<Rightarrow> uni_bt_conn \<Rightarrow> bool" where
  "driver_conn c c' \<longleftrightarrow> c' = c \<or> c' = c\<lparr>conn_state := Cs_Ready\<rparr> \<or> c' = uni_bt_conn_init"

definition driver_result :: "bredr_env \<Rightarrow> nat \<Rightarrow> bt_world \<Rightarrow> bt_world \<Rightarrow> bool" where
  "driver_result e i w w' \<longleftrightarrow> (\<exists>drv. be_setup e drv i w = Some w') \<or> (\<exists>p. be_input e i p w = Some w') \<or> (\<exists>p. be_feature e i p w = Some w')"

definition drivers_safe :: "bredr_env \<Rightarrow> bool" where
  "drivers_safe e \<longleftrightarrow> (\<forall>i w w'. i < 4 \<longrightarrow> table (\<lambda>_. True) w \<longrightarrow> driver_result e i w w' \<longrightarrow>
     table (\<lambda>_. True) w' \<and> (\<forall>j < 4. driver_conn (conn (devs w ! j)) (conn (devs w' ! j))))"

lemma tableD:
  assumes "table Q w"
  shows "length (devs w) = 4" "i < 4 \<Longrightarrow> child (devs w ! i) = None" "i < 4 \<Longrightarrow> parent (devs w ! i) = None"
    "i < 4 \<Longrightarrow> Q (conn (devs w ! i))" "(t, j) \<in> set (timers w) \<Longrightarrow> j < 4"
  using assms by (auto simp: table_def)

lemma table_weaken: "table Q w \<Longrightarrow> table (\<lambda>_. True) w"
  by (simp add: table_def)

lemma table_local:
  assumes "table Q w" "i < 4" "local_to i w w'" "child (devs w' ! i) = None" "parent (devs w' ! i) = None" "Q' (conn (devs w' ! i))"
    "\<And>c. Q c \<Longrightarrow> Q' c"
  shows "table Q' w'"
proof -
  have d: "devs w' ! j = devs w ! j" "timers_of j w' = timers_of j w" if "j \<noteq> i" for j
    using assms(3) that unfolding local_to_def by blast+
  have "snd x < 4" if "x \<in> set (timers w')" for x
  proof (cases "snd x = i")
    case False
    have "fst x \<in> timers_of (snd x) w'" using that by (simp add: timers_of_def)
    then have "fst x \<in> timers_of (snd x) w" using d(2) [OF False] by simp
    then have "x \<in> set (timers w)" by (simp add: timers_of_def)
    then show ?thesis using assms(1) by (simp add: table_def)
  qed (use assms(2) in simp)
  moreover have "child (devs w' ! j) = None \<and> parent (devs w' ! j) = None \<and> Q' (conn (devs w' ! j))" if "j < 4" for j
    using assms(4-7) d(1) [of j] tableD(2-4) [OF assms(1) that] by (cases "j = i") simp_all
  moreover have "length (devs w') = 4" using assms(1,3) by (simp add: table_def local_to_def)
  ultimately show ?thesis by (simp add: table_def)
qed

lemma table_drivers:
  assumes "drivers_safe e" "table Q w" "i < 4" "driver_result e i w w'" "\<And>c c'. Q c \<Longrightarrow> driver_conn c c' \<Longrightarrow> Q c'"
  shows "table Q w'"
proof -
  have "table (\<lambda>_. True) w' \<and> (\<forall>j < 4. driver_conn (conn (devs w ! j)) (conn (devs w' ! j)))"
    using assms(1,3,4) table_weaken [OF assms(2)] unfolding drivers_safe_def by blast
  then show ?thesis using assms(2,5) unfolding table_def by blast
qed

lemma fresh_simps [simp]: "conn device_fresh = uni_bt_conn_init" "child device_fresh = None" "parent device_fresh = None"
  by (simp_all add: device_fresh_def device_zero_def)

lemma table_drop:
  assumes "table Q w" "i < 4" "drop_device gap i w = Some w'" "Q uni_bt_conn_init"
  shows "table Q w'" "devs w' ! i = device_fresh"
proof -
  note D = tableD [OF assms(1)]
  have "T_Misc \<notin> timers_of i w"
    using drop_effect [of i w gap] D(1,2,3) assms(2,3) by (auto split: if_splits)
  then have "local_to i w w' \<and> devs w' ! i = device_fresh"
    using drop_effect [of i w gap] D(1,2,3) assms(2,3) by auto
  then show "table Q w'" "devs w' ! i = device_fresh"
    using table_local [OF assms(1,2), of w' Q] assms(4) by simp_all
qed

lemma find_slot_range: "find_slot P w = Some i \<Longrightarrow> i < 4 \<and> P (devs w ! i)"
  unfolding find_slot_def by (rule find_range)

lemma create_table:
  assumes "table Q w" "uni_hid_device_create a w = Some (w', Some i)"
  shows "i < 4" "conn (devs w' ! i) = conn_zero\<lparr>btaddr := a\<rparr>" "child (devs w' ! i) = None" "parent (devs w' ! i) = None" "local_to i w w'"
proof -
  from assms(2) obtain w1 where s: "find_slot free_slot w = Some i" "overwrite i (device_zero\<lparr>conn := conn_zero\<lparr>btaddr := a\<rparr>\<rparr>) w = Some w1"
    "add_timer T_Connection i w1 = Some w'"
    by (auto simp: uni_hid_device_create_def bind_eq_Some_conv split: option.splits)
  show i: "i < 4" using find_slot_range [OF s(1)] by simp
  have "devs w' = (devs w)[i := device_zero\<lparr>conn := conn_zero\<lparr>btaddr := a\<rparr>\<rparr>]"
    using s(2,3) by (auto simp: overwrite_cases add_timer_def split: if_splits)
  then show "conn (devs w' ! i) = conn_zero\<lparr>btaddr := a\<rparr>" "child (devs w' ! i) = None" "parent (devs w' ! i) = None"
    using i tableD(1) [OF assms(1)] by (simp_all add: device_zero_def)
  show "local_to i w w'" by (rule local_trans [OF local_overwrite [OF s(2)] local_add [OF s(3)]])
qed

lemma create_none: "uni_hid_device_create a w = Some (w', None) \<Longrightarrow> w' = w"
  by (auto simp: uni_hid_device_create_def bind_eq_Some_conv split: option.splits)

lemma table_upd:
  assumes "table Q w" "i < 4" "child (f (devs w ! i)) = child (devs w ! i)" "parent (f (devs w ! i)) = parent (devs w ! i)"
    "Q (conn (f (devs w ! i)))"
  shows "table Q (upd i f w)"
  by (rule table_local [OF assms(1,2) local_upd]) (use assms tableD [OF assms(1)] in simp_all)

lemma table_emit: "table Q (emit ev w) \<longleftrightarrow> table Q w"
  by (simp add: table_def)

lemma table_remove: "table Q w \<Longrightarrow> table Q (remove_timer t i w)"
  by (auto simp: table_def remove_timer_def)

lemma table_add: "add_timer t i w = Some w' \<Longrightarrow> table Q w \<Longrightarrow> i < 4 \<Longrightarrow> table Q w'"
  by (auto simp: table_def add_timer_def split: if_splits)

lemma table_connect:
  assumes "table Q w" "i < 4" "\<And>c b. Q c \<Longrightarrow> Q (c\<lparr>connected := b\<rparr>)"
  shows "table Q (uni_hid_device_connect i w)"
  using assms tableD(4) [OF assms(1,2)]
  by (auto simp: uni_hid_device_connect_def uni_hid_device_on_connected_def table_emit uni_bt_conn_set_connected_def intro!: table_upd)

lemma table_home: "table Q w \<Longrightarrow> i < 4 \<Longrightarrow> table Q (process_misc_button_home i w)"
  using tableD(4) [of Q w i] by (auto simp: process_misc_button_home_def intro!: table_upd)

lemma table_system:
  assumes "table Q w" "i < 4" "process_misc_button_system i w = Some w'"
  shows "table Q w'"
proof -
  have u: "table Q (upd i (\<lambda>d. d\<lparr>misc_button_wait_release := g d\<rparr>) w)" for g
    using tableD(4) [OF assms(1,2)] by (intro table_upd [OF assms(1,2)]) simp_all
  have v: "table Q (upd i (\<lambda>d. d\<lparr>misc_button_wait_delay := h d\<rparr>)
      (emit (P_Oob i) (upd i (\<lambda>d. d\<lparr>misc_button_wait_release := g d\<rparr>) w)))" for g h
    using tableD(4) [OF u assms(2)] by (intro table_upd) (simp_all add: table_emit u assms(2))
  show ?thesis using assms u v
    by (auto simp: process_misc_button_system_def Let_def table_emit split: if_splits intro: table_add)
qed

lemma table_process:
  assumes "table Q w" "i < 4" "uni_hid_device_process_controller cfg i w = Some w'"
  shows "table Q w'"
proof -
  have u: "table Q (upd i (\<lambda>d. d\<lparr>ctl := c\<rparr>) w)" for c
    using tableD(4) [OF assms(1,2)] by (intro table_upd [OF assms(1,2)]) simp_all
  show ?thesis using assms
    by (auto simp: uni_hid_device_process_controller_def Let_def bind_eq_Some_conv u table_emit split: if_splits
        intro!: table_home elim!: table_system [rotated 2])
qed

lemma set_ready_complete_table:
  assumes "table Q w" "i < 4" "uni_hid_device_set_ready_complete gap accept i w = Some r" "Q uni_bt_conn_init"
    "\<And>c. Q c \<Longrightarrow> Q (c\<lparr>conn_state := Cs_Ready\<rparr>)"
  shows "table Q (fst r)"
proof -
  let ?w = "emit (P_Ready i) (remove_timer T_Connection i w)"
  have w: "table Q ?w" using table_remove [OF assms(1)] by (simp add: table_emit)
  have u: "table Q (upd i (\<lambda>d. d\<lparr>conn := uni_bt_conn_set_state Cs_Ready (conn d)\<rparr>) ?w)"
    using assms(5) [OF tableD(4) [OF w assms(2)]]
    by (intro table_upd [OF w assms(2)]) (simp_all add: uni_bt_conn_set_state_def)
  show ?thesis using assms(1,3) u table_drop(1) [OF w assms(2) _ assms(4)]
    by (auto simp: uni_hid_device_set_ready_complete_def Let_def split: if_splits)
qed

lemma set_ready_table:
  assumes "drivers_safe e" "table Q w" "i < 4" "uni_hid_device_set_ready (be_setup e) gap accept i w = Some w'"
    "Q uni_bt_conn_init" "\<And>c. Q c \<Longrightarrow> Q (c\<lparr>conn_state := Cs_Ready\<rparr>)" "\<And>c. Q c \<Longrightarrow> Q (c\<lparr>conn_state := Cs_Pending_Ready\<rparr>)"
  shows "table Q w'"
proof -
  let ?w = "upd i (\<lambda>d. d\<lparr>conn := uni_bt_conn_set_state Cs_Pending_Ready (conn d)\<rparr>) w"
  have w: "table Q ?w" using assms(7) [OF tableD(4) [OF assms(2,3)]]
    by (intro table_upd [OF assms(2,3)]) (simp_all add: uni_bt_conn_set_state_def)
  have k: "Q c'" if "Q c" "driver_conn c c'" for c c' using that assms(5,6) by (auto simp: driver_conn_def)
  have s: "table Q w'" if "be_setup e drv i ?w = Some w'" for drv
    by (rule table_drivers [OF assms(1) w assms(3) _ k]) (use that in \<open>auto simp: driver_result_def\<close>)
  show ?thesis using assms(2,4) s set_ready_complete_table [OF w assms(3) _ assms(5,6)]
    by (auto simp: uni_hid_device_set_ready_def Let_def split: if_splits option.splits)
qed

lemma timeout_table:
  assumes "table Q w" "i < 4" "device_connection_timeout gap i w = Some w'" "Q uni_bt_conn_init"
  shows "table Q w'"
  using assms table_drop(1) [of Q "emit (P_Dump i) w" i gap w']
  by (auto simp: device_connection_timeout_def table_emit split: if_splits)

text \<open>What is learned about a device leaves its connection alone.\<close>

definition same_link :: "hid_device \<Rightarrow> hid_device \<Rightarrow> bool" where
  "same_link d d' \<longleftrightarrow> conn d' = conn d \<and> child d' = child d \<and> parent d' = parent d"

lemma same_link_refl: "same_link d d"
  by (simp add: same_link_def)

lemma same_link_trans: "same_link d d1 \<Longrightarrow> same_link d1 d2 \<Longrightarrow> same_link d d2"
  by (simp add: same_link_def)

lemma descriptor_same: "uni_hid_device_set_hid_descriptor bytes n d = Some d' \<Longrightarrow> same_link d d'"
  by (auto simp: uni_hid_device_set_hid_descriptor_def same_link_def split: if_splits)

lemma guess_same: "uni_hid_device_guess_controller_type_from_pid_vid desc d = Some d' \<Longrightarrow> same_link d d'"
  by (auto simp: uni_hid_device_guess_controller_type_from_pid_vid_def fallback_type_def Let_def same_link_def
      uni_hid_parser_xboxone_does_name_match_def uni_hid_device_set_hid_descriptor_def
      uni_hid_device_set_product_id_def uni_hid_device_set_vendor_id_def bind_eq_Some_conv split: if_splits option.splits)

lemma name_same: "uni_hid_device_guess_controller_type_from_name xbox nm d = Some (d', known) \<Longrightarrow> same_link d d'"
proof -
  assume a: "uni_hid_device_guess_controller_type_from_name xbox nm d = Some (d', known)"
  let ?m = "case uni_hid_parser_ds3_does_name_match nm (d, ds3_zero) of Some (d1, _) \<Rightarrow> Some d1 | None \<Rightarrow> uni_hid_parser_switch_does_name_match nm d"
  have m: "same_link d d1" if "?m = Some d1" for d1
    using that by (auto simp: uni_hid_parser_ds3_does_name_match_def uni_hid_parser_switch_does_name_match_def Let_def same_link_def
        uni_hid_device_set_product_id_def uni_hid_device_set_vendor_id_def split: if_splits option.splits)
  show ?thesis
  proof (cases ?m)
    case None
    then show ?thesis using a by (simp add: uni_hid_device_guess_controller_type_from_name_def same_link_refl)
  next
    case (Some d1)
    then have "uni_hid_device_guess_controller_type_from_pid_vid xbox d1 = Some d'"
      using a by (simp add: uni_hid_device_guess_controller_type_from_name_def)
    then show ?thesis using same_link_trans [OF m [OF Some] guess_same] by blast
  qed
qed

lemma string_same: "descriptor_string m p d = Some d' \<Longrightarrow> same_link d d'"
  by (auto simp: descriptor_string_def bind_eq_Some_conv intro: descriptor_same)

lemma strings_same:
  assumes "strings_loop m it d = Some d'"
  shows "same_link d d'"
proof (rule strings_loop.raw_induct [where P = "\<lambda>m it d d'. same_link d d'", rotated, OF assms])
  fix loop m it d d'
  assume "\<And>m it d d'. loop m it d = Some d' \<Longrightarrow> same_link d d'"
    and "(if \<not> des_iterator_has_more it then Some d
      else do {
        h \<leftarrow> read_at m (des_iterator_get_element it);
        d1 \<leftarrow> (if de_get_element_type h \<noteq> DE_STRING then Some d else descriptor_string m (des_iterator_get_element it) d);
        it1 \<leftarrow> des_iterator_next m it;
        loop m it1 d1
      }) = Some d'"
  then show "same_link d d'"
    by (auto simp: bind_eq_Some_conv same_link_refl split: if_splits intro: same_link_trans [OF string_same] same_link_trans [OF same_link_refl])
qed

lemma descriptors_same:
  assumes "descriptors_loop m it d = Some d'"
  shows "same_link d d'"
proof (rule descriptors_loop.raw_induct [where P = "\<lambda>m it d d'. same_link d d'", rotated, OF assms])
  fix loop m it d d'
  assume "\<And>m it d d'. loop m it d = Some d' \<Longrightarrow> same_link d d'"
    and "(if \<not> des_iterator_has_more it then Some d
      else do {
        h \<leftarrow> read_at m (des_iterator_get_element it);
        d1 \<leftarrow> (if de_get_element_type h \<noteq> DE_DES then Some d
               else do { i \<leftarrow> des_iterator_init m (des_iterator_get_element it); it' \<leftarrow> i; strings_loop m it' d });
        it1 \<leftarrow> des_iterator_next m it;
        loop m it1 d1
      }) = Some d'"
  then show "same_link d d'"
    by (auto simp: bind_eq_Some_conv same_link_refl split: if_splits intro: same_link_trans [OF strings_same] same_link_trans [OF same_link_refl])
qed

lemma list_same: "hid_descriptor_list m d = Some d' \<Longrightarrow> same_link d d'"
  by (auto simp: hid_descriptor_list_def bind_eq_Some_conv intro: descriptors_same)

section \<open>The law of a link\<close>

text \<open>
  A property of connections that the handlers keep.  \<open>Q\<close> is the property, \<open>C\<close> what may be called, \<open>K\<close> what the query and its
  timer may be, and \<open>E\<close> whether the results of a query are part of it.
\<close>

locale link_law =
  fixes e :: bredr_env
    and Q :: "uni_bt_conn \<Rightarrow> bool"
    and C :: "bredr_call \<Rightarrow> bool"
    and K :: "nat option \<Rightarrow> nat option \<Rightarrow> bool"
    and E :: bool
  assumes fresh: "Q uni_bt_conn_init"
    and state: "Q c \<Longrightarrow> st \<noteq> Cs_Sdp_Vendor_Fetched \<or> E \<Longrightarrow> Q (c\<lparr>conn_state := st\<rparr>)"
    and members: "Q c \<Longrightarrow> Q (c\<lparr>control_cid := n\<rparr>)" "Q c \<Longrightarrow> Q (c\<lparr>interrupt_cid := n\<rparr>)" "Q c \<Longrightarrow> Q (c\<lparr>handle := n\<rparr>)"
      "Q c \<Longrightarrow> Q (c\<lparr>connected := b\<rparr>)" "Q c \<Longrightarrow> Q (c\<lparr>incoming := True\<rparr>)"
    and allowed: "uni_bt_allowlist_is_allowed_addr x (be_allow e) \<Longrightarrow> Q (conn_zero\<lparr>btaddr := x\<rparr>)"
    and asked: "Q (conn_zero\<lparr>btaddr := x, incoming := True\<rparr>)"
    and channel: "Q c \<Longrightarrow> \<not> incoming c \<Longrightarrow> C (Create_Channel (btaddr c) p)"
    and query: "K None t \<or> E \<Longrightarrow> C (Sdp_Query x u)"
    and other: "C (Remote_Name_Request x y z)" "C (Drop_Link_Key x)" "C (Pin_Code_Response x v)"
      "C (Decline_Connection u)"
    and start: "i < 4 \<Longrightarrow> K None t \<Longrightarrow> K (Some i) (Some i)"
    and range: "K (Some i) t \<Longrightarrow> i < 4"
    and stop: "E \<Longrightarrow> K None None" "E \<Longrightarrow> K q t \<Longrightarrow> K q None"
    and timeout: "K q (Some i) \<Longrightarrow> E"
begin

definition good :: "bredr \<Rightarrow> bool" where
  "good s \<longleftrightarrow> drivers_safe e \<and> table Q (bt s) \<and> K (sdp_device s) (sdp_query_timer s) \<and> (\<forall>x \<in> set (calls s). C x)"

lemma goodD:
  assumes "good s"
  shows "table Q (bt s)" "K (sdp_device s) (sdp_query_timer s)" "length (devs (bt s)) = 4" "i < 4 \<Longrightarrow> Q (conn (dev i s))"
    "drivers_safe e"
  using assms tableD [of Q "bt s"] by (simp_all add: good_def dev_def)

lemma good_bt: "good s \<Longrightarrow> table Q w \<Longrightarrow> good (s\<lparr>bt := w\<rparr>)"
  by (simp add: good_def)

lemma good_swept: "good s \<Longrightarrow> table Q w \<Longrightarrow> good (swept i s w)"
  by (simp add: good_def swept_def)

lemma good_call: "good s \<Longrightarrow> C x \<Longrightarrow> good (call x s)"
  by (simp add: good_def)

lemma good_extra: "good s \<Longrightarrow> good (on_extra i f s)"
  by (simp add: good_def)

lemma good_value: "good s \<Longrightarrow> good (s\<lparr>sdp_attribute_value := m\<rparr>)"
  by (simp add: good_def)

lemma good_dev:
  assumes "good s" "i < 4" "same_link (dev i s) (f (dev i s))"
  shows "good (on_dev i f s)"
  using assms table_upd [OF goodD(1) [OF assms(1)] assms(2), of f] goodD(4) [OF assms(1,2)]
  by (simp add: good_def dev_def same_link_def)

lemma good_conn:
  assumes "good s" "i < 4" "Q (f (conn (dev i s)))"
  shows "good (on_conn i f s)"
  using assms table_upd [OF goodD(1) [OF assms(1)] assms(2), of "\<lambda>d. d\<lparr>conn := f (conn d)\<rparr>"]
  by (simp add: good_def on_conn_def dev_def)

lemma good_state: "good s \<Longrightarrow> i < 4 \<Longrightarrow> st \<noteq> Cs_Sdp_Vendor_Fetched \<or> E \<Longrightarrow> good (on_conn i (uni_bt_conn_set_state st) s)"
  using state [of "conn (dev i s)" st] goodD(4) [of s i] by (intro good_conn) (simp_all add: uni_bt_conn_set_state_def)

lemma good_drop:
  assumes "good s" "i < 4" "drop_dev e i s = Some s'"
  shows "good s'"
proof -
  obtain w where w: "drop_device (be_gap e) i (bt s) = Some w" "s' = s\<lparr>bt := w, extra := (extra s)[i := extra_zero]\<rparr>"
    using assms(3) by (auto simp: drop_dev_def)
  show ?thesis using table_drop(1) [OF goodD(1) [OF assms(1)] assms(2) w(1) fresh] assms(1) by (simp add: w(2) good_def)
qed

lemma good_ready:
  assumes "good s" "i < 4" "set_ready e i s = Some s'"
  shows "good s'"
proof -
  obtain w where w: "uni_hid_device_set_ready (be_setup e) (be_gap e) (be_accept e) i (bt s) = Some w" "s' = swept i s w"
    using assms(3) by (auto simp: set_ready_def)
  have "table Q w"
    by (rule set_ready_table [OF goodD(5,1) [OF assms(1)] assms(2) w(1) fresh]) (simp_all add: state)
  then show ?thesis using good_swept [OF assms(1)] w(2) by simp
qed

lemma good_create_none: "good s \<Longrightarrow> create x s = Some (s', None) \<Longrightarrow> good s'"
  by (auto simp: create_def good_def dest: create_none)

lemma good_create:
  assumes "good s" "create x s = Some (s', Some i)"
  shows "i < 4" "conn (dev i s') = conn_zero\<lparr>btaddr := x\<rparr>"
    "Q (f (conn (dev i s'))) \<Longrightarrow> good (on_conn i f s')"
proof -
  obtain w where w: "uni_hid_device_create x (bt s) = Some (w, Some i)" "s' = s\<lparr>bt := w, extra := (extra s)[i := extra_zero]\<rparr>"
    using assms(2) by (auto simp: create_def)
  note c = create_table [OF goodD(1) [OF assms(1)] w(1)]
  show "i < 4" "conn (dev i s') = conn_zero\<lparr>btaddr := x\<rparr>" using c(1,2) by (simp_all add: w(2) dev_def)
  have l: "i < length (devs w)" using c(1,5) goodD(3) [OF assms(1)] by (simp add: local_to_def)
  have "table Q (upd i (\<lambda>d. d\<lparr>conn := f (conn d)\<rparr>) w)" if "Q (f (conn (dev i s')))"
    by (rule table_local [OF goodD(1) [OF assms(1)] c(1) local_trans [OF c(5) local_upd]])
      (use that c(3,4) l in \<open>simp_all add: w(2) dev_def\<close>)
  then show "Q (f (conn (dev i s'))) \<Longrightarrow> good (on_conn i f s')"
    using assms(1) by (simp add: good_def on_conn_def w(2))
qed

end

context link_law begin

lemma good_control:
  assumes "good s" "i < 4" "\<not> incoming (conn (dev i s))"
  shows "good (l2cap_create_control_connection a i s)"
proof -
  let ?s = "call (Create_Channel (addr_of i s) PSM_HID_CONTROL) s"
  have s: "good ?s" by (rule good_call [OF assms(1)]) (use channel goodD(4) [OF assms(1,2)] assms(3) in \<open>simp add: addr_of_def\<close>)
  have "good (on_conn i (\<lambda>c. c\<lparr>control_cid := n\<rparr>) ?s)" for n
    by (rule good_conn [OF s assms(2)]) (rule members(1), rule goodD(4) [OF s assms(2)])
  then show ?thesis using s good_state [OF _ assms(2)] by (simp add: l2cap_create_control_connection_def Let_def)
qed

lemma good_interrupt:
  assumes "good s" "i < 4" "\<not> incoming (conn (dev i s))"
  shows "good (l2cap_create_interrupt_connection a i s)"
proof -
  let ?s = "call (Create_Channel (addr_of i s) PSM_HID_INTERRUPT) s"
  have s: "good ?s" by (rule good_call [OF assms(1)]) (use channel goodD(4) [OF assms(1,2)] assms(3) in \<open>simp add: addr_of_def\<close>)
  have "good (on_conn i (\<lambda>c. c\<lparr>interrupt_cid := n\<rparr>) ?s)" for n
    by (rule good_conn [OF s assms(2)]) (rule members(2), rule goodD(4) [OF s assms(2)])
  then show ?thesis using s good_state [OF _ assms(2)] by (simp add: l2cap_create_interrupt_connection_def Let_def)
qed

lemma good_query: "good s \<Longrightarrow> i < 4 \<Longrightarrow> uni_bt_sdp_query_start e a i s = Some s' \<Longrightarrow> good s'"
proof -
  assume g: "good s" and i: "i < 4" and r: "uni_bt_sdp_query_start e a i s = Some s'"
  show ?thesis
  proof (cases "sdp_device s")
    case (Some k)
    then show ?thesis using r good_drop [OF g i] by (simp add: uni_bt_sdp_query_start_def)
  next
    case None
    let ?s = "s\<lparr>sdp_device := Some i, sdp_query_timer := Some i\<rparr>"
    have "good ?s" using g None start [OF i, of "sdp_query_timer s"] by (simp add: good_def)
    then have "good (call (Sdp_Query (addr_of i ?s) SERVICE_PNP_INFORMATION) (on_conn i (uni_bt_conn_set_state Cs_Sdp_Vendor_Requested) ?s))"
      using i goodD(2) [OF g] None by (intro good_call good_state query) auto
    then show ?thesis using r None good_drop [OF _ i]
      by (auto simp: uni_bt_sdp_query_start_def uni_bt_sdp_query_start_vid_pid_def Let_def split: if_splits)
  qed
qed

lemma good_fetched: "good s \<Longrightarrow> i < 4 \<Longrightarrow> fsm_descriptor_fetched e a i s = Some s' \<Longrightarrow> good s'"
  by (auto simp: fsm_descriptor_fetched_def split: if_splits intro: good_ready good_control)

lemma good_query_end: "good s \<Longrightarrow> i < 4 \<Longrightarrow> E \<Longrightarrow> uni_bt_sdp_query_end e a i s = Some s' \<Longrightarrow> good s'"
proof -
  assume g: "good s" and i: "i < 4" and E and r: "uni_bt_sdp_query_end e a i s = Some s'"
  have "good (on_conn i (uni_bt_conn_set_state Cs_Sdp_Hid_Descriptor_Fetched) s)" by (rule good_state [OF g i]) simp
  then have "good ((on_conn i (uni_bt_conn_set_state Cs_Sdp_Hid_Descriptor_Fetched) s)\<lparr>sdp_device := None, sdp_query_timer := None\<rparr>)"
    using stop(1) [OF \<open>E\<close>] by (simp add: good_def)
  then show ?thesis using r good_fetched [OF _ i] by (simp add: uni_bt_sdp_query_end_def)
qed

lemma good_query_hid: "good s \<Longrightarrow> i < 4 \<Longrightarrow> E \<Longrightarrow> uni_bt_sdp_query_start_hid_descriptor e a i s = Some s' \<Longrightarrow> good s'"
proof -
  assume g: "good s" and i: "i < 4" and E and r: "uni_bt_sdp_query_start_hid_descriptor e a i s = Some s'"
  let ?s = "call (Sdp_Query (addr_of i s) SERVICE_HID) (on_conn i (uni_bt_conn_set_state Cs_Sdp_Hid_Descriptor_Requested) s)"
  have s: "good ?s" using i g \<open>E\<close> by (intro good_call good_state query) simp_all
  then have t: "good (?s\<lparr>sdp_query_timer := None\<rparr>)" using stop(2) [OF \<open>E\<close> goodD(2) [OF s]] by (simp add: good_def)
  show ?thesis using r g s good_drop [OF t i] good_query_end [OF g i \<open>E\<close>]
    by (auto simp: uni_bt_sdp_query_start_hid_descriptor_def Let_def split: if_splits)
qed

lemma good_request:
  assumes "good s" "i < 4" "fsm_request_name i s = Some s'"
  shows "good s'"
proof -
  define r where "r = (if clock_offset (extra s ! i) AND UNI_BT_CLOCK_OFFSET_VALID \<noteq> 0
    then Remote_Name_Request (addr_of i s) (page_scan_repetition_mode (extra s ! i)) (clock_offset (extra s ! i))
    else Remote_Name_Request (addr_of i s) 0x02 0)"
  define s2 where "s2 = on_conn i (uni_bt_conn_set_state Cs_Remote_Name_Inquired) (call r s)"
  have "map_option (\<lambda>w. s2\<lparr>bt := w\<rparr>) (add_timer T_Inquiry i (bt s2)) = Some s'"
    using assms(3) unfolding fsm_request_name_def Let_def s2_def r_def .
  then obtain w where w: "add_timer T_Inquiry i (bt s2) = Some w" "s' = s2\<lparr>bt := w\<rparr>" by auto
  have "C r" by (simp add: r_def other)
  then have s: "good s2" unfolding s2_def by (intro good_state good_call assms(1,2)) simp_all
  show ?thesis unfolding w(2) by (rule good_bt [OF s table_add [OF w(1) goodD(1) [OF s] assms(2)]])
qed

lemma good_named: "good s \<Longrightarrow> i < 4 \<Longrightarrow> fsm_name_fetched e a i s = Some s' \<Longrightarrow> good s'"
proof -
  assume g: "good s" and i: "i < 4" and r: "fsm_name_fetched e a i s = Some s'"
  show ?thesis
  proof (cases "dev_name (dev i s) = ''Wireless Controller''")
    case True
    then show ?thesis using r good_query [OF good_extra [OF g] i] by (simp add: fsm_name_fetched_def)
  next
    case False
    then obtain d known where d: "uni_hid_device_guess_controller_type_from_name (be_xbox e) (dev_name (dev i s)) (dev i s) = Some (d, known)"
      using r by (auto simp: fsm_name_fetched_def bind_eq_Some_conv)
    let ?s1 = "on_dev i (\<lambda>_. d) s"
    let ?s2 = "if known then on_conn i (uni_bt_conn_set_state Cs_Sdp_Hid_Descriptor_Fetched)
      (on_extra i (\<lambda>x. x\<lparr>sdp_query_type := SDP_QUERY_NOT_NEEDED\<rparr>) ?s1) else ?s1"
    have "good ?s1" by (rule good_dev [OF g i]) (simp add: name_same [OF d])
    then have s2: "good ?s2" using good_state [OF good_extra i, of ?s1 Cs_Sdp_Hid_Descriptor_Fetched] by simp
    define s2 where "s2 = ?s2"
    have "(if incoming (conn (dev i s2)) then
        (if sdp_query_type (extra s2 ! i) = SDP_QUERY_NOT_NEEDED then set_ready e i s2 else uni_bt_sdp_query_start e a i s2)
      else Some (l2cap_create_control_connection a i s2)) = Some s'"
      using r False d unfolding s2_def fsm_name_fetched_def Let_def by (simp split del: if_split)
    moreover have g2: "good s2" using s2 unfolding s2_def .
    ultimately show ?thesis using good_query [OF g2 i] good_ready [OF g2 i] good_control [OF g2 i]
      by (auto split: if_split_asm)
  qed
qed

lemma good_fsm:
  "good s \<Longrightarrow> i < 4 \<Longrightarrow> conn_state (conn (dev i s)) \<noteq> Cs_Sdp_Vendor_Fetched \<or> E \<Longrightarrow> uni_bt_bredr_process_fsm e a i s = Some s' \<Longrightarrow> good s'"
  by (auto simp: uni_bt_bredr_process_fsm_def Let_def split: if_split_asm
      intro: good_request good_named good_query_hid good_fetched good_interrupt good_query good_ready)

end

lemma find_addr_range: "find_addr x s = Some i \<Longrightarrow> i < 4"
  unfolding find_addr_def uni_hid_device_get_instance_for_address_def by (auto dest: find_slot_range)

lemma find_cid_range: "find_cid c s = Some i \<Longrightarrow> i < 4"
  unfolding find_cid_def uni_hid_device_get_instance_for_cid_def by (auto dest: find_slot_range split: if_splits)

lemma find_handle_range: "uni_hid_device_get_instance_for_connection_handle h w = Some i \<Longrightarrow> i < 4"
  unfolding uni_hid_device_get_instance_for_connection_handle_def by (auto dest: find_slot_range split: if_splits)

lemma name_link: "same_link d (uni_hid_device_set_name n d)"
  by (cases n) (simp_all add: uni_hid_device_set_name_def same_link_def)

lemma cod_link: "same_link d (uni_hid_device_set_cod n d)"
  by (simp add: uni_hid_device_set_cod_def same_link_def)

lemma vid_link: "same_link d (uni_hid_device_set_vendor_id n d)"
  by (simp add: uni_hid_device_set_vendor_id_def same_link_def)

lemma pid_link: "same_link d (uni_hid_device_set_product_id n d)"
  by (simp add: uni_hid_device_set_product_id_def same_link_def)

lemmas learned = name_link cod_link vid_link pid_link

context link_law begin

lemma good_name: "good s \<Longrightarrow> i < 4 \<Longrightarrow> good (on_dev i (uni_hid_device_set_name n) s)"
  by (rule good_dev, assumption+, rule name_link)

lemma good_cod: "good s \<Longrightarrow> i < 4 \<Longrightarrow> good (on_dev i (uni_hid_device_set_cod n) s)"
  by (rule good_dev, assumption+, rule cod_link)

lemma good_cids:
  assumes "good s" "i < 4"
  shows "good (on_conn i (\<lambda>c. c\<lparr>control_cid := n\<rparr>) s)" "good (on_conn i (\<lambda>c. c\<lparr>interrupt_cid := n\<rparr>) s)"
  by (rule good_conn [OF assms], rule members(1) [OF goodD(4) [OF assms]]) (rule good_conn [OF assms], rule members(2) [OF goodD(4) [OF assms]])

lemma good_handle: "good s \<Longrightarrow> i < 4 \<Longrightarrow> good (on_dev i (uni_hid_device_set_connection_handle h) s)"
  using good_conn [of s i "\<lambda>c. c\<lparr>handle := h\<rparr>"] members(3) goodD(4) [of s i]
  by (simp add: on_conn_def uni_hid_device_set_connection_handle_def [abs_def])

lemma good_incoming: "good s \<Longrightarrow> i < 4 \<Longrightarrow> good (on_dev i (uni_hid_device_set_incoming True) s)"
  using good_conn [of s i "\<lambda>c. c\<lparr>incoming := True\<rparr>"] members(5) goodD(4) [of s i]
  by (simp add: on_conn_def uni_hid_device_set_incoming_def [abs_def])


lemma good_created:
  assumes "good s" "create x s = Some (s', Some i)" "uni_bt_allowlist_is_allowed_addr x (be_allow e)"
  shows "good s'"
proof -
  have "good (on_conn i (\<lambda>c. c) s')"
    by (rule good_create(3) [OF assms(1,2)]) (simp add: good_create(2) [OF assms(1,2)] allowed [OF assms(3)])
  moreover have "on_conn i (\<lambda>c. c) s' = s'" by (simp add: on_conn_def on_dev_def upd_def)
  ultimately show ?thesis by simp
qed

lemma good_incoming_connection:
  assumes "good s" "uni_bt_bredr_on_l2cap_incoming_connection e ch psm h x s = Some s'"
    "be_incoming e \<Longrightarrow> uni_bt_allowlist_is_allowed_addr x (be_allow e) \<Longrightarrow> C (Accept_Connection ch)"
  shows "good s'"
proof (cases "be_incoming e \<and> uni_bt_allowlist_is_allowed_addr x (be_allow e)")
  case False
  then show ?thesis using assms(1,2) good_call [OF assms(1) other(4), of ch]
    by (auto simp: uni_bt_bredr_on_l2cap_incoming_connection_def split: if_split_asm)
next
  case True
  then have acc: "C (Accept_Connection ch)" using assms(3) by simp
  obtain s1 device where d: "(case find_addr x s of
      Some i \<Rightarrow> if conn_state (conn (dev i s)) = Cs_Ready then map_option (\<lambda>s1. (s1, None)) (drop_dev e i s) else Some (s, Some i)
    | None \<Rightarrow> Some (s, None)) = Some (s1, device)"
    and r: "(if psm = PSM_HID_CONTROL then do {
          (s2, device) \<leftarrow> (case device of Some i \<Rightarrow> Some (s1, Some i) | None \<Rightarrow> create x s1);
          Some (case device of
              None \<Rightarrow> call (Decline_Connection ch) s2
            | Some i \<Rightarrow> on_dev i (uni_hid_device_set_incoming True) (on_conn i (\<lambda>c. c\<lparr>control_cid := ch\<rparr>)
                (on_dev i (uni_hid_device_set_connection_handle h) (call (Accept_Connection ch) s2))))
        }
        else if psm = PSM_HID_INTERRUPT then
          Some (case device of
              None \<Rightarrow> call (Decline_Connection ch) s1
            | Some i \<Rightarrow> call (Accept_Connection ch) (on_conn i (\<lambda>c. c\<lparr>interrupt_cid := ch\<rparr>) s1))
        else Some s1) = Some s'"
    using assms(2) True unfolding uni_bt_bredr_on_l2cap_incoming_connection_def
    by (auto simp: bind_eq_Some_conv simp del: PSM_HID_CONTROL_def PSM_HID_INTERRUPT_def)
  have s1: "good s1" "\<And>i. device = Some i \<Longrightarrow> i < 4"
    using d assms(1) good_drop [OF assms(1) find_addr_range]
    by (auto split: option.splits if_splits dest: find_addr_range)
  have fin: "good (on_dev i (uni_hid_device_set_incoming True) (on_conn i (\<lambda>c. c\<lparr>control_cid := ch\<rparr>)
      (on_dev i (uni_hid_device_set_connection_handle h) (call (Accept_Connection ch) s2))))"
    if "good s2" "i < 4" for i s2
  proof -
    have g: "good (on_dev i (uni_hid_device_set_connection_handle h) (call (Accept_Connection ch) s2))"
      by (intro good_handle good_call that acc)
    show ?thesis by (rule good_incoming [OF good_cids(1) [OF g that(2)] that(2)])
  qed
  show ?thesis
  proof (cases "psm = PSM_HID_CONTROL")
    case True
    then obtain s2 dv where c: "(case device of Some i \<Rightarrow> Some (s1, Some i) | None \<Rightarrow> create x s1) = Some (s2, dv)"
      and s': "s' = (case dv of None \<Rightarrow> call (Decline_Connection ch) s2
        | Some i \<Rightarrow> on_dev i (uni_hid_device_set_incoming True) (on_conn i (\<lambda>c. c\<lparr>control_cid := ch\<rparr>)
            (on_dev i (uni_hid_device_set_connection_handle h) (call (Accept_Connection ch) s2))))"
      using r by (auto simp: bind_eq_Some_conv)
    have "good s2 \<and> (\<forall>i. dv = Some i \<longrightarrow> i < 4)"
    proof (cases device)
      case (Some i)
      then show ?thesis using c s1 by auto
    next
      case None
      then have c: "create x s1 = Some (s2, dv)" using c by simp
      show ?thesis
      proof (cases dv)
        case None
        then show ?thesis using good_create_none [OF s1(1)] c by simp
      next
        case (Some i)
        then show ?thesis using good_created [OF s1(1), of x s2 i] good_create(1) [OF s1(1), of x s2 i] c
          \<open>be_incoming e \<and> uni_bt_allowlist_is_allowed_addr x (be_allow e)\<close> by simp
      qed
    qed
    then show ?thesis using s' fin good_call [OF _ other(4)] by (auto split: option.splits)
  next
    case False
    have "good (call (Accept_Connection ch) (on_conn i (\<lambda>c. c\<lparr>interrupt_cid := ch\<rparr>) s1))" if "device = Some i" for i
      using s1 that members(2) [OF goodD(4) [OF s1(1)]] acc by (intro good_call good_conn) simp_all
    then show ?thesis using r False s1(1) good_call [OF s1(1) other(4)] by (auto split: option.splits if_splits)
  qed
qed

end

context link_law begin

lemma good_opened:
  assumes "good s" "uni_bt_bredr_on_l2cap_channel_opened e a status psm x cid s = Some s'" "\<And>c. Q c \<Longrightarrow> conn_state c \<noteq> Cs_Sdp_Vendor_Fetched \<or> E"
  shows "good s'"
proof (cases "find_addr x s")
  case None
  then show ?thesis using assms by (simp add: uni_bt_bredr_on_l2cap_channel_opened_def)
next
  case (Some i)
  note i = find_addr_range [OF Some]
  let ?c = "on_conn i (uni_bt_conn_set_state Cs_L2cap_Control_Connected) (on_conn i (\<lambda>c. c\<lparr>control_cid := cid\<rparr>) s)"
  let ?i = "on_conn i (uni_bt_conn_set_state Cs_L2cap_Interrupt_Connected) (on_conn i (\<lambda>c. c\<lparr>interrupt_cid := cid\<rparr>) s)"
  have c: "good ?c" using members(1) [OF goodD(4) [OF assms(1) i]] assms(1) i by (intro good_state good_conn) simp_all
  have ii: "good ?i" using members(2) [OF goodD(4) [OF assms(1) i]] assms(1) i by (intro good_state good_conn) simp_all
  have "good (?i\<lparr>bt := uni_hid_device_connect i (bt ?i)\<rparr>)"
    by (rule good_bt [OF ii table_connect [OF goodD(1) [OF ii] i members(4)]])
  then have f: "good s'" if "uni_bt_bredr_process_fsm e a i (if psm = PSM_HID_CONTROL then ?c
      else if psm = PSM_HID_INTERRUPT then (let s1 = ?i in s1\<lparr>bt := uni_hid_device_connect i (bt s1)\<rparr>) else s) = Some s'"
    using that c assms(1,3) good_fsm [OF _ i _ that] goodD(4) [OF _ i] by (auto simp: Let_def split: if_split_asm)
  show ?thesis using assms(2) Some f good_drop [OF good_call [OF assms(1) other(2)] i]
    by (simp add: uni_bt_bredr_on_l2cap_channel_opened_def split: if_split_asm)
qed

lemma good_inquiry:
  assumes "good s" "uni_bt_bredr_on_gap_inquiry_result e a x psrm clk c r nm s = Some s'" "\<And>c. Q c \<Longrightarrow> conn_state c \<noteq> Cs_Sdp_Vendor_Fetched \<or> E"
  shows "good s'"
proof -
  have fsm: "good s'" if "good t" "i < 4" "uni_bt_bredr_process_fsm e a i t = Some s'" for t i
    using good_fsm [OF that(1,2) assms(3) [OF goodD(4) [OF that(1,2)]] that(3)] .
  show ?thesis
  proof (cases "HID_MAX_NAME_LEN < length nm \<or> uni_hid_device_on_device_discovered x (ucast c) r (be_allow e) \<noteq> UNI_ERROR_SUCCESS")
    case True
    then show ?thesis using assms(1,2) by (auto simp: uni_bt_bredr_on_gap_inquiry_result_def split: if_split_asm)
  next
    case False
    then have ok: "uni_bt_allowlist_is_allowed_addr x (be_allow e)"
      by (auto simp: uni_hid_device_on_device_discovered_def split: if_split_asm)
    show ?thesis
    proof (cases "find_addr x s")
      case (Some i)
      then show ?thesis using False assms(1,2) fsm [OF assms(1) find_addr_range]
        by (auto simp: uni_bt_bredr_on_gap_inquiry_result_def split: if_split_asm)
    next
      case None
      then obtain s1 dv where d: "create x s = Some (s1, dv)"
        using False assms(2) by (auto simp: uni_bt_bredr_on_gap_inquiry_result_def bind_eq_Some_conv)
      show ?thesis
      proof (cases dv)
        case dn: None
        then show ?thesis using None False assms(2) d good_create_none [OF assms(1)]
          by (simp add: uni_bt_bredr_on_gap_inquiry_result_def)
      next
        case dv: (Some i)
        note cr = good_created [OF assms(1) d [unfolded dv] ok] good_create(1) [OF assms(1) d [unfolded dv]]
        let ?s2 = "on_extra i (\<lambda>x. x\<lparr>page_scan_repetition_mode := psrm, clock_offset := clk OR UNI_BT_CLOCK_OFFSET_VALID, rssi := r\<rparr>)
          (on_dev i (uni_hid_device_set_cod c) (on_conn i (uni_bt_conn_set_state Cs_Discovered) s1))"
        let ?s3 = "if nm \<noteq> [] \<and> \<not> uni_hid_device_has_name (dev i ?s2)
          then on_conn i (uni_bt_conn_set_state Cs_Remote_Name_Fetched) (on_dev i (uni_hid_device_set_name (Some nm)) ?s2) else ?s2"
        have s2: "good ?s2" by (intro good_extra good_dev good_state cr learned) simp
        have "good (on_conn i (uni_bt_conn_set_state Cs_Remote_Name_Fetched) (on_dev i (uni_hid_device_set_name (Some nm)) ?s2))"
          by (intro good_state good_dev s2 cr learned) simp
        then have "good ?s3" using s2 by simp
        moreover have "uni_bt_bredr_process_fsm e a i ?s3 = Some s'"
          using None False assms(2) d dv unfolding uni_bt_bredr_on_gap_inquiry_result_def Let_def by (simp split del: if_split)
        ultimately show ?thesis using fsm cr(2) by blast
      qed
    qed
  qed
qed

lemma good_request_connection:
  assumes "good s" "uni_bt_bredr_on_hci_connection_request x c s = Some s'"
  shows "good s'"
proof (cases "find_addr x s")
  case (Some i)
  then show ?thesis using assms good_incoming [OF good_cod [OF assms(1)]] find_addr_range [OF Some]
    by (auto simp: uni_bt_bredr_on_hci_connection_request_def)
next
  case None
  then obtain s1 dv where d: "create x s = Some (s1, dv)" and s': "s' = (case dv of None \<Rightarrow> s1
      | Some i \<Rightarrow> on_dev i (uni_hid_device_set_incoming True) (on_dev i (uni_hid_device_set_cod c) s1))"
    using assms(2) by (auto simp: uni_bt_bredr_on_hci_connection_request_def bind_eq_Some_conv)
  show ?thesis
  proof (cases dv)
    case None
    then show ?thesis using d s' good_create_none [OF assms(1)] by simp
  next
    case (Some i)
    note cr = good_create [OF assms(1) d [unfolded Some]]
    have g: "good (on_conn i (\<lambda>c. c\<lparr>incoming := True\<rparr>) s1)" by (rule cr(3)) (simp add: cr(2) asked)
    have "on_dev i (uni_hid_device_set_incoming True) (on_dev i (uni_hid_device_set_cod c) s1) =
        on_dev i (uni_hid_device_set_cod c) (on_conn i (\<lambda>c. c\<lparr>incoming := True\<rparr>) s1)"
      using goodD(3) [OF g] cr(1)
      by (cases "devs (bt s1) ! i") (simp add: on_conn_def on_dev_def upd_def uni_hid_device_set_incoming_def uni_hid_device_set_cod_def)
    then show ?thesis using s' Some good_cod [OF g cr(1)] by simp
  qed
qed

lemma good_remote_name:
  assumes "good s" "uni_bt_bredr_on_hci_remote_name_request_complete e a x status nm s = Some s'"
  shows "good s'"
proof (cases "find_addr x s")
  case None
  then show ?thesis using assms by (simp add: uni_bt_bredr_on_hci_remote_name_request_complete_def)
next
  case (Some i)
  note i = find_addr_range [OF Some]
  define s1 where "s1 = on_dev i (uni_hid_device_set_name (Some (if status \<noteq> 0 then FAKE_NAME else nm))) s"
  have s1: "good s1" unfolding s1_def by (rule good_name [OF assms(1) i])
  have t: "good (on_conn i (uni_bt_conn_set_state Cs_Remote_Name_Fetched) s1)" by (rule good_state [OF s1 i]) simp
  have st: "conn_state (conn (dev i (on_conn i (uni_bt_conn_set_state Cs_Remote_Name_Fetched) s1))) = Cs_Remote_Name_Fetched"
    using goodD(3) [OF s1] i by (simp add: on_conn_def uni_bt_conn_set_state_def)
  obtain s2 where s2: "(if conn_state (conn (dev i s1)) \<notin> {Cs_Pending_Ready, Cs_Ready}
      then uni_bt_bredr_process_fsm e a i (on_conn i (uni_bt_conn_set_state Cs_Remote_Name_Fetched) s1) else Some s1) = Some s2"
    and s': "s' = s2\<lparr>bt := remove_timer T_Inquiry i (bt s2)\<rparr>"
    using assms(2) Some unfolding uni_bt_bredr_on_hci_remote_name_request_complete_def Let_def
    by (auto simp only: option.case bind_eq_Some_conv option.inject s1_def)
  have "good s2" if "uni_bt_bredr_process_fsm e a i (on_conn i (uni_bt_conn_set_state Cs_Remote_Name_Fetched) s1) = Some s2"
    by (rule good_fsm [OF t i _ that]) (simp add: st)
  then have "good s2" using s2 s1 by (cases "conn_state (conn (dev i s1)) \<notin> {Cs_Pending_Ready, Cs_Ready}") (simp_all del: insert_iff)
  then show ?thesis unfolding s' by (intro good_bt table_remove goodD(1))
qed

lemma good_name_timeout:
  assumes "good s" "(T_Inquiry, i) \<in> set (timers (bt s))"
    "inquiry_remote_name_timeout_callback e a i (s\<lparr>bt := remove_timer T_Inquiry i (bt s)\<rparr>) = Some s'"
  shows "good s'"
proof -
  let ?s = "s\<lparr>bt := remove_timer T_Inquiry i (bt s)\<rparr>"
  let ?n = "on_dev i (uni_hid_device_set_name (Some FAKE_NAME)) ?s"
  have i: "i < 4" using tableD(5) [OF goodD(1) [OF assms(1)] assms(2)] .
  have "good ?s" by (rule good_bt [OF assms(1) table_remove [OF goodD(1) [OF assms(1)]]])
  then have n: "good ?n" by (rule good_name [OF _ i])
  have g: "good (on_conn i (uni_bt_conn_set_state Cs_Remote_Name_Fetched) ?n)" by (rule good_state [OF n i]) simp
  have "conn_state (conn (dev i (on_conn i (uni_bt_conn_set_state Cs_Remote_Name_Fetched) ?n))) = Cs_Remote_Name_Fetched"
    using goodD(3) [OF n] i by (simp add: on_conn_def uni_bt_conn_set_state_def)
  then show ?thesis using assms(3) good_fsm [OF g i] by (simp add: inquiry_remote_name_timeout_callback_def)
qed

lemma good_data:
  assumes "good s" "uni_bt_bredr_on_l2cap_data_packet e ch packet s = Some s'"
  shows "good s'"
proof (cases "find_cid ch s")
  case None
  then show ?thesis using assms by (simp add: uni_bt_bredr_on_l2cap_data_packet_def)
next
  case (Some i)
  note i = find_cid_range [OF Some]
  have k: "Q c'" if "Q c" "driver_conn c c'" for c c' using that fresh state by (auto simp: driver_conn_def)
  have dr: "table Q w" if "driver_result e i (bt s) w" for w
    by (rule table_drivers [OF goodD(5,1) [OF assms(1)] i that k])
  have f: "table Q w" if "be_feature e i p (bt s) = Some w" for w p by (rule dr) (use that in \<open>auto simp: driver_result_def\<close>)
  have n: "table Q w'" if "be_input e i p (bt s) = Some w" "uni_hid_device_process_controller (be_cfg e) i w = Some w'" for w w' p
    by (rule table_process [OF dr i that(2)]) (use that in \<open>auto simp: driver_result_def\<close>)
  show ?thesis using assms(2) Some f n good_swept [OF assms(1)] assms(1) goodD(1) [OF assms(1)]
    by (auto simp: uni_bt_bredr_on_l2cap_data_packet_def bind_eq_Some_conv split: if_split_asm)
qed

end

text \<open>An event carries the result of a query.\<close>

definition sdp_result :: "bredr_event \<Rightarrow> bool" where
  "sdp_result ev \<longleftrightarrow> (case ev of Sdp_Pid_Byte _ _ _ _ \<Rightarrow> True | Sdp_Pid_Complete \<Rightarrow> True | Sdp_Hid_Byte _ _ _ _ \<Rightarrow> True | Sdp_Hid_Complete \<Rightarrow> True
     | _ \<Rightarrow> False)"

text \<open>An incoming channel that may be accepted.\<close>

definition admits :: "bredr_env \<Rightarrow> bredr_event \<Rightarrow> u16 \<Rightarrow> bool" where
  "admits e ev ch \<longleftrightarrow> be_incoming e \<and> (case ev of Incoming_Connection c _ _ x \<Rightarrow> c = ch \<and> uni_bt_allowlist_is_allowed_addr x (be_allow e) | _ \<Rightarrow> False)"

lemma admits_conv:
  "admits e ev ch \<longleftrightarrow> be_incoming e \<and> (\<exists>psm h b. ev = Incoming_Connection ch psm h b \<and> uni_bt_allowlist_is_allowed_addr b (be_allow e))"
  by (cases ev) (auto simp: admits_def)

context link_law begin

lemma good_pid_byte:
  assumes "good s" "sdp_pid_byte aid len off b s = Some s'"
  shows "good s'"
proof (cases "sdp_device s")
  case None
  then show ?thesis using assms by (simp add: sdp_pid_byte_def)
next
  case (Some i)
  have i: "i < 4" using goodD(2) [OF assms(1)] Some range by simp
  have v: "good (on_dev i (uni_hid_device_set_vendor_id n) (s\<lparr>sdp_attribute_value := m\<rparr>))"
    "good (on_dev i (uni_hid_device_set_product_id n) (s\<lparr>sdp_attribute_value := m\<rparr>))" for n m
    by (rule good_dev [OF good_value [OF assms(1)] i], rule vid_link) (rule good_dev [OF good_value [OF assms(1)] i], rule pid_link)
  show ?thesis using assms(2) Some good_value [OF assms(1)] v
    by (auto simp: sdp_pid_byte_def bind_eq_Some_conv Let_def split: if_split_asm option.splits)
qed

lemma good_hid_byte:
  assumes "good s" "sdp_hid_byte aid len off b s = Some s'"
  shows "good s'"
proof (cases "sdp_device s")
  case None
  then show ?thesis using assms by (simp add: sdp_hid_byte_def)
next
  case (Some i)
  have i: "i < 4" using goodD(2) [OF assms(1)] Some range by simp
  have "good (on_dev i (\<lambda>_. d) (s\<lparr>sdp_attribute_value := m\<rparr>))"
    if "hid_descriptor_list n (dev i s) = Some d" for d m n
    by (rule good_dev [OF good_value [OF assms(1)] i]) (simp add: list_same [OF that])
  then show ?thesis using assms Some good_value [OF assms(1)]
    by (auto simp: sdp_hid_byte_def bind_eq_Some_conv Let_def split: if_split_asm)
qed

lemma good_pid_complete:
  assumes "good s" "E" "sdp_pid_complete e a s = Some s'"
  shows "good s'"
proof (cases "sdp_device s")
  case None
  then show ?thesis using assms by (simp add: sdp_pid_complete_def)
next
  case (Some i)
  have i: "i < 4" using goodD(2) [OF assms(1)] Some range by simp
  obtain d where d: "uni_hid_device_guess_controller_type_from_pid_vid (be_xbox e) (dev i s) = Some d"
    and r: "uni_bt_bredr_process_fsm e a i (on_conn i (uni_bt_conn_set_state Cs_Sdp_Vendor_Fetched) (on_dev i (\<lambda>_. d) s)) = Some s'"
    using assms(3) Some by (auto simp: sdp_pid_complete_def bind_eq_Some_conv)
  have "good (on_dev i (\<lambda>_. d) s)" by (rule good_dev [OF assms(1) i]) (simp add: guess_same [OF d])
  then have "good (on_conn i (uni_bt_conn_set_state Cs_Sdp_Vendor_Fetched) (on_dev i (\<lambda>_. d) s))"
    using i assms(2) by (intro good_state) simp_all
  then show ?thesis using r assms(2) i by (auto intro: good_fsm)
qed

lemma good_hid_complete:
  assumes "good s" "E" "sdp_hid_complete e a s = Some s'"
  shows "good s'"
proof (cases "sdp_device s")
  case None
  then show ?thesis using assms(1,3) by (simp add: sdp_hid_complete_def)
next
  case (Some i)
  then show ?thesis using assms(3) good_query_end [OF assms(1) _ assms(2), of i] goodD(2) [OF assms(1)] range
    by (simp add: sdp_hid_complete_def)
qed

lemma good_timeout_sdp: "good s \<Longrightarrow> sdp_query_timer s = Some k \<Longrightarrow> good (sdp_query_timeout k (s\<lparr>sdp_query_timer := None\<rparr>))"
  using stop timeout by (auto simp: good_def sdp_query_timeout_def)

lemma good_connection_timeout:
  assumes "good s" "(T_Connection, i) \<in> set (timers (bt s))"
    "device_connection_timeout (be_gap e) i (remove_timer T_Connection i (bt s)) = Some w"
  shows "good (swept i s w)"
  using good_swept [OF assms(1) timeout_table [OF table_remove [OF goodD(1) [OF assms(1)]] _ assms(3) fresh]]
    tableD(5) [OF goodD(1) [OF assms(1)] assms(2)] by simp

lemma good_disconnection: "good s \<Longrightarrow> on_hci_disconnection_complete e h s = Some s' \<Longrightarrow> good s'"
  by (auto simp: on_hci_disconnection_complete_def split: option.splits dest: find_handle_range intro: good_drop)

lemma good_closed: "good s \<Longrightarrow> uni_bt_bredr_on_l2cap_channel_closed e cid s = Some s' \<Longrightarrow> good s'"
  by (auto simp: uni_bt_bredr_on_l2cap_channel_closed_def split: option.splits dest: find_cid_range intro: good_drop)

lemma good_connection_complete: "good s \<Longrightarrow> good (uni_bt_bredr_on_hci_connection_complete x status h s)"
  by (auto simp: uni_bt_bredr_on_hci_connection_complete_def split: option.splits dest: find_addr_range intro: good_handle)

lemma good_pin: "good s \<Longrightarrow> good (uni_bt_bredr_on_hci_pin_code_request x y s)"
  by (auto simp: uni_bt_bredr_on_hci_pin_code_request_def Let_def other intro!: good_call)

theorem step_good:
  assumes "good s" "bredr_step e a ev s = Some s'" "\<And>c. Q c \<Longrightarrow> conn_state c \<noteq> Cs_Sdp_Vendor_Fetched \<or> E"
    "sdp_result ev \<longrightarrow> E" "\<And>ch. admits e ev ch \<Longrightarrow> C (Accept_Connection ch)"
  shows "good s'"
proof (cases ev)
  case (Incoming_Connection ch psm h x)
  then show ?thesis using good_incoming_connection [OF assms(1)] assms(2,5) by (simp add: bredr_step_def admits_def)
next
  case (Channel_Opened status psm x cid)
  then show ?thesis using good_opened [OF assms(1) _ assms(3)] assms(2) by (simp add: bredr_step_def)
next
  case (Inquiry_Result x psrm clk c r nm)
  then show ?thesis using good_inquiry [OF assms(1) _ assms(3)] assms(2) by (simp add: bredr_step_def)
next
  case (Rssi_Measurement h r)
  then show ?thesis using assms(1,2) good_extra by (auto simp: bredr_step_def split: option.splits)
next
  case (Name_Timeout i)
  then show ?thesis using assms(1,2) good_name_timeout [OF assms(1)] by (simp add: bredr_step_def split: if_split_asm)
next
  case (Connection_Timeout i)
  then show ?thesis using assms(1,2) good_connection_timeout [OF assms(1)] by (auto simp: bredr_step_def split: if_split_asm)
next
  case Sdp_Timeout
  then show ?thesis using assms(1,2) good_timeout_sdp [OF assms(1)] by (auto simp: bredr_step_def split: option.splits)
next
  case (Channel_Closed cid)
  then show ?thesis using assms(2) good_closed [OF assms(1)] by (simp add: bredr_step_def)
next
  case (Connection_Request x c)
  then show ?thesis using assms(2) good_request_connection [OF assms(1)] by (simp add: bredr_step_def)
next
  case (Connection_Complete x status h)
  then show ?thesis using assms(2) good_connection_complete [OF assms(1)] by (auto simp: bredr_step_def)
next
  case (Disconnection_Complete h)
  then show ?thesis using assms(2) good_disconnection [OF assms(1)] by (simp add: bredr_step_def)
next
  case (Pin_Code_Request x y)
  then show ?thesis using assms(2) good_pin [OF assms(1)] by (auto simp: bredr_step_def)
next
  case (Remote_Name_Complete x status nm)
  then show ?thesis using assms(2) good_remote_name [OF assms(1)] by (simp add: bredr_step_def)
next
  case (Sdp_Pid_Byte aid len off b)
  then show ?thesis using assms(2) good_pid_byte [OF assms(1)] by (simp add: bredr_step_def)
next
  case Sdp_Pid_Complete
  then show ?thesis using assms(2,4) good_pid_complete [OF assms(1)] by (simp add: bredr_step_def sdp_result_def)
next
  case (Sdp_Hid_Byte aid len off b)
  then show ?thesis using assms(2) good_hid_byte [OF assms(1)] by (simp add: bredr_step_def)
next
  case Sdp_Hid_Complete
  then show ?thesis using assms(2,4) good_hid_complete [OF assms(1)] by (simp add: bredr_step_def sdp_result_def)
next
  case (Data_Packet ch packet)
  then show ?thesis using assms(2) good_data [OF assms(1)] by (simp add: bredr_step_def)
qed

theorem run_good:
  assumes "\<And>c. Q c \<Longrightarrow> conn_state c \<noteq> Cs_Sdp_Vendor_Fetched \<or> E"
  shows "good s \<Longrightarrow> bredr_run e evs s = Some s' \<Longrightarrow>
    \<forall>x \<in> set evs. (sdp_result (fst x) \<longrightarrow> E) \<and> (\<forall>ch. admits e (fst x) ch \<longrightarrow> C (Accept_Connection ch)) \<Longrightarrow> good s'"
proof (induction evs arbitrary: s)
  case (Cons x evs)
  obtain ev a where x: "x = (ev, a)" by (cases x)
  obtain s1 where s1: "bredr_step e a ev s = Some s1" "bredr_run e evs s1 = Some s'"
    using Cons.prems(2) by (auto simp: x bind_eq_Some_conv)
  have "good s1" by (rule step_good [OF Cons.prems(1) s1(1) assms]) (use Cons.prems(3) x in auto)
  then show ?case by (rule Cons.IH [OF _ s1(2)]) (use Cons.prems(3) in simp)
qed simp

end

end
