(* ===== verification/Bredr_Connect.thy ===== *)
theory Bredr_Connect
  imports Bredr_Law
begin

text \<open>
  The interpretations of \<open>link_law\<close>, for the allowlist and for a query that cannot end, then the way of a discovered device to
  the ready state, with the descriptor it sends, and orders of events the handlers do not expect, run on the model.
\<close>

section \<open>Only allowed devices\<close>

definition asked_by :: "bredr_env \<Rightarrow> (bredr_event \<times> stack_answer) list \<Rightarrow> bredr_call \<Rightarrow> bool" where
  "asked_by e evs x \<longleftrightarrow> (case x of
     Create_Channel b _ \<Rightarrow> b = zero_addr \<or> uni_bt_allowlist_is_allowed_addr b (be_allow e)
   | Accept_Connection ch \<Rightarrow> (\<exists>ev \<in> set evs. admits e (fst ev) ch)
   | _ \<Rightarrow> True)"

definition allowed_conn :: "bredr_env \<Rightarrow> uni_bt_conn \<Rightarrow> bool" where
  "allowed_conn e c \<longleftrightarrow> incoming c \<or> btaddr c = zero_addr \<or> uni_bt_allowlist_is_allowed_addr (btaddr c) (be_allow e)"

definition query_in_table :: "nat option \<Rightarrow> nat option \<Rightarrow> bool" where
  "query_in_table q t \<longleftrightarrow> (case q of None \<Rightarrow> True | Some i \<Rightarrow> i < 4)"

interpretation allow: link_law e "allowed_conn e" "asked_by e evs" query_in_table True for e evs
  by unfold_locales (auto simp: allowed_conn_def asked_by_def query_in_table_def uni_bt_conn_init_def conn_zero_def)

lemma start_table: "table Q world_start \<longleftrightarrow> Q uni_bt_conn_init"
  by (auto simp: table_def world_start_def) (meson zero_less_numeral)

lemma allow_start: "drivers_safe e \<Longrightarrow> allow.good e evs bredr_start"
  by (simp add: allow.good_def bredr_start_def start_table allow.fresh query_in_table_def)


section \<open>A query that never ends\<close>

definition no_vendor :: "uni_bt_conn \<Rightarrow> bool" where
  "no_vendor c \<longleftrightarrow> conn_state c \<noteq> Cs_Sdp_Vendor_Fetched"

definition old_query :: "bredr_call list \<Rightarrow> bredr_call \<Rightarrow> bool" where
  "old_query cs x \<longleftrightarrow> (case x of Sdp_Query _ _ \<Rightarrow> x \<in> set cs | _ \<Rightarrow> True)"

definition query_of :: "nat \<Rightarrow> nat option \<Rightarrow> nat option \<Rightarrow> bool" where
  "query_of k q t \<longleftrightarrow> k < 4 \<and> q = Some k \<and> t = None"

interpretation lock: link_law e no_vendor "old_query cs" "query_of k" False for e cs k
  by unfold_locales (auto simp: no_vendor_def old_query_def query_of_def uni_bt_conn_init_def conn_zero_def)

definition sdp_locked :: "bredr_env \<Rightarrow> bredr \<Rightarrow> bool" where
  "sdp_locked e s \<longleftrightarrow> drivers_safe e \<and> table no_vendor (bt s) \<and> (\<exists>k < 4. sdp_device s = Some k) \<and> sdp_query_timer s = None"


section \<open>A device gets connected\<close>

text \<open>The driver's set-up is done at once, and the platform takes the device.\<close>

definition completes :: "bredr_env \<Rightarrow> bool" where
  "completes e \<longleftrightarrow> be_accept e \<and>
     (\<forall>drv i w. be_setup e drv i w = map_option fst (uni_hid_device_set_ready_complete (be_gap e) True i w))"

text \<open>Slot \<open>i\<close> holds the device with this address, found by discovery, in this state; \<open>q\<close> is the query and its timer.\<close>

definition link_at :: "nat \<Rightarrow> bd_addr \<Rightarrow> conn_state \<Rightarrow> nat option \<Rightarrow> bredr \<Rightarrow> bool" where
  "link_at i x st q s \<longleftrightarrow> i < 4 \<and> x \<noteq> zero_addr \<and> length (devs (bt s)) = 4 \<and> length (extra s) = 4 \<and>
     length (sdp_attribute_value s) = MAX_ATTRIBUTE_VALUE_SIZE \<and> length (hid_descriptor (dev i s)) = 512 \<and>
     btaddr (conn (dev i s)) = x \<and> conn_state (conn (dev i s)) = st \<and> \<not> incoming (conn (dev i s)) \<and> parent (dev i s) = None \<and>
     sdp_query_type (extra s ! i) = SDP_QUERY_AFTER_CONNECT \<and> sdp_device s = q \<and> sdp_query_timer s = q \<and>
     (\<forall>j < 4. j \<noteq> i \<longrightarrow> parent (dev j s) \<noteq> None \<or> btaddr (conn (dev j s)) \<noteq> x)"

lemma find_only: "i < 4 \<Longrightarrow> P (devs w ! i) \<Longrightarrow> (\<And>j. j < 4 \<Longrightarrow> j \<noteq> i \<Longrightarrow> \<not> P (devs w ! j)) \<Longrightarrow> find_slot P w = Some i"
  unfolding find_slot_def by (subst find_Some_iff) (rule exI [of _ i], auto)

lemma link_find: "link_at i x st q s \<Longrightarrow> find_addr x s = Some i"
  unfolding find_addr_def uni_hid_device_get_instance_for_address_def
  by (rule find_only) (auto simp: link_at_def uni_hid_device_is_virtual_device_def dev_def)

lemma link_dev: "link_at i x st q s \<Longrightarrow> same_link (dev i s) d \<Longrightarrow> length (hid_descriptor d) = 512 \<Longrightarrow> link_at i x st q (on_dev i (\<lambda>_. d) s)"
  by (auto simp: link_at_def same_link_def dev_def on_dev_def upd_def nth_list_update)

lemma link_conn:
  assumes "link_at i x st q s" "btaddr (f (conn (dev i s))) = btaddr (conn (dev i s))" "incoming (f (conn (dev i s))) = incoming (conn (dev i s))"
  shows "link_at i x (conn_state (f (conn (dev i s)))) q (on_conn i f s)"
  using assms by (auto simp: link_at_def dev_def on_conn_def on_dev_def upd_def nth_list_update)

lemma link_state: "link_at i x st q s \<Longrightarrow> link_at i x st' q (on_conn i (uni_bt_conn_set_state st') s)"
  using link_conn [of i x st q s "uni_bt_conn_set_state st'"] by (simp add: uni_bt_conn_set_state_def)

lemma link_cids: "link_at i x st q s \<Longrightarrow> link_at i x st q (on_conn i (\<lambda>c. c\<lparr>control_cid := n\<rparr>) s)"
  "link_at i x st q s \<Longrightarrow> link_at i x st q (on_conn i (\<lambda>c. c\<lparr>interrupt_cid := n\<rparr>) s)"
  using link_conn [of i x st q s "\<lambda>c. c\<lparr>control_cid := n\<rparr>"] link_conn [of i x st q s "\<lambda>c. c\<lparr>interrupt_cid := n\<rparr>"]
  by (auto simp: link_at_def)

lemma link_call: "link_at i x st q (call c s) \<longleftrightarrow> link_at i x st q s"
  by (simp add: link_at_def)

lemma link_stored: "link_at i x st q (s\<lparr>sdp_attribute_value := m\<rparr>) \<longleftrightarrow>
    link_at i x st q (s\<lparr>sdp_attribute_value := replicate 512 0\<rparr>) \<and> length m = 512"
  by (auto simp: link_at_def dev_def)

lemma link_query: "link_at i x st q s \<Longrightarrow> link_at i x st q' (s\<lparr>sdp_device := q', sdp_query_timer := q'\<rparr>)"
  by (simp add: link_at_def dev_def)

lemma link_world: "link_at i x st q s \<Longrightarrow> devs w = devs (bt s) \<Longrightarrow> link_at i x st q (s\<lparr>bt := w\<rparr>)"
  by (simp add: link_at_def dev_def)

lemma link_connect:
  assumes "link_at i x st q s"
  shows "link_at i x st q (s\<lparr>bt := uni_hid_device_connect i (bt s)\<rparr>)"
    "flags (dev i (s\<lparr>bt := uni_hid_device_connect i (bt s)\<rparr>)) = flags (dev i s)"
proof -
  let ?c = "on_conn i (uni_bt_conn_set_connected True) s"
  have c: "link_at i x st q ?c"
    using link_conn [OF assms, of "uni_bt_conn_set_connected True"] assms by (auto simp: uni_bt_conn_set_connected_def link_at_def)
  have "devs (uni_hid_device_connect i (bt s)) = devs (bt ?c)"
    by (simp add: uni_hid_device_connect_def uni_hid_device_on_connected_def on_conn_def)
  moreover have "?c\<lparr>bt := w\<rparr> = s\<lparr>bt := w\<rparr>" for w by (simp add: on_conn_def on_dev_def)
  ultimately show "link_at i x st q (s\<lparr>bt := uni_hid_device_connect i (bt s)\<rparr>)" using link_world [OF c] by simp
  show "flags (dev i (s\<lparr>bt := uni_hid_device_connect i (bt s)\<rparr>)) = flags (dev i s)"
    using assms by (simp add: link_at_def dev_def uni_hid_device_connect_def uni_hid_device_on_connected_def)
qed

lemma ready_complete:
  assumes "i < length (devs w)" "conn_state (conn (devs w ! i)) \<noteq> Cs_Ready"
  shows "\<exists>w'. uni_hid_device_set_ready_complete gap True i w = Some (w', True) \<and>
    devs w' = (devs w)[i := (devs w ! i)\<lparr>conn := (conn (devs w ! i))\<lparr>conn_state := Cs_Ready\<rparr>\<rparr>]"
  using assms by (auto simp: uni_hid_device_set_ready_complete_def uni_bt_conn_set_state_def upd_def)

lemma ready_reached:
  assumes "completes e" "link_at i x st q s" "st \<noteq> Cs_Pending_Ready"
  shows "\<exists>s'. set_ready e i s = Some s' \<and> conn_state (conn (dev i s')) = Cs_Ready \<and> btaddr (conn (dev i s')) = x \<and>
    hid_descriptor (dev i s') = hid_descriptor (dev i s) \<and> report_parser (dev i s') = report_parser (dev i s) \<and>
    sdp_device s' = q \<and> sdp_query_timer s' = q"
proof -
  let ?w = "upd i (\<lambda>d. d\<lparr>conn := uni_bt_conn_set_state Cs_Pending_Ready (conn d)\<rparr>) (bt s)"
  have l: "i < length (devs ?w)" using assms(2) by (simp add: link_at_def)
  have d: "devs ?w ! i = (dev i s)\<lparr>conn := (conn (dev i s))\<lparr>conn_state := Cs_Pending_Ready\<rparr>\<rparr>"
    using assms(2) by (simp add: link_at_def uni_bt_conn_set_state_def dev_def)
  obtain w' where w': "uni_hid_device_set_ready_complete (be_gap e) True i ?w = Some (w', True)"
    "devs w' = (devs ?w)[i := (devs ?w ! i)\<lparr>conn := (conn (devs ?w ! i))\<lparr>conn_state := Cs_Ready\<rparr>\<rparr>]"
    using ready_complete [OF l] d by fastforce
  have st: "conn_state (conn (devs (bt s) ! i)) \<noteq> Cs_Pending_Ready" using assms(2,3) by (simp add: link_at_def dev_def)
  have "uni_hid_device_set_ready (be_setup e) (be_gap e) (be_accept e) i (bt s) = Some w'"
    using st w'(1) assms(1) by (simp add: uni_hid_device_set_ready_def completes_def Let_def split: option.split)
  moreover have "devs w' ! i = (dev i s)\<lparr>conn := (conn (dev i s))\<lparr>conn_state := Cs_Ready\<rparr>\<rparr>"
    using w'(2) d l by simp
  ultimately show ?thesis using assms(2) by (simp add: set_ready_def swept_def dev_def link_at_def)
qed

lemma run_append: "bredr_run e (xs @ ys) s = Option.bind (bredr_run e xs s) (bredr_run e ys)"
  by (induction xs arbitrary: s) (auto split: bind_split)

text \<open>A name that none of the drivers claims.\<close>

definition plain_name :: "string \<Rightarrow> bool" where
  "plain_name nm \<longleftrightarrow> nm \<noteq> [] \<and> length nm < HID_MAX_NAME_LEN \<and> nm \<noteq> ''Wireless Controller'' \<and> nm \<noteq> ''Navigation Controller'' \<and>
     take 15 nm \<noteq> ''PLAYSTATION(R)3'' \<and> map_of switch_devices nm = None"

text \<open>Slot \<open>i\<close> is the first free one, its timers are off, the address is not in the table, and no query is running.\<close>

definition idle :: "nat \<Rightarrow> bd_addr \<Rightarrow> bredr \<Rightarrow> bool" where
  "idle i x s \<longleftrightarrow> x \<noteq> zero_addr \<and> find_addr x s = None \<and> find_slot free_slot (bt s) = Some i \<and> timers_of i (bt s) = {} \<and>
     length (devs (bt s)) = 4 \<and> length (extra s) = 4 \<and> length (sdp_attribute_value s) = MAX_ATTRIBUTE_VALUE_SIZE \<and>
     sdp_device s = None \<and> sdp_query_timer s = None"

lemma name_unknown:
  assumes "plain_name nm"
  shows "uni_hid_device_guess_controller_type_from_name xbox nm d = Some (d, False)"
  using assms by (simp add: plain_name_def uni_hid_device_guess_controller_type_from_name_def uni_hid_parser_ds3_does_name_match_def
      uni_hid_parser_switch_does_name_match_def Let_def)

lemma idle_others:
  assumes "find_addr x s = None" "j < 4"
  shows "parent (dev j s) \<noteq> None \<or> btaddr (conn (dev j s)) \<noteq> x"
  using assms by (auto simp: find_addr_def uni_hid_device_get_instance_for_address_def find_slot_def find_None_iff
      uni_hid_device_is_virtual_device_def dev_def)

lemma created:
  assumes "idle i x s"
  shows "\<exists>s'. create x s = Some (s', Some i) \<and> link_at i x Cs_None None s' \<and> flags (dev i s') = 0"
proof -
  have i: "i < 4" using assms find_slot_range [of free_slot "bt s" i] by (simp add: idle_def)
  let ?d = "device_zero\<lparr>conn := conn_zero\<lparr>btaddr := x\<rparr>\<rparr>"
  let ?w = "(bt s)\<lparr>devs := (devs (bt s))[i := ?d], timers := (T_Connection, i) # timers (bt s)\<rparr>"
  have "uni_hid_device_create x (bt s) = Some (?w, Some i)"
    using assms by (auto simp: idle_def uni_hid_device_create_def overwrite_cases add_timer_def timers_of_def)
  then have c: "create x s = Some (s\<lparr>bt := ?w, extra := (extra s)[i := extra_zero]\<rparr>, Some i)" by (simp add: create_def)
  have o: "parent (devs (bt s) ! j) \<noteq> None \<or> btaddr (conn (devs (bt s) ! j)) \<noteq> x" if "j < 4" for j
    using idle_others [of x s j] that assms by (simp add: idle_def dev_def)
  have "link_at i x Cs_None None (s\<lparr>bt := ?w, extra := (extra s)[i := extra_zero]\<rparr>)"
    using assms i o by (simp add: link_at_def idle_def dev_def device_zero_def conn_zero_def extra_zero_def nth_list_update)
  moreover have "flags (dev i (s\<lparr>bt := ?w, extra := (extra s)[i := extra_zero]\<rparr>)) = 0"
    using assms i by (simp add: idle_def dev_def device_zero_def)
  ultimately show ?thesis using c by blast
qed

lemma link_learn:
  assumes "link_at i x st q s" "\<And>d. same_link d (f d)" "\<And>d. hid_descriptor (f d) = hid_descriptor d"
  shows "link_at i x st q (on_dev i f s)"
proof -
  have "on_dev i f s = on_dev i (\<lambda>_. f (dev i s)) s" by (simp add: on_dev_def upd_def dev_def)
  then show ?thesis using link_dev [OF assms(1,2)] assms(1,3) by (simp add: link_at_def)
qed

lemma link_extra: "link_at i x st q s \<Longrightarrow> (\<And>z. sdp_query_type (f z) = sdp_query_type z) \<Longrightarrow> link_at i x st q (on_extra i f s)"
  by (simp add: link_at_def on_extra_def dev_def)

lemma control_asked:
  assumes "link_at i x st q s" "fst (an_channel a) = 0"
  shows "link_at i x Cs_L2cap_Control_Connection_Requested q (l2cap_create_control_connection a i s)"
    "flags (dev i (l2cap_create_control_connection a i s)) = flags (dev i s)"
  using assms link_state [OF link_cids(1), of i x st q]
  by (simp_all add: l2cap_create_control_connection_def Let_def link_call) (simp add: link_at_def on_conn_def)

lemma interrupt_asked:
  assumes "link_at i x st q s" "fst (an_channel a) = 0"
  shows "link_at i x Cs_L2cap_Interrupt_Connection_Requested q (l2cap_create_interrupt_connection a i s)"
    "flags (dev i (l2cap_create_interrupt_connection a i s)) = flags (dev i s)"
  using assms link_state [OF link_cids(2), of i x st q]
  by (simp_all add: l2cap_create_interrupt_connection_def Let_def link_call) (simp add: link_at_def on_conn_def)

lemma discovered_step:
  assumes "idle i x s" "plain_name nm" "uni_hid_device_on_device_discovered x (ucast c) r (be_allow e) = UNI_ERROR_SUCCESS"
    "fst (an_channel a) = 0"
  shows "\<exists>s'. bredr_step e a (Inquiry_Result x psrm clk c r nm) s = Some s' \<and>
    link_at i x Cs_L2cap_Control_Connection_Requested None s' \<and> uni_hid_device_has_name (dev i s')"
proof -
  obtain s1 where s1: "create x s = Some (s1, Some i)" "link_at i x Cs_None None s1" "flags (dev i s1) = 0"
    using created [OF assms(1)] by blast
  let ?s2 = "on_extra i (\<lambda>x. x\<lparr>page_scan_repetition_mode := psrm, clock_offset := clk OR UNI_BT_CLOCK_OFFSET_VALID, rssi := r\<rparr>)
    (on_dev i (uni_hid_device_set_cod c) (on_conn i (uni_bt_conn_set_state Cs_Discovered) s1))"
  let ?s3 = "on_conn i (uni_bt_conn_set_state Cs_Remote_Name_Fetched) (on_dev i (uni_hid_device_set_name (Some nm)) ?s2)"
  have l: "i < length (devs (bt s1))" using s1(2) by (simp add: link_at_def)
  have s2: "link_at i x Cs_Discovered None ?s2"
    by (intro link_extra link_learn [OF link_state [OF s1(2)] cod_link]) (simp_all add: uni_hid_device_set_cod_def)
  have n: "\<not> uni_hid_device_has_name (dev i ?s2)"
    using l s1(3) by (simp add: uni_hid_device_has_name_def uni_hid_device_set_cod_def on_conn_def)
  have s3: "link_at i x Cs_Remote_Name_Fetched None ?s3"
    by (rule link_state [OF link_learn [OF s2 name_link]]) (simp add: uni_hid_device_set_name_def)
  have nm: "dev_name (dev i ?s3) = nm" "uni_hid_device_has_name (dev i ?s3)"
    using l assms(2) by (simp_all add: on_conn_def uni_hid_device_set_name_def uni_hid_device_has_name_def plain_name_def)
  have f: "fsm_name_fetched e a i ?s3 = Some (l2cap_create_control_connection a i ?s3)"
    using s3 assms(2) name_unknown [OF assms(2)] nm(1)
    by (simp add: fsm_name_fetched_def plain_name_def link_at_def on_dev_def upd_def Let_def) (simp add: dev_def)
  have "uni_bt_bredr_process_fsm e a i ?s3 = fsm_name_fetched e a i ?s3"
    using s3 nm(2) by (simp add: uni_bt_bredr_process_fsm_def Let_def link_at_def)
  then have "bredr_step e a (Inquiry_Result x psrm clk c r nm) s = Some (l2cap_create_control_connection a i ?s3)"
    using assms s1(1) n f by (simp add: bredr_step_def uni_bt_bredr_on_gap_inquiry_result_def idle_def plain_name_def Let_def)
  then show ?thesis using control_asked [OF s3 assms(4)] nm(2) by (simp add: uni_hid_device_has_name_def)
qed

lemma control_step:
  assumes "link_at i x st None s" "uni_hid_device_has_name (dev i s)" "fst (an_channel a) = 0"
  shows "\<exists>s'. bredr_step e a (Channel_Opened 0 PSM_HID_CONTROL x cid) s = Some s' \<and>
    link_at i x Cs_L2cap_Interrupt_Connection_Requested None s' \<and> uni_hid_device_has_name (dev i s')"
proof -
  let ?s = "on_conn i (uni_bt_conn_set_state Cs_L2cap_Control_Connected) (on_conn i (\<lambda>c. c\<lparr>control_cid := cid\<rparr>) s)"
  have s: "link_at i x Cs_L2cap_Control_Connected None ?s" by (rule link_state [OF link_cids(1) [OF assms(1)]])
  have n: "uni_hid_device_has_name (dev i ?s)"
    using assms(1,2) by (simp add: link_at_def uni_hid_device_has_name_def on_conn_def)
  have "uni_bt_bredr_process_fsm e a i ?s = Some (l2cap_create_interrupt_connection a i ?s)"
    using s n by (simp add: uni_bt_bredr_process_fsm_def Let_def link_at_def)
  then have "bredr_step e a (Channel_Opened 0 PSM_HID_CONTROL x cid) s = Some (l2cap_create_interrupt_connection a i ?s)"
    using link_find [OF assms(1)] by (simp add: bredr_step_def uni_bt_bredr_on_l2cap_channel_opened_def)
  then show ?thesis using interrupt_asked [OF s assms(3)] n by (simp add: uni_hid_device_has_name_def)
qed

lemma interrupt_step:
  assumes "link_at i x st None s" "uni_hid_device_has_name (dev i s)" "an_sdp a = 0"
  shows "\<exists>s'. bredr_step e a (Channel_Opened 0 PSM_HID_INTERRUPT x cid) s = Some s' \<and> link_at i x Cs_Sdp_Vendor_Requested (Some i) s'"
proof -
  let ?c = "on_conn i (uni_bt_conn_set_state Cs_L2cap_Interrupt_Connected) (on_conn i (\<lambda>c. c\<lparr>interrupt_cid := cid\<rparr>) s)"
  let ?s = "?c\<lparr>bt := uni_hid_device_connect i (bt ?c)\<rparr>"
  have c: "link_at i x Cs_L2cap_Interrupt_Connected None ?c" by (rule link_state [OF link_cids(2) [OF assms(1)]])
  note s = link_connect [OF c]
  have n: "uni_hid_device_has_name (dev i ?s)"
    using assms(1,2) unfolding uni_hid_device_has_name_def s(2) by (simp add: link_at_def on_conn_def)
  let ?q = "?s\<lparr>sdp_device := Some i, sdp_query_timer := Some i\<rparr>"
  have q: "link_at i x Cs_L2cap_Interrupt_Connected (Some i) ?q" by (rule link_query [OF s(1)])
  have "uni_bt_bredr_process_fsm e a i ?s = uni_bt_sdp_query_start e a i ?s"
    using s(1) n by (simp add: uni_bt_bredr_process_fsm_def Let_def link_at_def)
  also have "\<dots> = Some (call (Sdp_Query (addr_of i ?q) SERVICE_PNP_INFORMATION) (on_conn i (uni_bt_conn_set_state Cs_Sdp_Vendor_Requested) ?q))"
    using s(1) assms(3) by (simp add: uni_bt_sdp_query_start_def uni_bt_sdp_query_start_vid_pid_def Let_def link_at_def)
  finally have "bredr_step e a (Channel_Opened 0 PSM_HID_INTERRUPT x cid) s =
      Some (call (Sdp_Query (addr_of i ?q) SERVICE_PNP_INFORMATION) (on_conn i (uni_bt_conn_set_state Cs_Sdp_Vendor_Requested) ?q))"
    using link_find [OF assms(1)] by (simp add: bredr_step_def uni_bt_bredr_on_l2cap_channel_opened_def Let_def)
  then show ?thesis using link_state [OF q] by (simp add: link_call)
qed

text \<open>A byte of an answer that stays in the buffer.\<close>

definition pid_byte :: "bredr_event \<Rightarrow> bool" where
  "pid_byte ev \<longleftrightarrow> (case ev of Sdp_Pid_Byte _ len off _ \<Rightarrow> MAX_ATTRIBUTE_VALUE_SIZE < unat len \<or> unat off < MAX_ATTRIBUTE_VALUE_SIZE
     | _ \<Rightarrow> False)"

lemma attribute_byte_some:
  assumes "length m = 512" "MAX_ATTRIBUTE_VALUE_SIZE < unat len \<or> unat off < MAX_ATTRIBUTE_VALUE_SIZE"
  shows "\<exists>m' full. attribute_byte len off b m = Some (m', full) \<and> length m' = 512"
  using assms by (auto simp: attribute_byte_def)

lemma uint16_some: "length m = 512 \<Longrightarrow> \<exists>v. de_element_get_uint16 m 0 = Some v"
  by (auto simp: de_element_get_uint16_def de_get_header_size_def big_endian_read_16_def Let_def)

lemma link_value: "link_at i x st q s \<Longrightarrow> length m = 512 \<Longrightarrow> link_at i x st q (s\<lparr>sdp_attribute_value := m\<rparr>)"
  by (simp add: link_at_def dev_def)

lemma pid_step:
  assumes "link_at i x st (Some i) s" "pid_byte ev"
  shows "\<exists>s'. bredr_step e a ev s = Some s' \<and> link_at i x st (Some i) s'"
proof -
  obtain aid len off b where ev: "ev = Sdp_Pid_Byte aid len off b"
    and o: "MAX_ATTRIBUTE_VALUE_SIZE < unat len \<or> unat off < MAX_ATTRIBUTE_VALUE_SIZE"
    using assms(2) by (cases ev) (auto simp: pid_byte_def)
  have q: "sdp_device s = Some i" "length (sdp_attribute_value s) = 512" using assms(1) by (simp_all add: link_at_def)
  obtain m full where m: "attribute_byte len off b (sdp_attribute_value s) = Some (m, full)" "length m = 512"
    using attribute_byte_some [OF q(2) o] by blast
  obtain v where v: "de_element_get_uint16 m 0 = Some v" using uint16_some [OF m(2)] by blast
  have l: "link_at i x st (Some i) (s\<lparr>sdp_attribute_value := m\<rparr>)" by (rule link_value [OF assms(1) m(2)])
  have k: "link_at i x st (Some i) (on_dev i (uni_hid_device_set_vendor_id n) (s\<lparr>sdp_attribute_value := m\<rparr>))"
    "link_at i x st (Some i) (on_dev i (uni_hid_device_set_product_id n) (s\<lparr>sdp_attribute_value := m\<rparr>))" for n
    by (rule link_learn [OF l vid_link], simp add: uni_hid_device_set_vendor_id_def)
      (rule link_learn [OF l pid_link], simp add: uni_hid_device_set_product_id_def)
  show ?thesis using q m(1) v l k by (auto simp: ev bredr_step_def sdp_pid_byte_def Let_def split: option.split)
qed

lemma pid_run:
  "link_at i x st (Some i) s \<Longrightarrow> \<forall>y \<in> set pids. pid_byte (fst y) \<Longrightarrow> \<exists>s'. bredr_run e pids s = Some s' \<and> link_at i x st (Some i) s'"
proof (induction pids arbitrary: s)
  case (Cons y pids)
  obtain ev a where y: "y = (ev, a)" by (cases y)
  obtain s1 where s1: "bredr_step e a ev s = Some s1" "link_at i x st (Some i) s1"
    using pid_step [OF Cons.prems(1), of ev e a] Cons.prems(2) y by auto
  then show ?case using Cons.IH [OF s1(2)] Cons.prems(2) y by auto
qed simp

lemma set_descriptor_len:
  "uni_hid_device_set_hid_descriptor bytes n d = Some d' \<Longrightarrow> length (hid_descriptor d) = 512 \<Longrightarrow> length (hid_descriptor d') = 512"
  by (auto simp: uni_hid_device_set_hid_descriptor_def split: if_split_asm)

lemma guess_len:
  "uni_hid_device_guess_controller_type_from_pid_vid desc d = Some d' \<Longrightarrow> length (hid_descriptor d) = 512 \<Longrightarrow> length (hid_descriptor d') = 512"
  by (auto simp: uni_hid_device_guess_controller_type_from_pid_vid_def fallback_type_def Let_def
      uni_hid_parser_xboxone_does_name_match_def uni_hid_device_set_product_id_def uni_hid_device_set_vendor_id_def bind_eq_Some_conv
      split: if_splits option.splits dest!: set_descriptor_len)

lemma end_ready:
  assumes "completes e" "link_at i x st (Some i) s"
  shows "\<exists>s'. uni_bt_sdp_query_end e a i s = Some s' \<and> conn_state (conn (dev i s')) = Cs_Ready \<and> btaddr (conn (dev i s')) = x \<and>
    hid_descriptor (dev i s') = hid_descriptor (dev i s) \<and> report_parser (dev i s') = report_parser (dev i s) \<and>
    sdp_device s' = None \<and> sdp_query_timer s' = None"
proof -
  let ?s = "(on_conn i (uni_bt_conn_set_state Cs_Sdp_Hid_Descriptor_Fetched) s)\<lparr>sdp_device := None, sdp_query_timer := None\<rparr>"
  have s: "link_at i x Cs_Sdp_Hid_Descriptor_Fetched None ?s" by (rule link_query [OF link_state [OF assms(2)]])
  have d: "hid_descriptor (dev i ?s) = hid_descriptor (dev i s)" "report_parser (dev i ?s) = report_parser (dev i s)"
    using assms(2) by (simp_all add: link_at_def on_conn_def)
  have "fsm_descriptor_fetched e a i ?s = set_ready e i ?s"
    using s by (simp add: fsm_descriptor_fetched_def link_at_def)
  then show ?thesis using ready_reached [OF assms(1) s] d by (simp add: uni_bt_sdp_query_end_def)
qed

text \<open>The device is ready, and no query is running.\<close>

definition ready_at :: "nat \<Rightarrow> bd_addr \<Rightarrow> bredr \<Rightarrow> bool" where
  "ready_at i x s \<longleftrightarrow> conn_state (conn (dev i s)) = Cs_Ready \<and> btaddr (conn (dev i s)) = x \<and>
     sdp_device s = None \<and> sdp_query_timer s = None"

lemma does_require_parser: "report_parser d' = report_parser d \<Longrightarrow>
    uni_hid_device_does_require_hid_descriptor d' = uni_hid_device_does_require_hid_descriptor d"
  by (simp add: uni_hid_device_does_require_hid_descriptor_def)

lemma complete_step:
  assumes "completes e" "length (be_xbox e) \<le> 512" "link_at i x st (Some i) s" "an_sdp a = 0"
  shows "\<exists>s'. bredr_step e a Sdp_Pid_Complete s = Some s' \<and>
    (uni_hid_device_does_require_hid_descriptor (dev i s') \<and> link_at i x Cs_Sdp_Hid_Descriptor_Requested (Some i) s' \<or>
     \<not> uni_hid_device_does_require_hid_descriptor (dev i s') \<and> ready_at i x s')"
proof -
  obtain d where d: "uni_hid_device_guess_controller_type_from_pid_vid (be_xbox e) (dev i s) = Some d"
    using guess_keeps [OF assms(2)] by blast
  have l: "length (hid_descriptor d) = 512" using guess_len [OF d] assms(3) by (simp add: link_at_def)
  let ?v = "on_conn i (uni_bt_conn_set_state Cs_Sdp_Vendor_Fetched) (on_dev i (\<lambda>_. d) s)"
  have v: "link_at i x Cs_Sdp_Vendor_Fetched (Some i) ?v" by (rule link_state [OF link_dev [OF assms(3) guess_same [OF d] l]])
  have r: "bredr_step e a Sdp_Pid_Complete s = uni_bt_sdp_query_start_hid_descriptor e a i ?v"
    using assms(3) d v by (simp add: bredr_step_def sdp_pid_complete_def uni_bt_bredr_process_fsm_def Let_def link_at_def)
  have p: "report_parser (dev i ?v) = report_parser d" using assms(3) by (simp add: link_at_def on_conn_def)
  show ?thesis
  proof (cases "uni_hid_device_does_require_hid_descriptor d")
    case True
    let ?s = "call (Sdp_Query (addr_of i ?v) SERVICE_HID) (on_conn i (uni_bt_conn_set_state Cs_Sdp_Hid_Descriptor_Requested) ?v)"
    have "report_parser (dev i ?s) = report_parser d" using v p by (simp add: link_at_def on_conn_def)
    then have "uni_hid_device_does_require_hid_descriptor (dev i ?s)" using True does_require_parser by blast
    moreover have "uni_bt_sdp_query_start_hid_descriptor e a i ?v = Some ?s"
      using True does_require_parser [OF p] v assms(4) by (simp add: uni_bt_sdp_query_start_hid_descriptor_def link_at_def Let_def)
    ultimately show ?thesis using r link_state [OF v] by (simp add: link_call)
  next
    case False
    then have "uni_bt_sdp_query_start_hid_descriptor e a i ?v = uni_bt_sdp_query_end e a i ?v"
      using does_require_parser [OF p] by (simp add: uni_bt_sdp_query_start_hid_descriptor_def)
    then show ?thesis using r end_ready [OF assms(1) v, of a] False p does_require_parser unfolding ready_at_def by metis
  qed
qed

text \<open>The answer to the second query: a list with one descriptor, a byte at a time.\<close>

definition hid_answer :: "stack_answer \<Rightarrow> u8 list \<Rightarrow> nat \<Rightarrow> bredr_event \<times> stack_answer" where
  "hid_answer a desc k = (Sdp_Hid_Byte ATTRIBUTE_HID_DESCRIPTOR_LIST (of_nat (length desc + 11)) (of_nat k) (descriptor_wire desc ! k), a)"

lemma wire_len: "length (descriptor_wire desc) = length desc + 11"
  by (simp add: descriptor_wire_def wire16_def)

lemma answer_byte:
  assumes "length desc \<le> 501" "k < length desc + 11" "length m = 512"
  shows "attribute_byte (of_nat (length desc + 11)) (of_nat k) b m = Some (m[k := b], k + 1 = length desc + 11)"
proof -
  have n: "unat (of_nat (length desc + 11) :: u16) = length desc + 11" "unat (of_nat k :: u16) = k"
    using assms by (simp_all add: unat_of_nat del: of_nat_add)
  have "(of_nat k + 1 = (of_nat (length desc + 11) :: u16)) \<longleftrightarrow> unat (of_nat (k + 1) :: u16) = unat (of_nat (length desc + 11) :: u16)"
    by (simp only: word_unat_eq_iff of_nat_add of_nat_1)
  also have "\<dots> \<longleftrightarrow> k + 1 = length desc + 11" using assms by (simp add: unat_of_nat del: of_nat_add of_nat_Suc)
  finally show ?thesis using assms n by (simp add: attribute_byte_def del: of_nat_add)
qed

lemma hid_byte_step:
  assumes "length desc \<le> 501" "k < length desc + 10" "length (sdp_attribute_value s) = 512" "sdp_device s = Some i"
  shows "bredr_run e [hid_answer a desc k] s = Some (s\<lparr>sdp_attribute_value := (sdp_attribute_value s)[k := descriptor_wire desc ! k]\<rparr>)"
  using assms answer_byte [OF assms(1) _ assms(3), of k] by (simp add: hid_answer_def bredr_step_def sdp_hid_byte_def del: of_nat_add)

lemma hid_bytes_run:
  assumes "length desc \<le> 501" "length (sdp_attribute_value s) = 512" "sdp_device s = Some i"
  shows "k \<le> length desc + 10 \<Longrightarrow> bredr_run e (map (hid_answer a desc) [0..<k]) s =
    Some (s\<lparr>sdp_attribute_value := take k (descriptor_wire desc) @ drop k (sdp_attribute_value s)\<rparr>)"
proof (induction k)
  case (Suc k)
  let ?m = "take k (descriptor_wire desc) @ drop k (sdp_attribute_value s)"
  have l: "length ?m = 512" using Suc.prems assms(1,2) by (simp add: wire_len)
  have "?m[k := descriptor_wire desc ! k] = take (Suc k) (descriptor_wire desc) @ drop (Suc k) (sdp_attribute_value s)"
    using Suc.prems assms(1,2) Cons_nth_drop_Suc [of k "sdp_attribute_value s"]
    by (simp add: wire_len list_update_append take_Suc_conv_app_nth flip: Cons_nth_drop_Suc)
  then show ?case using Suc hid_byte_step [OF assms(1), of k "s\<lparr>sdp_attribute_value := ?m\<rparr>" i] l assms(3)
    by (simp add: run_append)
qed simp

lemma hid_answer_run:
  assumes "length desc \<le> 501" "link_at i x st (Some i) s"
  shows "\<exists>s'. bredr_run e (map (hid_answer a desc) [0..<length desc + 11]) s = Some s' \<and> link_at i x st (Some i) s' \<and>
    take (length desc) (hid_descriptor (dev i s')) = desc \<and> report_parser (dev i s') = report_parser (dev i s)"
proof -
  let ?n = "length desc"
  let ?w = "descriptor_wire desc"
  let ?m = "?w @ drop (?n + 11) (sdp_attribute_value s)"
  let ?s = "s\<lparr>sdp_attribute_value := take (?n + 10) ?w @ drop (?n + 10) (sdp_attribute_value s)\<rparr>"
  have q: "length (sdp_attribute_value s) = 512" "sdp_device s = Some i" using assms(2) by (simp_all add: link_at_def)
  have m: "(take (?n + 10) ?w @ drop (?n + 10) (sdp_attribute_value s))[?n + 10 := ?w ! (?n + 10)] = ?m"
  proof -
    have "take (Suc (?n + 10)) ?w = ?w" by (simp add: wire_len)
    then have "take (?n + 10) ?w @ [?w ! (?n + 10)] = ?w" using take_Suc_conv_app_nth [of "?n + 10" ?w] by (simp add: wire_len)
    moreover have "drop (?n + 10) (sdp_attribute_value s) = sdp_attribute_value s ! (?n + 10) # drop (?n + 11) (sdp_attribute_value s)"
      using Cons_nth_drop_Suc [of "?n + 10" "sdp_attribute_value s"] q(1) assms(1) by (simp add: ac_simps)
    ultimately show ?thesis by (simp add: list_update_append wire_len)
  qed
  have l: "length (take (?n + 10) ?w @ drop (?n + 10) (sdp_attribute_value s)) = 512" "length ?m = 512"
    using q(1) assms(1) by (simp_all add: wire_len)
  have b: "attribute_byte (of_nat (?n + 11)) (of_nat (?n + 10)) (?w ! (?n + 10)) (take (?n + 10) ?w @ drop (?n + 10) (sdp_attribute_value s)) =
      Some (?m, True)"
    using answer_byte [OF assms(1) _ l(1), of "?n + 10"] m by simp
  have t: "take (?n + 11) ?m = ?w" by (simp add: wire_len)
  let ?d = "dev i s"
  have d: "hid_descriptor_list ?m ?d = uni_hid_device_set_hid_descriptor (drop 11 ?m) (int ?n) ?d"
    by (rule descriptor_found [OF t assms(1)])
  have f: "take ?n (drop 11 ?m) = desc" using wire_bytes(12) [OF t] .
  have "?n \<le> length (drop 11 ?m)" using l(2) assms(1) by simp
  then obtain d' where d': "hid_descriptor_list ?m ?d = Some d'" "take ?n (hid_descriptor d') = desc" "report_parser d' = report_parser ?d"
    using d f assms(1) by (simp add: uni_hid_device_set_hid_descriptor_def)
  have "bredr_run e [hid_answer a desc (?n + 10)] ?s = Some (on_dev i (\<lambda>_. d') (s\<lparr>sdp_attribute_value := ?m\<rparr>))"
    using b d'(1) q(2) by (simp add: hid_answer_def bredr_step_def sdp_hid_byte_def Let_def del: of_nat_add)
  moreover have "?n + 11 = Suc (?n + 10)" by simp
  then have "map (hid_answer a desc) [0..<?n + 11] = map (hid_answer a desc) [0..<?n + 10] @ [hid_answer a desc (?n + 10)]"
    by (simp only: upt_Suc le0 if_True map_append list.map)
  moreover have "bredr_run e (map (hid_answer a desc) [0..<?n + 10]) s = Some ?s"
    by (rule hid_bytes_run [OF assms(1) q]) simp
  ultimately have r: "bredr_run e (map (hid_answer a desc) [0..<?n + 11]) s = Some (on_dev i (\<lambda>_. d') (s\<lparr>sdp_attribute_value := ?m\<rparr>))"
    by (simp add: run_append)
  have h: "length (hid_descriptor d') = 512"
    using set_descriptor_len [of "drop 11 ?m" "int ?n" ?d d'] d d'(1) assms(2) by (simp add: link_at_def)
  have "link_at i x st (Some i) (on_dev i (\<lambda>_. d') (s\<lparr>sdp_attribute_value := ?m\<rparr>))"
    by (rule link_dev [OF link_value [OF assms(2) l(2)]]) (simp_all add: list_same [OF d'(1)] h)
  moreover have "dev i (on_dev i (\<lambda>_. d') (s\<lparr>sdp_attribute_value := ?m\<rparr>)) = d'" using assms(2) by (simp add: link_at_def)
  ultimately show ?thesis using r d'(2,3) by metis
qed

lemma late_answers:
  assumes "sdp_device s = None" "\<forall>y \<in> set evs. fst y = Sdp_Hid_Complete \<or> (\<exists>b c d f. fst y = Sdp_Hid_Byte b c d f)"
  shows "bredr_run e evs s = Some s"
  using assms(2)
proof (induction evs)
  case (Cons y evs)
  then show ?case using assms(1) by (cases y) (auto simp: bredr_step_def sdp_hid_byte_def sdp_hid_complete_def)
qed simp


section \<open>Runs\<close>

text \<open>An environment: no allowlist, drivers that are done at once and take no reports, every device is accepted.\<close>

definition open_env :: bredr_env where
  "open_env = \<lparr>be_gap = (\<lambda>_. Gap_Acl),
     be_setup = (\<lambda>_ i w. map_option fst (uni_hid_device_set_ready_complete (\<lambda>_. Gap_Acl) True i w)),
     be_accept = True, be_xbox = [], be_allow = \<lparr>addr_allow_list = replicate 16 zero_addr, enforced = False, stored_list = None,
     stored_enabled = False\<rparr>, be_incoming = True, be_cfg = \<lparr>cfg_map = GAMEPAD_DEFAULT_MAPPINGS, cfg_type = Map_Xbox\<rparr>,
     be_input = (\<lambda>_ _. Some), be_feature = (\<lambda>_ _. Some)\<rparr>"

definition stack_ok :: stack_answer where "stack_ok = \<lparr>an_channel = (0, 0x40), an_sdp = 0\<rparr>"
definition stack_busy :: stack_answer where "stack_busy = \<lparr>an_channel = (0, 0x40), an_sdp = 1\<rparr>"

definition pad_addr :: bd_addr where "pad_addr = [1, 2, 3, 4, 5, 6]"
definition pad2_addr :: bd_addr where "pad2_addr = [1, 2, 3, 4, 5, 7]"

lemma ready_complete_kept:
  assumes "i < 4" "table (\<lambda>_. True) w" "uni_hid_device_set_ready_complete gap True i w = Some r"
  shows "table (\<lambda>_. True) (fst r)" "j < 4 \<Longrightarrow> driver_conn (conn (devs w ! j)) (conn (devs (fst r) ! j))"
proof -
  show "table (\<lambda>_. True) (fst r)" using set_ready_complete_table [OF assms(2,1,3)] by simp
  have l: "i < length (devs w)" using assms(1,2) tableD(1) by simp
  show "driver_conn (conn (devs w ! j)) (conn (devs (fst r) ! j))" if "j < 4"
  proof (cases "conn_state (conn (devs w ! i)) = Cs_Ready")
    case True
    then have "fst r = w" using assms(3) by (auto simp: uni_hid_device_set_ready_complete_def)
    then show ?thesis by (simp add: driver_conn_def)
  next
    case False
    obtain w' where "r = (w', True)" "devs w' = (devs w)[i := (devs w ! i)\<lparr>conn := (conn (devs w ! i))\<lparr>conn_state := Cs_Ready\<rparr>\<rparr>]"
      using ready_complete [OF l False, of gap] assms(3) by auto
    then show ?thesis using l by (simp add: driver_conn_def nth_list_update)
  qed
qed

lemma open_result:
  assumes "driver_result open_env i w w'"
  shows "w' = w \<or> (\<exists>r. uni_hid_device_set_ready_complete (\<lambda>_. Gap_Acl) True i w = Some r \<and> w' = fst r)"
  using assms by (auto simp: driver_result_def open_env_def)

lemma open_drivers: "drivers_safe open_env"
  unfolding drivers_safe_def
proof (intro allI impI)
  fix i w w'
  assume i: "i < (4 :: nat)" and t: "table (\<lambda>_. True) w" and "driver_result open_env i w w'"
  from open_result [OF this(3)] show "table (\<lambda>_. True) w' \<and> (\<forall>j < 4. driver_conn (conn (devs w ! j)) (conn (devs w' ! j)))"
  proof
    assume "w' = w"
    then show ?thesis using t by (simp add: driver_conn_def)
  next
    assume "\<exists>r. uni_hid_device_set_ready_complete (\<lambda>_. Gap_Acl) True i w = Some r \<and> w' = fst r"
    then show ?thesis using ready_complete_kept [OF i t] by auto
  qed
qed

lemma open_completes: "completes open_env"
  by (simp add: completes_def open_env_def)

definition guard_env :: bredr_env where
  "guard_env = open_env\<lparr>be_allow := \<lparr>addr_allow_list = pad_addr # replicate 15 zero_addr, enforced = True, stored_list = None,
     stored_enabled = False\<rparr>\<rparr>"

lemma guard_drivers: "drivers_safe guard_env"
proof -
  have "driver_result guard_env = driver_result open_env" by (intro ext) (simp add: driver_result_def guard_env_def)
  then show ?thesis using open_drivers unfolding drivers_safe_def by (simp only:)
qed

definition states :: "bredr \<Rightarrow> conn_state list" where
  "states s = map (\<lambda>d. conn_state (conn d)) (devs (bt s))"

definition found_pad :: "bd_addr \<Rightarrow> string \<Rightarrow> bredr_event \<times> stack_answer" where
  "found_pad x nm = (Inquiry_Result x 1 0x1234 0x002508 255 nm, stack_ok)"

definition both_opened :: "bd_addr \<Rightarrow> (bredr_event \<times> stack_answer) list" where
  "both_opened x = [(Channel_Opened 0 PSM_HID_CONTROL x 0x40, stack_ok), (Channel_Opened 0 PSM_HID_INTERRUPT x 0x41, stack_ok)]"

definition both_incoming :: "bd_addr \<Rightarrow> (bredr_event \<times> stack_answer) list" where
  "both_incoming x = [(Incoming_Connection 0x40 PSM_HID_CONTROL 1 x, stack_ok), (Channel_Opened 0 PSM_HID_CONTROL x 0x40, stack_ok),
     (Incoming_Connection 0x41 PSM_HID_INTERRUPT 1 x, stack_ok), (Channel_Opened 0 PSM_HID_INTERRUPT x 0x41, stack_ok)]"

text \<open>What a run leaves: the states, relatives and addresses of the slots, the timers and the query.\<close>

definition summary :: "bredr \<Rightarrow> (conn_state \<times> nat option \<times> nat option \<times> bd_addr) list \<times> (timer \<times> nat) list \<times> nat option \<times> nat option" where
  "summary s = (map (\<lambda>d. (conn_state (conn d), child d, parent d, btaddr (conn d))) (devs (bt s)), timers (bt s), sdp_device s, sdp_query_timer s)"

definition free_line :: "conn_state \<times> nat option \<times> nat option \<times> bd_addr" where
  "free_line = (Cs_None, None, None, zero_addr)"

lemma summary_table:
  assumes "summary s = (replicate 4 free_line, [], q, t)"
  shows "table no_vendor (bt s)"
proof -
  have m: "map (\<lambda>d. (conn_state (conn d), child d, parent d, btaddr (conn d))) (devs (bt s)) = replicate 4 free_line" and t: "timers (bt s) = []"
    using assms by (simp_all add: summary_def)
  have l: "length (devs (bt s)) = 4" using arg_cong [OF m, of length] by simp
  have "(conn_state (conn (devs (bt s) ! i)), child (devs (bt s) ! i), parent (devs (bt s) ! i), btaddr (conn (devs (bt s) ! i))) = free_line"
    if "i < 4" for i
    using arg_cong [OF m, of "\<lambda>xs. xs ! i"] that l by simp
  then show ?thesis using l t by (simp add: table_def no_vendor_def free_line_def)
qed

lemma refused_query:
  "map_option summary (bredr_run open_env (found_pad pad_addr ''Pad'' # both_opened pad_addr @ [(Sdp_Pid_Complete, stack_busy)]) bredr_start) =
     Some (replicate 4 free_line, [], Some 0, None)"
  by code_simp

lemma refused_for_ever:
  "map_option summary (bredr_run open_env (found_pad pad_addr ''Pad'' # both_opened pad_addr @ [(Sdp_Pid_Complete, stack_busy)] @
       found_pad pad2_addr ''Pad'' # both_opened pad2_addr) bredr_start) = Some (replicate 4 free_line, [], Some 0, None)"
  by code_simp




section \<open>Orders the handlers do not expect\<close>

text \<open>
  A device that was found without a name and connects by itself while its name is being asked for: the name is asked for a second
  time and the timer, which is still linked, is added again, which BTstack's run loop refuses with a failed assertion.
\<close>

theorem name_asked_twice:
  "bredr_run open_env (found_pad pad_addr [] # both_incoming pad_addr) bredr_start = None"
  by code_simp

text \<open>
  A device that disconnects during the first query is deleted, but the query still has its slot: the results make the free slot
  ask for a descriptor and then a ready device without address, which the platform is told about.
\<close>

theorem ghost_ready:
  "map_option (\<lambda>s. (hd (states s), addr_of 0 s, last (plat (bt s))))
     (bredr_run open_env (found_pad pad_addr ''Pad'' # both_opened pad_addr @
       [(Channel_Closed 0x41, stack_ok), (Sdp_Pid_Complete, stack_ok), (Sdp_Hid_Complete, stack_ok)]) bredr_start) =
   Some (Cs_Ready, zero_addr, P_Ready 0)"
  by code_simp

text \<open>
  A device whose name is known when it connects by itself is not asked for anything and is never made ready; it waits for the
  connection timer, which deletes it.
\<close>

theorem incoming_named_stuck:
  "map_option (\<lambda>s. (hd (states s), timers (bt s), sdp_device s, filter (\<lambda>c. case c of Sdp_Query _ _ \<Rightarrow> True | Remote_Name_Request _ _ _ \<Rightarrow> True | _ \<Rightarrow> False) (calls s)))
     (bredr_run open_env (found_pad pad_addr ''Pad'' # both_incoming pad_addr) bredr_start) =
   Some (Cs_L2cap_Interrupt_Connected, [(T_Connection, 0)], None, [])"
  by code_simp

text \<open>The name comes after its timeout: the query that runs since is taken for another device's, and the device is deleted.\<close>

theorem late_name_drops:
  "map_option summary (bredr_run open_env (both_incoming pad_addr @ [(Name_Timeout 0, stack_ok), (Remote_Name_Complete pad_addr 0 ''Pad'', stack_ok)]) bredr_start) =
   Some (replicate 4 free_line, [], Some 0, Some 0)"
  by code_simp

text \<open>Four connection requests, which no list filters, take all slots; an allowed device is declined.\<close>

theorem requests_fill_table:
  "map_option (\<lambda>s. calls s) (bredr_run guard_env (map (\<lambda>n. (Connection_Request [9, 9, 9, 9, 9, n] 0x002508, stack_ok)) [1, 2, 3, 4] @
     [(Incoming_Connection 0x40 PSM_HID_CONTROL 1 pad_addr, stack_ok)]) bredr_start) = Some [Decline_Connection 0x40]"
  by code_simp

end
