(* ===== verification/Property_Store.thy ===== *)
theory Property_Store
  imports Allowlist
begin

text \<open>
  The persistent properties: the table of uni_property.c, its back end arch/uni_property_esp32.c over
  the flash storage (NVS) of the SDK, and the switch for virtual devices, uni_virtual_device.c.  The
  NVS calls are a parameter, \<open>nvs_api\<close>; what their documentation promises is \<open>nvs_documented\<close>, which
  allows every call to fail, and \<open>nvs_works\<close>, which does not.  A store refines a typed map with
  defaults; the last theorem closes the gap left in theory \<open>Allowlist\<close>, where the store is assumed to
  return what was written.
\<close>

section \<open>Values\<close>

text \<open>
  The union of a property: which member was written, with a float as its bits.  Reading another
  member reads the bytes that were written, least significant first; what was not written, a pointer
  read as a number and a \<open>bool\<close> byte other than 0 and 1 are undefined.
\<close>

datatype uni_property_value =
    V_Bool bool | V_U8 u8 | V_U32 u32 | V_F32 u32 | V_Str "string option"

definition as_u8 :: "uni_property_value \<Rightarrow> u8 option" where
  "as_u8 v = (case v of V_Bool b \<Rightarrow> Some (if b then 1 else 0) | V_U8 n \<Rightarrow> Some n
     | V_U32 n \<Rightarrow> Some (ucast n) | V_F32 n \<Rightarrow> Some (ucast n) | V_Str _ \<Rightarrow> None)"

definition as_bool :: "uni_property_value \<Rightarrow> bool option" where
  "as_bool v = do { n \<leftarrow> as_u8 v; if n = 0 then Some False else if n = 1 then Some True else None }"

definition as_u32 :: "uni_property_value \<Rightarrow> u32 option" where
  "as_u32 v = (case v of V_U32 n \<Rightarrow> Some n | V_F32 n \<Rightarrow> Some n | _ \<Rightarrow> None)"

definition as_str :: "uni_property_value \<Rightarrow> string option option" where
  "as_str v = (case v of V_Str s \<Rightarrow> Some s | _ \<Rightarrow> None)"

section \<open>The table\<close>

datatype uni_property_type = Type_Bool | Type_U8 | Type_U32 | Type_Float | Type_String

record uni_property =
  pidx :: nat
  pname :: string
  ptype :: uni_property_type
  default_value :: uni_property_value
  read_only :: bool

definition UNI_BT_INQUIRY_LENGTH :: u8 where "UNI_BT_INQUIRY_LENGTH = 3"
definition UNI_BT_MAX_PERIODIC_LENGTH :: u8 where "UNI_BT_MAX_PERIODIC_LENGTH = 5"
definition UNI_BT_MIN_PERIODIC_LENGTH :: u8 where "UNI_BT_MIN_PERIODIC_LENGTH = 4"
definition UNI_VERSION_STRING :: string where "UNI_VERSION_STRING = ''4.2.0''"

definition table_entry :: "nat \<Rightarrow> string \<Rightarrow> uni_property_type \<Rightarrow> uni_property_value \<Rightarrow> uni_property" where
  "table_entry i n ty d = \<lparr>pidx = i, pname = n, ptype = ty, default_value = d, read_only = False\<rparr>"

text \<open>The table of this configuration: BLE and GAP security on, virtual devices off.\<close>

definition properties :: "uni_property list" where
  "properties = [
     table_entry 0 ''bp.bt.allow_en'' Type_Bool (V_Bool False),
     table_entry 1 ''bp.bt.allowlist'' Type_String (V_Str None),
     table_entry 2 ''bp.ble.enabled'' Type_Bool (V_Bool True),
     table_entry 3 ''bp.gap.inq_len'' Type_U8 (V_U8 UNI_BT_INQUIRY_LENGTH),
     table_entry 4 ''bp.gap.level'' Type_U8 (V_U8 2),
     table_entry 5 ''bp.gap.max_len'' Type_U8 (V_U8 UNI_BT_MAX_PERIODIC_LENGTH),
     table_entry 6 ''bp.gap.min_len'' Type_U8 (V_U8 UNI_BT_MIN_PERIODIC_LENGTH),
     table_entry 7 ''bp.mouse.scale'' Type_Float (V_F32 0x3f800000),
     (table_entry 8 ''bp.version'' Type_String (V_Str (Some UNI_VERSION_STRING)))\<lparr>read_only := True\<rparr>,
     table_entry 9 ''bp.virt_dev_en'' Type_Bool (V_Bool False)]"

text \<open>Eight more indices belong to another platform; the quadcopter's has no \<open>get_property\<close>.\<close>

definition UNI_PROPERTY_IDX_LAST :: nat where "UNI_PROPERTY_IDX_LAST = 10"
definition UNI_PROPERTY_IDX_COUNT :: nat where "UNI_PROPERTY_IDX_COUNT = 18"

definition get_property :: "nat \<Rightarrow> uni_property option" where
  "get_property i = (if UNI_PROPERTY_IDX_LAST \<le> i then None else Some (properties ! i))"

definition uni_property_init_debug :: "nat list" where
  "uni_property_init_debug = filter (\<lambda>i. pidx (properties ! i) \<noteq> i) [0..<length properties]"

fun find_property :: "string \<Rightarrow> nat list \<Rightarrow> uni_property option" where
  "find_property name [] = None"
| "find_property name (i # is) = (case get_property i of
     None \<Rightarrow> find_property name is
   | Some p \<Rightarrow> if pname p = name then Some p else find_property name is)"

definition uni_property_get_property_by_name :: "string option \<Rightarrow> uni_property option" where
  "uni_property_get_property_by_name name =
     (case name of None \<Rightarrow> None | Some n \<Rightarrow> find_property n [0..<UNI_PROPERTY_IDX_COUNT])"

section \<open>The back end\<close>

datatype nvs_item = Item_U8 u8 | Item_U32 u32 | Item_Str string

text \<open>
  The storage calls, over a state \<open>'s\<close>: \<open>nvs_open\<close> takes the name space and whether writing is
  asked for; the handle it gives is used until \<open>nvs_close\<close> and is left implicit.  \<open>nvs_get_str\<close> takes
  the size of the buffer.  An error code comes first.
\<close>

record 's nvs_api =
  nvs_flash_init :: "'s \<Rightarrow> int \<times> 's"
  nvs_flash_erase :: "'s \<Rightarrow> int \<times> 's"
  nvs_open :: "string \<Rightarrow> bool \<Rightarrow> 's \<Rightarrow> int \<times> 's"
  nvs_set_u8 :: "string \<Rightarrow> u8 \<Rightarrow> 's \<Rightarrow> int \<times> 's"
  nvs_set_u32 :: "string \<Rightarrow> u32 \<Rightarrow> 's \<Rightarrow> int \<times> 's"
  nvs_set_str :: "string \<Rightarrow> string \<Rightarrow> 's \<Rightarrow> int \<times> 's"
  nvs_get_u8 :: "string \<Rightarrow> 's \<Rightarrow> int \<times> u8"
  nvs_get_u32 :: "string \<Rightarrow> 's \<Rightarrow> int \<times> u32"
  nvs_get_str :: "string \<Rightarrow> nat \<Rightarrow> 's \<Rightarrow> int \<times> string"
  nvs_commit :: "'s \<Rightarrow> int \<times> 's"
  nvs_close :: "'s \<Rightarrow> 's"

definition STORAGE_NAMESPACE :: string where "STORAGE_NAMESPACE = ''bp32''"
definition PROPERTY_STRING_MAX_LEN :: nat where "PROPERTY_STRING_MAX_LEN = 128"

text \<open>The \<open>switch\<close> on the type; a NULL string is undefined.\<close>

definition store_value :: "'s nvs_api \<Rightarrow> uni_property \<Rightarrow> uni_property_value \<Rightarrow> 's \<Rightarrow> (int \<times> 's) option" where
  "store_value api p v s = (case ptype p of
     Type_Bool \<Rightarrow> map_option (\<lambda>n. nvs_set_u8 api (pname p) n s) (as_u8 v)
   | Type_U8 \<Rightarrow> map_option (\<lambda>n. nvs_set_u8 api (pname p) n s) (as_u8 v)
   | Type_U32 \<Rightarrow> map_option (\<lambda>n. nvs_set_u32 api (pname p) n s) (as_u32 v)
   | Type_Float \<Rightarrow> map_option (\<lambda>n. nvs_set_u32 api (pname p) n s) (as_u32 v)
   | Type_String \<Rightarrow> do { x \<leftarrow> as_str v; map_option (\<lambda>x. nvs_set_str api (pname p) x s) x })"

definition uni_property_set_with_property ::
  "'s nvs_api \<Rightarrow> uni_property option \<Rightarrow> uni_property_value \<Rightarrow> 's \<Rightarrow> 's option" where
  "uni_property_set_with_property api q v s = (case q of
     None \<Rightarrow> Some s
   | Some p \<Rightarrow>
       if read_only p then Some s
       else case nvs_open api STORAGE_NAMESPACE True s of (err, s1) \<Rightarrow>
         if err \<noteq> ESP_OK then Some s1
         else do {
           (err, s2) \<leftarrow> store_value api p v s1;
           let s3 = (if err \<noteq> ESP_OK then s2 else snd (nvs_commit api s2));
           Some (nvs_close api s3)
         })"

definition load_value :: "'s nvs_api \<Rightarrow> uni_property \<Rightarrow> 's \<Rightarrow> int \<times> uni_property_value" where
  "load_value api p s = (case ptype p of
     Type_Bool \<Rightarrow> map_prod id V_U8 (nvs_get_u8 api (pname p) s)
   | Type_U8 \<Rightarrow> map_prod id V_U8 (nvs_get_u8 api (pname p) s)
   | Type_U32 \<Rightarrow> map_prod id V_U32 (nvs_get_u32 api (pname p) s)
   | Type_Float \<Rightarrow> map_prod id V_F32 (nvs_get_u32 api (pname p) s)
   | Type_String \<Rightarrow> map_prod id (\<lambda>x. V_Str (Some x)) (nvs_get_str api (pname p) (PROPERTY_STRING_MAX_LEN - 1) s))"

text \<open>
  A string is returned in a static buffer that the next call reuses; the callers consume it before.
  A property that does not exist reads as the byte 0.
\<close>

definition uni_property_get_with_property ::
  "'s nvs_api \<Rightarrow> uni_property option \<Rightarrow> 's \<Rightarrow> uni_property_value \<times> 's" where
  "uni_property_get_with_property api q s = (case q of
     None \<Rightarrow> (V_U8 0, s)
   | Some p \<Rightarrow> (case nvs_open api STORAGE_NAMESPACE False s of (err, s1) \<Rightarrow>
       if err \<noteq> ESP_OK then (default_value p, s1)
       else case load_value api p s1 of (err, v) \<Rightarrow>
         (if err \<noteq> ESP_OK then default_value p else v, nvs_close api s1)))"

definition uni_property_set :: "'s nvs_api \<Rightarrow> nat \<Rightarrow> uni_property_value \<Rightarrow> 's \<Rightarrow> 's option" where
  "uni_property_set api i v s = (case get_property i of
     None \<Rightarrow> Some s | Some p \<Rightarrow> uni_property_set_with_property api (Some p) v s)"

definition uni_property_get :: "'s nvs_api \<Rightarrow> nat \<Rightarrow> 's \<Rightarrow> uni_property_value \<times> 's" where
  "uni_property_get api i s = (case get_property i of
     None \<Rightarrow> (V_U8 0, s) | Some p \<Rightarrow> uni_property_get_with_property api (Some p) s)"

text \<open>A failed check aborts the firmware.\<close>

definition uni_property_init :: "'s nvs_api \<Rightarrow> 's \<Rightarrow> 's option" where
  "uni_property_init api s = (case nvs_flash_init api s of (err, s1) \<Rightarrow>
     if err = ESP_ERR_NVS_NO_FREE_PAGES \<or> err = ESP_ERR_NVS_NEW_VERSION_FOUND then
       (case nvs_flash_erase api s1 of (err, s2) \<Rightarrow>
         if err \<noteq> ESP_OK then None
         else case nvs_flash_init api s2 of (err, s3) \<Rightarrow> if err \<noteq> ESP_OK then None else Some s3)
     else if err \<noteq> ESP_OK then None else Some s1)"

section \<open>The switch for virtual devices\<close>

definition uni_virtual_device_set_enabled :: "'s nvs_api \<Rightarrow> bool \<Rightarrow> bool \<times> 's \<Rightarrow> (bool \<times> 's) option" where
  "uni_virtual_device_set_enabled api e ws =
     (if e \<noteq> fst ws then map_option (Pair e) (uni_property_set api 9 (V_Bool e) (snd ws)) else Some ws)"

definition uni_virtual_device_init :: "'s nvs_api \<Rightarrow> 's \<Rightarrow> (bool \<times> 's) option" where
  "uni_virtual_device_init api s =
     (case uni_property_get api 9 s of (v, s1) \<Rightarrow> map_option (\<lambda>b. (b, s1)) (as_bool v))"

section \<open>What the storage promises\<close>

text \<open>
  The contents of the name space as a map.  A call that fails changes nothing, a read that succeeds
  returns what is there, a string only if it fits the buffer with its terminating NUL.
\<close>

definition nvs_documented :: "'s nvs_api \<Rightarrow> ('s \<Rightarrow> string \<Rightarrow> nvs_item option) \<Rightarrow> bool" where
  "nvs_documented api ct \<longleftrightarrow>
     (\<forall>ns rw s. ct (snd (nvs_open api ns rw s)) = ct s) \<and>
     (\<forall>s. ct (snd (nvs_commit api s)) = ct s \<and> ct (nvs_close api s) = ct s) \<and>
     (\<forall>k n s. ct (snd (nvs_set_u8 api k n s)) =
        (if fst (nvs_set_u8 api k n s) = ESP_OK then (ct s)(k \<mapsto> Item_U8 n) else ct s)) \<and>
     (\<forall>k n s. ct (snd (nvs_set_u32 api k n s)) =
        (if fst (nvs_set_u32 api k n s) = ESP_OK then (ct s)(k \<mapsto> Item_U32 n) else ct s)) \<and>
     (\<forall>k x s. ct (snd (nvs_set_str api k x s)) =
        (if fst (nvs_set_str api k x s) = ESP_OK then (ct s)(k \<mapsto> Item_Str x) else ct s)) \<and>
     (\<forall>k n s. nvs_get_u8 api k s = (ESP_OK, n) \<longrightarrow> ct s k = Some (Item_U8 n)) \<and>
     (\<forall>k n s. nvs_get_u32 api k s = (ESP_OK, n) \<longrightarrow> ct s k = Some (Item_U32 n)) \<and>
     (\<forall>k l x s. nvs_get_str api k l s = (ESP_OK, x) \<longrightarrow> ct s k = Some (Item_Str x) \<and> length x < l)"

text \<open>
  A storage with room: only keys of more than 15 characters and strings of 4000 bytes are refused,
  reads find what is there, and opening for reading fails only when the name space does not exist.
\<close>

definition nvs_works :: "'s nvs_api \<Rightarrow> ('s \<Rightarrow> string \<Rightarrow> nvs_item option) \<Rightarrow> bool" where
  "nvs_works api ct \<longleftrightarrow> nvs_documented api ct \<and>
     (\<forall>ns s. fst (nvs_open api ns True s) = ESP_OK) \<and>
     (\<forall>ns s. fst (nvs_open api ns False s) = ESP_OK \<or> ct s = Map.empty) \<and>
     (\<forall>k n s. length k \<le> 15 \<longrightarrow> fst (nvs_set_u8 api k n s) = ESP_OK) \<and>
     (\<forall>k n s. length k \<le> 15 \<longrightarrow> fst (nvs_set_u32 api k n s) = ESP_OK) \<and>
     (\<forall>k x s. length k \<le> 15 \<and> length x < 4000 \<longrightarrow> fst (nvs_set_str api k x s) = ESP_OK) \<and>
     (\<forall>k n s. ct s k = Some (Item_U8 n) \<longrightarrow> nvs_get_u8 api k s = (ESP_OK, n)) \<and>
     (\<forall>k n s. ct s k = Some (Item_U32 n) \<longrightarrow> nvs_get_u32 api k s = (ESP_OK, n)) \<and>
     (\<forall>k l x s. ct s k = Some (Item_Str x) \<and> length x < l \<longrightarrow> nvs_get_str api k l s = (ESP_OK, x))"

section \<open>The typed map\<close>

definition item_of :: "uni_property_type \<Rightarrow> uni_property_value \<Rightarrow> nvs_item option" where
  "item_of ty v = (case ty of
     Type_Bool \<Rightarrow> map_option Item_U8 (as_u8 v) | Type_U8 \<Rightarrow> map_option Item_U8 (as_u8 v)
   | Type_U32 \<Rightarrow> map_option Item_U32 (as_u32 v) | Type_Float \<Rightarrow> map_option Item_U32 (as_u32 v)
   | Type_String \<Rightarrow> (case as_str v of Some (Some x) \<Rightarrow> Some (Item_Str x) | _ \<Rightarrow> None))"

definition of_item :: "uni_property_type \<Rightarrow> nvs_item option \<Rightarrow> uni_property_value option" where
  "of_item ty it = (case (ty, it) of
     (Type_Bool, Some (Item_U8 n)) \<Rightarrow> Some (V_U8 n) | (Type_U8, Some (Item_U8 n)) \<Rightarrow> Some (V_U8 n)
   | (Type_U32, Some (Item_U32 n)) \<Rightarrow> Some (V_U32 n) | (Type_Float, Some (Item_U32 n)) \<Rightarrow> Some (V_F32 n)
   | (Type_String, Some (Item_Str x)) \<Rightarrow> (if length x < 127 then Some (V_Str (Some x)) else None)
   | _ \<Rightarrow> None)"

text \<open>What a property reads as: the stored item of its type, else the default.\<close>

definition view :: "(string \<Rightarrow> nvs_item option) \<Rightarrow> uni_property \<Rightarrow> uni_property_value" where
  "view m p = (case of_item (ptype p) (m (pname p)) of Some v \<Rightarrow> v | None \<Rightarrow> default_value p)"

text \<open>Values of a type, and what the caller sees in the member of that type.\<close>

definition typed :: "uni_property_type \<Rightarrow> uni_property_value \<Rightarrow> bool" where
  "typed ty v = (case (ty, v) of (Type_Bool, V_Bool _) \<Rightarrow> True | (Type_U8, V_U8 _) \<Rightarrow> True
   | (Type_U32, V_U32 _) \<Rightarrow> True | (Type_Float, V_F32 _) \<Rightarrow> True
   | (Type_String, V_Str (Some x)) \<Rightarrow> length x < 127 | _ \<Rightarrow> False)"

definition read_member :: "uni_property_type \<Rightarrow> uni_property_value \<Rightarrow> uni_property_value option" where
  "read_member ty v = (case ty of Type_Bool \<Rightarrow> map_option V_Bool (as_bool v) | Type_U8 \<Rightarrow> map_option V_U8 (as_u8 v)
   | Type_U32 \<Rightarrow> map_option V_U32 (as_u32 v) | Type_Float \<Rightarrow> map_option V_F32 (as_u32 v)
   | Type_String \<Rightarrow> map_option V_Str (as_str v))"

lemmas union_defs = as_u8_def as_u32_def as_bool_def as_str_def

lemma typed_item:
  "typed ty v \<Longrightarrow> \<exists>it. item_of ty v = Some it \<and> (\<exists>u. of_item ty (Some it) = Some u \<and> read_member ty u = Some v)"
  by (cases ty; cases v)
    (auto simp: typed_def item_of_def of_item_def read_member_def union_defs split: option.splits)

lemma typed_short: "typed Type_String (V_Str (Some x)) \<Longrightarrow> length x < 4000"
  by (simp add: typed_def)

subsection \<open>The back end under failures\<close>

text \<open>A typed value is stored by exactly one of the calls, under the name of the property.\<close>

definition put_item :: "'s nvs_api \<Rightarrow> string \<Rightarrow> nvs_item \<Rightarrow> 's \<Rightarrow> int \<times> 's" where
  "put_item api k it s = (case it of
     Item_U8 n \<Rightarrow> nvs_set_u8 api k n s | Item_U32 n \<Rightarrow> nvs_set_u32 api k n s | Item_Str x \<Rightarrow> nvs_set_str api k x s)"

lemma store_item: "item_of (ptype p) v = Some it \<Longrightarrow> store_value api p v s = Some (put_item api (pname p) it s)"
  by (cases "ptype p") (auto simp: item_of_def store_value_def put_item_def split: option.splits)

lemma put_documented:
  "nvs_documented api ct \<Longrightarrow>
     ct (snd (put_item api k it s)) = (if fst (put_item api k it s) = ESP_OK then (ct s)(k \<mapsto> it) else ct s)"
  by (cases it) (simp_all add: nvs_documented_def put_item_def)

lemma put_works:
  "nvs_works api ct \<Longrightarrow> length k \<le> 15 \<Longrightarrow> (\<forall>x. it = Item_Str x \<longrightarrow> length x < 4000) \<Longrightarrow>
     fst (put_item api k it s) = ESP_OK"
  by (cases it) (simp_all add: nvs_works_def put_item_def)

lemma neutral:
  assumes "nvs_documented api ct"
  shows "ct (snd (nvs_open api ns rw s)) = ct s" "ct (snd (nvs_commit api s)) = ct s" "ct (nvs_close api s) = ct s"
  using assms by (simp_all add: nvs_documented_def)

lemma set_unfold:
  assumes "nvs_documented api ct" "item_of (ptype p) v = Some it" "\<not> read_only p"
  shows "\<exists>s'. uni_property_set_with_property api (Some p) v s = Some s' \<and>
    ct s' = (if fst (nvs_open api STORAGE_NAMESPACE True s) = ESP_OK
      then ct (snd (put_item api (pname p) it (snd (nvs_open api STORAGE_NAMESPACE True s)))) else ct s)"
proof (cases "nvs_open api STORAGE_NAMESPACE True s")
  case (Pair err s1)
  moreover from this have "ct s1 = ct s" using neutral(1) [OF assms(1)] by (metis snd_conv)
  ultimately show ?thesis
    using assms(2,3) neutral(2,3) [OF assms(1)]
    by (simp add: uni_property_set_with_property_def store_item Let_def split: prod.splits)
qed

text \<open>Whatever fails, a write is done or not done.\<close>

lemma set_effect:
  assumes "nvs_documented api ct" "item_of (ptype p) v = Some it"
  shows "\<exists>s'. uni_property_set_with_property api (Some p) v s = Some s' \<and>
    (ct s' = ct s \<or> ct s' = (ct s)(pname p \<mapsto> it)) \<and> (read_only p \<longrightarrow> s' = s)"
proof (cases "read_only p")
  case False
  then show ?thesis
    using set_unfold [OF assms False, of s] put_documented [OF assms(1)] neutral(1) [OF assms(1)]
    by (metis (no_types, lifting))
qed (simp add: uni_property_set_with_property_def)

lemma set_success:
  assumes "nvs_works api ct" "item_of (ptype p) v = Some it" "\<not> read_only p" "length (pname p) \<le> 15"
    "\<forall>x. it = Item_Str x \<longrightarrow> length x < 4000"
  shows "\<exists>s'. uni_property_set_with_property api (Some p) v s = Some s' \<and> ct s' = (ct s)(pname p \<mapsto> it)"
proof -
  have d: "nvs_documented api ct" and o: "fst (nvs_open api STORAGE_NAMESPACE True s) = ESP_OK"
    using assms(1) by (simp_all add: nvs_works_def)
  show ?thesis
    using set_unfold [OF d assms(2,3), of s] put_documented [OF d] put_works [OF assms(1,4,5)] neutral(1) [OF d] o
    by simp
qed

text \<open>A read that fails gives the default; one that succeeds gives the stored item.\<close>

lemma map_result: "map_prod id f x = (e, v) \<longleftrightarrow> (\<exists>u. x = (e, u) \<and> v = f u)"
  by (cases x) auto

lemma get_sound:
  assumes "nvs_documented api ct"
  shows "nvs_get_u8 api k s = (ESP_OK, n) \<Longrightarrow> ct s k = Some (Item_U8 n)"
    "nvs_get_u32 api k s = (ESP_OK, m) \<Longrightarrow> ct s k = Some (Item_U32 m)"
    "nvs_get_str api k l s = (ESP_OK, x) \<Longrightarrow> ct s k = Some (Item_Str x) \<and> length x < l"
  using assms by (simp_all add: nvs_documented_def)

lemma load_sound:
  assumes "nvs_documented api ct" "load_value api p s = (ESP_OK, v)"
  shows "of_item (ptype p) (ct s (pname p)) = Some v"
proof -
  let ?k = "pname p"
  have "\<forall>n. nvs_get_u8 api ?k s = (0, n) \<longrightarrow> ct s ?k = Some (Item_U8 n)"
    "\<forall>n. nvs_get_u32 api ?k s = (0, n) \<longrightarrow> ct s ?k = Some (Item_U32 n)"
    "\<forall>x. nvs_get_str api ?k 127 s = (0, x) \<longrightarrow> ct s ?k = Some (Item_Str x) \<and> length x < 127"
    using get_sound [OF assms(1), where k = ?k and s = s] by simp_all
  then show ?thesis using assms(2)
    by (cases "ptype p") (auto simp: load_value_def of_item_def PROPERTY_STRING_MAX_LEN_def map_result)
qed

lemma load_complete:
  assumes "nvs_works api ct" "of_item (ptype p) (ct s (pname p)) = Some v"
  shows "load_value api p s = (ESP_OK, v)"
proof -
  let ?k = "pname p"
  have "\<forall>n. ct s ?k = Some (Item_U8 n) \<longrightarrow> nvs_get_u8 api ?k s = (0, n)"
    "\<forall>n. ct s ?k = Some (Item_U32 n) \<longrightarrow> nvs_get_u32 api ?k s = (0, n)"
    "\<forall>x. ct s ?k = Some (Item_Str x) \<and> length x < 127 \<longrightarrow> nvs_get_str api ?k 127 s = (0, x)"
    using assms(1) by (simp_all add: nvs_works_def)
  then show ?thesis using assms(2)
    by (cases "ptype p")
      (auto simp: load_value_def of_item_def PROPERTY_STRING_MAX_LEN_def map_result split: option.splits nvs_item.splits if_splits)
qed

lemma get_unfold:
  "uni_property_get_with_property api (Some p) s =
     (let r = nvs_open api STORAGE_NAMESPACE False s; l = load_value api p (snd r) in
      if fst r \<noteq> ESP_OK then (default_value p, snd r)
      else (if fst l \<noteq> ESP_OK then default_value p else snd l, nvs_close api (snd r)))"
  by (simp add: uni_property_get_with_property_def Let_def split: prod.splits)

lemma get_effect:
  assumes "nvs_documented api ct" "uni_property_get_with_property api (Some p) s = (v, s')"
  shows "ct s' = ct s" "v = default_value p \<or> v = view (ct s) p"
proof -
  let ?r = "nvs_open api STORAGE_NAMESPACE False s"
  have r: "ct (snd ?r) = ct s" by (rule neutral(1) [OF assms(1)])
  show "ct s' = ct s"
    using assms(2) r neutral(3) [OF assms(1)] by (auto simp: get_unfold Let_def split: if_splits)
  have "v = view (ct s) p" if "fst (load_value api p (snd ?r)) = ESP_OK" "v = snd (load_value api p (snd ?r))"
    using load_sound [OF assms(1), of p "snd ?r" v] that r by (simp add: view_def prod_eq_iff)
  then show "v = default_value p \<or> v = view (ct s) p"
    using assms(2) by (auto simp: get_unfold Let_def split: if_splits)
qed

lemma get_success:
  assumes "nvs_works api ct"
  shows "fst (uni_property_get_with_property api (Some p) s) = view (ct s) p"
proof -
  let ?r = "nvs_open api STORAGE_NAMESPACE False s"
  let ?l = "load_value api p (snd ?r)"
  have d: "nvs_documented api ct" using assms by (simp add: nvs_works_def)
  have r: "ct (snd ?r) = ct s" by (rule neutral(1) [OF d])
  have "view (ct s) p = default_value p" if "fst ?r \<noteq> ESP_OK"
  proof -
    have "ct s = Map.empty" using assms that by (auto simp: nvs_works_def)
    then show ?thesis by (cases "ptype p") (simp_all add: view_def of_item_def)
  qed
  moreover have "(if fst ?l \<noteq> ESP_OK then default_value p else snd ?l) = view (ct s) p"
  proof (cases "of_item (ptype p) (ct s (pname p))")
    case None
    then have "fst ?l \<noteq> ESP_OK" using load_sound [OF d, of p "snd ?r"] r by (metis option.distinct(1) prod.collapse)
    with None show ?thesis by (simp add: view_def)
  next
    case (Some u)
    then have "?l = (ESP_OK, u)" using load_complete [OF assms, of p "snd ?r"] r by simp
    with Some show ?thesis by (simp add: view_def)
  qed
  ultimately show ?thesis by (simp add: get_unfold Let_def)
qed

section \<open>The table as a map\<close>

lemma properties_ok:
  assumes "i < 10"
  shows "pidx (properties ! i) = i" "length (pname (properties ! i)) \<le> 15" "read_only (properties ! i) \<longleftrightarrow> i = 8"
    "get_property i = Some (properties ! i)"
    "read_member (ptype (properties ! i)) (default_value (properties ! i)) \<noteq> None"
proof -
  have "list_all (\<lambda>i. pidx (properties ! i) = i \<and> length (pname (properties ! i)) \<le> 15 \<and>
      (read_only (properties ! i) \<longleftrightarrow> i = 8) \<and>
      read_member (ptype (properties ! i)) (default_value (properties ! i)) \<noteq> None) [0..<10]" by code_simp
  then show "pidx (properties ! i) = i" "length (pname (properties ! i)) \<le> 15" "read_only (properties ! i) \<longleftrightarrow> i = 8"
    "read_member (ptype (properties ! i)) (default_value (properties ! i)) \<noteq> None"
    using assms by (auto simp: list_all_iff)
  show "get_property i = Some (properties ! i)"
    using assms by (simp add: get_property_def UNI_PROPERTY_IDX_LAST_def)
qed

lemma names_distinct: "distinct (map pname properties)" "length properties = 10"
  by code_simp+

lemma name_inj: "i < 10 \<Longrightarrow> j < 10 \<Longrightarrow> pname (properties ! i) = pname (properties ! j) \<longleftrightarrow> i = j"
  using names_distinct by (metis length_map nth_eq_iff_index_eq nth_map)

lemma no_property: "10 \<le> i \<Longrightarrow> get_property i = None"
  by (simp add: get_property_def UNI_PROPERTY_IDX_LAST_def)

lemma get_view:
  "nvs_works api ct \<Longrightarrow> i < 10 \<Longrightarrow> fst (uni_property_get api i s) = view (ct s) (properties ! i)"
  by (simp add: uni_property_get_def properties_ok(4) get_success)

text \<open>The switch bytes in the store are those of a \<open>bool\<close>.\<close>

definition clean :: "(string \<Rightarrow> nvs_item option) \<Rightarrow> bool" where
  "clean m \<longleftrightarrow> (\<forall>p \<in> set properties. ptype p = Type_Bool \<longrightarrow>
     (case m (pname p) of Some (Item_U8 n) \<Rightarrow> n = 0 \<or> n = 1 | _ \<Rightarrow> True))"

lemma view_readable:
  assumes "clean m" "i < 10"
  shows "read_member (ptype (properties ! i)) (view m (properties ! i)) \<noteq> None"
proof (cases "of_item (ptype (properties ! i)) (m (pname (properties ! i)))")
  case None
  then show ?thesis using properties_ok(5) [OF assms(2)] by (simp add: view_def)
next
  case (Some v)
  have "properties ! i \<in> set properties" using assms(2) names_distinct(2) by simp
  then have "case m (pname (properties ! i)) of Some (Item_U8 n) \<Rightarrow> n = 0 \<or> n = 1 | _ \<Rightarrow> True"
    if "ptype (properties ! i) = Type_Bool"
    using assms(1) that unfolding clean_def by blast
  then have b: "n = 0 \<or> n = 1" if "ptype (properties ! i) = Type_Bool" "m (pname (properties ! i)) = Some (Item_U8 n)" for n
    using that by auto
  show ?thesis
  proof (cases "ptype (properties ! i) = Type_Bool")
    case True
    then obtain n where "m (pname (properties ! i)) = Some (Item_U8 n)" "v = V_U8 n"
      using Some by (auto simp: of_item_def split: option.splits nvs_item.splits)
    with b [OF True this(1)] True show ?thesis
      by (auto simp: view_def of_item_def read_member_def union_defs)
  next
    case False
    with Some show ?thesis
      by (cases "ptype (properties ! i)")
        (auto simp: view_def of_item_def read_member_def union_defs split: option.splits nvs_item.splits if_splits)
  qed
qed

lemma typed_bool: "typed Type_Bool v \<Longrightarrow> item_of Type_Bool v = Some it \<Longrightarrow> it = Item_U8 0 \<or> it = Item_U8 1"
  by (cases v) (auto simp: typed_def item_of_def union_defs split: if_splits)

lemma clean_set:
  assumes "clean m" "i < 10" "typed (ptype (properties ! i)) v" "item_of (ptype (properties ! i)) v = Some it"
  shows "clean (m(pname (properties ! i) \<mapsto> it))"
proof -
  have "case (m(pname (properties ! i) \<mapsto> it)) (pname p) of Some (Item_U8 n) \<Rightarrow> n = 0 \<or> n = 1 | _ \<Rightarrow> True"
    if "p \<in> set properties" "ptype p = Type_Bool" for p
  proof (cases "pname p = pname (properties ! i)")
    case True
    from that(1) obtain j where "j < 10" "p = properties ! j" using names_distinct(2) by (metis in_set_conv_nth)
    then have "p = properties ! i" using True name_inj assms(2) by blast
    then have "it = Item_U8 0 \<or> it = Item_U8 1" using typed_bool assms(3,4) that(2) by simp
    with True show ?thesis by auto
  next
    case False
    with assms(1) that show ?thesis by (simp add: clean_def)
  qed
  then show ?thesis by (simp add: clean_def)
qed

text \<open>An instance of the storage: an association list, which exists once something is in it.\<close>

definition list_nvs :: "(string \<times> nvs_item) list nvs_api" where
  "list_nvs = \<lparr>nvs_flash_init = Pair 0, nvs_flash_erase = (\<lambda>s. (0, [])),
     nvs_open = (\<lambda>ns rw s. (if rw \<or> s \<noteq> [] then 0 else 0x1102, s)),
     nvs_set_u8 = (\<lambda>k n s. (0, (k, Item_U8 n) # s)), nvs_set_u32 = (\<lambda>k n s. (0, (k, Item_U32 n) # s)),
     nvs_set_str = (\<lambda>k x s. (0, (k, Item_Str x) # s)),
     nvs_get_u8 = (\<lambda>k s. case map_of s k of Some (Item_U8 n) \<Rightarrow> (0, n) | _ \<Rightarrow> (0x1102, 0)),
     nvs_get_u32 = (\<lambda>k s. case map_of s k of Some (Item_U32 n) \<Rightarrow> (0, n) | _ \<Rightarrow> (0x1102, 0)),
     nvs_get_str = (\<lambda>k l s. case map_of s k of
        Some (Item_Str x) \<Rightarrow> if length x < l then (0, x) else (0x110c, []) | _ \<Rightarrow> (0x1102, [])),
     nvs_commit = Pair 0, nvs_close = id\<rparr>"

lemma list_nvs_works: "nvs_works list_nvs map_of"
  by (auto simp: nvs_works_def nvs_documented_def list_nvs_def split: option.splits nvs_item.splits if_splits)

section \<open>The allowlist in the store\<close>

text \<open>The statics of the allowlist at a start-up on this storage.\<close>

definition stored_allowlist :: "'s nvs_api \<Rightarrow> 's \<Rightarrow> allowlist option" where
  "stored_allowlist api s = do {
     x \<leftarrow> as_str (fst (uni_property_get api 1 s));
     e \<leftarrow> as_bool (fst (uni_property_get api 0 s));
     Some (allowlist_reset x e)
   }"

lemma allowed_listed:
  "a \<noteq> zero_addr \<Longrightarrow> uni_bt_allowlist_is_allowed_addr a w \<longleftrightarrow> \<not> enforced w \<or> a \<in> listed w"
  by (simp add: uni_bt_allowlist_is_allowed_addr_def is_address_in_allowlist_def listed_def)

lemma list_text_length: "list_all addr_ok l \<Longrightarrow> length (list_text l) \<le> 18 * length l"
  by (induction l) (auto simp: length_addr)

lemma set_then_get:
  assumes "nvs_works api ct" "i < 10" "i \<noteq> 8" "typed (ptype (properties ! i)) v"
  shows "\<exists>s'. uni_property_set api i v s = Some s' \<and>
    read_member (ptype (properties ! i)) (fst (uni_property_get api i s')) = Some v \<and>
    (\<forall>j. j \<noteq> i \<longrightarrow> fst (uni_property_get api j s') = fst (uni_property_get api j s))"
proof -
  let ?p = "properties ! i"
  from typed_item [OF assms(4)] obtain it u where it: "item_of (ptype ?p) v = Some it"
    "of_item (ptype ?p) (Some it) = Some u" "read_member (ptype ?p) u = Some v" by blast
  have short: "\<forall>x. it = Item_Str x \<longrightarrow> length x < 4000"
    using it(2) by (auto simp: of_item_def split: uni_property_type.splits if_splits)
  obtain s' where s': "uni_property_set api i v s = Some s'" "ct s' = (ct s)(pname ?p \<mapsto> it)"
    using set_success [OF assms(1) it(1) _ _ short, of s] properties_ok(2-4) [OF assms(2)] assms(3)
    by (auto simp: uni_property_set_def)
  have "fst (uni_property_get api j s') = fst (uni_property_get api j s)" if "j \<noteq> i" for j
  proof (cases "j < 10")
    case True
    then have "view (ct s') (properties ! j) = view (ct s) (properties ! j)"
      using name_inj [OF True assms(2)] that s'(2) by (simp add: view_def)
    then show ?thesis using get_view [OF assms(1) True] by simp
  next
    case False
    then show ?thesis by (simp add: uni_property_get_def no_property)
  qed
  moreover have "view (ct s') ?p = u" using s'(2) it(2) by (simp add: view_def)
  ultimately show ?thesis using s'(1) it(3) get_view [OF assms(1,2), of s'] by auto
qed

section \<open>Properties\<close>

text \<open>
  The property store is a typed map with defaults.  On a storage with room, a value of
  the property's type written to a property of the table, other than the read-only version, is what
  the next read of it returns, whatever was stored before, and every other property reads as it did.
\<close>

theorem store_round_trip:
  assumes "nvs_works api ct" "i < 10" "i \<noteq> 8" "typed (ptype (properties ! i)) v"
  shows "\<exists>s'. uni_property_set api i v s = Some s' \<and>
    read_member (ptype (properties ! i)) (fst (uni_property_get api i s')) = Some v \<and>
    (\<forall>j. j \<noteq> i \<longrightarrow> fst (uni_property_get api j s') = fst (uni_property_get api j s))"
  by (rule set_then_get [OF assms])

theorem store_round_trip_witness:
  "\<exists>s'. uni_property_set list_nvs 4 (V_U8 7) [] = Some s' \<and>
     read_member Type_U8 (fst (uni_property_get list_nvs 4 s')) = Some (V_U8 7)"
proof -
  have p: "ptype (properties ! 4) = Type_U8" by code_simp
  have t: "typed (ptype (properties ! 4)) (V_U8 7)" by (simp add: p typed_def)
  from store_round_trip [OF list_nvs_works _ _ t, of "[]"] show ?thesis unfolding p by force
qed

text \<open>
  Whatever the storage refuses, setting a property does it or does not: the
  contents are those before or have exactly this one item replaced, the version and unknown indices are
  never written, and each property still reads as a value of its type.
\<close>

theorem store_fails_safe:
  assumes "nvs_documented api ct" "clean (ct s)" "i < 10 \<Longrightarrow> typed (ptype (properties ! i)) v"
  shows "\<exists>s'. uni_property_set api i v s = Some s' \<and> clean (ct s') \<and>
    (\<forall>k. ct s' k = ct s k \<or> (i < 10 \<and> k = pname (properties ! i) \<and> ct s' k = item_of (ptype (properties ! i)) v)) \<and>
    (i = 8 \<or> 10 \<le> i \<longrightarrow> s' = s) \<and>
    (\<forall>j < 10. read_member (ptype (properties ! j)) (fst (uni_property_get api j s')) \<noteq> None)"
proof -
  have read: "read_member (ptype (properties ! j)) (fst (uni_property_get api j s')) \<noteq> None"
    if "clean (ct s')" "j < 10" for j s'
    using get_effect(2) [OF assms(1)] view_readable [OF that] properties_ok(4,5) [OF that(2)]
    by (metis option.simps(5) prod.collapse uni_property_get_def)
  show ?thesis
  proof (cases "i < 10")
    case False
    then show ?thesis using assms(2) read by (auto simp: uni_property_set_def no_property)
  next
    case True
    note t = assms(3) [OF True]
    obtain it where it: "item_of (ptype (properties ! i)) v = Some it" using typed_item [OF t] by blast
    obtain s' where s': "uni_property_set api i v s = Some s'" "i = 8 \<longrightarrow> s' = s"
      "ct s' = ct s \<or> ct s' = (ct s)(pname (properties ! i) \<mapsto> it)"
      using set_effect [OF assms(1) it, of s] properties_ok(3,4) [OF True] by (auto simp: uni_property_set_def)
    moreover from this have "clean (ct s')" using assms(2) clean_set [OF assms(2) True t it] by auto
    ultimately show ?thesis using True it read by (auto split: if_splits)
  qed
qed

theorem store_fails_safe_witness:
  "\<exists>s'. uni_property_set (list_nvs\<lparr>nvs_set_u8 := (\<lambda>k n s. (0x1105, s))\<rparr>) 0 (V_Bool True) [] = Some s' \<and>
     read_member (ptype (properties ! 0)) (fst (uni_property_get (list_nvs\<lparr>nvs_set_u8 := (\<lambda>k n s. (0x1105, s))\<rparr>) 0 s')) \<noteq> None"
proof -
  let ?api = "list_nvs\<lparr>nvs_set_u8 := (\<lambda>k n s. (0x1105, s))\<rparr>"
  have d: "nvs_documented ?api map_of"
    by (auto simp: nvs_documented_def list_nvs_def split: option.splits nvs_item.splits if_splits)
  have c: "clean (map_of [])" by (simp add: clean_def)
  have t: "typed (ptype (properties ! 0)) (V_Bool True)" by code_simp
  have "0 < (10 :: nat)" by simp
  with store_fails_safe [OF d c, of 0 "V_Bool True", OF t] show ?thesis by blast
qed

text \<open>
  C40: A reboot.  When the list and the switch of the allowlist have been written through the
  property store to flash, the reads at the next start-up restore them: the same addresses are
  allowed, under the same switch.
\<close>

theorem allowlist_survives:
  assumes "nvs_works api ct" "allow_inv w"
  shows "\<exists>s1 s2 b. uni_property_set api 1 (V_Str (Some (list_text (addr_allow_list w)))) s = Some s1 \<and>
    uni_property_set api 0 (V_Bool (enforced w)) s1 = Some s2 \<and> stored_allowlist api s2 = Some b \<and>
    listed (uni_bt_allowlist_init b) = listed w \<and> enforced (uni_bt_allowlist_init b) = enforced w \<and>
    (\<forall>a. a \<noteq> zero_addr \<longrightarrow>
      (uni_bt_allowlist_is_allowed_addr a (uni_bt_allowlist_init b) \<longleftrightarrow> uni_bt_allowlist_is_allowed_addr a w))"
proof -
  let ?l = "list_text (addr_allow_list w)"
  let ?v = "w\<lparr>stored_list := Some ?l, stored_enabled := enforced w\<rparr>"
  have ty: "ptype (properties ! 0) = Type_Bool" "ptype (properties ! 1) = Type_String" by code_simp+
  have "length ?l < 127"
    using list_text_length [of "addr_allow_list w"] assms(2) by (simp add: allow_inv_def)
  then have t: "typed (ptype (properties ! 1)) (V_Str (Some ?l))" "typed (ptype (properties ! 0)) (V_Bool (enforced w))"
    unfolding ty by (simp_all add: typed_def)
  obtain s1 where s1: "uni_property_set api 1 (V_Str (Some ?l)) s = Some s1"
    "read_member Type_String (fst (uni_property_get api 1 s1)) = Some (V_Str (Some ?l))"
    using set_then_get [OF assms(1) _ _ t(1), of s] unfolding ty by auto
  obtain s2 where s2: "uni_property_set api 0 (V_Bool (enforced w)) s1 = Some s2"
    "read_member Type_Bool (fst (uni_property_get api 0 s2)) = Some (V_Bool (enforced w))"
    "fst (uni_property_get api 1 s2) = fst (uni_property_get api 1 s1)"
    using set_then_get [OF assms(1) _ _ t(2), of s1] unfolding ty by auto
  have "stored_allowlist api s2 = Some (allowlist_reset (stored_list ?v) (stored_enabled ?v))"
    using s1(2) s2(2,3) by (simp add: stored_allowlist_def read_member_def)
  moreover have "listed (uni_bt_allowlist_init (allowlist_reset (stored_list ?v) (stored_enabled ?v))) = listed w"
    "enforced (uni_bt_allowlist_init (allowlist_reset (stored_list ?v) (stored_enabled ?v))) = enforced w"
    using init_effect [of ?v] assms(2) by (simp_all add: allow_inv_def stored_ok_def listed_def)
  ultimately show ?thesis using s1(1) s2(1) by (metis allowed_listed)
qed

theorem allowlist_survives_witness:
  "\<exists>s1 s2 b. uni_property_set list_nvs 1 (V_Str (Some (list_text (addr_allow_list (allowlist_reset None False))))) [] = Some s1 \<and>
     uni_property_set list_nvs 0 (V_Bool False) s1 = Some s2 \<and> stored_allowlist list_nvs s2 = Some b \<and>
     listed (uni_bt_allowlist_init b) = {}"
  using allowlist_survives [OF list_nvs_works reset_inv(1), of "[]"] reset_inv(3)
  by (auto simp: allowlist_reset_def)

text \<open>
  The switch for virtual devices, as the start-up read it, can be set, and the
  next start-up reads what was set; on an empty storage it starts off.
\<close>

theorem virtual_switch:
  assumes "nvs_works api ct" "uni_virtual_device_init api s = Some ws"
  shows "\<exists>ws'. uni_virtual_device_set_enabled api e ws = Some ws' \<and> fst ws' = e \<and>
    map_option fst (uni_virtual_device_init api (snd ws')) = Some e \<and> (ct s = Map.empty \<longrightarrow> \<not> fst ws)"
proof -
  have ty: "ptype (properties ! 9) = Type_Bool" "default_value (properties ! 9) = V_Bool False" by code_simp+
  have start: "map_option fst (uni_virtual_device_init api x) = as_bool (view (ct x) (properties ! 9))" for x
    using get_view [OF assms(1), of 9 x]
    by (auto simp: uni_virtual_device_init_def option.map_comp o_def option.map_ident split: prod.splits)
  have "nvs_documented api ct" using assms(1) by (simp add: nvs_works_def)
  then have c: "ct (snd ws) = ct s"
    using assms(2) get_effect(1) [where api = api and ct = ct and p = "properties ! 9" and s = s] properties_ok(4) [of 9]
    by (auto simp: uni_virtual_device_init_def uni_property_get_def split: prod.splits)
  have b: "as_bool (view (ct s) (properties ! 9)) = Some (fst ws)" using start [of s] assms(2) by simp
  then have "\<not> fst ws" if "ct s = Map.empty" using that ty by (simp add: view_def of_item_def union_defs)
  moreover have "\<exists>ws'. uni_virtual_device_set_enabled api e ws = Some ws' \<and> fst ws' = e \<and>
    map_option fst (uni_virtual_device_init api (snd ws')) = Some e"
  proof (cases "e = fst ws")
    case True
    then show ?thesis using start [of "snd ws"] b c by (simp add: uni_virtual_device_set_enabled_def)
  next
    case False
    have "typed (ptype (properties ! 9)) (V_Bool e)" by (simp add: ty typed_def)
    then obtain s' where s': "uni_property_set api 9 (V_Bool e) (snd ws) = Some s'"
      "read_member Type_Bool (fst (uni_property_get api 9 s')) = Some (V_Bool e)"
      using set_then_get [OF assms(1), of 9 "V_Bool e" "snd ws"] ty by auto
    then have "as_bool (view (ct s') (properties ! 9)) = Some e"
      using get_view [OF assms(1), of 9 s'] by (simp add: read_member_def)
    then show ?thesis using False s'(1) start [of s'] by (simp add: uni_virtual_device_set_enabled_def)
  qed
  ultimately show ?thesis by blast
qed

theorem virtual_switch_witness:
  "\<exists>ws'. uni_virtual_device_set_enabled list_nvs True (False, []) = Some ws' \<and>
     map_option fst (uni_virtual_device_init list_nvs (snd ws')) = Some True"
proof -
  have "uni_virtual_device_init list_nvs [] = Some (False, [])" by code_simp
  from virtual_switch [OF list_nvs_works this, of True] show ?thesis by blast
qed

text \<open>
  The table is consistent: an entry stands at its own index, is found under its
  name, and names that the storage would refuse for their length do not occur.
\<close>

theorem names_found:
  "uni_property_init_debug = [] \<and>
   (\<forall>i < 10. uni_property_get_property_by_name (Some (pname (properties ! i))) = Some (properties ! i) \<and>
      length (pname (properties ! i)) \<le> 15) \<and>
   (\<forall>n. n \<notin> set (map pname properties) \<longrightarrow> uni_property_get_property_by_name (Some n) = None)"
proof -
  have "find_property n is = None" if "n \<notin> set (map pname properties)" for n "is"
    using that names_distinct(2)
    by (induction "is") (auto simp: get_property_def UNI_PROPERTY_IDX_LAST_def split: option.splits)
  moreover have "list_all (\<lambda>i. uni_property_get_property_by_name (Some (pname (properties ! i))) = Some (properties ! i)) [0..<10]"
    "uni_property_init_debug = []" by code_simp+
  ultimately show ?thesis
    using properties_ok(2) by (auto simp: uni_property_get_property_by_name_def list_all_iff)
qed

end
