(* ===== verification/Bt_Control.thy ===== *)
theory Bt_Control
  imports Bredr Property_Store
begin

text \<open>
  The rest of bt/uni_bt.c and bt/uni_bt_bredr.c, and bt/uni_bt_setup.c: the commands that other tasks leave for the Bluetooth task,
  scanning, the bonding keys, and what is sent to the controller at start-up.  The calls into BTstack are a log; the LE module and
  the LE service are calls.  \<open>None\<close> is a crash as in \<open>Hid_Device\<close>, or an access outside of a table.
\<close>

section \<open>Properties\<close>

definition gap_length :: "'s nvs_api \<Rightarrow> nat \<Rightarrow> 's \<Rightarrow> (int \<times> 's) option" where
  "gap_length api i s = (case uni_property_get api i s of (v, s1) \<Rightarrow> map_option (\<lambda>n. (uint n, s1)) (as_u8 v))"

definition uni_bt_get_gap_inquiry_length :: "'s nvs_api \<Rightarrow> 's \<Rightarrow> (int \<times> 's) option" where
  "uni_bt_get_gap_inquiry_length api = gap_length api 3"

definition uni_bt_get_gap_max_periodic_length :: "'s nvs_api \<Rightarrow> 's \<Rightarrow> (int \<times> 's) option" where
  "uni_bt_get_gap_max_periodic_length api = gap_length api 5"

definition uni_bt_get_gap_min_periodic_length :: "'s nvs_api \<Rightarrow> 's \<Rightarrow> (int \<times> 's) option" where
  "uni_bt_get_gap_min_periodic_length api = gap_length api 6"

definition uni_bt_set_gap_security_level :: "'s nvs_api \<Rightarrow> int \<Rightarrow> 's \<Rightarrow> 's option" where
  "uni_bt_set_gap_security_level api n = uni_property_set api 4 (V_U32 (word_of_int n))"

definition uni_bt_set_gap_inquiry_length :: "'s nvs_api \<Rightarrow> int \<Rightarrow> 's \<Rightarrow> 's option" where
  "uni_bt_set_gap_inquiry_length api n = uni_property_set api 3 (V_U8 (word_of_int n))"

definition uni_bt_set_gap_max_peridic_length :: "'s nvs_api \<Rightarrow> int \<Rightarrow> 's \<Rightarrow> 's option" where
  "uni_bt_set_gap_max_peridic_length api n = uni_property_set api 5 (V_U8 (word_of_int n))"

definition uni_bt_set_gap_min_peridic_length :: "'s nvs_api \<Rightarrow> int \<Rightarrow> 's \<Rightarrow> 's option" where
  "uni_bt_set_gap_min_peridic_length api n = uni_property_set api 6 (V_U8 (word_of_int n))"

section \<open>State\<close>

datatype control_call =
    Inquiry_Start int int int
  | Inquiry_Stop
  | Le_Scan bool
  | Drop_Bonding bd_addr
  | Le_Delete_Keys
  | Le_List_Keys
  | Set_Service bool
  | Oob_Enabled bool

text \<open>
  \<open>contexts\<close> and \<open>cmd_callback_idx\<close> are the registrations; \<open>pending\<close> is BTstack's list of those that wait, by their index.
  \<open>bonded\<close> are the addresses the link key iterator goes over, or \<open>None\<close> when it cannot be used.
\<close>

record 's control =
  link :: bredr
  contexts :: "u32 list"
  cmd_callback_idx :: nat
  pending :: "nat list"
  bt_scanning_enabled :: bool
  bt_allow_incoming_connections :: bool
  bt_bredr_enabled :: bool
  bonded :: "bd_addr list option"
  store :: 's
  ctl_log :: "control_call list"

definition CMD_CALLBACK_MAX :: nat where [simp]: "CMD_CALLBACK_MAX = 8"

definition CMD_BT_DEL_KEYS :: u16 where [simp]: "CMD_BT_DEL_KEYS = 0"
definition CMD_BT_LIST_KEYS :: u16 where [simp]: "CMD_BT_LIST_KEYS = 1"
definition CMD_BT_START_SCANNING :: u16 where [simp]: "CMD_BT_START_SCANNING = 2"
definition CMD_BT_STOP_SCANNING :: u16 where [simp]: "CMD_BT_STOP_SCANNING = 3"
definition CMD_DUMP_DEVICES :: u16 where [simp]: "CMD_DUMP_DEVICES = 4"
definition CMD_DISCONNECT_DEVICE :: u16 where [simp]: "CMD_DISCONNECT_DEVICE = 5"
definition CMD_BLE_SERVICE_ENABLE :: u16 where [simp]: "CMD_BLE_SERVICE_ENABLE = 6"
definition CMD_BLE_SERVICE_DISABLE :: u16 where [simp]: "CMD_BLE_SERVICE_DISABLE = 7"

definition ask :: "control_call \<Rightarrow> 's control \<Rightarrow> 's control" where
  "ask x c = c\<lparr>ctl_log := ctl_log c @ [x]\<rparr>"

section \<open>What the commands do\<close>

text \<open>The arguments of the call may be evaluated in any order, which makes no difference here.\<close>

definition uni_bt_bredr_scan_start :: "'s nvs_api \<Rightarrow> 's control \<Rightarrow> 's control option" where
  "uni_bt_bredr_scan_start api c = do {
     (len, s1) \<leftarrow> uni_bt_get_gap_inquiry_length api (store c);
     (mx, s2) \<leftarrow> uni_bt_get_gap_max_periodic_length api s1;
     (mn, s3) \<leftarrow> uni_bt_get_gap_min_periodic_length api s2;
     Some (ask (Inquiry_Start len mx mn) (c\<lparr>store := s3\<rparr>))
   }"

definition uni_bt_bredr_scan_stop :: "'s control \<Rightarrow> 's control" where
  "uni_bt_bredr_scan_stop = ask Inquiry_Stop"

definition uni_bt_bredr_delete_bonded_keys :: "'s control \<Rightarrow> 's control" where
  "uni_bt_bredr_delete_bonded_keys c = (case bonded c of
     None \<Rightarrow> c | Some keys \<Rightarrow> (fold (\<lambda>x. ask (Drop_Bonding x)) keys c)\<lparr>bonded := Some []\<rparr>)"

definition bluetooth_del_keys :: "'s control \<Rightarrow> 's control" where
  "bluetooth_del_keys c = ask Le_Delete_Keys (uni_bt_bredr_delete_bonded_keys c)"

text \<open>The BR/EDR keys are only printed.\<close>

definition bluetooth_list_keys :: "'s control \<Rightarrow> 's control" where
  "bluetooth_list_keys = ask Le_List_Keys"

definition start_scan :: "'s nvs_api \<Rightarrow> 's control \<Rightarrow> 's control option" where
  "start_scan api c = map_option (ask (Le_Scan True)) (uni_bt_bredr_scan_start api c)"

definition stop_scan :: "'s control \<Rightarrow> 's control" where
  "stop_scan c = ask (Le_Scan False) (uni_bt_bredr_scan_stop c)"

definition start_scanning :: "'s nvs_api \<Rightarrow> bool \<Rightarrow> 's control \<Rightarrow> 's control option" where
  "start_scanning api enabled c = map_option (ask (Oob_Enabled enabled))
     (if bt_scanning_enabled c \<noteq> enabled then
        (let c1 = c\<lparr>bt_scanning_enabled := enabled\<rparr> in if enabled then start_scan api c1 else Some (stop_scan c1))
      else Some c)"

text \<open>Dumping the devices only prints.\<close>

definition cmd_callback :: "'s nvs_api \<Rightarrow> bredr_env \<Rightarrow> u32 \<Rightarrow> 's control \<Rightarrow> 's control option" where
  "cmd_callback api e ctx c =
     (let cmd = ucast ctx :: u16; args = ucast (drop_bit 16 ctx) :: u16 in
      if cmd = CMD_BT_DEL_KEYS then Some (bluetooth_del_keys c)
      else if cmd = CMD_BT_LIST_KEYS then Some (bluetooth_list_keys c)
      else if cmd = CMD_BT_START_SCANNING then start_scanning api True c
      else if cmd = CMD_BT_STOP_SCANNING then start_scanning api False c
      else if cmd = CMD_DUMP_DEVICES then Some c
      else if cmd = CMD_DISCONNECT_DEVICE then
        (case uni_hid_device_get_instance_for_idx (uint args) of
           None \<Rightarrow> Some c | Some i \<Rightarrow> map_option (\<lambda>s. c\<lparr>link := s\<rparr>) (drop_dev e i (link c)))
      else if cmd = CMD_BLE_SERVICE_ENABLE then Some (ask (Set_Service True) c)
      else if cmd = CMD_BLE_SERVICE_DISABLE then Some (ask (Set_Service False) c)
      else Some c)"

section \<open>Leaving a command\<close>

definition get_next_callback_registration :: "'s control \<Rightarrow> 's control \<times> nat" where
  "get_next_callback_registration c =
     (let i = (cmd_callback_idx c + 1) mod CMD_CALLBACK_MAX in (c\<lparr>cmd_callback_idx := i\<rparr>, i))"

text \<open>BTstack does not link a registration that is linked already.\<close>

definition leave :: "u32 \<Rightarrow> 's control \<Rightarrow> 's control" where
  "leave ctx c = (case get_next_callback_registration c of (c1, i) \<Rightarrow>
     c1\<lparr>contexts := (contexts c1)[i := ctx], pending := (if i \<in> set (pending c1) then pending c1 else pending c1 @ [i])\<rparr>)"

definition uni_bt_del_keys_safe :: "'s control \<Rightarrow> 's control" where
  "uni_bt_del_keys_safe = leave (ucast CMD_BT_DEL_KEYS)"

definition uni_bt_list_keys_safe :: "'s control \<Rightarrow> 's control" where
  "uni_bt_list_keys_safe = leave (ucast CMD_BT_LIST_KEYS)"

definition uni_bt_start_scanning_and_autoconnect_safe :: "'s control \<Rightarrow> 's control" where
  "uni_bt_start_scanning_and_autoconnect_safe = leave (ucast CMD_BT_START_SCANNING)"

definition uni_bt_stop_scanning_safe :: "'s control \<Rightarrow> 's control" where
  "uni_bt_stop_scanning_safe = leave (ucast CMD_BT_STOP_SCANNING)"

definition uni_bt_enable_new_connections_safe :: "bool \<Rightarrow> 's control \<Rightarrow> 's control" where
  "uni_bt_enable_new_connections_safe enabled =
     (if enabled then uni_bt_start_scanning_and_autoconnect_safe else uni_bt_stop_scanning_safe)"

definition uni_bt_dump_devices_safe :: "'s control \<Rightarrow> 's control" where
  "uni_bt_dump_devices_safe = leave (ucast CMD_DUMP_DEVICES)"

definition uni_bt_disconnect_device_safe :: "int \<Rightarrow> 's control \<Rightarrow> 's control" where
  "uni_bt_disconnect_device_safe device_idx = leave (ucast CMD_DISCONNECT_DEVICE OR push_bit 16 (word_of_int device_idx))"

definition uni_bt_enable_service_safe :: "bool \<Rightarrow> 's control \<Rightarrow> 's control" where
  "uni_bt_enable_service_safe enabled = leave (ucast (if enabled then CMD_BLE_SERVICE_ENABLE else CMD_BLE_SERVICE_DISABLE))"

definition uni_bt_allow_incoming_connections :: "bool \<Rightarrow> 's control \<Rightarrow> 's control" where
  "uni_bt_allow_incoming_connections allow c = c\<lparr>bt_allow_incoming_connections := allow\<rparr>"

definition uni_bt_bredr_set_enabled :: "bool \<Rightarrow> 's control \<Rightarrow> 's control" where
  "uni_bt_bredr_set_enabled enabled c = c\<lparr>bt_bredr_enabled := enabled\<rparr>"

text \<open>The run loop takes the registrations off its list, first to last, and calls each.\<close>

fun run_pending :: "'s nvs_api \<Rightarrow> bredr_env \<Rightarrow> nat list \<Rightarrow> 's control \<Rightarrow> 's control option" where
  "run_pending api e [] c = Some (c\<lparr>pending := []\<rparr>)"
| "run_pending api e (i # ps) c =
     Option.bind (cmd_callback api e (contexts c ! i) (c\<lparr>pending := ps\<rparr>)) (run_pending api e ps)"

definition run_loop_callbacks :: "'s nvs_api \<Rightarrow> bredr_env \<Rightarrow> 's control \<Rightarrow> 's control option" where
  "run_loop_callbacks api e c = run_pending api e (pending c) c"

section \<open>Start-up\<close>

datatype setup_state = Setup_Btstack_In_Progress | Setup_Bluepad32_In_Progress | Setup_Ready

datatype setup_call =
    L2cap_Init
  | Hci_Handler
  | Security_Level int
  | Connectable bool
  | Discoverable bool
  | Page_Scan_Interlaced
  | Sdp_Init
  | Sdp_Register
  | L2cap_Service u16 u16 int
  | Link_Policy u16
  | Inquiry_Rssi_Eir
  | Role_Master
  | Le_Setup
  | Power_On
  | Simple_Pairing
  | Event_Filter u16 u16
  | Init_Complete
  | Service_Init

record start_up =
  phase :: setup_state
  setup_fn_idx :: nat
  sent :: "setup_call list"

text \<open>What the packet handler looks at: whether it is a packet of the host controller, and which.\<close>

datatype setup_packet = Not_Hci | Hci_State bool | Hci_Power_On_Failed | Hci_Other

text \<open>Whether a command can be sent now, the status of sending it, and whether the LE service is enabled.\<close>

record setup_answer =
  can_send :: bool
  send_status :: u8
  service_on :: bool

definition setup_fns :: "setup_call list" where
  "setup_fns = [Simple_Pairing, Event_Filter 0x500 0x1f00]"

text \<open>A command that is refused is not logged.\<close>

definition setup_call_next_fn :: "setup_answer \<Rightarrow> start_up \<Rightarrow> start_up option" where
  "setup_call_next_fn a s =
     (if \<not> can_send a then Some s
      else if length setup_fns \<le> setup_fn_idx s then None
      else if send_status a \<noteq> 0 then Some s
      else
        let s1 = s\<lparr>setup_fn_idx := setup_fn_idx s + 1, sent := sent s @ [setup_fns ! setup_fn_idx s]\<rparr> in
        Some (if setup_fn_idx s1 = length setup_fns
          then s1\<lparr>phase := Setup_Ready, sent := sent s1 @ Init_Complete # (if service_on a then [Service_Init] else [])\<rparr>
          else s1))"

definition uni_bt_setup_packet_handler :: "setup_packet \<Rightarrow> setup_answer \<Rightarrow> start_up \<Rightarrow> start_up option" where
  "uni_bt_setup_packet_handler p a s =
     (if p = Not_Hci then Some s
      else if phase s = Setup_Bluepad32_In_Progress then setup_call_next_fn a s
      else (case p of
          Hci_State working \<Rightarrow>
            if working then setup_call_next_fn a (s\<lparr>phase := Setup_Bluepad32_In_Progress\<rparr>) else Some s
        | _ \<Rightarrow> Some s))"

definition uni_bt_setup_is_ready :: "start_up \<Rightarrow> bool" where
  "uni_bt_setup_is_ready s \<longleftrightarrow> phase s = Setup_Ready"

text \<open>The start of \<open>uni_bt_packet_handler\<close>; once the set-up is done the packets go to the handlers of \<open>Bredr\<close>.\<close>

definition setup_dispatch :: "setup_packet \<times> setup_answer \<Rightarrow> start_up \<Rightarrow> start_up option" where
  "setup_dispatch x s = (if \<not> uni_bt_setup_is_ready s then uni_bt_setup_packet_handler (fst x) (snd x) s else Some s)"

definition UNI_BT_L2CAP_CHANNEL_MTU :: u16 where [simp]: "UNI_BT_L2CAP_CHANNEL_MTU = 0xffff"

definition uni_bt_sdp_server_init :: "setup_call list" where
  "uni_bt_sdp_server_init = [Sdp_Init, Sdp_Register]"

definition uni_bt_bredr_setup :: "int \<Rightarrow> setup_call list" where
  "uni_bt_bredr_setup security_level =
     [Security_Level security_level, Connectable True, Discoverable False, Page_Scan_Interlaced] @ uni_bt_sdp_server_init @
     [L2cap_Service PSM_HID_INTERRUPT UNI_BT_L2CAP_CHANNEL_MTU security_level,
      L2cap_Service PSM_HID_CONTROL UNI_BT_L2CAP_CHANNEL_MTU security_level,
      Link_Policy (4 OR 1), Inquiry_Rssi_Eir, Role_Master]"

text \<open>Whether it succeeded, by the answer of \<open>hci_power_control\<close>.\<close>

definition uni_bt_setup :: "bool \<Rightarrow> bool \<Rightarrow> int \<Rightarrow> bool \<Rightarrow> start_up \<Rightarrow> start_up \<times> bool" where
  "uni_bt_setup bredr_enabled ble_enabled security_level powered s =
     (s\<lparr>sent := sent s @ [L2cap_Init, Hci_Handler] @ (if bredr_enabled then uni_bt_bredr_setup security_level else []) @
        (if ble_enabled then [Le_Setup] else []) @ [Power_On]\<rparr>, powered)"

definition setup_boot :: start_up where
  "setup_boot = \<lparr>phase = Setup_Btstack_In_Progress, setup_fn_idx = 0, sent = []\<rparr>"

fun setup_run :: "(setup_packet \<times> setup_answer) list \<Rightarrow> start_up \<Rightarrow> start_up option" where
  "setup_run [] s = Some s"
| "setup_run (x # xs) s = Option.bind (setup_dispatch x s) (setup_run xs)"

section \<open>The commands are a queue of eight\<close>

fun commands :: "'s nvs_api \<Rightarrow> bredr_env \<Rightarrow> u32 list \<Rightarrow> 's control \<Rightarrow> 's control option" where
  "commands api e [] c = Some c"
| "commands api e (x # xs) c = Option.bind (cmd_callback api e x c) (commands api e xs)"

definition waiting :: "'s control \<Rightarrow> u32 list" where
  "waiting c = map (\<lambda>i. contexts c ! i) (pending c)"

lemma pending_first:
  "c\<lparr>pending := p, link := s\<rparr> = c\<lparr>link := s, pending := p\<rparr>"
  "c\<lparr>pending := p, bonded := b\<rparr> = c\<lparr>bonded := b, pending := p\<rparr>"
  "c\<lparr>pending := p, store := t\<rparr> = c\<lparr>store := t, pending := p\<rparr>"
  "c\<lparr>pending := p, bt_scanning_enabled := on\<rparr> = c\<lparr>bt_scanning_enabled := on, pending := p\<rparr>"
  by (cases c; simp)+

lemma ask_pending: "ask x (c\<lparr>pending := p\<rparr>) = (ask x c)\<lparr>pending := p\<rparr>" "contexts (ask x c) = contexts c" "pending (ask x c) = pending c"
  by (simp_all add: ask_def)

lemma drop_keys_pending:
  "fold (\<lambda>x. ask (Drop_Bonding x)) ks (c\<lparr>pending := p\<rparr>) = (fold (\<lambda>x. ask (Drop_Bonding x)) ks c)\<lparr>pending := p\<rparr>"
  "contexts (fold (\<lambda>x. ask (Drop_Bonding x)) ks c) = contexts c"
  by (induction ks arbitrary: c) (simp_all add: ask_pending)

lemma scan_start_pending:
  "uni_bt_bredr_scan_start api (c\<lparr>pending := p\<rparr>) = map_option (\<lambda>d. d\<lparr>pending := p\<rparr>) (uni_bt_bredr_scan_start api c)"
  "uni_bt_bredr_scan_start api c = Some d \<Longrightarrow> contexts d = contexts c"
  by (auto simp: uni_bt_bredr_scan_start_def ask_pending pending_first bind_eq_Some_conv split: bind_split)

lemma start_scanning_pending:
  "start_scanning api on (c\<lparr>pending := p\<rparr>) = map_option (\<lambda>d. d\<lparr>pending := p\<rparr>) (start_scanning api on c)"
  "start_scanning api on c = Some d \<Longrightarrow> contexts d = contexts c"
  by (auto simp: start_scanning_def start_scan_def stop_scan_def scan_start_pending uni_bt_bredr_scan_stop_def ask_pending pending_first
      option.map_comp o_def split: if_split_asm dest: scan_start_pending(2))

lemma keys_pending:
  "bluetooth_del_keys (c\<lparr>pending := p\<rparr>) = (bluetooth_del_keys c)\<lparr>pending := p\<rparr>" "contexts (bluetooth_del_keys c) = contexts c"
  by (simp_all add: bluetooth_del_keys_def uni_bt_bredr_delete_bonded_keys_def ask_pending drop_keys_pending pending_first split: option.split)

lemma cmd_pending:
  "cmd_callback api e x (c\<lparr>pending := p\<rparr>) = map_option (\<lambda>d. d\<lparr>pending := p\<rparr>) (cmd_callback api e x c)"
  "cmd_callback api e x c = Some d \<Longrightarrow> contexts d = contexts c"
  by (auto simp: cmd_callback_def Let_def ask_pending keys_pending start_scanning_pending bluetooth_list_keys_def option.map_comp o_def pending_first
      split: option.splits if_split_asm)

lemma run_pending_commands: "run_pending api e ps c = commands api e (map (\<lambda>i. contexts c ! i) ps) (c\<lparr>pending := []\<rparr>)"
proof (induction ps arbitrary: c)
  case (Cons i ps)
  show ?case
  proof (cases "cmd_callback api e (contexts c ! i) c")
    case (Some d)
    then show ?thesis using Cons cmd_pending(2) [OF Some] by (simp add: cmd_pending(1))
  qed (simp add: cmd_pending(1))
qed simp

lemma run_waiting: "run_loop_callbacks api e c = commands api e (waiting c) (c\<lparr>pending := []\<rparr>)"
  by (simp add: run_loop_callbacks_def run_pending_commands waiting_def)

lemma slots_differ: "(a + j) mod 8 = (a + k) mod 8 \<Longrightarrow> j < 8 \<Longrightarrow> k < (8 :: nat) \<Longrightarrow> j = k"
proof -
  assume a: "(a + j) mod 8 = (a + k) mod 8" and j: "j < 8" and k: "k < 8"
  have "(int a + int j) mod 8 = (int a + int k) mod 8" using arg_cong [OF a, of int] by (simp add: zmod_int)
  then have "8 dvd int j - int k" by (simp add: mod_eq_dvd_iff)
  then show "j = k" using j k by presburger
qed

text \<open>After as many commands as there are registrations, each is in its own.\<close>

lemma left_commands:
  assumes "pending c = []" "length (contexts c) = CMD_CALLBACK_MAX"
  shows "length xs \<le> CMD_CALLBACK_MAX \<Longrightarrow>
    pending (fold leave xs c) = map (\<lambda>j. (cmd_callback_idx c + 1 + j) mod 8) [0..<length xs] \<and>
    (\<forall>j < length xs. contexts (fold leave xs c) ! ((cmd_callback_idx c + 1 + j) mod 8) = xs ! j) \<and>
    (xs \<noteq> [] \<longrightarrow> cmd_callback_idx (fold leave xs c) = (cmd_callback_idx c + length xs) mod 8) \<and>
    length (contexts (fold leave xs c)) = CMD_CALLBACK_MAX"
proof (induction xs rule: rev_induct)
  case Nil
  then show ?case using assms by simp
next
  case (snoc x xs)
  let ?c = "fold leave xs c"
  let ?a = "cmd_callback_idx c + 1"
  have ih: "pending ?c = map (\<lambda>j. (?a + j) mod 8) [0..<length xs]" "\<And>j. j < length xs \<Longrightarrow> contexts ?c ! ((?a + j) mod 8) = xs ! j"
    "xs \<noteq> [] \<Longrightarrow> cmd_callback_idx ?c = (cmd_callback_idx c + length xs) mod 8" "length (contexts ?c) = 8"
    using snoc by auto
  have i: "(cmd_callback_idx ?c + 1) mod 8 = (?a + length xs) mod 8"
  proof (cases "xs = []")
    case False
    have "((cmd_callback_idx c + length xs) mod 8 + 1) mod 8 = (cmd_callback_idx c + length xs + 1) mod 8" by (rule mod_add_left_eq)
    then show ?thesis using ih(3) [OF False] by (simp only: ac_simps)
  qed simp
  have n: "(?a + length xs) mod 8 \<notin> set (pending ?c)"
  proof
    assume "(?a + length xs) mod 8 \<in> set (pending ?c)"
    then obtain j where "j < length xs" "(?a + length xs) mod 8 = (?a + j) mod 8" unfolding ih(1) set_map by auto
    then show False using slots_differ [of ?a "length xs" j] snoc.prems by simp
  qed
  have f: "fold leave (xs @ [x]) c = ?c\<lparr>cmd_callback_idx := (?a + length xs) mod 8, contexts := (contexts ?c)[(?a + length xs) mod 8 := x],
      pending := pending ?c @ [(?a + length xs) mod 8]\<rparr>"
    using n i by (simp add: leave_def get_next_callback_registration_def Let_def)
  have "(contexts ?c)[(?a + length xs) mod 8 := x] ! ((?a + j) mod 8) = (xs @ [x]) ! j" if "j < length xs + 1" for j
  proof (cases "j = length xs")
    case True
    then show ?thesis using ih(4) by simp
  next
    case False
    then have "(?a + length xs) mod 8 \<noteq> (?a + j) mod 8" "j < length xs"
      using that snoc.prems slots_differ [of ?a "length xs" j] by auto
    then show ?thesis using ih(2) [of j] by (simp add: nth_append)
  qed
  then show ?case unfolding f using ih(1,4) by simp
qed

text \<open>
  Up to eight commands that other tasks leave before the Bluetooth task looks are run, each once and in order.
  A ninth takes the registration of the first, which is still linked: the first command is lost, and the ninth is run in its place,
  before the seven that were left earlier.
\<close>

theorem commands_in_order:
  assumes "pending c = []" "length (contexts c) = CMD_CALLBACK_MAX" "length xs \<le> CMD_CALLBACK_MAX"
  shows "run_loop_callbacks api e (fold leave xs c) = commands api e xs ((fold leave xs c)\<lparr>pending := []\<rparr>) \<and>
    (length xs = CMD_CALLBACK_MAX \<longrightarrow> run_loop_callbacks api e (leave y (fold leave xs c)) =
       commands api e (y # tl xs) ((leave y (fold leave xs c))\<lparr>pending := []\<rparr>))"
proof -
  let ?a = "cmd_callback_idx c + 1"
  let ?c = "fold leave xs c"
  note l = left_commands [OF assms]
  have w: "waiting ?c = xs"
    using l assms(3) by (intro nth_equalityI) (simp_all add: waiting_def)
  have "waiting (leave y ?c) = y # tl xs" if n: "length xs = 8"
  proof -
    have "xs \<noteq> []" using n by auto
    then have i: "(cmd_callback_idx ?c + 1) mod 8 = ?a mod 8" using l n by (simp add: mod_simps)
    have p: "?a mod 8 \<in> set (pending ?c)" using l n by (auto intro!: image_eqI [of _ _ 0])
    have f: "leave y ?c = ?c\<lparr>cmd_callback_idx := ?a mod 8, contexts := (contexts ?c)[?a mod 8 := y]\<rparr>"
      using i p by (simp add: leave_def get_next_callback_registration_def Let_def)
    have "(contexts ?c)[?a mod 8 := y] ! ((?a + j) mod 8) = (y # tl xs) ! j" if "j < 8" for j
    proof -
      have cj: "contexts ?c ! ((?a + j) mod 8) = xs ! j" using l that n by simp
      show ?thesis
      proof (cases j)
        case 0
        then show ?thesis using l by simp
      next
        case (Suc k)
        then have "?a mod 8 \<noteq> (?a + j) mod 8" using slots_differ [of ?a 0 j] that by auto
        then show ?thesis using Suc that n cj by (simp add: nth_tl)
      qed
    qed
    then show ?thesis unfolding f waiting_def using l n by (intro nth_equalityI) auto
  qed
  then show ?thesis using w by (simp add: run_waiting)
qed

definition idle_control :: "(string \<times> nvs_item) list control" where
  "idle_control = \<lparr>link = bredr_start, contexts = replicate 8 0, cmd_callback_idx = 0, pending = [], bt_scanning_enabled = False,
     bt_allow_incoming_connections = True, bt_bredr_enabled = True, bonded = Some [], store = [], ctl_log = []\<rparr>"

theorem commands_in_order_witness:
  "\<forall>e. run_loop_callbacks list_nvs e (fold leave [2, 3] idle_control) = commands list_nvs e [2, 3] ((fold leave [2, 3] idle_control)\<lparr>pending := []\<rparr>)"
  using commands_in_order [of idle_control "[2, 3]" list_nvs] by (simp add: idle_control_def)

section \<open>Scanning is switched, not repeated\<close>

text \<open>The scans that were started, \<open>True\<close>, and stopped.\<close>

definition scans :: "'s control \<Rightarrow> bool list" where
  "scans c = concat (map (\<lambda>x. case x of Inquiry_Start _ _ _ \<Rightarrow> [True] | Inquiry_Stop \<Rightarrow> [False] | _ \<Rightarrow> []) (ctl_log c))"

definition scan_switch :: "'s control \<Rightarrow> bool" where
  "scan_switch c \<longleftrightarrow> (\<forall>k < length (scans c). scans c ! k = even k) \<and> (bt_scanning_enabled c \<longleftrightarrow> odd (length (scans c)))"

lemma switch_quiet: "scan_switch c \<Longrightarrow> bt_scanning_enabled d = bt_scanning_enabled c \<Longrightarrow> scans d = scans c \<Longrightarrow> scan_switch d"
  by (simp add: scan_switch_def)

lemma scans_ask: "scans (ask x c) = scans c @ (case x of Inquiry_Start _ _ _ \<Rightarrow> [True] | Inquiry_Stop \<Rightarrow> [False] | _ \<Rightarrow> [])"
  by (simp add: scans_def ask_def)

lemma enabled_ask: "bt_scanning_enabled (ask x c) = bt_scanning_enabled c"
  by (simp add: ask_def)

lemma switch_snoc:
  assumes "scan_switch c" "bt_scanning_enabled c \<noteq> on" "bt_scanning_enabled d = on" "scans d = scans c @ [on]"
  shows "scan_switch d"
  using assms by (auto simp: scan_switch_def nth_append less_Suc_eq)

lemma scans_drop: "scans (fold (\<lambda>x. ask (Drop_Bonding x)) ks c) = scans c"
    "bt_scanning_enabled (fold (\<lambda>x. ask (Drop_Bonding x)) ks c) = bt_scanning_enabled c"
  by (induction ks arbitrary: c) (simp_all add: scans_ask enabled_ask)

lemma switch_scanning:
  assumes "scan_switch c" "start_scanning api on c = Some d"
  shows "scan_switch d"
proof (cases "bt_scanning_enabled c = on")
  case True
  then show ?thesis using assms by (auto simp: start_scanning_def scans_ask enabled_ask intro: switch_quiet)
next
  case False
  then have "bt_scanning_enabled d = on \<and> scans d = scans c @ [on]"
    using assms(2) by (auto simp: start_scanning_def start_scan_def stop_scan_def uni_bt_bredr_scan_start_def uni_bt_bredr_scan_stop_def
        Let_def bind_eq_Some_conv scans_ask enabled_ask split: prod.splits if_split_asm) (simp_all add: scans_def)
  then show ?thesis using switch_snoc [OF assms(1) False, of d] by simp
qed

lemma switch_cmd:
  assumes "scan_switch c" "cmd_callback api e x c = Some d"
  shows "scan_switch d"
proof -
  have k: "scan_switch (bluetooth_del_keys c)"
    by (rule switch_quiet [OF assms(1)])
      (simp_all add: bluetooth_del_keys_def uni_bt_bredr_delete_bonded_keys_def scans_ask enabled_ask scans_drop split: option.split,
        simp_all add: scans_def [of "_\<lparr>bonded := _\<rparr>"] scans_def [symmetric] scans_drop)
  have a: "scan_switch (ask y c)" if "case y of Inquiry_Start _ _ _ \<Rightarrow> False | Inquiry_Stop \<Rightarrow> False | _ \<Rightarrow> True" for y
    by (rule switch_quiet [OF assms(1)]) (use that in \<open>simp_all add: scans_ask enabled_ask split: control_call.splits\<close>)
  have l: "scan_switch (c\<lparr>link := s\<rparr>)" for s
    by (rule switch_quiet [OF assms(1)]) (simp_all add: scans_def)
  show ?thesis using assms(2) k a l switch_scanning [OF assms(1)] assms(1)
    by (auto simp: cmd_callback_def Let_def bluetooth_list_keys_def split: if_split_asm option.splits)
qed

text \<open>
  Whatever commands are run, scans are started and stopped in turn, a start first, and the flag tells which was the last: a scan
  that runs is never started again.
\<close>

theorem scans_alternate: "scan_switch c \<Longrightarrow> commands api e xs c = Some d \<Longrightarrow> scan_switch d"
proof (induction xs arbitrary: c)
  case (Cons x xs)
  obtain c1 where "cmd_callback api e x c = Some c1" "commands api e xs c1 = Some d"
    using Cons.prems(2) by (auto simp: bind_eq_Some_conv)
  then show ?case using Cons.IH switch_cmd [OF Cons.prems(1)] by blast
qed simp

section \<open>The set-up ends\<close>

text \<open>A packet on which a command is sent and taken.\<close>

definition taken :: "setup_packet \<times> setup_answer \<Rightarrow> bool" where
  "taken x \<longleftrightarrow> fst x \<noteq> Not_Hci \<and> can_send (snd x) \<and> send_status (snd x) = 0"

lemma dispatch_taken:
  assumes "phase s = Setup_Bluepad32_In_Progress" "setup_fn_idx s < 2"
  shows "setup_dispatch x s = Some (if \<not> taken x then s
    else if setup_fn_idx s = 0 then s\<lparr>setup_fn_idx := 1, sent := sent s @ [Simple_Pairing]\<rparr>
    else s\<lparr>setup_fn_idx := 2, phase := Setup_Ready,
      sent := sent s @ Event_Filter 0x500 0x1f00 # Init_Complete # (if service_on (snd x) then [Service_Init] else [])\<rparr>)"
proof -
  have "setup_fn_idx s = 0 \<or> setup_fn_idx s = 1" using assms(2) by auto
  then show ?thesis using assms(1)
    by (auto simp: setup_dispatch_def uni_bt_setup_is_ready_def uni_bt_setup_packet_handler_def setup_call_next_fn_def taken_def
        setup_fns_def Let_def)
qed

lemma run_ready: "phase s = Setup_Ready \<Longrightarrow> setup_run xs s = Some s"
  by (induction xs) (simp_all add: setup_dispatch_def uni_bt_setup_is_ready_def)

definition service_part :: "setup_call list \<Rightarrow> bool" where
  "service_part xs \<longleftrightarrow> xs = [] \<or> xs = [Service_Init]"

lemma run_progress:
  "phase s = Setup_Bluepad32_In_Progress \<Longrightarrow> setup_fn_idx s < 2 \<Longrightarrow> sent s = pre @ take (setup_fn_idx s) setup_fns \<Longrightarrow>
   \<exists>s'. setup_run xs s = Some s' \<and> (phase s' = Setup_Ready \<longleftrightarrow> 2 \<le> setup_fn_idx s + length (filter taken xs)) \<and>
     (phase s' \<noteq> Setup_Ready \<longrightarrow> sent s' = pre @ take (setup_fn_idx s + length (filter taken xs)) setup_fns) \<and>
     (phase s' = Setup_Ready \<longrightarrow> (\<exists>p. service_part p \<and> sent s' = pre @ setup_fns @ Init_Complete # p))"
proof (induction xs arbitrary: s)
  case (Cons x xs)
  show ?case
  proof (cases "taken x")
    case False
    then show ?thesis using Cons dispatch_taken [OF Cons.prems(1,2), of x] by simp
  next
    case True
    show ?thesis
    proof (cases "setup_fn_idx s = 0")
      case z: True
      let ?s = "s\<lparr>setup_fn_idx := 1, sent := sent s @ [Simple_Pairing]\<rparr>"
      have "setup_dispatch x s = Some ?s" using dispatch_taken [OF Cons.prems(1,2), of x] True z by simp
      moreover have "\<exists>s'. setup_run xs ?s = Some s' \<and> (phase s' = Setup_Ready \<longleftrightarrow> 2 \<le> setup_fn_idx ?s + length (filter taken xs)) \<and>
          (phase s' \<noteq> Setup_Ready \<longrightarrow> sent s' = pre @ take (setup_fn_idx ?s + length (filter taken xs)) setup_fns) \<and>
          (phase s' = Setup_Ready \<longrightarrow> (\<exists>p. service_part p \<and> sent s' = pre @ setup_fns @ Init_Complete # p))"
        by (rule Cons.IH) (use Cons.prems z in \<open>simp_all add: setup_fns_def\<close>)
      ultimately show ?thesis using True z by simp
    next
      case False
      then have one: "setup_fn_idx s = 1" using Cons.prems(2) by simp
      let ?s = "s\<lparr>setup_fn_idx := 2, phase := Setup_Ready,
        sent := sent s @ Event_Filter 0x500 0x1f00 # Init_Complete # (if service_on (snd x) then [Service_Init] else [])\<rparr>"
      have "setup_dispatch x s = Some ?s" using dispatch_taken [OF Cons.prems(1,2), of x] True False by simp
      moreover have "setup_run xs ?s = Some ?s" by (rule run_ready) simp
      ultimately show ?thesis using one True Cons.prems(3) by (auto simp: setup_fns_def service_part_def)
    qed
  qed
qed simp

text \<open>
  The start-up meets no error whatever packets arrive; it is complete exactly when, from the packet on that says the
  controller works, two packets came on which a command could be sent and was taken, and then the two commands were sent in order,
  each once, and the platform was told once.
\<close>

theorem setup_exact:
  "\<exists>s. setup_run xs setup_boot = Some s \<and>
     (let n = length (filter taken (dropWhile (\<lambda>x. fst x \<noteq> Hci_State True) xs)) in
      (uni_bt_setup_is_ready s \<longleftrightarrow> 2 \<le> n) \<and>
      (n < 2 \<longrightarrow> sent s = take n setup_fns) \<and>
      (2 \<le> n \<longrightarrow> sent s = setup_fns @ [Init_Complete] \<or> sent s = setup_fns @ [Init_Complete, Service_Init]))"
proof (induction xs)
  case Nil
  then show ?case by (simp add: setup_boot_def uni_bt_setup_is_ready_def)
next
  case (Cons x xs)
  show ?case
  proof (cases "fst x = Hci_State True")
    case False
    then have "setup_dispatch x setup_boot = Some setup_boot"
      by (auto simp: setup_dispatch_def setup_boot_def uni_bt_setup_is_ready_def uni_bt_setup_packet_handler_def split: setup_packet.split)
    then show ?thesis using Cons False by simp
  next
    case True
    let ?p = "setup_boot\<lparr>phase := Setup_Bluepad32_In_Progress\<rparr>"
    have "setup_dispatch x setup_boot = setup_dispatch x ?p"
      using True by (simp add: setup_dispatch_def setup_boot_def uni_bt_setup_is_ready_def uni_bt_setup_packet_handler_def)
    then have r: "setup_run (x # xs) setup_boot = setup_run (x # xs) ?p" by simp
    have "\<exists>s'. setup_run (x # xs) ?p = Some s' \<and> (phase s' = Setup_Ready \<longleftrightarrow> 2 \<le> setup_fn_idx ?p + length (filter taken (x # xs))) \<and>
        (phase s' \<noteq> Setup_Ready \<longrightarrow> sent s' = [] @ take (setup_fn_idx ?p + length (filter taken (x # xs))) setup_fns) \<and>
        (phase s' = Setup_Ready \<longrightarrow> (\<exists>p. service_part p \<and> sent s' = [] @ setup_fns @ Init_Complete # p))"
      by (rule run_progress) (simp_all add: setup_boot_def)
    then show ?thesis unfolding r using True by (auto simp: setup_boot_def uni_bt_setup_is_ready_def service_part_def Let_def)
  qed
qed

end
