(* ===== verification/Spec2Isabelle.thy ===== *)
theory Spec2Isabelle
  imports Main_Tasks Mutex_Protocol Wifi_Server Rumble Report_Sender Dualsense Raw_Pads Switch_Pad Wii_Board Keyboard_Mouse Kept_Pads Bredr_Connect Bt_Control
begin

text \<open>
  EDNA 2.0 is the firmware of an ESP32 quadcopter.  A Bluetooth gamepad, read through Bluepad32 and
  BTstack, sets throttle and attitude setpoints; an MPU6050 and two Kalman filters give the attitude;
  three PID controllers and a mixer turn both into pulses for four ESCs; a WiFi task sends telemetry
  and accepts new gains.  This development models the firmware's own code and the part of Bluepad32
  a report passes on its way to the flight code.

  \<^bold>\<open>Theories and sources\<close> (paths under src/; a definition has the name of the C function it models).
  \<^item> \<open>Prelude\<close>, \<open>Machine_Float\<close>, \<open>C_Text\<close>, \<open>C_Utils\<close>: C integers, undefined behaviour as \<open>None\<close>, SDK
    calls as histories; the CRC of uni_utils.c and the scaling of uni_common.h; binary32 and binary64 with
    infinities, NaN, signed zero and round to nearest even; printf, strtof and strstr on strings.
  \<^item> \<open>Config\<close>: main/config.h.  \<open>Main_Tasks\<close>: main/main.c, app_main, the three tasks as iterations
    and as an interleaved event system.  \<open>Mutex_Protocol\<close>: the single reads and writes of the shared
    globals under setpoint_mutex, in the order of main.c, controller.c and telemetry.c.
  \<^item> \<open>Flight_Controller\<close>, \<open>Pid\<close>, \<open>Motor_Mix\<close>: components/flight_controller.  \<open>Kalman\<close>, \<open>Mpu6050\<close>:
    components/imu.  \<open>Esc\<close>: components/esc.  \<open>Controller\<close>: components/controller.
    \<open>Telemetry\<close>, \<open>Wifi_Server\<close>: components/telemetry.
  \<^item> \<open>Gamepad\<close>: bluepad32_component/controller/uni_gamepad.c.  \<open>Hid_Parser\<close>, \<open>Usage_Parsers\<close>,
    \<open>Rumble\<close>: bluepad32_component/parser, the value normalisation, the usage tables of seven parsers, and
    the rumble machines of the Stadia and Xbox parsers.  \<open>Hid_Device\<close>, \<open>Report_Sender\<close>:
    uni_hid_device.c and bt/uni_bt_conn.c.  \<open>Circular_Buffer\<close>: uni_circular_buffer.c.
    \<open>Dualshock\<close>, \<open>Dualsense\<close>: parser/uni_hid_parser_ds4.c and uni_hid_parser_ds5.c, from the set-up to
    the rumble timers.  \<open>Raw_Pads\<close>: uni_hid_parser_ds3.c, uni_hid_parser_psmove.c, uni_hid_parser_atari.c.
    \<open>Switch_Rumble\<close>, \<open>Switch_Pad\<close>: uni_hid_parser_switch.c, the rumble tables and everything else.
    \<open>Wii_Pad\<close>, \<open>Wii_Board\<close>: uni_hid_parser_wii.c, and the arithmetic of the Balance Board.
    \<open>Keyboard_Mouse\<close>: uni_hid_parser_keyboard.c and uni_hid_parser_mouse.c.  \<open>Kept_Pads\<close>:
    uni_hid_parser_icade.c and uni_hid_parser_steam.c, and what the device table keeps of a controller.
    \<open>Allowlist\<close>: bt/uni_bt_allowlist.c.  \<open>Sdp_Data\<close>, \<open>Bredr\<close>: bt/uni_bt_bredr.c, bt/uni_bt_sdp.c and the dispatch
    of bt/uni_bt.c, with btstack's sdp_util.c; \<open>Bredr_Law\<close>, \<open>Bredr_Connect\<close> hold what is proved of them.
    \<open>Bt_Control\<close>: the rest of these files and bt/uni_bt_setup.c, the commands of other tasks, scanning and start-up.
    \<open>Property_Store\<close>: uni_property.c, arch/uni_property_esp32.c and uni_virtual_device.c.
    \<open>Controller_Db\<close>: controller/uni_controller_type.c and its table.

  \<^bold>\<open>How the parts meet.\<close>  A report is parsed into a controller record (\<open>parse_report\<close>, \<open>ds4_report\<close>,
  \<open>ds5_report\<close>), stored in its device slot and handed over by \<open>uni_hid_device_process_controller\<close>, which remaps it and logs a
  platform event; this theory delivers the log to the callbacks of \<open>Controller\<close> (\<open>s_platform\<close>), which write
  the setpoints; \<open>Main_Tasks\<close> interleaves those callbacks with the IMU, flight and telemetry tasks; the
  flight task calls \<open>flight_controller_update\<close>, which calls \<open>pid_update\<close>, \<open>motor_mix\<close> and
  \<open>esc_set_motors_us\<close>.  \<open>Telemetry\<close> shares the controllers' gains with the flight task.

  \<^bold>\<open>What is shown.\<close>  For each component an invariant and its preservation by every operation, the
  function it computes on every branch, and its error paths; across components: no reachable state
  meets undefined behaviour or a duty outside the ESC range (\<open>system_safe\<close>), a kill reaches the motors
  and holds (\<open>kill_effective\<close>), snapshots under the mutex are consistent (\<open>snapshot_consistent\<close>), and
  whatever the radio does the setpoints stay in range (\<open>pipeline_safe\<close>).  Liveness is stated as such: the
  queue of outgoing reports drains when the stack accepts often enough (\<open>queue_drains\<close>), the recursive
  disconnect ends (\<open>disconnect_terminates\<close>), a DualSense, a Switch pad and a Wii remote that answer become ready (\<open>ds5_handshake\<close>,
  \<open>switch_handshake\<close>, \<open>wii_handshake\<close>).  For the drivers of raw reports: which reports they read without undefined
  behaviour, exactly, and where data of the pad decide that they do not (\<open>switch_full_report\<close>,
  \<open>wii_input_exact\<close>, \<open>board_weight_exact\<close>).  The set-up of a Steam controller is told apart by the
  queries that succeeded (\<open>steam_progress\<close>), an iCade is a set of held switches (\<open>icade_refines\<close>), and it is shown
  which keyboard reports have a meaning (\<open>keyboard_exact\<close>) and what becomes of a mouse movement (\<open>mouse_movement\<close>).
  A controller gets connected by a state machine over the events of the stack: only allowed devices do (\<open>bredr_allowlist\<close>), one
  that answers becomes ready with the descriptor it sent (\<open>bredr_connects\<close>), and one query that cannot be sent keeps every
  later device out (\<open>sdp_lock_forever\<close>).
  \<open>pipeline_safe\<close> is about the drivers whose axes stay in range, those included that change a stored controller;
  a Wii U Pro controller, a Balance Board and a mouse break the limits of the configuration (\<open>pro_overdrives\<close>,
  \<open>board_steers\<close>, \<open>mouse_steers\<close>), and of the Wii family it admits the others.
  Contracts are locales: \<open>bounded_queue\<close> for the ring, \<open>command_refinement\<close> for the allowlist, and one per kind of
  rumble machine, \<open>rumble_driver\<close>, \<open>quiet_driver\<close> and \<open>strict_driver\<close>, with the drivers that implement it,
  \<open>link_law\<close> for what the Bluetooth handlers keep, and those of the component theories; each is interpreted on the model.

  \<^bold>\<open>Bounds and fuel.\<close>  Device disconnect and delete recurse through \<open>child\<close> with fuel 4, the number of
  slots, which a chain of distinct slots cannot exceed; without virtual devices, as configured, one step is
  enough (\<open>drop_effect\<close>).  All other recursion is structural or has a measure.  Statements about
  floating point hold for all inputs in the ranges they name; the code's contraction to fused
  operations is assumed off.

  \<^bold>\<open>Parameters.\<close>  What the I2C bus, atan2f, the LEDC and WiFi drivers, the sockets, FreeRTOS takes, HID
  writes, l2cap_send, l2cap_create_channel, sdp_client_query, the NVS calls and gap_get_connection_type answer, the events of the host
  controller, and BTstack's walk over a report descriptor.

  \<^bold>\<open>Not modelled.\<close>  BTstack itself, and of bluepad32_component/bt the LE modules: they only make sense over a model of its
  GATT client and security manager.  The other platforms of Bluepad32, with their joystick conversion and the quadrature output
  for mice, are not selected by this firmware.  Functions that only print a device.
  Console commands, tools and scripts are not
  part of the flight path.  A gain update by telemetry is one atomic event of the system model although
  the code takes no mutex for it; task priorities and stack sizes have no counterpart.
\<close>

section \<open>From the radio to the setpoints\<close>

text \<open>
  The platform events of the device table, in the order of the log, as the callbacks of
  controller.c receive them; whether a callback gets the mutex is an argument per event.
\<close>

definition deliver :: "bool \<Rightarrow> plat_event \<Rightarrow> ctrl \<times> setpoints \<Rightarrow> (ctrl \<times> setpoints) option" where
  "deliver took ev s = (case ev of
     P_Connected _ \<Rightarrow> s_platform took Ev_Connected s
   | P_Disconnected _ \<Rightarrow> s_platform took Ev_Disconnected s
   | P_Ready _ \<Rightarrow> s_platform took Ev_Ready s
   | P_Data _ c \<Rightarrow> s_platform took (Ev_Data (gamepad c)) s
   | P_Oob _ \<Rightarrow> s_platform took Ev_Oob s
   | _ \<Rightarrow> Some s)"

fun deliver_all :: "(nat \<Rightarrow> bool) \<Rightarrow> plat_event list \<Rightarrow> ctrl \<times> setpoints \<Rightarrow> (ctrl \<times> setpoints) option" where
  "deliver_all took [] s = Some s"
| "deliver_all took (ev # evs) s = Option.bind (deliver (took 0) ev s) (deliver_all (\<lambda>n. took (Suc n)) evs)"

text \<open>
  What a driver makes of a report: one of the usage-driven parsers of a report with well-formed
  descriptors, or one of the drivers of raw reports, in any state it reaches, of any bytes at all; the
  Wii driver with the extensions that keep the range of the sticks.  The iCade and Steam drivers change what they find.
\<close>

inductive parsed :: "controller \<Rightarrow> controller \<Rightarrow> bool" where
  by_usage: "p \<noteq> P_Generic \<Longrightarrow> list_all field_ok fs \<Longrightarrow> parse_report p fs c = Some c' \<Longrightarrow> parsed c c'"
| by_ds4: "ds4_reach s \<Longrightarrow> unat len \<le> length r \<Longrightarrow> r \<noteq> [] \<Longrightarrow> ds4_report s r len c t = Some (c', t') \<Longrightarrow>
    parsed c c'"
| by_ds5: "ds5_reach s \<Longrightarrow> unat len \<le> length r \<Longrightarrow> r \<noteq> [] \<Longrightarrow> ds5_report s r len c t = Some (c', t') \<Longrightarrow>
    parsed c c'"
| by_ds3: "ds3_report r len (c, z) = Some (c', z') \<Longrightarrow> parsed c c'"
| by_atari: "atari_report r len c = Some c' \<Longrightarrow> parsed c c'"
| by_psmove: "psmove_report r len c = Some c' \<Longrightarrow> parsed c c'"
| by_switch: "sw_reach gap accept i (w, c, z) \<Longrightarrow>
    uni_hid_parser_switch_parse_input_report gap accept i r len (w, c, z) = Some (w', c', z') \<Longrightarrow> parsed c c'"
| by_wii: "wii_reach gap accept i (w, c, z) \<Longrightarrow> narrow_ext (ext_type z) \<Longrightarrow>
    wii_report gap accept i r len (w, c, z) = Some (w', c', z') \<Longrightarrow> parsed c c'"
| by_icade: "parsed c (icade_report m fs c)"
| by_steam: "uni_hid_parser_steam_parse_input_report r len c = Some c' \<Longrightarrow> parsed c c'"

lemma parsed_ok: "parsed c c' \<Longrightarrow> pad_ok (gamepad c) \<Longrightarrow> pad_ok (gamepad c')"
proof (induction rule: parsed.induct)
  case (by_usage p fs c c')
  then show ?case using parse_report_ok [of p fs c] by auto
next
  case (by_ds4 s len r c t c' t')
  then show ?case using ds4_report_ok [OF ds4_reach_inv [OF by_ds4(1)], of len r c t] by auto
next
  case (by_ds5 s len r c t c' t')
  then show ?case using ds5_report_ok [OF ds5_reach_inv [OF by_ds5(1)], of len r c t] by auto
next
  case (by_switch gap accept i w c z r len w' c' z')
  then show ?case
    using sw_reach_inv [OF by_switch(1)] sw_step_inv [of z c gap accept i "Sw_Report r len" w w' c' z']
    by (simp add: sw_step_def)
next
  case (by_wii gap accept i w c z r len w' c' z')
  then show ?case
    using wii_reach_inv [OF by_wii(1)] wii_report_inv [OF by_wii(3)] by (auto simp: narrow_ext_def)
qed (auto dest: ds3_report_ok atari_report_ok psmove_report_ok intro: icade_pad_ok steam_pad_ok)

text \<open>Worlds in which every report is what one of these drivers made of it.\<close>

inductive pad_reach :: "dev_env \<Rightarrow> bt_world \<Rightarrow> bool" for e where
  pad_start: "uni_hid_device_setup False = Some w \<Longrightarrow> pad_reach e w"
| pad_event: "pad_reach e w \<Longrightarrow> dev_event_ok e w ev \<Longrightarrow> (\<forall>i c. ev \<noteq> Dv_Report i c) \<Longrightarrow>
    dev_step e ev w = Some w' \<Longrightarrow> pad_reach e w'"
| pad_report: "pad_reach e w \<Longrightarrow> dev_event_ok e w (Dv_Report i c) \<Longrightarrow> parsed (ctl (devs w ! i)) c \<Longrightarrow>
    dev_step e (Dv_Report i c) w = Some w' \<Longrightarrow> pad_reach e w'"

definition stick_data :: "controller \<Rightarrow> bool" where
  "stick_data c \<longleftrightarrow> gamepad_ok (gamepad c)"

lemma view_sticks:
  assumes "stick_data c" "cfg_type cfg \<noteq> Map_Custom" "platform_view cfg c = Some c'"
  shows "stick_data c'"
  using assms
  by (cases "cfg_type cfg") (auto simp: platform_view_def remap_with_def uni_gamepad_remap_def
      remap_switch_def stick_data_def gamepad_ok_def Let_def split: if_splits)

text \<open>The drivers that keep their controller find one in range: every stored one is.\<close>

lemma pad_reach_inv: "pad_reach e w \<Longrightarrow> dev_inv stick_data w \<and> pads_stored w"
proof (induction rule: pad_reach.induct)
  case (pad_start w)
  then show ?case using setup_start dev_inv_start stored_start by simp
next
  case (pad_event w ev w')
  then show ?case using dev_step_inv [of stick_data w e ev] stored_kept [OF kept_step] by blast
next
  case (pad_report w i c w')
  have cfg: "cfg_type (env_cfg e) \<noteq> Map_Custom" and i: "i < length (devs w)"
    using pad_report.hyps(2) pad_report.IH by (simp_all add: dev_event_ok_def dev_inv_def)
  have c: "pad_ok (gamepad c)"
    using parsed_ok [OF pad_report.hyps(3)] pad_report.IH i by (simp add: pads_stored_def)
  then have "stick_data c" by (simp add: pad_ok_def stick_data_def)
  moreover have "uni_hid_device_process_controller (env_cfg e) i (upd i (\<lambda>d. d\<lparr>ctl := c\<rparr>) w) = Some w'"
    using pad_report.hyps(4) by (simp add: dev_step_def)
  ultimately show ?case
    using dev_step_inv [of stick_data w e "Dv_Report i c"] pad_report.IH pad_report.hyps view_sticks cfg
      stored_report [OF _ cfg _ c i] by blast
qed

lemma gated_all: "gated G xs \<Longrightarrow> P_Data i c \<in> set xs \<Longrightarrow> G c"
  unfolding gated_def by (metis split_list)

lemma deliver_ok:
  assumes "ctrl_ok s" "\<And>i c. ev = P_Data i c \<Longrightarrow> stick_data c"
  shows "\<exists>s'. deliver took ev s = Some s' \<and> ctrl_ok s'"
  using assms(1) ctrl_ok_event [OF assms(1)] assms(2)
  by (cases ev) (auto simp: deliver_def event_ok_def stick_data_def)

lemma deliver_all_ok:
  "ctrl_ok s \<Longrightarrow> (\<And>i c. P_Data i c \<in> set evs \<Longrightarrow> stick_data c) \<Longrightarrow>
   \<exists>s'. deliver_all took evs s = Some s' \<and> ctrl_ok s'"
proof (induction evs arbitrary: s took)
  case (Cons ev evs)
  from deliver_ok [OF Cons.prems(1), of ev "took 0"] Cons.prems(2) obtain s1
    where "deliver (took 0) ev s = Some s1" "ctrl_ok s1" by auto
  with Cons.IH [of s1 "\<lambda>n. took (Suc n)"] Cons.prems(2) show ?case by auto
qed simp

lemma deliver_all_append:
  "deliver_all took (xs @ ys) s =
     Option.bind (deliver_all took xs s) (deliver_all (\<lambda>n. took (n + length xs)) ys)"
  by (induction xs arbitrary: s took) (auto split: bind_splits)

section \<open>Controllers beyond the limits\<close>

text \<open>The device table passes the sticks on as they are, and a board's data without a look at them.\<close>

lemma view_axes:
  assumes "platform_view cfg c = Some c'" "cfg_type cfg \<noteq> Map_Custom"
  shows "axis_x (gamepad c') = axis_x (gamepad c)" "axis_y (gamepad c') = axis_y (gamepad c)"
    "axis_rx (gamepad c') = axis_rx (gamepad c)" "axis_ry (gamepad c') = axis_ry (gamepad c)"
  using assms
  by (cases "cfg_type cfg"; auto simp: platform_view_def remap_with_def uni_gamepad_remap_def remap_switch_def Let_def
      split: if_splits)+

lemma wide_frame:
  assumes "\<bar>axis_y gp\<bar> \<le> 2 ^ 12" "\<bar>axis_ry gp\<bar> \<le> 2 ^ 12" "1000 \<le> s_throttle_us k" "s_throttle_us k \<le> 1300"
    "\<not> has_flag (buttons gp) BUTTON_X"
  shows "\<exists>k' g'. on_gamepad_data True gp (k, g) = Some (k', g') \<and> g_motors_killed g' = 0 \<and>
    g_pitch_sp g' = normalize_angle (- axis_ry gp) \<and> g_roll_sp g' = normalize_angle (axis_rx gp) \<and>
    g_yaw_sp g' = normalize_yaw (axis_x gp)"
proof -
  have "int32_ok (- axis_ry gp)" using assms(2) by (auto simp: int32_ok_def)
  then show ?thesis
    using accumulate_wide [OF assms(1,3,4)] assms(5) by (auto simp: on_gamepad_data_def i32_def)
qed

lemma deliver_data: "deliver took (P_Data i c) s = on_gamepad_data took (gamepad c) s"
  by (simp add: deliver_def s_platform_def)

lemma pro_report:
  assumes "wii_report gap accept i r len (w, c, s) = Some (w', c', s')" "ext_type s = Ext_U_Pro_Controller"
    "r ! 0 = WII_REPORT_TYPE_KEE" "14 \<le> len" "unat len = length r"
  shows "axis_x (gamepad c') = pro_axis (r ! 3) (r ! 4)" "axis_rx (gamepad c') = pro_axis (r ! 5) (r ! 6)"
    "axis_y (gamepad c') = - pro_axis (r ! 7) (r ! 8)" "axis_ry (gamepad c') = - pro_axis (r ! 9) (r ! 10)"
proof -
  have l: "14 \<le> length r" using assms(4,5) by (simp add: word_le_nat_alt)
  then have n: "len \<noteq> 0" "\<not> len < 14" using assms(4) by (auto simp: not_less)
  have k: "process_drm_kee s r len (clear_pad c) = Some (drm_kee_pro (drop 3 r) (clear_pad c))"
    using n(2) by (simp add: process_drm_kee_def assms(2))
  have "wii_report gap accept i r len (w, c, s) = Some (w, drm_kee_pro (drop 3 r) (clear_pad c), s)"
    using n(1) by (simp add: wii_report_def uni_hid_parser_wii_parse_input_report_def assms(3,5) k)
  then have c: "c' = drm_kee_pro (drop 3 r) (clear_pad c)" using assms(1) by simp
  show "axis_x (gamepad c') = pro_axis (r ! 3) (r ! 4)" "axis_rx (gamepad c') = pro_axis (r ! 5) (r ! 6)"
    "axis_y (gamepad c') = - pro_axis (r ! 7) (r ! 8)" "axis_ry (gamepad c') = - pro_axis (r ! 9) (r ! 10)"
    using l by (simp_all add: c drm_kee_pro_def Let_def)
qed

lemma abs_512: "\<bar>x / 512 :: rat\<bar> = \<bar>x\<bar> / 512"
  by (simp add: abs_divide)

lemma scaled_limit: "\<bar>a\<bar> \<le> 819 \<Longrightarrow> 0 \<le> k \<Longrightarrow> \<bar>of_int (a * k) / 512 :: rat\<bar> \<le> of_int (819 * k) / 512"
proof -
  assume h: "\<bar>a\<bar> \<le> 819" "0 \<le> k"
  have "\<bar>a\<bar> * \<bar>k\<bar> \<le> 819 * k" using h by (intro mult_mono) auto
  then have "\<bar>a * k\<bar> \<le> 819 * k" by (simp only: abs_mult)
  then have b: "of_int \<bar>a * k\<bar> \<le> (of_int (819 * k) :: rat)" by (rule iffD2 [OF of_int_le_iff])
  show ?thesis unfolding abs_512 of_int_abs [symmetric] by (rule divide_right_mono [OF b]) simp
qed

text \<open>The bottom weights of a board, as the first stick axis, and what the yaw becomes of it.\<close>

lemma board_axis:
  assumes "1 \<le> unat (bb_bl b)" "unat (bb_bl b) < 32768"
  shows "65536 \<le> axis_x (board_view b gp)" "axis_x (board_view b gp) < 2 ^ 31"
proof -
  let ?y = "push_bit 16 (ucast (bb_bl b)) :: u32"
  let ?v = "ucast (bb_tl b) OR ?y :: u32"
  have "uint (bb_bl b) = int (unat (bb_bl b))" by simp
  then have u: "1 \<le> uint (bb_bl b)" "uint (bb_bl b) < 32768" using assms by linarith+
  have "uint ?y = take_bit 32 (push_bit 16 (uint (bb_bl b)))"
    by (simp only: unsigned_push_bit_eq) (simp add: uint_up_ucast is_up push_bit_eq_mult)
  also have "\<dots> = uint (bb_bl b) * 65536" using u by (simp add: push_bit_eq_mult take_bit_eq_mod)
  finally have y: "uint ?y = uint (bb_bl b) * 65536" .
  have x: "uint (ucast (bb_tl b) :: u32) = uint (bb_tl b)" by (simp add: uint_up_ucast is_up)
  have v: "uint ?v = uint (bb_tl b) OR (uint (bb_bl b) * 65536)" by (simp only: unsigned_or_eq x y)
  have "uint ?v < 2 ^ 31" unfolding v using u u16_range [of "bb_tl b"] by (intro OR_upper) auto
  moreover have "65536 \<le> uint ?v"
    unfolding v using u or_greater_eq [of "uint (bb_tl b)" "uint (bb_bl b) * 65536"] by (simp add: or.commute)
  moreover from calculation(1) have "sint ?v = uint ?v"
    unfolding sint_uint by (intro signed_take_bit_int_eq_self) (auto intro: order_trans [of _ 0])
  ultimately show "65536 \<le> axis_x (board_view b gp)" "axis_x (board_view b gp) < 2 ^ 31"
    by (simp_all add: board_view_def)
qed

lemma fits_2: "round32 (2 ^ k) = 2 ^ k" if "k < 128"
  using fits32_pow2 [OF that] by (simp add: round32_def round_val_exact)

lemma huge_yaw:
  assumes "65536 \<le> raw" "raw < 2 ^ 31"
  shows "is_finite (normalize_yaw raw) \<and> 11520 \<le> fvalue (normalize_yaw raw)"
proof -
  have r: "(2 ^ 16 :: rat) \<le> of_int raw" "(of_int raw :: rat) \<le> 2 ^ 31"
    using assms of_int_le_iff [of "2 ^ 16" raw, where ?'a = rat] of_int_le_iff [of raw "2 ^ 31", where ?'a = rat] by simp_all
  have m: "moderate (of_int raw)" using r by (intro small_moderate) auto
  have f: "is_finite (f32_of_int raw)" "fvalue (f32_of_int raw) = round32 (of_int raw)"
    using fround32_moderate(1,2) [OF m] by (simp_all add: f32_of_int_def round32_def)
  have v: "2 ^ 16 \<le> round32 (of_int raw)" "round32 (of_int raw) \<le> 2 ^ 31"
    using round32_mono [OF r(1)] round32_mono [OF r(2)] fits_2 [of 16] fits_2 [of 31] by simp_all
  have s: "is_finite (f32_of_int 512)" "fvalue (f32_of_int 512) = 512" "is_finite YAW_RATE_MAX" "fvalue YAW_RATE_MAX = 90"
    using f32_of_int_exact [of 512] by (simp_all add: config_simps)
  let ?q = "f32_of_int raw / f32_of_int 512"
  have qb: "2 ^ 7 \<le> round32 (of_int raw) / 512" "round32 (of_int raw) / 512 \<le> 2 ^ 22" using v by simp_all
  have "moderate (round32 (of_int raw) / 512)" using qb by (intro small_moderate) auto
  then have q: "is_finite ?q" "fvalue ?q = round32 (round32 (of_int raw) / 512)"
    using fin_div [OF f(1) s(1)] f(2) s(2) by (simp_all add: round32_def)
  have w: "2 ^ 7 \<le> fvalue ?q" "fvalue ?q \<le> 2 ^ 22"
    using round32_mono [OF qb(1)] round32_mono [OF qb(2)] fits_2 [of 7] fits_2 [of 22] by (simp_all add: q(2))
  have pb: "of_int 11520 \<le> fvalue ?q * 90" "\<bar>fvalue ?q * 90\<bar> \<le> 2 ^ 31" using w by simp_all
  then have "is_finite (?q * YAW_RATE_MAX)" "fvalue (?q * YAW_RATE_MAX) = round32 (fvalue ?q * 90)"
    using fin_mult [OF q(1) s(3)] s(4) small_moderate [OF pb(2)] by (simp_all add: round32_def)
  moreover have "of_int 11520 \<le> round32 (fvalue ?q * 90)" using round32_mono [OF pb(1)] round32_int [of 11520] by simp
  moreover have "\<not> \<bar>raw\<bar> < 20" using assms by simp
  then have "apply_deadband raw = f32_of_int raw" using assms(1) by (simp add: apply_deadband_def config_simps)
  ultimately show ?thesis by (simp add: normalize_yaw_def config_simps)
qed

lemma between32: "of_int l \<le> x \<Longrightarrow> x \<le> of_int u \<Longrightarrow> \<bar>l\<bar> < 2 ^ 24 \<Longrightarrow> \<bar>u\<bar> < 2 ^ 24 \<Longrightarrow>
    moderate x \<and> of_int l \<le> round_val binary32 x \<and> round_val binary32 x \<le> of_int u"
proof -
  assume h: "of_int l \<le> x" "x \<le> of_int u" "\<bar>l\<bar> < 2 ^ 24" "\<bar>u\<bar> < 2 ^ 24"
  have "- (2 ^ 24) \<le> (of_int l :: rat)" "(of_int u :: rat) \<le> 2 ^ 24"
    using h(3,4) of_int_le_iff [of "- (2 ^ 24)" l, where ?'a = rat] of_int_le_iff [of u "2 ^ 24", where ?'a = rat] by simp_all
  then have "\<bar>x\<bar> \<le> 2 ^ 24" using h(1,2) by (simp add: abs_le_iff)
  then have "moderate x" by (rule round_val_within) simp
  with h show ?thesis by (simp add: round_val_lower round_val_upper fits32_int)
qed

text \<open>A huge deflection takes the throttle to its minimum at once.\<close>

lemma throttle_falls:
  assumes "196608 \<le> y" "y < 2 ^ 24" "1000 \<le> s" "s \<le> 1300"
  shows "accumulate_throttle y s = Some 1000"
proof -
  let ?m = "- y"
  have m: "\<bar>?m\<bar> < 2 ^ 24" using assms(1,2) by simp
  note f = f32_of_int_exact [OF m]
  have d: "apply_deadband ?m = f32_of_int ?m" using assms(1) by (simp add: apply_deadband_def config_simps)
  let ?v = "fabs (f32_of_int ?m)"
  have v: "is_finite ?v" "fvalue ?v = of_int y" using fabs_fin [of "f32_of_int ?m"] f assms(1) by auto
  have k: "is_finite (f32_of_int 512)" "fvalue (f32_of_int 512) = 512" "is_finite (f32_of_int 1)" "fvalue (f32_of_int 1) = 1"
    using f32_of_int_exact [of 512] f32_of_int_exact [of 1] by auto
  have q: "(196608 :: rat) \<le> of_int y" "(of_int y :: rat) \<le> 16777216"
    using assms(1,2) of_int_le_iff [of 196608 y, where ?'a = rat] of_int_le_iff [of y 16777216, where ?'a = rat] by simp_all
  have q1: "of_int 384 \<le> fvalue ?v / fvalue (f32_of_int 512)" "fvalue ?v / fvalue (f32_of_int 512) \<le> of_int 32768"
    using q by (simp_all add: v k)
  let ?f = "?v / f32_of_int 512"
  have f1: "is_finite ?f" "of_int 384 \<le> fvalue ?f" "fvalue ?f \<le> of_int 32768"
    using fin_div [OF v(1) k(1)] between32 [OF q1] by (simp_all add: k)
  let ?g = "?f * f32_of_int 1"
  have g1: "is_finite ?g" "of_int 384 \<le> fvalue ?g" "fvalue ?g \<le> of_int 32768"
    using fin_mult [OF f1(1) k(3)] between32 [of 384 "fvalue ?f * fvalue (f32_of_int 1)" 32768] f1(2,3) by (simp_all add: k)
  let ?r = "f32_of_int 1 + ?g"
  have r: "is_finite ?r" "of_int 385 \<le> fvalue ?r" "fvalue ?r \<le> of_int 32769"
    using fin_add [OF k(3) g1(1)] between32 [of 385 "fvalue (f32_of_int 1) + fvalue ?g" 32769] g1(2,3) by (simp_all add: k)
  have "trunc_int ?r = Some \<lfloor>fvalue ?r\<rfloor>" using r(1,2) by (cases ?r) (auto simp: Let_def)
  moreover have "385 \<le> \<lfloor>fvalue ?r\<rfloor>" "\<lfloor>fvalue ?r\<rfloor> \<le> 32769" using r(2,3) by (simp_all add: le_floor_iff floor_le_iff)
  ultimately obtain n where n: "throttle_rate (f32_of_int ?m) = Some n" "385 \<le> n" "n \<le> 32769"
    by (auto simp: throttle_rate_def Let_def config_simps i32_def int32_ok_def)
  have "i32 ?m = Some ?m" using assms(1,2) by (simp add: i32_def int32_ok_def)
  then show ?thesis
    using n assms(1,3,4)
    by (simp add: accumulate_throttle_def d fp_zero_int [OF m] i32_def int32_ok_def clamp_throttle_def config_simps)
qed

text \<open>The wheel of a mouse is the third byte of what is read as the first stick's y axis.\<close>

lemma wheel_axis:
  assumes "3 \<le> scroll_wheel m"
  shows "196608 \<le> axis_y (mouse_view m)" "axis_y (mouse_view m) < 2 ^ 24"
proof -
  let ?w = "push_bit 16 (ucast (scroll_wheel m)) :: u32"
  let ?v = "ucast (ms_buttons m) OR ?w :: u32"
  have u: "3 \<le> uint (scroll_wheel m)" "uint (scroll_wheel m) < 256"
    using assms uint_bounds_u8 [of "scroll_wheel m"] by (simp_all add: word_le_def)
  have "uint ?w = take_bit 32 (push_bit 16 (uint (scroll_wheel m)))"
    by (simp only: unsigned_push_bit_eq) (simp add: uint_up_ucast is_up push_bit_eq_mult)
  also have "\<dots> = uint (scroll_wheel m) * 65536" using u by (simp add: push_bit_eq_mult take_bit_eq_mod)
  finally have w: "uint ?w = uint (scroll_wheel m) * 65536" .
  have "uint (ucast (ms_buttons m) :: u32) = uint (ms_buttons m)" by (simp add: uint_up_ucast is_up)
  then have v: "uint ?v = uint (ms_buttons m) OR (uint (scroll_wheel m) * 65536)" by (simp only: unsigned_or_eq w)
  have b: "uint ?v < 2 ^ 24" unfolding v using u u16_range [of "ms_buttons m"] by (intro OR_upper) auto
  moreover have "196608 \<le> uint ?v"
    unfolding v using u or_greater_eq [of "uint (ms_buttons m)" "uint (scroll_wheel m) * 65536"] by (simp add: or.commute)
  moreover have "sint ?v = uint ?v"
    unfolding sint_uint using b by (intro signed_take_bit_int_eq_self) (auto intro: order_trans [of _ 0])
  ultimately show "196608 \<le> axis_y (mouse_view m)" "axis_y (mouse_view m) < 2 ^ 24"
    by (simp_all add: mouse_view_def)
qed

lemma board_temperature: "process_balance_board s e len = Some b \<Longrightarrow> 0 \<le> bb_temperature b \<and> bb_temperature b \<le> 255"
  using uint_bounds_u8
  by (auto simp: process_balance_board_def board_zero_def bind_eq_Some_conv Let_def split: if_splits)

lemma board_report:
  assumes "wii_report gap accept i r len (w, c, s) = Some (w', c', s')" "ext_type s = Ext_Balance_Board"
    "r ! 0 = WII_REPORT_TYPE_KEE" "r \<noteq> []" "unat len = length r"
  shows "drm_kee_board s r len (clear_pad c) = Some c'"
proof -
  have "len \<noteq> 0" using assms(4,5) by auto
  then have "wii_report gap accept i r len (w, c, s) = map_option (\<lambda>c'. (w, c', s)) (drm_kee_board s r len (clear_pad c))"
    by (simp add: wii_report_def uni_hid_parser_wii_parse_input_report_def assms(2,3,5) process_drm_kee_def)
  with assms(1) show ?thesis by (cases "drm_kee_board s r len (clear_pad c)") simp_all
qed


section \<open>Properties\<close>









end
